(* ===== verification/Prelude.thy ===== *)
theory Prelude
  imports
    Main
    "HOL-Library.Word"
    "HOL-Library.AList"
    "HOL-Library.Product_Lexorder"
begin

text \<open>
  Shared vocabulary of the development: the Rust standard-library types the server is
  built on and the facts about them that every component uses.
  \<^item> \<open>DashMap\<close>/\<open>HashMap\<close>: an association list with distinct keys (\<open>dm_get\<close>, \<open>dm_put\<close>,
    \<open>dm_del\<close>, \<open>dm_upd\<close>, \<open>dm_or_insert\<close>); the list order stands for the (unspecified)
    iteration order, so no theorem may depend on it.
  \<^item> \<open>HashSet\<close>: a distinct list, likewise (\<open>hs_insert\<close>, \<open>hs_remove\<close>, \<open>hs_of_list\<close>).
  \<^item> \<open>slice::binary_search_by_key\<close>: the standard library's halving loop.
  \<^item> \<open>Result\<close>: a sum, \<open>Inl\<close> for \<open>Err\<close>.
  \<^item> a generic state machine with an invariant, as a locale, which every stateful
    component interprets.
\<close>

unbundle bit_operations_syntax

section \<open>Types and collections of facts\<close>

type_synonym i64_bits = "64 word"
type_synonym u64 = "64 word"
type_synonym u32 = "32 word"
type_synonym u8 = "8 word"
type_synonym ('k, 'v) dmap = "('k \<times> 'v) list"
type_synonym 'a hset = "'a list"

named_theorems result_iff \<open>when a fallible operation returns Ok\<close>
named_theorems dmap_simps \<open>lookup after an update of a concurrent map\<close>

section \<open>Results\<close>

definition is_ok :: "'e + 'a \<Rightarrow> bool" where
  "is_ok r = (case r of Inl _ \<Rightarrow> False | Inr _ \<Rightarrow> True)"

lemma is_ok_simps [simp]: "is_ok (Inl e) = False" "is_ok (Inr x) = True"
  by (simp_all add: is_ok_def)

lemma is_ok_iff [result_iff]: "is_ok r \<longleftrightarrow> (\<exists>x. r = Inr x)"
  by (cases r) auto

section \<open>Concurrent maps as association lists\<close>

definition dm_get :: "('k, 'v) dmap \<Rightarrow> 'k \<Rightarrow> 'v option" where
  "dm_get m k = map_of m k"

definition dm_put :: "'k \<Rightarrow> 'v \<Rightarrow> ('k, 'v) dmap \<Rightarrow> ('k, 'v) dmap" where
  "dm_put k v m = AList.update k v m"

definition dm_del :: "'k \<Rightarrow> ('k, 'v) dmap \<Rightarrow> ('k, 'v) dmap" where
  "dm_del k m = filter (\<lambda>e. fst e \<noteq> k) m"

definition dm_upd :: "'k \<Rightarrow> ('v \<Rightarrow> 'v) \<Rightarrow> ('k, 'v) dmap \<Rightarrow> ('k, 'v) dmap" where
  "dm_upd k f m = map (\<lambda>e. if fst e = k then (k, f (snd e)) else e) m"

definition dm_or_insert :: "'k \<Rightarrow> 'v \<Rightarrow> ('k, 'v) dmap \<Rightarrow> ('k, 'v) dmap" where
  "dm_or_insert k v m = (case dm_get m k of None \<Rightarrow> dm_put k v m | Some _ \<Rightarrow> m)"

definition dm_wf :: "('k, 'v) dmap \<Rightarrow> bool" where
  "dm_wf m = distinct (map fst m)"

lemma dm_get_Nil [simp]: "dm_get [] k = None"
  by (simp add: dm_get_def)

lemma dm_get_put [simp, dmap_simps]:
  "dm_get (dm_put k v m) k' = (if k' = k then Some v else dm_get m k')"
  by (simp add: dm_get_def dm_put_def update_conv')

lemma dm_get_del [simp, dmap_simps]:
  "dm_get (dm_del k m) k' = (if k' = k then None else dm_get m k')"
  by (induction m) (auto simp: dm_get_def dm_del_def)

lemma dm_get_upd [simp, dmap_simps]:
  "dm_get (dm_upd k f m) k' = (if k' = k then map_option f (dm_get m k) else dm_get m k')"
  by (induction m) (auto simp: dm_get_def dm_upd_def)

lemma dm_get_or_insert [simp, dmap_simps]:
  "dm_get (dm_or_insert k v m) k' =
     (if k' = k \<and> dm_get m k = None then Some v else dm_get m k')"
  by (auto simp: dm_or_insert_def split: option.splits)

lemma dm_wf_Nil [simp]: "dm_wf []"
  by (simp add: dm_wf_def)

lemma dm_wf_put [simp, intro]: "dm_wf m \<Longrightarrow> dm_wf (dm_put k v m)"
  by (simp add: dm_wf_def dm_put_def distinct_update)

lemma dm_wf_del [simp, intro]: "dm_wf m \<Longrightarrow> dm_wf (dm_del k m)"
  by (simp add: dm_wf_def dm_del_def distinct_map_filter)

lemma dm_keys_upd [simp]: "map fst (dm_upd k f m) = map fst m"
  by (induction m) (auto simp: dm_upd_def)

lemma dm_wf_upd [simp, intro]: "dm_wf m \<Longrightarrow> dm_wf (dm_upd k f m)"
  by (simp add: dm_wf_def)

lemma dm_wf_or_insert [simp, intro]: "dm_wf m \<Longrightarrow> dm_wf (dm_or_insert k v m)"
  by (auto simp: dm_or_insert_def split: option.splits)

lemma dm_get_in: "dm_wf m \<Longrightarrow> (k, v) \<in> set m \<longleftrightarrow> dm_get m k = Some v"
  by (simp add: dm_wf_def dm_get_def)

lemma dm_get_SomeD: "dm_get m k = Some v \<Longrightarrow> (k, v) \<in> set m"
  by (simp add: dm_get_def map_of_SomeD)

lemma dm_get_None: "dm_get m k = None \<longleftrightarrow> k \<notin> fst ` set m"
  by (simp add: dm_get_def map_of_eq_None_iff)

lemma dm_upd_id: "dm_get m k = None \<Longrightarrow> dm_upd k f m = m"
  by (induction m) (auto simp: dm_get_def dm_upd_def split: if_splits)

lemma dm_del_id: "dm_get m k = None \<Longrightarrow> dm_del k m = m"
  by (induction m) (auto simp: dm_get_def dm_del_def split: if_splits)

lemma dm_get_filter:
  "dm_wf m \<Longrightarrow> dm_get (filter P m) k =
     (case dm_get m k of Some v \<Rightarrow> if P (k, v) then Some v else None | None \<Rightarrow> None)"
  by (induction m) (auto simp: dm_wf_def dm_get_def map_of_eq_None_iff split: option.splits)

lemma dm_wf_filter [simp, intro]: "dm_wf m \<Longrightarrow> dm_wf (filter P m)"
  by (simp add: dm_wf_def distinct_map_filter)

lemma dm_in_put: "dm_wf m \<Longrightarrow> (a, b) \<in> set (dm_put k v m) \<longleftrightarrow> (if a = k then b = v else (a, b) \<in> set m)"
  by (auto simp: dm_get_in)

lemma dm_in_del: "(a, b) \<in> set (dm_del k m) \<longleftrightarrow> a \<noteq> k \<and> (a, b) \<in> set m"
  by (auto simp: dm_del_def)

definition dm_all :: "('v \<Rightarrow> bool) \<Rightarrow> ('k, 'v) dmap \<Rightarrow> bool" where
  "dm_all P m = (\<forall>e\<in>set m. P (snd e))"

lemma dm_all_Nil [simp]: "dm_all P []"
  by (simp add: dm_all_def)

lemma dm_all_get: "dm_all P m \<Longrightarrow> dm_get m k = Some v \<Longrightarrow> P v"
  by (auto simp: dm_all_def dest!: dm_get_SomeD)

lemma dm_all_put [intro]: "dm_all P m \<Longrightarrow> P v \<Longrightarrow> dm_all P (dm_put k v m)"
  unfolding dm_put_def dm_all_def by (induction m) auto

lemma dm_all_del [intro]: "dm_all P m \<Longrightarrow> dm_all P (dm_del k m)"
  by (simp add: dm_all_def dm_del_def)

lemma dm_all_upd [intro]: "dm_all P m \<Longrightarrow> (\<And>v. P v \<Longrightarrow> P (f v)) \<Longrightarrow> dm_all P (dm_upd k f m)"
  by (auto simp: dm_all_def dm_upd_def)

lemma dm_all_or_insert [intro]: "dm_all P m \<Longrightarrow> P v \<Longrightarrow> dm_all P (dm_or_insert k v m)"
  by (auto simp: dm_or_insert_def split: option.splits)

lemma fold_inv: "P s \<Longrightarrow> (\<And>x s. P s \<Longrightarrow> P (f x s)) \<Longrightarrow> P (fold f xs s)"
  by (induction xs arbitrary: s) auto

section \<open>Hash sets as distinct lists\<close>

definition hs_insert :: "'a \<Rightarrow> 'a hset \<Rightarrow> 'a hset" where
  "hs_insert x s = (if x \<in> set s then s else s @ [x])"

definition hs_remove :: "'a \<Rightarrow> 'a hset \<Rightarrow> 'a hset" where
  "hs_remove x s = filter (\<lambda>y. y \<noteq> x) s"

definition hs_of_list :: "'a list \<Rightarrow> 'a hset" where
  "hs_of_list xs = remdups xs"

lemma set_hs [simp]:
  "set (hs_insert x s) = insert x (set s)"
  "set (hs_remove x s) = set s - {x}"
  "set (hs_of_list xs) = set xs"
  by (auto simp: hs_insert_def hs_remove_def hs_of_list_def)

lemma distinct_hs [simp, intro]:
  "distinct s \<Longrightarrow> distinct (hs_insert x s)"
  "distinct s \<Longrightarrow> distinct (hs_remove x s)"
  "distinct (hs_of_list xs)"
  by (auto simp: hs_insert_def hs_remove_def hs_of_list_def)

section \<open>Binary search over a sorted vector\<close>

text \<open>
  \<open>slice::binary_search_by_key\<close>: \<open>Found i\<close> is \<open>Ok(i)\<close>, \<open>Insert_at i\<close> is \<open>Err(i)\<close>.
  The loop keeps a window \<open>[base, base + sz)\<close> and halves it until one element is left.
\<close>

datatype bsearch_result = Found nat | Insert_at nat

fun bs_loop :: "('a \<Rightarrow> int) \<Rightarrow> 'a list \<Rightarrow> int \<Rightarrow> nat \<Rightarrow> nat \<Rightarrow> nat" where
  "bs_loop f xs k base sz =
     (if 1 < sz
      then bs_loop f xs k (if k < f (xs ! (base + sz div 2)) then base else base + sz div 2)
             (sz - sz div 2)
      else base)"

declare bs_loop.simps [simp del]

definition bsearch :: "('a \<Rightarrow> int) \<Rightarrow> 'a list \<Rightarrow> int \<Rightarrow> bsearch_result" where
  "bsearch f xs k =
     (if xs = [] then Insert_at 0
      else let base = bs_loop f xs k 0 (length xs) in
        if f (xs ! base) = k then Found base
        else Insert_at (base + (if f (xs ! base) < k then 1 else 0)))"

definition key_sorted :: "('a \<Rightarrow> int) \<Rightarrow> 'a list \<Rightarrow> bool" where
  "key_sorted f xs = sorted_wrt (<) (map f xs)"

lemma key_sorted_simps [simp]:
  "key_sorted f []"
  "key_sorted f (x # xs) \<longleftrightarrow> (\<forall>y\<in>set xs. f x < f y) \<and> key_sorted f xs"
  by (auto simp: key_sorted_def)

lemma key_sorted_nth_less:
  "key_sorted f xs \<Longrightarrow> i < j \<Longrightarrow> j < length xs \<Longrightarrow> f (xs ! i) < f (xs ! j)"
  using sorted_wrt_nth_less [of "(<)" "map f xs" i j] by (simp add: key_sorted_def)

lemma key_sorted_nth_mono:
  "key_sorted f xs \<Longrightarrow> i \<le> j \<Longrightarrow> j < length xs \<Longrightarrow> f (xs ! i) \<le> f (xs ! j)"
  by (cases "i = j") (auto dest: key_sorted_nth_less [of f xs i j])

lemma key_sorted_inj:
  "key_sorted f xs \<Longrightarrow> i < length xs \<Longrightarrow> j < length xs \<Longrightarrow> f (xs ! i) = f (xs ! j) \<Longrightarrow> i = j"
  by (metis key_sorted_nth_less nat_neq_iff order_less_irrefl)

text \<open>
  The loop's invariant: the first element of the window is not above the key unless the
  window still starts at 0, and everything after the window is above the key.
\<close>

lemma bs_loop_bounds:
  assumes "0 < sz" "base + sz \<le> length xs"
  shows "base \<le> bs_loop f xs k base sz \<and> bs_loop f xs k base sz < base + sz"
  using assms
proof (induction f xs k base sz rule: bs_loop.induct)
  case (1 f xs k base sz)
  show ?case
  proof (cases "1 < sz")
    case True
    let ?b = "if k < f (xs ! (base + sz div 2)) then base else base + sz div 2"
    have "?b + (sz - sz div 2) \<le> base + sz" "0 < sz - sz div 2" "base \<le> ?b"
      using True by auto
    with "1.IH" [OF True] "1.prems" True show ?thesis
      by (subst (1 2) bs_loop.simps) (auto split: if_splits)
  next
    case False
    with "1.prems" show ?thesis by (subst (1 2) bs_loop.simps) auto
  qed
qed

lemma bs_loop_inv:
  assumes "key_sorted f xs" "0 < sz" "base + sz \<le> length xs"
    and "base = 0 \<or> f (xs ! base) \<le> k" and "\<forall>i. base + sz \<le> i \<longrightarrow> i < length xs \<longrightarrow> k < f (xs ! i)"
  shows "(bs_loop f xs k base sz = 0 \<or> f (xs ! bs_loop f xs k base sz) \<le> k) \<and>
         (\<forall>i. bs_loop f xs k base sz < i \<longrightarrow> i < length xs \<longrightarrow> k < f (xs ! i))"
  using assms
proof (induction f xs k base sz rule: bs_loop.induct)
  case (1 f xs k base sz)
  show ?case
  proof (cases "1 < sz")
    case True
    let ?m = "base + sz div 2"
    have m: "?m < length xs" and pos: "0 < sz - sz div 2"
      and le: "base + (sz - sz div 2) \<le> length xs"
      using "1.prems"(3) True by linarith+
    show ?thesis
    proof (cases "k < f (xs ! ?m)")
      case above: True
      have hi: "\<forall>i. base + (sz - sz div 2) \<le> i \<longrightarrow> i < length xs \<longrightarrow> k < f (xs ! i)"
      proof (intro allI impI)
        fix i assume i: "base + (sz - sz div 2) \<le> i" "i < length xs"
        then have "?m \<le> i" by linarith
        then show "k < f (xs ! i)"
          using key_sorted_nth_mono [OF "1.prems"(1) _ i(2)] above by force
      qed
      have "bs_loop f xs k base sz = bs_loop f xs k base (sz - sz div 2)"
        using True above by (subst bs_loop.simps) simp
      with "1.IH" [OF True, unfolded if_P [OF above], OF "1.prems"(1) pos le "1.prems"(4) hi]
      show ?thesis by simp
    next
      case below: False
      have lo: "?m = 0 \<or> f (xs ! ?m) \<le> k"
        using below by simp
      have eq: "?m + (sz - sz div 2) = base + sz" by simp
      have "bs_loop f xs k base sz = bs_loop f xs k ?m (sz - sz div 2)"
        using True below by (subst bs_loop.simps) simp
      with "1.IH" [OF True, unfolded if_not_P [OF below] eq, OF "1.prems"(1) pos "1.prems"(3) lo "1.prems"(5)]
      show ?thesis by simp
    qed
  next
    case False
    then have eq: "bs_loop f xs k base sz = base" by (subst bs_loop.simps) simp
    from False "1.prems" show ?thesis unfolding eq by auto
  qed
qed

lemma bsearch_Found: "xs \<noteq> [] \<Longrightarrow> bsearch f xs k = Found i \<Longrightarrow> i < length xs \<and> f (xs ! i) = k"
  using bs_loop_bounds [of "length xs" 0 xs f k]
  by (auto simp: bsearch_def Let_def split: if_splits)

lemma bsearch_FoundD: "bsearch f xs k = Found i \<Longrightarrow> i < length xs \<and> f (xs ! i) = k"
  by (cases "xs = []") (simp add: bsearch_def, rule bsearch_Found)

lemma bsearch_Insert_at:
  assumes s: "key_sorted f xs" and r: "bsearch f xs k = Insert_at p"
  shows "p \<le> length xs \<and> (\<forall>i<p. f (xs ! i) < k) \<and> (\<forall>i. p \<le> i \<longrightarrow> i < length xs \<longrightarrow> k < f (xs ! i))"
proof (cases "xs = []")
  case True
  with r show ?thesis by (simp add: bsearch_def)
next
  case False
  let ?b = "bs_loop f xs k 0 (length xs)"
  have b: "?b < length xs" using bs_loop_bounds [of "length xs" 0 xs f k] False by simp
  have inv: "?b = 0 \<or> f (xs ! ?b) \<le> k" "\<forall>i. ?b < i \<longrightarrow> i < length xs \<longrightarrow> k < f (xs ! i)"
    using bs_loop_inv [OF s, of "length xs" 0 k] False by auto
  have ne: "f (xs ! ?b) \<noteq> k" and p: "p = ?b + (if f (xs ! ?b) < k then 1 else 0)"
    using r False by (auto simp: bsearch_def Let_def split: if_splits)
  show ?thesis
  proof (cases "f (xs ! ?b) < k")
    case True
    then have "p = Suc ?b" using p by simp
    moreover have "f (xs ! i) < k" if "i < Suc ?b" for i
    proof -
      have "f (xs ! i) \<le> f (xs ! ?b)" using key_sorted_nth_mono [OF s, of i ?b] that b by simp
      with True show ?thesis by simp
    qed
    ultimately show ?thesis using b inv(2) by auto
  next
    case above: False
    then have "?b = 0" "p = 0" "k < f (xs ! 0)" using p inv(1) ne by auto
    moreover have "k < f (xs ! i)" if "i < length xs" for i
      using inv(2) that \<open>k < f (xs ! 0)\<close> \<open>?b = 0\<close> by (cases i) auto
    ultimately show ?thesis by simp
  qed
qed

text \<open>
  On a strictly sorted vector the search is the linear search, and inserting at the
  reported position keeps the vector strictly sorted.
\<close>

definition find_by_key :: "('a \<Rightarrow> int) \<Rightarrow> 'a list \<Rightarrow> int \<Rightarrow> 'a option" where
  "find_by_key f xs k =
     (case bsearch f xs k of Found i \<Rightarrow> Some (xs ! i) | Insert_at _ \<Rightarrow> None)"

lemma bsearch_Insert_at_notin:
  "key_sorted f xs \<Longrightarrow> bsearch f xs k = Insert_at p \<Longrightarrow> x \<in> set xs \<Longrightarrow> f x \<noteq> k"
  by (metis bsearch_Insert_at in_set_conv_nth less_irrefl not_le)

lemma find_by_key_Some:
  assumes "key_sorted f xs"
  shows "find_by_key f xs k = Some x \<longleftrightarrow> x \<in> set xs \<and> f x = k"
proof (cases "bsearch f xs k")
  case (Found i)
  with bsearch_FoundD [OF Found] key_sorted_inj [OF assms] show ?thesis
    by (auto simp: find_by_key_def in_set_conv_nth)
next
  case (Insert_at p)
  with bsearch_Insert_at_notin [OF assms Insert_at] show ?thesis
    by (auto simp: find_by_key_def)
qed

lemma find_by_key_SomeD: "find_by_key f xs k = Some x \<Longrightarrow> x \<in> set xs \<and> f x = k"
  using bsearch_FoundD [of f xs k] by (auto simp: find_by_key_def split: bsearch_result.splits)

lemma find_by_key_None:
  "key_sorted f xs \<Longrightarrow> find_by_key f xs k = None \<longleftrightarrow> (\<forall>x\<in>set xs. f x \<noteq> k)"
  using find_by_key_Some [of f xs k] by (metis not_None_eq)

lemma find_by_key_eq_find:
  assumes "key_sorted f xs"
  shows "find_by_key f xs k = List.find (\<lambda>x. f x = k) xs"
proof (cases "find_by_key f xs k")
  case None
  then have "\<forall>x\<in>set xs. f x \<noteq> k" using find_by_key_None [OF assms] by simp
  then have "List.find (\<lambda>x. f x = k) xs = None" by (auto simp: find_None_iff)
  with None show ?thesis by simp
next
  case (Some x)
  then have x: "x \<in> set xs" "f x = k" using find_by_key_Some [OF assms] by auto
  then have "List.find (\<lambda>x. f x = k) xs \<noteq> None" by (auto simp: find_None_iff)
  then obtain y where y: "List.find (\<lambda>x. f x = k) xs = Some y" by blast
  then have "y \<in> set xs" "f y = k" by (auto simp: find_Some_iff)
  then have "find_by_key f xs k = Some y" using find_by_key_Some [OF assms] by simp
  with y show ?thesis by simp
qed

lemma key_sorted_sort:
  "distinct (map f xs) \<Longrightarrow> key_sorted f (sort_key f xs)"
  by (simp add: key_sorted_def strict_sorted_iff distinct_map)

lemma key_sorted_filter: "key_sorted f xs \<Longrightarrow> key_sorted f (filter P xs)"
  by (induction xs) auto

lemma key_sorted_append:
  "key_sorted f (xs @ ys) \<longleftrightarrow> key_sorted f xs \<and> key_sorted f ys \<and> (\<forall>x\<in>set xs. \<forall>y\<in>set ys. f x < f y)"
  by (auto simp: key_sorted_def sorted_wrt_append)

definition list_insert_at :: "nat \<Rightarrow> 'a \<Rightarrow> 'a list \<Rightarrow> 'a list" where
  "list_insert_at p x xs = take p xs @ x # drop p xs"

definition list_remove_at :: "nat \<Rightarrow> 'a list \<Rightarrow> 'a list" where
  "list_remove_at p xs = take p xs @ drop (Suc p) xs"

lemma set_list_insert_at [simp]: "set (list_insert_at p x xs) = insert x (set xs)"
  by (metis append_take_drop_id list.simps(15) list_insert_at_def set_append Un_insert_right)

lemma key_sorted_take_drop:
  "key_sorted f xs \<Longrightarrow> key_sorted f (take p xs) \<and> key_sorted f (drop p xs)"
  by (metis append_take_drop_id key_sorted_append)

lemma key_sorted_insert_at:
  assumes s: "key_sorted f xs" and r: "bsearch f xs (f x) = Insert_at p"
  shows "key_sorted f (list_insert_at p x xs)"
proof -
  note ins = bsearch_Insert_at [OF s r]
  have l: "f y < f x" if "y \<in> set (take p xs)" for y
    using that ins by (auto simp: in_set_conv_nth)
  have u: "f x < f y" if "y \<in> set (drop p xs)" for y
    using that ins by (force simp: in_set_conv_nth)
  show ?thesis
    unfolding list_insert_at_def key_sorted_append
    using key_sorted_take_drop [OF s, of p] l u by (auto intro: less_trans)
qed

lemma key_sorted_remove_at:
  assumes "key_sorted f xs"
  shows "key_sorted f (list_remove_at p xs)"
proof -
  have "key_sorted f (take p xs @ drop p xs)" using assms by simp
  moreover have "set (drop (Suc p) xs) \<subseteq> set (drop p xs)"
    by (rule set_drop_subset_set_drop) simp
  ultimately show ?thesis
    unfolding list_remove_at_def key_sorted_append
    using key_sorted_take_drop [OF assms, of "Suc p"] by blast
qed

lemma remove_at_found:
  assumes s: "key_sorted f xs" and r: "bsearch f xs k = Found i"
  shows "list_remove_at i xs = filter (\<lambda>x. f x \<noteq> k) xs"
proof -
  note i = bsearch_FoundD [OF r]
  have split: "xs = take i xs @ (xs ! i) # drop (Suc i) xs"
    using i by (simp add: id_take_nth_drop)
  have "f y \<noteq> k" if "y \<in> set (take i xs) \<union> set (drop (Suc i) xs)" for y
    using s that i by (subst (asm) split) (fastforce simp: key_sorted_append)
  then have "filter (\<lambda>x. f x \<noteq> k) (take i xs @ (xs ! i) # drop (Suc i) xs) = list_remove_at i xs"
    using i by (simp add: list_remove_at_def filter_id_conv)
  with split show ?thesis by simp
qed

lemma key_sorted_update:
  "key_sorted f xs \<Longrightarrow> f y = f (xs ! i) \<Longrightarrow> i < length xs \<Longrightarrow> key_sorted f (xs[i := y])"
  by (simp add: key_sorted_def map_update) (metis list_update_id nth_map)

section \<open>State machines with an invariant\<close>

text \<open>
  A component is a step function over an operation type; an invariant every operation
  keeps holds after any sequence of operations from a state that satisfies it.
\<close>

primrec run_ops :: "('s \<Rightarrow> 'op \<Rightarrow> 's) \<Rightarrow> 's \<Rightarrow> 'op list \<Rightarrow> 's" where
  "run_ops step s [] = s"
| "run_ops step s (x # xs) = run_ops step (step s x) xs"

lemma run_ops_append: "run_ops step s (xs @ ys) = run_ops step (run_ops step s xs) ys"
  by (induction xs arbitrary: s) auto

locale guarded_machine =
  fixes step :: "'s \<Rightarrow> 'op \<Rightarrow> 's"
    and inv :: "'s \<Rightarrow> bool"
    and enabled :: "'s \<Rightarrow> 'op \<Rightarrow> bool"
  assumes guarded_step: "inv s \<Longrightarrow> enabled s x \<Longrightarrow> inv (step s x)"
begin

primrec run_enabled :: "'s \<Rightarrow> 'op list \<Rightarrow> bool" where
  "run_enabled s [] = True"
| "run_enabled s (x # xs) = (enabled s x \<and> run_enabled (step s x) xs)"

lemma guarded_run: "inv s \<Longrightarrow> run_enabled s xs \<Longrightarrow> inv (run_ops step s xs)"
  by (induction xs arbitrary: s) (auto intro: guarded_step)

end

text \<open>Operations that are legal whatever the state are the special case.\<close>

locale invariant_machine =
  fixes step :: "'s \<Rightarrow> 'op \<Rightarrow> 's"
    and inv :: "'s \<Rightarrow> bool"
    and legal :: "'op \<Rightarrow> bool"
  assumes step_inv: "inv s \<Longrightarrow> legal x \<Longrightarrow> inv (step s x)"
begin

lemma run_inv: "inv s \<Longrightarrow> \<forall>x\<in>set xs. legal x \<Longrightarrow> inv (run_ops step s xs)"
  by (induction xs arbitrary: s) (auto intro: step_inv)

lemma run_inv_prefix:
  assumes "inv s" and "\<forall>x\<in>set xs. legal x"
  shows "inv (run_ops step s (take n xs))"
  using assms by (intro run_inv) (auto dest: in_set_takeD)

end

sublocale invariant_machine \<subseteq> guarded: guarded_machine step inv "\<lambda>_. legal"
  by unfold_locales (rule step_inv)

section \<open>Sequencing of results\<close>

text \<open>The \<open>?\<close> operator, and the early return on a failed test.\<close>

definition bind_result :: "'e + 'a \<Rightarrow> ('a \<Rightarrow> 'e + 'b) \<Rightarrow> 'e + 'b" where
  "bind_result r f = (case r of Inl e \<Rightarrow> Inl e | Inr x \<Rightarrow> f x)"

definition guard :: "bool \<Rightarrow> 'e \<Rightarrow> 'e + unit" where
  "guard b e = (if b then Inr () else Inl e)"

lemma bind_result_simps [simp]: "bind_result (Inl e) f = Inl e" "bind_result (Inr x) f = f x"
  by (simp_all add: bind_result_def)

lemma bind_result_Inr [result_iff]: "bind_result r f = Inr y \<longleftrightarrow> (\<exists>x. r = Inr x \<and> f x = Inr y)"
  by (cases r) auto

lemma guard_Inr [result_iff]: "guard b e = Inr u \<longleftrightarrow> b"
  by (simp add: guard_def)

definition map_err :: "('e \<Rightarrow> 'f) \<Rightarrow> 'e + 'a \<Rightarrow> 'f + 'a" where
  "map_err f r = (case r of Inl e \<Rightarrow> Inl (f e) | Inr x \<Rightarrow> Inr x)"

definition ok_or :: "'a option \<Rightarrow> 'e \<Rightarrow> 'e + 'a" where
  "ok_or x e = (case x of Some v \<Rightarrow> Inr v | None \<Rightarrow> Inl e)"

definition opt_filter :: "('a \<Rightarrow> bool) \<Rightarrow> 'a option \<Rightarrow> 'a option" where
  "opt_filter P x = (case x of Some v \<Rightarrow> if P v then Some v else None | None \<Rightarrow> None)"

lemma ok_or_iff [result_iff]: "ok_or x e = Inr v \<longleftrightarrow> x = Some v"
  by (cases x) (auto simp: ok_or_def)

lemma opt_filter_iff [result_iff]: "opt_filter P x = Some v \<longleftrightarrow> x = Some v \<and> P v"
  by (cases x) (auto simp: opt_filter_def)

lemma map_err_iff [result_iff]: "map_err f r = Inr v \<longleftrightarrow> r = Inr v"
  by (cases r) (auto simp: map_err_def)

lemma map_err_simps [simp]: "map_err f (Inl e) = Inl (f e)" "map_err f (Inr x) = Inr x"
  by (simp_all add: map_err_def)

section \<open>Sequencing of fallible steps on a state\<close>

type_synonym ('s, 'e, 'a) step = "'s \<Rightarrow> ('e + 'a) \<times> 's"

definition st_return :: "'a \<Rightarrow> ('s, 'e, 'a) step" where
  "st_return x s = (Inr x, s)"

definition st_fail :: "'e \<Rightarrow> ('s, 'e, 'a) step" where
  "st_fail e s = (Inl e, s)"

definition st_lift :: "'e + 'a \<Rightarrow> ('s, 'e, 'a) step" where
  "st_lift r s = (r, s)"

definition st_modify :: "('s \<Rightarrow> 's) \<Rightarrow> ('s, 'e, unit) step" where
  "st_modify f s = (Inr (), f s)"

definition st_bind :: "('s, 'e, 'a) step \<Rightarrow> ('a \<Rightarrow> ('s, 'e, 'b) step) \<Rightarrow> ('s, 'e, 'b) step" where
  "st_bind m f s = (case m s of (Inl e, s') \<Rightarrow> (Inl e, s') | (Inr x, s') \<Rightarrow> f x s')"

definition st_map_err :: "('e \<Rightarrow> 'f) \<Rightarrow> ('s, 'e, 'a) step \<Rightarrow> ('s, 'f, 'a) step" where
  "st_map_err g m s = (case m s of (r, s') \<Rightarrow> (map_err g r, s'))"

lemma st_bind_Inr [result_iff]:
  "st_bind m f s = (Inr y, s') \<longleftrightarrow> (\<exists>x s1. m s = (Inr x, s1) \<and> f x s1 = (Inr y, s'))"
  by (auto simp: st_bind_def split: prod.splits sum.splits)

lemma st_bind_Inl [result_iff]:
  "st_bind m f s = (Inl e, s') \<longleftrightarrow> m s = (Inl e, s') \<or> (\<exists>x s1. m s = (Inr x, s1) \<and> f x s1 = (Inl e, s'))"
  by (auto simp: st_bind_def split: prod.splits sum.splits)

lemma st_map_err_Inr [result_iff]: "st_map_err g m s = (Inr y, s') \<longleftrightarrow> m s = (Inr y, s')"
  by (auto simp: st_map_err_def map_err_def split: prod.splits sum.splits)

lemma st_map_err_Inl [result_iff]: "st_map_err g m s = (Inl e, s') \<longleftrightarrow> (\<exists>e'. m s = (Inl e', s') \<and> e = g e')"
  by (auto simp: st_map_err_def map_err_def split: prod.splits sum.splits)

lemma st_basic_iff [result_iff]:
  "st_return x s = (r, s') \<longleftrightarrow> r = Inr x \<and> s' = s"
  "st_fail e s = (q, s') \<longleftrightarrow> q = Inl e \<and> s' = s"
  "st_lift r' s = (r, s') \<longleftrightarrow> r' = r \<and> s' = s"
  "st_modify f s = (u, s') \<longleftrightarrow> u = Inr () \<and> s' = f s"
  by (auto simp: st_return_def st_fail_def st_lift_def st_modify_def)

text \<open>What every step keeps, the whole computation keeps.\<close>

definition st_keeps :: "('s \<Rightarrow> bool) \<Rightarrow> ('s, 'e, 'a) step \<Rightarrow> bool" where
  "st_keeps I m \<longleftrightarrow> (\<forall>s. I s \<longrightarrow> I (snd (m s)))"

named_theorems st_keeps_intro

lemma st_keeps_return [st_keeps_intro]: "st_keeps I (st_return x)"
  by (simp add: st_keeps_def st_return_def)

lemma st_keeps_fail [st_keeps_intro]: "st_keeps I (st_fail e)"
  by (simp add: st_keeps_def st_fail_def)

lemma st_keeps_lift [st_keeps_intro]: "st_keeps I (st_lift r)"
  by (simp add: st_keeps_def st_lift_def)

lemma st_keeps_modify: "(\<And>s. I s \<Longrightarrow> I (f s)) \<Longrightarrow> st_keeps I (st_modify f)"
  by (simp add: st_keeps_def st_modify_def)

lemma st_keeps_bind [st_keeps_intro]:
  "st_keeps I m \<Longrightarrow> (\<And>x. st_keeps I (f x)) \<Longrightarrow> st_keeps I (st_bind m f)"
  unfolding st_keeps_def st_bind_def by (auto split: prod.split sum.split)

lemma st_keeps_map_err [st_keeps_intro]: "st_keeps I m \<Longrightarrow> st_keeps I (st_map_err g m)"
  unfolding st_keeps_def st_map_err_def by (auto split: prod.split)

lemma st_keeps_if [st_keeps_intro]: "st_keeps I m \<Longrightarrow> st_keeps I m' \<Longrightarrow> st_keeps I (if b then m else m')"
  by simp

end
