(* ===== verification/Snowflake.thy ===== *)
theory Snowflake
  imports Prelude
begin

text \<open>
  The id generator (\<open>src/server-rs/src/snowflake.rs\<close>). One iteration of the loop of
  \<open>next_id\<close> is \<open>sf_attempt\<close>; the loop of an uncontended call is a partial function, so that
  a call that never returns is \<open>None\<close>; concurrent calls are a step relation in which a
  thread reads the clock, loads the shared word and tries to replace it, and
  \<open>compare_exchange_weak\<close> may fail for no reason. The clock (\<open>SystemTime::now\<close> in
  milliseconds) is an argument.
\<close>

section \<open>The generator\<close>

definition VERDANT_EPOCH_MS :: u64 where "VERDANT_EPOCH_MS = 1735689600000"

record snowflake_generator =
  sf_worker_id :: u64
  sf_state :: u64

text \<open>\<open>SnowflakeGenerator::new\<close>; the assertion is \<open>None\<close>.\<close>

definition sf_new :: "16 word \<Rightarrow> snowflake_generator option" where
  "sf_new worker_id =
     (if worker_id < 1024 then Some \<lparr>sf_worker_id = ucast worker_id, sf_state = 0\<rparr> else None)"

definition sf_timestamp :: "u64 \<Rightarrow> u64" where
  "sf_timestamp now_ms = (if now_ms < VERDANT_EPOCH_MS then 0 else now_ms - VERDANT_EPOCH_MS)"

definition sf_seq :: "u64 \<Rightarrow> u64 \<Rightarrow> u64" where
  "sf_seq timestamp prev = (if drop_bit 12 prev = timestamp then (prev AND 0xFFF) + 1 else 0)"

definition sf_pack_state :: "u64 \<Rightarrow> u64 \<Rightarrow> u64" where
  "sf_pack_state timestamp seq = push_bit 12 timestamp OR seq"

definition sf_pack_id :: "u64 \<Rightarrow> u64 \<Rightarrow> u64 \<Rightarrow> u64" where
  "sf_pack_id worker timestamp seq = (push_bit 22 timestamp OR push_bit 12 worker) OR seq"

text \<open>One iteration: \<open>None\<close> spins, otherwise the new shared word and the id.\<close>

definition sf_attempt :: "u64 \<Rightarrow> u64 \<Rightarrow> u64 \<Rightarrow> (u64 \<times> u64) option" where
  "sf_attempt worker timestamp prev =
     (let seq = sf_seq timestamp prev in
      if 4095 < seq then None
      else Some (sf_pack_state timestamp seq, sf_pack_id worker timestamp seq))"

text \<open>The loop of an uncontended call: nobody else changes the word, so a spin repeats itself.\<close>

partial_function (option) next_id_loop :: "u64 \<Rightarrow> u64 \<Rightarrow> u64 \<Rightarrow> (u64 \<times> u64) option" where
  "next_id_loop worker timestamp st =
     (case sf_attempt worker timestamp st of
        None \<Rightarrow> next_id_loop worker timestamp st
      | Some r \<Rightarrow> Some r)"

definition next_id :: "u64 \<Rightarrow> snowflake_generator \<Rightarrow> (snowflake_generator \<times> i64_bits) option" where
  "next_id now_ms g =
     (case next_id_loop (sf_worker_id g) (sf_timestamp now_ms) (sf_state g) of
        None \<Rightarrow> None
      | Some (st, i) \<Rightarrow> Some (g\<lparr>sf_state := st\<rparr>, i))"

section \<open>Concurrent calls\<close>

datatype sf_phase = Idle | Spinning u64 | Loaded u64 u64

record sf_config =
  sc_word :: u64
  sc_clock :: u64
  sc_threads :: "nat \<Rightarrow> sf_phase"
  sc_issued :: "u64 list"

definition sf_init :: sf_config where
  "sf_init = \<lparr>sc_word = 0, sc_clock = VERDANT_EPOCH_MS, sc_threads = (\<lambda>_. Idle), sc_issued = []\<rparr>"

definition set_thread :: "nat \<Rightarrow> sf_phase \<Rightarrow> sf_config \<Rightarrow> sf_config" where
  "set_thread i p c = c\<lparr>sc_threads := (sc_threads c)(i := p)\<rparr>"

inductive sf_step :: "u64 \<Rightarrow> sf_config \<Rightarrow> sf_config \<Rightarrow> bool" for w where
  tick: "sc_clock c \<le> t \<Longrightarrow> sf_step w c (c\<lparr>sc_clock := t\<rparr>)"
| call: "sc_threads c i = Idle \<Longrightarrow> sf_step w c (set_thread i (Spinning (sf_timestamp (sc_clock c))) c)"
| load: "sc_threads c i = Spinning t \<Longrightarrow> sf_attempt w t (sc_word c) \<noteq> None \<Longrightarrow>
         sf_step w c (set_thread i (Loaded t (sc_word c)) c)"
| spin: "sc_threads c i = Spinning t \<Longrightarrow> sf_attempt w t (sc_word c) = None \<Longrightarrow> sf_step w c c"
| cas_fail: "sc_threads c i = Loaded t prev \<Longrightarrow> sf_step w c (set_thread i (Spinning t) c)"
| cas_ok: "sc_threads c i = Loaded t prev \<Longrightarrow> sc_word c = prev \<Longrightarrow>
           sf_attempt w t prev = Some (st, n) \<Longrightarrow>
           sf_step w c (set_thread i Idle (c\<lparr>sc_word := st, sc_issued := n # sc_issued c\<rparr>))"

inductive_cases sf_step_cases: "sf_step w c c'"

inductive sf_reach :: "u64 \<Rightarrow> sf_config \<Rightarrow> bool" for w where
  init: "sf_reach w sf_init"
| step: "sf_reach w c \<Longrightarrow> sf_step w c c' \<Longrightarrow> sf_reach w c'"

section \<open>Bits\<close>

lemma bit_word_bound:
  assumes "x < 2 ^ k" "k < 64" "bit (x :: u64) n"
  shows "n < k"
proof -
  have "x AND mask k = x" using assms(1) by (rule less_mask_eq)
  with assms(3) show ?thesis by (metis bit_and_iff bit_mask_iff)
qed

lemma pack_or_plus:
  assumes "y < 2 ^ k" "k < 64"
  shows "push_bit k (x :: u64) OR y = push_bit k x + y"
  by (rule disjunctive_add [symmetric])
    (use bit_word_bound [OF assms] in \<open>force simp: bit_push_bit_iff\<close>)

lemma state_decode:
  assumes "t < 2 ^ 42" "q < 4096"
  shows "drop_bit 12 (sf_pack_state t q) = t" "sf_pack_state t q AND 0xFFF = q"
proof -
  have q: "bit q n \<Longrightarrow> n < 12" for n using bit_word_bound [of q 12 n] assms(2) by simp
  have t: "bit t n \<Longrightarrow> n < 42" for n using bit_word_bound [of t 42 n] assms(1) by simp
  have m: "(0xFFF :: u64) = mask 12" by (simp add: mask_eq_exp_minus_1)
  show "drop_bit 12 (sf_pack_state t q) = t"
    by (rule bit_eqI) (use q t in \<open>fastforce simp: sf_pack_state_def bit_simps\<close>)
  show "sf_pack_state t q AND 0xFFF = q"
    unfolding m by (rule bit_eqI) (use q in \<open>auto simp: sf_pack_state_def bit_simps\<close>)
qed

lemma id_decode:
  assumes "t < 2 ^ 42" "w < 1024" "q < 4096"
  shows "drop_bit 22 (sf_pack_id w t q) = t" "drop_bit 12 (sf_pack_id w t q) AND 0x3FF = w"
    "sf_pack_id w t q AND 0xFFF = q"
proof -
  have q: "bit q n \<Longrightarrow> n < 12" for n using bit_word_bound [of q 12 n] assms(3) by simp
  have w: "bit w n \<Longrightarrow> n < 10" for n using bit_word_bound [of w 10 n] assms(2) by simp
  have t: "bit t n \<Longrightarrow> n < 42" for n using bit_word_bound [of t 42 n] assms(1) by simp
  have m: "(0xFFF :: u64) = mask 12" "(0x3FF :: u64) = mask 10" by (simp_all add: mask_eq_exp_minus_1)
  show "drop_bit 22 (sf_pack_id w t q) = t"
    by (rule bit_eqI) (use q w t in \<open>fastforce simp: sf_pack_id_def bit_simps\<close>)
  show "drop_bit 12 (sf_pack_id w t q) AND 0x3FF = w"
    unfolding m by (rule bit_eqI) (use q w in \<open>fastforce simp: sf_pack_id_def bit_simps\<close>)
  show "sf_pack_id w t q AND 0xFFF = q"
    unfolding m by (rule bit_eqI) (use q in \<open>auto simp: sf_pack_id_def bit_simps\<close>)
qed

section \<open>Order of ids\<close>

lemma unat_two_power: "k < 64 \<Longrightarrow> unat ((2 :: u64) ^ k) = 2 ^ k"
proof -
  assume "k < 64"
  then have "(2 :: nat) ^ k < 2 ^ 64" using power_strict_increasing [of k 64 "2 :: nat"] by simp
  moreover have "(2 :: u64) ^ k = of_nat (2 ^ k)" by simp
  ultimately show ?thesis by (simp only: unat_of_nat) simp
qed

lemma pack_unat:
  assumes "y < 2 ^ k" "k < 64" "unat x * 2 ^ k + unat y < 2 ^ 64"
  shows "unat (push_bit k (x :: u64) OR y) = unat x * 2 ^ k + unat y"
proof -
  have p: "unat (push_bit k x) = unat x * 2 ^ k"
    using assms(3) unat_two_power [OF assms(2)] by (simp add: push_bit_eq_mult unat_word_ariths(2))
  show ?thesis
    unfolding pack_or_plus [OF assms(1,2)] unat_word_ariths(1) p using assms(3) by simp
qed

lemma id_unat:
  assumes "t < 2 ^ 42" "w < 1024" "q < 4096"
  shows "unat (sf_pack_id w t q) = unat t * 2 ^ 22 + (unat w * 2 ^ 12 + unat q)"
proof -
  have n: "unat t < 2 ^ 42" "unat w < 1024" "unat q < 4096"
    using assms by (simp_all add: word_less_nat_alt)
  let ?y = "push_bit 12 w OR q"
  have y: "unat ?y = unat w * 2 ^ 12 + unat q"
    using n assms by (intro pack_unat) simp_all
  then have "?y < 2 ^ 22" using n by (simp add: word_less_nat_alt)
  then have "unat (push_bit 22 t OR ?y) = unat t * 2 ^ 22 + unat ?y"
    using n y by (intro pack_unat) simp_all
  with y show ?thesis by (simp add: sf_pack_id_def or.assoc)
qed

lemma state_unat:
  assumes "t < 2 ^ 42" "q < 4096"
  shows "unat (sf_pack_state t q) = unat t * 2 ^ 12 + unat q"
proof -
  have n: "unat t < 2 ^ 42" "unat q < 4096" using assms by (simp_all add: word_less_nat_alt)
  show ?thesis unfolding sf_pack_state_def using n assms by (intro pack_unat) simp_all
qed

lemma low_bits_less: "(x :: u64) AND 0xFFF < 4096"
  using and_mask_less' [of 12 x] by (simp add: mask_eq_exp_minus_1)

lemma next_id_loop_iff: "next_id_loop w t st = sf_attempt w t st"
proof (cases "sf_attempt w t st")
  case None
  have "sf_attempt w t st = Some r" if "next_id_loop w t st = Some r" for r
    by (rule next_id_loop.raw_induct [OF _ that]) (auto split: option.splits)
  with None show ?thesis by (cases "next_id_loop w t st") auto
next
  case (Some r)
  then show ?thesis by (subst next_id_loop.simps) simp
qed

lemma seq_le: "sf_seq t prev \<le> 4096"
proof -
  have "unat (prev AND 0xFFF) < 4096" using low_bits_less [of prev] by (simp add: word_less_nat_alt)
  then show ?thesis by (auto simp: sf_seq_def word_le_nat_alt unat_word_ariths)
qed

lemma attempt_None:
  "sf_attempt w t st = None \<longleftrightarrow> drop_bit 12 st = t \<and> st AND 0xFFF = 0xFFF"
proof -
  have "unat (st AND 0xFFF) < 4096" using low_bits_less [of st] by (simp add: word_less_nat_alt)
  then have "4095 < (st AND 0xFFF) + 1 \<longleftrightarrow> st AND 0xFFF = 0xFFF"
    by (auto simp: word_less_nat_alt unat_word_ariths word_unat_eq_iff)
  then show ?thesis by (auto simp: sf_attempt_def sf_seq_def Let_def)
qed

lemma attempt_Some:
  "sf_attempt w t st = Some (st', n) \<Longrightarrow>
   sf_seq t st < 4096 \<and> st' = sf_pack_state t (sf_seq t st) \<and> n = sf_pack_id w t (sf_seq t st)"
  by (auto simp: sf_attempt_def Let_def word_less_nat_alt not_less word_le_nat_alt split: if_splits)

text \<open>The id the shared word stands for: the last one issued.\<close>

definition word_id :: "u64 \<Rightarrow> u64 \<Rightarrow> u64" where
  "word_id w st = sf_pack_id w (drop_bit 12 st) (st AND 0xFFF)"

lemma attempt_increases:
  assumes "sf_attempt w t st = Some (st', n)" "w < 1024" "t < 2 ^ 42" "drop_bit 12 st \<le> t"
  shows "word_id w st < n \<and> word_id w st' = n \<and> drop_bit 12 st' = t"
proof -
  let ?q = "sf_seq t st"
  have a: "?q < 4096" "st' = sf_pack_state t ?q" "n = sf_pack_id w t ?q"
    using attempt_Some [OF assms(1)] by auto
  have d: "drop_bit 12 st' = t" "st' AND 0xFFF = ?q"
    using state_decode [OF assms(3) a(1)] a(2) by auto
  have p: "drop_bit 12 st < 2 ^ 42" using assms(3,4) by simp
  have "word_id w st < n"
  proof (cases "drop_bit 12 st = t")
    case True
    then have "unat ?q = unat (st AND 0xFFF) + 1"
      using low_bits_less [of st] by (auto simp: sf_seq_def word_less_nat_alt unat_word_ariths)
    then show ?thesis
      using id_unat [OF assms(3,2) low_bits_less, of st] id_unat [OF assms(3,2) a(1)] True
      by (simp add: word_id_def a(3) word_less_nat_alt)
  next
    case False
    then have "unat (drop_bit 12 st) + 1 \<le> unat t"
      using assms(4) by (auto simp: word_le_nat_alt word_unat_eq_iff)
    then have "(unat (drop_bit 12 st) + 1) * 2 ^ 22 \<le> unat t * 2 ^ 22" by (rule mult_le_mono1)
    moreover have "unat w < 1024" "unat (st AND 0xFFF) < 4096"
      using assms(2) low_bits_less [of st] by (simp_all add: word_less_nat_alt)
    ultimately show ?thesis
      unfolding word_id_def a(3) word_less_nat_alt
        id_unat [OF p assms(2) low_bits_less] id_unat [OF assms(3,2) a(1)] by simp
  qed
  with d a(3) show ?thesis by (simp add: word_id_def)
qed

section \<open>Uniqueness\<close>

text \<open>
  A step is current when a thread never swaps in a timestamp older than the word's, and the
  clock stays in the 42 bits the layout has for it.
\<close>

definition current_step :: "sf_config \<Rightarrow> sf_config \<Rightarrow> bool" where
  "current_step c c' \<longleftrightarrow> sf_timestamp (sc_clock c') < 2 ^ 42 \<and>
     (sc_word c' \<noteq> sc_word c \<longrightarrow> drop_bit 12 (sc_word c) \<le> drop_bit 12 (sc_word c'))"

inductive sf_reach_current :: "u64 \<Rightarrow> sf_config \<Rightarrow> bool" for w where
  init: "sf_reach_current w sf_init"
| step: "sf_reach_current w c \<Longrightarrow> sf_step w c c' \<Longrightarrow> current_step c c' \<Longrightarrow> sf_reach_current w c'"

fun phase_time :: "sf_phase \<Rightarrow> u64 option" where
  "phase_time Idle = None"
| "phase_time (Spinning t) = Some t"
| "phase_time (Loaded t _) = Some t"

definition sf_inv :: "u64 \<Rightarrow> sf_config \<Rightarrow> bool" where
  "sf_inv w c \<longleftrightarrow> sf_timestamp (sc_clock c) < 2 ^ 42 \<and> drop_bit 12 (sc_word c) < 2 ^ 42 \<and>
     (\<forall>i t. phase_time (sc_threads c i) = Some t \<longrightarrow> t < 2 ^ 42) \<and>
     (\<forall>n\<in>set (sc_issued c). n \<le> word_id w (sc_word c)) \<and> sorted_wrt (>) (sc_issued c)"

lemma sf_inv_init: "sf_inv w sf_init"
  by (simp add: sf_inv_def sf_init_def sf_timestamp_def)

lemma sf_inv_thread:
  "sf_inv w c \<Longrightarrow> (\<And>t. phase_time p = Some t \<Longrightarrow> t < 2 ^ 42) \<Longrightarrow> sf_inv w (set_thread i p c)"
  by (simp add: sf_inv_def set_thread_def)

lemma sf_inv_cas:
  assumes inv: "sf_inv w c" and w: "w < 1024" and cur: "drop_bit 12 (sc_word c) \<le> t"
    and th: "sc_threads c i = Loaded t (sc_word c)" and at: "sf_attempt w t (sc_word c) = Some (st, n)"
  shows "sf_inv w (set_thread i Idle (c\<lparr>sc_word := st, sc_issued := n # sc_issued c\<rparr>))"
proof -
  have t: "t < 2 ^ 42" using inv th by (auto simp: sf_inv_def dest: spec [of _ i])
  note inc = attempt_increases [OF at w t cur]
  have "\<forall>m\<in>set (sc_issued c). m < n" using inv inc by (auto simp: sf_inv_def)
  then show ?thesis using inv inc t by (auto simp: sf_inv_def set_thread_def)
qed

lemma sf_inv_step:
  assumes "sf_step w c c'" "current_step c c'" "sf_inv w c" "w < 1024"
  shows "sf_inv w c'"
  using assms(1)
proof (cases rule: sf_step.cases)
  case (tick t)
  with assms(2,3) show ?thesis by (simp add: sf_inv_def current_step_def)
next
  case (call i)
  show ?thesis unfolding call(1) by (rule sf_inv_thread [OF assms(3)]) (use assms(3) in \<open>simp add: sf_inv_def\<close>)
next
  case (load i t)
  show ?thesis unfolding load(1)
    by (rule sf_inv_thread [OF assms(3)]) (use assms(3) load(2) in \<open>auto simp: sf_inv_def dest: spec [of _ i]\<close>)
next
  case spin
  with assms(3) show ?thesis by simp
next
  case (cas_fail i t prev)
  show ?thesis unfolding cas_fail(1)
    by (rule sf_inv_thread [OF assms(3)]) (use assms(3) cas_fail(2) in \<open>auto simp: sf_inv_def dest: spec [of _ i]\<close>)
next
  case (cas_ok i t prev st n)
  have t: "t < 2 ^ 42" using assms(3) cas_ok by (auto simp: sf_inv_def dest: spec [of _ i])
  have d: "drop_bit 12 st = t"
    using attempt_Some [OF cas_ok(4)] state_decode [OF t] by auto
  have "drop_bit 12 (sc_word c) \<le> t"
    using assms(2) d cas_ok(1) by (cases "st = sc_word c") (auto simp: current_step_def set_thread_def)
  then show ?thesis using sf_inv_cas [OF assms(3,4)] cas_ok by auto
qed

lemma sorted_gt_distinct: "sorted_wrt (>) (xs :: u64 list) \<Longrightarrow> distinct xs"
  by (induction xs) auto

text \<open>
  C28. Ids are unique and ascending whatever the interleaving and the spurious failures of
  \<open>compare_exchange_weak\<close>, as long as no thread swaps in a timestamp older than the shared
  word's: the list of issued ids, newest first, strictly decreases.
\<close>
theorem snowflake_ids_ascend:
  assumes "sf_reach_current w c" and "w < 1024"
  shows "sorted_wrt (>) (sc_issued c) \<and> distinct (sc_issued c)"
proof -
  have "sf_inv w c"
    using assms(1) by induction (auto intro: sf_inv_init sf_inv_step [OF _ _ _ assms(2)])
  then have "sorted_wrt (>) (sc_issued c)" by (simp add: sf_inv_def)
  then show ?thesis by (auto dest: sorted_gt_distinct)
qed

lemma reach_finish:
  assumes "sf_reach w c" "sc_threads c i = Spinning t" "sf_attempt w t (sc_word c) = Some (st, n)"
  shows "sf_reach w (set_thread i Idle (c\<lparr>sc_word := st, sc_issued := n # sc_issued c\<rparr>))"
proof -
  let ?l = "set_thread i (Loaded t (sc_word c)) c"
  have "sf_reach w ?l" using assms by (intro sf_reach.step [OF assms(1) sf_step.load]) auto
  moreover have "sf_step w ?l (set_thread i Idle (?l\<lparr>sc_word := st, sc_issued := n # sc_issued ?l\<rparr>))"
    using assms by (intro sf_step.cas_ok [where t = t and prev = "sc_word c"]) (simp_all add: set_thread_def)
  ultimately show ?thesis using sf_reach.step by (fastforce simp: set_thread_def)
qed

text \<open>
  Without that condition ids repeat, for every worker id and with a clock that never
  goes back: the timestamp is read once, before the loop, so a thread that was suspended
  there overwrites a newer word with its old timestamp and sequence 0.
\<close>
lemma snowflake_ids_repeat:
  "\<exists>c. sf_reach w c \<and> \<not> distinct (sc_issued c)"
proof -
  let ?tick = "\<lambda>t c. c\<lparr>sc_clock := t\<rparr>"
  let ?call = "\<lambda>i c. set_thread i (Spinning (sf_timestamp (sc_clock c))) c"
  let ?fin = "\<lambda>i st n c. set_thread i Idle (c\<lparr>sc_word := st, sc_issued := n # sc_issued c\<rparr>)"
  let ?c1 = "?call 1 (?call 0 (?tick (VERDANT_EPOCH_MS + 5) sf_init))"
  let ?c2 = "?fin 0 (sf_pack_state 5 0) (sf_pack_id w 5 0) ?c1"
  let ?c3 = "?call 0 (?tick (VERDANT_EPOCH_MS + 6) ?c2)"
  let ?c4 = "?fin 0 (sf_pack_state 6 0) (sf_pack_id w 6 0) ?c3"
  let ?c5 = "?fin 1 (sf_pack_state 5 0) (sf_pack_id w 5 0) ?c4"
  note d = set_thread_def sf_init_def sf_timestamp_def VERDANT_EPOCH_MS_def sf_attempt_def sf_seq_def
    sf_pack_state_def Let_def
  have r1: "sf_reach w ?c1"
    by (intro sf_reach.step [OF _ sf_step.call] sf_reach.step [OF _ sf_step.tick] sf_reach.init)
      (simp_all add: d)
  have r2: "sf_reach w ?c2"
    by (rule reach_finish [OF r1, where t = 5]) (simp_all add: d)
  have r3: "sf_reach w ?c3"
    by (intro sf_reach.step [OF _ sf_step.call] sf_reach.step [OF _ sf_step.tick] r2) (simp_all add: d)
  have r4: "sf_reach w ?c4"
    by (rule reach_finish [OF r3, where t = 6]) (simp_all add: d)
  have r5: "sf_reach w ?c5"
    by (rule reach_finish [OF r4, where t = 5]) (simp_all add: d)
  have "sc_issued ?c5 = [sf_pack_id w 5 0, sf_pack_id w 6 0, sf_pack_id w 5 0]"
    by (simp add: set_thread_def sf_init_def)
  then have "\<not> distinct (sc_issued ?c5)" by simp
  with r5 show ?thesis by blast
qed

lemma current_finish:
  assumes "sf_reach_current w c" "sc_threads c i = Spinning t" "sf_attempt w t (sc_word c) = Some (st, n)"
    and "sf_timestamp (sc_clock c) < 2 ^ 42" "drop_bit 12 (sc_word c) \<le> drop_bit 12 st"
  shows "sf_reach_current w (set_thread i Idle (c\<lparr>sc_word := st, sc_issued := n # sc_issued c\<rparr>))"
proof -
  let ?l = "set_thread i (Loaded t (sc_word c)) c"
  have l: "sf_reach_current w ?l"
    by (rule sf_reach_current.step [OF assms(1) sf_step.load]) (use assms in \<open>auto simp: current_step_def set_thread_def\<close>)
  have "sf_step w ?l (set_thread i Idle (?l\<lparr>sc_word := st, sc_issued := n # sc_issued ?l\<rparr>))"
    using assms by (intro sf_step.cas_ok [where t = t and prev = "sc_word c"]) (simp_all add: set_thread_def)
  then have "sf_reach_current w (set_thread i Idle (?l\<lparr>sc_word := st, sc_issued := n # sc_issued ?l\<rparr>))"
    by (rule sf_reach_current.step [OF l]) (use assms in \<open>simp add: current_step_def set_thread_def\<close>)
  then show ?thesis by (simp add: set_thread_def)
qed

text \<open>Two overlapping calls in the word's millisecond, and one five milliseconds later.\<close>

lemma ex_current:
  "\<exists>c. sf_reach_current 3 c \<and> sc_issued c = [sf_pack_id 3 5 0, sf_pack_id 3 0 2, sf_pack_id 3 0 1]"
proof -
  let ?tick = "\<lambda>t c. c\<lparr>sc_clock := t\<rparr>"
  let ?call = "\<lambda>i c. set_thread i (Spinning (sf_timestamp (sc_clock c))) c"
  let ?fin = "\<lambda>i st n c. set_thread i Idle (c\<lparr>sc_word := st, sc_issued := n # sc_issued c\<rparr>)"
  let ?c1 = "?call 1 (?call 0 sf_init)"
  let ?c2 = "?fin 0 (sf_pack_state 0 1) (sf_pack_id 3 0 1) ?c1"
  let ?c3 = "?fin 1 (sf_pack_state 0 2) (sf_pack_id 3 0 2) ?c2"
  let ?c4 = "?call 0 (?tick (VERDANT_EPOCH_MS + 5) ?c3)"
  let ?c5 = "?fin 0 (sf_pack_state 5 0) (sf_pack_id 3 5 0) ?c4"
  note d = set_thread_def sf_init_def sf_timestamp_def VERDANT_EPOCH_MS_def sf_attempt_def sf_seq_def
    sf_pack_state_def Let_def current_step_def
  have r1: "sf_reach_current 3 ?c1"
    by (intro sf_reach_current.step [OF _ sf_step.call] sf_reach_current.init) (simp_all add: d)
  have r2: "sf_reach_current 3 ?c2"
    by (rule current_finish [OF r1, where t = 0]) (simp_all add: d)
  have r3: "sf_reach_current 3 ?c3"
    by (rule current_finish [OF r2, where t = 0]) (simp_all add: d)
  have r4: "sf_reach_current 3 ?c4"
    by (intro sf_reach_current.step [OF _ sf_step.call] sf_reach_current.step [OF _ sf_step.tick] r3) (simp_all add: d)
  have r5: "sf_reach_current 3 ?c5"
    by (rule current_finish [OF r4, where t = 5]) (simp_all add: d)
  then show ?thesis by (intro exI [where x = ?c5]) (simp add: set_thread_def sf_init_def)
qed

lemma snowflake_ids_ascend_witness:
  "sf_pack_id 3 5 0 > sf_pack_id 3 0 2 \<and> sf_pack_id 3 0 2 > sf_pack_id 3 0 1 \<and>
   distinct [sf_pack_id 3 5 0, sf_pack_id 3 0 2, sf_pack_id 3 0 1]"
proof -
  obtain c where "sf_reach_current 3 c" "sc_issued c = [sf_pack_id 3 5 0, sf_pack_id 3 0 2, sf_pack_id 3 0 1]"
    using ex_current by blast
  with snowflake_ids_ascend [of 3 c] show ?thesis by simp
qed

text \<open>
  C35. When an uncontended call returns: always, except when the 4096 sequence numbers of the
  word's millisecond are used up and the clock still shows that millisecond at the call.
  Then the loop never reads the clock again and the call never returns. A call that returns
  gives an id that decodes to its timestamp, the worker and a sequence number.
\<close>
theorem next_id_result:
  assumes "sf_worker_id g < 1024" and "sf_timestamp now < 2 ^ 42"
  shows "if drop_bit 12 (sf_state g) = sf_timestamp now \<and> sf_state g AND 0xFFF = 0xFFF
         then next_id now g = None
         else \<exists>g' i. next_id now g = Some (g', i) \<and>
                drop_bit 22 i = sf_timestamp now \<and> drop_bit 12 i AND 0x3FF = sf_worker_id g \<and>
                drop_bit 12 (sf_state g') = sf_timestamp now \<and> sf_state g' AND 0xFFF = i AND 0xFFF"
proof (cases "sf_attempt (sf_worker_id g) (sf_timestamp now) (sf_state g)")
  case None
  then show ?thesis unfolding next_id_def next_id_loop_iff
    using attempt_None [of "sf_worker_id g" "sf_timestamp now" "sf_state g"] by simp
next
  case (Some r)
  then obtain st n where r: "sf_attempt (sf_worker_id g) (sf_timestamp now) (sf_state g) = Some (st, n)"
    by (cases r) simp
  note a = attempt_Some [OF r]
  show ?thesis
    unfolding next_id_def next_id_loop_iff r
    using attempt_None [of "sf_worker_id g" "sf_timestamp now" "sf_state g"] r
      id_decode [OF assms(2,1)] state_decode [OF assms(2)] a by auto
qed

lemma next_id_result_witness:
  "next_id (VERDANT_EPOCH_MS + 5) \<lparr>sf_worker_id = 3, sf_state = 0x5FFF\<rparr> = None"
  using next_id_result [of "\<lparr>sf_worker_id = 3, sf_state = 0x5FFF\<rparr>" "VERDANT_EPOCH_MS + 5"]
  by (simp add: sf_timestamp_def VERDANT_EPOCH_MS_def)

end
