(* ===== verification/Errors.thy ===== *)
theory Errors
  imports Prelude
begin

text \<open>
  The application error type (\<open>src/server-rs/src/error.rs\<close>): the enum, the HTTP status
  and machine code of each variant, and the response body built from it. Every fallible
  operation of the other components returns \<open>app_error + 'a\<close>.
\<close>

section \<open>The enum\<close>

datatype app_error =
    InvalidCredentials
  | TokenRequired
  | TokenInvalid
  | TokenRevoked
  | RefreshRequired
  | RegistrationFailed string
  | NotFound string
  | Forbidden
  | NotMember
  | MissingPermission
  | CannotSendMessages
  | Validation string
  | NoChanges
  | RateLimited
  | Internal
  | WithCode nat string string

type_synonym 'a app_result = "app_error + 'a"

text \<open>\<open>AppError::status_and_code\<close>: the HTTP status and the stable error code.\<close>

fun status_and_code :: "app_error \<Rightarrow> nat \<times> string" where
  "status_and_code InvalidCredentials = (401, ''AUTH_INVALID_CREDENTIALS'')"
| "status_and_code TokenRequired = (401, ''AUTH_TOKEN_REQUIRED'')"
| "status_and_code TokenInvalid = (401, ''AUTH_TOKEN_INVALID'')"
| "status_and_code TokenRevoked = (401, ''AUTH_TOKEN_REVOKED'')"
| "status_and_code RefreshRequired = (401, ''AUTH_REFRESH_REQUIRED'')"
| "status_and_code (RegistrationFailed _) = (400, ''AUTH_REGISTRATION_FAILED'')"
| "status_and_code (NotFound _) = (404, ''NOT_FOUND'')"
| "status_and_code Forbidden = (403, ''PERMISSION_MISSING'')"
| "status_and_code NotMember = (403, ''PERMISSION_NOT_MEMBER'')"
| "status_and_code MissingPermission = (403, ''PERMISSION_MISSING'')"
| "status_and_code CannotSendMessages = (403, ''PERMISSION_SEND_MESSAGES'')"
| "status_and_code (Validation _) = (400, ''VALIDATION_FAILED'')"
| "status_and_code NoChanges = (400, ''VALIDATION_NO_CHANGES'')"
| "status_and_code RateLimited = (429, ''RATE_LIMITED'')"
| "status_and_code Internal = (500, ''INTERNAL_ERROR'')"
| "status_and_code (WithCode status code _) = (status, code)"

text \<open>The \<open>Display\<close> text derived from the \<open>#[error(...)]\<close> attributes.\<close>

fun error_text :: "app_error \<Rightarrow> string" where
  "error_text InvalidCredentials = ''The email or password you entered is incorrect''"
| "error_text TokenRequired = ''Token required''"
| "error_text TokenInvalid = ''Your session has expired. Please sign in again.''"
| "error_text TokenRevoked = ''Your session has been revoked. Please sign in again.''"
| "error_text RefreshRequired = ''Refresh required''"
| "error_text (RegistrationFailed _) = ''Registration failed''"
| "error_text (NotFound r) = r"
| "error_text Forbidden = ''You don''@ CHR 0x27 # ''t have permission to do that''"
| "error_text NotMember = ''You need to be a member of this server to do that''"
| "error_text MissingPermission = ''You don''@ CHR 0x27 # ''t have permission to do that''"
| "error_text CannotSendMessages =
     ''You don''@ CHR 0x27 # ''t have permission to send messages in this channel''"
| "error_text (Validation m) = m"
| "error_text NoChanges = ''No changes were made''"
| "error_text RateLimited =
     ''You''@ CHR 0x27 # ''re doing that too fast. Please wait a moment and try again.''"
| "error_text Internal = ''Internal server error''"
| "error_text (WithCode _ _ m) = m"

text \<open>\<open>char::to_uppercase\<close> on the first character; the resource names are ASCII literals.\<close>

definition ascii_upper :: "char \<Rightarrow> char" where
  "ascii_upper c =
     (if 97 \<le> (of_char c :: nat) \<and> (of_char c :: nat) \<le> 122 then char_of ((of_char c :: nat) - 32) else c)"

fun capitalise :: "string \<Rightarrow> string" where
  "capitalise [] = []"
| "capitalise (c # cs) = ascii_upper c # cs"

text \<open>\<open>impl IntoResponse for AppError\<close>: status, user-facing message, code.\<close>

definition not_found_message :: "string \<Rightarrow> string" where
  "not_found_message r =
     (if r = ''channel'' then ''That channel doesn''@ CHR 0x27 # ''t exist or you don''@ CHR 0x27 # ''t have access''
      else if r = ''feed'' then ''That feed doesn''@ CHR 0x27 # ''t exist or you don''@ CHR 0x27 # ''t have access''
      else if r = ''invite'' then ''This invite is invalid or has expired''
      else capitalise r @ '' not found'')"

definition into_response :: "app_error \<Rightarrow> nat \<times> string \<times> string" where
  "into_response e =
     (let (status, code) = status_and_code e;
          message = (case e of
              Internal \<Rightarrow> ''Internal server error''
            | NotFound r \<Rightarrow> not_found_message r
            | other \<Rightarrow> error_text other)
      in (status, message, code))"

text \<open>\<open>Option::ok_or(AppError::NotFound(entity))\<close>.\<close>

definition or_not_found :: "'a option \<Rightarrow> string \<Rightarrow> 'a app_result" where
  "or_not_found x entity = (case x of None \<Rightarrow> Inl (NotFound entity) | Some v \<Rightarrow> Inr v)"

lemma or_not_found_Inr [result_iff]: "or_not_found x e = Inr v \<longleftrightarrow> x = Some v"
  by (auto simp: or_not_found_def split: option.splits)

lemma status_is_error:
  "(\<And>s c m. e = WithCode s c m \<Longrightarrow> 400 \<le> s) \<Longrightarrow> 400 \<le> fst (status_and_code e)"
  by (cases e) auto

end
