(* ===== verification/Pg_Store.thy ===== *)
theory Pg_Store
  imports Errors
begin

text \<open>
  The Postgres read queries the permission code relies on
  (\<open>src/server-rs/src/services/pg/{servers,roles,channels,bots,relationships,dms}.rs\<close>).
  A table is a list of rows; a query is the SQL text of the code read as list
  operations. Postgres itself is outside the repository: which queries fail
  (\<open>db_fails\<close>) and in which order a query without \<open>ORDER BY\<close> returns its rows
  (the order of the table's list) are left open. Columns no modelled code reads are
  left out of the row records.
\<close>

datatype sqlx_error = Sqlx_Error

type_synonym 'a sqlx_result = "sqlx_error + 'a"

section \<open>Rows\<close>

record server_row =
  sv_id :: int
  sv_name :: string
  sv_owner_id :: int
  sv_welcome_channel_id :: "int option"
  sv_welcome_message :: "string option"
  sv_deleted_at :: "int option"

record role_row =
  rr_id :: int
  rr_server_id :: int
  rr_name :: string
  rr_color :: int
  rr_permissions :: i64_bits
  rr_position :: int
  rr_color_only :: bool
  rr_show_as_section :: bool
  rr_color_priority :: int
  rr_created_at_ms :: int

record member_role_row =
  mr_user_id :: int
  mr_server_id :: int
  mr_role_id :: int

record channel_row =
  ch_id :: int
  ch_type :: int
  ch_server_id :: "int option"
  ch_name :: "string option"
  ch_topic :: "string option"
  ch_position :: int
  ch_category_id :: "int option"
  ch_read_only :: bool
  ch_slowmode_seconds :: int
  ch_created_at_ms :: int

record override_row =
  ov_channel_id :: int
  ov_role_id :: int
  ov_allow_bits :: i64_bits
  ov_deny_bits :: i64_bits

record bot_role_row =
  br_bot_id :: int
  br_server_id :: int
  br_role_id :: int

record bot_row =
  bo_id :: int
  bo_server_id :: int
  bo_name :: string
  bo_avatar_url :: "string option"

record user_row =
  us_id :: int
  us_email :: string
  us_password_hash :: string
  us_username :: string
  us_display_name :: "string option"
  us_avatar_url :: "string option"
  us_email_verified :: bool
  us_totp_secret :: "string option"
  us_totp_enabled_at_ms :: "int option"
  us_backup_code_hashes :: "string list"
  us_deleted_at_ms :: "int option"
  us_updated_at_ms :: int

definition rel_friend :: int where
  "rel_friend = 1"

definition rel_blocked :: int where
  "rel_blocked = 2"

record relationship_row =
  rl_user_id :: int
  rl_target_id :: int
  rl_type :: int

record dm_member_row =
  dm_channel_id :: int
  dm_user_id :: int
  dm_joined_at_ms :: int

section \<open>The database\<close>

datatype pg_query =
    Q_Server_By_Id int
  | Q_Is_Member int int
  | Q_Roles_For_Server int
  | Q_Role_By_Id int
  | Q_Role_Ids int int
  | Q_Channel_By_Id int
  | Q_Channels_For_Server int
  | Q_Overrides int
  | Q_Overrides_For_Server int
  | Q_Bot_Role_Ids int int
  | Q_Either_Blocks int int
  | Q_Can_Dm int int
  | Q_Dm_Members int
  | Q_Dm_Channels_For_User int

record pg_db =
  db_servers :: "server_row list"
  db_server_members :: "(int \<times> int) list"
  db_roles :: "role_row list"
  db_member_roles :: "member_role_row list"
  db_channels :: "channel_row list"
  db_overrides :: "override_row list"
  db_bot_roles :: "bot_role_row list"
  db_relationships :: "relationship_row list"
  db_dm_members :: "dm_member_row list"
  db_fails :: "pg_query \<Rightarrow> bool"

definition pg_ask :: "pg_db \<Rightarrow> pg_query \<Rightarrow> 'a \<Rightarrow> 'a sqlx_result" where
  "pg_ask db q answer = (if db_fails db q then Inl Sqlx_Error else Inr answer)"

lemma pg_ask_Inr [result_iff]: "pg_ask db q a = Inr x \<longleftrightarrow> \<not> db_fails db q \<and> x = a"
  by (auto simp: pg_ask_def)

section \<open>Queries\<close>

definition pg_server_by_id :: "pg_db \<Rightarrow> int \<Rightarrow> server_row option sqlx_result" where
  "pg_server_by_id db i =
     pg_ask db (Q_Server_By_Id i) (List.find (\<lambda>r. sv_id r = i) (db_servers db))"

definition pg_is_member :: "pg_db \<Rightarrow> int \<Rightarrow> int \<Rightarrow> bool sqlx_result" where
  "pg_is_member db sid uid = pg_ask db (Q_Is_Member sid uid) ((sid, uid) \<in> set (db_server_members db))"

definition pg_role_by_id :: "pg_db \<Rightarrow> int \<Rightarrow> role_row option sqlx_result" where
  "pg_role_by_id db i = pg_ask db (Q_Role_By_Id i) (List.find (\<lambda>r. rr_id r = i) (db_roles db))"

text \<open>\<open>ORDER BY position DESC, id ASC\<close>.\<close>

definition pg_roles_for_server :: "pg_db \<Rightarrow> int \<Rightarrow> role_row list sqlx_result" where
  "pg_roles_for_server db sid =
     pg_ask db (Q_Roles_For_Server sid)
       (sort_key (\<lambda>r. (- rr_position r, rr_id r)) (filter (\<lambda>r. rr_server_id r = sid) (db_roles db)))"

definition pg_role_ids :: "pg_db \<Rightarrow> int \<Rightarrow> int \<Rightarrow> int list sqlx_result" where
  "pg_role_ids db uid sid =
     pg_ask db (Q_Role_Ids uid sid)
       (map mr_role_id (filter (\<lambda>r. mr_user_id r = uid \<and> mr_server_id r = sid) (db_member_roles db)))"

definition pg_channel_by_id :: "pg_db \<Rightarrow> int \<Rightarrow> channel_row option sqlx_result" where
  "pg_channel_by_id db i =
     pg_ask db (Q_Channel_By_Id i) (List.find (\<lambda>c. ch_id c = i) (db_channels db))"

text \<open>\<open>ORDER BY position ASC, id ASC\<close>; every row of the table has a server.\<close>

definition pg_channels_for_server :: "pg_db \<Rightarrow> int \<Rightarrow> channel_row list sqlx_result" where
  "pg_channels_for_server db sid =
     pg_ask db (Q_Channels_For_Server sid)
       (sort_key (\<lambda>c. (ch_position c, ch_id c))
          (filter (\<lambda>c. ch_server_id c = Some sid) (db_channels db)))"

definition pg_overrides :: "pg_db \<Rightarrow> int \<Rightarrow> override_row list sqlx_result" where
  "pg_overrides db cid =
     pg_ask db (Q_Overrides cid) (filter (\<lambda>r. ov_channel_id r = cid) (db_overrides db))"

definition pg_overrides_for_server :: "pg_db \<Rightarrow> int \<Rightarrow> override_row list sqlx_result" where
  "pg_overrides_for_server db sid =
     pg_ask db (Q_Overrides_For_Server sid)
       (filter (\<lambda>r. \<exists>c\<in>set (db_channels db). ch_id c = ov_channel_id r \<and> ch_server_id c = Some sid)
          (db_overrides db))"

definition pg_bot_role_ids :: "pg_db \<Rightarrow> int \<Rightarrow> int \<Rightarrow> int list sqlx_result" where
  "pg_bot_role_ids db bid sid =
     pg_ask db (Q_Bot_Role_Ids bid sid)
       (map br_role_id (filter (\<lambda>r. br_bot_id r = bid \<and> br_server_id r = sid) (db_bot_roles db)))"

definition pg_either_blocks :: "pg_db \<Rightarrow> int \<Rightarrow> int \<Rightarrow> bool sqlx_result" where
  "pg_either_blocks db a b =
     pg_ask db (Q_Either_Blocks a b)
       (\<exists>r\<in>set (db_relationships db). rl_type r = rel_blocked \<and>
          ((rl_user_id r = a \<and> rl_target_id r = b) \<or> (rl_user_id r = b \<and> rl_target_id r = a)))"

definition pg_can_direct_message :: "pg_db \<Rightarrow> int \<Rightarrow> int \<Rightarrow> bool sqlx_result" where
  "pg_can_direct_message db a b =
     (if a = b then Inr False
      else pg_ask db (Q_Can_Dm a b)
        ((\<exists>r\<in>set (db_relationships db). rl_type r = rel_friend \<and>
            ((rl_user_id r = a \<and> rl_target_id r = b) \<or> (rl_user_id r = b \<and> rl_target_id r = a)))
         \<or> (\<exists>m\<in>set (db_server_members db). snd m = a \<and> (fst m, b) \<in> set (db_server_members db))))"

definition pg_dm_members :: "pg_db \<Rightarrow> int \<Rightarrow> dm_member_row list sqlx_result" where
  "pg_dm_members db cid =
     pg_ask db (Q_Dm_Members cid)
       (sort_key dm_joined_at_ms (filter (\<lambda>m. dm_channel_id m = cid) (db_dm_members db)))"

definition pg_dm_channels_for_user :: "pg_db \<Rightarrow> int \<Rightarrow> int list sqlx_result" where
  "pg_dm_channels_for_user db uid =
     pg_ask db (Q_Dm_Channels_For_User uid)
       (map dm_channel_id (filter (\<lambda>m. dm_user_id m = uid) (db_dm_members db)))"

section \<open>Key constraints\<close>

text \<open>
  The primary keys declared in \<open>migrations/0003\<close>: role and channel ids are unique, and
  \<open>channel_overrides\<close> has one row per (channel, role).
\<close>

definition db_keys :: "pg_db \<Rightarrow> bool" where
  "db_keys db \<longleftrightarrow>
     distinct (map rr_id (db_roles db)) \<and>
     distinct (map ch_id (db_channels db)) \<and>
     distinct (map (\<lambda>ov. (ov_channel_id ov, ov_role_id ov)) (db_overrides db))"

lemma db_keys_roles: "db_keys db \<Longrightarrow> pg_roles_for_server db sid = Inr rs \<Longrightarrow> distinct (map rr_id rs)"
  by (auto simp: db_keys_def pg_roles_for_server_def pg_ask_def distinct_map inj_on_def split: if_splits)

lemma db_keys_channels: "db_keys db \<Longrightarrow> pg_channels_for_server db sid = Inr cs \<Longrightarrow> distinct (map ch_id cs)"
  by (auto simp: db_keys_def pg_channels_for_server_def pg_ask_def distinct_map inj_on_def split: if_splits)

lemma distinct_override_roles:
  "distinct (map (\<lambda>ov. (ov_channel_id ov, ov_role_id ov)) rows) \<Longrightarrow>
   distinct (map ov_role_id (filter (\<lambda>ov. ov_channel_id ov = c \<and> P ov) rows))"
  by (induction rows) (auto simp: image_iff)

lemma db_keys_overrides: "db_keys db \<Longrightarrow> pg_overrides db c = Inr rows \<Longrightarrow> distinct (map ov_role_id rows)"
  using distinct_override_roles [of "db_overrides db" c "\<lambda>_. True"]
  by (auto simp: db_keys_def pg_overrides_def pg_ask_def split: if_splits)

lemma pg_roles_for_server_set:
  "pg_roles_for_server db sid = Inr rs \<Longrightarrow> set rs = {r \<in> set (db_roles db). rr_server_id r = sid}"
  by (auto simp: pg_roles_for_server_def pg_ask_def split: if_splits)

lemma pg_channels_for_server_set:
  "pg_channels_for_server db sid = Inr cs \<Longrightarrow>
   set cs = {c \<in> set (db_channels db). ch_server_id c = Some sid}"
  by (auto simp: pg_channels_for_server_def pg_ask_def split: if_splits)

end
