(* ===== verification/Perm_Cache.thy ===== *)
theory Perm_Cache
  imports Pg_Store
begin

text \<open>
  The permission cache (\<open>src/server-rs/src/services/permissions.rs\<close>): the permission bits,
  the cached structs, and the synchronous operations of \<open>PermissionCache\<close>. The four
  \<open>DashMap\<close>s are the fields of one record that every operation takes and returns; an
  operation is one atomic step of it. \<open>Instant::now()\<close> is the argument \<open>now\<close>, in seconds.
  A spawned cleanup task is an entry of \<open>pc_tasks\<close> until it runs or is aborted. The
  operations that read Postgres are in \<open>Perm_Load\<close>.
\<close>

section \<open>Permission bits\<close>

definition VIEW_CHANNEL :: i64_bits where "VIEW_CHANNEL = push_bit 0 1"
definition SEND_MESSAGES :: i64_bits where "SEND_MESSAGES = push_bit 1 1"
definition MANAGE_MESSAGES :: i64_bits where "MANAGE_MESSAGES = push_bit 2 1"
definition MANAGE_CHANNELS :: i64_bits where "MANAGE_CHANNELS = push_bit 3 1"
definition MANAGE_SERVER :: i64_bits where "MANAGE_SERVER = push_bit 4 1"
definition MANAGE_ROLES :: i64_bits where "MANAGE_ROLES = push_bit 5 1"
definition KICK_MEMBERS :: i64_bits where "KICK_MEMBERS = push_bit 6 1"
definition BAN_MEMBERS :: i64_bits where "BAN_MEMBERS = push_bit 7 1"
definition ATTACH_FILES :: i64_bits where "ATTACH_FILES = push_bit 8 1"
definition USE_CUSTOM_EMOJIS :: i64_bits where "USE_CUSTOM_EMOJIS = push_bit 9 1"
definition ADMINISTRATOR :: i64_bits where "ADMINISTRATOR = push_bit 10 1"
definition CREATE_INVITE :: i64_bits where "CREATE_INVITE = push_bit 11 1"
definition CONNECT :: i64_bits where "CONNECT = push_bit 12 1"
definition SPEAK :: i64_bits where "SPEAK = push_bit 13 1"
definition MUTE_MEMBERS :: i64_bits where "MUTE_MEMBERS = push_bit 14 1"
definition DEAFEN_MEMBERS :: i64_bits where "DEAFEN_MEMBERS = push_bit 15 1"

definition bits_has :: "i64_bits \<Rightarrow> i64_bits \<Rightarrow> bool" where
  "bits_has perms perm =
     (if perms AND ADMINISTRATOR \<noteq> 0 then True else perms AND perm = perm)"

definition all_perms :: i64_bits where
  "all_perms = NOT 0"

section \<open>Structs\<close>

datatype 'a cache_result = Hit 'a | Miss | Denied app_error

record cached_role =
  cr_id :: int
  cr_permissions :: i64_bits
  cr_position :: int
  cr_color_only :: bool

record cached_override =
  co_role_id :: int
  co_allow :: i64_bits
  co_deny :: i64_bits

record cached_channel =
  cc_id :: int
  cc_channel_type :: int
  cc_overrides :: "cached_override list"

record server_cache_entry =
  se_owner_id :: int
  se_everyone_role_id :: int
  se_roles :: "cached_role list"
  se_channels :: "cached_channel list"
  se_ref_count :: u32
  se_last_accessed :: int

record user_cache_entry =
  ue_server_ids :: "int hset"
  ue_member_roles :: "(int, int hset) dmap"
  ue_dm_channel_ids :: "int hset"
  ue_last_active :: int

record identify_server =
  is_id :: int
  is_owner_id :: int

record identify_cache_data =
  id_server_ids :: "int list"
  id_servers :: "identify_server list"
  id_member_roles :: "(int \<times> int) list"
  id_dm_channel_ids :: "int list"
  id_channel_index_entries :: "(int \<times> int) list"

datatype cache_invalidation_event =
    ServerRolesChanged int
  | UserRolesChanged int int
  | ChannelOverridesChanged int int
  | ServerChanged int

definition CLEANUP_GRACE_SECS :: int where "CLEANUP_GRACE_SECS = 60"
definition IDLE_TIMEOUT_SECS :: int where "IDLE_TIMEOUT_SECS = 14400"

record cleanup_task =
  ct_handle :: nat
  ct_user :: int
  ct_deadline :: int

record permission_cache =
  pc_channel_index :: "(int, int) dmap"
  pc_servers :: "(int, server_cache_entry) dmap"
  pc_users :: "(int, user_cache_entry) dmap"
  pc_cleanup_timers :: "(int, nat) dmap"
  pc_tasks :: "cleanup_task list"
  pc_next_handle :: nat

definition pc_new :: permission_cache where
  "pc_new = \<lparr>pc_channel_index = [], pc_servers = [], pc_users = [], pc_cleanup_timers = [],
             pc_tasks = [], pc_next_handle = 0\<rparr>"

section \<open>Lookups by binary search\<close>

definition find_role :: "server_cache_entry \<Rightarrow> int \<Rightarrow> cached_role option" where
  "find_role srv role_id = find_by_key cr_id (se_roles srv) role_id"

definition find_channel :: "server_cache_entry \<Rightarrow> int \<Rightarrow> cached_channel option" where
  "find_channel srv channel_id = find_by_key cc_id (se_channels srv) channel_id"

definition find_override :: "cached_channel \<Rightarrow> int \<Rightarrow> cached_override option" where
  "find_override ch role_id = find_by_key co_role_id (cc_overrides ch) role_id"

section \<open>Cleanup timers\<close>

definition abort_task :: "nat \<Rightarrow> permission_cache \<Rightarrow> permission_cache" where
  "abort_task h pc = pc\<lparr>pc_tasks := filter (\<lambda>t. ct_handle t \<noteq> h) (pc_tasks pc)\<rparr>"

definition cancel_cleanup :: "int \<Rightarrow> permission_cache \<Rightarrow> permission_cache" where
  "cancel_cleanup user_id pc =
     (case dm_get (pc_cleanup_timers pc) user_id of
        None \<Rightarrow> pc
      | Some h \<Rightarrow> abort_task h (pc\<lparr>pc_cleanup_timers := dm_del user_id (pc_cleanup_timers pc)\<rparr>))"

definition schedule_cleanup :: "int \<Rightarrow> int \<Rightarrow> permission_cache \<Rightarrow> permission_cache" where
  "schedule_cleanup now user_id pc =
     (let h = pc_next_handle pc;
          pc1 = pc\<lparr>pc_tasks := \<lparr>ct_handle = h, ct_user = user_id,
                                ct_deadline = now + CLEANUP_GRACE_SECS\<rparr> # pc_tasks pc,
                   pc_next_handle := Suc h\<rparr>;
          pc2 = (case dm_get (pc_cleanup_timers pc1) user_id of
                   None \<Rightarrow> pc1
                 | Some old \<Rightarrow> abort_task old
                     (pc1\<lparr>pc_cleanup_timers := dm_del user_id (pc_cleanup_timers pc1)\<rparr>))
      in pc2\<lparr>pc_cleanup_timers := dm_put user_id h (pc_cleanup_timers pc2)\<rparr>)"

section \<open>Populating from IDENTIFY\<close>

definition collect_member_roles :: "(int \<times> int) list \<Rightarrow> (int, int hset) dmap" where
  "collect_member_roles pairs =
     fold (\<lambda>(server_id, role_id) m.
             dm_upd server_id (hs_insert role_id) (dm_or_insert server_id [] m)) pairs []"

definition populate_from_identify ::
    "int \<Rightarrow> int \<Rightarrow> identify_cache_data \<Rightarrow> permission_cache \<Rightarrow> permission_cache" where
  "populate_from_identify now user_id data pc =
     (let pc = cancel_cleanup user_id pc;
          idx = fold (\<lambda>(channel_id, server_id) m. dm_put channel_id server_id m)
                  (id_channel_index_entries data) (pc_channel_index pc);
          idx = fold (\<lambda>dm_id m. dm_put dm_id 0 m) (id_dm_channel_ids data) idx;
          servers = fold (\<lambda>srv m. dm_upd (is_id srv)
                        (\<lambda>e. e\<lparr>se_ref_count := se_ref_count e + 1, se_owner_id := is_owner_id srv\<rparr>) m)
                      (id_servers data) (pc_servers pc);
          entry = \<lparr>ue_server_ids = hs_of_list (id_server_ids data),
                   ue_member_roles = collect_member_roles (id_member_roles data),
                   ue_dm_channel_ids = hs_of_list (id_dm_channel_ids data),
                   ue_last_active = now\<rparr>
      in pc\<lparr>pc_channel_index := idx, pc_servers := servers,
            pc_users := dm_put user_id entry (pc_users pc)\<rparr>)"

section \<open>Permission computation\<close>

definition everyone_perms :: "server_cache_entry \<Rightarrow> i64_bits" where
  "everyone_perms srv =
     (case find_role srv (se_everyone_role_id srv) of None \<Rightarrow> 0 | Some r \<Rightarrow> cr_permissions r)"

definition merge_role_perms :: "server_cache_entry \<Rightarrow> int list \<Rightarrow> i64_bits \<Rightarrow> i64_bits" where
  "merge_role_perms srv role_ids perms =
     fold (\<lambda>role_id p.
             case find_role srv role_id of
               None \<Rightarrow> p
             | Some r \<Rightarrow> if cr_color_only r then p else p OR cr_permissions r) role_ids perms"

definition merge_role_overrides ::
    "server_cache_entry \<Rightarrow> cached_channel \<Rightarrow> int list \<Rightarrow> i64_bits \<times> i64_bits" where
  "merge_role_overrides srv ch role_ids =
     fold (\<lambda>role_id (allow, deny).
             case find_role srv role_id of
               None \<Rightarrow> (allow, deny)
             | Some r \<Rightarrow>
                 if cr_color_only r then (allow, deny)
                 else case find_override ch role_id of
                        None \<Rightarrow> (allow, deny)
                      | Some ov \<Rightarrow> (allow OR co_allow ov, deny OR co_deny ov)) role_ids (0, 0)"

definition apply_override :: "i64_bits \<Rightarrow> i64_bits \<Rightarrow> i64_bits \<Rightarrow> i64_bits" where
  "apply_override perms allow deny = (perms AND NOT deny) OR allow"

definition apply_channel_overrides ::
    "server_cache_entry \<Rightarrow> cached_channel \<Rightarrow> int list \<Rightarrow> i64_bits \<Rightarrow> i64_bits" where
  "apply_channel_overrides srv ch role_ids perms =
     (let perms = (case find_override ch (se_everyone_role_id srv) of
                     None \<Rightarrow> perms
                   | Some ov \<Rightarrow> apply_override perms (co_allow ov) (co_deny ov));
          (allow, deny) = merge_role_overrides srv ch role_ids
      in apply_override perms allow deny)"

definition user_roles_in :: "user_cache_entry \<Rightarrow> int \<Rightarrow> int list" where
  "user_roles_in user server_id =
     (case dm_get (ue_member_roles user) server_id of None \<Rightarrow> [] | Some rs \<Rightarrow> rs)"

definition compute_permissions :: "permission_cache \<Rightarrow> int \<Rightarrow> int \<Rightarrow> i64_bits option" where
  "compute_permissions pc user_id channel_id =
     (case dm_get (pc_channel_index pc) channel_id of
        None \<Rightarrow> None
      | Some server_id \<Rightarrow>
          if server_id = 0 then None
          else case dm_get (pc_servers pc) server_id of
            None \<Rightarrow> None
          | Some srv \<Rightarrow>
              if se_owner_id srv = user_id then Some all_perms
              else case dm_get (pc_users pc) user_id of
                None \<Rightarrow> None
              | Some user \<Rightarrow>
                  (let role_ids = user_roles_in user server_id;
                       perms = merge_role_perms srv role_ids (everyone_perms srv)
                   in if perms AND ADMINISTRATOR \<noteq> 0 then Some all_perms
                      else case find_channel srv channel_id of
                        None \<Rightarrow> Some perms
                      | Some ch \<Rightarrow> Some (apply_channel_overrides srv ch role_ids perms)))"

definition compute_server_permissions :: "permission_cache \<Rightarrow> int \<Rightarrow> int \<Rightarrow> i64_bits option" where
  "compute_server_permissions pc user_id server_id =
     (case dm_get (pc_servers pc) server_id of
        None \<Rightarrow> None
      | Some srv \<Rightarrow>
          if se_owner_id srv = user_id then Some all_perms
          else case dm_get (pc_users pc) user_id of
            None \<Rightarrow> None
          | Some user \<Rightarrow>
              (let perms = merge_role_perms srv (user_roles_in user server_id) (everyone_perms srv)
               in if perms AND ADMINISTRATOR \<noteq> 0 then Some all_perms else Some perms))"

section \<open>Access verification\<close>

definition verify_access :: "permission_cache \<Rightarrow> int \<Rightarrow> int \<Rightarrow> int cache_result" where
  "verify_access pc user_id channel_id =
     (case dm_get (pc_channel_index pc) channel_id of
        None \<Rightarrow> Miss
      | Some server_id \<Rightarrow>
          case dm_get (pc_users pc) user_id of
            None \<Rightarrow> Miss
          | Some user \<Rightarrow>
              if server_id = 0 then
                (if channel_id \<in> set (ue_dm_channel_ids user) then Hit 0 else Denied NotMember)
              else if server_id \<notin> set (ue_server_ids user) then Denied NotMember
              else case compute_permissions pc user_id channel_id of
                     None \<Rightarrow> Hit server_id
                   | Some perms \<Rightarrow>
                       if bits_has perms VIEW_CHANNEL then Hit server_id
                       else Denied MissingPermission)"

definition get_server_everyone_perms :: "permission_cache \<Rightarrow> int \<Rightarrow> i64_bits option" where
  "get_server_everyone_perms pc server_id =
     (case dm_get (pc_servers pc) server_id of
        None \<Rightarrow> None
      | Some srv \<Rightarrow> map_option cr_permissions (find_role srv (se_everyone_role_id srv)))"

definition has_channel_permission :: "permission_cache \<Rightarrow> int \<Rightarrow> int \<Rightarrow> i64_bits \<Rightarrow> bool option" where
  "has_channel_permission pc user_id channel_id permission =
     map_option (\<lambda>perms. bits_has perms permission) (compute_permissions pc user_id channel_id)"

definition has_server_permission :: "permission_cache \<Rightarrow> int \<Rightarrow> int \<Rightarrow> i64_bits \<Rightarrow> bool option" where
  "has_server_permission pc user_id server_id permission =
     map_option (\<lambda>perms. bits_has perms permission) (compute_server_permissions pc user_id server_id)"

section \<open>Collecting online users\<close>

definition collect_entitled_online_members ::
    "permission_cache \<Rightarrow> int \<Rightarrow> int hset \<Rightarrow> int hset" where
  "collect_entitled_online_members pc server_id allowed_role_ids =
     fold (\<lambda>(user_id, user) out.
             case dm_get (ue_member_roles user) server_id of
               None \<Rightarrow> out
             | Some roles \<Rightarrow>
                 if has_server_permission pc user_id server_id ADMINISTRATOR = Some True
                    \<or> list_ex (\<lambda>r. r \<in> set allowed_role_ids) roles
                 then hs_insert user_id out else out)
       (pc_users pc)
       (case dm_get (pc_servers pc) server_id of
          None \<Rightarrow> []
        | Some srv \<Rightarrow> hs_insert (se_owner_id srv) [])"

definition collect_online_channel_viewers :: "permission_cache \<Rightarrow> int \<Rightarrow> int \<Rightarrow> int hset" where
  "collect_online_channel_viewers pc server_id channel_id =
     fold (\<lambda>(user_id, user) out.
             if server_id \<in> set (ue_server_ids user)
                \<and> has_channel_permission pc user_id channel_id VIEW_CHANNEL = Some True
             then hs_insert user_id out else out) (pc_users pc) []"

definition collect_online_server_members :: "permission_cache \<Rightarrow> int \<Rightarrow> int hset" where
  "collect_online_server_members pc server_id =
     fold (\<lambda>(user_id, user) out.
             if server_id \<in> set (ue_server_ids user) then hs_insert user_id out else out)
       (pc_users pc) []"

section \<open>Eviction\<close>

definition evict_server_data :: "int \<Rightarrow> permission_cache \<Rightarrow> permission_cache" where
  "evict_server_data server_id pc =
     (case dm_get (pc_servers pc) server_id of
        None \<Rightarrow> pc
      | Some entry \<Rightarrow>
          pc\<lparr>pc_servers := dm_del server_id (pc_servers pc),
             pc_channel_index := fold (\<lambda>ch m. dm_del (cc_id ch) m) (se_channels entry) (pc_channel_index pc)\<rparr>)"

text \<open>\<open>u32::saturating_sub(1)\<close>.\<close>

definition sat_dec :: "u32 \<Rightarrow> u32" where
  "sat_dec n = (if n = 0 then 0 else n - 1)"

definition decrement_server_ref :: "int \<Rightarrow> permission_cache \<Rightarrow> permission_cache" where
  "decrement_server_ref server_id pc =
     (case dm_get (pc_servers pc) server_id of
        None \<Rightarrow> pc
      | Some entry \<Rightarrow>
          (let n = sat_dec (se_ref_count entry);
               pc = pc\<lparr>pc_servers := dm_upd server_id (\<lambda>e. e\<lparr>se_ref_count := n\<rparr>) (pc_servers pc)\<rparr>
           in if n = 0 then evict_server_data server_id pc else pc))"

definition evict_user :: "int \<Rightarrow> permission_cache \<Rightarrow> permission_cache" where
  "evict_user user_id pc =
     (case dm_get (pc_users pc) user_id of
        None \<Rightarrow> pc
      | Some user \<Rightarrow>
          (let pc = pc\<lparr>pc_users := dm_del user_id (pc_users pc)\<rparr>;
               pc = fold decrement_server_ref (ue_server_ids user) pc;
               pc = fold (\<lambda>dm_id pc.
                       if list_ex (\<lambda>(_, u). dm_id \<in> set (ue_dm_channel_ids u)) (pc_users pc) then pc
                       else pc\<lparr>pc_channel_index := dm_del dm_id (pc_channel_index pc)\<rparr>)
                      (ue_dm_channel_ids user) pc
           in pc\<lparr>pc_cleanup_timers := dm_del user_id (pc_cleanup_timers pc)\<rparr>))"

text \<open>The body of a cleanup task once its sleep is over: the task ends and evicts its user.\<close>

definition run_cleanup_task :: "int \<Rightarrow> nat \<Rightarrow> permission_cache \<Rightarrow> permission_cache" where
  "run_cleanup_task now h pc =
     (case List.find (\<lambda>t. ct_handle t = h) (pc_tasks pc) of
        None \<Rightarrow> pc
      | Some t \<Rightarrow> if ct_deadline t \<le> now then evict_user (ct_user t) (abort_task h pc) else pc)"

text \<open>One tick of the idle sweep.\<close>

definition idle_sweep :: "int \<Rightarrow> permission_cache \<Rightarrow> permission_cache" where
  "idle_sweep now pc =
     (let cutoff = now - IDLE_TIMEOUT_SECS;
          stale_users = map fst (filter (\<lambda>(_, u). ue_last_active u < cutoff) (pc_users pc));
          pc = fold (\<lambda>user_id pc. evict_user user_id (cancel_cleanup user_id pc)) stale_users pc;
          stale_servers = map fst (filter (\<lambda>(_, e). se_ref_count e = 0 \<and> se_last_accessed e < cutoff)
                                     (pc_servers pc))
      in fold evict_server_data stale_servers pc)"

section \<open>Incremental updates\<close>

definition add_channel_meta :: "int \<Rightarrow> int \<Rightarrow> int \<Rightarrow> permission_cache \<Rightarrow> permission_cache" where
  "add_channel_meta channel_id server_id channel_type pc =
     pc\<lparr>pc_channel_index := dm_put channel_id server_id (pc_channel_index pc),
        pc_servers := dm_upd server_id (\<lambda>srv.
          case bsearch cc_id (se_channels srv) channel_id of
            Found _ \<Rightarrow> srv
          | Insert_at pos \<Rightarrow> srv\<lparr>se_channels := list_insert_at pos
                \<lparr>cc_id = channel_id, cc_channel_type = channel_type, cc_overrides = []\<rparr>
                (se_channels srv)\<rparr>) (pc_servers pc)\<rparr>"

definition remove_channel_meta :: "int \<Rightarrow> permission_cache \<Rightarrow> permission_cache" where
  "remove_channel_meta channel_id pc =
     (case dm_get (pc_channel_index pc) channel_id of
        None \<Rightarrow> pc
      | Some server_id \<Rightarrow>
          pc\<lparr>pc_channel_index := dm_del channel_id (pc_channel_index pc),
             pc_servers := dm_upd server_id (\<lambda>srv.
               case bsearch cc_id (se_channels srv) channel_id of
                 Found idx \<Rightarrow> srv\<lparr>se_channels := list_remove_at idx (se_channels srv)\<rparr>
               | Insert_at _ \<Rightarrow> srv) (pc_servers pc)\<rparr>)"

definition add_user_server :: "int \<Rightarrow> int \<Rightarrow> permission_cache \<Rightarrow> permission_cache" where
  "add_user_server user_id server_id pc =
     pc\<lparr>pc_users := dm_upd user_id (\<lambda>u.
          u\<lparr>ue_server_ids := hs_insert server_id (ue_server_ids u),
            ue_member_roles := dm_or_insert server_id [] (ue_member_roles u)\<rparr>) (pc_users pc),
        pc_servers := dm_upd server_id (\<lambda>e. e\<lparr>se_ref_count := se_ref_count e + 1\<rparr>) (pc_servers pc)\<rparr>"

definition remove_user_server :: "int \<Rightarrow> int \<Rightarrow> permission_cache \<Rightarrow> permission_cache" where
  "remove_user_server user_id server_id pc =
     decrement_server_ref server_id
       (pc\<lparr>pc_users := dm_upd user_id (\<lambda>u.
          u\<lparr>ue_server_ids := hs_remove server_id (ue_server_ids u),
            ue_member_roles := dm_del server_id (ue_member_roles u)\<rparr>) (pc_users pc)\<rparr>)"

definition is_member_cached :: "permission_cache \<Rightarrow> int \<Rightarrow> int \<Rightarrow> bool option" where
  "is_member_cached pc user_id server_id =
     map_option (\<lambda>u. server_id \<in> set (ue_server_ids u)) (dm_get (pc_users pc) user_id)"

definition add_dm_channel :: "int \<Rightarrow> int \<Rightarrow> permission_cache \<Rightarrow> permission_cache" where
  "add_dm_channel user_id channel_id pc =
     pc\<lparr>pc_channel_index := dm_or_insert channel_id 0 (pc_channel_index pc),
        pc_users := dm_upd user_id (\<lambda>u.
          u\<lparr>ue_dm_channel_ids := hs_insert channel_id (ue_dm_channel_ids u)\<rparr>) (pc_users pc)\<rparr>"

definition touch_user :: "int \<Rightarrow> int \<Rightarrow> permission_cache \<Rightarrow> permission_cache" where
  "touch_user now user_id pc =
     pc\<lparr>pc_users := dm_upd user_id (\<lambda>u. u\<lparr>ue_last_active := now\<rparr>) (pc_users pc)\<rparr>"

definition get_user_server_ids :: "permission_cache \<Rightarrow> int \<Rightarrow> int list option" where
  "get_user_server_ids pc user_id = map_option ue_server_ids (dm_get (pc_users pc) user_id)"

definition get_user_dm_channel_ids :: "permission_cache \<Rightarrow> int \<Rightarrow> int list option" where
  "get_user_dm_channel_ids pc user_id = map_option ue_dm_channel_ids (dm_get (pc_users pc) user_id)"

definition get_channel_ids_for_servers :: "permission_cache \<Rightarrow> int list \<Rightarrow> int list" where
  "get_channel_ids_for_servers pc server_ids =
     map fst (filter (\<lambda>(_, sid). sid \<in> set server_ids) (pc_channel_index pc))"

definition i32_max :: int where
  "i32_max = 2 ^ 31 - 1"

definition get_highest_role_position :: "permission_cache \<Rightarrow> int \<Rightarrow> int \<Rightarrow> int option" where
  "get_highest_role_position pc user_id server_id =
     (case dm_get (pc_servers pc) server_id of
        None \<Rightarrow> None
      | Some srv \<Rightarrow>
          if se_owner_id srv = user_id then Some i32_max
          else case dm_get (pc_users pc) user_id of
            None \<Rightarrow> None
          | Some user \<Rightarrow>
              case dm_get (ue_member_roles user) server_id of
                None \<Rightarrow> None
              | Some role_ids \<Rightarrow>
                  Some (fold (\<lambda>role_id highest.
                     case find_role srv role_id of
                       None \<Rightarrow> highest
                     | Some r \<Rightarrow> if cr_color_only r then highest else max highest (cr_position r))
                    role_ids 0))"

definition handle_invalidation_event ::
    "cache_invalidation_event \<Rightarrow> permission_cache \<Rightarrow> permission_cache" where
  "handle_invalidation_event ev pc =
     (case ev of
        ServerRolesChanged server_id \<Rightarrow> evict_server_data server_id pc
      | UserRolesChanged user_id server_id \<Rightarrow>
          pc\<lparr>pc_users := dm_upd user_id (\<lambda>u.
             u\<lparr>ue_member_roles := dm_del server_id (ue_member_roles u)\<rparr>) (pc_users pc)\<rparr>
      | ChannelOverridesChanged _ server_id \<Rightarrow> evict_server_data server_id pc
      | ServerChanged server_id \<Rightarrow> evict_server_data server_id pc)"

end
