(* ===== verification/Perm_Load.thy ===== *)
theory Perm_Load
  imports Perm_Cache
begin

text \<open>
  The operations of \<open>PermissionCache\<close> that read Postgres
  (\<open>src/server-rs/src/services/permissions.rs\<close>): lazy loading, the permission,
  membership and hierarchy checks with their storage fallbacks, and the local
  invalidations. Each returns its result and the new cache; a failed read is
  \<open>AppError::Internal\<close>, as the \<open>map_err\<close> calls say. The reads of one operation see one
  database state (the tables are the argument \<open>db\<close>), and an operation runs without
  interleaving; both abstract from the \<open>await\<close> points.
\<close>

section \<open>Lazy loading\<close>

definition to_cached_override :: "override_row \<Rightarrow> cached_override" where
  "to_cached_override ov =
     \<lparr>co_role_id = ov_role_id ov, co_allow = ov_allow_bits ov, co_deny = ov_deny_bits ov\<rparr>"

definition to_cached_role :: "role_row \<Rightarrow> cached_role" where
  "to_cached_role r =
     \<lparr>cr_id = rr_id r, cr_permissions = rr_permissions r, cr_position = rr_position r,
      cr_color_only = rr_color_only r\<rparr>"

definition bucket_overrides :: "override_row list \<Rightarrow> (int, cached_override list) dmap" where
  "bucket_overrides rows =
     fold (\<lambda>ov m. dm_upd (ov_channel_id ov) (\<lambda>xs. xs @ [to_cached_override ov])
                    (dm_or_insert (ov_channel_id ov) [] m)) rows []"

definition scan_everyone :: "int \<Rightarrow> role_row list \<Rightarrow> int" where
  "scan_everyone start rows =
     fold (\<lambda>r e. if \<not> rr_color_only r \<and> rr_position r = 0 then rr_id r else e) rows start"

definition build_roles :: "role_row list \<Rightarrow> cached_role list" where
  "build_roles rows = sort_key cr_id (map to_cached_role rows)"

fun build_channels :: "(int, cached_override list) dmap \<Rightarrow> channel_row list \<Rightarrow> cached_channel list" where
  "build_channels m [] = []"
| "build_channels m (c # cs) =
     \<lparr>cc_id = ch_id c, cc_channel_type = ch_type c,
      cc_overrides = sort_key co_role_id
        (case dm_get m (ch_id c) of None \<Rightarrow> [] | Some os \<Rightarrow> os)\<rparr>
     # build_channels (dm_del (ch_id c) m) cs"

definition count_refs :: "permission_cache \<Rightarrow> int \<Rightarrow> u32" where
  "count_refs pc server_id =
     of_nat (length (filter (\<lambda>(_, u). server_id \<in> set (ue_server_ids u)) (pc_users pc)))"

definition load_entry ::
    "int \<Rightarrow> permission_cache \<Rightarrow> int \<Rightarrow> int \<Rightarrow> role_row list \<Rightarrow> channel_row list \<Rightarrow> override_row list
     \<Rightarrow> server_cache_entry" where
  "load_entry now pc server_id owner_id roles channels overrides =
     \<lparr>se_owner_id = owner_id,
      se_everyone_role_id = scan_everyone 0 roles,
      se_roles = build_roles roles,
      se_channels = sort_key cc_id (build_channels (bucket_overrides overrides) channels),
      se_ref_count = max (count_refs pc server_id) 1,
      se_last_accessed = now\<rparr>"

definition lazy_load_server ::
    "pg_db \<Rightarrow> int \<Rightarrow> int \<Rightarrow> permission_cache \<Rightarrow> bool app_result \<times> permission_cache" where
  "lazy_load_server db now server_id pc =
     (case dm_get (pc_servers pc) server_id of
        Some _ \<Rightarrow> (Inr False,
          pc\<lparr>pc_servers := dm_upd server_id (\<lambda>e. e\<lparr>se_last_accessed := now\<rparr>) (pc_servers pc)\<rparr>)
      | None \<Rightarrow>
          (case pg_server_by_id db server_id of
             Inl _ \<Rightarrow> (Inl Internal, pc)
           | Inr None \<Rightarrow> (Inl (NotFound ''server''), pc)
           | Inr (Some record) \<Rightarrow>
               (case pg_roles_for_server db server_id of
                  Inl _ \<Rightarrow> (Inl Internal, pc)
                | Inr roles \<Rightarrow>
                    (case pg_channels_for_server db server_id of
                       Inl _ \<Rightarrow> (Inl Internal, pc)
                     | Inr channels \<Rightarrow>
                         (case pg_overrides_for_server db server_id of
                            Inl _ \<Rightarrow> (Inl Internal, pc)
                          | Inr overrides \<Rightarrow>
                              (let entry = load_entry now pc server_id (sv_owner_id record)
                                             roles channels overrides
                               in (Inr True,
                                   pc\<lparr>pc_channel_index :=
                                        fold (\<lambda>ch m. dm_or_insert (cc_id ch) server_id m)
                                          (se_channels entry) (pc_channel_index pc),
                                      pc_servers := dm_put server_id entry (pc_servers pc)\<rparr>)))))))"

definition ensure_server_loaded ::
    "pg_db \<Rightarrow> int \<Rightarrow> int \<Rightarrow> permission_cache \<Rightarrow> unit app_result \<times> permission_cache" where
  "ensure_server_loaded db now server_id pc =
     (case dm_get (pc_servers pc) server_id of
        Some _ \<Rightarrow> (Inr (),
          pc\<lparr>pc_servers := dm_upd server_id (\<lambda>e. e\<lparr>se_last_accessed := now\<rparr>) (pc_servers pc)\<rparr>)
      | None \<Rightarrow>
          (case lazy_load_server db now server_id pc of
             (Inl e, pc') \<Rightarrow> (Inl e, pc')
           | (Inr _, pc') \<Rightarrow> (Inr (), pc')))"

section \<open>Server-level permission\<close>

definition user_role_ids_for_server :: "pg_db \<Rightarrow> int \<Rightarrow> int \<Rightarrow> int hset app_result" where
  "user_role_ids_for_server db user_id server_id =
     (case pg_role_ids db user_id server_id of
        Inl _ \<Rightarrow> Inl Internal
      | Inr ids \<Rightarrow> Inr (hs_of_list ids))"

definition resolve_perms_from_vdb :: "pg_db \<Rightarrow> int \<Rightarrow> int \<Rightarrow> i64_bits app_result" where
  "resolve_perms_from_vdb db user_id server_id =
     (case pg_server_by_id db server_id of
        Inl _ \<Rightarrow> Inl Internal
      | Inr None \<Rightarrow> Inl (NotFound ''server'')
      | Inr (Some server) \<Rightarrow>
          if sv_owner_id server = user_id then Inr all_perms
          else (case pg_roles_for_server db server_id of
             Inl _ \<Rightarrow> Inl Internal
           | Inr server_roles \<Rightarrow>
               (case user_role_ids_for_server db user_id server_id of
                  Inl e \<Rightarrow> Inl e
                | Inr user_role_ids \<Rightarrow>
                    Inr (fold (\<lambda>role perms.
                           if rr_color_only role then perms
                           else if rr_position role = 0 \<or> rr_id role \<in> set user_role_ids
                           then perms OR rr_permissions role else perms) server_roles 0))))"

definition check_server_permission ::
    "pg_db \<Rightarrow> int \<Rightarrow> int \<Rightarrow> int \<Rightarrow> i64_bits \<Rightarrow> permission_cache \<Rightarrow> unit app_result \<times> permission_cache" where
  "check_server_permission db now user_id server_id permission pc =
     (case ensure_server_loaded db now server_id pc of
        (Inl e, pc) \<Rightarrow> (Inl e, pc)
      | (Inr _, pc) \<Rightarrow>
          (case has_server_permission pc user_id server_id permission of
             Some has \<Rightarrow> ((if has then Inr () else Inl MissingPermission), pc)
           | None \<Rightarrow>
               (case resolve_perms_from_vdb db user_id server_id of
                  Inl e \<Rightarrow> (Inl e, pc)
                | Inr perms \<Rightarrow>
                    ((if bits_has perms permission then Inr () else Inl MissingPermission), pc))))"

definition resolve_server_permissions ::
    "pg_db \<Rightarrow> int \<Rightarrow> int \<Rightarrow> int \<Rightarrow> permission_cache \<Rightarrow> i64_bits app_result \<times> permission_cache" where
  "resolve_server_permissions db now user_id server_id pc =
     (case ensure_server_loaded db now server_id pc of
        (Inl e, pc) \<Rightarrow> (Inl e, pc)
      | (Inr _, pc) \<Rightarrow>
          (case compute_server_permissions pc user_id server_id of
             Some perms \<Rightarrow> (Inr perms, pc)
           | None \<Rightarrow>
               (case resolve_perms_from_vdb db user_id server_id of
                  Inl e \<Rightarrow> (Inl e, pc)
                | Inr perms \<Rightarrow>
                    (Inr (if perms AND ADMINISTRATOR \<noteq> 0 then all_perms else perms), pc))))"

section \<open>Channel-level permission\<close>

text \<open>Steps 2 to 3 of the storage computation: @everyone and the assigned roles.\<close>

definition storage_base_perms :: "permission_cache \<Rightarrow> int \<Rightarrow> int list \<Rightarrow> i64_bits" where
  "storage_base_perms pc server_id user_role_ids =
     (let perms = (case get_server_everyone_perms pc server_id of None \<Rightarrow> 0 | Some p \<Rightarrow> p)
      in case dm_get (pc_servers pc) server_id of
           None \<Rightarrow> perms
         | Some server \<Rightarrow> merge_role_perms server user_role_ids perms)"

text \<open>Step 5: the first @everyone override, then the merged role overrides.\<close>

definition storage_apply_overrides ::
    "permission_cache \<Rightarrow> int \<Rightarrow> int list \<Rightarrow> cached_override list \<Rightarrow> i64_bits \<Rightarrow> i64_bits" where
  "storage_apply_overrides pc server_id user_role_ids overrides perms =
     (let everyone_role_id = (case dm_get (pc_servers pc) server_id of
                                None \<Rightarrow> 0 | Some s \<Rightarrow> se_everyone_role_id s);
          perms = (case List.find (\<lambda>ov. co_role_id ov = everyone_role_id) overrides of
                     None \<Rightarrow> perms
                   | Some ov \<Rightarrow> apply_override perms (co_allow ov) (co_deny ov));
          (role_allow, role_deny) =
            fold (\<lambda>ov (allow, deny).
               let role_is_permission_role =
                     (case dm_get (pc_servers pc) server_id of
                        None \<Rightarrow> True
                      | Some server \<Rightarrow>
                          (case find_role server (co_role_id ov) of
                             None \<Rightarrow> True
                           | Some role \<Rightarrow> \<not> cr_color_only role))
               in if role_is_permission_role \<and> co_role_id ov \<in> set user_role_ids
                  then (allow OR co_allow ov, deny OR co_deny ov) else (allow, deny))
              overrides (0, 0)
      in apply_override perms role_allow role_deny)"

definition check_channel_permission ::
    "pg_db \<Rightarrow> int \<Rightarrow> int \<Rightarrow> int \<Rightarrow> int \<Rightarrow> i64_bits \<Rightarrow> permission_cache
     \<Rightarrow> unit app_result \<times> permission_cache" where
  "check_channel_permission db now user_id channel_id server_id permission pc =
     (case ensure_server_loaded db now server_id pc of
        (Inl e, pc) \<Rightarrow> (Inl e, pc)
      | (Inr _, pc) \<Rightarrow>
          (case has_channel_permission pc user_id channel_id permission of
             Some has \<Rightarrow> ((if has then Inr () else Inl MissingPermission), pc)
           | None \<Rightarrow>
               (case user_role_ids_for_server db user_id server_id of
                  Inl e \<Rightarrow> (Inl e, pc)
                | Inr user_role_ids \<Rightarrow>
                    (let perms = storage_base_perms pc server_id user_role_ids
                     in if perms AND ADMINISTRATOR \<noteq> 0 then (Inr (), pc)
                        else (case pg_overrides db channel_id of
                           Inl _ \<Rightarrow> (Inl Internal, pc)
                         | Inr rows \<Rightarrow>
                             (let perms = storage_apply_overrides pc server_id user_role_ids
                                            (map to_cached_override rows) perms
                              in ((if bits_has perms permission then Inr ()
                                   else Inl MissingPermission), pc)))))))"

section \<open>Membership and hierarchy\<close>

definition check_membership ::
    "pg_db \<Rightarrow> int \<Rightarrow> int \<Rightarrow> permission_cache \<Rightarrow> unit app_result \<times> permission_cache" where
  "check_membership db user_id server_id pc =
     (if is_member_cached pc user_id server_id = Some True then (Inr (), pc)
      else case pg_is_member db server_id user_id of
             Inl _ \<Rightarrow> (Inl Internal, pc)
           | Inr False \<Rightarrow> (Inl NotMember, pc)
           | Inr True \<Rightarrow> (Inr (), add_user_server user_id server_id pc))"

text \<open>\<open>AppState::require_permission\<close> (\<open>state.rs\<close>): membership, then the permission.\<close>

definition require_permission ::
    "pg_db \<Rightarrow> int \<Rightarrow> int \<Rightarrow> int \<Rightarrow> i64_bits \<Rightarrow> permission_cache \<Rightarrow> unit app_result \<times> permission_cache" where
  "require_permission db now user_id server_id permission pc =
     (case check_membership db user_id server_id pc of
        (Inl e, pc) \<Rightarrow> (Inl e, pc)
      | (Inr _, pc) \<Rightarrow> check_server_permission db now user_id server_id permission pc)"

definition role_hierarchy_error :: app_error where
  "role_hierarchy_error =
     WithCode 403 ''ROLE_HIERARCHY'' ''You cannot perform this action on a user with equal or higher role''"

definition storage_position :: "role_row list \<Rightarrow> int list \<Rightarrow> int" where
  "storage_position server_roles role_ids =
     (case map rr_position (filter (\<lambda>r. \<not> rr_color_only r)
                              (filter (\<lambda>r. rr_id r \<in> set role_ids) server_roles)) of
        [] \<Rightarrow> 0
      | p # ps \<Rightarrow> fold max ps p)"

definition check_hierarchy ::
    "pg_db \<Rightarrow> int \<Rightarrow> int \<Rightarrow> int \<Rightarrow> int \<Rightarrow> permission_cache \<Rightarrow> unit app_result \<times> permission_cache" where
  "check_hierarchy db now actor_id target_id server_id pc =
     (case ensure_server_loaded db now server_id pc of
        (Inl e, pc) \<Rightarrow> (Inl e, pc)
      | (Inr _, pc) \<Rightarrow>
          (case (get_highest_role_position pc actor_id server_id,
                 get_highest_role_position pc target_id server_id) of
             (Some actor_pos, Some target_pos) \<Rightarrow>
               ((if actor_pos \<le> target_pos then Inl role_hierarchy_error else Inr ()), pc)
           | _ \<Rightarrow>
               (case pg_server_by_id db server_id of
                  Inl _ \<Rightarrow> (Inl Internal, pc)
                | Inr None \<Rightarrow> (Inl (NotFound ''server''), pc)
                | Inr (Some server) \<Rightarrow>
                    if sv_owner_id server = actor_id then (Inr (), pc)
                    else (case pg_roles_for_server db server_id of
                       Inl _ \<Rightarrow> (Inl Internal, pc)
                     | Inr server_roles \<Rightarrow>
                         (case user_role_ids_for_server db actor_id server_id of
                            Inl e \<Rightarrow> (Inl e, pc)
                          | Inr actor_role_ids \<Rightarrow>
                              (case user_role_ids_for_server db target_id server_id of
                                 Inl e \<Rightarrow> (Inl e, pc)
                               | Inr target_role_ids \<Rightarrow>
                                   ((if storage_position server_roles actor_role_ids
                                        \<le> storage_position server_roles target_role_ids
                                     then Inl role_hierarchy_error else Inr ()), pc)))))))"

section \<open>Local invalidation\<close>

definition invalidate_user_roles :: "pg_db \<Rightarrow> int \<Rightarrow> int \<Rightarrow> permission_cache \<Rightarrow> permission_cache" where
  "invalidate_user_roles db user_id server_id pc =
     (case pg_role_ids db user_id server_id of
        Inl _ \<Rightarrow> pc
      | Inr role_ids \<Rightarrow>
          pc\<lparr>pc_users := dm_upd user_id (\<lambda>u.
             u\<lparr>ue_member_roles := dm_put server_id (hs_of_list role_ids) (ue_member_roles u)\<rparr>) (pc_users pc)\<rparr>)"

definition invalidate_server_roles :: "pg_db \<Rightarrow> int \<Rightarrow> permission_cache \<Rightarrow> permission_cache" where
  "invalidate_server_roles db server_id pc =
     (case dm_get (pc_servers pc) server_id of
        None \<Rightarrow> pc
      | Some _ \<Rightarrow>
          (case pg_roles_for_server db server_id of
             Inl _ \<Rightarrow> pc
           | Inr rows \<Rightarrow>
               pc\<lparr>pc_servers := dm_upd server_id (\<lambda>srv.
                  srv\<lparr>se_everyone_role_id := scan_everyone (se_everyone_role_id srv) rows,
                      se_roles := build_roles rows\<rparr>) (pc_servers pc)\<rparr>))"

definition set_channel_overrides ::
    "int \<Rightarrow> int \<Rightarrow> cached_override list \<Rightarrow> server_cache_entry \<Rightarrow> server_cache_entry" where
  "set_channel_overrides channel_id channel_type new_overrides srv =
     (case bsearch cc_id (se_channels srv) channel_id of
        Found idx \<Rightarrow> srv\<lparr>se_channels := (se_channels srv)
            [idx := (se_channels srv ! idx)\<lparr>cc_overrides := new_overrides\<rparr>]\<rparr>
      | Insert_at idx \<Rightarrow> srv\<lparr>se_channels := list_insert_at idx
            \<lparr>cc_id = channel_id, cc_channel_type = channel_type, cc_overrides = new_overrides\<rparr>
            (se_channels srv)\<rparr>)"

definition invalidate_channel_overrides :: "pg_db \<Rightarrow> int \<Rightarrow> permission_cache \<Rightarrow> permission_cache" where
  "invalidate_channel_overrides db channel_id pc =
     (case dm_get (pc_channel_index pc) channel_id of
        None \<Rightarrow> pc
      | Some server_id \<Rightarrow>
          if server_id = 0 then pc
          else (case dm_get (pc_servers pc) server_id of
             None \<Rightarrow> pc
           | Some _ \<Rightarrow>
               (case pg_overrides db channel_id of
                  Inl _ \<Rightarrow> pc
                | Inr rows \<Rightarrow>
                    (case pg_channel_by_id db channel_id of
                       Inl _ \<Rightarrow> pc
                     | Inr None \<Rightarrow> pc
                     | Inr (Some channel) \<Rightarrow>
                         pc\<lparr>pc_servers := dm_upd server_id
                              (set_channel_overrides channel_id (ch_type channel)
                                 (sort_key co_role_id (map to_cached_override rows)))
                              (pc_servers pc)\<rparr>))))"

end
