(* ===== verification/Perm_Spec.thy ===== *)
theory Perm_Spec
  imports Perm_Load
begin

text \<open>
  What the permission computation of \<open>Perm_Cache\<close> means: for each bit, a condition on the
  \<^emph>\<open>set\<close> of the member's roles. The specification mentions no order, no binary search
  and no fold; the lemmas below carry the folds over hash sets and the search over sorted
  vectors to it.
\<close>

section \<open>Sorted entries\<close>

definition channel_wf :: "cached_channel \<Rightarrow> bool" where
  "channel_wf ch = key_sorted co_role_id (cc_overrides ch)"

definition entry_wf :: "server_cache_entry \<Rightarrow> bool" where
  "entry_wf srv \<longleftrightarrow> key_sorted cr_id (se_roles srv) \<and> key_sorted cc_id (se_channels srv) \<and>
     (\<forall>ch\<in>set (se_channels srv). channel_wf ch)"

lemma find_role_iff:
  "entry_wf srv \<Longrightarrow> find_role srv i = Some r \<longleftrightarrow> r \<in> set (se_roles srv) \<and> cr_id r = i"
  by (simp add: find_role_def entry_wf_def find_by_key_Some)

lemma find_channel_iff:
  "entry_wf srv \<Longrightarrow> find_channel srv i = Some c \<longleftrightarrow> c \<in> set (se_channels srv) \<and> cc_id c = i"
  by (simp add: find_channel_def entry_wf_def find_by_key_Some)

lemma find_override_iff:
  "channel_wf ch \<Longrightarrow> find_override ch i = Some ov \<longleftrightarrow> ov \<in> set (cc_overrides ch) \<and> co_role_id ov = i"
  by (simp add: find_override_def channel_wf_def find_by_key_Some)

lemma find_channel_wf: "entry_wf srv \<Longrightarrow> find_channel srv i = Some c \<Longrightarrow> channel_wf c"
  by (auto simp: find_channel_iff entry_wf_def)

section \<open>The bits of the merges\<close>

definition grants_role :: "server_cache_entry \<Rightarrow> int set \<Rightarrow> nat \<Rightarrow> bool" where
  "grants_role srv R n \<longleftrightarrow>
     (\<exists>i\<in>R. \<exists>r. find_role srv i = Some r \<and> \<not> cr_color_only r \<and> bit (cr_permissions r) n)"

definition override_bit ::
    "server_cache_entry \<Rightarrow> cached_channel \<Rightarrow> int set \<Rightarrow> (cached_override \<Rightarrow> i64_bits) \<Rightarrow> nat \<Rightarrow> bool" where
  "override_bit srv ch R f n \<longleftrightarrow>
     (\<exists>i\<in>R. \<exists>r. find_role srv i = Some r \<and> \<not> cr_color_only r \<and>
        (\<exists>ov. find_override ch i = Some ov \<and> bit (f ov) n))"

lemma merge_role_perms_Cons:
  "merge_role_perms srv (i # is) p =
     merge_role_perms srv is (case find_role srv i of None \<Rightarrow> p
        | Some r \<Rightarrow> if cr_color_only r then p else p OR cr_permissions r)"
  by (simp add: merge_role_perms_def)

lemma bit_merge_role_perms:
  "bit (merge_role_perms srv ids p) n \<longleftrightarrow> bit p n \<or> grants_role srv (set ids) n"
proof (induction ids arbitrary: p)
  case Nil
  then show ?case by (simp add: merge_role_perms_def grants_role_def)
next
  case (Cons i ids)
  show ?case
    unfolding merge_role_perms_Cons Cons.IH
    by (auto simp: grants_role_def bit_or_iff split: option.splits if_splits)
qed

definition merge_step ::
    "server_cache_entry \<Rightarrow> cached_channel \<Rightarrow> int \<Rightarrow> i64_bits \<times> i64_bits \<Rightarrow> i64_bits \<times> i64_bits" where
  "merge_step srv ch i p =
     (case find_role srv i of
        None \<Rightarrow> p
      | Some r \<Rightarrow> if cr_color_only r then p
          else case find_override ch i of None \<Rightarrow> p
             | Some ov \<Rightarrow> (fst p OR co_allow ov, snd p OR co_deny ov))"

lemma merge_role_overrides_step: "merge_role_overrides srv ch ids = fold (merge_step srv ch) ids (0, 0)"
proof -
  have "(\<lambda>role_id (allow, deny). case find_role srv role_id of None \<Rightarrow> (allow, deny)
      | Some r \<Rightarrow> if cr_color_only r then (allow, deny)
          else case find_override ch role_id of None \<Rightarrow> (allow, deny)
             | Some ov \<Rightarrow> (allow OR co_allow ov, deny OR co_deny ov)) = merge_step srv ch"
    by (intro ext) (auto simp: merge_step_def split: option.splits)
  then show ?thesis by (simp add: merge_role_overrides_def)
qed

lemma bit_merge_step:
  "bit (fst (merge_step srv ch i p)) n \<longleftrightarrow> bit (fst p) n \<or> override_bit srv ch {i} co_allow n"
  "bit (snd (merge_step srv ch i p)) n \<longleftrightarrow> bit (snd p) n \<or> override_bit srv ch {i} co_deny n"
  by (auto simp: override_bit_def merge_step_def bit_or_iff split: option.splits)

lemma override_bit_insert:
  "override_bit srv ch (insert i R) f n \<longleftrightarrow> override_bit srv ch {i} f n \<or> override_bit srv ch R f n"
  by (auto simp: override_bit_def)

lemma bit_fold_merge_step:
  "(bit (fst (fold (merge_step srv ch) ids p)) n \<longleftrightarrow> bit (fst p) n \<or> override_bit srv ch (set ids) co_allow n) \<and>
   (bit (snd (fold (merge_step srv ch) ids p)) n \<longleftrightarrow> bit (snd p) n \<or> override_bit srv ch (set ids) co_deny n)"
proof (induction ids arbitrary: p)
  case Nil
  then show ?case by (simp add: override_bit_def)
next
  case (Cons i ids)
  show ?case
    using Cons.IH [of "merge_step srv ch i p"]
    by (simp add: bit_merge_step override_bit_insert [of srv ch i "set ids"] disj_assoc)
qed

lemma bit_merge_role_overrides:
  "bit (fst (merge_role_overrides srv ch ids)) n \<longleftrightarrow> override_bit srv ch (set ids) co_allow n"
  "bit (snd (merge_role_overrides srv ch ids)) n \<longleftrightarrow> override_bit srv ch (set ids) co_deny n"
  unfolding merge_role_overrides_step using bit_fold_merge_step [of srv ch ids "(0, 0)" n] by auto

lemma bit_apply_override:
  "bit (apply_override p a d) n \<longleftrightarrow> bit a n \<or> (bit p n \<and> \<not> bit d n)"
  using bit_imp_le_length [of p n] by (auto simp: apply_override_def bit_simps)

lemma bit_all_perms [simp]: "bit all_perms n \<longleftrightarrow> n < 64"
  by (simp add: all_perms_def bit_minus_1_iff)

lemma bit_flag: "bit (push_bit k (1 :: i64_bits)) n \<longleftrightarrow> n = k \<and> k < 64"
  by (auto simp: push_bit_eq_mult bit_exp_iff)

lemma bit_ADMINISTRATOR [simp]: "bit ADMINISTRATOR n \<longleftrightarrow> n = 10"
  unfolding ADMINISTRATOR_def bit_flag by simp

lemma bit_VIEW_CHANNEL [simp]: "bit VIEW_CHANNEL n \<longleftrightarrow> n = 0"
  unfolding VIEW_CHANNEL_def bit_flag by simp

lemma word_neq_0_bit: "(p :: i64_bits) \<noteq> 0 \<longleftrightarrow> (\<exists>n. bit p n)"
  by (metis bit_0_eq bit_eqI bot_apply bot_bool_def)

lemma ADMINISTRATOR_bit: "p AND ADMINISTRATOR \<noteq> 0 \<longleftrightarrow> bit p 10"
  by (simp add: word_neq_0_bit bit_and_iff)

lemma and_eq_iff_bits: "(p :: i64_bits) AND q = q \<longleftrightarrow> (\<forall>n. bit q n \<longrightarrow> bit p n)"
proof
  assume eq: "p AND q = q"
  show "\<forall>n. bit q n \<longrightarrow> bit p n"
    by (subst eq [symmetric]) (simp add: bit_and_iff)
next
  assume "\<forall>n. bit q n \<longrightarrow> bit p n"
  then show "p AND q = q" by (intro bit_eqI) (auto simp: bit_and_iff)
qed

lemma bits_has_iff:
  "bits_has p q \<longleftrightarrow> bit p 10 \<or> (\<forall>n. bit q n \<longrightarrow> bit p n)"
  by (simp only: bits_has_def ADMINISTRATOR_bit and_eq_iff_bits if_bool_eq_disj) blast

lemma bits_has_all_perms [simp]: "bits_has all_perms q"
  by (simp add: bits_has_iff)

lemma bits_has_VIEW: "bits_has p VIEW_CHANNEL \<longleftrightarrow> bit p 10 \<or> bit p 0"
  by (simp add: bits_has_iff)

section \<open>The specification\<close>

definition everyone_bit :: "server_cache_entry \<Rightarrow> nat \<Rightarrow> bool" where
  "everyone_bit srv n \<longleftrightarrow>
     (\<exists>r. find_role srv (se_everyone_role_id srv) = Some r \<and> bit (cr_permissions r) n)"

definition base_bit :: "server_cache_entry \<Rightarrow> int set \<Rightarrow> nat \<Rightarrow> bool" where
  "base_bit srv R n \<longleftrightarrow> everyone_bit srv n \<or> grants_role srv R n"

definition unrestricted :: "server_cache_entry \<Rightarrow> int \<Rightarrow> int set \<Rightarrow> bool" where
  "unrestricted srv user_id R \<longleftrightarrow> se_owner_id srv = user_id \<or> base_bit srv R 10"

definition everyone_override_bit :: "server_cache_entry \<Rightarrow> cached_channel \<Rightarrow> (cached_override \<Rightarrow> i64_bits) \<Rightarrow> nat \<Rightarrow> bool" where
  "everyone_override_bit srv ch f n \<longleftrightarrow>
     (\<exists>ov. find_override ch (se_everyone_role_id srv) = Some ov \<and> bit (f ov) n)"

text \<open>
  A bit is set in a channel when a role override of the member allows it; or when the
  \<open>@everyone\<close> override allows it, or the base grants it and that override does not deny it,
  and no role override of the member denies it.
\<close>

definition channel_bit :: "server_cache_entry \<Rightarrow> cached_channel \<Rightarrow> int set \<Rightarrow> nat \<Rightarrow> bool" where
  "channel_bit srv ch R n \<longleftrightarrow>
     override_bit srv ch R co_allow n \<or>
     ((everyone_override_bit srv ch co_allow n \<or>
       (base_bit srv R n \<and> \<not> everyone_override_bit srv ch co_deny n)) \<and>
      \<not> override_bit srv ch R co_deny n)"

definition effective_bit :: "server_cache_entry \<Rightarrow> int \<Rightarrow> int \<Rightarrow> int set \<Rightarrow> nat \<Rightarrow> bool" where
  "effective_bit srv user_id channel_id R n \<longleftrightarrow> n < 64 \<and>
     (unrestricted srv user_id R \<or>
      (case find_channel srv channel_id of
         None \<Rightarrow> base_bit srv R n
       | Some ch \<Rightarrow> channel_bit srv ch R n))"

definition server_bit :: "server_cache_entry \<Rightarrow> int \<Rightarrow> int set \<Rightarrow> nat \<Rightarrow> bool" where
  "server_bit srv user_id R n \<longleftrightarrow> n < 64 \<and> (unrestricted srv user_id R \<or> base_bit srv R n)"

lemma bit_everyone_perms: "bit (everyone_perms srv) n \<longleftrightarrow> everyone_bit srv n"
  by (auto simp: everyone_perms_def everyone_bit_def split: option.splits)

lemma bit_base: "bit (merge_role_perms srv ids (everyone_perms srv)) n \<longleftrightarrow> base_bit srv (set ids) n"
  by (simp add: bit_merge_role_perms bit_everyone_perms base_bit_def)

lemma base_bit_lt: "base_bit srv (set ids) n \<Longrightarrow> n < 64"
  unfolding bit_base [symmetric] using bit_imp_le_length by fastforce

lemma bit_apply_channel_overrides:
  "bit (apply_channel_overrides srv ch ids p) n \<longleftrightarrow>
     override_bit srv ch (set ids) co_allow n \<or>
     ((everyone_override_bit srv ch co_allow n \<or>
       (bit p n \<and> \<not> everyone_override_bit srv ch co_deny n)) \<and>
      \<not> override_bit srv ch (set ids) co_deny n)"
  by (auto simp: apply_channel_overrides_def Let_def case_prod_beta bit_apply_override
        bit_merge_role_overrides everyone_override_bit_def split: option.splits)

lemma channel_bit_lt: "channel_bit srv ch (set ids) n \<Longrightarrow> n < 64"
proof -
  assume "channel_bit srv ch (set ids) n"
  then have "bit (apply_channel_overrides srv ch ids (merge_role_perms srv ids (everyone_perms srv))) n"
    by (simp add: bit_apply_channel_overrides bit_base channel_bit_def)
  then show ?thesis using bit_imp_le_length by fastforce
qed

lemma compute_permissions_bits:
  assumes "dm_get (pc_channel_index pc) channel_id = Some server_id" "server_id \<noteq> 0"
    and "dm_get (pc_servers pc) server_id = Some srv"
    and "dm_get (pc_users pc) user_id = Some user"
  shows "\<exists>p. compute_permissions pc user_id channel_id = Some p \<and>
           (\<forall>n. bit p n \<longleftrightarrow> effective_bit srv user_id channel_id (set (user_roles_in user server_id)) n)"
  using assms
  by (auto simp: compute_permissions_def effective_bit_def unrestricted_def Let_def ADMINISTRATOR_bit
      bit_base bit_apply_channel_overrides channel_bit_def [symmetric] split: option.splits
      dest: base_bit_lt channel_bit_lt)

lemma compute_server_permissions_bits:
  assumes "dm_get (pc_servers pc) server_id = Some srv" "dm_get (pc_users pc) user_id = Some user"
  shows "\<exists>p. compute_server_permissions pc user_id server_id = Some p \<and>
           (\<forall>n. bit p n \<longleftrightarrow> server_bit srv user_id (set (user_roles_in user server_id)) n)"
  using assms
  by (auto simp: compute_server_permissions_def server_bit_def unrestricted_def Let_def
      ADMINISTRATOR_bit bit_base dest: base_bit_lt)

lemma bits_determine: "(\<And>n. bit (p :: i64_bits) n \<longleftrightarrow> P n) \<Longrightarrow> (\<And>n. bit q n \<longleftrightarrow> P n) \<Longrightarrow> p = q"
  by (intro bit_eqI) auto

end
