(* ===== verification/Perm_Inv.thy ===== *)
theory Perm_Inv
  imports Perm_Spec
begin

text \<open>
  The invariant of the permission cache and its preservation by every operation: the maps
  have unique keys, the sets have no duplicates, every vector searched by
  \<open>binary_search_by_key\<close> is strictly sorted by its key, and every pending cleanup task is
  the one registered for its user. A run is any sequence of the operations of
  \<open>Perm_Cache\<close> and \<open>Perm_Load\<close>, each against its own database state.
\<close>

section \<open>What lazy loading builds\<close>

lemma bucket_overrides_get_aux:
  "dm_get (fold (\<lambda>ov m. dm_upd (ov_channel_id ov) (\<lambda>xs. xs @ [to_cached_override ov])
             (dm_or_insert (ov_channel_id ov) [] m)) rows m) c =
   (let xs = filter (\<lambda>ov. ov_channel_id ov = c) rows in
      if xs = [] then dm_get m c
      else Some ((case dm_get m c of None \<Rightarrow> [] | Some ys \<Rightarrow> ys) @ map to_cached_override xs))"
  by (induction rows arbitrary: m) (auto simp: Let_def split: option.splits)

lemma bucket_overrides_get:
  "(case dm_get (bucket_overrides rows) c of None \<Rightarrow> [] | Some os \<Rightarrow> os) =
     map to_cached_override (filter (\<lambda>ov. ov_channel_id ov = c) rows)"
  by (auto simp: bucket_overrides_def bucket_overrides_get_aux Let_def split: option.splits)

definition load_channel :: "override_row list \<Rightarrow> channel_row \<Rightarrow> cached_channel" where
  "load_channel rows c =
     \<lparr>cc_id = ch_id c, cc_channel_type = ch_type c,
      cc_overrides = sort_key co_role_id
        (map to_cached_override (filter (\<lambda>ov. ov_channel_id ov = ch_id c) rows))\<rparr>"

lemma build_channels_map:
  assumes "distinct (map ch_id cs)"
    and "\<And>c. c \<in> ch_id ` set cs \<Longrightarrow> (case dm_get m c of None \<Rightarrow> [] | Some os \<Rightarrow> os) =
           map to_cached_override (filter (\<lambda>ov. ov_channel_id ov = c) rows)"
  shows "build_channels m cs = map (load_channel rows) cs"
  using assms
proof (induction m cs rule: build_channels.induct)
  case (2 m c cs)
  have "build_channels (dm_del (ch_id c) m) cs = map (load_channel rows) cs"
  proof (rule "2.IH")
    show "distinct (map ch_id cs)" using "2.prems"(1) by simp
    fix d assume d: "d \<in> ch_id ` set cs"
    then have "d \<noteq> ch_id c" using "2.prems"(1)
      by (simp only: list.map distinct.simps set_map) blast
    with "2.prems"(2) [of d] d
    show "(case dm_get (dm_del (ch_id c) m) d of None \<Rightarrow> [] | Some os \<Rightarrow> os) =
        map to_cached_override (filter (\<lambda>ov. ov_channel_id ov = d) rows)" by simp
  qed
  with "2.prems"(2) [of "ch_id c"] show ?case by (simp add: load_channel_def)
qed simp

lemma build_channels_loaded:
  "distinct (map ch_id cs) \<Longrightarrow> build_channels (bucket_overrides rows) cs = map (load_channel rows) cs"
  by (rule build_channels_map) (simp_all add: bucket_overrides_get)

lemma cached_ids [simp]:
  "map cr_id (map to_cached_role rs) = map rr_id rs"
  "map co_role_id (map to_cached_override ovs) = map ov_role_id ovs"
  "map cc_id (map (load_channel ovs) cs) = map ch_id cs"
  "co_role_id (to_cached_override ov) = ov_role_id ov"
  "cr_id (to_cached_role r) = rr_id r"
  "cc_id (load_channel ovs c) = ch_id c"
  by (simp_all add: to_cached_role_def to_cached_override_def load_channel_def comp_def)

lemma build_roles_sorted: "distinct (map rr_id rs) \<Longrightarrow> key_sorted cr_id (build_roles rs)"
  unfolding build_roles_def by (rule key_sorted_sort) (simp del: map_map)

lemma set_build_roles [simp]: "set (build_roles rs) = to_cached_role ` set rs"
  by (simp add: build_roles_def)

lemma sorted_overrides_wf:
  "distinct (map ov_role_id rows) \<Longrightarrow>
   key_sorted co_role_id (sort_key co_role_id (map to_cached_override rows))"
  by (rule key_sorted_sort) (simp del: map_map)

lemma load_channel_wf:
  assumes "distinct (map (\<lambda>ov. (ov_channel_id ov, ov_role_id ov)) rows)"
  shows "channel_wf (load_channel rows c)"
  using sorted_overrides_wf distinct_override_roles [OF assms, of "ch_id c" "\<lambda>_. True"]
  by (simp add: channel_wf_def load_channel_def)

lemma load_entry_wf:
  assumes "distinct (map rr_id roles)" "distinct (map ch_id chans)"
    and "distinct (map (\<lambda>ov. (ov_channel_id ov, ov_role_id ov)) rows)"
  shows "entry_wf (load_entry now pc sid owner roles chans rows)"
  using build_roles_sorted [OF assms(1)] load_channel_wf [OF assms(3)]
    key_sorted_sort [of cc_id "map (load_channel rows) chans"] assms(2)
  by (auto simp: entry_wf_def load_entry_def build_channels_loaded simp del: map_map)

lemma db_keys_overrides_for_server:
  "db_keys db \<Longrightarrow> pg_overrides_for_server db sid = Inr rows \<Longrightarrow>
   distinct (map (\<lambda>ov. (ov_channel_id ov, ov_role_id ov)) rows)"
  by (auto simp: db_keys_def pg_overrides_for_server_def pg_ask_def distinct_map_filter split: if_splits)

section \<open>The invariant\<close>

definition user_wf :: "user_cache_entry \<Rightarrow> bool" where
  "user_wf u \<longleftrightarrow> distinct (ue_server_ids u) \<and> distinct (ue_dm_channel_ids u) \<and> dm_wf (ue_member_roles u) \<and>
     dm_all distinct (ue_member_roles u)"

definition timers_wf :: "permission_cache \<Rightarrow> bool" where
  "timers_wf pc \<longleftrightarrow> dm_wf (pc_cleanup_timers pc) \<and> distinct (map ct_handle (pc_tasks pc)) \<and>
     (\<forall>t\<in>set (pc_tasks pc). ct_handle t < pc_next_handle pc \<and>
        dm_get (pc_cleanup_timers pc) (ct_user t) = Some (ct_handle t)) \<and>
     dm_all (\<lambda>h. h < pc_next_handle pc) (pc_cleanup_timers pc)"

definition data_wf :: "permission_cache \<Rightarrow> bool" where
  "data_wf pc \<longleftrightarrow> dm_wf (pc_channel_index pc) \<and> dm_wf (pc_servers pc) \<and> dm_wf (pc_users pc) \<and>
     dm_all entry_wf (pc_servers pc) \<and> dm_all user_wf (pc_users pc)"

definition cache_inv :: "permission_cache \<Rightarrow> bool" where
  "cache_inv pc \<longleftrightarrow> data_wf pc \<and> timers_wf pc"

lemma pc_new_inv [simp]: "cache_inv pc_new"
  by (simp add: cache_inv_def data_wf_def timers_wf_def pc_new_def)

lemma data_wf_server: "data_wf pc \<Longrightarrow> dm_get (pc_servers pc) s = Some srv \<Longrightarrow> entry_wf srv"
  by (auto simp: data_wf_def dest: dm_all_get)

lemma data_wf_user: "data_wf pc \<Longrightarrow> dm_get (pc_users pc) u = Some e \<Longrightarrow> user_wf e"
  by (auto simp: data_wf_def dest: dm_all_get)

lemma cache_inv_data: "cache_inv pc \<Longrightarrow> data_wf pc"
  by (simp add: cache_inv_def)

lemma data_wf_upd_servers:
  "data_wf pc \<Longrightarrow> (\<And>e. entry_wf e \<Longrightarrow> entry_wf (f e)) \<Longrightarrow>
   data_wf (pc\<lparr>pc_servers := dm_upd s f (pc_servers pc)\<rparr>)"
  by (auto simp: data_wf_def)

lemma data_wf_upd_users:
  "data_wf pc \<Longrightarrow> (\<And>u. user_wf u \<Longrightarrow> user_wf (f u)) \<Longrightarrow>
   data_wf (pc\<lparr>pc_users := dm_upd s f (pc_users pc)\<rparr>)"
  by (auto simp: data_wf_def)

lemma data_wf_index:
  "data_wf pc \<Longrightarrow> dm_wf m \<Longrightarrow> data_wf (pc\<lparr>pc_channel_index := m\<rparr>)"
  by (simp add: data_wf_def)

lemma timers_wf_cong:
  "pc_cleanup_timers pc' = pc_cleanup_timers pc \<Longrightarrow> pc_tasks pc' = pc_tasks pc \<Longrightarrow>
   pc_next_handle pc' = pc_next_handle pc \<Longrightarrow> timers_wf pc' = timers_wf pc"
  by (simp add: timers_wf_def)

section \<open>Cleanup timers\<close>

lemma abort_task_data [simp]:
  "pc_channel_index (abort_task h pc) = pc_channel_index pc"
  "pc_servers (abort_task h pc) = pc_servers pc" "pc_users (abort_task h pc) = pc_users pc"
  "pc_cleanup_timers (abort_task h pc) = pc_cleanup_timers pc"
  "pc_next_handle (abort_task h pc) = pc_next_handle pc"
  "pc_tasks (abort_task h pc) = filter (\<lambda>t. ct_handle t \<noteq> h) (pc_tasks pc)"
  by (simp_all add: abort_task_def)

lemma cancel_cleanup_data [simp]:
  "pc_channel_index (cancel_cleanup u pc) = pc_channel_index pc"
  "pc_servers (cancel_cleanup u pc) = pc_servers pc" "pc_users (cancel_cleanup u pc) = pc_users pc"
  "pc_next_handle (cancel_cleanup u pc) = pc_next_handle pc"
  by (simp_all add: cancel_cleanup_def split: option.splits)

lemma schedule_cleanup_data [simp]:
  "pc_channel_index (schedule_cleanup now u pc) = pc_channel_index pc"
  "pc_servers (schedule_cleanup now u pc) = pc_servers pc"
  "pc_users (schedule_cleanup now u pc) = pc_users pc"
  by (simp_all add: schedule_cleanup_def Let_def split: option.splits)

lemma abort_task_timers_wf: "timers_wf pc \<Longrightarrow> timers_wf (abort_task h pc)"
  by (auto simp: timers_wf_def distinct_map_filter)

lemma tasks_of_user:
  "timers_wf pc \<Longrightarrow> t \<in> set (pc_tasks pc) \<Longrightarrow> dm_get (pc_cleanup_timers pc) (ct_user t) = Some (ct_handle t)"
  by (simp add: timers_wf_def)

lemma cancel_cleanup_wf:
  assumes "timers_wf pc"
  shows "timers_wf (cancel_cleanup u pc) \<and> (\<forall>t\<in>set (pc_tasks (cancel_cleanup u pc)). ct_user t \<noteq> u)"
proof (cases "dm_get (pc_cleanup_timers pc) u")
  case None
  with assms show ?thesis by (auto simp: cancel_cleanup_def dest: tasks_of_user)
next
  case (Some h)
  have "ct_user t \<noteq> u" if "t \<in> set (pc_tasks pc)" "ct_handle t \<noteq> h" for t
    using tasks_of_user [OF assms that(1)] that(2) Some by auto
  with assms Some show ?thesis
    by (auto simp: cancel_cleanup_def timers_wf_def distinct_map_filter)
qed

lemma schedule_cleanup_wf:
  assumes "timers_wf pc"
  shows "timers_wf (schedule_cleanup now u pc)"
proof -
  have lt: "\<forall>t\<in>set (pc_tasks pc). ct_handle t < pc_next_handle pc" using assms by (simp add: timers_wf_def)
  show ?thesis
  proof (cases "dm_get (pc_cleanup_timers pc) u")
    case None
    have "ct_user t \<noteq> u" if "t \<in> set (pc_tasks pc)" for t
      using tasks_of_user [OF assms that] None by auto
    moreover have "dm_all (\<lambda>h. h < Suc (pc_next_handle pc)) (pc_cleanup_timers pc)"
      using assms by (auto simp: timers_wf_def dm_all_def)
    ultimately show ?thesis using assms None lt
      by (fastforce simp: schedule_cleanup_def timers_wf_def Let_def)
  next
    case (Some h)
    have h: "h < pc_next_handle pc" using assms Some by (auto simp: timers_wf_def dest: dm_all_get)
    have "ct_user t \<noteq> u" if "t \<in> set (pc_tasks pc)" "ct_handle t \<noteq> h" for t
      using tasks_of_user [OF assms that(1)] that(2) Some by auto
    moreover have "dm_all (\<lambda>h. h < Suc (pc_next_handle pc)) (pc_cleanup_timers pc)"
      using assms by (auto simp: timers_wf_def dm_all_def)
    ultimately show ?thesis using assms Some lt h
      by (fastforce simp: schedule_cleanup_def timers_wf_def Let_def distinct_map_filter)
  qed
qed

section \<open>Eviction\<close>

lemma evict_server_data_frame [simp]:
  "pc_users (evict_server_data s pc) = pc_users pc"
  "pc_cleanup_timers (evict_server_data s pc) = pc_cleanup_timers pc"
  "pc_tasks (evict_server_data s pc) = pc_tasks pc"
  "pc_next_handle (evict_server_data s pc) = pc_next_handle pc"
  by (simp_all add: evict_server_data_def split: option.splits)

lemma evict_server_data_servers:
  "dm_get (pc_servers (evict_server_data s pc)) s' = (if s' = s then None else dm_get (pc_servers pc) s')"
  by (auto simp: evict_server_data_def split: option.splits)

lemma evict_server_data_wf: "data_wf pc \<Longrightarrow> data_wf (evict_server_data s pc)"
  unfolding evict_server_data_def data_wf_def
  by (auto split: option.splits intro!: fold_inv [where P = dm_wf])

lemma decrement_server_ref_frame [simp]:
  "pc_users (decrement_server_ref s pc) = pc_users pc"
  "pc_cleanup_timers (decrement_server_ref s pc) = pc_cleanup_timers pc"
  "pc_tasks (decrement_server_ref s pc) = pc_tasks pc"
  "pc_next_handle (decrement_server_ref s pc) = pc_next_handle pc"
  by (simp_all add: decrement_server_ref_def Let_def split: option.splits)

lemma entry_wf_fields [simp]:
  "entry_wf (e\<lparr>se_ref_count := n\<rparr>) = entry_wf e"
  "entry_wf (e\<lparr>se_owner_id := i\<rparr>) = entry_wf e"
  "entry_wf (e\<lparr>se_last_accessed := i\<rparr>) = entry_wf e"
  by (simp_all add: entry_wf_def)

lemma decrement_server_ref_wf: "data_wf pc \<Longrightarrow> data_wf (decrement_server_ref s pc)"
  unfolding decrement_server_ref_def Let_def
  by (auto split: option.splits intro!: evict_server_data_wf data_wf_upd_servers)

lemma fold_frame: "(\<And>x s. P (f x s) = P s) \<Longrightarrow> P (fold f xs s) = P s"
  by (induction xs arbitrary: s) auto

text \<open>The loop of \<open>evict_user\<close> over the user's DM channels.\<close>

definition drop_dm :: "int \<Rightarrow> permission_cache \<Rightarrow> permission_cache" where
  "drop_dm d pc =
     (if list_ex (\<lambda>(_, u). d \<in> set (ue_dm_channel_ids u)) (pc_users pc) then pc
      else pc\<lparr>pc_channel_index := dm_del d (pc_channel_index pc)\<rparr>)"

lemma drop_dm_frame [simp]:
  "pc_users (drop_dm d pc) = pc_users pc" "pc_servers (drop_dm d pc) = pc_servers pc"
  "pc_cleanup_timers (drop_dm d pc) = pc_cleanup_timers pc" "pc_tasks (drop_dm d pc) = pc_tasks pc"
  "pc_next_handle (drop_dm d pc) = pc_next_handle pc"
  by (simp_all add: drop_dm_def)

lemma drop_dm_wf: "data_wf pc \<Longrightarrow> data_wf (drop_dm d pc)"
  by (auto simp: drop_dm_def intro!: data_wf_index) (simp add: data_wf_def dm_wf_del)

definition evict_present :: "int \<Rightarrow> user_cache_entry \<Rightarrow> permission_cache \<Rightarrow> permission_cache" where
  "evict_present uid user pc =
     fold drop_dm (ue_dm_channel_ids user)
       (fold decrement_server_ref (ue_server_ids user) (pc\<lparr>pc_users := dm_del uid (pc_users pc)\<rparr>))"

lemma evict_user_alt:
  "evict_user uid pc =
     (case dm_get (pc_users pc) uid of None \<Rightarrow> pc
      | Some user \<Rightarrow> (let pc = evict_present uid user pc
                      in pc\<lparr>pc_cleanup_timers := dm_del uid (pc_cleanup_timers pc)\<rparr>))"
proof -
  have "(\<lambda>dm_id pc. if list_ex (\<lambda>(_, u). dm_id \<in> set (ue_dm_channel_ids u)) (pc_users pc) then pc
           else pc\<lparr>pc_channel_index := dm_del dm_id (pc_channel_index pc)\<rparr>) = drop_dm"
    by (intro ext) (simp add: drop_dm_def)
  then show ?thesis by (simp only: evict_user_def evict_present_def Let_def)
qed

lemma evict_present_frame [simp]:
  "pc_users (evict_present uid user pc) = dm_del uid (pc_users pc)"
  "pc_cleanup_timers (evict_present uid user pc) = pc_cleanup_timers pc"
  "pc_tasks (evict_present uid user pc) = pc_tasks pc"
  "pc_next_handle (evict_present uid user pc) = pc_next_handle pc"
  unfolding evict_present_def
  by (simp_all add: fold_frame [where P = pc_users] fold_frame [where P = pc_cleanup_timers]
      fold_frame [where P = pc_tasks] fold_frame [where P = pc_next_handle])

lemma evict_user_frame [simp]:
  "pc_users (evict_user uid pc) = dm_del uid (pc_users pc)"
  "pc_tasks (evict_user uid pc) = pc_tasks pc"
  "pc_next_handle (evict_user uid pc) = pc_next_handle pc"
  by (auto simp: evict_user_alt Let_def dm_del_id split: option.splits)

lemma evict_user_data_wf:
  assumes "data_wf pc"
  shows "data_wf (evict_user uid pc)"
proof -
  have "data_wf (pc\<lparr>pc_users := dm_del uid (pc_users pc)\<rparr>)"
    using assms by (auto simp: data_wf_def)
  then have "data_wf (evict_present uid user pc)" for user
    unfolding evict_present_def by (intro fold_inv [where P = data_wf] drop_dm_wf decrement_server_ref_wf)
  then have "data_wf (evict_present uid user pc\<lparr>pc_cleanup_timers := tm\<rparr>)" for user tm
    by (simp add: data_wf_def)
  with assms show ?thesis by (simp add: evict_user_alt Let_def split: option.splits)
qed

lemma evict_user_timers_wf:
  "timers_wf pc \<Longrightarrow> \<forall>t\<in>set (pc_tasks pc). ct_user t \<noteq> uid \<Longrightarrow> timers_wf (evict_user uid pc)"
  by (auto simp: evict_user_alt timers_wf_def Let_def split: option.splits)

lemma cancel_cleanup_data_wf: "data_wf pc \<Longrightarrow> data_wf (cancel_cleanup u pc)"
  by (simp add: data_wf_def)

lemma run_cleanup_task_inv:
  assumes "cache_inv pc"
  shows "cache_inv (run_cleanup_task now h pc)"
proof (cases "List.find (\<lambda>t. ct_handle t = h) (pc_tasks pc)")
  case None
  with assms show ?thesis by (simp add: run_cleanup_task_def)
next
  case (Some t)
  then have t: "t \<in> set (pc_tasks pc)" "ct_handle t = h" by (auto simp: find_Some_iff)
  have d: "data_wf pc" and tw: "timers_wf pc" using assms by (auto simp: cache_inv_def)
  have "ct_user t' \<noteq> ct_user t" if "t' \<in> set (pc_tasks (abort_task h pc))" for t'
    using that tasks_of_user [OF tw t(1)] tasks_of_user [OF tw, of t'] t(2) by auto
  moreover have "data_wf (abort_task h pc)" using d by (simp add: data_wf_def)
  ultimately show ?thesis using Some assms
    by (simp add: run_cleanup_task_def cache_inv_def evict_user_data_wf evict_user_timers_wf
        abort_task_timers_wf)
qed

lemma idle_sweep_inv:
  assumes "cache_inv pc"
  shows "cache_inv (idle_sweep now pc)"
proof -
  have user: "cache_inv (evict_user u (cancel_cleanup u pc))" if "cache_inv pc" for u pc
    using that cancel_cleanup_wf [of pc u]
    by (simp add: cache_inv_def evict_user_data_wf cancel_cleanup_data_wf evict_user_timers_wf)
  have server: "cache_inv (evict_server_data s pc)" if "cache_inv pc" for s pc
    using that timers_wf_cong [of "evict_server_data s pc" pc]
    by (simp add: cache_inv_def evict_server_data_wf)
  show ?thesis unfolding idle_sweep_def Let_def
    by (intro fold_inv [where P = cache_inv] assms user server)
qed

section \<open>Updates\<close>

lemma cache_inv_same_timers:
  "cache_inv pc \<Longrightarrow> data_wf pc' \<Longrightarrow> pc_cleanup_timers pc' = pc_cleanup_timers pc \<Longrightarrow>
   pc_tasks pc' = pc_tasks pc \<Longrightarrow> pc_next_handle pc' = pc_next_handle pc \<Longrightarrow> cache_inv pc'"
  by (simp add: cache_inv_def timers_wf_def)

lemma collect_member_roles_wf:
  "dm_wf (collect_member_roles pairs) \<and> dm_all distinct (collect_member_roles pairs)"
  unfolding collect_member_roles_def
  by (rule fold_inv [where P = "\<lambda>m. dm_wf m \<and> dm_all distinct m"])
    (auto intro!: dm_all_upd dm_all_or_insert)

lemma populate_inv:
  assumes "cache_inv pc"
  shows "cache_inv (populate_from_identify now u data pc)"
proof -
  let ?pc = "cancel_cleanup u pc"
  have c: "cache_inv ?pc" using assms cancel_cleanup_wf [of pc u]
    by (simp add: cache_inv_def cancel_cleanup_data_wf)
  have i: "dm_wf (fold (\<lambda>dm_id m. dm_put dm_id 0 m) ds (fold (\<lambda>(c, s) m. dm_put c s m) es m))"
    if "dm_wf m" for ds es and m :: "(int, int) dmap"
    using that by (intro fold_inv [where P = dm_wf]) auto
  have s: "dm_wf (fold (\<lambda>x m. dm_upd (k x) (f x) m) xs m) \<and>
           dm_all entry_wf (fold (\<lambda>x m. dm_upd (k x) (f x) m) xs m)"
    if "dm_wf m" "dm_all entry_wf m" "\<And>x e. entry_wf e \<Longrightarrow> entry_wf (f x e)"
    for m :: "(int, server_cache_entry) dmap" and k :: "identify_server \<Rightarrow> int" and f xs
    using that by (intro fold_inv [where P = "\<lambda>m. dm_wf m \<and> dm_all entry_wf m"]) auto
  show ?thesis
    using c i [of "pc_channel_index pc"] s [of "pc_servers pc"]
    by (intro cache_inv_same_timers [OF c])
      (auto simp: populate_from_identify_def Let_def data_wf_def cache_inv_def user_wf_def
        collect_member_roles_wf intro!: dm_all_put)
qed

lemma add_channel_entry_wf:
  assumes "entry_wf srv" "bsearch cc_id (se_channels srv) c = Insert_at pos" "cc_id ch = c" "channel_wf ch"
  shows "entry_wf (srv\<lparr>se_channels := list_insert_at pos ch (se_channels srv)\<rparr>)"
  using assms key_sorted_insert_at [of cc_id "se_channels srv" ch pos] by (auto simp: entry_wf_def)

lemma set_list_remove_at: "set (list_remove_at p xs) \<subseteq> set xs"
  unfolding list_remove_at_def by (auto dest: in_set_takeD in_set_dropD)

lemma channel_wf_fresh [simp]: "channel_wf \<lparr>cc_id = i, cc_channel_type = ty, cc_overrides = []\<rparr>"
  by (simp add: channel_wf_def)

lemma add_channel_meta_wf: "data_wf pc \<Longrightarrow> data_wf (add_channel_meta c s ty pc)"
  unfolding add_channel_meta_def data_wf_def
  by (auto split: bsearch_result.splits intro!: dm_all_upd add_channel_entry_wf)

lemma remove_channel_entry_wf:
  "entry_wf srv \<Longrightarrow> entry_wf (srv\<lparr>se_channels := list_remove_at p (se_channels srv)\<rparr>)"
  using set_list_remove_at [of p "se_channels srv"] by (auto simp: entry_wf_def key_sorted_remove_at)

lemma remove_channel_meta_wf: "data_wf pc \<Longrightarrow> data_wf (remove_channel_meta c pc)"
  unfolding remove_channel_meta_def data_wf_def
  by (auto split: option.splits bsearch_result.splits intro!: dm_all_upd remove_channel_entry_wf)

lemma user_wf_upds:
  "user_wf u \<Longrightarrow> user_wf (u\<lparr>ue_last_active := now\<rparr>)"
  "user_wf u \<Longrightarrow> user_wf (u\<lparr>ue_dm_channel_ids := hs_insert c (ue_dm_channel_ids u)\<rparr>)"
  "user_wf u \<Longrightarrow> user_wf (u\<lparr>ue_member_roles := dm_del s (ue_member_roles u)\<rparr>)"
  "user_wf u \<Longrightarrow> distinct rs \<Longrightarrow> user_wf (u\<lparr>ue_member_roles := dm_put s rs (ue_member_roles u)\<rparr>)"
  "user_wf u \<Longrightarrow> user_wf (u\<lparr>ue_server_ids := hs_insert s (ue_server_ids u),
                           ue_member_roles := dm_or_insert s [] (ue_member_roles u)\<rparr>)"
  "user_wf u \<Longrightarrow> user_wf (u\<lparr>ue_server_ids := hs_remove s (ue_server_ids u),
                           ue_member_roles := dm_del s (ue_member_roles u)\<rparr>)"
  by (auto simp: user_wf_def)

lemma add_user_server_wf: "data_wf pc \<Longrightarrow> data_wf (add_user_server u s pc)"
  unfolding add_user_server_def data_wf_def by (auto intro!: dm_all_upd user_wf_upds)

lemma remove_user_server_wf: "data_wf pc \<Longrightarrow> data_wf (remove_user_server u s pc)"
  unfolding remove_user_server_def
  by (intro decrement_server_ref_wf data_wf_upd_users user_wf_upds)

lemma add_dm_channel_wf: "data_wf pc \<Longrightarrow> data_wf (add_dm_channel u c pc)"
  unfolding add_dm_channel_def data_wf_def by (auto intro!: dm_all_upd user_wf_upds)

lemma touch_user_wf: "data_wf pc \<Longrightarrow> data_wf (touch_user now u pc)"
  unfolding touch_user_def by (intro data_wf_upd_users user_wf_upds)

lemma handle_invalidation_event_wf: "data_wf pc \<Longrightarrow> data_wf (handle_invalidation_event ev pc)"
  unfolding handle_invalidation_event_def
  by (auto split: cache_invalidation_event.splits intro: evict_server_data_wf data_wf_upd_users user_wf_upds)

section \<open>Operations that read Postgres\<close>

lemma lazy_load_server_wf:
  assumes "db_keys db" "data_wf pc"
  shows "data_wf (snd (lazy_load_server db now s pc))"
proof -
  have "dm_wf (fold (\<lambda>ch m. dm_or_insert (cc_id ch) s m) chs (pc_channel_index pc))" for chs
    using assms(2) by (intro fold_inv [where P = dm_wf]) (auto simp: data_wf_def)
  with assms load_entry_wf [OF db_keys_roles [OF assms(1)] db_keys_channels [OF assms(1)]
      db_keys_overrides_for_server [OF assms(1)]] show ?thesis
    unfolding lazy_load_server_def
    by (auto split: option.splits sum.splits simp: data_wf_def Let_def)
qed

lemma lazy_load_server_frame [simp]:
  "pc_users (snd (lazy_load_server db now s pc)) = pc_users pc"
  "pc_cleanup_timers (snd (lazy_load_server db now s pc)) = pc_cleanup_timers pc"
  "pc_tasks (snd (lazy_load_server db now s pc)) = pc_tasks pc"
  "pc_next_handle (snd (lazy_load_server db now s pc)) = pc_next_handle pc"
  by (simp_all add: lazy_load_server_def Let_def split: option.splits sum.splits)

lemma ensure_server_loaded_snd:
  "snd (ensure_server_loaded db now s pc) = snd (lazy_load_server db now s pc)"
  by (auto simp: ensure_server_loaded_def lazy_load_server_def Let_def split: option.splits sum.splits prod.splits)

lemma check_server_permission_snd:
  "snd (check_server_permission db now u s p pc) = snd (lazy_load_server db now s pc)"
  by (auto simp: check_server_permission_def ensure_server_loaded_snd [symmetric]
      split: option.splits sum.splits prod.splits)

lemma resolve_server_permissions_snd:
  "snd (resolve_server_permissions db now u s pc) = snd (lazy_load_server db now s pc)"
  by (auto simp: resolve_server_permissions_def ensure_server_loaded_snd [symmetric]
      split: option.splits sum.splits prod.splits)

lemma check_channel_permission_snd:
  "snd (check_channel_permission db now u c s p pc) = snd (lazy_load_server db now s pc)"
  by (auto simp: check_channel_permission_def Let_def ensure_server_loaded_snd [symmetric]
      split: option.splits sum.splits prod.splits)

lemma check_hierarchy_snd:
  "snd (check_hierarchy db now a t s pc) = snd (lazy_load_server db now s pc)"
  by (auto simp: check_hierarchy_def Let_def ensure_server_loaded_snd [symmetric]
      split: option.splits sum.splits prod.splits)

lemma check_membership_wf: "data_wf pc \<Longrightarrow> data_wf (snd (check_membership db u s pc))"
  by (auto simp: check_membership_def add_user_server_wf split: sum.splits bool.splits)

lemma invalidate_user_roles_wf: "data_wf pc \<Longrightarrow> data_wf (invalidate_user_roles db u s pc)"
  unfolding invalidate_user_roles_def
  by (auto split: sum.splits intro!: data_wf_upd_users user_wf_upds)

lemma invalidate_server_roles_wf:
  assumes "db_keys db" "data_wf pc"
  shows "data_wf (invalidate_server_roles db s pc)"
  using assms build_roles_sorted [OF db_keys_roles [OF assms(1)]]
  unfolding invalidate_server_roles_def
  by (auto split: option.splits sum.splits intro!: data_wf_upd_servers) (auto simp: entry_wf_def)

lemma set_channel_overrides_wf:
  assumes "key_sorted co_role_id ovs" "entry_wf srv"
  shows "entry_wf (set_channel_overrides c ty ovs srv)"
proof (cases "bsearch cc_id (se_channels srv) c")
  case (Found i)
  then have i: "i < length (se_channels srv)" using bsearch_FoundD [OF Found] by simp
  then show ?thesis
    using assms Found key_sorted_update [of cc_id "se_channels srv" "(se_channels srv ! i)\<lparr>cc_overrides := ovs\<rparr>" i]
    by (auto simp: set_channel_overrides_def entry_wf_def channel_wf_def dest!: set_update_subset_insert [THEN subsetD])
next
  case (Insert_at p)
  with assms show ?thesis
    by (auto simp: set_channel_overrides_def channel_wf_def intro!: add_channel_entry_wf)
qed

lemma invalidate_channel_overrides_wf:
  assumes "db_keys db" "data_wf pc"
  shows "data_wf (invalidate_channel_overrides db c pc)"
  using assms sorted_overrides_wf [OF db_keys_overrides [OF assms(1)]]
  unfolding invalidate_channel_overrides_def
  by (auto split: option.splits sum.splits intro!: data_wf_upd_servers set_channel_overrides_wf)

section \<open>Runs\<close>

text \<open>
  Everything another part of the server can do to the cache: the public operations, the
  two background tasks (a due cleanup task, one idle sweep) and the events of the
  invalidation subscriber.
\<close>

datatype perm_op =
    Populate int int identify_cache_data
  | Lazy_Load pg_db int int
  | Check_Server pg_db int int int i64_bits
  | Resolve_Server pg_db int int int
  | Check_Channel pg_db int int int int i64_bits
  | Check_Membership pg_db int int
  | Check_Hierarchy pg_db int int int int
  | Schedule_Cleanup int int
  | Cancel_Cleanup int
  | Run_Task int nat
  | Idle_Sweep int
  | Inv_User_Roles pg_db int int
  | Inv_Server_Roles pg_db int
  | Inv_Overrides pg_db int
  | Add_Channel int int int
  | Remove_Channel int
  | Add_User_Server int int
  | Remove_User_Server int int
  | Add_Dm int int
  | Touch int int
  | Event cache_invalidation_event

fun perm_step :: "permission_cache \<Rightarrow> perm_op \<Rightarrow> permission_cache" where
  "perm_step pc (Populate now u d) = populate_from_identify now u d pc"
| "perm_step pc (Lazy_Load db now s) = snd (lazy_load_server db now s pc)"
| "perm_step pc (Check_Server db now u s p) = snd (check_server_permission db now u s p pc)"
| "perm_step pc (Resolve_Server db now u s) = snd (resolve_server_permissions db now u s pc)"
| "perm_step pc (Check_Channel db now u c s p) = snd (check_channel_permission db now u c s p pc)"
| "perm_step pc (Check_Membership db u s) = snd (check_membership db u s pc)"
| "perm_step pc (Check_Hierarchy db now a t s) = snd (check_hierarchy db now a t s pc)"
| "perm_step pc (Schedule_Cleanup now u) = schedule_cleanup now u pc"
| "perm_step pc (Cancel_Cleanup u) = cancel_cleanup u pc"
| "perm_step pc (Run_Task now h) = run_cleanup_task now h pc"
| "perm_step pc (Idle_Sweep now) = idle_sweep now pc"
| "perm_step pc (Inv_User_Roles db u s) = invalidate_user_roles db u s pc"
| "perm_step pc (Inv_Server_Roles db s) = invalidate_server_roles db s pc"
| "perm_step pc (Inv_Overrides db c) = invalidate_channel_overrides db c pc"
| "perm_step pc (Add_Channel c s ty) = add_channel_meta c s ty pc"
| "perm_step pc (Remove_Channel c) = remove_channel_meta c pc"
| "perm_step pc (Add_User_Server u s) = add_user_server u s pc"
| "perm_step pc (Remove_User_Server u s) = remove_user_server u s pc"
| "perm_step pc (Add_Dm u c) = add_dm_channel u c pc"
| "perm_step pc (Touch now u) = touch_user now u pc"
| "perm_step pc (Event ev) = handle_invalidation_event ev pc"

text \<open>The tables an operation reads respect the primary keys.\<close>

fun op_keys :: "perm_op \<Rightarrow> bool" where
  "op_keys (Lazy_Load db _ _) = db_keys db"
| "op_keys (Check_Server db _ _ _ _) = db_keys db"
| "op_keys (Resolve_Server db _ _ _) = db_keys db"
| "op_keys (Check_Channel db _ _ _ _ _) = db_keys db"
| "op_keys (Check_Hierarchy db _ _ _ _) = db_keys db"
| "op_keys (Inv_Server_Roles db _) = db_keys db"
| "op_keys (Inv_Overrides db _) = db_keys db"
| "op_keys _ = True"

lemma update_frames [simp]:
  "pc_cleanup_timers (add_channel_meta c s ty pc) = pc_cleanup_timers pc"
  "pc_tasks (add_channel_meta c s ty pc) = pc_tasks pc"
  "pc_next_handle (add_channel_meta c s ty pc) = pc_next_handle pc"
  "pc_cleanup_timers (remove_channel_meta c pc) = pc_cleanup_timers pc"
  "pc_tasks (remove_channel_meta c pc) = pc_tasks pc"
  "pc_next_handle (remove_channel_meta c pc) = pc_next_handle pc"
  "pc_cleanup_timers (add_user_server u s pc) = pc_cleanup_timers pc"
  "pc_tasks (add_user_server u s pc) = pc_tasks pc"
  "pc_next_handle (add_user_server u s pc) = pc_next_handle pc"
  "pc_cleanup_timers (remove_user_server u s pc) = pc_cleanup_timers pc"
  "pc_tasks (remove_user_server u s pc) = pc_tasks pc"
  "pc_next_handle (remove_user_server u s pc) = pc_next_handle pc"
  "pc_cleanup_timers (add_dm_channel u c pc) = pc_cleanup_timers pc"
  "pc_tasks (add_dm_channel u c pc) = pc_tasks pc"
  "pc_next_handle (add_dm_channel u c pc) = pc_next_handle pc"
  "pc_cleanup_timers (touch_user now u pc) = pc_cleanup_timers pc"
  "pc_tasks (touch_user now u pc) = pc_tasks pc"
  "pc_next_handle (touch_user now u pc) = pc_next_handle pc"
  by (simp_all add: add_channel_meta_def remove_channel_meta_def add_user_server_def
      remove_user_server_def add_dm_channel_def touch_user_def split: option.splits)

lemma invalidate_frames [simp]:
  "pc_cleanup_timers (handle_invalidation_event ev pc) = pc_cleanup_timers pc"
  "pc_tasks (handle_invalidation_event ev pc) = pc_tasks pc"
  "pc_next_handle (handle_invalidation_event ev pc) = pc_next_handle pc"
  "pc_cleanup_timers (invalidate_user_roles db u s pc) = pc_cleanup_timers pc"
  "pc_tasks (invalidate_user_roles db u s pc) = pc_tasks pc"
  "pc_next_handle (invalidate_user_roles db u s pc) = pc_next_handle pc"
  "pc_cleanup_timers (invalidate_server_roles db s pc) = pc_cleanup_timers pc"
  "pc_tasks (invalidate_server_roles db s pc) = pc_tasks pc"
  "pc_next_handle (invalidate_server_roles db s pc) = pc_next_handle pc"
  "pc_cleanup_timers (invalidate_channel_overrides db c pc) = pc_cleanup_timers pc"
  "pc_tasks (invalidate_channel_overrides db c pc) = pc_tasks pc"
  "pc_next_handle (invalidate_channel_overrides db c pc) = pc_next_handle pc"
  "pc_cleanup_timers (snd (check_membership db u s pc)) = pc_cleanup_timers pc"
  "pc_tasks (snd (check_membership db u s pc)) = pc_tasks pc"
  "pc_next_handle (snd (check_membership db u s pc)) = pc_next_handle pc"
  by (simp_all add: handle_invalidation_event_def invalidate_user_roles_def invalidate_server_roles_def
      invalidate_channel_overrides_def check_membership_def
      split: option.splits sum.splits cache_invalidation_event.splits bool.splits)

lemmas op_snd = check_server_permission_snd resolve_server_permissions_snd
  check_channel_permission_snd check_hierarchy_snd

lemmas op_wf = lazy_load_server_wf check_membership_wf invalidate_user_roles_wf
  invalidate_server_roles_wf invalidate_channel_overrides_wf add_channel_meta_wf
  remove_channel_meta_wf add_user_server_wf remove_user_server_wf add_dm_channel_wf
  touch_user_wf handle_invalidation_event_wf

lemma schedule_cleanup_inv: "cache_inv pc \<Longrightarrow> cache_inv (schedule_cleanup now u pc)"
  using schedule_cleanup_wf [of pc now u] by (simp add: cache_inv_def data_wf_def)

lemma cancel_cleanup_inv: "cache_inv pc \<Longrightarrow> cache_inv (cancel_cleanup u pc)"
  using cancel_cleanup_wf [of pc u] by (simp add: cache_inv_def data_wf_def)

lemma perm_step_inv: "cache_inv pc \<Longrightarrow> op_keys x \<Longrightarrow> cache_inv (perm_step pc x)"
proof (cases x)
qed (auto simp: op_snd op_wf populate_inv schedule_cleanup_inv cancel_cleanup_inv
      run_cleanup_task_inv idle_sweep_inv cache_inv_data
      intro: cache_inv_same_timers)

interpretation perm: invariant_machine perm_step cache_inv op_keys
  by unfold_locales (rule perm_step_inv)

end
