(* ===== verification/Perm_Props.thy ===== *)
theory Perm_Props
  imports Perm_Inv
begin

text \<open>
  The properties of the permission cache: what a computed mask contains, who may access a
  channel, how the cache and its Postgres fallbacks agree with the tables, what the
  cleanup timers and invalidation events guarantee.
\<close>

section \<open>The mask, over the sets of roles and overrides\<close>

definition spec_base :: "server_cache_entry \<Rightarrow> int set \<Rightarrow> nat \<Rightarrow> bool" where
  "spec_base srv R n \<longleftrightarrow>
     (\<exists>r\<in>set (se_roles srv). (cr_id r = se_everyone_role_id srv \<or> cr_id r \<in> R \<and> \<not> cr_color_only r) \<and>
        bit (cr_permissions r) n)"

definition spec_role_override ::
    "server_cache_entry \<Rightarrow> cached_channel \<Rightarrow> int set \<Rightarrow> (cached_override \<Rightarrow> i64_bits) \<Rightarrow> nat \<Rightarrow> bool" where
  "spec_role_override srv ch R f n \<longleftrightarrow>
     (\<exists>ov\<in>set (cc_overrides ch). co_role_id ov \<in> R \<and> bit (f ov) n \<and>
        (\<exists>r\<in>set (se_roles srv). cr_id r = co_role_id ov \<and> \<not> cr_color_only r))"

definition spec_everyone_override ::
    "server_cache_entry \<Rightarrow> cached_channel \<Rightarrow> (cached_override \<Rightarrow> i64_bits) \<Rightarrow> nat \<Rightarrow> bool" where
  "spec_everyone_override srv ch f n \<longleftrightarrow>
     (\<exists>ov\<in>set (cc_overrides ch). co_role_id ov = se_everyone_role_id srv \<and> bit (f ov) n)"

definition spec_channel :: "server_cache_entry \<Rightarrow> cached_channel \<Rightarrow> int set \<Rightarrow> nat \<Rightarrow> bool" where
  "spec_channel srv ch R n \<longleftrightarrow>
     spec_role_override srv ch R co_allow n \<or>
     (\<not> spec_role_override srv ch R co_deny n \<and>
      (spec_everyone_override srv ch co_allow n \<or>
       (spec_base srv R n \<and> \<not> spec_everyone_override srv ch co_deny n)))"

text \<open>Bit 10 of the base is \<open>ADMINISTRATOR\<close>.\<close>

definition spec_mask :: "server_cache_entry \<Rightarrow> int \<Rightarrow> int \<Rightarrow> int set \<Rightarrow> nat set" where
  "spec_mask srv user_id channel_id R =
     (if se_owner_id srv = user_id \<or> spec_base srv R 10 then {..<64}
      else if \<exists>ch\<in>set (se_channels srv). cc_id ch = channel_id
      then {n. \<exists>ch\<in>set (se_channels srv). cc_id ch = channel_id \<and> spec_channel srv ch R n}
      else {n. spec_base srv R n})"

lemma spec_base_iff: "entry_wf srv \<Longrightarrow> base_bit srv R n \<longleftrightarrow> spec_base srv R n"
  by (auto simp: base_bit_def everyone_bit_def grants_role_def spec_base_def find_role_iff)

lemma spec_override_iff:
  "entry_wf srv \<Longrightarrow> channel_wf ch \<Longrightarrow> override_bit srv ch R f n \<longleftrightarrow> spec_role_override srv ch R f n"
  by (auto simp: override_bit_def spec_role_override_def find_role_iff find_override_iff) metis

lemma spec_everyone_override_iff:
  "channel_wf ch \<Longrightarrow> everyone_override_bit srv ch f n \<longleftrightarrow> spec_everyone_override srv ch f n"
  by (auto simp: everyone_override_bit_def spec_everyone_override_def find_override_iff)

lemma spec_channel_iff:
  "entry_wf srv \<Longrightarrow> channel_wf ch \<Longrightarrow> channel_bit srv ch R n \<longleftrightarrow> spec_channel srv ch R n"
  by (auto simp: channel_bit_def spec_channel_def spec_override_iff spec_everyone_override_iff spec_base_iff)

lemma entry_channel_unique:
  "entry_wf srv \<Longrightarrow> c \<in> set (se_channels srv) \<Longrightarrow> d \<in> set (se_channels srv) \<Longrightarrow> cc_id c = cc_id d \<Longrightarrow> c = d"
  by (metis find_channel_iff option.inject)

lemma effective_bit_spec:
  assumes "entry_wf srv"
  shows "effective_bit srv u c (set ids) n \<longleftrightarrow> n \<in> spec_mask srv u c (set ids)"
proof (cases "find_channel srv c")
  case None
  then have "\<forall>ch\<in>set (se_channels srv). cc_id ch \<noteq> c" using find_channel_iff [OF assms] by (metis option.distinct(1))
  with None assms show ?thesis
    using base_bit_lt [of srv ids n]
    by (auto simp: effective_bit_def unrestricted_def spec_mask_def spec_base_iff)
next
  case (Some ch)
  then have ch: "ch \<in> set (se_channels srv)" "cc_id ch = c" "channel_wf ch"
    using find_channel_iff [OF assms] find_channel_wf [OF assms Some] by auto
  then have "(\<exists>d\<in>set (se_channels srv). cc_id d = c \<and> spec_channel srv d R n) = spec_channel srv ch R n" for R n
    using entry_channel_unique [OF assms] by metis
  with Some ch assms show ?thesis
    using channel_bit_lt [of srv ch ids n]
    by (auto simp: effective_bit_def unrestricted_def spec_mask_def spec_base_iff spec_channel_iff)
qed

lemma compute_permissions_mask:
  assumes "data_wf pc"
    and "dm_get (pc_channel_index pc) c = Some s" "s \<noteq> 0"
    and "dm_get (pc_servers pc) s = Some srv" "dm_get (pc_users pc) u = Some user"
  shows "\<exists>p. compute_permissions pc u c = Some p \<and>
           {n. bit p n} = spec_mask srv u c (set (user_roles_in user s))"
  using compute_permissions_bits [OF assms(2-5)]
    effective_bit_spec [OF data_wf_server [OF assms(1,4)]] by auto

abbreviation perm_run :: "perm_op list \<Rightarrow> permission_cache" where
  "perm_run xs \<equiv> run_ops perm_step pc_new xs"

abbreviation legal_run :: "perm_op list \<Rightarrow> bool" where
  "legal_run xs \<equiv> \<forall>x\<in>set xs. op_keys x"

lemma perm_run_inv: "legal_run xs \<Longrightarrow> cache_inv (perm_run xs)"
  by (rule perm.run_inv) simp_all

lemma run_data: "legal_run xs \<Longrightarrow> data_wf (perm_run xs)"
  by (simp add: perm_run_inv cache_inv_data)

section \<open>Example data\<close>

text \<open>A server (id 7, owner 1) with @everyone, a moderator role, a color role and two channels.\<close>

definition ex_role :: "int \<Rightarrow> i64_bits \<Rightarrow> int \<Rightarrow> bool \<Rightarrow> role_row" where
  "ex_role i p pos color = \<lparr>rr_id = i, rr_server_id = 7, rr_name = ''r'', rr_color = 0,
     rr_permissions = p, rr_position = pos, rr_color_only = color, rr_show_as_section = False,
     rr_color_priority = 0, rr_created_at_ms = 0\<rparr>"

definition ex_channel :: "int \<Rightarrow> channel_row" where
  "ex_channel i = \<lparr>ch_id = i, ch_type = 0, ch_server_id = Some 7, ch_name = None, ch_topic = None,
     ch_position = 0, ch_category_id = None, ch_read_only = False, ch_slowmode_seconds = 0,
     ch_created_at_ms = 0\<rparr>"

definition ex_db :: pg_db where
  "ex_db = \<lparr>db_servers = [\<lparr>sv_id = 7, sv_name = ''s'', sv_owner_id = 1, sv_welcome_channel_id = None, sv_welcome_message = None, sv_deleted_at = None\<rparr>],
     db_server_members = [(7, 1), (7, 2), (7, 3)],
     db_roles = [ex_role 20 4 2 False, ex_role 10 3 0 False, ex_role 30 64 1 True],
     db_member_roles = [\<lparr>mr_user_id = 2, mr_server_id = 7, mr_role_id = 20\<rparr>,
                        \<lparr>mr_user_id = 2, mr_server_id = 7, mr_role_id = 30\<rparr>],
     db_channels = [ex_channel 101, ex_channel 100],
     db_overrides = [\<lparr>ov_channel_id = 101, ov_role_id = 10, ov_allow_bits = 0, ov_deny_bits = 1\<rparr>,
                     \<lparr>ov_channel_id = 101, ov_role_id = 20, ov_allow_bits = 1, ov_deny_bits = 2\<rparr>],
     db_bot_roles = [], db_relationships = [], db_dm_members = [], db_fails = (\<lambda>_. False)\<rparr>"

definition ex_identify :: "(int \<times> int) list \<Rightarrow> identify_cache_data" where
  "ex_identify roles = \<lparr>id_server_ids = [7], id_servers = [\<lparr>is_id = 7, is_owner_id = 1\<rparr>],
     id_member_roles = roles, id_dm_channel_ids = [900], id_channel_index_entries = []\<rparr>"

definition ex_ops :: "perm_op list" where
  "ex_ops = [Lazy_Load ex_db 0 7, Populate 0 2 (ex_identify [(7, 20), (7, 30)]), Populate 0 3 (ex_identify [])]"

lemma ex_db_keys: "db_keys ex_db"
  by code_simp

lemma ex_legal: "legal_run ex_ops"
  by (simp add: ex_ops_def ex_db_keys)

definition ex_entry :: server_cache_entry where
  "ex_entry = \<lparr>se_owner_id = 1, se_everyone_role_id = 10,
     se_roles = [\<lparr>cr_id = 10, cr_permissions = 3, cr_position = 0, cr_color_only = False\<rparr>,
                 \<lparr>cr_id = 20, cr_permissions = 4, cr_position = 2, cr_color_only = False\<rparr>,
                 \<lparr>cr_id = 30, cr_permissions = 64, cr_position = 1, cr_color_only = True\<rparr>],
     se_channels = [\<lparr>cc_id = 100, cc_channel_type = 0, cc_overrides = []\<rparr>,
                    \<lparr>cc_id = 101, cc_channel_type = 0,
                      cc_overrides = [\<lparr>co_role_id = 10, co_allow = 0, co_deny = 1\<rparr>,
                                      \<lparr>co_role_id = 20, co_allow = 1, co_deny = 2\<rparr>]\<rparr>],
     se_ref_count = 3, se_last_accessed = 0\<rparr>"

definition ex_user :: "(int, int hset) dmap \<Rightarrow> user_cache_entry" where
  "ex_user roles = \<lparr>ue_server_ids = [7], ue_member_roles = roles, ue_dm_channel_ids = [900], ue_last_active = 0\<rparr>"

lemma ex_run:
  "dm_get (pc_channel_index (perm_run ex_ops)) 101 = Some 7"
  "dm_get (pc_channel_index (perm_run ex_ops)) 900 = Some 0"
  "dm_get (pc_servers (perm_run ex_ops)) 7 = Some ex_entry"
  "dm_get (pc_users (perm_run ex_ops)) 2 = Some (ex_user [(7, [20, 30])])"
  "dm_get (pc_users (perm_run ex_ops)) 3 = Some (ex_user [])"
  by code_simp+

section \<open>Properties of the mask\<close>

text \<open>
  C1. In every reachable cache, for a user and a server both cached, the computed channel
  mask is exactly the specified one: everything for the owner and for a member whose base
  has \<open>ADMINISTRATOR\<close>; otherwise, bit by bit, role allows over role denies over the
  \<open>@everyone\<close> override over the union of \<open>@everyone\<close> and the member's non-color roles.
\<close>
theorem compute_permissions_spec:
  assumes "legal_run xs" and "pc = perm_run xs"
    and "dm_get (pc_channel_index pc) c = Some s" "s \<noteq> 0"
    and "dm_get (pc_servers pc) s = Some srv" "dm_get (pc_users pc) u = Some user"
  shows "\<exists>p. compute_permissions pc u c = Some p \<and>
           {n. bit p n} = spec_mask srv u c (set (user_roles_in user s))"
  using compute_permissions_mask [OF _ assms(3-6)] run_data [OF assms(1)] assms(2) by blast

lemma compute_permissions_spec_witness:
  "\<exists>p. compute_permissions (perm_run ex_ops) 2 101 = Some p \<and>
       {n. bit p n} = spec_mask ex_entry 2 101 (set (user_roles_in (ex_user [(7, [20, 30])]) 7))"
  using compute_permissions_spec [OF ex_legal refl ex_run(1) _ ex_run(3,4)] by simp

section \<open>Channel access\<close>

text \<open>
  C15. Access to a channel that is indexed, for a user that is cached, in every reachable cache: a
  DM only for its participants, a server channel only for members. Where the server's data is
  loaded, a member also needs \<open>VIEW_CHANNEL\<close> or \<open>ADMINISTRATOR\<close> in the mask; where it is not, any
  member is let through and no permission is looked at.
\<close>
theorem verify_access_spec:
  assumes "legal_run xs" and "pc = perm_run xs"
    and "dm_get (pc_channel_index pc) c = Some s" "dm_get (pc_users pc) u = Some user"
  shows "verify_access pc u c =
     (if s = 0 then (if c \<in> set (ue_dm_channel_ids user) then Hit 0 else Denied NotMember)
      else if s \<notin> set (ue_server_ids user) then Denied NotMember
      else case dm_get (pc_servers pc) s of
             None \<Rightarrow> Hit s
           | Some srv \<Rightarrow>
               if spec_mask srv u c (set (user_roles_in user s)) \<inter> {0, 10} = {} then Denied MissingPermission
               else Hit s)"
proof (cases "s = 0 \<or> dm_get (pc_servers pc) s = None")
  case True
  with assms(3,4) show ?thesis by (auto simp: verify_access_def compute_permissions_def)
next
  case False
  then obtain srv where s: "s \<noteq> 0" and srv: "dm_get (pc_servers pc) s = Some srv" by auto
  obtain p where p: "compute_permissions pc u c = Some p"
    and m: "{n. bit p n} = spec_mask srv u c (set (user_roles_in user s))"
    using compute_permissions_mask [OF _ assms(3) s srv assms(4)] run_data [OF assms(1)] assms(2) by blast
  have "bits_has p VIEW_CHANNEL \<longleftrightarrow> {n. bit p n} \<inter> {0, 10} \<noteq> {}"
    by (auto simp: bits_has_VIEW)
  with assms(3,4) s srv p m show ?thesis by (simp add: verify_access_def)
qed

lemma verify_access_spec_witness:
  "verify_access (perm_run ex_ops) 3 101 = Denied MissingPermission \<and> verify_access (perm_run ex_ops) 3 900 = Hit 0"
proof -
  have "spec_mask ex_entry 3 101 {} \<inter> {0, 10} = {}"
    by (auto simp: spec_mask_def ex_entry_def spec_base_def spec_channel_def spec_role_override_def
        spec_everyone_override_def)
  then show ?thesis
    using verify_access_spec [OF ex_legal refl ex_run(1,5)] verify_access_spec [OF ex_legal refl ex_run(2,5)]
    by (simp add: ex_run ex_user_def user_roles_in_def)
qed

text \<open>
  The mask does not depend on the iteration order of the member's role set: replacing
  the set by one with the same elements changes no permission.
\<close>
lemma role_order_irrelevant:
  assumes "dm_get (pc_users pc) u = Some user" and "set rs = set rs'"
  shows "compute_permissions (pc\<lparr>pc_users := dm_put u (user\<lparr>ue_member_roles := dm_put s rs (ue_member_roles user)\<rparr>) (pc_users pc)\<rparr>) u c =
         compute_permissions (pc\<lparr>pc_users := dm_put u (user\<lparr>ue_member_roles := dm_put s rs' (ue_member_roles user)\<rparr>) (pc_users pc)\<rparr>) u c"
proof -
  have m: "merge_role_perms srv rs p = merge_role_perms srv rs' p" for srv p
    by (rule bits_determine [where P = "\<lambda>n. bit p n \<or> grants_role srv (set rs') n"])
      (simp_all add: bit_merge_role_perms assms(2))
  have o: "apply_channel_overrides srv ch rs p = apply_channel_overrides srv ch rs' p" for srv ch p
    by (intro bit_eqI) (simp add: bit_apply_channel_overrides assms(2))
  show ?thesis
    by (auto simp: compute_permissions_def user_roles_in_def Let_def m o split: option.splits)
qed

lemma role_order_irrelevant_witness:
  "compute_permissions ((perm_run ex_ops)\<lparr>pc_users := dm_put 2 (ex_user [(7, [20, 30])]\<lparr>ue_member_roles :=
       dm_put 7 [30, 20] (ue_member_roles (ex_user [(7, [20, 30])]))\<rparr>) (pc_users (perm_run ex_ops))\<rparr>) 2 101 = 
   compute_permissions ((perm_run ex_ops)\<lparr>pc_users := dm_put 2 (ex_user [(7, [20, 30])]\<lparr>ue_member_roles :=
       dm_put 7 [20, 30] (ue_member_roles (ex_user [(7, [20, 30])]))\<rparr>) (pc_users (perm_run ex_ops))\<rparr>) 2 101"
  by (rule role_order_irrelevant [OF ex_run(4)]) auto

section \<open>The invariant and the timers\<close>

text \<open>
  C17. Every sequence of cache operations, background tasks and invalidation events keeps
  the invariant: unique keys, sorted search vectors, and each pending cleanup task the one
  registered for its user.
\<close>
theorem cache_invariant:
  assumes "legal_run xs"
  shows "cache_inv (perm_run xs)"
  using assms by (rule perm_run_inv)

lemma cache_invariant_witness: "cache_inv (perm_run ex_ops)"
  by (rule cache_invariant [OF ex_legal])

definition safe_user :: "int \<Rightarrow> permission_cache \<Rightarrow> bool" where
  "safe_user u pc \<longleftrightarrow> cache_inv pc \<and> dm_get (pc_users pc) u \<noteq> None \<and> (\<forall>t\<in>set (pc_tasks pc). ct_user t \<noteq> u)"

definition keeps_user :: "int \<Rightarrow> perm_op \<Rightarrow> bool" where
  "keeps_user u x \<longleftrightarrow> op_keys x \<and> (case x of Schedule_Cleanup _ v \<Rightarrow> v \<noteq> u | Idle_Sweep _ \<Rightarrow> False | _ \<Rightarrow> True)"

lemma decrement_keeps_users: "pc_users (remove_user_server u s pc) = dm_upd u (\<lambda>v.
     v\<lparr>ue_server_ids := hs_remove s (ue_server_ids v), ue_member_roles := dm_del s (ue_member_roles v)\<rparr>) (pc_users pc)"
  by (simp add: remove_user_server_def)

lemma cancel_cleanup_tasks: "set (pc_tasks (cancel_cleanup u pc)) \<subseteq> set (pc_tasks pc)"
  by (auto simp: cancel_cleanup_def split: option.splits)

lemma schedule_cleanup_tasks:
  "t \<in> set (pc_tasks (schedule_cleanup now u pc)) \<Longrightarrow> t \<in> set (pc_tasks pc) \<or> ct_user t = u"
  by (auto simp: schedule_cleanup_def Let_def split: option.splits if_splits)

lemma update_users:
  "dm_get (pc_users (add_channel_meta c s ty pc)) u = dm_get (pc_users pc) u"
  "dm_get (pc_users (remove_channel_meta c pc)) u = dm_get (pc_users pc) u"
  "dm_get (pc_users (add_user_server v s pc)) u = None \<longleftrightarrow> dm_get (pc_users pc) u = None"
  "dm_get (pc_users (remove_user_server v s pc)) u = None \<longleftrightarrow> dm_get (pc_users pc) u = None"
  "dm_get (pc_users (add_dm_channel v c pc)) u = None \<longleftrightarrow> dm_get (pc_users pc) u = None"
  "dm_get (pc_users (touch_user now v pc)) u = None \<longleftrightarrow> dm_get (pc_users pc) u = None"
  "dm_get (pc_users (handle_invalidation_event ev pc)) u = None \<longleftrightarrow> dm_get (pc_users pc) u = None"
  "dm_get (pc_users (invalidate_user_roles db v s pc)) u = None \<longleftrightarrow> dm_get (pc_users pc) u = None"
  "dm_get (pc_users (invalidate_server_roles db s pc)) u = dm_get (pc_users pc) u"
  "dm_get (pc_users (invalidate_channel_overrides db c pc)) u = dm_get (pc_users pc) u"
  "dm_get (pc_users (snd (check_membership db v s pc))) u = None \<longleftrightarrow> dm_get (pc_users pc) u = None"
  "dm_get (pc_users (populate_from_identify now v d pc)) u = None \<longleftrightarrow> u \<noteq> v \<and> dm_get (pc_users pc) u = None"
  by (auto simp: add_channel_meta_def remove_channel_meta_def add_user_server_def decrement_keeps_users
      add_dm_channel_def touch_user_def handle_invalidation_event_def invalidate_user_roles_def Let_def
      invalidate_server_roles_def invalidate_channel_overrides_def check_membership_def populate_from_identify_def
      split: option.splits sum.splits bool.splits cache_invalidation_event.splits)

lemma populate_tasks: "pc_tasks (populate_from_identify now v d pc) = pc_tasks (cancel_cleanup v pc)"
  by (simp add: populate_from_identify_def Let_def)

lemma run_task_safe:
  assumes "safe_user u pc"
  shows "dm_get (pc_users (run_cleanup_task now h pc)) u \<noteq> None \<and>
         (\<forall>t\<in>set (pc_tasks (run_cleanup_task now h pc)). ct_user t \<noteq> u)"
proof (cases "List.find (\<lambda>t. ct_handle t = h) (pc_tasks pc)")
  case (Some t)
  then have "ct_user t \<noteq> u" using assms by (auto simp: safe_user_def find_Some_iff)
  with assms Some show ?thesis by (auto simp: run_cleanup_task_def safe_user_def)
qed (use assms in \<open>auto simp: run_cleanup_task_def safe_user_def\<close>)

lemma safe_user_step:
  assumes "safe_user u pc" "keeps_user u x"
  shows "safe_user u (perm_step pc x)"
proof -
  have inv: "cache_inv (perm_step pc x)" using assms by (auto simp: safe_user_def keeps_user_def intro: perm_step_inv)
  have "dm_get (pc_users (perm_step pc x)) u \<noteq> None \<and> (\<forall>t\<in>set (pc_tasks (perm_step pc x)). ct_user t \<noteq> u)"
    using assms run_task_safe [OF assms(1)] cancel_cleanup_tasks [THEN subsetD]
    by (cases x) (auto simp: safe_user_def keeps_user_def op_snd update_users populate_tasks
        dest!: schedule_cleanup_tasks)
  with inv show ?thesis by (simp add: safe_user_def)
qed

interpretation safe_user: invariant_machine perm_step "safe_user u" "keeps_user u" for u
  by unfold_locales (rule safe_user_step)

text \<open>
  A reconnect cancels a pending eviction for good: after IDENTIFY has populated a user,
  no sequence of operations evicts them, due cleanup tasks of earlier disconnects included,
  as long as nothing schedules a new cleanup for that user and no idle sweep runs.
\<close>
lemma reconnect_cancels_eviction:
  assumes "legal_run xs" and "\<forall>y\<in>set ys. keeps_user u y"
  shows "dm_get (pc_users (run_ops perm_step (perm_step (perm_run xs) (Populate now u d)) ys)) u \<noteq> None"
proof -
  let ?pc = "perm_run xs"
  have "safe_user u (populate_from_identify now u d ?pc)"
    using perm_run_inv [OF assms(1)] cancel_cleanup_wf [of ?pc u] populate_inv [of ?pc now u d]
    by (simp add: safe_user_def update_users populate_tasks cache_inv_def)
  from safe_user.run_inv [OF _ assms(2), of "populate_from_identify now u d ?pc"] this
  show ?thesis by (simp add: safe_user_def)
qed

lemma reconnect_cancels_eviction_witness:
  "dm_get (pc_users (run_ops perm_step (perm_step (perm_run (ex_ops @ [Schedule_Cleanup 5 2]))
     (Populate 30 2 (ex_identify []))) [Run_Task 65 0, Schedule_Cleanup 70 3, Run_Task 200 1])) 2 \<noteq> None"
  by (rule reconnect_cancels_eviction) (use ex_legal in \<open>auto simp: keeps_user_def\<close>)

text \<open>
  The grace period: once a cleanup is scheduled, the registered task does nothing before
  its 60 seconds are over and evicts the user as soon as it runs after them.
\<close>
lemma grace_period:
  assumes "legal_run xs" and "pc = perm_step (perm_run xs) (Schedule_Cleanup t u)"
  shows "\<exists>h. dm_get (pc_cleanup_timers pc) u = Some h \<and>
           (\<forall>now < t + CLEANUP_GRACE_SECS. perm_step pc (Run_Task now h) = pc) \<and>
           (\<forall>now \<ge> t + CLEANUP_GRACE_SECS. dm_get (pc_users (perm_step pc (Run_Task now h))) u = None)"
proof -
  let ?p = "perm_run xs" and ?h = "pc_next_handle (perm_run xs)"
  let ?t = "\<lparr>ct_handle = ?h, ct_user = u, ct_deadline = t + CLEANUP_GRACE_SECS\<rparr>"
  have tw: "timers_wf ?p" using perm_run_inv [OF assms(1)] by (simp add: cache_inv_def)
  then have lt: "dm_get (pc_cleanup_timers ?p) u = Some old \<Longrightarrow> old < ?h" for old
    by (auto simp: timers_wf_def dest: dm_all_get)
  have reg: "dm_get (pc_cleanup_timers pc) u = Some ?h"
    by (simp add: assms(2) schedule_cleanup_def Let_def split: option.splits)
  have task: "List.find (\<lambda>t. ct_handle t = ?h) (pc_tasks pc) = Some ?t"
    using lt by (auto simp: assms(2) schedule_cleanup_def Let_def split: option.splits)
  have "perm_step pc (Run_Task now ?h) = (if t + CLEANUP_GRACE_SECS \<le> now then evict_user u (abort_task ?h pc) else pc)" for now
    by (simp add: run_cleanup_task_def task)
  with reg show ?thesis by (intro exI [of _ ?h]) simp
qed

lemma grace_period_witness:
  "\<exists>h. dm_get (pc_cleanup_timers (perm_step (perm_run ex_ops) (Schedule_Cleanup 5 2))) 2 = Some h"
  using grace_period [OF ex_legal refl, of 5 2] by blast

end
