(* ===== verification/Perm_Refine.thy ===== *)
theory Perm_Refine
  imports Perm_Props
begin

text \<open>
  The permissions the Postgres tables define, and the refinement: what the cache computes
  after loading a server, and what the storage fallbacks compute for users that are not
  cached, is what the tables define.
\<close>

section \<open>Permissions over the tables\<close>

definition db_role_set :: "pg_db \<Rightarrow> int \<Rightarrow> int \<Rightarrow> int set" where
  "db_role_set db u s =
     {mr_role_id m |m. m \<in> set (db_member_roles db) \<and> mr_user_id m = u \<and> mr_server_id m = s}"

definition db_owner :: "pg_db \<Rightarrow> int \<Rightarrow> int \<Rightarrow> bool" where
  "db_owner db u s \<longleftrightarrow> (\<exists>sv. List.find (\<lambda>r. sv_id r = s) (db_servers db) = Some sv \<and> sv_owner_id sv = u)"

definition db_base :: "pg_db \<Rightarrow> int \<Rightarrow> int \<Rightarrow> nat \<Rightarrow> bool" where
  "db_base db u s n \<longleftrightarrow>
     (\<exists>r\<in>set (db_roles db). rr_server_id r = s \<and> \<not> rr_color_only r \<and>
        (rr_position r = 0 \<or> rr_id r \<in> db_role_set db u s) \<and> bit (rr_permissions r) n)"

definition db_role_override ::
    "pg_db \<Rightarrow> int \<Rightarrow> int \<Rightarrow> int \<Rightarrow> (override_row \<Rightarrow> i64_bits) \<Rightarrow> nat \<Rightarrow> bool" where
  "db_role_override db u s c f n \<longleftrightarrow>
     (\<exists>ov\<in>set (db_overrides db). ov_channel_id ov = c \<and> ov_role_id ov \<in> db_role_set db u s \<and> bit (f ov) n \<and>
        (\<exists>r\<in>set (db_roles db). rr_server_id r = s \<and> rr_id r = ov_role_id ov \<and> \<not> rr_color_only r))"

definition db_everyone_override ::
    "pg_db \<Rightarrow> int \<Rightarrow> int \<Rightarrow> (override_row \<Rightarrow> i64_bits) \<Rightarrow> nat \<Rightarrow> bool" where
  "db_everyone_override db s c f n \<longleftrightarrow>
     (\<exists>ov\<in>set (db_overrides db). ov_channel_id ov = c \<and> bit (f ov) n \<and>
        (\<exists>r\<in>set (db_roles db). rr_server_id r = s \<and> rr_id r = ov_role_id ov \<and> \<not> rr_color_only r \<and> rr_position r = 0))"

definition db_channel_bit :: "pg_db \<Rightarrow> int \<Rightarrow> int \<Rightarrow> int \<Rightarrow> nat \<Rightarrow> bool" where
  "db_channel_bit db u s c n \<longleftrightarrow>
     db_role_override db u s c ov_allow_bits n \<or>
     (\<not> db_role_override db u s c ov_deny_bits n \<and>
      (db_everyone_override db s c ov_allow_bits n \<or>
       (db_base db u s n \<and> \<not> db_everyone_override db s c ov_deny_bits n)))"

definition db_server_mask :: "pg_db \<Rightarrow> int \<Rightarrow> int \<Rightarrow> nat set" where
  "db_server_mask db u s = (if db_owner db u s \<or> db_base db u s 10 then {..<64} else {n. db_base db u s n})"

definition db_channel_mask :: "pg_db \<Rightarrow> int \<Rightarrow> int \<Rightarrow> int \<Rightarrow> nat set" where
  "db_channel_mask db u s c =
     (if db_owner db u s \<or> db_base db u s 10 then {..<64} else {n. db_channel_bit db u s c n})"

text \<open>Each server has one \<open>@everyone\<close> role: non-color, position 0.\<close>

definition one_everyone :: "pg_db \<Rightarrow> int \<Rightarrow> bool" where
  "one_everyone db s \<longleftrightarrow>
     length (filter (\<lambda>r. rr_server_id r = s \<and> \<not> rr_color_only r \<and> rr_position r = 0) (db_roles db)) = 1"

text \<open>The overrides of a channel refer to roles of its server.\<close>

definition overrides_local :: "pg_db \<Rightarrow> int \<Rightarrow> int \<Rightarrow> bool" where
  "overrides_local db s c \<longleftrightarrow>
     (\<forall>ov\<in>set (db_overrides db). ov_channel_id ov = c \<longrightarrow>
        (\<exists>r\<in>set (db_roles db). rr_id r = ov_role_id ov \<and> rr_server_id r = s))"

definition db_channel_in :: "pg_db \<Rightarrow> int \<Rightarrow> int \<Rightarrow> bool" where
  "db_channel_in db s c \<longleftrightarrow> (\<exists>ch\<in>set (db_channels db). ch_id ch = c \<and> ch_server_id ch = Some s)"

section \<open>The loaded entry\<close>

lemma one_everyone_obtain:
  assumes "one_everyone db s"
  obtains e where "e \<in> set (db_roles db)" "rr_server_id e = s" "\<not> rr_color_only e" "rr_position e = 0"
    "\<And>r. r \<in> set (db_roles db) \<Longrightarrow> rr_server_id r = s \<Longrightarrow> \<not> rr_color_only r \<Longrightarrow> rr_position r = 0 \<Longrightarrow> r = e"
proof -
  from assms obtain e where
    e: "filter (\<lambda>r. rr_server_id r = s \<and> \<not> rr_color_only r \<and> rr_position r = 0) (db_roles db) = [e]"
    by (auto simp: one_everyone_def length_Suc_conv)
  then have s: "{r \<in> set (db_roles db). rr_server_id r = s \<and> \<not> rr_color_only r \<and> rr_position r = 0} = {e}"
    by (metis list.set(1) list.simps(15) set_filter)
  show thesis by (rule that [of e]) (use s in blast)+
qed

lemma scan_everyone_found:
  assumes "\<And>r. r \<in> set rows \<Longrightarrow> \<not> rr_color_only r \<Longrightarrow> rr_position r = 0 \<Longrightarrow> rr_id r = e"
    and "start = e \<or> (\<exists>r\<in>set rows. \<not> rr_color_only r \<and> rr_position r = 0)"
  shows "scan_everyone start rows = e"
  using assms
proof (induction rows arbitrary: start)
  case (Cons r rows)
  have "scan_everyone (if \<not> rr_color_only r \<and> rr_position r = 0 then rr_id r else start) rows = e"
    using Cons.prems by (intro Cons.IH) auto
  then show ?case by (simp add: scan_everyone_def)
qed (simp add: scan_everyone_def)

lemma lazy_load_fresh:
  assumes "lazy_load_server db now s pc0 = (Inr True, pc)"
  obtains sv roles chans ovs where
    "dm_get (pc_servers pc) s = Some (load_entry now pc0 s (sv_owner_id sv) roles chans ovs)"
    "List.find (\<lambda>r. sv_id r = s) (db_servers db) = Some sv"
    "pg_roles_for_server db s = Inr roles" "pg_channels_for_server db s = Inr chans"
    "pg_overrides_for_server db s = Inr ovs" "pc_users pc = pc_users pc0"
    "dm_get (pc_servers pc0) s = None"
  using assms
  by (auto simp: lazy_load_server_def pg_server_by_id_def pg_ask_def Let_def
      split: option.splits sum.splits if_splits)

lemma cached_row_fields [simp]:
  "cr_permissions (to_cached_role r) = rr_permissions r" "cr_position (to_cached_role r) = rr_position r"
  "cr_color_only (to_cached_role r) = rr_color_only r"
  "co_allow (to_cached_override ov) = ov_allow_bits ov" "co_deny (to_cached_override ov) = ov_deny_bits ov"
  by (simp_all add: to_cached_role_def to_cached_override_def)

lemma db_role_unique:
  "db_keys db \<Longrightarrow> r \<in> set (db_roles db) \<Longrightarrow> q \<in> set (db_roles db) \<Longrightarrow> rr_id r = rr_id q \<Longrightarrow> r = q"
  by (auto simp: db_keys_def distinct_map dest: inj_onD)

lemma db_channel_unique:
  "db_keys db \<Longrightarrow> c \<in> set (db_channels db) \<Longrightarrow> d \<in> set (db_channels db) \<Longrightarrow> ch_id c = ch_id d \<Longrightarrow> c = d"
  by (auto simp: db_keys_def distinct_map dest: inj_onD)

lemma loaded_everyone:
  assumes "one_everyone db s" "pg_roles_for_server db s = Inr roles"
    and "e \<in> set (db_roles db)" "rr_server_id e = s" "\<not> rr_color_only e" "rr_position e = 0"
  shows "scan_everyone start roles = rr_id e"
proof -
  have roles: "set roles = {r \<in> set (db_roles db). rr_server_id r = s}"
    using pg_roles_for_server_set [OF assms(2)] .
  from one_everyone_obtain [OF assms(1)] obtain e' where e': "\<And>r. r \<in> set (db_roles db) \<Longrightarrow>
      rr_server_id r = s \<Longrightarrow> \<not> rr_color_only r \<Longrightarrow> rr_position r = 0 \<Longrightarrow> r = e'" by blast
  show ?thesis
    using e' [of e] e' roles assms(3-6) by (intro scan_everyone_found) auto
qed

lemma loaded_base:
  assumes k: "db_keys db" and o1: "one_everyone db s" and r: "pg_roles_for_server db s = Inr roles"
    and srv: "se_everyone_role_id srv = scan_everyone start roles" "se_roles srv = build_roles roles"
  shows "spec_base srv (db_role_set db u s) n \<longleftrightarrow> db_base db u s n"
proof -
  obtain e where e: "e \<in> set (db_roles db)" "rr_server_id e = s" "\<not> rr_color_only e" "rr_position e = 0"
    "\<And>r. r \<in> set (db_roles db) \<Longrightarrow> rr_server_id r = s \<Longrightarrow> \<not> rr_color_only r \<Longrightarrow> rr_position r = 0 \<Longrightarrow> r = e"
    using one_everyone_obtain [OF o1] by metis
  have id: "se_everyone_role_id srv = rr_id e" using loaded_everyone [OF o1 r e(1-4)] srv(1) by simp
  have "rr_id q = rr_id e \<longleftrightarrow> \<not> rr_color_only q \<and> rr_position q = 0"
    if "q \<in> set (db_roles db)" "rr_server_id q = s" for q
    using db_role_unique [OF k that(1) e(1)] e that by metis
  then show ?thesis
    unfolding spec_base_def db_base_def id srv(2) set_build_roles pg_roles_for_server_set [OF r]
    by auto
qed

lemma loaded_channel_overrides:
  assumes k: "db_keys db" and ov: "pg_overrides_for_server db s = Inr ovs" and c: "db_channel_in db s c"
  shows "{x \<in> set ovs. ov_channel_id x = c} = {x \<in> set (db_overrides db). ov_channel_id x = c}"
proof -
  have "set ovs = {x \<in> set (db_overrides db). \<exists>d\<in>set (db_channels db). ch_id d = ov_channel_id x \<and> ch_server_id d = Some s}"
    using ov by (auto simp: pg_overrides_for_server_def pg_ask_def split: if_splits)
  with c show ?thesis by (auto simp: db_channel_in_def)
qed

lemma loaded_channel_bit:
  assumes k: "db_keys db" and o1: "one_everyone db s" and r: "pg_roles_for_server db s = Inr roles"
    and srv: "se_everyone_role_id srv = scan_everyone start roles" "se_roles srv = build_roles roles"
    and ovs: "co_set = to_cached_override ` {x \<in> set (db_overrides db). ov_channel_id x = c}" "set (cc_overrides ch) = co_set"
  shows "spec_channel srv ch (db_role_set db u s) n \<longleftrightarrow> db_channel_bit db u s c n"
proof -
  obtain e where e: "e \<in> set (db_roles db)" "rr_server_id e = s" "\<not> rr_color_only e" "rr_position e = 0"
    "\<And>r. r \<in> set (db_roles db) \<Longrightarrow> rr_server_id r = s \<Longrightarrow> \<not> rr_color_only r \<Longrightarrow> rr_position r = 0 \<Longrightarrow> r = e"
    using one_everyone_obtain [OF o1] by metis
  have id: "se_everyone_role_id srv = rr_id e" using loaded_everyone [OF o1 r e(1-4)] srv(1) by simp
  have ro: "spec_role_override srv ch (db_role_set db u s) f n \<longleftrightarrow> db_role_override db u s c g n"
    if "\<And>x. f (to_cached_override x) = g x" for f g
    unfolding spec_role_override_def db_role_override_def ovs srv(2) set_build_roles
      pg_roles_for_server_set [OF r] using that by auto
  have eo: "spec_everyone_override srv ch f n \<longleftrightarrow> db_everyone_override db s c g n"
    if "\<And>x. f (to_cached_override x) = g x" for f g
    unfolding spec_everyone_override_def db_everyone_override_def ovs id using that e by fastforce
  show ?thesis
    unfolding spec_channel_def db_channel_bit_def
    using loaded_base [OF k o1 r srv, of u n] ro [of co_allow ov_allow_bits] ro [of co_deny ov_deny_bits]
      eo [of co_allow ov_allow_bits] eo [of co_deny ov_deny_bits]
    by simp
qed

lemma loaded_mask:
  assumes k: "db_keys db" and o1: "one_everyone db s" and r: "pg_roles_for_server db s = Inr roles"
    and ch: "pg_channels_for_server db s = Inr chans" and ov: "pg_overrides_for_server db s = Inr ovs"
    and sv: "List.find (\<lambda>r. sv_id r = s) (db_servers db) = Some sv" and c: "db_channel_in db s c"
  shows "spec_mask (load_entry now pc s (sv_owner_id sv) roles chans ovs) u c (db_role_set db u s) =
         db_channel_mask db u s c"
proof -
  let ?e = "load_entry now pc s (sv_owner_id sv) roles chans ovs"
  have f: "se_everyone_role_id ?e = scan_everyone 0 roles" "se_roles ?e = build_roles roles"
    "se_owner_id ?e = sv_owner_id sv"
    "se_channels ?e = sort_key cc_id (map (load_channel ovs) chans)"
    using build_channels_loaded [OF db_keys_channels [OF k ch]] by (simp_all add: load_entry_def)
  have ow: "db_owner db u s \<longleftrightarrow> sv_owner_id sv = u" using sv by (simp add: db_owner_def)
  obtain row where row: "row \<in> set chans" "ch_id row = c"
    using c pg_channels_for_server_set [OF ch] by (auto simp: db_channel_in_def)
  have bits: "spec_channel ?e d (db_role_set db u s) n \<longleftrightarrow> db_channel_bit db u s c n"
    if "d \<in> set (se_channels ?e)" "cc_id d = c" for d n
  proof (rule loaded_channel_bit [OF k o1 r f(1,2) refl])
    show "set (cc_overrides d) = to_cached_override ` {x \<in> set (db_overrides db). ov_channel_id x = c}"
      using that loaded_channel_overrides [OF k ov c] unfolding f(4) by (auto simp: load_channel_def)
  qed
  have "\<exists>d\<in>set (se_channels ?e). cc_id d = c" using row unfolding f(4) by force
  then show ?thesis
    unfolding spec_mask_def db_channel_mask_def f(3) ow loaded_base [OF k o1 r f(1,2)]
    using bits by auto
qed

lemma index_loaded:
  "dm_get (fold (\<lambda>ch m. dm_or_insert (cc_id ch) s m) chs m) c =
     (case dm_get m c of Some x \<Rightarrow> Some x | None \<Rightarrow> if c \<in> cc_id ` set chs then Some s else None)"
  by (induction chs arbitrary: m) (auto split: option.splits)

lemma lazy_load_index:
  assumes "db_keys db" "db_channel_in db s c" "lazy_load_server db now s pc0 = (Inr True, pc)"
    and "dm_get (pc_channel_index pc0) c \<in> {None, Some s}"
  shows "dm_get (pc_channel_index pc) c = Some s"
proof -
  obtain owner roles chans ovs where l: "pg_channels_for_server db s = Inr chans"
    and i: "pc_channel_index pc = fold (\<lambda>ch m. dm_or_insert (cc_id ch) s m)
        (se_channels (load_entry now pc0 s owner roles chans ovs)) (pc_channel_index pc0)"
  proof (rule that)
    show "pg_channels_for_server db s = Inr (projr (pg_channels_for_server db s))"
      using assms(3) by (auto simp: lazy_load_server_def Let_def split: option.splits sum.splits)
    show "pc_channel_index pc = fold (\<lambda>ch m. dm_or_insert (cc_id ch) s m)
        (se_channels (load_entry now pc0 s (sv_owner_id (the (projr (pg_server_by_id db s))))
           (projr (pg_roles_for_server db s)) (projr (pg_channels_for_server db s))
           (projr (pg_overrides_for_server db s)))) (pc_channel_index pc0)"
      using assms(3) by (auto simp: lazy_load_server_def Let_def split: option.splits sum.splits)
  qed
  have "c \<in> cc_id ` set (se_channels (load_entry now pc0 s owner roles chans ovs))"
    using assms(2) pg_channels_for_server_set [OF l] build_channels_loaded [OF db_keys_channels [OF assms(1) l]]
    by (force simp: load_entry_def db_channel_in_def)
  with assms(4) show ?thesis unfolding i index_loaded by auto
qed


definition ex_warm :: permission_cache where
  "ex_warm = populate_from_identify 0 2 (ex_identify [(7, 20), (7, 30)]) pc_new"

lemma ex_warm_load: "lazy_load_server ex_db 0 7 ex_warm = (Inr True, snd (lazy_load_server ex_db 0 7 ex_warm))"
  by (rule prod_eqI) (simp_all, code_simp)

lemma db_role_set_list:
  "db_role_set db u s =
     set (map mr_role_id (filter (\<lambda>m. mr_user_id m = u \<and> mr_server_id m = s) (db_member_roles db)))"
  by (auto simp: db_role_set_def)

lemma ex_role_set: "db_role_set ex_db 2 7 = {20, 30}"
  by (simp add: db_role_set_list ex_db_def)


section \<open>The storage fallbacks\<close>

lemma fold_override_bits:
  "(bit (fst (fold (\<lambda>ov (a, d). if P ov then (a OR co_allow ov, d OR co_deny ov) else (a, d)) ovs (a0, d0))) n
      \<longleftrightarrow> bit a0 n \<or> (\<exists>ov\<in>set ovs. P ov \<and> bit (co_allow ov) n)) \<and>
   (bit (snd (fold (\<lambda>ov (a, d). if P ov then (a OR co_allow ov, d OR co_deny ov) else (a, d)) ovs (a0, d0))) n
      \<longleftrightarrow> bit d0 n \<or> (\<exists>ov\<in>set ovs. P ov \<and> bit (co_deny ov) n))"
  by (induction ovs arbitrary: a0 d0) (auto simp: bit_or_iff)

lemma find_by_distinct:
  "distinct (map f xs) \<Longrightarrow> List.find (\<lambda>x. f x = k) xs = Some x \<longleftrightarrow> x \<in> set xs \<and> f x = k"
  by (induction xs) auto

lemma find_by_none: "List.find (\<lambda>x. f x = k) xs = None \<longleftrightarrow> (\<forall>x\<in>set xs. f x \<noteq> k)"
  by (auto simp: find_None_iff)

lemma storage_apply_bits:
  assumes srv: "dm_get (pc_servers pc) s = Some srv" and wf: "entry_wf srv"
    and d: "distinct (map co_role_id ovs)" and ch: "set (cc_overrides ch) = set ovs"
    and loc: "\<forall>ov\<in>set ovs. \<exists>r\<in>set (se_roles srv). cr_id r = co_role_id ov"
  shows "bit (storage_apply_overrides pc s rids ovs p) n \<longleftrightarrow>
     spec_role_override srv ch (set rids) co_allow n \<or>
     (\<not> spec_role_override srv ch (set rids) co_deny n \<and>
      (spec_everyone_override srv ch co_allow n \<or> (bit p n \<and> \<not> spec_everyone_override srv ch co_deny n)))"
proof -
  let ?P = "\<lambda>ov. (case find_role srv (co_role_id ov) of None \<Rightarrow> True | Some role \<Rightarrow> \<not> cr_color_only role) \<and>
      co_role_id ov \<in> set rids"
  let ?f = "fold (\<lambda>ov (a, d). if ?P ov then (a OR co_allow ov, d OR co_deny ov) else (a, d)) ovs (0, 0)"
  let ?e = "List.find (\<lambda>ov. co_role_id ov = se_everyone_role_id srv) ovs"
  have P: "?P ov \<longleftrightarrow> co_role_id ov \<in> set rids \<and> (\<exists>r\<in>set (se_roles srv). cr_id r = co_role_id ov \<and> \<not> cr_color_only r)"
    if "ov \<in> set ovs" for ov
  proof -
    obtain r where r: "r \<in> set (se_roles srv)" "cr_id r = co_role_id ov" using loc \<open>ov \<in> set ovs\<close> by blast
    then have "find_role srv (co_role_id ov) = Some r" using find_role_iff [OF wf] by simp
    then show ?thesis using r find_role_iff [OF wf] by (metis option.inject option.simps(5))
  qed
  have ro: "(\<exists>ov\<in>set ovs. ?P ov \<and> bit (f ov) n) \<longleftrightarrow> spec_role_override srv ch (set rids) f n" for f
    using P unfolding spec_role_override_def ch by blast
  have eo: "(\<exists>ov. ?e = Some ov \<and> bit (f ov) n) \<longleftrightarrow> spec_everyone_override srv ch f n" for f
    using find_by_distinct [OF d, of "se_everyone_role_id srv"] unfolding spec_everyone_override_def ch by blast
  have "storage_apply_overrides pc s rids ovs p =
      apply_override (case ?e of None \<Rightarrow> p | Some ov \<Rightarrow> apply_override p (co_allow ov) (co_deny ov)) (fst ?f) (snd ?f)"
    using srv by (simp add: storage_apply_overrides_def Let_def case_prod_beta cong: if_cong)
  then show ?thesis
    using fold_override_bits [of ?P ovs 0 0 n] ro [of co_allow] ro [of co_deny] eo [of co_allow] eo [of co_deny]
    by (cases ?e) (auto simp: bit_apply_override)
qed

lemma storage_base_bits:
  assumes "dm_get (pc_servers pc) s = Some srv"
  shows "storage_base_perms pc s rids = merge_role_perms srv rids (everyone_perms srv)"
  using assms by (auto simp: storage_base_perms_def get_server_everyone_perms_def everyone_perms_def split: option.splits)

definition db_up :: "pg_db \<Rightarrow> bool" where
  "db_up db \<longleftrightarrow> (\<forall>q. \<not> db_fails db q)"

lemma pg_up:
  assumes "db_up db"
  shows "pg_server_by_id db s = Inr (List.find (\<lambda>r. sv_id r = s) (db_servers db))"
    "\<exists>rs. pg_roles_for_server db s = Inr rs" "\<exists>cs. pg_channels_for_server db s = Inr cs"
    "\<exists>ovs. pg_overrides_for_server db s = Inr ovs"
    "user_role_ids_for_server db u s = Inr (hs_of_list (map mr_role_id
       (filter (\<lambda>m. mr_user_id m = u \<and> mr_server_id m = s) (db_member_roles db))))"
    "pg_overrides db c = Inr (filter (\<lambda>r. ov_channel_id r = c) (db_overrides db))"
  using assms
  by (simp_all add: db_up_def pg_server_by_id_def pg_roles_for_server_def pg_channels_for_server_def
      pg_overrides_for_server_def user_role_ids_for_server_def pg_role_ids_def pg_overrides_def pg_ask_def)

lemma ensure_cold:
  assumes "db_up db" "List.find (\<lambda>r. sv_id r = s) (db_servers db) = Some sv" "dm_get (pc_servers pc0) s = None"
  obtains pc where "lazy_load_server db now s pc0 = (Inr True, pc)" "ensure_server_loaded db now s pc0 = (Inr (), pc)"
  using assms pg_up [OF assms(1), of s]
  by (auto simp: ensure_server_loaded_def lazy_load_server_def Let_def)

lemma subset_has: "{n. bit q n} \<subseteq> {n. bit (p :: i64_bits) n} \<longleftrightarrow> (\<forall>n. bit q n \<longrightarrow> bit p n)"
  by auto

lemma bit_lt_64: "bit (p :: i64_bits) n \<Longrightarrow> n < 64"
  using bit_imp_le_length [of p n] by simp

definition granted :: "nat set \<Rightarrow> i64_bits \<Rightarrow> bool" where
  "granted M perm \<longleftrightarrow> 10 \<in> M \<or> {n. bit perm n} \<subseteq> M"

lemma granted_mask: "{n. bit p n} = M \<Longrightarrow> bits_has p perm \<longleftrightarrow> granted M perm"
  by (auto simp: bits_has_iff granted_def)

lemma granted_all [simp]: "granted {..<64} perm"
  by (simp add: granted_def)

lemma storage_channel_mask:
  assumes k: "db_keys db" and o1: "one_everyone db s" and up: "db_up db" and loc: "overrides_local db s c"
    and srv: "dm_get (pc_servers pc) s = Some srv" "entry_wf srv"
    and r: "pg_roles_for_server db s = Inr roles"
    and f: "se_everyone_role_id srv = scan_everyone start roles" "se_roles srv = build_roles roles"
    and rids: "set rids = db_role_set db u s" and rows: "pg_overrides db c = Inr rows"
  shows "bit (storage_apply_overrides pc s rids (map to_cached_override rows)
           (storage_base_perms pc s rids)) n \<longleftrightarrow> db_channel_bit db u s c n"
proof -
  let ?ch = "\<lparr>cc_id = c, cc_channel_type = 0, cc_overrides = map to_cached_override rows\<rparr>"
  have rs: "rows = filter (\<lambda>r. ov_channel_id r = c) (db_overrides db)"
    using rows pg_up(6) [OF up, of c] by simp
  have ex: "\<forall>ov\<in>set (map to_cached_override rows). \<exists>r\<in>set (se_roles srv). cr_id r = co_role_id ov"
    using loc unfolding f(2) set_build_roles pg_roles_for_server_set [OF r] rs
    by (fastforce simp: overrides_local_def)
  have d: "distinct (map co_role_id (map to_cached_override rows))"
    using db_keys_overrides [OF k rows] by (simp only: cached_ids)
  have base: "bit (storage_base_perms pc s rids) n \<longleftrightarrow> spec_base srv (set rids) n"
    by (simp add: storage_base_bits [OF srv(1)] bit_base spec_base_iff [OF srv(2)])
  have "spec_channel srv ?ch (set rids) n \<longleftrightarrow> db_channel_bit db u s c n"
    unfolding rids by (rule loaded_channel_bit [OF k o1 r f refl]) (auto simp: rs)
  moreover have "set (cc_overrides ?ch) = set (map to_cached_override rows)" by simp
  ultimately show ?thesis
    unfolding storage_apply_bits [OF srv d \<open>set (cc_overrides ?ch) = _\<close> ex] base spec_channel_def by simp
qed

lemma loaded_entry_of:
  assumes k: "db_keys db" and o1: "one_everyone db s" and up: "db_up db" and wf: "data_wf pc0"
    and l: "lazy_load_server db now s pc0 = (Inr True, pc)"
  obtains srv roles where "dm_get (pc_servers pc) s = Some srv" "entry_wf srv"
    "se_everyone_role_id srv = scan_everyone 0 roles" "se_roles srv = build_roles roles"
    "pg_roles_for_server db s = Inr roles" "se_owner_id srv = u \<longleftrightarrow> db_owner db u s"
    "\<And>c. db_channel_in db s c \<Longrightarrow> spec_mask srv u c (db_role_set db u s) = db_channel_mask db u s c"
proof -
  obtain sv roles chans ovs where x:
    "dm_get (pc_servers pc) s = Some (load_entry now pc0 s (sv_owner_id sv) roles chans ovs)"
    "List.find (\<lambda>r. sv_id r = s) (db_servers db) = Some sv"
    "pg_roles_for_server db s = Inr roles" "pg_channels_for_server db s = Inr chans"
    "pg_overrides_for_server db s = Inr ovs"
    by (rule lazy_load_fresh [OF l])
  have "data_wf pc" using lazy_load_server_wf [OF k wf, of now s] l by simp
  then have "entry_wf (load_entry now pc0 s (sv_owner_id sv) roles chans ovs)"
    using x(1) data_wf_server by blast
  then show thesis
    by (rule that [OF x(1)])
      (use x loaded_mask [OF k o1 x(3,4,5,2)] in \<open>simp_all add: load_entry_def db_owner_def\<close>)
qed

text \<open>
  C27. The storage fallback of the channel check is exact: with Postgres up, a cold server and a
  user that is not cached, the check of any permission in a channel of the server answers by
  the tables' mask.
\<close>
theorem channel_fallback_exact:
  assumes "db_keys db" "one_everyone db s" "db_up db" "overrides_local db s c" "db_channel_in db s c"
    and "s \<noteq> 0" "data_wf pc0" "dm_get (pc_servers pc0) s = None" "dm_get (pc_users pc0) u = None"
    and "dm_get (pc_channel_index pc0) c \<in> {None, Some s}"
    and "List.find (\<lambda>r. sv_id r = s) (db_servers db) = Some sv"
  shows "fst (check_channel_permission db now u c s perm pc0) =
           (if granted (db_channel_mask db u s c) perm then Inr () else Inl MissingPermission)"
proof -
  obtain pc where l: "lazy_load_server db now s pc0 = (Inr True, pc)"
    and e: "ensure_server_loaded db now s pc0 = (Inr (), pc)"
    by (rule ensure_cold [OF assms(3,11,8)])
  obtain srv roles where x: "dm_get (pc_servers pc) s = Some srv" "entry_wf srv"
    "se_everyone_role_id srv = scan_everyone 0 roles" "se_roles srv = build_roles roles"
    "pg_roles_for_server db s = Inr roles" "se_owner_id srv = u \<longleftrightarrow> db_owner db u s"
    by (rule loaded_entry_of [OF assms(1,2,3,7) l, of u])
  have i: "dm_get (pc_channel_index pc) c = Some s" by (rule lazy_load_index [OF assms(1,5) l assms(10)])
  have u: "dm_get (pc_users pc) u = None"
    using assms(9) lazy_load_server_frame(1) [of db now s pc0] l by simp
  show ?thesis
  proof (cases "db_owner db u s")
    case True
    then show ?thesis using x e i assms(6)
      by (simp add: check_channel_permission_def has_channel_permission_def compute_permissions_def db_channel_mask_def)
  next
    case False
    let ?rids = "hs_of_list (map mr_role_id
       (filter (\<lambda>m. mr_user_id m = u \<and> mr_server_id m = s) (db_member_roles db)))"
    let ?rows = "filter (\<lambda>r. ov_channel_id r = c) (db_overrides db)"
    let ?p = "storage_base_perms pc s ?rids"
    let ?q = "storage_apply_overrides pc s ?rids (map to_cached_override ?rows) ?p"
    have rids: "set ?rids = db_role_set db u s" by (simp add: db_role_set_list)
    have none: "has_channel_permission pc u c perm = None"
      using i u x False assms(6) by (simp add: has_channel_permission_def compute_permissions_def)
    have p10: "bit ?p 10 \<longleftrightarrow> db_base db u s 10"
      using loaded_base [OF assms(1,2) x(5,3,4), of u 10] rids
      by (simp add: storage_base_bits [OF x(1)] bit_base spec_base_iff [OF x(2)])
    have q: "{n. bit ?q n} = {n. db_channel_bit db u s c n}"
      using storage_channel_mask [OF assms(1,2,3,4) x(1,2,5,3,4) rids pg_up(6) [OF assms(3)]] by simp
    have "fst (check_channel_permission db now u c s perm pc0) =
        (if bit ?p 10 then Inr () else if bits_has ?q perm then Inr () else Inl MissingPermission)"
      using e none pg_up(5,6) [OF assms(3)]
      by (simp add: check_channel_permission_def Let_def ADMINISTRATOR_bit)
    then show ?thesis using granted_mask [OF q, of perm] p10 False by (simp add: db_channel_mask_def)
  qed
qed

lemma channel_fallback_exact_witness:
  "fst (check_channel_permission ex_db 0 2 101 7 SEND_MESSAGES pc_new) =
     (if granted (db_channel_mask ex_db 2 7 101) SEND_MESSAGES then Inr () else Inl MissingPermission)"
proof (rule channel_fallback_exact [OF ex_db_keys])
  show "one_everyone ex_db 7" "db_channel_in ex_db 7 101" "(7::int) \<noteq> 0" "overrides_local ex_db 7 101"
    by code_simp+
  show "db_up ex_db" by (simp add: db_up_def ex_db_def)
  show "data_wf pc_new" using pc_new_inv by (simp add: cache_inv_data)
  show "List.find (\<lambda>r. sv_id r = 7) (db_servers ex_db) = Some \<lparr>sv_id = 7, sv_name = ''s'', sv_owner_id = 1, sv_welcome_channel_id = None, sv_welcome_message = None, sv_deleted_at = None\<rparr>"
    by (simp add: ex_db_def)
qed (simp_all add: pc_new_def)

section \<open>Invalidation\<close>

definition spec_server_mask :: "server_cache_entry \<Rightarrow> int \<Rightarrow> int set \<Rightarrow> nat set" where
  "spec_server_mask srv u R =
     (if se_owner_id srv = u \<or> spec_base srv R 10 then {..<64} else {n. spec_base srv R n})"

lemma compute_server_mask:
  assumes "data_wf pc" "dm_get (pc_servers pc) s = Some srv" "dm_get (pc_users pc) u = Some user"
  shows "\<exists>p. compute_server_permissions pc u s = Some p \<and>
           {n. bit p n} = spec_server_mask srv u (set (user_roles_in user s))"
proof -
  have wf: "entry_wf srv" using data_wf_server [OF assms(1,2)] .
  show ?thesis
    using compute_server_permissions_bits [OF assms(2,3)] base_bit_lt [of srv "user_roles_in user s"]
    by (auto simp: server_bit_def unrestricted_def spec_server_mask_def spec_base_iff [OF wf])
qed

lemma resolve_fold_bits:
  "bit (fold (\<lambda>role perms. if rr_color_only role then perms
             else if rr_position role = 0 \<or> rr_id role \<in> R then perms OR rr_permissions role else perms) rows p) n
   \<longleftrightarrow> bit p n \<or> (\<exists>r\<in>set rows. \<not> rr_color_only r \<and> (rr_position r = 0 \<or> rr_id r \<in> R) \<and> bit (rr_permissions r) n)"
  by (induction rows arbitrary: p) (auto simp: bit_or_iff)

lemma resolve_perms_mask:
  assumes "db_up db" "List.find (\<lambda>r. sv_id r = s) (db_servers db) = Some sv"
  shows "\<exists>p. resolve_perms_from_vdb db u s = Inr p \<and> (bit p 10 \<or> {n. bit p n} = db_server_mask db u s) \<and>
           (bit p 10 \<longrightarrow> db_server_mask db u s = {..<64})"
proof -
  obtain roles where r: "pg_roles_for_server db s = Inr roles" using pg_up(2) [OF assms(1)] by blast
  show ?thesis
  proof (cases "sv_owner_id sv = u")
    case True
    with assms show ?thesis
      by (simp add: resolve_perms_from_vdb_def pg_up db_server_mask_def db_owner_def)
  next
    case False
    then have ow: "\<not> db_owner db u s" using assms(2) by (simp add: db_owner_def)
    let ?R = "hs_of_list (map mr_role_id (filter (\<lambda>m. mr_user_id m = u \<and> mr_server_id m = s) (db_member_roles db)))"
    let ?p = "fold (\<lambda>role perms. if rr_color_only role then perms
             else if rr_position role = 0 \<or> rr_id role \<in> set ?R then perms OR rr_permissions role else perms) roles 0"
    have b: "bit ?p n \<longleftrightarrow> db_base db u s n" for n
      unfolding resolve_fold_bits pg_roles_for_server_set [OF r] db_base_def db_role_set_list by auto
    have "resolve_perms_from_vdb db u s = Inr ?p"
      using False assms r by (simp add: resolve_perms_from_vdb_def pg_up)
    with b ow show ?thesis by (auto simp: db_server_mask_def)
  qed
qed

lemma resolve_perms_granted:
  assumes "db_up db" "List.find (\<lambda>r. sv_id r = s) (db_servers db) = Some sv"
  shows "\<exists>p. resolve_perms_from_vdb db u s = Inr p \<and> (\<forall>q. bits_has p q \<longleftrightarrow> granted (db_server_mask db u s) q)"
proof -
  obtain p where p: "resolve_perms_from_vdb db u s = Inr p"
    "bit p 10 \<or> {n. bit p n} = db_server_mask db u s" "bit p 10 \<longrightarrow> db_server_mask db u s = {..<64}"
    using resolve_perms_mask [OF assms] by blast
  have "bits_has p q \<longleftrightarrow> granted (db_server_mask db u s) q" for q
    using p(2,3) granted_mask [of p "db_server_mask db u s" q] by (cases "bit p 10") (auto simp: bits_has_iff)
  with p(1) show ?thesis by blast
qed

lemma server_check_cold:
  assumes k: "db_keys db" and o1: "one_everyone db s" and up: "db_up db" and wf: "data_wf pc0"
    and cold: "dm_get (pc_servers pc0) s = None"
    and sv: "List.find (\<lambda>r. sv_id r = s) (db_servers db) = Some sv"
    and roles: "\<And>user. dm_get (pc_users pc0) u = Some user \<Longrightarrow> set (user_roles_in user s) = db_role_set db u s"
  shows "fst (check_server_permission db now u s perm pc0) =
           (if granted (db_server_mask db u s) perm then Inr () else Inl MissingPermission)"
proof -
  obtain pc where l: "lazy_load_server db now s pc0 = (Inr True, pc)"
    and e: "ensure_server_loaded db now s pc0 = (Inr (), pc)"
    by (rule ensure_cold [OF up sv cold])
  obtain srv rows where x: "dm_get (pc_servers pc) s = Some srv" "entry_wf srv"
    "se_everyone_role_id srv = scan_everyone 0 rows" "se_roles srv = build_roles rows"
    "pg_roles_for_server db s = Inr rows" "se_owner_id srv = u \<longleftrightarrow> db_owner db u s"
    by (rule loaded_entry_of [OF k o1 up wf l, of u])
  have pu: "pc_users pc = pc_users pc0" using lazy_load_server_frame(1) [of db now s pc0] l by simp
  have dw: "data_wf pc" using lazy_load_server_wf [OF k wf, of now s] l by simp
  show ?thesis
  proof (cases "dm_get (pc_users pc) u")
    case (Some user)
    have "spec_base srv (db_role_set db u s) = db_base db u s"
      using loaded_base [OF k o1 x(5,3,4)] by (intro ext)
    then have "spec_server_mask srv u (set (user_roles_in user s)) = db_server_mask db u s"
      using roles pu x(6) Some by (simp add: spec_server_mask_def db_server_mask_def)
    then show ?thesis
      using compute_server_mask [OF dw x(1) Some] e granted_mask
      by (auto simp: check_server_permission_def has_server_permission_def)
  next
    case None
    show ?thesis
    proof (cases "db_owner db u s")
      case True
      then show ?thesis using x e
        by (simp add: check_server_permission_def has_server_permission_def compute_server_permissions_def db_server_mask_def)
    next
      case False
      then have "compute_server_permissions pc u s = None"
        using x None by (simp add: compute_server_permissions_def)
      then show ?thesis
        using e resolve_perms_granted [OF up sv, of u]
        by (auto simp: check_server_permission_def has_server_permission_def)
    qed
  qed
qed

text \<open>
  C34. Freshness: after a \<open>ServerRolesChanged\<close> event, whatever the cache held for the server,
  with Postgres up, the next server-level check of a user answers by the tables as they are then,
  provided that the roles cached for that user are those of the tables, or none are cached. The
  event does not refresh them: where they differ the check can be wrong
  (\<open>user_roles_changed_drops_roles\<close>).
\<close>
theorem server_roles_changed_fresh:
  assumes "legal_run xs" and "db_keys db" "one_everyone db s" "db_up db"
    and "List.find (\<lambda>r. sv_id r = s) (db_servers db) = Some sv"
    and "\<forall>user. dm_get (pc_users (perm_run xs)) u = Some user \<longrightarrow> set (user_roles_in user s) = db_role_set db u s"
  shows "fst (check_server_permission db now u s perm (perm_step (perm_run xs) (Event (ServerRolesChanged s)))) =
           (if granted (db_server_mask db u s) perm then Inr () else Inl MissingPermission)"
proof (rule server_check_cold [OF assms(2-4) _ _ assms(5)])
  show "data_wf (perm_step (perm_run xs) (Event (ServerRolesChanged s)))"
    using run_data [OF assms(1)] by (simp add: handle_invalidation_event_wf)
qed (use assms(6) in \<open>simp_all add: handle_invalidation_event_def evict_server_data_servers\<close>)

lemma server_roles_changed_fresh_witness:
  "fst (check_server_permission ex_db 9 2 7 MANAGE_MESSAGES (perm_step (perm_run ex_ops) (Event (ServerRolesChanged 7)))) =
     (if granted (db_server_mask ex_db 2 7) MANAGE_MESSAGES then Inr () else Inl MissingPermission)"
proof (rule server_roles_changed_fresh [OF ex_legal ex_db_keys])
  show "one_everyone ex_db 7" by code_simp
  show "db_up ex_db" by (simp add: db_up_def ex_db_def)
  show "List.find (\<lambda>r. sv_id r = 7) (db_servers ex_db) = Some \<lparr>sv_id = 7, sv_name = ''s'', sv_owner_id = 1, sv_welcome_channel_id = None, sv_welcome_message = None, sv_deleted_at = None\<rparr>"
    by (simp add: ex_db_def)
  show "\<forall>user. dm_get (pc_users (perm_run ex_ops)) 2 = Some user \<longrightarrow> set (user_roles_in user 7) = db_role_set ex_db 2 7"
    unfolding ex_run ex_role_set by (simp add: ex_user_def user_roles_in_def) (auto simp: dm_get_def)
qed

text \<open>
  A \<open>UserRolesChanged\<close> event, by contrast, leaves a cached user with no roles in a loaded
  server: whatever the tables say, the next check grants only what \<open>@everyone\<close> has (the owner
  keeps everything). The event's comment expects the roles to be fetched again.
\<close>
lemma user_roles_changed_drops_roles:
  assumes "legal_run xs" and "pc = perm_run xs"
    and "dm_get (pc_servers pc) s = Some srv" "dm_get (pc_users pc) u = Some user"
  shows "fst (check_server_permission db now u s perm (perm_step pc (Event (UserRolesChanged u s)))) =
           (if granted (spec_server_mask srv u {}) perm then Inr () else Inl MissingPermission)"
proof -
  let ?pc = "perm_step pc (Event (UserRolesChanged u s))"
  let ?pc' = "?pc\<lparr>pc_servers := dm_upd s (\<lambda>e. e\<lparr>se_last_accessed := now\<rparr>) (pc_servers ?pc)\<rparr>"
  have wf: "data_wf ?pc'" using run_data [OF assms(1)] assms(2)
    by (simp add: handle_invalidation_event_wf data_wf_upd_servers)
  have srv: "dm_get (pc_servers ?pc') s = Some (srv\<lparr>se_last_accessed := now\<rparr>)"
    and usr: "dm_get (pc_users ?pc') u = Some (user\<lparr>ue_member_roles := dm_del s (ue_member_roles user)\<rparr>)"
    and e: "ensure_server_loaded db now s ?pc = (Inr (), ?pc')"
    using assms(3,4) by (simp_all add: handle_invalidation_event_def ensure_server_loaded_def)
  have "spec_base (srv\<lparr>se_last_accessed := now\<rparr>) = spec_base srv"
    by (intro ext) (simp add: spec_base_def)
  then have "spec_server_mask (srv\<lparr>se_last_accessed := now\<rparr>) u R = spec_server_mask srv u R" for R
    by (simp add: spec_server_mask_def)
  then show ?thesis
    using compute_server_mask [OF wf srv usr] e granted_mask
    by (auto simp: check_server_permission_def has_server_permission_def user_roles_in_def)
qed

lemma user_roles_changed_drops_roles_witness:
  "fst (check_server_permission ex_db 9 2 7 MANAGE_MESSAGES (perm_step (perm_run ex_ops) (Event (UserRolesChanged 2 7)))) =
     (if granted (spec_server_mask ex_entry 2 {}) MANAGE_MESSAGES then Inr () else Inl MissingPermission)"
  by (rule user_roles_changed_drops_roles [OF ex_legal refl ex_run(3,4)])

section \<open>Role hierarchy\<close>

definition top_position :: "server_cache_entry \<Rightarrow> int set \<Rightarrow> int" where
  "top_position srv R = Max (insert 0 {cr_position r |r. r \<in> set (se_roles srv) \<and> cr_id r \<in> R \<and> \<not> cr_color_only r})"

lemma top_set_finite: "finite {cr_position r |r. r \<in> set (se_roles srv) \<and> cr_id r \<in> R \<and> \<not> cr_color_only r}"
  by (rule finite_subset [of _ "cr_position ` set (se_roles srv)"]) auto

lemma fold_max_ge: "(m :: int) \<le> fold (\<lambda>x h. case f x of None \<Rightarrow> h | Some p \<Rightarrow> max h p) xs m"
  by (induction xs arbitrary: m) (auto split: option.splits intro: order_trans [OF max.cobounded1])

lemma fold_max_Max:
  "fold (\<lambda>x h. case f x of None \<Rightarrow> h | Some p \<Rightarrow> max h p) xs (m :: int) =
     Max (insert m {p. \<exists>x\<in>set xs. f x = Some p})"
proof (induction xs arbitrary: m)
  case (Cons x xs)
  have fin: "finite {p. \<exists>x\<in>set ys. f x = Some p}" for ys
    by (rule finite_subset [of _ "(\<lambda>x. the (f x)) ` set ys"]) force+
  show ?case
  proof (cases "f x")
    case None
    then have "{p. \<exists>y\<in>set (x # xs). f y = Some p} = {p. \<exists>y\<in>set xs. f y = Some p}" by auto
    then show ?thesis using None Cons.IH [of m] by simp
  next
    case (Some q)
    then have s: "{p. \<exists>y\<in>set (x # xs). f y = Some p} = insert q {p. \<exists>y\<in>set xs. f y = Some p}" by auto
    show ?thesis
      unfolding s using Some Cons.IH [of "max m q"] fin [of xs]
      by (cases "{p. \<exists>y\<in>set xs. f y = Some p} = {}") (auto simp: max.assoc max.left_commute max.commute)
  qed
qed simp

lemma highest_fold:
  assumes "entry_wf srv"
  shows "fold (\<lambda>role_id highest. case find_role srv role_id of None \<Rightarrow> highest
            | Some r \<Rightarrow> if cr_color_only r then highest else max highest (cr_position r)) ids 0 =
         top_position srv (set ids)"
proof -
  let ?f = "\<lambda>i. case find_role srv i of None \<Rightarrow> None | Some r \<Rightarrow> if cr_color_only r then None else Some (cr_position r)"
  have "(\<lambda>role_id highest. case find_role srv role_id of None \<Rightarrow> highest
            | Some r \<Rightarrow> if cr_color_only r then highest else max highest (cr_position r)) =
        (\<lambda>i h. case ?f i of None \<Rightarrow> h | Some p \<Rightarrow> max h p)"
    by (intro ext) (auto split: option.splits)
  moreover have "{p. \<exists>i\<in>set ids. ?f i = Some p} =
      {cr_position r |r. r \<in> set (se_roles srv) \<and> cr_id r \<in> set ids \<and> \<not> cr_color_only r}"
  proof -
    have "?f i = Some p \<longleftrightarrow> (\<exists>r. find_role srv i = Some r \<and> \<not> cr_color_only r \<and> p = cr_position r)" for i p
      by (auto split: option.splits)
    then show ?thesis by (auto simp: find_role_iff [OF assms])
  qed
  ultimately show ?thesis by (simp only: fold_max_Max top_position_def)
qed

definition rank :: "server_cache_entry \<Rightarrow> int \<Rightarrow> int set \<Rightarrow> int" where
  "rank srv u R = (if se_owner_id srv = u then i32_max else top_position srv R)"

lemma highest_role_rank:
  assumes "entry_wf srv" "dm_get (pc_servers pc) s = Some srv"
    and "dm_get (pc_users pc) u = Some user" "dm_get (ue_member_roles user) s = Some ids"
  shows "get_highest_role_position pc u s = Some (rank srv u (set ids))"
  using assms highest_fold [OF assms(1), of ids] by (simp add: get_highest_role_position_def rank_def)

lemma top_position_less:
  assumes "\<forall>r\<in>set (se_roles srv). cr_position r < m" "0 < m"
  shows "top_position srv R < m"
  unfolding top_position_def using top_set_finite assms by (subst Max_less_iff) auto

text \<open>
  C19. The hierarchy check on cached data: it succeeds exactly when the target is not the
  owner and the actor is the owner or has a strictly higher role; so nobody acts on the
  owner, on an equal or on themselves.
\<close>
theorem check_hierarchy_strict:
  assumes "legal_run xs" and "pc = perm_run xs" and "dm_get (pc_servers pc) s = Some srv"
    and "\<forall>r\<in>set (se_roles srv). cr_position r < i32_max"
    and "dm_get (pc_users pc) a = Some ua" "dm_get (ue_member_roles ua) s = Some as"
    and "dm_get (pc_users pc) t = Some ut" "dm_get (ue_member_roles ut) s = Some ts"
  shows "fst (check_hierarchy db now a t s pc) = Inr () \<longleftrightarrow>
           t \<noteq> se_owner_id srv \<and>
           (a = se_owner_id srv \<or> top_position srv (set ts) < top_position srv (set as))"
proof -
  let ?srv = "srv\<lparr>se_last_accessed := now\<rparr>"
  let ?pc = "pc\<lparr>pc_servers := dm_upd s (\<lambda>e. e\<lparr>se_last_accessed := now\<rparr>) (pc_servers pc)\<rparr>"
  have wf: "entry_wf ?srv" using run_data [OF assms(1)] assms(2,3) by (simp add: data_wf_server)
  have e: "ensure_server_loaded db now s pc = (Inr (), ?pc)"
    using assms(3) by (simp add: ensure_server_loaded_def)
  have g: "dm_get (pc_servers ?pc) s = Some ?srv" using assms(3) by simp
  have rk: "rank ?srv u R = (if se_owner_id srv = u then i32_max else top_position srv R)" for u R
    by (simp add: rank_def top_position_def)
  have "fst (check_hierarchy db now a t s pc) = Inr () \<longleftrightarrow> rank ?srv t (set ts) < rank ?srv a (set as)"
    using highest_role_rank [OF wf g, of a ua as] highest_role_rank [OF wf g, of t ut ts] assms(5-8) e
    by (simp add: check_hierarchy_def)
  then show ?thesis
    using top_position_less [OF assms(4), of "set ts"] top_position_less [OF assms(4), of "set as"]
    by (auto simp: rk i32_max_def)
qed

lemma check_hierarchy_strict_witness:
  "fst (check_hierarchy ex_db 0 2 3 7 (perm_run (ex_ops @ [Inv_User_Roles ex_db 3 7]))) = Inr () \<longleftrightarrow>
     (3::int) \<noteq> 1 \<and> ((2::int) = 1 \<or> top_position ex_entry {} < top_position ex_entry {20, 30})"
proof -
  have l: "legal_run (ex_ops @ [Inv_User_Roles ex_db 3 7])" using ex_legal by simp
  have s: "dm_get (pc_servers (perm_run (ex_ops @ [Inv_User_Roles ex_db 3 7]))) 7 = Some ex_entry"
    "dm_get (pc_users (perm_run (ex_ops @ [Inv_User_Roles ex_db 3 7]))) 2 = Some (ex_user [(7, [20, 30])])"
    "dm_get (pc_users (perm_run (ex_ops @ [Inv_User_Roles ex_db 3 7]))) 3 = Some (ex_user [(7, [])])"
    "dm_get (ue_member_roles (ex_user [(7, [20, 30])])) 7 = Some [20, 30]"
    "dm_get (ue_member_roles (ex_user [(7, [])])) 7 = Some []"
    by code_simp+
  have "\<forall>r\<in>set (se_roles ex_entry). cr_position r < i32_max" by code_simp
  from check_hierarchy_strict [OF l refl s(1) this s(2,4,3,5), of ex_db 0] show ?thesis
    by (simp add: ex_entry_def)
qed

lemma storage_position_Max:
  "storage_position rows ids =
     (let ps = {rr_position r |r. r \<in> set rows \<and> rr_id r \<in> set ids \<and> \<not> rr_color_only r}
      in if ps = {} then 0 else Max ps)"
proof -
  let ?l = "map rr_position (filter (\<lambda>r. \<not> rr_color_only r) (filter (\<lambda>r. rr_id r \<in> set ids) rows))"
  have s: "set ?l = {rr_position r |r. r \<in> set rows \<and> rr_id r \<in> set ids \<and> \<not> rr_color_only r}" by auto
  show ?thesis
  proof (cases ?l)
    case Nil
    then show ?thesis using s by (simp add: storage_position_def)
  next
    case (Cons p ps)
    then show ?thesis using Max.set_eq_fold [of p ps] s [symmetric]
      by (simp add: storage_position_def Let_def)
  qed
qed

definition db_role_ids :: "pg_db \<Rightarrow> int \<Rightarrow> int \<Rightarrow> int list" where
  "db_role_ids db u s = map mr_role_id (filter (\<lambda>m. mr_user_id m = u \<and> mr_server_id m = s) (db_member_roles db))"

text \<open>
  The storage fallback of the hierarchy check has no rule for the owner as the target:
  for an actor that is not cached and not the owner, the check compares role positions only,
  and lets the actor act on the owner whenever the owner holds no role as high.
\<close>
lemma hierarchy_fallback_ignores_target_owner:
  assumes "db_up db" "dm_get (pc_servers pc0) s = None" "dm_get (pc_users pc0) a = None"
    and "List.find (\<lambda>r. sv_id r = s) (db_servers db) = Some sv" "a \<noteq> sv_owner_id sv"
    and "pg_roles_for_server db s = Inr roles"
  shows "fst (check_hierarchy db now a (sv_owner_id sv) s pc0) =
           (if storage_position roles (db_role_ids db (sv_owner_id sv) s) < storage_position roles (db_role_ids db a s)
            then Inr () else Inl role_hierarchy_error)"
proof -
  obtain pc where l: "lazy_load_server db now s pc0 = (Inr True, pc)"
    and e: "ensure_server_loaded db now s pc0 = (Inr (), pc)"
    by (rule ensure_cold [OF assms(1,4,2)])
  obtain sv' roles' chans ovs where x:
    "dm_get (pc_servers pc) s = Some (load_entry now pc0 s (sv_owner_id sv') roles' chans ovs)"
    "List.find (\<lambda>r. sv_id r = s) (db_servers db) = Some sv'"
    by (rule lazy_load_fresh [OF l])
  have "dm_get (pc_users pc) a = None"
    using assms(3) lazy_load_server_frame(1) [of db now s pc0] l by simp
  then have "get_highest_role_position pc a s = None"
    using x assms(4,5) by (simp add: get_highest_role_position_def load_entry_def)
  moreover have "storage_position roles (hs_of_list rs) = storage_position roles rs" for rs
    by (simp add: storage_position_def)
  ultimately show ?thesis
    using e assms by (auto simp: check_hierarchy_def pg_up db_role_ids_def not_less)
qed

lemma hierarchy_fallback_ignores_target_owner_witness:
  "fst (check_hierarchy ex_db 0 2 1 7 pc_new) = Inr ()"
proof -
  let ?roles = "[ex_role 20 4 2 False, ex_role 30 64 1 True, ex_role 10 3 0 False]"
  let ?sv = "\<lparr>sv_id = 7, sv_name = ''s'', sv_owner_id = 1, sv_welcome_channel_id = None, sv_welcome_message = None, sv_deleted_at = None\<rparr>"
  have "pg_roles_for_server ex_db 7 = Inr ?roles" by code_simp
  moreover have "List.find (\<lambda>r. sv_id r = 7) (db_servers ex_db) = Some ?sv" by (simp add: ex_db_def)
  moreover have "storage_position ?roles (db_role_ids ex_db 1 7) < storage_position ?roles (db_role_ids ex_db 2 7)"
    by code_simp
  moreover have "db_up ex_db" by (simp add: db_up_def ex_db_def)
  ultimately show ?thesis
    using hierarchy_fallback_ignores_target_owner [of ex_db pc_new 7 2 ?sv ?roles 0] by (simp add: pc_new_def)
qed

text \<open>
  The storage fallback of the channel check has no owner rule either: in a loaded server,
  a channel missing from the channel index is checked by the roles and overrides alone, for
  the owner too. The mask is that of an ordinary member with the user's roles.
\<close>
lemma unindexed_channel_ignores_owner:
  assumes "legal_run xs" and "pc = perm_run xs" and "db_keys db" "db_up db"
    and "dm_get (pc_servers pc) s = Some srv" "dm_get (pc_channel_index pc) c = None"
    and "pg_overrides db c = Inr rows"
    and "\<forall>ov\<in>set rows. \<exists>r\<in>set (se_roles srv). cr_id r = ov_role_id ov"
    and "ch = \<lparr>cc_id = c, cc_channel_type = 0, cc_overrides = map to_cached_override rows\<rparr>"
  shows "fst (check_channel_permission db now u c s perm pc) =
           (if spec_base srv (db_role_set db u s) 10 \<or> granted {n. spec_channel srv ch (db_role_set db u s) n} perm
            then Inr () else Inl MissingPermission)"
proof -
  let ?srv = "srv\<lparr>se_last_accessed := now\<rparr>"
  let ?pc = "pc\<lparr>pc_servers := dm_upd s (\<lambda>e. e\<lparr>se_last_accessed := now\<rparr>) (pc_servers pc)\<rparr>"
  let ?rids = "hs_of_list (map mr_role_id
     (filter (\<lambda>m. mr_user_id m = u \<and> mr_server_id m = s) (db_member_roles db)))"
  let ?p = "storage_base_perms ?pc s ?rids"
  let ?q = "storage_apply_overrides ?pc s ?rids (map to_cached_override rows) ?p"
  have wf: "entry_wf ?srv" using run_data [OF assms(1)] assms(2,5) by (simp add: data_wf_server)
  have e: "ensure_server_loaded db now s pc = (Inr (), ?pc)"
    using assms(5) by (simp add: ensure_server_loaded_def)
  have g: "dm_get (pc_servers ?pc) s = Some ?srv" using assms(5) by simp
  have rids: "set ?rids = db_role_set db u s" by (simp add: db_role_set_list)
  have sb: "spec_base ?srv = spec_base srv" by (intro ext) (simp add: spec_base_def)
  have sc: "spec_channel ?srv = spec_channel srv"
    by (intro ext) (simp add: spec_channel_def sb spec_role_override_def spec_everyone_override_def)
  have base: "bit ?p n \<longleftrightarrow> spec_base srv (db_role_set db u s) n" for n
    by (simp only: storage_base_bits [OF g] bit_base spec_base_iff [OF wf] rids sb)
  have d: "distinct (map co_role_id (map to_cached_override rows))"
    using db_keys_overrides [OF assms(3,7)] by (simp only: cached_ids)
  have ex: "\<forall>ov\<in>set (map to_cached_override rows). \<exists>r\<in>set (se_roles ?srv). cr_id r = co_role_id ov"
    using assms(8) by simp
  have cs: "set (cc_overrides ch) = set (map to_cached_override rows)" by (simp add: assms(9))
  have q: "{n. bit ?q n} = {n. spec_channel srv ch (db_role_set db u s) n}"
    unfolding storage_apply_bits [OF g wf d cs ex] base rids sc [symmetric] spec_channel_def sb by simp
  have "has_channel_permission ?pc u c perm = None"
    using assms(6) by (simp add: has_channel_permission_def compute_permissions_def)
  then have "fst (check_channel_permission db now u c s perm pc) =
      (if bit ?p 10 then Inr () else if bits_has ?q perm then Inr () else Inl MissingPermission)"
    using e pg_up(5) [OF assms(4)] assms(7)
    by (simp add: check_channel_permission_def Let_def ADMINISTRATOR_bit)
  then show ?thesis using granted_mask [OF q, of perm] base by simp
qed

lemma unindexed_channel_ignores_owner_witness:
  "fst (check_channel_permission ex_db 0 1 555 7 MANAGE_CHANNELS (perm_run ex_ops)) = Inl MissingPermission"
proof -
  let ?ch = "\<lparr>cc_id = 555, cc_channel_type = 0, cc_overrides = map to_cached_override []\<rparr>"
  have i: "dm_get (pc_channel_index (perm_run ex_ops)) 555 = None" by code_simp
  have ov: "pg_overrides ex_db 555 = Inr []" by code_simp
  have up: "db_up ex_db" by (simp add: db_up_def ex_db_def)
  have R: "db_role_set ex_db 1 7 = {}" by (simp add: db_role_set_list ex_db_def)
  have m: "bit MANAGE_CHANNELS n \<longleftrightarrow> n = 3" for n
    unfolding MANAGE_CHANNELS_def bit_flag by simp
  have "spec_base ex_entry {} n \<longleftrightarrow> bit (3 :: i64_bits) n" for n
    by (auto simp: spec_base_def ex_entry_def)
  then have "\<not> spec_base ex_entry {} 10" "\<not> spec_channel ex_entry ?ch {} 10" "\<not> spec_channel ex_entry ?ch {} 3"
    by (simp_all add: spec_channel_def spec_role_override_def spec_everyone_override_def)
  then show ?thesis
    using unindexed_channel_ignores_owner [OF ex_legal refl ex_db_keys up ex_run(3) i ov _ refl, of 0 1 MANAGE_CHANNELS]
    by (auto simp: R granted_def m)
qed

end
