(* ===== verification/Bot_Perms.thy ===== *)
theory Bot_Perms
  imports Perm_Refine
begin

text \<open>
  Bot permissions (\<open>src/server-rs/src/services/bot_permissions.rs\<close>): the permissions of a bot
  come from the roles assigned to it, read from Postgres on every check, with the role
  snapshot of its identity as the fallback. The last section shows that a bot is granted
  exactly what a member with the same roles is granted. The fields of \<open>BotIdentity\<close> and
  \<open>FeedRow\<close> that only describe the bot or the feed to people are left out.
\<close>

record bot_identity =
  bi_bot_id :: int
  bi_token_id :: int
  bi_server_id :: int
  bi_role_ids :: "int list"

record feed_row =
  fr_id :: int
  fr_server_id :: int
  fr_position :: int
  fr_publish_role_ids :: "int list"
  fr_visible_role_ids :: "int list"
  fr_created_at_ms :: int

record bot_server_perms =
  bp_everyone_role_id :: int
  bp_role_ids :: "int hset"
  bp_permissions :: i64_bits

definition bot_role_step :: "role_row \<Rightarrow> bot_server_perms \<Rightarrow> bot_server_perms" where
  "bot_role_step role p =
     (if rr_color_only role then p\<lparr>bp_role_ids := hs_remove (rr_id role) (bp_role_ids p)\<rparr>
      else if rr_position role = 0 then
        p\<lparr>bp_everyone_role_id := rr_id role, bp_role_ids := hs_insert (rr_id role) (bp_role_ids p),
          bp_permissions := bp_permissions p OR rr_permissions role\<rparr>
      else if rr_id role \<in> set (bp_role_ids p) then
        p\<lparr>bp_permissions := bp_permissions p OR rr_permissions role\<rparr>
      else p)"

definition bot_server_permissions :: "pg_db \<Rightarrow> bot_identity \<Rightarrow> bot_server_perms app_result" where
  "bot_server_permissions db b =
     (case pg_roles_for_server db (bi_server_id b) of
        Inl _ \<Rightarrow> Inl Internal
      | Inr roles \<Rightarrow>
          (let assigned = (case pg_bot_role_ids db (bi_bot_id b) (bi_server_id b) of
                             Inr ids \<Rightarrow> ids | Inl _ \<Rightarrow> bi_role_ids b)
           in Inr (fold bot_role_step roles
                \<lparr>bp_everyone_role_id = 0, bp_role_ids = hs_of_list assigned, bp_permissions = 0\<rparr>)))"

definition bot_has_server_permission :: "pg_db \<Rightarrow> bot_identity \<Rightarrow> i64_bits \<Rightarrow> bool app_result" where
  "bot_has_server_permission db b permission =
     (case bot_server_permissions db b of
        Inl e \<Rightarrow> Inl e
      | Inr perms \<Rightarrow> Inr (bits_has (bp_permissions perms) permission))"

definition bot_apply_overrides :: "bot_server_perms \<Rightarrow> override_row list \<Rightarrow> i64_bits" where
  "bot_apply_overrides perms overrides =
     (let p = fold (\<lambda>ov p. (p AND NOT (ov_deny_bits ov)) OR ov_allow_bits ov)
                (filter (\<lambda>ov. ov_role_id ov = bp_everyone_role_id perms) overrides) (bp_permissions perms);
          (role_allow, role_deny) =
            fold (\<lambda>ov (a, d).
                    if ov_role_id ov = bp_everyone_role_id perms then (a, d)
                    else (a OR ov_allow_bits ov, d OR ov_deny_bits ov))
              (filter (\<lambda>ov. ov_role_id ov \<in> set (bp_role_ids perms)) overrides) (0, 0)
      in (p AND NOT role_deny) OR role_allow)"

definition bot_has_channel_permission :: "pg_db \<Rightarrow> bot_identity \<Rightarrow> int \<Rightarrow> i64_bits \<Rightarrow> bool app_result" where
  "bot_has_channel_permission db b channel_id permission =
     (case pg_channel_by_id db channel_id of
        Inl _ \<Rightarrow> Inl Internal
      | Inr None \<Rightarrow> Inl (NotFound ''channel'')
      | Inr (Some channel) \<Rightarrow>
          if ch_server_id channel \<noteq> Some (bi_server_id b) then Inr False
          else (case bot_server_permissions db b of
             Inl e \<Rightarrow> Inl e
           | Inr perms \<Rightarrow>
               if bits_has (bp_permissions perms) ADMINISTRATOR then Inr True
               else (case pg_overrides db channel_id of
                  Inl _ \<Rightarrow> Inl Internal
                | Inr overrides \<Rightarrow> Inr (bits_has (bot_apply_overrides perms overrides) permission))))"

definition can_view_feed :: "pg_db \<Rightarrow> bot_identity \<Rightarrow> feed_row \<Rightarrow> bool app_result" where
  "can_view_feed db b feed =
     (if fr_server_id feed \<noteq> bi_server_id b then Inr False
      else case bot_has_server_permission db b ADMINISTRATOR of
        Inl e \<Rightarrow> Inl e
      | Inr True \<Rightarrow> Inr True
      | Inr False \<Rightarrow>
          if fr_visible_role_ids feed = [] then Inr True
          else (case bot_server_permissions db b of
                  Inl e \<Rightarrow> Inl e
                | Inr perms \<Rightarrow> Inr (list_ex (\<lambda>r. r \<in> set (bp_role_ids perms)) (fr_visible_role_ids feed))))"

definition can_publish_feed :: "pg_db \<Rightarrow> bot_identity \<Rightarrow> feed_row \<Rightarrow> bool app_result" where
  "can_publish_feed db b feed =
     (if fr_server_id feed \<noteq> bi_server_id b then Inr False
      else case can_view_feed db b feed of
        Inl e \<Rightarrow> Inl e
      | Inr False \<Rightarrow> Inr False
      | Inr True \<Rightarrow>
          (case bot_has_server_permission db b MANAGE_SERVER of
             Inl e \<Rightarrow> Inl e
           | Inr True \<Rightarrow> Inr True
           | Inr False \<Rightarrow>
               if fr_publish_role_ids feed = [] then Inr False
               else (case bot_server_permissions db b of
                       Inl e \<Rightarrow> Inl e
                     | Inr perms \<Rightarrow>
                         Inr (list_ex (\<lambda>r. r \<in> set (bp_role_ids perms)) (fr_publish_role_ids feed)))))"

section \<open>The loop over the roles\<close>

text \<open>
  A bot that holds the roles \<open>R\<close> in a server: the tables with those rows as the member
  roles of a user.
\<close>

definition bot_role_set :: "pg_db \<Rightarrow> bot_identity \<Rightarrow> int set" where
  "bot_role_set db b =
     (if db_fails db (Q_Bot_Role_Ids (bi_bot_id b) (bi_server_id b)) then set (bi_role_ids b)
      else {br_role_id r |r. r \<in> set (db_bot_roles db) \<and> br_bot_id r = bi_bot_id b \<and> br_server_id r = bi_server_id b})"

definition loop_inv :: "role_row list \<Rightarrow> int set \<Rightarrow> bot_server_perms \<Rightarrow> bool" where
  "loop_inv done R p \<longleftrightarrow>
     set (bp_role_ids p) = (R - {rr_id r |r. r \<in> set done \<and> rr_color_only r}) \<union>
        {rr_id r |r. r \<in> set done \<and> \<not> rr_color_only r \<and> rr_position r = 0} \<and>
     (\<forall>n. bit (bp_permissions p) n \<longleftrightarrow>
        (\<exists>r\<in>set done. \<not> rr_color_only r \<and> (rr_position r = 0 \<or> rr_id r \<in> R) \<and> bit (rr_permissions r) n))"

lemma loop_inv_step:
  assumes inv: "loop_inv done R p" and d: "rr_id r \<notin> rr_id ` set done"
  shows "loop_inv (done @ [r]) R (bot_role_step r p)"
proof -
  have m: "rr_id r \<in> set (bp_role_ids p) \<longleftrightarrow> rr_id r \<in> R"
    using inv d by (auto simp: loop_inv_def)
  have ids: "set (bp_role_ids (bot_role_step r p)) =
      (R - {rr_id q |q. q \<in> set (done @ [r]) \<and> rr_color_only q}) \<union>
      {rr_id q |q. q \<in> set (done @ [r]) \<and> \<not> rr_color_only q \<and> rr_position q = 0}"
    using inv d by (auto simp: loop_inv_def bot_role_step_def image_iff)
  have perms: "bit (bp_permissions (bot_role_step r p)) n \<longleftrightarrow>
      (\<exists>q\<in>set (done @ [r]). \<not> rr_color_only q \<and> (rr_position q = 0 \<or> rr_id q \<in> R) \<and> bit (rr_permissions q) n)" for n
    using inv m by (auto simp: loop_inv_def bot_role_step_def bit_or_iff)
  show ?thesis using ids perms by (simp add: loop_inv_def)
qed

lemma loop_inv_fold:
  "loop_inv done R p \<Longrightarrow> distinct (map rr_id (done @ roles)) \<Longrightarrow>
   loop_inv (done @ roles) R (fold bot_role_step roles p)"
proof (induction roles arbitrary: "done" p)
  case (Cons r roles)
  then have "loop_inv (done @ [r]) R (bot_role_step r p)"
    by (intro loop_inv_step) (auto simp: image_iff)
  from Cons.IH [OF this] Cons.prems(2) show ?case by simp
qed simp

lemma loop_everyone:
  "(\<And>r. r \<in> set roles \<Longrightarrow> \<not> rr_color_only r \<Longrightarrow> rr_position r = 0 \<Longrightarrow> rr_id r = e) \<Longrightarrow>
   bp_everyone_role_id p = e \<or> (\<exists>r\<in>set roles. \<not> rr_color_only r \<and> rr_position r = 0) \<Longrightarrow>
   bp_everyone_role_id (fold bot_role_step roles p) = e"
proof (induction roles arbitrary: p)
  case (Cons r roles)
  show ?case
    unfolding fold_simps
    by (rule Cons.IH) (use Cons.prems in \<open>auto simp: bot_role_step_def\<close>)
qed simp

section \<open>A bot is granted what a member with its roles is granted\<close>

lemma bot_roles_read:
  "pg_bot_role_ids db (bi_bot_id b) (bi_server_id b) = Inr ids \<Longrightarrow> set ids = bot_role_set db b"
  by (auto simp: pg_bot_role_ids_def pg_ask_def bot_role_set_def split: if_splits)

lemma bot_server_permissions_up:
  assumes k: "db_keys db" and o1: "one_everyone db s" and up: "db_up db" and s: "bi_server_id b = s"
    and R: "bot_role_set db b = db_role_set db u s"
    and e: "e \<in> set (db_roles db)" "rr_server_id e = s" "\<not> rr_color_only e" "rr_position e = 0"
  obtains p where "bot_server_permissions db b = Inr p" "bp_everyone_role_id p = rr_id e"
    "\<And>n. bit (bp_permissions p) n \<longleftrightarrow> db_base db u s n"
    "\<And>r. r \<in> set (db_roles db) \<Longrightarrow> rr_server_id r = s \<Longrightarrow>
       rr_id r \<in> set (bp_role_ids p) \<longleftrightarrow> \<not> rr_color_only r \<and> (rr_id r \<in> db_role_set db u s \<or> r = e)"
proof -
  obtain e' where e': "\<And>r. r \<in> set (db_roles db) \<Longrightarrow> rr_server_id r = s \<Longrightarrow> \<not> rr_color_only r \<Longrightarrow>
      rr_position r = 0 \<Longrightarrow> r = e'" using one_everyone_obtain [OF o1] by metis
  obtain roles where r: "pg_roles_for_server db s = Inr roles" using pg_up(2) [OF up] by blast
  obtain ids where ids: "pg_bot_role_ids db (bi_bot_id b) s = Inr ids"
    using up s by (auto simp: db_up_def pg_bot_role_ids_def pg_ask_def)
  let ?init = "\<lparr>bp_everyone_role_id = 0, bp_role_ids = hs_of_list ids, bp_permissions = 0\<rparr>"
  let ?p = "fold bot_role_step roles ?init"
  have idset: "set ids = db_role_set db u s" using bot_roles_read [of db b ids] ids R s by simp
  have rs: "set roles = {r \<in> set (db_roles db). rr_server_id r = s}" by (rule pg_roles_for_server_set [OF r])
  have inv: "loop_inv roles (set ids) ?p"
    using loop_inv_fold [of "[]" "set ids" ?init roles] db_keys_roles [OF k r] by (simp add: loop_inv_def)
  have "bot_server_permissions db b = Inr ?p" by (simp add: bot_server_permissions_def s r ids)
  moreover have "bp_everyone_role_id ?p = rr_id e"
    using e e' [of e] e' rs by (intro loop_everyone) auto
  moreover have "bit (bp_permissions ?p) n \<longleftrightarrow> db_base db u s n" for n
    using inv rs idset by (auto simp: loop_inv_def db_base_def)
  moreover have "rr_id q \<in> set (bp_role_ids ?p) \<longleftrightarrow> \<not> rr_color_only q \<and> (rr_id q \<in> db_role_set db u s \<or> q = e)"
    if q: "q \<in> set (db_roles db)" "rr_server_id q = s" for q
  proof -
    have one: "r = q" if "r \<in> set roles" "rr_id r = rr_id q" for r
      using db_role_unique [OF k] that rs q by auto
    have pick: "(\<exists>r\<in>set roles. rr_id q = rr_id r \<and> P r) \<longleftrightarrow> P q" for P
    proof -
      have "q \<in> set roles" using q rs by simp
      then show ?thesis using one by metis
    qed
    have "rr_id q \<in> set (bp_role_ids ?p) \<longleftrightarrow>
        (rr_id q \<in> set ids \<and> \<not> (\<exists>r\<in>set roles. rr_id q = rr_id r \<and> rr_color_only r)) \<or>
        (\<exists>r\<in>set roles. rr_id q = rr_id r \<and> \<not> rr_color_only r \<and> rr_position r = 0)"
      using inv unfolding loop_inv_def by blast
    then have "rr_id q \<in> set (bp_role_ids ?p) \<longleftrightarrow>
        (rr_id q \<in> set ids \<and> \<not> rr_color_only q) \<or> (\<not> rr_color_only q \<and> rr_position q = 0)"
      by (simp only: pick)
    then show ?thesis using idset e e' [OF q] e' [of e] by metis
  qed
  ultimately show thesis by (rule that)
qed

lemma bot_everyone_fold:
  "distinct (map ov_role_id ovs) \<Longrightarrow>
   bit (fold (\<lambda>ov p. (p AND NOT (ov_deny_bits ov)) OR ov_allow_bits ov) (filter (\<lambda>ov. ov_role_id ov = e) ovs) p) n \<longleftrightarrow>
     (\<exists>ov\<in>set ovs. ov_role_id ov = e \<and> bit (ov_allow_bits ov) n) \<or>
     (bit p n \<and> \<not> (\<exists>ov\<in>set ovs. ov_role_id ov = e \<and> bit (ov_deny_bits ov) n))"
proof (induction ovs)
  case (Cons ov ovs)
  show ?case
  proof (cases "ov_role_id ov = e")
    case True
    then have "filter (\<lambda>ov. ov_role_id ov = e) ovs = []"
      using Cons.prems by (auto simp: filter_empty_conv image_iff)
    moreover have "\<forall>x\<in>set ovs. ov_role_id x \<noteq> e" using Cons.prems True by (auto simp: image_iff)
    ultimately show ?thesis using True bit_imp_le_length [of p n] by (auto simp: bit_simps)
  qed (use Cons in auto)
qed simp

lemma bot_role_fold:
  "(bit (fst (fold (\<lambda>ov (a, d). if ov_role_id ov = e then (a, d) else (a OR ov_allow_bits ov, d OR ov_deny_bits ov)) ovs (a0, d0))) n
     \<longleftrightarrow> bit a0 n \<or> (\<exists>ov\<in>set ovs. ov_role_id ov \<noteq> e \<and> bit (ov_allow_bits ov) n)) \<and>
   (bit (snd (fold (\<lambda>ov (a, d). if ov_role_id ov = e then (a, d) else (a OR ov_allow_bits ov, d OR ov_deny_bits ov)) ovs (a0, d0))) n
     \<longleftrightarrow> bit d0 n \<or> (\<exists>ov\<in>set ovs. ov_role_id ov \<noteq> e \<and> bit (ov_deny_bits ov) n))"
  by (induction ovs arbitrary: a0 d0) (auto simp: bit_or_iff)

lemma bot_apply_overrides_bits:
  assumes "distinct (map ov_role_id ovs)"
  shows "bit (bot_apply_overrides p ovs) n \<longleftrightarrow>
    (\<exists>ov\<in>set ovs. ov_role_id ov \<in> set (bp_role_ids p) \<and> ov_role_id ov \<noteq> bp_everyone_role_id p \<and> bit (ov_allow_bits ov) n) \<or>
    (\<not> (\<exists>ov\<in>set ovs. ov_role_id ov \<in> set (bp_role_ids p) \<and> ov_role_id ov \<noteq> bp_everyone_role_id p \<and> bit (ov_deny_bits ov) n) \<and>
     ((\<exists>ov\<in>set ovs. ov_role_id ov = bp_everyone_role_id p \<and> bit (ov_allow_bits ov) n) \<or>
      (bit (bp_permissions p) n \<and> \<not> (\<exists>ov\<in>set ovs. ov_role_id ov = bp_everyone_role_id p \<and> bit (ov_deny_bits ov) n))))"
proof -
  let ?r = "fold (\<lambda>ov (a, d). if ov_role_id ov = bp_everyone_role_id p then (a, d)
      else (a OR ov_allow_bits ov, d OR ov_deny_bits ov))
      (filter (\<lambda>ov. ov_role_id ov \<in> set (bp_role_ids p)) ovs) (0, 0)"
  let ?e = "fold (\<lambda>ov p. (p AND NOT (ov_deny_bits ov)) OR ov_allow_bits ov)
      (filter (\<lambda>ov. ov_role_id ov = bp_everyone_role_id p) ovs) (bp_permissions p)"
  have "bot_apply_overrides p ovs = apply_override ?e (fst ?r) (snd ?r)"
    by (simp add: bot_apply_overrides_def apply_override_def Let_def case_prod_beta)
  moreover have "bit (fst ?r) n \<longleftrightarrow>
      (\<exists>ov\<in>set ovs. ov_role_id ov \<in> set (bp_role_ids p) \<and> ov_role_id ov \<noteq> bp_everyone_role_id p \<and> bit (ov_allow_bits ov) n)"
    "bit (snd ?r) n \<longleftrightarrow>
      (\<exists>ov\<in>set ovs. ov_role_id ov \<in> set (bp_role_ids p) \<and> ov_role_id ov \<noteq> bp_everyone_role_id p \<and> bit (ov_deny_bits ov) n)"
    using bot_role_fold [of "bp_everyone_role_id p" "filter (\<lambda>ov. ov_role_id ov \<in> set (bp_role_ids p)) ovs" 0 0 n]
    by (simp_all only: bit_0_eq bot_apply bot_bool_def simp_thms) (auto simp: Bex_def)
  ultimately show ?thesis
    by (simp only: bit_apply_override bot_everyone_fold [OF assms]) blast
qed

text \<open>
  C36. With Postgres up, the channel check of a bot grants exactly what the tables grant to a
  member of the server with the bot's roles (who is not the owner), and refuses channels of
  other servers.
\<close>
theorem bot_channel_permission_as_member:
  assumes "db_keys db" "one_everyone db s" "db_up db" "overrides_local db s c"
    and "List.find (\<lambda>x. ch_id x = c) (db_channels db) = Some ch"
    and "bi_server_id b = s" "bot_role_set db b = db_role_set db u s" "\<not> db_owner db u s"
    and "\<forall>r\<in>set (db_roles db). rr_server_id r = s \<longrightarrow> rr_position r = 0 \<longrightarrow> rr_id r \<notin> db_role_set db u s"
  shows "bot_has_channel_permission db b c perm =
           Inr (ch_server_id ch = Some s \<and> granted (db_channel_mask db u s c) perm)"
proof -
  obtain e where e: "e \<in> set (db_roles db)" "rr_server_id e = s" "\<not> rr_color_only e" "rr_position e = 0"
    "\<And>r. r \<in> set (db_roles db) \<Longrightarrow> rr_server_id r = s \<Longrightarrow> \<not> rr_color_only r \<Longrightarrow> rr_position r = 0 \<Longrightarrow> r = e"
    using one_everyone_obtain [OF assms(2)] by metis
  obtain p where p: "bot_server_permissions db b = Inr p" "bp_everyone_role_id p = rr_id e"
    "\<And>n. bit (bp_permissions p) n \<longleftrightarrow> db_base db u s n"
    "\<And>r. r \<in> set (db_roles db) \<Longrightarrow> rr_server_id r = s \<Longrightarrow>
       rr_id r \<in> set (bp_role_ids p) \<longleftrightarrow> \<not> rr_color_only r \<and> (rr_id r \<in> db_role_set db u s \<or> r = e)"
    using bot_server_permissions_up [OF assms(1-3,6,7) e(1-4)] by blast
  let ?rows = "filter (\<lambda>r. ov_channel_id r = c) (db_overrides db)"
  have rows: "pg_overrides db c = Inr ?rows" by (rule pg_up(6) [OF assms(3)])
  have ch: "pg_channel_by_id db c = Inr (Some ch)"
    using assms(3,5) by (simp add: pg_channel_by_id_def pg_ask_def db_up_def)
  have adm: "bits_has (bp_permissions p) ADMINISTRATOR \<longleftrightarrow> db_base db u s 10"
    using p(3) by (auto simp: bits_has_iff)
  have ro: "(\<exists>ov\<in>set ?rows. ov_role_id ov \<in> set (bp_role_ids p) \<and> ov_role_id ov \<noteq> rr_id e \<and> bit (f ov) n)
      \<longleftrightarrow> db_role_override db u s c f n" for f n
  proof -
    have "ov_role_id ov \<in> set (bp_role_ids p) \<and> ov_role_id ov \<noteq> rr_id e \<longleftrightarrow>
        ov_role_id ov \<in> db_role_set db u s \<and>
        (\<exists>r\<in>set (db_roles db). rr_server_id r = s \<and> rr_id r = ov_role_id ov \<and> \<not> rr_color_only r)"
      if ov: "ov \<in> set (db_overrides db)" "ov_channel_id ov = c" for ov
    proof -
      obtain r where r: "r \<in> set (db_roles db)" "rr_id r = ov_role_id ov" "rr_server_id r = s"
        using assms(4) ov by (auto simp: overrides_local_def)
      have one: "q = r" if "q \<in> set (db_roles db)" "rr_id q = ov_role_id ov" for q
        using db_role_unique [OF assms(1)] that r by auto
      have "rr_id e \<notin> db_role_set db u s" using assms(9) e by blast
      then show ?thesis using p(4) [OF r(1,3)] r one db_role_unique [OF assms(1) r(1) e(1)] by metis
    qed
    then show ?thesis unfolding db_role_override_def set_filter by blast
  qed
  have eo: "(\<exists>ov\<in>set ?rows. ov_role_id ov = rr_id e \<and> bit (f ov) n) \<longleftrightarrow> db_everyone_override db s c f n" for f n
  proof -
    have "ov_role_id ov = rr_id e \<longleftrightarrow> (\<exists>r\<in>set (db_roles db). rr_server_id r = s \<and>
        rr_id r = ov_role_id ov \<and> \<not> rr_color_only r \<and> rr_position r = 0)" for ov
      using e by metis
    then show ?thesis unfolding db_everyone_override_def by auto
  qed
  have q: "{n. bit (bot_apply_overrides p ?rows) n} = {n. db_channel_bit db u s c n}"
    unfolding bot_apply_overrides_bits [OF db_keys_overrides [OF assms(1) rows]] p(2,3) ro eo db_channel_bit_def by simp
  show ?thesis
    using p(1) rows ch adm granted_mask [OF q, of perm] assms(6,8)
    by (simp add: bot_has_channel_permission_def db_channel_mask_def)
qed

text \<open>
  A bot that may publish to a feed may view it, the feed is of its server, and it has
  \<open>MANAGE_SERVER\<close> (or administers) or holds one of the feed's publish roles.
\<close>
lemma bot_publish_implies_view:
  assumes "can_publish_feed db b feed = Inr True"
  shows "can_view_feed db b feed = Inr True \<and> fr_server_id feed = bi_server_id b \<and>
     (\<exists>p. bot_server_permissions db b = Inr p \<and>
        (bits_has (bp_permissions p) MANAGE_SERVER \<or> set (fr_publish_role_ids feed) \<inter> set (bp_role_ids p) \<noteq> {}))"
  using assms
  by (auto simp: can_publish_feed_def bot_has_server_permission_def list_ex_iff
      split: if_splits sum.splits bool.splits)

definition ex_bot :: bot_identity where
  "ex_bot = \<lparr>bi_bot_id = 77, bi_token_id = 1, bi_server_id = 7, bi_role_ids = []\<rparr>"

definition ex_bot_db :: pg_db where
  "ex_bot_db = ex_db\<lparr>db_bot_roles := [\<lparr>br_bot_id = 77, br_server_id = 7, br_role_id = 20\<rparr>,
                                     \<lparr>br_bot_id = 77, br_server_id = 7, br_role_id = 30\<rparr>]\<rparr>"

lemma bot_channel_permission_as_member_witness:
  "bot_has_channel_permission ex_bot_db ex_bot 101 SEND_MESSAGES =
     Inr (ch_server_id (ex_channel 101) = Some 7 \<and> granted (db_channel_mask ex_bot_db 2 7 101) SEND_MESSAGES)"
proof (rule bot_channel_permission_as_member)
  show "db_keys ex_bot_db" "one_everyone ex_bot_db 7" "overrides_local ex_bot_db 7 101"
    "List.find (\<lambda>x. ch_id x = 101) (db_channels ex_bot_db) = Some (ex_channel 101)" "bi_server_id ex_bot = 7"
    by code_simp+
  have R: "db_role_set ex_bot_db 2 7 = {20, 30}" by (simp add: db_role_set_list ex_bot_db_def ex_db_def)
  show "db_up ex_bot_db" by (simp add: db_up_def ex_bot_db_def ex_db_def)
  have "bot_role_set ex_bot_db ex_bot = set [20, 30]"
    by (rule bot_roles_read [symmetric]) code_simp
  then show "bot_role_set ex_bot_db ex_bot = db_role_set ex_bot_db 2 7" using R by simp
  show "\<not> db_owner ex_bot_db 2 7" by (simp add: db_owner_def ex_bot_db_def ex_db_def)
  show "\<forall>r\<in>set (db_roles ex_bot_db). rr_server_id r = 7 \<longrightarrow> rr_position r = 0 \<longrightarrow> rr_id r \<notin> db_role_set ex_bot_db 2 7"
    unfolding R by (simp add: ex_bot_db_def ex_db_def ex_role_def)
qed

definition ex_feed :: feed_row where
  "ex_feed = \<lparr>fr_id = 1, fr_server_id = 7, fr_position = 0, fr_publish_role_ids = [20],
     fr_visible_role_ids = [10], fr_created_at_ms = 0\<rparr>"

lemma bot_publish_implies_view_witness: "can_view_feed ex_bot_db ex_bot ex_feed = Inr True"
  by (rule bot_publish_implies_view [THEN conjunct1]) code_simp

end
