(* ===== verification/Channel_Access.thy ===== *)
theory Channel_Access
  imports Perm_Refine
begin

text \<open>
  Channel access for requests (\<open>src/server-rs/src/services/channel_access.rs\<close>): the cache
  first, Postgres on a miss, every denial reported as a missing channel; and the rules for
  sending direct messages.
\<close>

definition require_membership ::
    "pg_db \<Rightarrow> int \<Rightarrow> int \<Rightarrow> permission_cache \<Rightarrow> unit app_result \<times> permission_cache" where
  "require_membership db user_id server_id pc = check_membership db user_id server_id pc"

definition verify_channel_access ::
    "pg_db \<Rightarrow> int \<Rightarrow> int \<Rightarrow> permission_cache \<Rightarrow> int option app_result \<times> permission_cache" where
  "verify_channel_access db user_id channel_id pc =
     (case verify_access pc user_id channel_id of
        Hit sid \<Rightarrow> ((if sid = 0 then Inr None else Inr (Some sid)), pc)
      | Denied _ \<Rightarrow> (Inl (NotFound ''channel''), pc)
      | Miss \<Rightarrow>
          (case pg_channel_by_id db channel_id of
             Inl _ \<Rightarrow> (Inl Internal, pc)
           | Inr (Some c) \<Rightarrow>
               (case or_not_found (ch_server_id c) ''channel'' of
                  Inl e \<Rightarrow> (Inl e, pc)
                | Inr sid \<Rightarrow>
                    (case require_membership db user_id sid pc of
                       (Inl _, pc) \<Rightarrow> (Inl (NotFound ''channel''), pc)
                     | (Inr _, pc) \<Rightarrow> (Inr (Some sid), pc)))
           | Inr None \<Rightarrow>
               (let dm_ids = (case pg_dm_channels_for_user db user_id of Inl _ \<Rightarrow> [] | Inr ids \<Rightarrow> ids)
                in if channel_id \<notin> set dm_ids then (Inl (NotFound ''channel''), pc)
                   else (Inr None, add_dm_channel user_id channel_id pc))))"

definition dm_not_allowed :: app_error where
  "dm_not_allowed = WithCode 403 ''DM_NOT_ALLOWED'' ''Unable to message this user''"

definition ensure_dm_user_allowed :: "pg_db \<Rightarrow> int \<Rightarrow> int \<Rightarrow> unit app_result" where
  "ensure_dm_user_allowed db actor_id target_id =
     (case pg_either_blocks db actor_id target_id of
        Inl _ \<Rightarrow> Inl Internal
      | Inr True \<Rightarrow> Inl dm_not_allowed
      | Inr False \<Rightarrow>
          (case pg_can_direct_message db actor_id target_id of
             Inl _ \<Rightarrow> Inl Internal
           | Inr False \<Rightarrow> Inl dm_not_allowed
           | Inr True \<Rightarrow> Inr ()))"

primrec all_allowed :: "pg_db \<Rightarrow> int \<Rightarrow> dm_member_row list \<Rightarrow> unit app_result" where
  "all_allowed db actor_id [] = Inr ()"
| "all_allowed db actor_id (m # ms) =
     (case ensure_dm_user_allowed db actor_id (dm_user_id m) of
        Inl e \<Rightarrow> Inl e
      | Inr _ \<Rightarrow> all_allowed db actor_id ms)"

definition ensure_dm_channel_send_allowed :: "pg_db \<Rightarrow> int \<Rightarrow> int \<Rightarrow> unit app_result" where
  "ensure_dm_channel_send_allowed db actor_id channel_id =
     (case pg_dm_members db channel_id of
        Inl _ \<Rightarrow> Inl Internal
      | Inr members \<Rightarrow>
          if \<not> list_ex (\<lambda>m. dm_user_id m = actor_id) members then Inl (NotFound ''channel'')
          else all_allowed db actor_id (filter (\<lambda>m. dm_user_id m \<noteq> actor_id) members))"

section \<open>Who gets in\<close>

text \<open>What the tables and the cache say about a user and a channel.\<close>

definition in_dm :: "pg_db \<Rightarrow> permission_cache \<Rightarrow> int \<Rightarrow> int \<Rightarrow> bool" where
  "in_dm db pc u c \<longleftrightarrow>
     (\<exists>user. dm_get (pc_users pc) u = Some user \<and> c \<in> set (ue_dm_channel_ids user)) \<or>
     (\<exists>m\<in>set (db_dm_members db). dm_channel_id m = c \<and> dm_user_id m = u)"

definition in_server :: "pg_db \<Rightarrow> permission_cache \<Rightarrow> int \<Rightarrow> int \<Rightarrow> bool" where
  "in_server db pc u s \<longleftrightarrow>
     (\<exists>user. dm_get (pc_users pc) u = Some user \<and> s \<in> set (ue_server_ids user)) \<or>
     (s, u) \<in> set (db_server_members db)"

lemma verify_access_Hit:
  "verify_access pc u c = Hit s \<Longrightarrow> \<exists>user. dm_get (pc_users pc) u = Some user \<and>
     dm_get (pc_channel_index pc) c = Some s \<and>
     (if s = 0 then c \<in> set (ue_dm_channel_ids user) else s \<in> set (ue_server_ids user))"
  by (auto simp: verify_access_def split: option.splits if_splits)

lemma check_membership_Inr:
  "fst (check_membership db u s pc) = Inr () \<Longrightarrow> in_server db pc u s"
  by (auto simp: check_membership_def is_member_cached_def in_server_def pg_is_member_def pg_ask_def
      split: if_splits sum.splits bool.splits)

text \<open>
  C37. A request is let into a channel only as a participant of the DM, or as a member of the
  server the channel belongs to (by the cache or by Postgres); and every refusal that is not
  a storage failure is the same \<open>NotFound\<close>, so it does not tell a hidden channel from a
  channel that does not exist.
\<close>
theorem channel_access_no_leak:
  shows "case fst (verify_channel_access db u c pc) of
           Inr None \<Rightarrow> in_dm db pc u c
         | Inr (Some s) \<Rightarrow> in_server db pc u s \<and>
             (dm_get (pc_channel_index pc) c = Some s \<or>
              (\<exists>ch\<in>set (db_channels db). ch_id ch = c \<and> ch_server_id ch = Some s))
         | Inl e \<Rightarrow> e = NotFound ''channel'' \<or> e = Internal \<and> db_fails db (Q_Channel_By_Id c)"
proof (cases "verify_access pc u c")
  case (Hit s)
  with verify_access_Hit [OF Hit] show ?thesis
    by (auto simp: verify_channel_access_def in_dm_def in_server_def split: if_splits)
next
  case (Denied e)
  then show ?thesis by (simp add: verify_channel_access_def)
next
  case Miss
  show ?thesis
  proof (cases "pg_channel_by_id db c")
    case (Inl e)
    with Miss show ?thesis
      by (auto simp: verify_channel_access_def pg_channel_by_id_def pg_ask_def split: if_splits)
  next
    case (Inr row)
    show ?thesis
    proof (cases row)
      case None
      with Miss Inr show ?thesis
        by (auto simp: verify_channel_access_def in_dm_def pg_dm_channels_for_user_def pg_ask_def Let_def
            split: sum.splits if_splits)
    next
      case (Some ch)
      then have ch: "ch \<in> set (db_channels db)" "ch_id ch = c"
        using Inr by (auto simp: pg_channel_by_id_def pg_ask_def find_Some_iff split: if_splits)
      show ?thesis
      proof (cases "ch_server_id ch")
        case None
        with Miss Inr Some show ?thesis by (simp add: verify_channel_access_def or_not_found_def)
      next
        case sid: (Some s)
        with Miss Inr Some ch check_membership_Inr [of db u s pc] show ?thesis
          by (cases "check_membership db u s pc")
            (auto simp: verify_channel_access_def or_not_found_def require_membership_def split: sum.splits)
      qed
    qed
  qed
qed

section \<open>Direct messages\<close>

definition dm_eligible :: "pg_db \<Rightarrow> int \<Rightarrow> int \<Rightarrow> bool" where
  "dm_eligible db a b \<longleftrightarrow> a \<noteq> b \<and>
     \<not> (\<exists>r\<in>set (db_relationships db). rl_type r = rel_blocked \<and> {rl_user_id r, rl_target_id r} = {a, b}) \<and>
     ((\<exists>r\<in>set (db_relationships db). rl_type r = rel_friend \<and> {rl_user_id r, rl_target_id r} = {a, b}) \<or>
      (\<exists>s. (s, a) \<in> set (db_server_members db) \<and> (s, b) \<in> set (db_server_members db)))"

lemma dm_user_allowed_reads:
  "pg_either_blocks db a b = Inr B \<Longrightarrow> pg_can_direct_message db a b = Inr C \<Longrightarrow>
   ensure_dm_user_allowed db a b = (if \<not> B \<and> C then Inr () else Inl dm_not_allowed)"
  by (cases B; cases C) (simp_all add: ensure_dm_user_allowed_def)

lemma dm_user_allowed_iff:
  assumes "db_up db" "a \<noteq> b"
  shows "ensure_dm_user_allowed db a b = (if dm_eligible db a b then Inr () else Inl dm_not_allowed)"
proof -
  have "(rl_user_id r = a \<and> rl_target_id r = b \<or> rl_user_id r = b \<and> rl_target_id r = a) \<longleftrightarrow>
      {rl_user_id r, rl_target_id r} = {a, b}" for r :: relationship_row
    by (auto simp: doubleton_eq_iff)
  moreover have "(\<exists>m\<in>set (db_server_members db). snd m = a \<and> (fst m, b) \<in> set (db_server_members db)) \<longleftrightarrow>
      (\<exists>s. (s, a) \<in> set (db_server_members db) \<and> (s, b) \<in> set (db_server_members db))"
    by force
  ultimately have
    bl: "pg_either_blocks db a b = Inr (\<exists>r\<in>set (db_relationships db). rl_type r = rel_blocked \<and>
           {rl_user_id r, rl_target_id r} = {a, b})" (is "_ = Inr ?B")
    and dm: "pg_can_direct_message db a b =
      Inr ((\<exists>r\<in>set (db_relationships db). rl_type r = rel_friend \<and> {rl_user_id r, rl_target_id r} = {a, b}) \<or>
           (\<exists>s. (s, a) \<in> set (db_server_members db) \<and> (s, b) \<in> set (db_server_members db)))" (is "_ = Inr ?C")
    using assms by (simp_all add: pg_either_blocks_def pg_can_direct_message_def pg_ask_def db_up_def)
  have "dm_eligible db a b \<longleftrightarrow> \<not> ?B \<and> ?C" using assms(2) unfolding dm_eligible_def by blast
  then show ?thesis unfolding dm_user_allowed_reads [OF bl dm] by simp
qed

lemma all_allowed_iff:
  assumes "db_up db" "\<forall>m\<in>set ms. dm_user_id m \<noteq> a"
  shows "all_allowed db a ms =
     (if \<forall>m\<in>set ms. dm_eligible db a (dm_user_id m) then Inr () else Inl dm_not_allowed)"
  using assms(2) by (induction ms) (auto simp: dm_user_allowed_iff [OF assms(1)])

text \<open>
  Sending to a DM channel is decided afresh by the tables: a participant may send exactly
  when every other participant is eligible (nobody blocks, and they are friends or share a
  server); anybody else is told the channel does not exist.
\<close>
lemma dm_send_decision:
  assumes "db_up db"
  shows "ensure_dm_channel_send_allowed db a c =
     (let members = {dm_user_id m |m. m \<in> set (db_dm_members db) \<and> dm_channel_id m = c}
      in if a \<notin> members then Inl (NotFound ''channel'')
         else if \<forall>b\<in>members - {a}. dm_eligible db a b then Inr () else Inl dm_not_allowed)"
proof -
  have "pg_dm_members db c = Inr (sort_key dm_joined_at_ms (filter (\<lambda>m. dm_channel_id m = c) (db_dm_members db)))"
    using assms by (simp add: pg_dm_members_def pg_ask_def db_up_def)
  then show ?thesis
    by (auto simp: ensure_dm_channel_send_allowed_def list_ex_iff all_allowed_iff [OF assms] Let_def)
qed

lemma dm_send_decision_witness:
  "ensure_dm_channel_send_allowed (ex_db\<lparr>db_dm_members := [\<lparr>dm_channel_id = 9, dm_user_id = 2, dm_joined_at_ms = 0\<rparr>,
      \<lparr>dm_channel_id = 9, dm_user_id = 3, dm_joined_at_ms = 1\<rparr>]\<rparr>) 4 9 = Inl (NotFound ''channel'')"
  by (subst dm_send_decision) (auto simp: db_up_def ex_db_def)

end
