(* ===== verification/Text_Bytes.thy ===== *)
theory Text_Bytes
  imports Prelude
begin

text \<open>
  The string operations of Rust's standard library that the code uses. A \<open>string\<close> is the UTF-8
  byte sequence of a \<open>str\<close>: \<open>length\<close> is \<open>str::len\<close>, \<open>chars_count\<close> is \<open>chars().count()\<close>.
\<close>

section \<open>Bytes\<close>

definition byte :: "char \<Rightarrow> nat" where
  "byte c = of_char c"

definition ascii_lower_alpha :: "char \<Rightarrow> bool" where
  "ascii_lower_alpha c \<longleftrightarrow> 97 \<le> byte c \<and> byte c \<le> 122"

definition ascii_upper_alpha :: "char \<Rightarrow> bool" where
  "ascii_upper_alpha c \<longleftrightarrow> 65 \<le> byte c \<and> byte c \<le> 90"

definition ascii_digit :: "char \<Rightarrow> bool" where
  "ascii_digit c \<longleftrightarrow> 48 \<le> byte c \<and> byte c \<le> 57"

definition ascii_alnum :: "char \<Rightarrow> bool" where
  "ascii_alnum c \<longleftrightarrow> ascii_lower_alpha c \<or> ascii_upper_alpha c \<or> ascii_digit c"

definition ascii_hexdigit :: "char \<Rightarrow> bool" where
  "ascii_hexdigit c \<longleftrightarrow> ascii_digit c \<or> 97 \<le> byte c \<and> byte c \<le> 102 \<or> 65 \<le> byte c \<and> byte c \<le> 70"

text \<open>Scalar values begin at every byte that is not a continuation byte \<open>10xxxxxx\<close>.\<close>

definition chars_count :: "string \<Rightarrow> nat" where
  "chars_count s = length (filter (\<lambda>c. \<not> (128 \<le> byte c \<and> byte c < 192)) s)"

lemma chars_count_le: "chars_count s \<le> length s"
  by (simp add: chars_count_def)

text \<open>The identifier alphabet shared by event, peer and payload ids.\<close>

definition id_char :: "char \<Rightarrow> bool" where
  "id_char c \<longleftrightarrow> ascii_alnum c \<or> c = CHR ''.'' \<or> c = CHR ''-'' \<or> c = CHR ''_'' \<or> c = CHR '':''"

definition valid_id :: "nat \<Rightarrow> string \<Rightarrow> bool" where
  "valid_id max_len value \<longleftrightarrow> value \<noteq> [] \<and> length value \<le> max_len \<and> list_all id_char value"

lemma id_char_no_newline: "id_char c \<Longrightarrow> c \<noteq> CHR 0x0A"
  by (auto simp: id_char_def ascii_alnum_def ascii_lower_alpha_def ascii_upper_alpha_def ascii_digit_def byte_def)

lemma valid_id_no_newline: "valid_id n s \<Longrightarrow> CHR 0x0A \<notin> set s"
  using id_char_no_newline by (auto simp: valid_id_def list_all_iff)

section \<open>Case\<close>

definition ascii_lower :: "char \<Rightarrow> char" where
  "ascii_lower c = (if ascii_upper_alpha c then char_of (byte c + 32) else c)"

definition to_ascii_lowercase :: "string \<Rightarrow> string" where
  "to_ascii_lowercase s = map ascii_lower s"

definition eq_ignore_ascii_case :: "string \<Rightarrow> string \<Rightarrow> bool" where
  "eq_ignore_ascii_case a b \<longleftrightarrow> to_ascii_lowercase a = to_ascii_lowercase b"

definition upper_byte :: "char \<Rightarrow> char" where
  "upper_byte c = (if ascii_lower_alpha c then char_of (byte c - 32) else c)"

definition to_ascii_uppercase :: "string \<Rightarrow> string" where
  "to_ascii_uppercase s = map upper_byte s"

section \<open>Prefixes, suffixes and trimming\<close>

definition starts_with :: "string \<Rightarrow> string \<Rightarrow> bool" where
  "starts_with s p \<longleftrightarrow> take (length p) s = p"

definition ends_with :: "string \<Rightarrow> string \<Rightarrow> bool" where
  "ends_with s p \<longleftrightarrow> length p \<le> length s \<and> drop (length s - length p) s = p"

definition strip_prefix :: "string \<Rightarrow> string \<Rightarrow> string option" where
  "strip_prefix p s = (if starts_with s p then Some (drop (length p) s) else None)"

definition trim_start_by :: "(char \<Rightarrow> bool) \<Rightarrow> string \<Rightarrow> string" where
  "trim_start_by P s = dropWhile P s"

definition trim_end_by :: "(char \<Rightarrow> bool) \<Rightarrow> string \<Rightarrow> string" where
  "trim_end_by P s = rev (dropWhile P (rev s))"

text \<open>White space within ASCII; the strings trimmed by the code are ASCII where it matters.\<close>

definition ascii_space :: "char \<Rightarrow> bool" where
  "ascii_space c \<longleftrightarrow> byte c = 32 \<or> 9 \<le> byte c \<and> byte c \<le> 13"

definition str_trim :: "string \<Rightarrow> string" where
  "str_trim s = trim_end_by ascii_space (trim_start_by ascii_space s)"

lemma starts_with_iff: "starts_with s p \<longleftrightarrow> (\<exists>r. s = p @ r)"
  by (auto simp: starts_with_def) (metis append_take_drop_id)

lemma ends_with_iff: "ends_with s p \<longleftrightarrow> (\<exists>r. s = r @ p)"
  by (auto simp: ends_with_def) (metis append_take_drop_id)

lemma trim_id: "s = [] \<or> \<not> P (hd s) \<and> \<not> P (last s) \<Longrightarrow> trim_end_by P (trim_start_by P s) = s"
  by (auto simp: trim_start_by_def trim_end_by_def dropWhile_eq_self_iff [THEN iffD2] hd_rev)

lemma str_trim_id: "list_all (\<lambda>c. \<not> ascii_space c) s \<Longrightarrow> str_trim s = s"
  unfolding str_trim_def by (rule trim_id) (cases "s = []", auto simp: list_all_iff)

section \<open>Joining lines\<close>

fun join_lines :: "string list \<Rightarrow> string" where
  "join_lines [] = []"
| "join_lines [s] = s"
| "join_lines (s # t # ts) = s @ CHR 0x0A # join_lines (t # ts)"

lemma newline_split:
  assumes "xs @ CHR 0x0A # ys = xs' @ CHR 0x0A # ys'" "CHR 0x0A \<notin> set xs" "CHR 0x0A \<notin> set xs'"
  shows "xs = xs' \<and> ys = ys'"
  using assms by (auto simp: append_eq_append_conv2 append_eq_Cons_conv Cons_eq_append_conv)

text \<open>If no line but the last holds a line break, the lines can be recovered from their join.\<close>

lemma join_lines_inj:
  assumes "join_lines ss = join_lines ts" "length ss = length ts"
    "\<forall>s\<in>set (butlast ss). CHR 0x0A \<notin> set s" "\<forall>t\<in>set (butlast ts). CHR 0x0A \<notin> set t"
  shows "ss = ts"
  using assms
proof (induction ss arbitrary: ts rule: join_lines.induct)
  case (2 s)
  then show ?case by (cases ts) auto
next
  case (3 s s' ss)
  then obtain t t' ts' where ts: "ts = t # t' # ts'" by (cases ts; cases "tl ts") auto
  with 3 newline_split [of s "join_lines (s' # ss)" t "join_lines (t' # ts')"] show ?case by auto
qed simp

end
