(* ===== verification/Json_Value.thy ===== *)
theory Json_Value
  imports Decimal Text_Bytes
begin

text \<open>
  JSON values as \<open>serde_json::Value\<close> has them. An object is its list of members; keys are
  distinct in every value the parser builds. Parsing and printing JSON text is \<open>serde_json\<close>'s.
\<close>

section \<open>Values\<close>

datatype json_num = Num_Int int | Num_Float string

datatype json =
    Json_Null
  | Json_Bool bool
  | Json_Number json_num
  | Json_String string
  | Json_Array "json list"
  | Json_Object "(string \<times> json) list"

fun as_str :: "json \<Rightarrow> string option" where
  "as_str (Json_String s) = Some s"
| "as_str _ = None"

fun as_array :: "json \<Rightarrow> json list option" where
  "as_array (Json_Array xs) = Some xs"
| "as_array _ = None"

fun as_object :: "json \<Rightarrow> (string \<times> json) list option" where
  "as_object (Json_Object m) = Some m"
| "as_object _ = None"

text \<open>\<open>as_i64\<close>: an integer number in range; a float is never one.\<close>

fun as_i64 :: "json \<Rightarrow> int option" where
  "as_i64 (Json_Number (Num_Int i)) = (if i64_min \<le> i \<and> i \<le> i64_max then Some i else None)"
| "as_i64 _ = None"

fun is_boolean :: "json \<Rightarrow> bool" where
  "is_boolean (Json_Bool _) = True"
| "is_boolean _ = False"

definition is_object :: "json \<Rightarrow> bool" where
  "is_object v \<longleftrightarrow> as_object v \<noteq> None"

text \<open>\<open>Value::get(key)\<close>: \<open>None\<close> on anything that is not an object.\<close>

definition json_get :: "json \<Rightarrow> string \<Rightarrow> json option" where
  "json_get v key = (case as_object v of None \<Rightarrow> None | Some m \<Rightarrow> map_of m key)"

definition is_some_and :: "'a option \<Rightarrow> ('a \<Rightarrow> bool) \<Rightarrow> bool" where
  "is_some_and x P = (case x of None \<Rightarrow> False | Some v \<Rightarrow> P v)"

definition is_none_or :: "'a option \<Rightarrow> ('a \<Rightarrow> bool) \<Rightarrow> bool" where
  "is_none_or x P = (case x of None \<Rightarrow> True | Some v \<Rightarrow> P v)"

lemma is_some_and_simps [simp]: "is_some_and None P = False" "is_some_and (Some v) P = P v"
  by (simp_all add: is_some_and_def)

lemma is_none_or_simps [simp]: "is_none_or None P = True" "is_none_or (Some v) P = P v"
  by (simp_all add: is_none_or_def)

lemma is_some_and_iff [result_iff]: "is_some_and x P \<longleftrightarrow> (\<exists>v. x = Some v \<and> P v)"
  by (cases x) auto

lemma as_str_iff [result_iff]: "as_str v = Some s \<longleftrightarrow> v = Json_String s"
  by (cases v) auto

lemma as_object_iff [result_iff]: "as_object v = Some m \<longleftrightarrow> v = Json_Object m"
  by (cases v) auto

lemma as_array_iff [result_iff]: "as_array v = Some m \<longleftrightarrow> v = Json_Array m"
  by (cases v) auto

lemma is_object_iff: "is_object v \<longleftrightarrow> (\<exists>m. v = Json_Object m)"
  by (cases v) (auto simp: is_object_def)

lemma json_get_object [simp]: "json_get (Json_Object m) k = map_of m k"
  by (simp add: json_get_def)

end
