(* ===== verification/Net_Address.thy ===== *)
theory Net_Address
  imports Text_Bytes
begin

text \<open>
  Which network addresses count as public: the filter of DNS answers
  (\<open>src/server-rs/src/services/public_net.rs\<close>) and the host test of the federation code
  (\<open>src/server-rs/src/federation/identity.rs\<close>). Octets are \<open>8 word\<close>, segments \<open>16 word\<close>.
  \<open>str::parse::<IpAddr>\<close> is the parameter \<open>parse_ip\<close>.
\<close>

type_synonym u16 = "16 word"

datatype ipv4 = Ipv4 u8 u8 u8 u8
datatype ipv6 = Ipv6 u16 u16 u16 u16 u16 u16 u16 u16
datatype ip_addr = V4 ipv4 | V6 ipv6

fun octets :: "ipv4 \<Rightarrow> u8 list" where
  "octets (Ipv4 a b c d) = [a, b, c, d]"

fun segments :: "ipv6 \<Rightarrow> u16 list" where
  "segments (Ipv6 a b c d e f g h) = [a, b, c, d, e, f, g, h]"

section \<open>The standard library's address classes\<close>

fun std_is_private :: "ipv4 \<Rightarrow> bool" where
  "std_is_private (Ipv4 a b c d) \<longleftrightarrow> a = 10 \<or> a = 172 \<and> 16 \<le> b \<and> b \<le> 31 \<or> a = 192 \<and> b = 168"

fun std_is_loopback4 :: "ipv4 \<Rightarrow> bool" where
  "std_is_loopback4 (Ipv4 a b c d) \<longleftrightarrow> a = 127"

fun std_is_link_local :: "ipv4 \<Rightarrow> bool" where
  "std_is_link_local (Ipv4 a b c d) \<longleftrightarrow> a = 169 \<and> b = 254"

fun std_is_multicast4 :: "ipv4 \<Rightarrow> bool" where
  "std_is_multicast4 (Ipv4 a b c d) \<longleftrightarrow> 224 \<le> a \<and> a \<le> 239"

definition std_is_loopback6 :: "ipv6 \<Rightarrow> bool" where
  "std_is_loopback6 ip \<longleftrightarrow> ip = Ipv6 0 0 0 0 0 0 0 1"

definition std_is_unspecified6 :: "ipv6 \<Rightarrow> bool" where
  "std_is_unspecified6 ip \<longleftrightarrow> ip = Ipv6 0 0 0 0 0 0 0 0"

definition std_is_multicast6 :: "ipv6 \<Rightarrow> bool" where
  "std_is_multicast6 ip \<longleftrightarrow> segments ip ! 0 AND 0xff00 = 0xff00"

section \<open>The filter of resolved addresses\<close>

definition is_public_ipv4 :: "ipv4 \<Rightarrow> bool" where
  "is_public_ipv4 ip \<longleftrightarrow>
     (let o0 = octets ip ! 0; o1 = octets ip ! 1; o2 = octets ip ! 2
      in \<not> (std_is_private ip \<or> std_is_loopback4 ip \<or> std_is_link_local ip \<or> std_is_multicast4 ip
            \<or> ip = Ipv4 255 255 255 255 \<or> ip = Ipv4 0 0 0 0
            \<or> o0 = 0
            \<or> o0 = 100 \<and> o1 AND 0xC0 = 0x40
            \<or> o0 = 192 \<and> o1 = 0 \<and> o2 = 0
            \<or> o0 = 192 \<and> o1 = 0 \<and> o2 = 2
            \<or> o0 = 198 \<and> (o1 = 18 \<or> o1 = 19)
            \<or> o0 = 198 \<and> o1 = 51 \<and> o2 = 100
            \<or> o0 = 203 \<and> o1 = 0 \<and> o2 = 113
            \<or> 240 \<le> o0))"

definition is_ipv4_compatible_ipv6 :: "u16 list \<Rightarrow> bool" where
  "is_ipv4_compatible_ipv6 s \<longleftrightarrow> list_all (\<lambda>x. x = 0) (take 6 s)"

definition is_ipv4_mapped_ipv6 :: "u16 list \<Rightarrow> bool" where
  "is_ipv4_mapped_ipv6 s \<longleftrightarrow> list_all (\<lambda>x. x = 0) (take 5 s) \<and> s ! 5 = 0xffff"

definition is_nat64_ipv6 :: "u16 list \<Rightarrow> bool" where
  "is_nat64_ipv6 s \<longleftrightarrow>
     s ! 0 = 0x0064 \<and> s ! 1 = 0xff9b \<and> list_all (\<lambda>x. x = 0) (take 4 (drop 2 s))
     \<or> s ! 0 = 0x0064 \<and> s ! 1 = 0xff9b \<and> s ! 2 = 0x0001"

definition is_special_2001_ipv6 :: "u16 list \<Rightarrow> bool" where
  "is_special_2001_ipv6 s \<longleftrightarrow>
     s ! 0 = 0x2001 \<and>
     (s ! 1 = 0x0000 \<or> s ! 1 = 0x0002 \<or> s ! 1 = 0x0db8 \<or> s ! 1 AND 0xfff0 = 0x0010 \<or> s ! 1 AND 0xfff0 = 0x0020)"

definition is_public_ipv6 :: "ipv6 \<Rightarrow> bool" where
  "is_public_ipv6 ip \<longleftrightarrow>
     (let s = segments ip
      in \<not> (std_is_loopback6 ip \<or> std_is_unspecified6 ip \<or> std_is_multicast6 ip
            \<or> is_ipv4_compatible_ipv6 s \<or> is_ipv4_mapped_ipv6 s
            \<or> s ! 0 AND 0xfe00 = 0xfc00
            \<or> s ! 0 AND 0xffc0 = 0xfe80
            \<or> s ! 0 AND 0xffc0 = 0xfec0
            \<or> is_nat64_ipv6 s
            \<or> s ! 0 = 0x2002
            \<or> is_special_2001_ipv6 s
            \<or> s ! 0 = 0x3fff \<and> s ! 1 AND 0xf000 = 0x0000
            \<or> s ! 0 = 0x0100 \<and> s ! 1 = 0x0000))"

fun is_public_ip :: "ip_addr \<Rightarrow> bool" where
  "is_public_ip (V4 ip) = is_public_ipv4 ip"
| "is_public_ip (V6 ip) = is_public_ipv6 ip"

datatype public_net_error = UnsafeTarget

text \<open>The answers of a lookup: all of them if every one is public, an error otherwise.\<close>

fun filter_loop :: "ip_addr list \<Rightarrow> ip_addr list \<Rightarrow> public_net_error + ip_addr list" where
  "filter_loop public [] = Inr public"
| "filter_loop public (a # as) =
     (if \<not> is_public_ip a then Inl UnsafeTarget else filter_loop (public @ [a]) as)"

definition filter_public_socket_addrs :: "ip_addr list \<Rightarrow> public_net_error + ip_addr list" where
  "filter_public_socket_addrs addresses =
     (case filter_loop [] addresses of
        Inl e \<Rightarrow> Inl e
      | Inr public \<Rightarrow> if addresses = [] then Inl UnsafeTarget else Inr public)"

section \<open>The host test of the federation code\<close>

definition fed_is_public_ipv4 :: "ipv4 \<Rightarrow> bool" where
  "fed_is_public_ipv4 ip \<longleftrightarrow>
     (case ip of Ipv4 a b c _ \<Rightarrow>
        \<not> (a = 0 \<or> a = 10 \<or> a = 127
          \<or> a = 169 \<and> b = 254
          \<or> a = 172 \<and> 16 \<le> b \<and> b \<le> 31
          \<or> a = 192 \<and> b = 168
          \<or> a = 100 \<and> 64 \<le> b \<and> b \<le> 127
          \<or> a = 192 \<and> b = 0 \<and> c = 0
          \<or> a = 192 \<and> b = 0 \<and> c = 2
          \<or> a = 198 \<and> 18 \<le> b \<and> b \<le> 19
          \<or> a = 198 \<and> b = 51 \<and> c = 100
          \<or> a = 203 \<and> b = 0 \<and> c = 113
          \<or> 224 \<le> a))"

definition fed_is_public_ipv6 :: "ipv6 \<Rightarrow> bool" where
  "fed_is_public_ipv6 ip \<longleftrightarrow>
     (let s = segments ip
      in \<not> (std_is_loopback6 ip \<or> std_is_unspecified6 ip
            \<or> s ! 0 AND 0xfe00 = 0xfc00
            \<or> s ! 0 AND 0xffc0 = 0xfe80
            \<or> s ! 0 AND 0xff00 = 0xff00
            \<or> s ! 0 = 0x2001 \<and> s ! 1 = 0x0db8))"

definition is_public_federation_host :: "(string \<Rightarrow> ip_addr option) \<Rightarrow> string \<Rightarrow> bool" where
  "is_public_federation_host parse_ip host =
     (let lower = to_ascii_lowercase host
      in if lower = ''localhost'' \<or> ends_with lower ''.localhost'' \<or> ends_with lower ''.local'' then False
         else (case parse_ip (trim_end_by (\<lambda>c. c = CHR '']'') (trim_start_by (\<lambda>c. c = CHR ''['') lower)) of
                 Some (V4 ip) \<Rightarrow> fed_is_public_ipv4 ip
               | Some (V6 ip) \<Rightarrow> fed_is_public_ipv6 ip
               | None \<Rightarrow> True))"

section \<open>How the two tests compare\<close>

lemma shared_address_space: "(b :: u8) AND 0xC0 = 0x40 \<longleftrightarrow> 64 \<le> b \<and> b \<le> 127"
proof -
  have "b AND 0xC0 = push_bit 6 (drop_bit 6 b)"
  proof (rule bit_word_eqI)
    fix n assume n: "n < LENGTH(8)"
    then have "n \<in> set [0..<8]" by simp
    then have "bit (0xC0 :: u8) n \<longleftrightarrow> 6 \<le> n" by (simp add: upt_rec; elim disjE; simp)
    with n show "bit (b AND 0xC0) n = bit (push_bit 6 (drop_bit 6 b)) n"
      by (cases "6 \<le> n") (simp_all only: bit_and_iff bit_push_bit_iff bit_drop_bit_eq comp_def possible_bit_word
          le_add_diff_inverse simp_thms)
  qed
  also have "\<dots> = 0x40 \<longleftrightarrow> drop_bit 6 b = 1"
  proof
    assume "push_bit 6 (drop_bit 6 b) = 0x40"
    then have "drop_bit 6 (push_bit 6 (drop_bit 6 b)) = drop_bit 6 (0x40 :: u8)" by simp
    moreover have "drop_bit 6 (push_bit 6 (drop_bit 6 b)) = drop_bit 6 b"
      by (rule bit_word_eqI) (auto simp: bit_simps dest: bit_imp_le_length)
    ultimately show "drop_bit 6 b = 1" by simp
  qed simp
  also have "\<dots> \<longleftrightarrow> unat b div 64 = 1"
    by (simp add: word_unat_eq_iff unat_drop_bit_eq unat_div drop_bit_eq_div)
  also have "\<dots> \<longleftrightarrow> 64 \<le> b \<and> b \<le> 127"
    unfolding word_le_nat_alt by simp linarith
  finally show ?thesis .
qed

lemma benchmark_space: "18 \<le> (b :: u8) \<and> b \<le> 19 \<longleftrightarrow> b = 18 \<or> b = 19"
  unfolding word_le_nat_alt word_unat_eq_iff by simp linarith

lemma class_d_e: "224 \<le> (a :: u8) \<and> a \<le> 239 \<or> 240 \<le> a \<longleftrightarrow> 224 \<le> a"
  unfolding word_le_nat_alt by simp linarith

lemma ipv4_tests_agree: "is_public_ipv4 ip = fed_is_public_ipv4 ip"
proof (cases ip)
  case (Ipv4 a b c d)
  have bounds: "240 \<le> a \<Longrightarrow> 224 \<le> a" "224 \<le> a \<Longrightarrow> 224 \<le> a \<and> a \<le> 239 \<or> 240 \<le> a"
    using class_d_e [of a] by simp_all
  have "\<not> is_public_ipv4 ip \<longleftrightarrow> \<not> fed_is_public_ipv4 ip"
  proof
    assume "\<not> is_public_ipv4 ip"
    then have "a = 10 \<or> a = 172 \<and> 16 \<le> b \<and> b \<le> 31 \<or> a = 192 \<and> b = 168 \<or> a = 127 \<or> a = 169 \<and> b = 254
      \<or> 224 \<le> a \<and> a \<le> 239 \<or> ip = Ipv4 255 255 255 255 \<or> ip = Ipv4 0 0 0 0 \<or> a = 0
      \<or> a = 100 \<and> (b AND 0xC0 = 0x40) \<or> a = 192 \<and> b = 0 \<and> c = 0 \<or> a = 192 \<and> b = 0 \<and> c = 2
      \<or> a = 198 \<and> (b = 18 \<or> b = 19) \<or> a = 198 \<and> b = 51 \<and> c = 100 \<or> a = 203 \<and> b = 0 \<and> c = 113 \<or> 240 \<le> a"
      by (simp add: is_public_ipv4_def Ipv4 Let_def numeral_2_eq_2) argo
    then show "\<not> fed_is_public_ipv4 ip"
      using bounds(1)
      by (elim disjE; simp add: fed_is_public_ipv4_def Ipv4 shared_address_space benchmark_space) auto
  next
    assume "\<not> fed_is_public_ipv4 ip"
    then have "a = 0 \<or> a = 10 \<or> a = 127 \<or> a = 169 \<and> b = 254 \<or> a = 172 \<and> 16 \<le> b \<and> b \<le> 31 \<or> a = 192 \<and> b = 168
      \<or> a = 100 \<and> 64 \<le> b \<and> b \<le> 127 \<or> a = 192 \<and> b = 0 \<and> c = 0 \<or> a = 192 \<and> b = 0 \<and> c = 2
      \<or> a = 198 \<and> 18 \<le> b \<and> b \<le> 19 \<or> a = 198 \<and> b = 51 \<and> c = 100 \<or> a = 203 \<and> b = 0 \<and> c = 113 \<or> 224 \<le> a"
      by (simp only: fed_is_public_ipv4_def Ipv4 ipv4.case not_not)
    then show "\<not> is_public_ipv4 ip"
      using bounds(2) benchmark_space [of b]
      by (elim disjE; simp add: is_public_ipv4_def Ipv4 Let_def shared_address_space numeral_2_eq_2)
        (auto simp: benchmark_space)
  qed
  then show ?thesis by simp
qed

text \<open>
  The two public-address tests agree on IPv4, and every IPv6 address the DNS filter lets
  through passes the federation host test. The host test is weaker: it lets every IPv4-mapped
  address \<open>::ffff:a.b.c.d\<close> through, loopback and private ones included, which the DNS filter
  refuses.
\<close>
lemma address_tests_compare:
  "is_public_ip (V4 ip) = fed_is_public_ipv4 ip \<and>
   {ip. is_public_ip (V6 ip)} \<subseteq> {ip. fed_is_public_ipv6 ip} \<and>
   fed_is_public_ipv6 (Ipv6 0 0 0 0 0 0xffff h l) \<and> \<not> is_public_ip (V6 (Ipv6 0 0 0 0 0 0xffff h l))"
proof (intro conjI subsetI)
  show "is_public_ip (V4 ip) = fed_is_public_ipv4 ip" by (simp add: ipv4_tests_agree)
  show "x \<in> {ip. fed_is_public_ipv6 ip}" if "x \<in> {ip. is_public_ip (V6 ip)}" for x
  proof (rule ccontr)
    let ?s = "segments x"
    assume "x \<notin> {ip. fed_is_public_ipv6 ip}"
    then have "std_is_loopback6 x \<or> std_is_unspecified6 x \<or> ?s ! 0 AND 0xfe00 = 0xfc00 \<or> ?s ! 0 AND 0xffc0 = 0xfe80
        \<or> ?s ! 0 AND 0xff00 = 0xff00 \<or> ?s ! 0 = 0x2001 \<and> ?s ! 1 = 0x0db8"
      by (simp only: fed_is_public_ipv6_def Let_def mem_Collect_eq not_not)
    then have "\<not> is_public_ipv6 x"
      by (elim disjE) (simp_all add: is_public_ipv6_def Let_def std_is_multicast6_def is_special_2001_ipv6_def)
    then show False using that by simp
  qed
  show "fed_is_public_ipv6 (Ipv6 0 0 0 0 0 0xffff h l)"
    by (simp add: fed_is_public_ipv6_def Let_def std_is_loopback6_def std_is_unspecified6_def)
  show "\<not> is_public_ip (V6 (Ipv6 0 0 0 0 0 0xffff h l))"
    by (simp add: is_public_ipv6_def Let_def is_ipv4_mapped_ipv6_def)
qed

lemma filter_loop_spec:
  "filter_loop acc as = (if list_all is_public_ip as then Inr (acc @ as) else Inl UnsafeTarget)"
  by (induction as arbitrary: acc) auto

lemma filter_public_socket_addrs_Inr [result_iff]:
  "filter_public_socket_addrs as = Inr ps \<longleftrightarrow> as \<noteq> [] \<and> ps = as \<and> list_all is_public_ip as"
  by (auto simp: filter_public_socket_addrs_def filter_loop_spec)

end
