(* ===== verification/Fed_Identity.thy ===== *)
theory Fed_Identity
  imports Net_Address
begin

text \<open>
  Identities of remote principals (\<open>src/server-rs/src/federation/identity.rs\<close>): the metadata a
  peer may attach to one of its users, the local account row a remote user is projected to, and
  the test of avatar URLs. \<open>Url::parse\<close>, \<open>IpAddr::from_str\<close> and the digest and text encodings
  are parameters.
\<close>

section \<open>Parameters\<close>

record parsed_url =
  scheme :: string
  url_username :: string
  url_password :: "string option"
  url_query :: "string option"
  url_fragment :: "string option"
  host_str :: "string option"
  url_port :: "nat option"
  url_path :: string
  path_segments :: "string list option"

record url_env =
  url_parse :: "string \<Rightarrow> parsed_url option"
  url_join :: "parsed_url \<Rightarrow> string \<Rightarrow> parsed_url option"
  parse_ip :: "string \<Rightarrow> ip_addr option"

record digest_env =
  sha256 :: "string \<Rightarrow> string"
  hex_encode :: "string \<Rightarrow> string"
  b64url_encode :: "string \<Rightarrow> string"

section \<open>Identifiers\<close>

definition valid_peer_id :: "string \<Rightarrow> bool" where
  "valid_peer_id value \<longleftrightarrow> valid_id 253 value"

definition valid_remote_user_id :: "string \<Rightarrow> bool" where
  "valid_remote_user_id value \<longleftrightarrow> valid_id 256 value"

section \<open>Avatar URLs\<close>

definition is_safe_public_profile_url :: "'a url_env_scheme \<Rightarrow> string \<Rightarrow> bool" where
  "is_safe_public_profile_url env value =
     (if 2048 < length value \<or> CHR 0x0D \<in> set value \<or> CHR 0x0A \<in> set value then False
      else case url_parse env value of
        None \<Rightarrow> False
      | Some parsed \<Rightarrow>
          if scheme parsed \<noteq> ''https'' \<or> url_username parsed \<noteq> [] \<or> url_password parsed \<noteq> None
            \<or> url_query parsed \<noteq> None \<or> url_fragment parsed \<noteq> None then False
          else case host_str parsed of
            None \<Rightarrow> False
          | Some host \<Rightarrow>
              if \<not> is_public_federation_host (parse_ip env) host then False
              else (case path_segments parsed of
                      None \<Rightarrow> True
                    | Some segs \<Rightarrow>
                        \<not> list_ex (\<lambda>segment. eq_ignore_ascii_case segment ''attachments'') segs))"

section \<open>Metadata\<close>

record remote_principal_metadata =
  rp_username :: "string option"
  rp_display_name :: "string option"
  rp_avatar_url :: "string option"

datatype projection_error = InvalidIdentity | InvalidMetadata

definition optional_username :: "string option \<Rightarrow> bool" where
  "optional_username value =
     (case value of
        None \<Rightarrow> True
      | Some value \<Rightarrow>
          value \<noteq> [] \<and> length value \<le> 120 \<and>
          list_all (\<lambda>c. ascii_alnum c \<or> c = CHR ''.'' \<or> c = CHR ''-'' \<or> c = CHR ''_'') value)"

definition optional_display_name :: "string option \<Rightarrow> bool" where
  "optional_display_name value =
     (case value of
        None \<Rightarrow> True
      | Some value \<Rightarrow> chars_count value \<le> 120 \<and> CHR 0x0A \<notin> set value \<and> CHR 0x0D \<notin> set value)"

definition optional_public_avatar_url :: "'a url_env_scheme \<Rightarrow> string option \<Rightarrow> bool" where
  "optional_public_avatar_url env value =
     (case value of None \<Rightarrow> True | Some value \<Rightarrow> is_safe_public_profile_url env value)"

definition new_metadata ::
  "'a url_env_scheme \<Rightarrow> string option \<Rightarrow> string option \<Rightarrow> string option \<Rightarrow> projection_error + remote_principal_metadata" where
  "new_metadata env username display_name avatar_url =
     (if \<not> optional_username username \<or> \<not> optional_display_name display_name
        \<or> \<not> optional_public_avatar_url env avatar_url
      then Inl InvalidMetadata
      else Inr \<lparr>rp_username = username, rp_display_name = display_name, rp_avatar_url = avatar_url\<rparr>)"

section \<open>The local row of a remote principal\<close>

definition remote_principal_password_hash :: string where
  "remote_principal_password_hash = ''!federation-remote-principal-disabled!''"

record remote_principal_row =
  row_username :: string
  row_email :: string
  row_password_hash :: string

definition remote_principal_projection ::
  "'a digest_env_scheme \<Rightarrow> string \<Rightarrow> string \<Rightarrow> projection_error + remote_principal_row" where
  "remote_principal_projection env home_peer_id remote_user_id =
     (if \<not> valid_peer_id home_peer_id \<or> \<not> valid_remote_user_id remote_user_id then Inl InvalidIdentity
      else
        let digest = sha256 env (home_peer_id @ CHR 0x0A # remote_user_id);
            hash_hex = hex_encode env digest;
            email_tag = b64url_encode env (take 18 digest)
        in Inr \<lparr>row_username = ''fed_'' @ take 24 hash_hex,
                row_email = ''remote+'' @ email_tag @ ''@federation.invalid'',
                row_password_hash = remote_principal_password_hash\<rparr>)"

section \<open>Lemmas\<close>

lemma new_metadata_Inr [result_iff]:
  "new_metadata env u d a = Inr md \<longleftrightarrow>
     optional_username u \<and> optional_display_name d \<and> optional_public_avatar_url env a \<and>
     md = \<lparr>rp_username = u, rp_display_name = d, rp_avatar_url = a\<rparr>"
  by (auto simp: new_metadata_def)

lemma safe_profile_url_parts:
  assumes "is_safe_public_profile_url env url"
  obtains p host where "url_parse env url = Some p" "scheme p = ''https''" "url_username p = []"
    "url_password p = None" "host_str p = Some host" "is_public_federation_host (parse_ip env) host"
  using assms by (auto simp: is_safe_public_profile_url_def split: if_splits option.splits)

lemma valid_peer_id_no_newline: "valid_peer_id p \<Longrightarrow> CHR 0x0A \<notin> set p"
  unfolding valid_peer_id_def by (rule valid_id_no_newline)

text \<open>The digest input of a principal determines the principal.\<close>

lemma principal_digest_input_inj:
  assumes "valid_peer_id p" "valid_peer_id p'" "p @ CHR 0x0A # u = p' @ CHR 0x0A # u'"
  shows "p = p' \<and> u = u'"
  using newline_split [OF assms(3)] valid_peer_id_no_newline assms(1,2) by blast

text \<open>
  Two principals share the local account's email only if the encoded 18-byte digest prefixes of
  two different inputs collide.
\<close>

lemma shared_email_is_collision:
  assumes "remote_principal_projection env p u = Inr r" "remote_principal_projection env p' u' = Inr r'"
    and "row_email r = row_email r'" "(p, u) \<noteq> (p', u')"
  obtains x y where "x \<noteq> y"
    "b64url_encode env (take 18 (sha256 env x)) = b64url_encode env (take 18 (sha256 env y))"
proof -
  have "valid_peer_id p" "valid_peer_id p'"
    using assms(1,2) by (simp_all add: remote_principal_projection_def split: if_splits)
  then have "p @ CHR 0x0A # u \<noteq> p' @ CHR 0x0A # u'"
    using assms(4) by (auto dest: principal_digest_input_inj [rotated 2])
  moreover have "b64url_encode env (take 18 (sha256 env (p @ CHR 0x0A # u)))
      = b64url_encode env (take 18 (sha256 env (p' @ CHR 0x0A # u')))"
    using assms by (auto simp: remote_principal_projection_def Let_def split: if_splits)
  ultimately show thesis by (rule that)
qed

end
