(* ===== verification/Fed_Protocol.thy ===== *)
theory Fed_Protocol
  imports Json_Value Fed_Identity
begin

text \<open>
  The envelope of a federation event (\<open>src/server-rs/src/federation/protocol.rs\<close>): event
  kinds and their names, the per-kind validation of payloads and the parser of envelopes.
  \<open>serde_json::from_slice\<close> of the raw envelope is the parameter \<open>parse_raw\<close>.
\<close>

section \<open>Event kinds\<close>

datatype event_kind =
    InvitePreview
  | PrincipalUpsert
  | MembershipJoin
  | MembershipLeave
  | MembershipRemove
  | MembershipBan
  | MembershipUnban
  | RoleCreate
  | RoleUpdate
  | RoleDelete
  | RoleReorder
  | CategoryCreate
  | CategoryUpdate
  | CategoryDelete
  | ChannelCreate
  | ChannelUpdate
  | ChannelDelete
  | ChannelReorder
  | ChannelOverrideSet
  | ChannelOverrideDelete
  | MemberRoleAssign
  | MemberRoleRemove
  | EmojiRename
  | EmojiDelete
  | MessageCreate
  | MessageUpdate
  | MessageDelete
  | MessagePin
  | MessageUnpin
  | ReactionAdd
  | ReactionRemove
  | RelationshipRequest
  | RelationshipAccept
  | RelationshipRemove
  | RelationshipBlock
  | PresenceUpdate
  | TypingStart
  | ReadStateUpdate
  | DmCreate
  | DmGroupCreate

primrec kind_as_str :: "event_kind \<Rightarrow> string" where
  "kind_as_str InvitePreview = ''invite_preview''"
| "kind_as_str PrincipalUpsert = ''principal_upsert''"
| "kind_as_str MembershipJoin = ''membership_join''"
| "kind_as_str MembershipLeave = ''membership_leave''"
| "kind_as_str MembershipRemove = ''membership_remove''"
| "kind_as_str MembershipBan = ''membership_ban''"
| "kind_as_str MembershipUnban = ''membership_unban''"
| "kind_as_str RoleCreate = ''role_create''"
| "kind_as_str RoleUpdate = ''role_update''"
| "kind_as_str RoleDelete = ''role_delete''"
| "kind_as_str RoleReorder = ''role_reorder''"
| "kind_as_str CategoryCreate = ''category_create''"
| "kind_as_str CategoryUpdate = ''category_update''"
| "kind_as_str CategoryDelete = ''category_delete''"
| "kind_as_str ChannelCreate = ''channel_create''"
| "kind_as_str ChannelUpdate = ''channel_update''"
| "kind_as_str ChannelDelete = ''channel_delete''"
| "kind_as_str ChannelReorder = ''channel_reorder''"
| "kind_as_str ChannelOverrideSet = ''channel_override_set''"
| "kind_as_str ChannelOverrideDelete = ''channel_override_delete''"
| "kind_as_str MemberRoleAssign = ''member_role_assign''"
| "kind_as_str MemberRoleRemove = ''member_role_remove''"
| "kind_as_str EmojiRename = ''emoji_rename''"
| "kind_as_str EmojiDelete = ''emoji_delete''"
| "kind_as_str MessageCreate = ''message_create''"
| "kind_as_str MessageUpdate = ''message_update''"
| "kind_as_str MessageDelete = ''message_delete''"
| "kind_as_str MessagePin = ''message_pin''"
| "kind_as_str MessageUnpin = ''message_unpin''"
| "kind_as_str ReactionAdd = ''reaction_add''"
| "kind_as_str ReactionRemove = ''reaction_remove''"
| "kind_as_str RelationshipRequest = ''relationship_request''"
| "kind_as_str RelationshipAccept = ''relationship_accept''"
| "kind_as_str RelationshipRemove = ''relationship_remove''"
| "kind_as_str RelationshipBlock = ''relationship_block''"
| "kind_as_str PresenceUpdate = ''presence_update''"
| "kind_as_str TypingStart = ''typing_start''"
| "kind_as_str ReadStateUpdate = ''read_state_update''"
| "kind_as_str DmCreate = ''dm_create''"
| "kind_as_str DmGroupCreate = ''dm_group_create''"

definition kind_table :: "(string \<times> event_kind) list" where
  "kind_table =
    [(''invite_preview'', InvitePreview),
     (''principal_upsert'', PrincipalUpsert),
     (''membership_join'', MembershipJoin),
     (''membership_leave'', MembershipLeave),
     (''membership_remove'', MembershipRemove),
     (''membership_ban'', MembershipBan),
     (''membership_unban'', MembershipUnban),
     (''role_create'', RoleCreate),
     (''role_update'', RoleUpdate),
     (''role_delete'', RoleDelete),
     (''role_reorder'', RoleReorder),
     (''category_create'', CategoryCreate),
     (''category_update'', CategoryUpdate),
     (''category_delete'', CategoryDelete),
     (''channel_create'', ChannelCreate),
     (''channel_update'', ChannelUpdate),
     (''channel_delete'', ChannelDelete),
     (''channel_reorder'', ChannelReorder),
     (''channel_override_set'', ChannelOverrideSet),
     (''channel_override_delete'', ChannelOverrideDelete),
     (''member_role_assign'', MemberRoleAssign),
     (''member_role_remove'', MemberRoleRemove),
     (''emoji_rename'', EmojiRename),
     (''emoji_delete'', EmojiDelete),
     (''message_create'', MessageCreate),
     (''message_update'', MessageUpdate),
     (''message_delete'', MessageDelete),
     (''message_pin'', MessagePin),
     (''message_unpin'', MessageUnpin),
     (''reaction_add'', ReactionAdd),
     (''reaction_remove'', ReactionRemove),
     (''relationship_request'', RelationshipRequest),
     (''relationship_accept'', RelationshipAccept),
     (''relationship_remove'', RelationshipRemove),
     (''relationship_block'', RelationshipBlock),
     (''presence_update'', PresenceUpdate),
     (''typing_start'', TypingStart),
     (''read_state_update'', ReadStateUpdate),
     (''dm_create'', DmCreate),
     (''dm_group_create'', DmGroupCreate)]"

datatype protocol_error = MalformedJson | UnsupportedVersion | UnknownEventKind | InvalidEnvelope | InvalidPayload

definition parse_event_kind :: "string \<Rightarrow> protocol_error + event_kind" where
  "parse_event_kind value =
     (case map_of kind_table value of Some kind \<Rightarrow> Inr kind | None \<Rightarrow> Inl UnknownEventKind)"

section \<open>Field tests\<close>

definition valid_payload_id :: "string \<Rightarrow> bool" where
  "valid_payload_id value \<longleftrightarrow> valid_id 256 value"

definition valid_event_id :: "string \<Rightarrow> bool" where
  "valid_event_id value \<longleftrightarrow> valid_id 256 value"

text \<open>The match on an absent, null or present value that the optional fields share.\<close>

definition absent_or_null_or :: "json option \<Rightarrow> (json \<Rightarrow> bool) \<Rightarrow> bool" where
  "absent_or_null_or x P = (case x of None \<Rightarrow> True | Some Json_Null \<Rightarrow> True | Some value \<Rightarrow> P value)"

definition string_field :: "json option \<Rightarrow> (string \<Rightarrow> bool) \<Rightarrow> bool" where
  "string_field x P = is_some_and (Option.bind x as_str) P"

definition required_payload_id :: "json \<Rightarrow> string \<Rightarrow> bool" where
  "required_payload_id payload key = string_field (json_get payload key) valid_payload_id"

definition optional_payload_id :: "json \<Rightarrow> string \<Rightarrow> bool" where
  "optional_payload_id payload key =
     absent_or_null_or (json_get payload key) (\<lambda>value. is_some_and (as_str value) valid_payload_id)"

definition required_payload_id_array :: "json \<Rightarrow> string \<Rightarrow> nat \<Rightarrow> nat \<Rightarrow> bool" where
  "required_payload_id_array payload key min_len max_len =
     is_some_and (Option.bind (json_get payload key) as_array) (\<lambda>values.
       min_len \<le> length values \<and> length values \<le> max_len \<and>
       list_all (\<lambda>value. is_some_and (as_str value) valid_payload_id) values)"

definition top_level_item :: "json \<Rightarrow> bool" where
  "top_level_item item =
     is_some_and (as_object item) (\<lambda>object.
       string_field (map_of object ''remoteId'') valid_payload_id \<and>
       string_field (map_of object ''type'') (\<lambda>value. value = ''channel'' \<or> value = ''category''))"

definition category_entry :: "string \<times> json \<Rightarrow> bool" where
  "category_entry e =
     (case e of (category_id, channel_ids) \<Rightarrow>
        valid_payload_id category_id \<and>
        is_some_and (as_array channel_ids) (\<lambda>ids.
          length ids \<le> 500 \<and> list_all (\<lambda>id. is_some_and (as_str id) valid_payload_id) ids))"

definition channel_reorder_items :: "json \<Rightarrow> bool" where
  "channel_reorder_items payload =
     (let top_level_valid = is_some_and (Option.bind (json_get payload ''topLevel'') as_array) (\<lambda>items.
            length items \<le> 1000 \<and> list_all top_level_item items);
          categories_valid = is_some_and (Option.bind (json_get payload ''categories'') as_object) (\<lambda>categories.
            length categories \<le> 250 \<and> list_all category_entry categories)
      in top_level_valid \<and> categories_valid)"

definition role_reorder_item :: "json \<Rightarrow> bool" where
  "role_reorder_item item =
     is_some_and (as_object item) (\<lambda>object.
       string_field (map_of object ''remoteRoleId'') valid_payload_id \<and>
       is_none_or (map_of object ''position'') (\<lambda>value. is_some_and (as_i64 value) (\<lambda>v. 0 \<le> v)) \<and>
       is_none_or (map_of object ''colorPriority'')
         (\<lambda>value. is_some_and (as_i64 value) (\<lambda>v. 0 \<le> v \<and> v \<le> 10000)) \<and>
       (map_of object ''position'' \<noteq> None \<or> map_of object ''colorPriority'' \<noteq> None))"

definition role_reorder_items :: "json \<Rightarrow> bool" where
  "role_reorder_items payload =
     is_some_and (Option.bind (json_get payload ''items'') as_array) (\<lambda>items.
       1 \<le> length items \<and> length items \<le> 250 \<and> list_all role_reorder_item items)"

definition required_content :: "json \<Rightarrow> string \<Rightarrow> nat \<Rightarrow> bool" where
  "required_content payload key max_chars =
     string_field (json_get payload key) (\<lambda>value. value \<noteq> [] \<and> chars_count value \<le> max_chars)"

definition optional_short_string :: "json \<Rightarrow> string \<Rightarrow> nat \<Rightarrow> bool" where
  "optional_short_string payload key max_chars =
     absent_or_null_or (json_get payload key)
       (\<lambda>value. is_some_and (as_str value) (\<lambda>value. chars_count value \<le> max_chars))"

definition optional_short_nonempty_string :: "json \<Rightarrow> string \<Rightarrow> nat \<Rightarrow> bool" where
  "optional_short_nonempty_string payload key max_chars =
     absent_or_null_or (json_get payload key)
       (\<lambda>value. is_some_and (as_str value) (\<lambda>value. value \<noteq> [] \<and> chars_count value \<le> max_chars))"

definition optional_bool :: "json \<Rightarrow> string \<Rightarrow> bool" where
  "optional_bool payload key = absent_or_null_or (json_get payload key) is_boolean"

definition i32_max :: int where "i32_max = 2 ^ 31 - 1"

definition optional_i32 :: "json \<Rightarrow> string \<Rightarrow> int \<Rightarrow> int \<Rightarrow> bool" where
  "optional_i32 payload key lo hi =
     absent_or_null_or (json_get payload key)
       (\<lambda>value. is_some_and (as_i64 value) (\<lambda>value. lo \<le> value \<and> value \<le> hi))"

definition optional_integer_string :: "json \<Rightarrow> string \<Rightarrow> bool" where
  "optional_integer_string payload key =
     absent_or_null_or (json_get payload key)
       (\<lambda>value. is_some_and (as_str value)
          (\<lambda>value. value \<noteq> [] \<and> length value \<le> 20 \<and> parse_i64 value \<noteq> None))"

definition color_string :: "string \<Rightarrow> bool" where
  "color_string value =
     (let hex = (case strip_prefix ''#'' value of Some r \<Rightarrow> r | None \<Rightarrow> value)
      in length hex = 6 \<and> list_all ascii_hexdigit hex)"

definition optional_color_string :: "json \<Rightarrow> string \<Rightarrow> bool" where
  "optional_color_string payload key =
     absent_or_null_or (json_get payload key) (\<lambda>value. is_some_and (as_str value) color_string)"

definition optional_url_string :: "'a url_env_scheme \<Rightarrow> json \<Rightarrow> string \<Rightarrow> bool" where
  "optional_url_string env payload key =
     absent_or_null_or (json_get payload key)
       (\<lambda>value. is_some_and (as_str value) (is_safe_public_profile_url env))"

section \<open>Allowed fields\<close>

primrec allowed_payload_fields :: "event_kind \<Rightarrow> string list" where
  "allowed_payload_fields InvitePreview = [''serverId'', ''inviteCode'', ''inviteCodeHash'']"
| "allowed_payload_fields PrincipalUpsert = [''remoteUserId'', ''username'', ''displayName'', ''avatarUrl'']"
| "allowed_payload_fields MembershipJoin =
     [''serverId'', ''remoteUserId'',
      ''inviteCode'', ''inviteCodeHash'']"
| "allowed_payload_fields MembershipLeave = [''serverId'', ''remoteUserId'', ''reason'']"
| "allowed_payload_fields MembershipRemove = [''serverId'', ''remoteUserId'', ''targetUserId'', ''reason'']"
| "allowed_payload_fields MembershipBan = [''serverId'', ''remoteUserId'', ''targetUserId'', ''reason'']"
| "allowed_payload_fields MembershipUnban = [''serverId'', ''remoteUserId'', ''targetUserId'']"
| "allowed_payload_fields RoleCreate =
     [''serverId'', ''remoteUserId'', ''remoteRoleId'', ''name'', ''color'',
      ''permissions'', ''colorOnly'', ''showAsSection'', ''colorPriority'']"
| "allowed_payload_fields RoleUpdate =
     [''serverId'', ''remoteUserId'', ''remoteRoleId'', ''name'', ''color'',
      ''permissions'', ''position'', ''showAsSection'', ''colorPriority'']"
| "allowed_payload_fields RoleDelete = [''serverId'', ''remoteUserId'', ''remoteRoleId'']"
| "allowed_payload_fields RoleReorder = [''serverId'', ''remoteUserId'', ''items'']"
| "allowed_payload_fields CategoryCreate =
     [''serverId'', ''remoteUserId'', ''remoteCategoryId'',
      ''name'', ''emoji'']"
| "allowed_payload_fields CategoryUpdate =
     [''serverId'', ''remoteUserId'', ''remoteCategoryId'',
      ''name'', ''position'', ''emoji'']"
| "allowed_payload_fields CategoryDelete = [''serverId'', ''remoteUserId'', ''remoteCategoryId'']"
| "allowed_payload_fields ChannelCreate =
     [''serverId'', ''remoteUserId'', ''remoteChannelId'', ''name'', ''topic'',
      ''type'', ''remoteCategoryId'', ''readOnly'', ''slowmodeSeconds'']"
| "allowed_payload_fields ChannelUpdate =
     [''serverId'', ''remoteUserId'', ''remoteChannelId'', ''name'', ''topic'',
      ''position'', ''remoteCategoryId'', ''readOnly'', ''slowmodeSeconds'']"
| "allowed_payload_fields ChannelDelete = [''serverId'', ''remoteUserId'', ''remoteChannelId'']"
| "allowed_payload_fields ChannelReorder = [''serverId'', ''remoteUserId'', ''topLevel'', ''categories'']"
| "allowed_payload_fields ChannelOverrideSet =
     [''serverId'', ''remoteUserId'', ''remoteChannelId'',
      ''roleId'', ''allow'', ''deny'']"
| "allowed_payload_fields ChannelOverrideDelete =
     [''serverId'', ''remoteUserId'',
      ''remoteChannelId'', ''roleId'']"
| "allowed_payload_fields MemberRoleAssign = [''serverId'', ''remoteUserId'', ''targetUserId'', ''roleId'']"
| "allowed_payload_fields MemberRoleRemove = [''serverId'', ''remoteUserId'', ''targetUserId'', ''roleId'']"
| "allowed_payload_fields EmojiRename = [''serverId'', ''remoteUserId'', ''emojiId'', ''name'']"
| "allowed_payload_fields EmojiDelete = [''serverId'', ''remoteUserId'', ''emojiId'']"
| "allowed_payload_fields MessageCreate =
     [''serverId'', ''channelId'', ''remoteMessageId'', ''remoteUserId'',
      ''content'', ''nonce'', ''replyToRemoteMessageId'']"
| "allowed_payload_fields MessageUpdate =
     [''channelId'', ''remoteMessageId'',
      ''remoteUserId'', ''content'']"
| "allowed_payload_fields MessageDelete = [''channelId'', ''remoteMessageId'', ''remoteUserId'']"
| "allowed_payload_fields MessagePin = [''channelId'', ''remoteMessageId'', ''remoteUserId'']"
| "allowed_payload_fields MessageUnpin = [''channelId'', ''remoteMessageId'', ''remoteUserId'']"
| "allowed_payload_fields ReactionAdd =
     [''channelId'', ''remoteMessageId'', ''remoteUserId'',
      ''emoji'', ''emojiId'']"
| "allowed_payload_fields ReactionRemove =
     [''channelId'', ''remoteMessageId'', ''remoteUserId'',
      ''emoji'', ''emojiId'']"
| "allowed_payload_fields RelationshipRequest = [''remoteUserId'', ''localUserId'']"
| "allowed_payload_fields RelationshipAccept = [''remoteUserId'', ''localUserId'']"
| "allowed_payload_fields RelationshipRemove = [''remoteUserId'', ''localUserId'']"
| "allowed_payload_fields RelationshipBlock = [''remoteUserId'', ''localUserId'']"
| "allowed_payload_fields PresenceUpdate = [''remoteUserId'', ''status'']"
| "allowed_payload_fields TypingStart = [''channelId'', ''remoteUserId'']"
| "allowed_payload_fields ReadStateUpdate = [''channelId'', ''remoteMessageId'', ''remoteUserId'']"
| "allowed_payload_fields DmCreate = [''dmId'', ''remoteUserId'', ''localUserId'']"
| "allowed_payload_fields DmGroupCreate = [''dmId'', ''remoteUserId'', ''localUserIds'', ''name'']"

definition payload_has_only_allowed_fields :: "event_kind \<Rightarrow> json \<Rightarrow> bool" where
  "payload_has_only_allowed_fields kind payload =
     (case as_object payload of
        None \<Rightarrow> False
      | Some object \<Rightarrow>
          list_all (\<lambda>key. list_ex (\<lambda>allowed_key. key = allowed_key) (allowed_payload_fields kind)) (map fst object))"

section \<open>Payloads\<close>

primrec payload_valid :: "'a url_env_scheme \<Rightarrow> event_kind \<Rightarrow> json \<Rightarrow> bool" where
  "payload_valid env InvitePreview payload = True"
| "payload_valid env PrincipalUpsert payload =
     (required_payload_id payload ''remoteUserId'' \<and>
      optional_short_string payload ''username'' 120 \<and>
      optional_short_string payload ''displayName'' 120 \<and>
      optional_url_string env payload ''avatarUrl'')"
| "payload_valid env MembershipJoin payload =
     (required_payload_id payload ''serverId'' \<and>
      required_payload_id payload ''remoteUserId'' \<and>
      optional_short_string payload ''inviteCode'' 256 \<and>
      optional_short_string payload ''inviteCodeHash'' 256)"
| "payload_valid env MembershipLeave payload =
     (required_payload_id payload ''serverId'' \<and>
      required_payload_id payload ''remoteUserId'' \<and>
      optional_short_string payload ''reason'' 128)"
| "payload_valid env MembershipRemove payload =
     (required_payload_id payload ''serverId'' \<and>
      required_payload_id payload ''remoteUserId'' \<and>
      required_payload_id payload ''targetUserId'' \<and>
      optional_short_string payload ''reason'' 512)"
| "payload_valid env MembershipBan payload =
     (required_payload_id payload ''serverId'' \<and>
      required_payload_id payload ''remoteUserId'' \<and>
      required_payload_id payload ''targetUserId'' \<and>
      optional_short_string payload ''reason'' 512)"
| "payload_valid env MembershipUnban payload =
     (required_payload_id payload ''serverId'' \<and>
      required_payload_id payload ''remoteUserId'' \<and>
      required_payload_id payload ''targetUserId'')"
| "payload_valid env RoleCreate payload =
     (required_payload_id payload ''serverId'' \<and>
      required_payload_id payload ''remoteUserId'' \<and>
      required_payload_id payload ''remoteRoleId'' \<and>
      required_content payload ''name'' 100 \<and>
      optional_color_string payload ''color'' \<and>
      optional_integer_string payload ''permissions'' \<and>
      optional_bool payload ''colorOnly'' \<and>
      optional_bool payload ''showAsSection'' \<and>
      optional_i32 payload ''colorPriority'' 0 10000)"
| "payload_valid env RoleUpdate payload =
     (required_payload_id payload ''serverId'' \<and>
      required_payload_id payload ''remoteUserId'' \<and>
      required_payload_id payload ''remoteRoleId'' \<and>
      optional_short_nonempty_string payload ''name'' 100 \<and>
      optional_color_string payload ''color'' \<and>
      optional_integer_string payload ''permissions'' \<and>
      optional_i32 payload ''position'' 0 i32_max \<and>
      optional_bool payload ''showAsSection'' \<and>
      optional_i32 payload ''colorPriority'' 0 10000)"
| "payload_valid env RoleDelete payload =
     (required_payload_id payload ''serverId'' \<and>
      required_payload_id payload ''remoteUserId'' \<and>
      required_payload_id payload ''remoteRoleId'')"
| "payload_valid env RoleReorder payload =
     (required_payload_id payload ''serverId'' \<and>
      required_payload_id payload ''remoteUserId'' \<and>
      role_reorder_items payload)"
| "payload_valid env CategoryCreate payload =
     (required_payload_id payload ''serverId'' \<and>
      required_payload_id payload ''remoteUserId'' \<and>
      required_payload_id payload ''remoteCategoryId'' \<and>
      required_content payload ''name'' 100 \<and>
      optional_short_string payload ''emoji'' 32)"
| "payload_valid env CategoryUpdate payload =
     (required_payload_id payload ''serverId'' \<and>
      required_payload_id payload ''remoteUserId'' \<and>
      required_payload_id payload ''remoteCategoryId'' \<and>
      optional_short_nonempty_string payload ''name'' 100 \<and>
      optional_i32 payload ''position'' 0 i32_max \<and>
      optional_short_string payload ''emoji'' 32)"
| "payload_valid env CategoryDelete payload =
     (required_payload_id payload ''serverId'' \<and>
      required_payload_id payload ''remoteUserId'' \<and>
      required_payload_id payload ''remoteCategoryId'')"
| "payload_valid env ChannelCreate payload =
     (required_payload_id payload ''serverId'' \<and>
      required_payload_id payload ''remoteUserId'' \<and>
      required_payload_id payload ''remoteChannelId'' \<and>
      required_content payload ''name'' 100 \<and>
      optional_short_string payload ''topic'' 1024 \<and>
      string_field (json_get payload ''type'') (\<lambda>value. value = ''text'') \<and>
      optional_payload_id payload ''remoteCategoryId'' \<and>
      optional_bool payload ''readOnly'' \<and>
      optional_i32 payload ''slowmodeSeconds'' 0 21600)"
| "payload_valid env ChannelUpdate payload =
     (required_payload_id payload ''serverId'' \<and>
      required_payload_id payload ''remoteUserId'' \<and>
      required_payload_id payload ''remoteChannelId'' \<and>
      optional_short_nonempty_string payload ''name'' 100 \<and>
      optional_short_string payload ''topic'' 1024 \<and>
      optional_i32 payload ''position'' 0 i32_max \<and>
      optional_payload_id payload ''remoteCategoryId'' \<and>
      optional_bool payload ''readOnly'' \<and>
      optional_i32 payload ''slowmodeSeconds'' 0 21600)"
| "payload_valid env ChannelDelete payload =
     (required_payload_id payload ''serverId'' \<and>
      required_payload_id payload ''remoteUserId'' \<and>
      required_payload_id payload ''remoteChannelId'')"
| "payload_valid env ChannelReorder payload =
     (required_payload_id payload ''serverId'' \<and>
      required_payload_id payload ''remoteUserId'' \<and>
      channel_reorder_items payload)"
| "payload_valid env ChannelOverrideSet payload =
     (required_payload_id payload ''serverId'' \<and>
      required_payload_id payload ''remoteUserId'' \<and>
      required_payload_id payload ''remoteChannelId'' \<and>
      required_payload_id payload ''roleId'' \<and>
      optional_integer_string payload ''allow'' \<and>
      optional_integer_string payload ''deny'')"
| "payload_valid env ChannelOverrideDelete payload =
     (required_payload_id payload ''serverId'' \<and>
      required_payload_id payload ''remoteUserId'' \<and>
      required_payload_id payload ''remoteChannelId'' \<and>
      required_payload_id payload ''roleId'')"
| "payload_valid env MemberRoleAssign payload =
     (required_payload_id payload ''serverId'' \<and>
      required_payload_id payload ''remoteUserId'' \<and>
      required_payload_id payload ''targetUserId'' \<and>
      required_payload_id payload ''roleId'')"
| "payload_valid env MemberRoleRemove payload =
     (required_payload_id payload ''serverId'' \<and>
      required_payload_id payload ''remoteUserId'' \<and>
      required_payload_id payload ''targetUserId'' \<and>
      required_payload_id payload ''roleId'')"
| "payload_valid env EmojiRename payload =
     (required_payload_id payload ''serverId'' \<and>
      required_payload_id payload ''remoteUserId'' \<and>
      required_payload_id payload ''emojiId'' \<and>
      required_content payload ''name'' 32)"
| "payload_valid env EmojiDelete payload =
     (required_payload_id payload ''serverId'' \<and>
      required_payload_id payload ''remoteUserId'' \<and>
      required_payload_id payload ''emojiId'')"
| "payload_valid env MessageCreate payload =
     (optional_payload_id payload ''serverId'' \<and>
      required_payload_id payload ''channelId'' \<and>
      required_payload_id payload ''remoteMessageId'' \<and>
      required_payload_id payload ''remoteUserId'' \<and>
      required_content payload ''content'' 4000 \<and>
      optional_short_string payload ''nonce'' 128 \<and>
      optional_payload_id payload ''replyToRemoteMessageId'')"
| "payload_valid env MessageUpdate payload =
     (required_payload_id payload ''channelId'' \<and>
      required_payload_id payload ''remoteMessageId'' \<and>
      required_payload_id payload ''remoteUserId'' \<and>
      required_content payload ''content'' 4000)"
| "payload_valid env MessageDelete payload =
     (required_payload_id payload ''channelId'' \<and>
      required_payload_id payload ''remoteMessageId'' \<and>
      required_payload_id payload ''remoteUserId'')"
| "payload_valid env MessagePin payload =
     (required_payload_id payload ''channelId'' \<and>
      required_payload_id payload ''remoteMessageId'' \<and>
      required_payload_id payload ''remoteUserId'')"
| "payload_valid env MessageUnpin payload =
     (required_payload_id payload ''channelId'' \<and>
      required_payload_id payload ''remoteMessageId'' \<and>
      required_payload_id payload ''remoteUserId'')"
| "payload_valid env ReactionAdd payload =
     (required_payload_id payload ''channelId'' \<and>
      required_payload_id payload ''remoteMessageId'' \<and>
      required_payload_id payload ''remoteUserId'' \<and>
      required_content payload ''emoji'' 64 \<and>
      optional_payload_id payload ''emojiId'')"
| "payload_valid env ReactionRemove payload =
     (required_payload_id payload ''channelId'' \<and>
      required_payload_id payload ''remoteMessageId'' \<and>
      required_payload_id payload ''remoteUserId'' \<and>
      required_content payload ''emoji'' 64 \<and>
      optional_payload_id payload ''emojiId'')"
| "payload_valid env RelationshipRequest payload =
     (required_payload_id payload ''remoteUserId'' \<and>
      required_payload_id payload ''localUserId'')"
| "payload_valid env RelationshipAccept payload =
     (required_payload_id payload ''remoteUserId'' \<and>
      required_payload_id payload ''localUserId'')"
| "payload_valid env RelationshipRemove payload =
     (required_payload_id payload ''remoteUserId'' \<and>
      required_payload_id payload ''localUserId'')"
| "payload_valid env RelationshipBlock payload =
     (required_payload_id payload ''remoteUserId'' \<and>
      required_payload_id payload ''localUserId'')"
| "payload_valid env PresenceUpdate payload =
     (required_payload_id payload ''remoteUserId'' \<and>
      string_field (json_get payload ''status'') (\<lambda>value. value = ''online'' \<or> value = ''idle'' \<or> value = ''dnd'' \<or> value = ''offline''))"
| "payload_valid env TypingStart payload =
     (required_payload_id payload ''channelId'' \<and>
      required_payload_id payload ''remoteUserId'')"
| "payload_valid env ReadStateUpdate payload =
     (required_payload_id payload ''channelId'' \<and>
      required_payload_id payload ''remoteMessageId'' \<and>
      required_payload_id payload ''remoteUserId'')"
| "payload_valid env DmCreate payload =
     (required_payload_id payload ''dmId'' \<and>
      required_payload_id payload ''remoteUserId'' \<and>
      required_payload_id payload ''localUserId'')"
| "payload_valid env DmGroupCreate payload =
     (required_payload_id payload ''dmId'' \<and>
      required_payload_id payload ''remoteUserId'' \<and>
      required_payload_id_array payload ''localUserIds'' 2 9 \<and>
      optional_short_string payload ''name'' 120)"

definition validate_payload :: "'a url_env_scheme \<Rightarrow> event_kind \<Rightarrow> json \<Rightarrow> protocol_error + unit" where
  "validate_payload env kind payload =
     (if \<not> payload_has_only_allowed_fields kind payload then Inl InvalidPayload
      else if payload_valid env kind payload then Inr () else Inl InvalidPayload)"

section \<open>Envelopes\<close>

record raw_envelope =
  raw_protocol_version :: int
  raw_event_id :: string
  raw_kind :: string
  raw_source_peer_id :: string
  raw_destination_peer_id :: string
  raw_sent_at_ms :: int
  raw_payload :: json

record envelope =
  env_protocol_version :: int
  env_event_id :: string
  env_kind :: event_kind
  env_source_peer_id :: string
  env_destination_peer_id :: string
  env_sent_at_ms :: int
  env_payload :: json

record protocol_env = url_env +
  parse_raw :: "string \<Rightarrow> raw_envelope option"

definition envelope_from_json :: "'a protocol_env_scheme \<Rightarrow> string \<Rightarrow> protocol_error + envelope" where
  "envelope_from_json env bytes =
     (case parse_raw env bytes of
        None \<Rightarrow> Inl MalformedJson
      | Some raw \<Rightarrow>
          if raw_protocol_version raw \<noteq> 1 then Inl UnsupportedVersion
          else case parse_event_kind (raw_kind raw) of
            Inl e \<Rightarrow> Inl e
          | Inr kind \<Rightarrow>
              if \<not> valid_event_id (raw_event_id raw) \<or> \<not> valid_peer_id (raw_source_peer_id raw)
                \<or> \<not> valid_peer_id (raw_destination_peer_id raw) \<or> raw_sent_at_ms raw \<le> 0
                \<or> \<not> is_object (raw_payload raw) then Inl InvalidEnvelope
              else case validate_payload env kind (raw_payload raw) of
                Inl e \<Rightarrow> Inl e
              | Inr _ \<Rightarrow>
                  Inr \<lparr>env_protocol_version = raw_protocol_version raw, env_event_id = raw_event_id raw,
                       env_kind = kind, env_source_peer_id = raw_source_peer_id raw,
                       env_destination_peer_id = raw_destination_peer_id raw,
                       env_sent_at_ms = raw_sent_at_ms raw, env_payload = raw_payload raw\<rparr>)"

end
