(* ===== verification/Fed_Schema.thy ===== *)
theory Fed_Schema
  imports Fed_Protocol
begin

text \<open>
  The contract of the envelope parser: a schema of typed fields per event kind, and the proof
  that the parser's field table and validators (\<open>src/server-rs/src/federation/protocol.rs\<close>)
  accept exactly the payloads of their kind's schema.
\<close>

section \<open>Schemas\<close>

datatype field_type =
    Any_Field
  | Id_Field
  | Text_Field nat nat
  | Bool_Field
  | Int_Field int int
  | Int_String
  | Color_Field
  | Url_Field
  | One_Of "string list"
  | Id_List nat nat
  | Role_Items
  | Top_Level_Items
  | Category_Map

record field =
  field_name :: string
  field_required :: bool
  field_type :: field_type

abbreviation must :: "string \<Rightarrow> field_type \<Rightarrow> field" where
  "must n t \<equiv> \<lparr>field_name = n, field_required = True, field_type = t\<rparr>"

abbreviation may :: "string \<Rightarrow> field_type \<Rightarrow> field" where
  "may n t \<equiv> \<lparr>field_name = n, field_required = False, field_type = t\<rparr>"

definition is_id :: "json \<Rightarrow> bool" where
  "is_id v = is_some_and (as_str v) valid_payload_id"

primrec has_type :: "'a url_env_scheme \<Rightarrow> field_type \<Rightarrow> json \<Rightarrow> bool" where
  "has_type env Any_Field v = True"
| "has_type env Id_Field v = is_id v"
| "has_type env (Text_Field lo hi) v = is_some_and (as_str v) (\<lambda>s. lo \<le> length s \<and> chars_count s \<le> hi)"
| "has_type env Bool_Field v = is_boolean v"
| "has_type env (Int_Field lo hi) v = is_some_and (as_i64 v) (\<lambda>i. lo \<le> i \<and> i \<le> hi)"
| "has_type env Int_String v = is_some_and (as_str v) (\<lambda>s. s \<noteq> [] \<and> length s \<le> 20 \<and> parse_i64 s \<noteq> None)"
| "has_type env Color_Field v = is_some_and (as_str v) color_string"
| "has_type env Url_Field v = is_some_and (as_str v) (is_safe_public_profile_url env)"
| "has_type env (One_Of ss) v = is_some_and (as_str v) (\<lambda>s. s \<in> set ss)"
| "has_type env (Id_List lo hi) v =
     is_some_and (as_array v) (\<lambda>vs. lo \<le> length vs \<and> length vs \<le> hi \<and> list_all is_id vs)"
| "has_type env Role_Items v =
     is_some_and (as_array v) (\<lambda>vs. 1 \<le> length vs \<and> length vs \<le> 250 \<and> list_all role_reorder_item vs)"
| "has_type env Top_Level_Items v =
     is_some_and (as_array v) (\<lambda>vs. length vs \<le> 1000 \<and> list_all top_level_item vs)"
| "has_type env Category_Map v =
     is_some_and (as_object v) (\<lambda>m. length m \<le> 250 \<and> list_all category_entry m)"

primrec payload_schema :: "event_kind \<Rightarrow> field list" where
  "payload_schema InvitePreview =
     [may ''serverId'' Any_Field, may ''inviteCode'' Any_Field, may ''inviteCodeHash'' Any_Field]"
| "payload_schema PrincipalUpsert =
     [must ''remoteUserId'' Id_Field, may ''username'' (Text_Field 0 120),
      may ''displayName'' (Text_Field 0 120), may ''avatarUrl'' Url_Field]"
| "payload_schema MembershipJoin =
     [must ''serverId'' Id_Field, must ''remoteUserId'' Id_Field, may ''inviteCode'' (Text_Field 0 256),
      may ''inviteCodeHash'' (Text_Field 0 256)]"
| "payload_schema MembershipLeave =
     [must ''serverId'' Id_Field, must ''remoteUserId'' Id_Field, may ''reason'' (Text_Field 0 128)]"
| "payload_schema MembershipRemove =
     [must ''serverId'' Id_Field, must ''remoteUserId'' Id_Field, must ''targetUserId'' Id_Field,
      may ''reason'' (Text_Field 0 512)]"
| "payload_schema MembershipBan =
     [must ''serverId'' Id_Field, must ''remoteUserId'' Id_Field, must ''targetUserId'' Id_Field,
      may ''reason'' (Text_Field 0 512)]"
| "payload_schema MembershipUnban =
     [must ''serverId'' Id_Field, must ''remoteUserId'' Id_Field, must ''targetUserId'' Id_Field]"
| "payload_schema RoleCreate =
     [must ''serverId'' Id_Field, must ''remoteUserId'' Id_Field, must ''remoteRoleId'' Id_Field,
      must ''name'' (Text_Field 1 100), may ''color'' Color_Field, may ''permissions'' Int_String,
      may ''colorOnly'' Bool_Field, may ''showAsSection'' Bool_Field,
      may ''colorPriority'' (Int_Field 0 10000)]"
| "payload_schema RoleUpdate =
     [must ''serverId'' Id_Field, must ''remoteUserId'' Id_Field, must ''remoteRoleId'' Id_Field,
      may ''name'' (Text_Field 1 100), may ''color'' Color_Field, may ''permissions'' Int_String,
      may ''position'' (Int_Field 0 i32_max), may ''showAsSection'' Bool_Field,
      may ''colorPriority'' (Int_Field 0 10000)]"
| "payload_schema RoleDelete =
     [must ''serverId'' Id_Field, must ''remoteUserId'' Id_Field, must ''remoteRoleId'' Id_Field]"
| "payload_schema RoleReorder =
     [must ''serverId'' Id_Field, must ''remoteUserId'' Id_Field, must ''items'' Role_Items]"
| "payload_schema CategoryCreate =
     [must ''serverId'' Id_Field, must ''remoteUserId'' Id_Field, must ''remoteCategoryId'' Id_Field,
      must ''name'' (Text_Field 1 100), may ''emoji'' (Text_Field 0 32)]"
| "payload_schema CategoryUpdate =
     [must ''serverId'' Id_Field, must ''remoteUserId'' Id_Field, must ''remoteCategoryId'' Id_Field,
      may ''name'' (Text_Field 1 100), may ''position'' (Int_Field 0 i32_max),
      may ''emoji'' (Text_Field 0 32)]"
| "payload_schema CategoryDelete =
     [must ''serverId'' Id_Field, must ''remoteUserId'' Id_Field, must ''remoteCategoryId'' Id_Field]"
| "payload_schema ChannelCreate =
     [must ''serverId'' Id_Field, must ''remoteUserId'' Id_Field, must ''remoteChannelId'' Id_Field,
      must ''name'' (Text_Field 1 100), may ''topic'' (Text_Field 0 1024),
      must ''type'' (One_Of [''text'']), may ''remoteCategoryId'' Id_Field, may ''readOnly'' Bool_Field,
      may ''slowmodeSeconds'' (Int_Field 0 21600)]"
| "payload_schema ChannelUpdate =
     [must ''serverId'' Id_Field, must ''remoteUserId'' Id_Field, must ''remoteChannelId'' Id_Field,
      may ''name'' (Text_Field 1 100), may ''topic'' (Text_Field 0 1024),
      may ''position'' (Int_Field 0 i32_max), may ''remoteCategoryId'' Id_Field,
      may ''readOnly'' Bool_Field, may ''slowmodeSeconds'' (Int_Field 0 21600)]"
| "payload_schema ChannelDelete =
     [must ''serverId'' Id_Field, must ''remoteUserId'' Id_Field, must ''remoteChannelId'' Id_Field]"
| "payload_schema ChannelReorder =
     [must ''serverId'' Id_Field, must ''remoteUserId'' Id_Field, must ''topLevel'' Top_Level_Items,
      must ''categories'' Category_Map]"
| "payload_schema ChannelOverrideSet =
     [must ''serverId'' Id_Field, must ''remoteUserId'' Id_Field, must ''remoteChannelId'' Id_Field,
      must ''roleId'' Id_Field, may ''allow'' Int_String, may ''deny'' Int_String]"
| "payload_schema ChannelOverrideDelete =
     [must ''serverId'' Id_Field, must ''remoteUserId'' Id_Field, must ''remoteChannelId'' Id_Field,
      must ''roleId'' Id_Field]"
| "payload_schema MemberRoleAssign =
     [must ''serverId'' Id_Field, must ''remoteUserId'' Id_Field, must ''targetUserId'' Id_Field,
      must ''roleId'' Id_Field]"
| "payload_schema MemberRoleRemove =
     [must ''serverId'' Id_Field, must ''remoteUserId'' Id_Field, must ''targetUserId'' Id_Field,
      must ''roleId'' Id_Field]"
| "payload_schema EmojiRename =
     [must ''serverId'' Id_Field, must ''remoteUserId'' Id_Field, must ''emojiId'' Id_Field,
      must ''name'' (Text_Field 1 32)]"
| "payload_schema EmojiDelete =
     [must ''serverId'' Id_Field, must ''remoteUserId'' Id_Field, must ''emojiId'' Id_Field]"
| "payload_schema MessageCreate =
     [may ''serverId'' Id_Field, must ''channelId'' Id_Field, must ''remoteMessageId'' Id_Field,
      must ''remoteUserId'' Id_Field, must ''content'' (Text_Field 1 4000),
      may ''nonce'' (Text_Field 0 128), may ''replyToRemoteMessageId'' Id_Field]"
| "payload_schema MessageUpdate =
     [must ''channelId'' Id_Field, must ''remoteMessageId'' Id_Field, must ''remoteUserId'' Id_Field,
      must ''content'' (Text_Field 1 4000)]"
| "payload_schema MessageDelete =
     [must ''channelId'' Id_Field, must ''remoteMessageId'' Id_Field, must ''remoteUserId'' Id_Field]"
| "payload_schema MessagePin =
     [must ''channelId'' Id_Field, must ''remoteMessageId'' Id_Field, must ''remoteUserId'' Id_Field]"
| "payload_schema MessageUnpin =
     [must ''channelId'' Id_Field, must ''remoteMessageId'' Id_Field, must ''remoteUserId'' Id_Field]"
| "payload_schema ReactionAdd =
     [must ''channelId'' Id_Field, must ''remoteMessageId'' Id_Field, must ''remoteUserId'' Id_Field,
      must ''emoji'' (Text_Field 1 64), may ''emojiId'' Id_Field]"
| "payload_schema ReactionRemove =
     [must ''channelId'' Id_Field, must ''remoteMessageId'' Id_Field, must ''remoteUserId'' Id_Field,
      must ''emoji'' (Text_Field 1 64), may ''emojiId'' Id_Field]"
| "payload_schema RelationshipRequest = [must ''remoteUserId'' Id_Field, must ''localUserId'' Id_Field]"
| "payload_schema RelationshipAccept = [must ''remoteUserId'' Id_Field, must ''localUserId'' Id_Field]"
| "payload_schema RelationshipRemove = [must ''remoteUserId'' Id_Field, must ''localUserId'' Id_Field]"
| "payload_schema RelationshipBlock = [must ''remoteUserId'' Id_Field, must ''localUserId'' Id_Field]"
| "payload_schema PresenceUpdate =
     [must ''remoteUserId'' Id_Field,
      must ''status'' (One_Of [''online'', ''idle'', ''dnd'', ''offline''])]"
| "payload_schema TypingStart = [must ''channelId'' Id_Field, must ''remoteUserId'' Id_Field]"
| "payload_schema ReadStateUpdate =
     [must ''channelId'' Id_Field, must ''remoteMessageId'' Id_Field, must ''remoteUserId'' Id_Field]"
| "payload_schema DmCreate =
     [must ''dmId'' Id_Field, must ''remoteUserId'' Id_Field, must ''localUserId'' Id_Field]"
| "payload_schema DmGroupCreate =
     [must ''dmId'' Id_Field, must ''remoteUserId'' Id_Field, must ''localUserIds'' (Id_List 2 9),
      may ''name'' (Text_Field 0 120)]"

text \<open>A field is absent (if optional), null (if optional) or of its type.\<close>

definition field_ok :: "'a url_env_scheme \<Rightarrow> (string \<times> json) list \<Rightarrow> field \<Rightarrow> bool" where
  "field_ok env m f \<longleftrightarrow>
     (case map_of m (field_name f) of
        None \<Rightarrow> \<not> field_required f
      | Some v \<Rightarrow> \<not> field_required f \<and> v = Json_Null \<or> has_type env (field_type f) v)"

definition conforms :: "'a url_env_scheme \<Rightarrow> field list \<Rightarrow> json \<Rightarrow> bool" where
  "conforms env fs v \<longleftrightarrow>
     (case v of
        Json_Object m \<Rightarrow> fst ` set m \<subseteq> field_name ` set fs \<and> list_all (field_ok env m) fs
      | _ \<Rightarrow> False)"

section \<open>Validators as field types\<close>

lemma absent_or_null_or_field:
  "P Json_Null \<Longrightarrow> absent_or_null_or x P = (case x of None \<Rightarrow> True | Some v \<Rightarrow> P v)"
  "\<not> P Json_Null \<Longrightarrow> absent_or_null_or x P = (case x of None \<Rightarrow> True | Some v \<Rightarrow> v = Json_Null \<or> P v)"
  by (auto simp: absent_or_null_or_def split: option.splits json.splits)

lemma string_field_iff: "string_field x P \<longleftrightarrow> (case x of None \<Rightarrow> False | Some v \<Rightarrow> is_some_and (as_str v) P)"
  by (cases x) (simp_all add: string_field_def)

named_theorems validator_field

lemma required_field [validator_field]:
  "required_payload_id (Json_Object m) k = field_ok env m (must k Id_Field)"
  "required_content (Json_Object m) k n = field_ok env m (must k (Text_Field 1 n))"
  "required_payload_id_array (Json_Object m) k lo hi = field_ok env m (must k (Id_List lo hi))"
  by (auto simp: required_payload_id_def required_content_def required_payload_id_array_def field_ok_def
      string_field_iff is_id_def [abs_def] Suc_le_eq split: option.splits)

lemma optional_field [validator_field]:
  "optional_payload_id (Json_Object m) k = field_ok env m (may k Id_Field)"
  "optional_short_string (Json_Object m) k n = field_ok env m (may k (Text_Field 0 n))"
  "optional_short_nonempty_string (Json_Object m) k n = field_ok env m (may k (Text_Field 1 n))"
  "optional_bool (Json_Object m) k = field_ok env m (may k Bool_Field)"
  "optional_i32 (Json_Object m) k lo hi = field_ok env m (may k (Int_Field lo hi))"
  "optional_integer_string (Json_Object m) k = field_ok env m (may k Int_String)"
  "optional_color_string (Json_Object m) k = field_ok env m (may k Color_Field)"
  "optional_url_string env (Json_Object m) k = field_ok env m (may k Url_Field)"
  by (auto simp: optional_payload_id_def optional_short_string_def optional_short_nonempty_string_def
      optional_bool_def optional_i32_def optional_integer_string_def optional_color_string_def
      optional_url_string_def absent_or_null_or_field field_ok_def is_id_def Suc_le_eq split: option.splits)

lemma items_field [validator_field]:
  "role_reorder_items (Json_Object m) = field_ok env m (must ''items'' Role_Items)"
  "channel_reorder_items (Json_Object m) \<longleftrightarrow>
     field_ok env m (must ''topLevel'' Top_Level_Items) \<and> field_ok env m (must ''categories'' Category_Map)"
  by (auto simp: role_reorder_items_def channel_reorder_items_def field_ok_def Let_def split: option.splits)

lemma choice_field [validator_field]:
  "string_field (map_of m k) (\<lambda>s. s = a) = field_ok env m (must k (One_Of [a]))"
  "string_field (map_of m k) (\<lambda>s. s = a \<or> s = b \<or> s = c \<or> s = d) = field_ok env m (must k (One_Of [a, b, c, d]))"
  by (auto simp: string_field_iff field_ok_def split: option.splits)

lemma any_field [simp]: "field_ok env m (may k Any_Field)"
  by (simp add: field_ok_def split: option.splits)

section \<open>The parser's tables implement the schemas\<close>

lemma allowed_fields_of_schema: "set (allowed_payload_fields kind) = field_name ` set (payload_schema kind)"
  by (cases kind) auto

lemma payload_valid_schema:
  "payload_valid env kind (Json_Object m) \<longleftrightarrow> list_all (field_ok env m) (payload_schema kind)"
  by (cases kind) (simp_all add: validator_field [where env = env])

lemma payload_fields_schema:
  "payload_has_only_allowed_fields kind (Json_Object m) \<longleftrightarrow>
     fst ` set m \<subseteq> field_name ` set (payload_schema kind)"
  by (auto simp: payload_has_only_allowed_fields_def list_all_iff list_ex_iff allowed_fields_of_schema [symmetric])

lemma validate_payload_schema:
  "validate_payload env kind v = Inr () \<longleftrightarrow> conforms env (payload_schema kind) v"
proof (cases v)
  case (Json_Object m)
  then show ?thesis
    by (simp add: validate_payload_def conforms_def payload_valid_schema payload_fields_schema)
qed (simp_all add: validate_payload_def conforms_def payload_has_only_allowed_fields_def)

lemma kind_table_exact: "map_of kind_table s = Some k \<longleftrightarrow> s = kind_as_str k"
proof
  assume "map_of kind_table s = Some k"
  then have "(s, k) \<in> set kind_table" by (rule map_of_SomeD)
  then show "s = kind_as_str k" by (auto simp: kind_table_def)
next
  assume s: "s = kind_as_str k"
  have "map_of kind_table (kind_as_str k) = Some k" by (induct k) code_simp+
  then show "map_of kind_table s = Some k" by (simp only: s)
qed

lemma parse_event_kind_Inr: "parse_event_kind s = Inr k \<longleftrightarrow> s = kind_as_str k"
  by (simp add: parse_event_kind_def kind_table_exact [symmetric] split: option.splits)

text \<open>
  The name of an event kind parses back to that kind, and every other string is refused: an
  event survives being written and read under exactly one name.
\<close>
lemma event_kind_round_trip:
  "(parse_event_kind s = Inr k \<longleftrightarrow> s = kind_as_str k) \<and>
   (parse_event_kind s = Inl UnknownEventKind \<longleftrightarrow> s \<notin> range kind_as_str)"
proof -
  have "parse_event_kind s = Inl UnknownEventKind \<longleftrightarrow> (\<forall>k. parse_event_kind s \<noteq> Inr k)"
    by (simp add: parse_event_kind_def split: option.splits)
  then show ?thesis by (auto simp: parse_event_kind_Inr)
qed

lemma accepted_payload_conforms:
  "envelope_from_json env bytes = Inr e \<Longrightarrow> conforms env (payload_schema (env_kind e)) (env_payload e)"
  by (auto simp: envelope_from_json_def validate_payload_schema [symmetric] split: option.splits if_splits sum.splits)

text \<open>
  C16. An envelope is accepted exactly when it decodes, has protocol version 1, a known kind,
  valid event and peer ids, a positive timestamp, and a payload that is an object of its kind's
  schema: no field outside the schema, every required field present, and every field of its
  type.
\<close>
theorem accepted_envelopes_are_typed:
  "envelope_from_json env bytes = Inr e \<longleftrightarrow>
     (\<exists>raw. parse_raw env bytes = Some raw \<and> raw_protocol_version raw = 1 \<and>
            raw_kind raw = kind_as_str (env_kind e) \<and> valid_event_id (raw_event_id raw) \<and>
            valid_peer_id (raw_source_peer_id raw) \<and> valid_peer_id (raw_destination_peer_id raw) \<and>
            0 < raw_sent_at_ms raw \<and>
            conforms env (payload_schema (env_kind e)) (raw_payload raw) \<and>
            e = \<lparr>env_protocol_version = 1, env_event_id = raw_event_id raw, env_kind = env_kind e,
                 env_source_peer_id = raw_source_peer_id raw,
                 env_destination_peer_id = raw_destination_peer_id raw,
                 env_sent_at_ms = raw_sent_at_ms raw, env_payload = raw_payload raw\<rparr>)"
  (is "?l \<longleftrightarrow> ?r")
proof -
  have obj: "is_object v" if "conforms u fs v" for u fs v
    using that by (cases v) (auto simp: conforms_def is_object_def)
  show ?thesis
  proof
    assume ?l
    then show ?r
      by (auto simp: envelope_from_json_def parse_event_kind_Inr validate_payload_schema [symmetric]
          split: option.splits if_splits sum.splits)
  next
    assume ?r
    then show ?l
      by (auto simp: envelope_from_json_def parse_event_kind_Inr [THEN iffD2, OF refl] obj
          validate_payload_schema [THEN iffD2])
  qed
qed

end
