(* ===== verification/Fed_Auth.thy ===== *)
theory Fed_Auth
  imports Decimal Fed_Identity
begin

text \<open>
  Signed requests between peers (\<open>src/server-rs/src/federation/auth.rs\<close>): the canonical text
  of a request, signing, header parsing, verification and the two stores a verifier consults.
  Ed25519, SHA-256, base64 and the validity tests of header values are parameters.
\<close>

section \<open>Parameters\<close>

record auth_env = digest_env +
  b64url_decode :: "string \<Rightarrow> string option"
  public_key_of :: "string \<Rightarrow> string"
  ed_sign :: "string \<Rightarrow> string \<Rightarrow> string"
  key_bytes_ok :: "string \<Rightarrow> bool"
  signature_bytes_ok :: "string \<Rightarrow> bool"
  ed_verify :: "string \<Rightarrow> string \<Rightarrow> string \<Rightarrow> bool"
  header_from_str :: "string \<Rightarrow> string option"
  header_to_str :: "string \<Rightarrow> string option"

type_synonym headers = "string \<rightharpoonup> string"

section \<open>Types\<close>

record peer_key =
  pk_peer_id :: string
  pk_key_id :: string
  pk_public_key :: string
  pk_valid_after_ms :: "int option"
  pk_valid_until_ms :: "int option"

record verified_request =
  vr_source_peer_id :: string
  vr_destination_peer_id :: string
  vr_key_id :: string
  vr_nonce :: string
  vr_timestamp_ms :: int
  vr_body_sha256 :: string

record request_identity =
  ri_source_peer_id :: string
  ri_key_id :: string

datatype sign_error = InvalidInput | InvalidHeaderValue

datatype verify_error =
    MissingHeader | MalformedHeader | UnsupportedAlgorithm | DestinationMismatch | BodyHashMismatch
  | TimestampOutsideWindow | Replay | UnknownPeerKey | KeyOutsideValidityWindow | InvalidSignature
  | ReplayStoreUnavailable

section \<open>Header names and validation\<close>

definition algorithm_v1 :: string where "algorithm_v1 = ''ed25519-v1''"
definition canonical_version :: string where "canonical_version = ''verdant-s2s-v1''"
definition default_max_timestamp_skew_ms :: int where "default_max_timestamp_skew_ms = 5 * 60 * 1000"

definition header_algorithm :: string where "header_algorithm = ''x-verdant-federation-algorithm''"
definition header_source :: string where "header_source = ''x-verdant-federation-source''"
definition header_destination :: string where "header_destination = ''x-verdant-federation-destination''"
definition header_key_id :: string where "header_key_id = ''x-verdant-federation-key-id''"
definition header_timestamp :: string where "header_timestamp = ''x-verdant-federation-timestamp-ms''"
definition header_nonce :: string where "header_nonce = ''x-verdant-federation-nonce''"
definition header_body_hash :: string where "header_body_hash = ''x-verdant-federation-content-sha256''"
definition header_signature :: string where "header_signature = ''x-verdant-federation-signature''"

definition validate_method :: "string \<Rightarrow> bool" where
  "validate_method value \<longleftrightarrow>
     value \<noteq> [] \<and> length value \<le> 16 \<and> list_all (\<lambda>c. ascii_upper_alpha c \<or> c = CHR ''-'') value"

definition validate_path_and_query :: "string \<Rightarrow> bool" where
  "validate_path_and_query value \<longleftrightarrow>
     starts_with value ''/'' \<and> length value \<le> 2048 \<and> CHR 0x0D \<notin> set value \<and> CHR 0x0A \<notin> set value"

definition validate_peer_id :: "string \<Rightarrow> bool" where
  "validate_peer_id value \<longleftrightarrow> valid_id 253 value"

definition validate_key_id :: "string \<Rightarrow> bool" where
  "validate_key_id value \<longleftrightarrow> valid_id 128 value"

definition nonce_char :: "char \<Rightarrow> bool" where
  "nonce_char c \<longleftrightarrow> ascii_alnum c \<or> c = CHR ''.'' \<or> c = CHR ''-'' \<or> c = CHR ''_''"

definition validate_nonce :: "string \<Rightarrow> bool" where
  "validate_nonce value \<longleftrightarrow> 16 \<le> length value \<and> length value \<le> 128 \<and> list_all nonce_char value"

section \<open>The canonical request\<close>

definition auth_body_sha256 :: "'a auth_env_scheme \<Rightarrow> string \<Rightarrow> string" where
  "auth_body_sha256 env body = b64url_encode env (sha256 env body)"

definition canonical_lines ::
  "string \<Rightarrow> string \<Rightarrow> string \<Rightarrow> string \<Rightarrow> string \<Rightarrow> int \<Rightarrow> string \<Rightarrow> string \<Rightarrow> string list" where
  "canonical_lines method path_and_query source_peer_id destination_peer_id key_id timestamp_ms nonce body_hash =
     [canonical_version, to_ascii_uppercase method, path_and_query, source_peer_id, destination_peer_id,
      key_id, int_str timestamp_ms, nonce, body_hash]"

definition canonical_request ::
  "string \<Rightarrow> string \<Rightarrow> string \<Rightarrow> string \<Rightarrow> string \<Rightarrow> int \<Rightarrow> string \<Rightarrow> string \<Rightarrow> string" where
  "canonical_request method path_and_query source_peer_id destination_peer_id key_id timestamp_ms nonce body_hash =
     join_lines (canonical_lines method path_and_query source_peer_id destination_peer_id key_id timestamp_ms
       nonce body_hash)"

section \<open>Signing\<close>

record signer =
  sg_source_peer_id :: string
  sg_key_id :: string
  sg_seed :: string

definition signer_from_seed :: "string \<Rightarrow> string \<Rightarrow> string \<Rightarrow> sign_error + signer" where
  "signer_from_seed source_peer_id key_id seed =
     (if \<not> validate_peer_id source_peer_id then Inl InvalidInput
      else if \<not> validate_key_id key_id then Inl InvalidInput
      else Inr \<lparr>sg_source_peer_id = source_peer_id, sg_key_id = key_id, sg_seed = seed\<rparr>)"

definition public_key_bytes :: "'a auth_env_scheme \<Rightarrow> signer \<Rightarrow> string" where
  "public_key_bytes env self = public_key_of env (sg_seed self)"

definition insert_header :: "'a auth_env_scheme \<Rightarrow> headers \<Rightarrow> string \<Rightarrow> string \<Rightarrow> sign_error + headers" where
  "insert_header env headers name value =
     (case header_from_str env value of
        None \<Rightarrow> Inl InvalidHeaderValue
      | Some v \<Rightarrow> Inr (headers(name \<mapsto> v)))"

text \<open>The eight inserts of \<open>sign\<close>, each returning on an error.\<close>

fun insert_headers :: "'a auth_env_scheme \<Rightarrow> headers \<Rightarrow> (string \<times> string) list \<Rightarrow> sign_error + headers" where
  "insert_headers env headers [] = Inr headers"
| "insert_headers env headers ((name, value) # rest) =
     (case insert_header env headers name value of
        Inl e \<Rightarrow> Inl e
      | Inr headers' \<Rightarrow> insert_headers env headers' rest)"

definition header_list :: "signer \<Rightarrow> string \<Rightarrow> int \<Rightarrow> string \<Rightarrow> string \<Rightarrow> string \<Rightarrow> (string \<times> string) list" where
  "header_list self destination_peer_id timestamp_ms nonce body_hash signature =
     [(header_algorithm, algorithm_v1),
      (header_source, sg_source_peer_id self),
      (header_destination, destination_peer_id),
      (header_key_id, sg_key_id self),
      (header_timestamp, int_str timestamp_ms),
      (header_nonce, nonce),
      (header_body_hash, body_hash),
      (header_signature, signature)]"

definition signed_text :: "'a auth_env_scheme \<Rightarrow> signer \<Rightarrow> string \<Rightarrow> string \<Rightarrow> string \<Rightarrow> string \<Rightarrow> int \<Rightarrow> string \<Rightarrow> string" where
  "signed_text env self method path_and_query destination_peer_id body timestamp_ms nonce =
     canonical_request method path_and_query (sg_source_peer_id self) destination_peer_id (sg_key_id self)
       timestamp_ms nonce (auth_body_sha256 env body)"

definition sign_request ::
  "'a auth_env_scheme \<Rightarrow> signer \<Rightarrow> string \<Rightarrow> string \<Rightarrow> string \<Rightarrow> string \<Rightarrow> int \<Rightarrow> string \<Rightarrow> sign_error + headers" where
  "sign_request env self method path_and_query destination_peer_id body timestamp_ms nonce =
     (if \<not> validate_method method then Inl InvalidInput
      else if \<not> validate_path_and_query path_and_query then Inl InvalidInput
      else if \<not> validate_peer_id destination_peer_id then Inl InvalidInput
      else if \<not> validate_nonce nonce then Inl InvalidInput
      else if timestamp_ms \<le> 0 then Inl InvalidInput
      else
        let body_hash = auth_body_sha256 env body;
            canonical = signed_text env self method path_and_query destination_peer_id body timestamp_ms nonce;
            signature = b64url_encode env (ed_sign env (sg_seed self) canonical)
        in insert_headers env Map.empty
             (header_list self destination_peer_id timestamp_ms nonce body_hash signature))"

section \<open>Header parsing\<close>

record parsed_headers =
  ph_algorithm :: string
  ph_source_peer_id :: string
  ph_destination_peer_id :: string
  ph_key_id :: string
  ph_timestamp_ms :: int
  ph_nonce :: string
  ph_body_sha256 :: string
  ph_signature :: string

definition required_header :: "'a auth_env_scheme \<Rightarrow> headers \<Rightarrow> string \<Rightarrow> verify_error + string" where
  "required_header env headers name =
     (case headers name of
        None \<Rightarrow> Inl MissingHeader
      | Some raw \<Rightarrow>
          (case header_to_str env raw of
             None \<Rightarrow> Inl MalformedHeader
           | Some text \<Rightarrow>
               let value = str_trim text
               in if value = [] \<or> 512 < length value then Inl MalformedHeader else Inr value))"

definition parse_headers :: "'a auth_env_scheme \<Rightarrow> headers \<Rightarrow> verify_error + parsed_headers" where
  "parse_headers env headers =
     bind_result (required_header env headers header_algorithm) (\<lambda>algorithm.
     bind_result (required_header env headers header_source) (\<lambda>source_peer_id.
     bind_result (required_header env headers header_destination) (\<lambda>destination_peer_id.
     bind_result (required_header env headers header_key_id) (\<lambda>key_id.
     bind_result (required_header env headers header_timestamp) (\<lambda>timestamp_text.
     bind_result (case parse_i64 timestamp_text of Some t \<Rightarrow> Inr t | None \<Rightarrow> Inl MalformedHeader) (\<lambda>timestamp_ms.
     bind_result (required_header env headers header_nonce) (\<lambda>nonce.
     bind_result (required_header env headers header_body_hash) (\<lambda>body_hash.
     bind_result (required_header env headers header_signature) (\<lambda>signature.
     bind_result (guard (validate_peer_id source_peer_id) MalformedHeader) (\<lambda>_.
     bind_result (guard (validate_peer_id destination_peer_id) MalformedHeader) (\<lambda>_.
     bind_result (guard (validate_key_id key_id) MalformedHeader) (\<lambda>_.
     bind_result (guard (validate_nonce nonce) MalformedHeader) (\<lambda>_.
     if timestamp_ms \<le> 0 \<or> length body_hash \<noteq> 43 then Inl MalformedHeader
     else Inr \<lparr>ph_algorithm = algorithm, ph_source_peer_id = source_peer_id,
               ph_destination_peer_id = destination_peer_id, ph_key_id = key_id,
               ph_timestamp_ms = timestamp_ms, ph_nonce = nonce, ph_body_sha256 = body_hash,
               ph_signature = signature\<rparr>)))))))))))))"

definition identity_from_headers :: "'a auth_env_scheme \<Rightarrow> headers \<Rightarrow> verify_error + request_identity" where
  "identity_from_headers env headers =
     bind_result (parse_headers env headers) (\<lambda>parsed.
       Inr \<lparr>ri_source_peer_id = ph_source_peer_id parsed, ri_key_id = ph_key_id parsed\<rparr>)"

section \<open>Verification\<close>

text \<open>\<open>StaticPeerKeyStore\<close>: a map from (peer id, key id) to the key.\<close>

type_synonym key_store = "string \<times> string \<rightharpoonup> peer_key"

definition key_store_insert :: "key_store \<Rightarrow> peer_key \<Rightarrow> key_store" where
  "key_store_insert keys key = keys((pk_peer_id key, pk_key_id key) \<mapsto> key)"

definition key_for :: "key_store \<Rightarrow> string \<Rightarrow> string \<Rightarrow> peer_key option" where
  "key_for keys peer_id key_id = keys (peer_id, key_id)"

record verifier =
  vf_destination_peer_id :: string
  vf_key_store :: key_store
  vf_now_ms :: "int option"
  vf_max_timestamp_skew_ms :: int

definition new_verifier :: "string \<Rightarrow> key_store \<Rightarrow> verifier" where
  "new_verifier destination_peer_id key_store =
     \<lparr>vf_destination_peer_id = destination_peer_id, vf_key_store = key_store, vf_now_ms = None,
      vf_max_timestamp_skew_ms = default_max_timestamp_skew_ms\<rparr>"

definition with_now_ms :: "verifier \<Rightarrow> int \<Rightarrow> verifier" where
  "with_now_ms self now_ms = self\<lparr>vf_now_ms := Some now_ms\<rparr>"

definition decode_signature :: "'a auth_env_scheme \<Rightarrow> string \<Rightarrow> verify_error + string" where
  "decode_signature env value =
     (case b64url_decode env value of
        None \<Rightarrow> Inl MalformedHeader
      | Some bytes \<Rightarrow> if signature_bytes_ok env bytes then Inr bytes else Inl MalformedHeader)"

definition key_outside_window :: "peer_key \<Rightarrow> int \<Rightarrow> bool" where
  "key_outside_window key timestamp_ms \<longleftrightarrow>
     (case pk_valid_after_ms key of None \<Rightarrow> False | Some valid_after \<Rightarrow> timestamp_ms < valid_after)
     \<or> (case pk_valid_until_ms key of None \<Rightarrow> False | Some valid_until \<Rightarrow> valid_until \<le> timestamp_ms)"

text \<open>\<open>clock\<close> is the reading of the system clock, used when no time was given.\<close>

definition verify_signature ::
  "'a auth_env_scheme \<Rightarrow> int \<Rightarrow> verifier \<Rightarrow> string \<Rightarrow> string \<Rightarrow> headers \<Rightarrow> string \<Rightarrow> verify_error + verified_request" where
  "verify_signature env clock self method path_and_query headers body =
     (if \<not> validate_method method then Inl MalformedHeader
      else if \<not> validate_path_and_query path_and_query then Inl MalformedHeader
      else case parse_headers env headers of
        Inl e \<Rightarrow> Inl e
      | Inr parsed \<Rightarrow>
          if ph_algorithm parsed \<noteq> algorithm_v1 then Inl UnsupportedAlgorithm
          else if ph_destination_peer_id parsed \<noteq> vf_destination_peer_id self then Inl DestinationMismatch
          else if ph_body_sha256 parsed \<noteq> auth_body_sha256 env body then Inl BodyHashMismatch
          else
            let now_ms = (case vf_now_ms self of Some t \<Rightarrow> t | None \<Rightarrow> clock)
            in if vf_max_timestamp_skew_ms self < \<bar>now_ms - ph_timestamp_ms parsed\<bar> then Inl TimestampOutsideWindow
               else case key_for (vf_key_store self) (ph_source_peer_id parsed) (ph_key_id parsed) of
                 None \<Rightarrow> Inl UnknownPeerKey
               | Some key \<Rightarrow>
                   if key_outside_window key (ph_timestamp_ms parsed) then Inl KeyOutsideValidityWindow
                   else
                     let canonical = canonical_request method path_and_query (ph_source_peer_id parsed)
                           (ph_destination_peer_id parsed) (ph_key_id parsed) (ph_timestamp_ms parsed)
                           (ph_nonce parsed) (ph_body_sha256 parsed)
                     in if \<not> key_bytes_ok env (pk_public_key key) then Inl UnknownPeerKey
                        else case decode_signature env (ph_signature parsed) of
                          Inl e \<Rightarrow> Inl e
                        | Inr signature \<Rightarrow>
                            if \<not> ed_verify env (pk_public_key key) canonical signature then Inl InvalidSignature
                            else Inr \<lparr>vr_source_peer_id = ph_source_peer_id parsed,
                                      vr_destination_peer_id = ph_destination_peer_id parsed,
                                      vr_key_id = ph_key_id parsed, vr_nonce = ph_nonce parsed,
                                      vr_timestamp_ms = ph_timestamp_ms parsed,
                                      vr_body_sha256 = ph_body_sha256 parsed\<rparr>)"

section \<open>Replay protection\<close>

text \<open>
  \<open>InMemoryNonceStore\<close>; the flag says whether the lock of the set has been poisoned.
\<close>

record memory_nonces =
  mn_poisoned :: bool
  mn_seen :: "string set"

definition memory_reserve ::
  "memory_nonces \<Rightarrow> string \<Rightarrow> string \<Rightarrow> int \<Rightarrow> (verify_error + unit) \<times> memory_nonces" where
  "memory_reserve self peer_id nonce timestamp_ms =
     (let key = peer_id @ '':'' @ nonce
      in if mn_poisoned self then (Inl ReplayStoreUnavailable, self)
         else if key \<in> mn_seen self then (Inl Replay, self)
         else (Inr (), self\<lparr>mn_seen := insert key (mn_seen self)\<rparr>))"

definition verify_request ::
  "('n \<Rightarrow> string \<Rightarrow> string \<Rightarrow> int \<Rightarrow> (verify_error + unit) \<times> 'n) \<Rightarrow> 'a auth_env_scheme \<Rightarrow> int \<Rightarrow> verifier \<Rightarrow> 'n
    \<Rightarrow> string \<Rightarrow> string \<Rightarrow> headers \<Rightarrow> string \<Rightarrow> (verify_error + verified_request) \<times> 'n" where
  "verify_request reserve env clock self nonces method path_and_query headers body =
     (case verify_signature env clock self method path_and_query headers body of
        Inl e \<Rightarrow> (Inl e, nonces)
      | Inr verified \<Rightarrow>
          (case reserve nonces (vr_source_peer_id verified) (vr_nonce verified) (vr_timestamp_ms verified) of
             (Inl e, nonces') \<Rightarrow> (Inl e, nonces')
           | (Inr _, nonces') \<Rightarrow> (Inr verified, nonces')))"

section \<open>Lines and header values\<close>

lemma upper_or_dash: "ascii_upper_alpha c \<or> c = CHR ''-'' \<Longrightarrow> upper_byte c = c \<and> c \<noteq> CHR 0x0A"
  by (auto simp: upper_byte_def ascii_upper_alpha_def ascii_lower_alpha_def byte_def)

lemma validate_method_upper: "validate_method m \<Longrightarrow> to_ascii_uppercase m = m \<and> CHR 0x0A \<notin> set m"
  using upper_or_dash by (fastforce simp: validate_method_def to_ascii_uppercase_def list_all_iff intro: map_idI)

lemma nonce_char_id: "nonce_char c \<Longrightarrow> id_char c \<and> c \<noteq> CHR '':''"
  by (auto simp: nonce_char_def id_char_def ascii_alnum_def ascii_lower_alpha_def ascii_upper_alpha_def
      ascii_digit_def byte_def)

lemma id_char_no_space: "id_char c \<Longrightarrow> \<not> ascii_space c"
  by (auto simp: id_char_def ascii_alnum_def ascii_lower_alpha_def ascii_upper_alpha_def ascii_digit_def
      ascii_space_def byte_def)

lemma digit_id_char: "is_digit c \<Longrightarrow> id_char c"
  by (auto simp: is_digit_def id_char_def ascii_alnum_def ascii_digit_def byte_def)

lemma int_str_id_chars: "list_all id_char (int_str i)"
  using nat_str_digits [of "nat \<bar>i\<bar>"] nat_str_digits [of "nat i"] nat_str_digits [of "nat (- i)"] digit_id_char
  by (auto simp: int_str_def list_all_iff id_char_def)

lemma validate_nonce_chars: "validate_nonce n \<Longrightarrow> list_all id_char n \<and> CHR '':'' \<notin> set n"
  using nonce_char_id by (auto simp: validate_nonce_def list_all_iff)

lemma valid_id_chars: "valid_id k s \<Longrightarrow> list_all id_char s"
  by (simp add: valid_id_def)

lemma id_chars_no_newline: "list_all id_char s \<Longrightarrow> CHR 0x0A \<notin> set s"
  using id_char_no_newline by (auto simp: list_all_iff)

lemma id_chars_trim: "list_all id_char s \<Longrightarrow> str_trim s = s"
  using id_char_no_space by (auto intro!: str_trim_id simp: list_all_iff)

lemma nat_str_length: "n < 10 ^ Suc k \<Longrightarrow> length (nat_str n) \<le> Suc k"
proof (induction k arbitrary: n)
  case 0
  then show ?case by (subst nat_str.simps) simp
next
  case (Suc k)
  then show ?case
    by (subst nat_str.simps) (use Suc.IH [of "n div 10"] Suc.prems in auto)
qed

lemma i64_str_length: "0 \<le> i \<Longrightarrow> i \<le> i64_max \<Longrightarrow> length (int_str i) \<le> 19"
  using nat_str_length [of "nat i" 18] by (simp add: int_str_def i64_max_def nat_less_iff)

section \<open>The canonical text determines the request\<close>

lemma canonical_request_inj:
  assumes "canonical_request m p s d k t n b = canonical_request m' p' s' d' k' t' n' b'"
    and "validate_method m" "validate_method m'" "validate_path_and_query p" "validate_path_and_query p'"
    and "validate_peer_id s" "validate_peer_id s'" "validate_peer_id d" "validate_peer_id d'"
    and "validate_key_id k" "validate_key_id k'" "validate_nonce n" "validate_nonce n'"
  shows "m = m' \<and> p = p' \<and> s = s' \<and> d = d' \<and> k = k' \<and> t = t' \<and> n = n' \<and> b = b'"
proof -
  have clean: "\<forall>l\<in>set (butlast (canonical_lines m p s d k t n b)). CHR 0x0A \<notin> set l"
    if "validate_method m" "validate_path_and_query p" "validate_peer_id s" "validate_peer_id d"
      "validate_key_id k" "validate_nonce n" for m p s d k t n b
    using that validate_method_upper [of m] validate_nonce_chars [of n] int_str_id_chars [of t]
    by (auto simp: canonical_lines_def canonical_version_def validate_path_and_query_def validate_peer_id_def
        validate_key_id_def dest: valid_id_no_newline id_chars_no_newline)
  have "canonical_lines m p s d k t n b = canonical_lines m' p' s' d' k' t' n' b'"
  proof (rule join_lines_inj)
    show "join_lines (canonical_lines m p s d k t n b) = join_lines (canonical_lines m' p' s' d' k' t' n' b')"
      using assms(1) by (simp only: canonical_request_def)
  qed (use assms in \<open>simp add: canonical_lines_def\<close>, (rule clean; use assms in blast)+)
  then show ?thesis
    using assms(2,3) validate_method_upper by (auto simp: canonical_lines_def)
qed

section \<open>Reading back what was inserted\<close>

lemma insert_headers_other:
  "insert_headers env h0 kvs = Inr h \<Longrightarrow> n \<notin> fst ` set kvs \<Longrightarrow> h n = h0 n"
  by (induction env h0 kvs rule: insert_headers.induct) (auto simp: insert_header_def split: sum.splits option.splits)

lemma insert_headers_get:
  assumes "insert_headers env h0 kvs = Inr h" "distinct (map fst kvs)" "(n, v) \<in> set kvs"
  shows "\<exists>raw. header_from_str env v = Some raw \<and> h n = Some raw"
  using assms
proof (induction env h0 kvs rule: insert_headers.induct)
  case (2 env h0 n' v' rest)
  then obtain h1 where h1: "insert_header env h0 n' v' = Inr h1" "insert_headers env h1 rest = Inr h"
    by (auto split: sum.splits)
  show ?case
  proof (cases "(n, v) = (n', v')")
    case True
    then have "h n = h1 n" using insert_headers_other [OF h1(2)] 2(3) by simp
    with True h1(1) show ?thesis by (auto simp: insert_header_def split: option.splits)
  next
    case False
    with 2 h1 show ?thesis by auto
  qed
qed simp

definition header_law :: "'a auth_env_scheme \<Rightarrow> bool" where
  "header_law env \<longleftrightarrow> (\<forall>s v. header_from_str env s = Some v \<longrightarrow> header_to_str env v = Some s)"

lemma required_header_inserted:
  assumes "header_law env" "insert_headers env h0 kvs = Inr h" "distinct (map fst kvs)" "(n, v) \<in> set kvs"
    and "v \<noteq> []" "length v \<le> 512" "str_trim v = v"
  shows "required_header env h n = Inr v"
proof -
  obtain raw where "header_from_str env v = Some raw" "h n = Some raw"
    using insert_headers_get [OF assms(2,3,4)] by blast
  with assms show ?thesis by (simp add: required_header_def header_law_def Let_def)
qed

lemma header_list_distinct: "distinct (map fst (header_list sg d t n bh sig))"
  by (simp add: header_list_def header_algorithm_def header_source_def header_destination_def header_key_id_def
      header_timestamp_def header_nonce_def header_body_hash_def header_signature_def)

lemma sign_request_inserts:
  "sign_request env sg m p d body t n = Inr h \<Longrightarrow>
     \<exists>bh sig. insert_headers env Map.empty (header_list sg d t n bh sig) = Inr h"
  by (auto simp: sign_request_def Let_def split: if_splits)

text \<open>
  What the round trip relies on: text accepted as a header value reads back, the encoded digest
  has 43 characters and the encoded signature decodes, neither holds white space, and a
  signature verifies under the signer's own key.
\<close>

definition signing_laws :: "'a auth_env_scheme \<Rightarrow> string \<Rightarrow> bool" where
  "signing_laws env seed \<longleftrightarrow> header_law env \<and>
     (\<forall>b. length (auth_body_sha256 env b) = 43 \<and> list_all (\<lambda>c. \<not> ascii_space c) (auth_body_sha256 env b)) \<and>
     key_bytes_ok env (public_key_of env seed) \<and>
     (\<forall>m. let sig = ed_sign env seed m; text = b64url_encode env sig
          in b64url_decode env text = Some sig \<and> text \<noteq> [] \<and> length text \<le> 512 \<and>
             list_all (\<lambda>c. \<not> ascii_space c) text \<and> signature_bytes_ok env sig \<and>
             ed_verify env (public_key_of env seed) m sig)"

lemma sign_request_parses:
  assumes laws: "signing_laws env (sg_seed sg)"
    and sg: "validate_peer_id (sg_source_peer_id sg)" "validate_key_id (sg_key_id sg)"
    and sign: "sign_request env sg m p d body t n = Inr h" and t: "t \<le> i64_max"
  shows "parse_headers env h =
     Inr \<lparr>ph_algorithm = algorithm_v1, ph_source_peer_id = sg_source_peer_id sg, ph_destination_peer_id = d,
          ph_key_id = sg_key_id sg, ph_timestamp_ms = t, ph_nonce = n, ph_body_sha256 = auth_body_sha256 env body,
          ph_signature = b64url_encode env (ed_sign env (sg_seed sg) (signed_text env sg m p d body t n))\<rparr>"
proof -
  let ?sig = "b64url_encode env (ed_sign env (sg_seed sg) (signed_text env sg m p d body t n))"
  let ?kvs = "header_list sg d t n (auth_body_sha256 env body) ?sig"
  have v: "validate_peer_id d" "validate_nonce n" "0 < t" and ins: "insert_headers env Map.empty ?kvs = Inr h"
    using sign by (auto simp: sign_request_def Let_def split: if_splits)
  have hl: "header_law env" using laws by (simp add: signing_laws_def)
  have get: "required_header env h k = Inr w"
    if "(k, w) \<in> set ?kvs" "w \<noteq> []" "length w \<le> 512" "str_trim w = w" for k w
    by (rule required_header_inserted [OF hl ins header_list_distinct that])
  have vid: "w \<noteq> [] \<and> length w \<le> 512 \<and> str_trim w = w" if "valid_id j w" "j \<le> 512" for w j
    using that id_chars_trim [of w] by (auto simp: valid_id_def)
  have "required_header env h header_algorithm = Inr algorithm_v1"
    by (rule get) (simp_all add: header_list_def algorithm_v1_def str_trim_id ascii_space_def byte_def)
  moreover have "required_header env h header_source = Inr (sg_source_peer_id sg)"
    using vid [of 253] sg(1) by (intro get) (auto simp: header_list_def validate_peer_id_def)
  moreover have "required_header env h header_destination = Inr d"
    using vid [of 253] v(1) by (intro get) (auto simp: header_list_def validate_peer_id_def)
  moreover have "required_header env h header_key_id = Inr (sg_key_id sg)"
    using vid [of 128] sg(2) by (intro get) (auto simp: header_list_def validate_key_id_def)
  moreover have "required_header env h header_timestamp = Inr (int_str t)"
    using i64_str_length [of t] v(3) t nat_str_digits [of "nat t"] id_chars_trim [OF int_str_id_chars [of t]]
    by (intro get) (auto simp: header_list_def int_str_def)
  moreover have "required_header env h header_nonce = Inr n"
    using v(2) id_chars_trim [of n] validate_nonce_chars [of n] by (intro get) (auto simp: header_list_def validate_nonce_def)
  moreover have "required_header env h header_body_hash = Inr (auth_body_sha256 env body)"
    using laws by (intro get) (auto simp: header_list_def signing_laws_def str_trim_id dest!: spec [of _ body])
  moreover have "required_header env h header_signature = Inr ?sig"
    using laws by (intro get) (auto simp: header_list_def signing_laws_def Let_def str_trim_id)
  moreover have "length (auth_body_sha256 env body) = 43" using laws by (simp add: signing_laws_def)
  moreover have "parse_i64 (int_str t) = Some t"
    using v(3) t by (intro parse_i64_str) (simp_all add: i64_min_def)
  ultimately show ?thesis
    using v sg by (simp add: parse_headers_def guard_def)
qed

text \<open>
  C29. A request signed for a peer is accepted by that peer: if the destination knows the
  signer's key, the key is valid at the time of signing and the clocks differ by at most the
  allowed skew, then verifying the produced headers with the same method, path and body succeeds
  and yields the signer, the destination, the nonce and the time that were signed.
\<close>
theorem sign_then_verify:
  assumes laws: "signing_laws env seed"
    and sg: "signer_from_seed source key_id seed = Inr sg"
    and sign: "sign_request env sg method path (vf_destination_peer_id vf) body t nonce = Inr headers"
    and t: "t \<le> i64_max"
    and key: "key_for (vf_key_store vf) source key_id = Some k" "pk_public_key k = public_key_bytes env sg"
      "\<not> key_outside_window k t"
    and skew: "\<bar>(case vf_now_ms vf of Some n \<Rightarrow> n | None \<Rightarrow> clock) - t\<bar> \<le> vf_max_timestamp_skew_ms vf"
  shows "verify_signature env clock vf method path headers body =
     Inr \<lparr>vr_source_peer_id = source, vr_destination_peer_id = vf_destination_peer_id vf, vr_key_id = key_id,
          vr_nonce = nonce, vr_timestamp_ms = t, vr_body_sha256 = auth_body_sha256 env body\<rparr>"
proof -
  have sg': "validate_peer_id source" "validate_key_id key_id"
    "sg = \<lparr>sg_source_peer_id = source, sg_key_id = key_id, sg_seed = seed\<rparr>"
    using sg by (auto simp: signer_from_seed_def split: if_splits)
  have "validate_method method" "validate_path_and_query path"
    using sign by (auto simp: sign_request_def split: if_splits)
  moreover have "parse_headers env headers =
     Inr \<lparr>ph_algorithm = algorithm_v1, ph_source_peer_id = source, ph_destination_peer_id = vf_destination_peer_id vf,
          ph_key_id = key_id, ph_timestamp_ms = t, ph_nonce = nonce, ph_body_sha256 = auth_body_sha256 env body,
          ph_signature = b64url_encode env (ed_sign env seed
            (signed_text env sg method path (vf_destination_peer_id vf) body t nonce))\<rparr>"
    using sign_request_parses [OF _ _ _ sign t] laws sg' by simp
  ultimately show ?thesis
    using laws key skew
    by (simp add: verify_signature_def decode_signature_def signing_laws_def Let_def public_key_bytes_def sg'(3)
        signed_text_def)
qed

definition demo_auth_env :: auth_env where
  "demo_auth_env = \<lparr>
     sha256 = (\<lambda>_. replicate 32 CHR ''h''),
     hex_encode = (\<lambda>b. b @ b),
     b64url_encode = (\<lambda>b. if length b = 64 then replicate 86 CHR ''S'' else replicate 43 CHR ''H''),
     b64url_decode = (\<lambda>s. if length s = 86 then Some (replicate 64 CHR ''s'') else None),
     public_key_of = (\<lambda>seed. ''pub-'' @ seed),
     ed_sign = (\<lambda>_ _. replicate 64 CHR ''s''),
     key_bytes_ok = (\<lambda>_. True),
     signature_bytes_ok = (\<lambda>b. length b = 64),
     ed_verify = (\<lambda>k m s. s = replicate 64 CHR ''s''),
     header_from_str = Some,
     header_to_str = Some\<rparr>"

lemma demo_signing_laws: "signing_laws demo_auth_env seed"
  by (simp add: signing_laws_def demo_auth_env_def header_law_def auth_body_sha256_def list_all_iff
      ascii_space_def byte_def Let_def)

definition demo_verifier :: verifier where
  "demo_verifier = with_now_ms (new_verifier ''b.example''
     (key_store_insert Map.empty
       \<lparr>pk_peer_id = ''a.example'', pk_key_id = ''k1'', pk_public_key = ''pub-seed'',
        pk_valid_after_ms = Some 1000, pk_valid_until_ms = None\<rparr>)) 250000"

lemma sign_then_verify_witness:
  "\<exists>headers. sign_request demo_auth_env \<lparr>sg_source_peer_id = ''a.example'', sg_key_id = ''k1'', sg_seed = ''seed''\<rparr>
        ''POST'' ''/x'' ''b.example'' ''body'' 2000 ''nonce-0123456789'' = Inr headers \<and>
     verify_signature demo_auth_env 0 demo_verifier ''POST'' ''/x'' headers ''body'' =
       Inr \<lparr>vr_source_peer_id = ''a.example'', vr_destination_peer_id = ''b.example'', vr_key_id = ''k1'',
            vr_nonce = ''nonce-0123456789'', vr_timestamp_ms = 2000,
            vr_body_sha256 = auth_body_sha256 demo_auth_env ''body''\<rparr>"
proof -
  let ?sg = "\<lparr>sg_source_peer_id = ''a.example'', sg_key_id = ''k1'', sg_seed = ''seed''\<rparr>"
  let ?sign = "sign_request demo_auth_env ?sg ''POST'' ''/x'' ''b.example'' ''body'' 2000 ''nonce-0123456789''"
  let ?key = "\<lparr>pk_peer_id = ''a.example'', pk_key_id = ''k1'', pk_public_key = ''pub-seed'',
        pk_valid_after_ms = Some 1000, pk_valid_until_ms = None\<rparr>"
  have "is_ok ?sign" by code_simp
  then obtain headers where h: "?sign = Inr headers" by (cases ?sign) (auto simp: is_ok_def)
  have vf: "vf_destination_peer_id demo_verifier = ''b.example''" "vf_now_ms demo_verifier = Some 250000"
    "vf_max_timestamp_skew_ms demo_verifier = 300000" "key_for (vf_key_store demo_verifier) ''a.example'' ''k1'' = Some ?key"
    by (simp_all add: demo_verifier_def with_now_ms_def new_verifier_def default_max_timestamp_skew_ms_def
        key_for_def key_store_insert_def)
  have pk: "public_key_bytes demo_auth_env ?sg = ''pub-seed''"
    by (simp add: public_key_bytes_def demo_auth_env_def)
  have "signer_from_seed ''a.example'' ''k1'' ''seed'' = Inr ?sg" by code_simp
  then have "verify_signature demo_auth_env 0 demo_verifier ''POST'' ''/x'' headers ''body'' =
      Inr \<lparr>vr_source_peer_id = ''a.example'', vr_destination_peer_id = vf_destination_peer_id demo_verifier,
           vr_key_id = ''k1'', vr_nonce = ''nonce-0123456789'', vr_timestamp_ms = 2000,
           vr_body_sha256 = auth_body_sha256 demo_auth_env ''body''\<rparr>"
    by (rule sign_then_verify [OF demo_signing_laws, where k = ?key])
      (simp_all add: h vf pk i64_max_def key_outside_window_def)
  with h vf(1) show ?thesis by auto
qed

section \<open>What an accepted request is evidence of\<close>

record sign_call =
  sc_method :: string
  sc_path :: string
  sc_destination :: string
  sc_body :: string
  sc_timestamp_ms :: int
  sc_nonce :: string

definition sign_with :: "'a auth_env_scheme \<Rightarrow> signer \<Rightarrow> sign_call \<Rightarrow> sign_error + headers" where
  "sign_with env sg c =
     sign_request env sg (sc_method c) (sc_path c) (sc_destination c) (sc_body c) (sc_timestamp_ms c) (sc_nonce c)"

text \<open>The texts a signer has signed in a list of calls.\<close>

definition signed_texts :: "'a auth_env_scheme \<Rightarrow> signer \<Rightarrow> sign_call list \<Rightarrow> string set" where
  "signed_texts env sg calls =
     (\<lambda>c. signed_text env sg (sc_method c) (sc_path c) (sc_destination c) (sc_body c) (sc_timestamp_ms c) (sc_nonce c))
       ` {c \<in> set calls. is_ok (sign_with env sg c)}"

lemma verify_signature_Inr:
  assumes "verify_signature env clock vf method path headers body = Inr v"
  obtains parsed key signature where
    "validate_method method" "validate_path_and_query path" "parse_headers env headers = Inr parsed"
    "ph_destination_peer_id parsed = vf_destination_peer_id vf" "ph_body_sha256 parsed = auth_body_sha256 env body"
    "\<bar>(case vf_now_ms vf of Some t \<Rightarrow> t | None \<Rightarrow> clock) - ph_timestamp_ms parsed\<bar> \<le> vf_max_timestamp_skew_ms vf"
    "key_for (vf_key_store vf) (ph_source_peer_id parsed) (ph_key_id parsed) = Some key"
    "\<not> key_outside_window key (ph_timestamp_ms parsed)"
    "ed_verify env (pk_public_key key) (canonical_request method path (ph_source_peer_id parsed)
       (vf_destination_peer_id vf) (ph_key_id parsed) (ph_timestamp_ms parsed) (ph_nonce parsed)
       (auth_body_sha256 env body)) signature"
    "v = \<lparr>vr_source_peer_id = ph_source_peer_id parsed, vr_destination_peer_id = vf_destination_peer_id vf,
          vr_key_id = ph_key_id parsed, vr_nonce = ph_nonce parsed, vr_timestamp_ms = ph_timestamp_ms parsed,
          vr_body_sha256 = auth_body_sha256 env body\<rparr>"
  using assms
  by (auto simp: verify_signature_def Let_def split: if_splits sum.splits option.splits)

lemma parse_headers_valid:
  assumes "parse_headers env headers = Inr p"
  shows "validate_peer_id (ph_source_peer_id p)" "validate_peer_id (ph_destination_peer_id p)"
    "validate_key_id (ph_key_id p)" "validate_nonce (ph_nonce p)" "0 < ph_timestamp_ms p"
  using assms by (auto simp: parse_headers_def result_iff split: if_splits option.splits)

text \<open>
  C12. Against unforgeable signatures, an accepted request is one that was signed: if the peer's
  key verifies only texts its holder has signed, then there is a signing call with exactly the
  accepted method, path, destination, time and nonce, and with a body of the same digest, made
  in the name of the accepted source. The fields cannot be shifted into one another.
\<close>
theorem accepted_requests_were_signed:
  assumes accepted: "verify_signature env clock vf method path headers body = Inr v"
    and sg: "signer_from_seed source key_id seed = Inr sg"
    and key: "key_for (vf_key_store vf) (vr_source_peer_id v) (vr_key_id v) = Some k"
      "pk_public_key k = public_key_bytes env sg"
    and unforgeable: "\<And>m s. ed_verify env (public_key_bytes env sg) m s \<Longrightarrow> m \<in> signed_texts env sg calls"
  shows "\<exists>c\<in>set calls. sc_method c = method \<and> sc_path c = path \<and> sc_destination c = vf_destination_peer_id vf \<and>
    sc_timestamp_ms c = vr_timestamp_ms v \<and> sc_nonce c = vr_nonce v \<and>
    auth_body_sha256 env (sc_body c) = auth_body_sha256 env body \<and> source = vr_source_peer_id v \<and> key_id = vr_key_id v"
  using accepted
proof (rule verify_signature_Inr)
  fix p k' s
  assume p: "validate_method method" "validate_path_and_query path" "parse_headers env headers = Inr p"
      "ph_destination_peer_id p = vf_destination_peer_id vf"
      "key_for (vf_key_store vf) (ph_source_peer_id p) (ph_key_id p) = Some k'"
    and ok: "ed_verify env (pk_public_key k') (canonical_request method path (ph_source_peer_id p)
       (vf_destination_peer_id vf) (ph_key_id p) (ph_timestamp_ms p) (ph_nonce p) (auth_body_sha256 env body)) s"
    and v: "v = \<lparr>vr_source_peer_id = ph_source_peer_id p, vr_destination_peer_id = vf_destination_peer_id vf,
          vr_key_id = ph_key_id p, vr_nonce = ph_nonce p, vr_timestamp_ms = ph_timestamp_ms p,
          vr_body_sha256 = auth_body_sha256 env body\<rparr>"
  note valid = parse_headers_valid [OF p(3)]
  have sg': "validate_peer_id source" "validate_key_id key_id" "sg_source_peer_id sg = source" "sg_key_id sg = key_id"
    using sg by (auto simp: signer_from_seed_def split: if_splits)
  have "k' = k" using key(1) p(5) v by simp
  with ok key(2) unforgeable obtain c where c: "c \<in> set calls" "is_ok (sign_with env sg c)"
      "canonical_request method path (ph_source_peer_id p) (vf_destination_peer_id vf) (ph_key_id p)
         (ph_timestamp_ms p) (ph_nonce p) (auth_body_sha256 env body) =
       canonical_request (sc_method c) (sc_path c) source (sc_destination c) key_id (sc_timestamp_ms c) (sc_nonce c)
         (auth_body_sha256 env (sc_body c))"
    by (auto simp: signed_texts_def signed_text_def sg')
  have "validate_method (sc_method c)" "validate_path_and_query (sc_path c)" "validate_peer_id (sc_destination c)"
    "validate_nonce (sc_nonce c)"
    using c(2) by (auto simp: sign_with_def sign_request_def is_ok_def split: if_splits)
  from canonical_request_inj [OF c(3) p(1) this(1) p(2) this(2) valid(1) sg'(1) _ this(3) valid(3) sg'(2) valid(4) this(4)]
    valid(2) p(4) c(1) v
  show ?thesis by (intro bexI [of _ c]) auto
qed

definition demo_signer :: signer where
  "demo_signer = \<lparr>sg_source_peer_id = ''a.example'', sg_key_id = ''k1'', sg_seed = ''seed''\<rparr>"

definition demo_call :: sign_call where
  "demo_call = \<lparr>sc_method = ''POST'', sc_path = ''/x'', sc_destination = ''b.example'', sc_body = ''body'',
     sc_timestamp_ms = 2000, sc_nonce = ''nonce-0123456789''\<rparr>"

definition demo_strict_env :: auth_env where
  "demo_strict_env = demo_auth_env\<lparr>ed_verify := (\<lambda>k m s. m = signed_text demo_auth_env demo_signer
     ''POST'' ''/x'' ''b.example'' ''body'' 2000 ''nonce-0123456789'')\<rparr>"

definition demo_result :: "verify_error + verified_request" where
  "demo_result = (case sign_with demo_strict_env demo_signer demo_call of
      Inl _ \<Rightarrow> Inl MissingHeader
    | Inr headers \<Rightarrow> verify_signature demo_strict_env 0 demo_verifier ''POST'' ''/x'' headers ''body'')"

lemma demo_result_ok: "demo_result = Inr \<lparr>vr_source_peer_id = ''a.example'', vr_destination_peer_id = ''b.example'',
  vr_key_id = ''k1'', vr_nonce = ''nonce-0123456789'', vr_timestamp_ms = 2000,
  vr_body_sha256 = replicate 43 CHR ''H''\<rparr>"
  by code_simp

lemma accepted_requests_were_signed_witness:
  "\<exists>c\<in>set [demo_call]. sc_method c = ''POST'' \<and> sc_nonce c = ''nonce-0123456789'' \<and> sc_timestamp_ms c = 2000"
proof -
  obtain headers where h: "sign_with demo_strict_env demo_signer demo_call = Inr headers"
      "verify_signature demo_strict_env 0 demo_verifier ''POST'' ''/x'' headers ''body'' =
       Inr \<lparr>vr_source_peer_id = ''a.example'', vr_destination_peer_id = ''b.example'',
         vr_key_id = ''k1'', vr_nonce = ''nonce-0123456789'', vr_timestamp_ms = 2000,
         vr_body_sha256 = replicate 43 CHR ''H''\<rparr>"
    using demo_result_ok by (auto simp: demo_result_def split: sum.splits)
  let ?key = "\<lparr>pk_peer_id = ''a.example'', pk_key_id = ''k1'', pk_public_key = ''pub-seed'',
        pk_valid_after_ms = Some 1000, pk_valid_until_ms = None\<rparr>"
  have issued: "m \<in> signed_texts demo_strict_env demo_signer [demo_call]"
    if "ed_verify demo_strict_env pk m s" for pk m s
  proof -
    have "m = signed_text demo_strict_env demo_signer (sc_method demo_call) (sc_path demo_call)
        (sc_destination demo_call) (sc_body demo_call) (sc_timestamp_ms demo_call) (sc_nonce demo_call)"
      using that by (simp add: demo_strict_env_def demo_call_def signed_text_def auth_body_sha256_def)
    with h(1) show ?thesis by (simp add: signed_texts_def is_ok_def)
  qed
  have sg: "signer_from_seed ''a.example'' ''k1'' ''seed'' = Inr demo_signer" by code_simp
  have stored: "key_for (vf_key_store demo_verifier) ''a.example'' ''k1'' = Some ?key"
    by (simp add: demo_verifier_def with_now_ms_def new_verifier_def key_for_def key_store_insert_def)
  have pk: "public_key_bytes demo_strict_env demo_signer = ''pub-seed''"
    by (simp add: public_key_bytes_def demo_strict_env_def demo_auth_env_def demo_signer_def)
  from accepted_requests_were_signed [OF h(2) sg _ _ issued, where k = ?key] stored pk
  show ?thesis by auto
qed

section \<open>Replay protection\<close>

text \<open>What a nonce store promises (the trait \<open>NonceStore\<close>).\<close>

locale nonce_store =
  fixes reserve :: "'n \<Rightarrow> string \<Rightarrow> string \<Rightarrow> int \<Rightarrow> (verify_error + unit) \<times> 'n"
    and used :: "'n \<Rightarrow> string \<Rightarrow> string \<Rightarrow> bool"
  assumes reserve_used: "used s p n \<Longrightarrow> fst (reserve s p n t) \<noteq> Inr ()"
    and reserve_marks: "fst (reserve s p n t) = Inr () \<Longrightarrow> used (snd (reserve s p n t)) p n"
    and reserve_keeps: "used s p n \<Longrightarrow> used (snd (reserve s p' n' t')) p n"
begin

fun run_reserves :: "'n \<Rightarrow> (string \<times> string \<times> int) list \<Rightarrow> (string \<times> string) list \<times> 'n" where
  "run_reserves s [] = ([], s)"
| "run_reserves s ((p, n, t) # rs) =
     (let (r, s') = reserve s p n t; (acc, s'') = run_reserves s' rs
      in (if r = Inr () then (p, n) # acc else acc, s''))"

lemma accepted_unused: "used s p n \<Longrightarrow> (p, n) \<notin> set (fst (run_reserves s rs))"
proof (induction s rs rule: run_reserves.induct)
  case (2 s p' n' t rs)
  have "used (snd (reserve s p' n' t)) p n" using 2(2) by (rule reserve_keeps)
  with 2(1) [OF _ refl] 2(2) reserve_used [of s p n t] show ?case
    by (auto simp: Let_def split: prod.splits)
qed simp

lemma accepted_distinct: "distinct (fst (run_reserves s rs))"
proof (induction s rs rule: run_reserves.induct)
  case (2 s p n t rs)
  show ?case
  proof (cases "fst (reserve s p n t) = Inr ()")
    case True
    then have "used (snd (reserve s p n t)) p n" by (rule reserve_marks)
    then have "(p, n) \<notin> set (fst (run_reserves (snd (reserve s p n t)) rs))" by (rule accepted_unused)
    with 2 True show ?thesis by (auto simp: Let_def split: prod.splits)
  qed (use 2 in \<open>auto simp: Let_def split: prod.splits\<close>)
qed simp

end

definition memory_used :: "memory_nonces \<Rightarrow> string \<Rightarrow> string \<Rightarrow> bool" where
  "memory_used s p n \<longleftrightarrow> p @ '':'' @ n \<in> mn_seen s"

interpretation memory: nonce_store memory_reserve memory_used
  by unfold_locales (auto simp: memory_reserve_def memory_used_def Let_def split: if_splits)

end
