(* ===== verification/Fed_Ingress.thy ===== *)
theory Fed_Ingress
  imports Fed_Schema Fed_Auth
begin

text \<open>
  From an accepted envelope to the command it runs: which kinds may propagate at all
  (\<open>src/server-rs/src/federation/ownership.rs\<close>), the checks of an envelope against the signature
  it came with (\<open>src/server-rs/src/federation/ingress.rs\<close>) and the command a handshake event
  stands for (\<open>src/server-rs/src/federation/runtime.rs\<close>). Printing JSON is the parameter
  \<open>to_vec\<close>.
\<close>

record fed_env = protocol_env +
  to_vec :: "json \<Rightarrow> string option"
  digests :: auth_env

section \<open>Propagation scopes\<close>

datatype propagation_scope =
    MetadataHandshake | MembershipHandshake | CrossBackendRuntimePersistence | EphemeralRuntimeSignal

definition runtime_propagation_scope :: "event_kind \<Rightarrow> propagation_scope" where
  "runtime_propagation_scope kind =
     (case kind of
        InvitePreview \<Rightarrow> MetadataHandshake
      | PrincipalUpsert \<Rightarrow> MetadataHandshake
      | MembershipJoin \<Rightarrow> MembershipHandshake
      | MembershipLeave \<Rightarrow> MembershipHandshake
      | MembershipRemove \<Rightarrow> MembershipHandshake
      | MembershipBan \<Rightarrow> MembershipHandshake
      | MembershipUnban \<Rightarrow> MembershipHandshake
      | PresenceUpdate \<Rightarrow> EphemeralRuntimeSignal
      | TypingStart \<Rightarrow> EphemeralRuntimeSignal
      | _ \<Rightarrow> CrossBackendRuntimePersistence)"

definition runtime_propagation_allowed :: "event_kind \<Rightarrow> bool" where
  "runtime_propagation_allowed kind =
     (case runtime_propagation_scope kind of
        MetadataHandshake \<Rightarrow> True
      | MembershipHandshake \<Rightarrow> True
      | CrossBackendRuntimePersistence \<Rightarrow> False
      | EphemeralRuntimeSignal \<Rightarrow> False)"

section \<open>Ingress\<close>

record ingress_decision =
  id_source_peer_id :: string
  id_destination_peer_id :: string
  id_remote_event_id :: string
  id_event_kind :: event_kind
  id_payload_hash :: string

datatype ingress_error = SourceMismatch | Ingress_DestinationMismatch | Ingress_UnsupportedEventKind | Ingress_InvalidPayload

definition ingress_payload_hash :: "'a fed_env_scheme \<Rightarrow> json \<Rightarrow> ingress_error + string" where
  "ingress_payload_hash env payload =
     (case to_vec env payload of
        None \<Rightarrow> Inl Ingress_InvalidPayload
      | Some bytes \<Rightarrow> Inr (hex_encode (digests env) (sha256 (digests env) bytes)))"

definition validate_ingress_envelope ::
  "'a fed_env_scheme \<Rightarrow> verified_request \<Rightarrow> envelope \<Rightarrow> ingress_error + ingress_decision" where
  "validate_ingress_envelope env verified envl =
     (if env_source_peer_id envl \<noteq> vr_source_peer_id verified then Inl SourceMismatch
      else if env_destination_peer_id envl \<noteq> vr_destination_peer_id verified then Inl Ingress_DestinationMismatch
      else if \<not> runtime_propagation_allowed (env_kind envl) then Inl Ingress_UnsupportedEventKind
      else if \<not> is_object (env_payload envl) then Inl Ingress_InvalidPayload
      else bind_result (ingress_payload_hash env (env_payload envl)) (\<lambda>hash.
        Inr \<lparr>id_source_peer_id = env_source_peer_id envl,
             id_destination_peer_id = env_destination_peer_id envl,
             id_remote_event_id = env_event_id envl,
             id_event_kind = env_kind envl,
             id_payload_hash = hash\<rparr>))"

section \<open>Runtime commands\<close>

datatype runtime_command =
    AuditOnly
  | Cmd_UpsertRemotePrincipal string string "string option" "string option" "string option"
  | Cmd_MembershipJoin string string int "string option" "string option"
  | Cmd_MembershipLeave string string int
  | Cmd_MembershipRemove string string int int "string option"
  | Cmd_MembershipBan string string int int "string option"
  | Cmd_MembershipUnban string string int int

datatype runtime_error = Runtime_UnsupportedEventKind | Runtime_InvalidPayload

text \<open>\<open>code_hash\<close> of \<open>services/pg/server_invites.rs\<close>.\<close>

definition code_hash :: "'a digest_env_scheme \<Rightarrow> string \<Rightarrow> string" where
  "code_hash env code = ''sha256:'' @ hex_encode env (sha256 env code)"

definition federated_invite_code_hash :: "'a digest_env_scheme \<Rightarrow> string \<Rightarrow> string" where
  "federated_invite_code_hash env code = code_hash env code"

definition required_str :: "json \<Rightarrow> string \<Rightarrow> runtime_error + string" where
  "required_str payload key =
     ok_or (opt_filter (\<lambda>value. value \<noteq> []) (Option.bind (json_get payload key) as_str)) Runtime_InvalidPayload"

definition optional_str :: "json \<Rightarrow> string \<Rightarrow> string option" where
  "optional_str payload key = Option.bind (json_get payload key) as_str"

definition required_local_id :: "json \<Rightarrow> string \<Rightarrow> runtime_error + int" where
  "required_local_id payload key =
     bind_result (required_str payload key) (\<lambda>s.
       ok_or (opt_filter (\<lambda>id. 0 < id) (parse_i64 s)) Runtime_InvalidPayload)"

fun runtime_metadata_error :: "projection_error \<Rightarrow> runtime_error" where
  "runtime_metadata_error InvalidIdentity = Runtime_InvalidPayload"
| "runtime_metadata_error InvalidMetadata = Runtime_InvalidPayload"

definition remote_principal_command :: "'a fed_env_scheme \<Rightarrow> envelope \<Rightarrow> runtime_error + runtime_command" where
  "remote_principal_command env envl =
     bind_result (required_str (env_payload envl) ''remoteUserId'') (\<lambda>remote_user_id.
     bind_result (map_err runtime_metadata_error
       (new_metadata env (optional_str (env_payload envl) ''username'')
          (optional_str (env_payload envl) ''displayName'') (optional_str (env_payload envl) ''avatarUrl'')))
       (\<lambda>metadata.
     Inr (Cmd_UpsertRemotePrincipal (env_source_peer_id envl) remote_user_id
            (rp_username metadata) (rp_display_name metadata) (rp_avatar_url metadata))))"

definition membership_join_command :: "'a fed_env_scheme \<Rightarrow> envelope \<Rightarrow> runtime_error + runtime_command" where
  "membership_join_command env envl =
     bind_result (required_str (env_payload envl) ''remoteUserId'') (\<lambda>remote_user_id.
     bind_result (required_local_id (env_payload envl) ''serverId'') (\<lambda>server_id.
     let invite_code = opt_filter (\<lambda>value. value \<noteq> []) (optional_str (env_payload envl) ''inviteCode'');
         invite_code_hash =
           (case opt_filter (\<lambda>value. value \<noteq> []) (optional_str (env_payload envl) ''inviteCodeHash'') of
              Some h \<Rightarrow> Some h
            | None \<Rightarrow> map_option (federated_invite_code_hash (digests env)) invite_code)
     in if invite_code = None \<and> invite_code_hash = None then Inl Runtime_InvalidPayload
        else Inr (Cmd_MembershipJoin (env_source_peer_id envl) remote_user_id server_id invite_code invite_code_hash)))"

definition membership_leave_command :: "envelope \<Rightarrow> runtime_error + runtime_command" where
  "membership_leave_command envl =
     bind_result (required_str (env_payload envl) ''remoteUserId'') (\<lambda>remote_user_id.
     bind_result (required_local_id (env_payload envl) ''serverId'') (\<lambda>server_id.
     Inr (Cmd_MembershipLeave (env_source_peer_id envl) remote_user_id server_id)))"

datatype moderation_op = Op_Remove | Op_Ban | Op_Unban

definition membership_moderation_command :: "envelope \<Rightarrow> moderation_op \<Rightarrow> runtime_error + runtime_command" where
  "membership_moderation_command envl op =
     bind_result (required_str (env_payload envl) ''remoteUserId'') (\<lambda>remote_user_id.
     bind_result (required_local_id (env_payload envl) ''serverId'') (\<lambda>server_id.
     bind_result (required_local_id (env_payload envl) ''targetUserId'') (\<lambda>target_user_id.
     let reason = opt_filter (\<lambda>value. value \<noteq> []) (optional_str (env_payload envl) ''reason'');
         home_peer_id = env_source_peer_id envl
     in Inr (case op of
               Op_Remove \<Rightarrow> Cmd_MembershipRemove home_peer_id remote_user_id server_id target_user_id reason
             | Op_Ban \<Rightarrow> Cmd_MembershipBan home_peer_id remote_user_id server_id target_user_id reason
             | Op_Unban \<Rightarrow> Cmd_MembershipUnban home_peer_id remote_user_id server_id target_user_id))))"

definition command_from_envelope :: "'a fed_env_scheme \<Rightarrow> envelope \<Rightarrow> runtime_error + runtime_command" where
  "command_from_envelope env envl =
     (if \<not> runtime_propagation_allowed (env_kind envl) then Inl Runtime_UnsupportedEventKind
      else case env_kind envl of
        InvitePreview \<Rightarrow> Inr AuditOnly
      | PrincipalUpsert \<Rightarrow> remote_principal_command env envl
      | MembershipJoin \<Rightarrow> membership_join_command env envl
      | MembershipLeave \<Rightarrow> membership_leave_command envl
      | MembershipRemove \<Rightarrow> membership_moderation_command envl Op_Remove
      | MembershipBan \<Rightarrow> membership_moderation_command envl Op_Ban
      | MembershipUnban \<Rightarrow> membership_moderation_command envl Op_Unban
      | _ \<Rightarrow> Inl Runtime_UnsupportedEventKind)"

section \<open>What a command carries\<close>

text \<open>The remote user a command acts for, as a pair of home peer and user id there.\<close>

fun command_actor :: "runtime_command \<Rightarrow> (string \<times> string) option" where
  "command_actor AuditOnly = None"
| "command_actor (Cmd_UpsertRemotePrincipal p u _ _ _) = Some (p, u)"
| "command_actor (Cmd_MembershipJoin p u _ _ _) = Some (p, u)"
| "command_actor (Cmd_MembershipLeave p u _) = Some (p, u)"
| "command_actor (Cmd_MembershipRemove p u _ _ _) = Some (p, u)"
| "command_actor (Cmd_MembershipBan p u _ _ _) = Some (p, u)"
| "command_actor (Cmd_MembershipUnban p u _ _) = Some (p, u)"

definition handshake_kinds :: "event_kind set" where
  "handshake_kinds = {InvitePreview, PrincipalUpsert, MembershipJoin, MembershipLeave, MembershipRemove,
     MembershipBan, MembershipUnban}"

lemma runtime_propagation_allowed_iff: "runtime_propagation_allowed kind \<longleftrightarrow> kind \<in> handshake_kinds"
  by (cases kind) (simp_all add: runtime_propagation_allowed_def runtime_propagation_scope_def handshake_kinds_def)

lemma validate_ingress_envelope_Inr [result_iff]:
  "validate_ingress_envelope env v e = Inr d \<longleftrightarrow>
     env_source_peer_id e = vr_source_peer_id v \<and> env_destination_peer_id e = vr_destination_peer_id v \<and>
     env_kind e \<in> handshake_kinds \<and> is_object (env_payload e) \<and>
     (\<exists>hash. ingress_payload_hash env (env_payload e) = Inr hash \<and>
        d = \<lparr>id_source_peer_id = env_source_peer_id e, id_destination_peer_id = env_destination_peer_id e,
             id_remote_event_id = env_event_id e, id_event_kind = env_kind e, id_payload_hash = hash\<rparr>)"
  by (auto simp: validate_ingress_envelope_def runtime_propagation_allowed_iff result_iff split: if_splits)

lemma command_actor_source:
  "command_from_envelope env e = Inr c \<Longrightarrow> command_actor c = Some (p, u) \<Longrightarrow>
     p = env_source_peer_id e \<and> optional_str (env_payload e) ''remoteUserId'' = Some u"
  by (auto simp: command_from_envelope_def remote_principal_command_def membership_join_command_def
      membership_leave_command_def membership_moderation_command_def required_str_def optional_str_def Let_def
      result_iff split: if_splits event_kind.splits moderation_op.splits)

section \<open>Which accepted envelopes have no command\<close>

definition local_id :: "json \<Rightarrow> string \<Rightarrow> bool" where
  "local_id payload key \<longleftrightarrow>
     (case optional_str payload key of
        None \<Rightarrow> False
      | Some s \<Rightarrow> (case parse_i64 s of None \<Rightarrow> False | Some i \<Rightarrow> 0 < i))"

definition no_text :: "json \<Rightarrow> string \<Rightarrow> bool" where
  "no_text payload key \<longleftrightarrow> optional_str payload key = None \<or> optional_str payload key = Some []"

lemma parse_i64_Nil: "parse_i64 [] = None"
  by (simp add: parse_i64_def parse_int_def parse_nat_def)

lemma runtime_error_cases: "(r :: runtime_error + 'a) = Inl x \<Longrightarrow> x \<noteq> Runtime_UnsupportedEventKind \<Longrightarrow> x = Runtime_InvalidPayload"
  by (cases x) auto

lemma required_str_cases:
  "required_str p k = (if no_text p k then Inl Runtime_InvalidPayload else Inr (the (optional_str p k)))"
  by (auto simp: required_str_def no_text_def optional_str_def ok_or_def opt_filter_def split: option.splits)

lemma required_local_id_cases:
  "required_local_id p k =
     (if local_id p k then Inr (the (parse_i64 (the (optional_str p k)))) else Inl Runtime_InvalidPayload)"
  by (auto simp: required_local_id_def required_str_cases no_text_def local_id_def ok_or_def opt_filter_def
      parse_i64_Nil split: option.splits)

lemma conforms_field:
  assumes "conforms env fs p" "f \<in> set fs"
  shows "case json_get p (field_name f) of
      None \<Rightarrow> \<not> field_required f
    | Some v \<Rightarrow> \<not> field_required f \<and> v = Json_Null \<or> has_type env (field_type f) v"
  using assms by (cases p) (auto simp: conforms_def list_all_iff field_ok_def)

lemma conforms_required_id:
  "conforms env fs p \<Longrightarrow> must k Id_Field \<in> set fs \<Longrightarrow> \<not> no_text p k"
  by (drule (1) conforms_field)
    (auto simp: no_text_def optional_str_def is_id_def valid_payload_id_def valid_id_def result_iff
      split: option.splits)

lemma conforms_optional_url:
  "conforms env fs p \<Longrightarrow> may k Url_Field \<in> set fs \<Longrightarrow> optional_public_avatar_url env (optional_str p k)"
  by (drule (1) conforms_field)
    (auto simp: optional_str_def optional_public_avatar_url_def result_iff split: option.splits)

lemma remote_user_in_schema:
  "k \<in> handshake_kinds \<Longrightarrow> k \<noteq> InvitePreview \<Longrightarrow> must ''remoteUserId'' Id_Field \<in> set (payload_schema k)"
  by (auto simp: handshake_kinds_def)

text \<open>
  Which accepted envelopes are refused, and with which error: a kind that is not a
  handshake is unsupported; a handshake payload is invalid exactly when the user name or display
  name is outside the metadata rules, the server or the target is not a positive 64-bit id, or a
  join carries neither an invite code nor its hash. Everything else the envelope parser let
  through has a command.
\<close>
lemma command_errors_exact:
  assumes "envelope_from_json env bytes = Inr e"
  defines "p \<equiv> env_payload e" and "kind \<equiv> env_kind e"
  shows "command_from_envelope env e = Inl err \<longleftrightarrow>
    err = Runtime_UnsupportedEventKind \<and> kind \<notin> handshake_kinds \<or>
    err = Runtime_InvalidPayload \<and>
      (kind = PrincipalUpsert \<and>
         \<not> (optional_username (optional_str p ''username'') \<and> optional_display_name (optional_str p ''displayName'')) \<or>
       kind \<in> handshake_kinds - {InvitePreview, PrincipalUpsert} \<and> \<not> local_id p ''serverId'' \<or>
       kind \<in> {MembershipRemove, MembershipBan, MembershipUnban} \<and> \<not> local_id p ''targetUserId'' \<or>
       kind = MembershipJoin \<and> no_text p ''inviteCode'' \<and> no_text p ''inviteCodeHash'')"
proof -
  have typed: "conforms env (payload_schema kind) p"
    using accepted_payload_conforms [OF assms(1)] unfolding p_def kind_def .
  have user: "kind \<in> handshake_kinds \<Longrightarrow> kind \<noteq> InvitePreview \<Longrightarrow> \<not> no_text p ''remoteUserId''"
    using conforms_required_id [OF typed remote_user_in_schema] by blast
  have url: "optional_public_avatar_url env (optional_str p ''avatarUrl'')" if "kind = PrincipalUpsert"
    using conforms_optional_url [OF typed, of "''avatarUrl''"] that by simp
  note defs = command_from_envelope_def runtime_propagation_allowed_iff kind_def [symmetric] p_def [symmetric]
    required_str_cases required_local_id_cases
  show ?thesis
  proof (cases "kind \<in> handshake_kinds")
    case True
    then consider "kind = InvitePreview" | "kind = PrincipalUpsert" | "kind = MembershipJoin" | "kind = MembershipLeave"
      | "kind = MembershipRemove" | "kind = MembershipBan" | "kind = MembershipUnban"
      by (auto simp: handshake_kinds_def)
    then show ?thesis
    proof cases
      case 2
      with user url show ?thesis
        by (auto simp: defs handshake_kinds_def remote_principal_command_def new_metadata_def)
    next
      case 3
      with user show ?thesis
        by (auto simp: defs handshake_kinds_def membership_join_command_def Let_def no_text_def opt_filter_def
            split: option.splits if_splits)
    qed (use user in \<open>auto simp: defs handshake_kinds_def membership_leave_command_def membership_moderation_command_def Let_def\<close>)
  qed (auto simp: defs, simp_all add: handshake_kinds_def)
qed

definition demo_join_payload :: json where
  "demo_join_payload = Json_Object
     [(''serverId'', Json_String ''7''), (''remoteUserId'', Json_String ''u1''), (''inviteCode'', Json_Null)]"

definition demo_fed_env :: fed_env where
  "demo_fed_env = \<lparr>
     url_parse = (\<lambda>_. None),
     url_join = (\<lambda>_ _. None),
     parse_ip = (\<lambda>_. None),
     parse_raw = (\<lambda>bytes. Some \<lparr>raw_protocol_version = 1, raw_event_id = bytes, raw_kind = ''membership_join'',
       raw_source_peer_id = ''a.example'', raw_destination_peer_id = ''b.example'', raw_sent_at_ms = 5,
       raw_payload = demo_join_payload\<rparr>),
     to_vec = (\<lambda>_. Some ''text''),
     digests = demo_auth_env\<rparr>"

lemma command_errors_exact_witness:
  "\<exists>e. envelope_from_json demo_fed_env ''evt-1'' = Inr e \<and> command_from_envelope demo_fed_env e = Inl Runtime_InvalidPayload"
proof -
  let ?e = "\<lparr>env_protocol_version = 1, env_event_id = ''evt-1'', env_kind = MembershipJoin,
    env_source_peer_id = ''a.example'', env_destination_peer_id = ''b.example'', env_sent_at_ms = 5,
    env_payload = demo_join_payload\<rparr>"
  have e: "envelope_from_json demo_fed_env ''evt-1'' = Inr ?e" by code_simp
  have "no_text demo_join_payload ''inviteCode''" "no_text demo_join_payload ''inviteCodeHash''" by code_simp+
  with command_errors_exact [OF e, of Runtime_InvalidPayload] e show ?thesis by (intro exI [of _ ?e]) simp
qed

end
