(* ===== verification/Fed_Client.thy ===== *)
theory Fed_Client
  imports Fed_Ingress
begin

text \<open>
  Requests to another peer: the checks of a peer's origin and the signed request
  (\<open>src/server-rs/src/federation/client.rs\<close>), the guarded resolver it connects through, and the
  target of an invite (\<open>src/server-rs/src/federation/invite_join.rs\<close>). Building and sending the HTTP
  request and looking up a name are parameters.
\<close>

section \<open>Parameters\<close>

record http_request =
  rq_method :: string
  rq_url :: parsed_url
  rq_headers :: headers
  rq_body :: string

record client_env = fed_env +
  build_ok :: "http_request \<Rightarrow> bool"
  execute :: "http_request \<Rightarrow> nat option"
  lookup_host :: "string \<Rightarrow> ip_addr list option"

record peer_endpoint =
  pe_peer_id :: string
  pe_api_origin :: string

datatype client_error = InvalidPeerEndpoint | Sign sign_error | BuildRequest | Delivery

section \<open>The origin of a peer\<close>

definition valid_path_and_query :: "string \<Rightarrow> bool" where
  "valid_path_and_query value \<longleftrightarrow>
     starts_with value ''/'' \<and> length value \<le> 2048 \<and> CHR 0x0D \<notin> set value \<and> CHR 0x0A \<notin> set value
     \<and> \<not> starts_with value ''//''"

definition trim_dots :: "string \<Rightarrow> string" where
  "trim_dots s = trim_end_by (\<lambda>c. c = CHR ''.'') s"

definition peer_identity_allows_origin_host :: "string \<Rightarrow> string \<Rightarrow> bool" where
  "peer_identity_allows_origin_host peer_id origin_host =
     (case strip_prefix ''host:'' peer_id of
        None \<Rightarrow> True
      | Some peer_host \<Rightarrow>
          let peer_host = to_ascii_lowercase (trim_dots peer_host);
              origin_host = to_ascii_lowercase (trim_dots origin_host)
          in peer_host \<noteq> [] \<and> (origin_host = peer_host \<or> ends_with origin_host (CHR ''.'' # peer_host)))"

definition is_loopback_host :: "string \<Rightarrow> bool" where
  "is_loopback_host host \<longleftrightarrow> host = ''localhost'' \<or> host = ''127.0.0.1'' \<or> host = ''::1''"

definition origin_ok :: "'a fed_env_scheme \<Rightarrow> string \<Rightarrow> parsed_url \<Rightarrow> string \<Rightarrow> bool" where
  "origin_ok env peer_id origin host =
     (let scheme_allowed =
            (if scheme origin = ''https'' then is_public_federation_host (parse_ip env) host
             else if scheme origin = ''http'' then is_loopback_host host
             else False)
      in peer_identity_allows_origin_host peer_id host \<and>
         \<not> (\<not> scheme_allowed \<or> url_username origin \<noteq> [] \<or> url_password origin \<noteq> None
            \<or> url_path origin \<noteq> ''/'' \<or> url_query origin \<noteq> None \<or> url_fragment origin \<noteq> None))"

definition peer_url :: "'a fed_env_scheme \<Rightarrow> peer_endpoint \<Rightarrow> string \<Rightarrow> client_error + parsed_url" where
  "peer_url env peer path_and_query =
     (if \<not> valid_path_and_query path_and_query then Inl InvalidPeerEndpoint
      else case url_parse env (pe_api_origin peer) of
        None \<Rightarrow> Inl InvalidPeerEndpoint
      | Some origin \<Rightarrow>
          (case host_str origin of
             None \<Rightarrow> Inl InvalidPeerEndpoint
           | Some host \<Rightarrow>
               if \<not> origin_ok env (pe_peer_id peer) origin host then Inl InvalidPeerEndpoint
               else ok_or (url_join env origin path_and_query) InvalidPeerEndpoint))"

section \<open>Signed requests\<close>

definition signed_json_request ::
  "'a client_env_scheme \<Rightarrow> signer \<Rightarrow> string \<Rightarrow> peer_endpoint \<Rightarrow> string \<Rightarrow> string \<Rightarrow> int \<Rightarrow> string
    \<Rightarrow> client_error + http_request" where
  "signed_json_request env signer method peer path_and_query body timestamp_ms nonce =
     bind_result (peer_url env peer path_and_query) (\<lambda>url.
     bind_result (map_err Sign
       (sign_request (digests env) signer method path_and_query (pe_peer_id peer) body timestamp_ms nonce)) (\<lambda>headers.
     let request = \<lparr>rq_method = method, rq_url = url,
                    rq_headers = headers(''content-type'' \<mapsto> ''application/json''), rq_body = body\<rparr>
     in bind_result (guard (build_ok env request) BuildRequest) (\<lambda>_. Inr request)))"

definition send_signed_json_request ::
  "'a client_env_scheme \<Rightarrow> signer \<Rightarrow> string \<Rightarrow> peer_endpoint \<Rightarrow> string \<Rightarrow> string \<Rightarrow> int \<Rightarrow> string
    \<Rightarrow> client_error + nat" where
  "send_signed_json_request env signer method peer path_and_query body timestamp_ms nonce =
     bind_result (signed_json_request env signer method peer path_and_query body timestamp_ms nonce) (\<lambda>request.
     ok_or (execute env request) Delivery)"

section \<open>The guarded resolver\<close>

fun is_loopback_addr :: "ip_addr \<Rightarrow> bool" where
  "is_loopback_addr (V4 ip) = std_is_loopback4 ip"
| "is_loopback_addr (V6 ip) = std_is_loopback6 ip"

definition resolve_public_socket_addrs :: "'a client_env_scheme \<Rightarrow> string \<Rightarrow> public_net_error + ip_addr list" where
  "resolve_public_socket_addrs env host =
     (case lookup_host env host of
        None \<Rightarrow> Inl UnsafeTarget
      | Some addresses \<Rightarrow> filter_public_socket_addrs addresses)"

datatype resolve_error = Lookup_Failed | Outside_Loopback | Unsafe public_net_error

definition resolve_peer_host :: "'a client_env_scheme \<Rightarrow> string \<Rightarrow> resolve_error + ip_addr list" where
  "resolve_peer_host env host =
     (if is_loopback_host host then
        (case lookup_host env host of
           None \<Rightarrow> Inl Lookup_Failed
         | Some resolved \<Rightarrow>
             if list_all is_loopback_addr resolved \<and> resolved \<noteq> [] then Inr resolved
             else Inl Outside_Loopback)
      else map_err Unsafe (resolve_public_socket_addrs env host))"

section \<open>The target of an invite\<close>

datatype invite_join_error = InvalidTarget | InvalidInviteCode | Join_Storage | Join_Producer

definition invite_identity_allows_origin_host :: "string \<Rightarrow> string \<Rightarrow> bool" where
  "invite_identity_allows_origin_host peer_id origin_host =
     (case strip_prefix ''host:'' peer_id of
        None \<Rightarrow> str_trim peer_id \<noteq> []
      | Some peer_host \<Rightarrow>
          let peer_host = to_ascii_lowercase (trim_dots peer_host);
              origin_host = to_ascii_lowercase (trim_dots origin_host)
          in peer_host \<noteq> [] \<and> (origin_host = peer_host \<or> ends_with origin_host (CHR ''.'' # peer_host)))"

definition invite_is_loopback_host :: "string \<Rightarrow> bool" where
  "invite_is_loopback_host host =
     (let host = to_ascii_lowercase (trim_end_by (\<lambda>c. c = CHR '']'') (trim_start_by (\<lambda>c. c = CHR ''['') host))
      in host = ''localhost'' \<or> host = ''127.0.0.1'' \<or> host = ''::1'')"

definition normalize_federated_invite_target_origin ::
  "'a fed_env_scheme \<Rightarrow> string \<Rightarrow> string \<Rightarrow> invite_join_error + string" where
  "normalize_federated_invite_target_origin env target_peer_id raw_origin =
     (case url_parse env (str_trim raw_origin) of
        None \<Rightarrow> Inl InvalidTarget
      | Some parsed \<Rightarrow>
          if url_username parsed \<noteq> [] \<or> url_password parsed \<noteq> None \<or> url_path parsed \<noteq> ''/''
            \<or> url_query parsed \<noteq> None \<or> url_fragment parsed \<noteq> None then Inl InvalidTarget
          else (case host_str parsed of
             None \<Rightarrow> Inl InvalidTarget
           | Some host \<Rightarrow>
               if \<not> invite_identity_allows_origin_host target_peer_id host then Inl InvalidTarget
               else
                 let scheme_allowed =
                       (if scheme parsed = ''https'' then is_public_federation_host (parse_ip env) host
                        else if scheme parsed = ''http'' then invite_is_loopback_host host
                        else False)
                 in if \<not> scheme_allowed then Inl InvalidTarget
                    else Inr (scheme parsed @ ''://'' @ to_ascii_lowercase host @
                              (case url_port parsed of None \<Rightarrow> [] | Some port \<Rightarrow> CHR '':'' # nat_str port))))"

definition valid_invite_code :: "string \<Rightarrow> bool" where
  "valid_invite_code value \<longleftrightarrow> value \<noteq> [] \<and> length value \<le> 64 \<and> list_all ascii_alnum value"

section \<open>Where a request can go\<close>

text \<open>
  Joining an absolute path to an origin keeps the origin (\<open>Url::join\<close>); stated for the one path
  the outbox uses.
\<close>

definition join_keeps_origin :: "'a fed_env_scheme \<Rightarrow> string \<Rightarrow> bool" where
  "join_keeps_origin env path \<longleftrightarrow>
     (\<forall>b u. url_join env b path = Some u \<longrightarrow>
        scheme u = scheme b \<and> host_str u = host_str b \<and> url_port u = url_port b)"

definition same_or_subdomain :: "string \<Rightarrow> string \<Rightarrow> bool" where
  "same_or_subdomain host parent \<longleftrightarrow> host = parent \<or> (\<exists>label. host = label @ CHR ''.'' # parent)"

lemma peer_identity_subdomain:
  "peer_identity_allows_origin_host (''host:'' @ h) host \<longleftrightarrow>
     to_ascii_lowercase (trim_dots h) \<noteq> [] \<and>
     same_or_subdomain (to_ascii_lowercase (trim_dots host)) (to_ascii_lowercase (trim_dots h))"
  by (auto simp: peer_identity_allows_origin_host_def strip_prefix_def starts_with_def same_or_subdomain_def
      ends_with_iff Let_def)

text \<open>
  A signed request leaves only for the peer it is signed for: over https to a host that is
  not a private address or over http to the local machine, and if the peer id names a host, to
  that host or a subdomain of it. Its headers verify against the named destination only.
\<close>
lemma requests_go_to_the_named_peer:
  assumes "join_keeps_origin env path"
    and "signed_json_request env sg method peer path body t nonce = Inr req"
  shows "\<exists>host. host_str (rq_url req) = Some host \<and>
    (scheme (rq_url req) = ''https'' \<and> is_public_federation_host (parse_ip env) host \<or>
     scheme (rq_url req) = ''http'' \<and> is_loopback_host host) \<and>
    (\<forall>h. pe_peer_id peer = ''host:'' @ h \<longrightarrow>
       same_or_subdomain (to_ascii_lowercase (trim_dots host)) (to_ascii_lowercase (trim_dots h))) \<and>
    rq_headers req header_destination = header_from_str (digests env) (pe_peer_id peer)"
proof -
  obtain url hs where r: "peer_url env peer path = Inr url"
      "sign_request (digests env) sg method path (pe_peer_id peer) body t nonce = Inr hs"
      "rq_url req = url" "rq_headers req = hs(''content-type'' \<mapsto> ''application/json'')"
    using assms(2) by (auto simp: signed_json_request_def result_iff Let_def)
  obtain b host where b: "host_str b = Some host" "origin_ok env (pe_peer_id peer) b host" "url_join env b path = Some url"
    using r(1) by (auto simp: peer_url_def result_iff split: if_splits option.splits)
  have "scheme url = scheme b" "host_str url = host_str b"
    using assms(1) b(3) by (auto simp: join_keeps_origin_def)
  moreover have "hs header_destination = header_from_str (digests env) (pe_peer_id peer)"
  proof -
    obtain bh sig where "insert_headers (digests env) Map.empty (header_list sg (pe_peer_id peer) t nonce bh sig) = Inr hs"
      using sign_request_inserts [OF r(2)] by blast
    from insert_headers_get [OF this header_list_distinct, of header_destination "pe_peer_id peer"]
    show ?thesis by (auto simp: header_list_def)
  qed
  ultimately show ?thesis
    using b r peer_identity_subdomain
    by (auto simp: origin_ok_def Let_def header_destination_def split: if_splits)
qed

text \<open>
  The resolver never hands out a mixed answer: a name gives addresses only if there is at
  least one and either the name is one of the loopback names and every address is loopback, or
  it is not and every address is public. A loopback name is never reached over the network and
  no other name reaches the loopback.
\<close>
lemma resolver_is_guarded:
  "resolve_peer_host env host = Inr addrs \<longleftrightarrow>
     lookup_host env host = Some addrs \<and> addrs \<noteq> [] \<and>
     list_all (if is_loopback_host host then is_loopback_addr else is_public_ip) addrs"
  by (auto simp: resolve_peer_host_def resolve_public_socket_addrs_def result_iff split: option.splits if_splits)

definition demo_origin :: parsed_url where
  "demo_origin = \<lparr>scheme = ''https'', url_username = [], url_password = None, url_query = None, url_fragment = None,
     host_str = Some ''api.b.example'', url_port = None, url_path = ''/'', path_segments = Some [[]]\<rparr>"

definition demo_client_env :: client_env where
  "demo_client_env = \<lparr>
     url_parse = (\<lambda>_. Some demo_origin),
     url_join = (\<lambda>origin path. Some (origin\<lparr>url_path := path\<rparr>)),
     parse_ip = (\<lambda>_. None),
     parse_raw = (\<lambda>_. None),
     to_vec = (\<lambda>_. Some ''text''),
     digests = demo_auth_env,
     build_ok = (\<lambda>_. True),
     execute = (\<lambda>_. Some 200),
     lookup_host = (\<lambda>_. None)\<rparr>"

lemma requests_go_to_the_named_peer_witness:
  "\<exists>request. signed_json_request demo_client_env demo_signer ''POST''
       \<lparr>pe_peer_id = ''host:b.example'', pe_api_origin = ''https://api.b.example''\<rparr> ''/x'' ''body'' 5
       ''nonce-0123456789'' = Inr request \<and> host_str (rq_url request) \<noteq> None"
proof -
  let ?r = "signed_json_request demo_client_env demo_signer ''POST''
    \<lparr>pe_peer_id = ''host:b.example'', pe_api_origin = ''https://api.b.example''\<rparr> ''/x'' ''body'' 5 ''nonce-0123456789''"
  have "is_ok ?r" by code_simp
  then obtain request where r: "?r = Inr request" by (cases ?r) (auto simp: is_ok_def)
  have "join_keeps_origin demo_client_env ''/x''" by (simp add: join_keeps_origin_def demo_client_env_def)
  from requests_go_to_the_named_peer [OF this r] r show ?thesis by auto
qed

end
