(* ===== verification/Fed_Storage.thy ===== *)
theory Fed_Storage
  imports Pg_Store Fed_Client "HOL-Library.Product_Lexorder" "HOL-Library.List_Lexorder"
begin

text \<open>
  The tables of the federation runtime and the statements that read and write them
  (\<open>src/server-rs/src/federation/storage.rs\<close>, constraints from
  \<open>src/server-rs/migrations/0028_federation_runtime_foundation.sql\<close>). A table is a list of rows,
  a statement a step on the database. \<open>fd_faults\<close> says, statement by statement, which ones fail;
  a failing statement changes nothing. Columns no modelled code reads are left out.
\<close>

section \<open>Rows\<close>

record principal_row =
  pr_id :: int
  pr_home_peer_id :: string
  pr_remote_user_id :: string
  pr_local_user_id :: "int option"
  pr_remote_username :: "string option"
  pr_display_name :: "string option"
  pr_avatar_url :: "string option"
  pr_status :: string
  pr_updated_at_ms :: int

record peer_key_row =
  kr_peer_id :: string
  kr_key_id :: string
  kr_api_origin :: string
  kr_public_key :: string
  kr_status :: string
  kr_valid_after_ms :: "int option"
  kr_valid_until_ms :: "int option"
  kr_updated_at_ms :: int

record route_row =
  rt_peer_id :: string
  rt_scope_type :: string
  rt_scope_id :: int
  rt_status :: string
  rt_updated_at_ms :: int

record nonce_row =
  nr_id :: int
  nr_source_peer_id :: string
  nr_key_id :: string
  nr_nonce :: string
  nr_timestamp_ms :: int
  nr_expires_at_ms :: int

record inbound_row =
  in_id :: int
  in_source_peer_id :: string
  in_remote_event_id :: string
  in_event_kind :: string
  in_payload_hash :: string
  in_status :: string
  in_accepted_at_ms :: "int option"
  in_updated_at_ms :: int

record outbound_row =
  ob_id :: int
  ob_destination_peer_id :: string
  ob_event_id :: string
  ob_event_kind :: string
  ob_payload_hash :: string
  ob_body_json :: json
  ob_status :: string
  ob_attempt_count :: int
  ob_next_attempt_at_ms :: "int option"
  ob_last_error_code :: "string option"
  ob_updated_at_ms :: int

record fed_db =
  fd_faults :: "bool list"
  fd_users :: "user_row list"
  fd_principals :: "principal_row list"
  fd_peer_keys :: "peer_key_row list"
  fd_routes :: "route_row list"
  fd_nonces :: "nonce_row list"
  fd_inbound :: "inbound_row list"
  fd_outbound :: "outbound_row list"

section \<open>Statements\<close>

definition db_call :: "('a fed_db_scheme \<Rightarrow> 'b \<times> 'a fed_db_scheme) \<Rightarrow> ('a fed_db_scheme, sqlx_error, 'b) step" where
  "db_call op db =
     (let db' = db\<lparr>fd_faults := tl (fd_faults db)\<rparr>
      in if fd_faults db \<noteq> [] \<and> hd (fd_faults db) then (Inl Sqlx_Error, db')
         else (case op db' of (x, db'') \<Rightarrow> (Inr x, db'')))"

text \<open>A statement that may violate a key.\<close>

definition db_try :: "('a fed_db_scheme \<Rightarrow> ('b \<times> 'a fed_db_scheme) option) \<Rightarrow> ('a fed_db_scheme, sqlx_error, 'b) step" where
  "db_try op db =
     (let db' = db\<lparr>fd_faults := tl (fd_faults db)\<rparr>
      in if fd_faults db \<noteq> [] \<and> hd (fd_faults db) then (Inl Sqlx_Error, db')
         else (case op db' of None \<Rightarrow> (Inl Sqlx_Error, db') | Some (x, db'') \<Rightarrow> (Inr x, db'')))"

definition update_where :: "('r \<Rightarrow> bool) \<Rightarrow> ('r \<Rightarrow> 'r) \<Rightarrow> 'r list \<Rightarrow> 'r list" where
  "update_where P f rows = map (\<lambda>r. if P r then f r else r) rows"

section \<open>Retry arithmetic\<close>

definition sat_i64 :: "int \<Rightarrow> int" where
  "sat_i64 x = max i64_min (min i64_max x)"

definition sat_add_i64 :: "int \<Rightarrow> int \<Rightarrow> int" where
  "sat_add_i64 a b = sat_i64 (a + b)"

definition sat_add_i32 :: "int \<Rightarrow> int \<Rightarrow> int" where
  "sat_add_i32 a b = max (- (2 ^ 31)) (min i32_max (a + b))"

definition next_retry_at_ms :: "int \<Rightarrow> int \<Rightarrow> int" where
  "next_retry_at_ms now_ms attempt_count =
     (let shift = nat (max 0 (min 5 attempt_count));
          delay = min (sat_i64 (1000 * 2 ^ shift)) 30000
      in sat_add_i64 now_ms delay)"

text \<open>
  The loop of \<open>sanitize_outbound_error_code\<close> over bytes: a character outside ASCII is a run of
  bytes of which only the first can add a separator.
\<close>

fun sanitize_loop :: "string \<Rightarrow> bool \<Rightarrow> string \<Rightarrow> string" where
  "sanitize_loop out last_was_sep [] = out"
| "sanitize_loop out last_was_sep (c # cs) =
     (if 96 \<le> length out then out
      else if ascii_alnum c \<or> c = CHR ''_'' \<or> c = CHR ''-'' then sanitize_loop (out @ [c]) False cs
      else if \<not> last_was_sep then sanitize_loop (out @ ''_'') True cs
      else sanitize_loop out last_was_sep cs)"

definition sanitize_outbound_error_code :: "string \<Rightarrow> string" where
  "sanitize_outbound_error_code value =
     (let out = sanitize_loop [] False value;
          trimmed = trim_end_by (\<lambda>c. c = CHR ''_'') (trim_start_by (\<lambda>c. c = CHR ''_'') out)
      in if trimmed = [] then ''UNSPECIFIED_DELIVERY_FAILURE'' else trimmed)"

record failure_plan =
  fp_status :: string
  fp_attempt_count :: int
  fp_next_attempt_at_ms :: "int option"
  fp_last_error_code :: string

definition outbound_max_attempts :: int where "outbound_max_attempts = 8"

definition next_outbound_failure_plan :: "int \<Rightarrow> int \<Rightarrow> string \<Rightarrow> failure_plan" where
  "next_outbound_failure_plan now_ms previous_attempt_count error_code =
     (let attempt_count = max 1 (sat_add_i32 previous_attempt_count 1);
          dead = outbound_max_attempts \<le> attempt_count
      in \<lparr>fp_status = (if dead then ''dead'' else ''failed''), fp_attempt_count = attempt_count,
          fp_next_attempt_at_ms = (if \<not> dead then Some (next_retry_at_ms now_ms previous_attempt_count) else None),
          fp_last_error_code = sanitize_outbound_error_code error_code\<rparr>)"

section \<open>Remote principals\<close>

record upsert_remote_principal =
  up_principal_id :: int
  up_local_user_id :: int
  up_home_peer_id :: string
  up_remote_user_id :: string
  up_remote_username :: "string option"
  up_display_name :: "string option"
  up_avatar_url :: "string option"
  up_now_ms :: int

definition insert_user_if_absent :: "user_row \<Rightarrow> user_row list \<Rightarrow> user_row list" where
  "insert_user_if_absent u users =
     (if list_ex (\<lambda>r. us_id r = us_id u \<or> to_ascii_lowercase (us_email r) = to_ascii_lowercase (us_email u)
           \<or> to_ascii_lowercase (us_username r) = to_ascii_lowercase (us_username u)) users
      then users else users @ [u])"

text \<open>
  The insert or update of the mapping, with the local user id it returns; \<open>None\<close> if the local user
  is already mapped to another principal, or the id of a row to insert is taken.
\<close>

definition upsert_principal_row ::
  "int \<Rightarrow> upsert_remote_principal \<Rightarrow> principal_row list \<Rightarrow> (int \<times> principal_row list) option" where
  "upsert_principal_row local_user_id p rows =
     (let same = (\<lambda>r. pr_home_peer_id r = up_home_peer_id p \<and> pr_remote_user_id r = up_remote_user_id p);
          mapped = (case Option.bind (List.find same rows) pr_local_user_id of Some i \<Rightarrow> i | None \<Rightarrow> local_user_id)
      in if list_ex (\<lambda>r. \<not> same r \<and> pr_local_user_id r = Some mapped) rows then None
         else if list_ex same rows then
           Some (mapped, update_where same
             (\<lambda>r. r\<lparr>pr_local_user_id := Some mapped, pr_remote_username := up_remote_username p,
                    pr_display_name := up_display_name p, pr_avatar_url := up_avatar_url p,
                    pr_status := ''active'', pr_updated_at_ms := up_now_ms p\<rparr>) rows)
         else if list_ex (\<lambda>r. pr_id r = up_principal_id p) rows then None
         else Some (mapped, rows @
           [\<lparr>pr_id = up_principal_id p, pr_home_peer_id = up_home_peer_id p, pr_remote_user_id = up_remote_user_id p,
             pr_local_user_id = Some mapped, pr_remote_username = up_remote_username p,
             pr_display_name = up_display_name p, pr_avatar_url = up_avatar_url p, pr_status = ''active'',
             pr_updated_at_ms = up_now_ms p\<rparr>]))"

text \<open>
  The transaction: the user insert, the read of the id by email (\<open>fetch_one\<close> fails on no row),
  the update of the local row and the upsert of the mapping. An error rolls everything back.
\<close>

definition upsert_transaction ::
  "upsert_remote_principal \<Rightarrow> remote_principal_row \<Rightarrow> ('a fed_db_scheme, sqlx_error, int) step" where
  "upsert_transaction p projection =
     st_bind (db_call (\<lambda>db. ((), db))) (\<lambda>_.
     st_bind (db_call (\<lambda>db. ((), db\<lparr>fd_users := insert_user_if_absent
       \<lparr>us_id = up_local_user_id p, us_email = row_email projection,
        us_password_hash = row_password_hash projection, us_username = row_username projection,
        us_display_name = up_display_name p, us_avatar_url = None,
        us_email_verified = False, us_totp_secret = None, us_totp_enabled_at_ms = None,
        us_backup_code_hashes = [], us_deleted_at_ms = None, us_updated_at_ms = up_now_ms p\<rparr> (fd_users db)\<rparr>))) (\<lambda>_.
     st_bind (db_call (\<lambda>db. (List.find (\<lambda>u. to_ascii_lowercase (us_email u) =
       to_ascii_lowercase (row_email projection)) (fd_users db), db))) (\<lambda>found.
     st_bind (st_lift (ok_or (map_option us_id found) Sqlx_Error)) (\<lambda>local_user_id.
     st_bind (db_call (\<lambda>db. ((), db\<lparr>fd_users := update_where
       (\<lambda>u. us_id u = local_user_id \<and> us_password_hash u = remote_principal_password_hash)
       (\<lambda>u. u\<lparr>us_display_name := up_display_name p, us_updated_at_ms := up_now_ms p\<rparr>)
       (fd_users db)\<rparr>))) (\<lambda>_.
     st_bind (db_call (\<lambda>db. case upsert_principal_row local_user_id p (fd_principals db) of
       None \<Rightarrow> (None, db)
     | Some (mapped, rows) \<Rightarrow> (Some mapped, db\<lparr>fd_principals := rows\<rparr>))) (\<lambda>mapped.
     st_bind (st_lift (ok_or mapped Sqlx_Error)) (\<lambda>mapped.
     st_bind (db_call (\<lambda>db. ((), db))) (\<lambda>_.
     st_return mapped))))))))"

definition upsert_remote_principal ::
  "'b digest_env_scheme \<Rightarrow> upsert_remote_principal \<Rightarrow> ('a fed_db_scheme, sqlx_error, int) step" where
  "upsert_remote_principal env p db =
     (case remote_principal_projection env (up_home_peer_id p) (up_remote_user_id p) of
        Inl _ \<Rightarrow> (Inl Sqlx_Error, db)
      | Inr projection \<Rightarrow>
          (case upsert_transaction p projection db of
             (Inr mapped, db') \<Rightarrow> (Inr mapped, db')
           | (Inl e, db') \<Rightarrow> (Inl e, db\<lparr>fd_faults := fd_faults db'\<rparr>)))"

definition local_user_id_for_remote_principal ::
  "string \<Rightarrow> string \<Rightarrow> ('a fed_db_scheme, sqlx_error, int option) step" where
  "local_user_id_for_remote_principal home_peer_id remote_user_id =
     db_call (\<lambda>db. (Option.bind (List.find (\<lambda>r. pr_home_peer_id r = home_peer_id \<and>
        pr_remote_user_id r = remote_user_id \<and> pr_status r = ''active'') (fd_principals db)) pr_local_user_id, db))"

section \<open>Peer keys and endpoints\<close>

definition peer_key_by_peer_and_key ::
  "string \<Rightarrow> string \<Rightarrow> ('a fed_db_scheme, sqlx_error, peer_key option) step" where
  "peer_key_by_peer_and_key peer_id key_id =
     st_bind (db_call (\<lambda>db. (List.find (\<lambda>r. kr_peer_id r = peer_id \<and> kr_key_id r = key_id \<and>
        kr_status r = ''active'') (fd_peer_keys db), db))) (\<lambda>found.
     case found of
       None \<Rightarrow> st_return None
     | Some row \<Rightarrow>
         if length (kr_public_key row) \<noteq> 32 then st_fail Sqlx_Error
         else st_return (Some \<lparr>pk_peer_id = kr_peer_id row, pk_key_id = kr_key_id row,
                pk_public_key = kr_public_key row, pk_valid_after_ms = kr_valid_after_ms row,
                pk_valid_until_ms = kr_valid_until_ms row\<rparr>))"

text \<open>\<open>ORDER BY valid_until_ms NULLS LAST, updated_at_ms DESC LIMIT 1\<close>.\<close>

definition endpoint_order :: "peer_key_row \<Rightarrow> bool \<times> int \<times> int" where
  "endpoint_order r =
     (case kr_valid_until_ms r of
        Some t \<Rightarrow> (False, t, - kr_updated_at_ms r)
      | None \<Rightarrow> (True, 0, - kr_updated_at_ms r))"

definition peer_endpoint_by_peer_id :: "string \<Rightarrow> ('a fed_db_scheme, sqlx_error, peer_endpoint option) step" where
  "peer_endpoint_by_peer_id peer_id =
     db_call (\<lambda>db.
       ((case sort_key endpoint_order
                (filter (\<lambda>r. kr_peer_id r = peer_id \<and> kr_status r = ''active'') (fd_peer_keys db)) of
           [] \<Rightarrow> None
         | r # _ \<Rightarrow> Some \<lparr>pe_peer_id = peer_id, pe_api_origin = kr_api_origin r\<rparr>), db))"

section \<open>Routes\<close>

datatype route_scope = Scope_Server int | Scope_Channel int | Scope_Dm int | Scope_Principal int

datatype peer_route = Route_Server int | Route_Channel int | Route_Dm int | Route_Principal int

record producer_peer =
  pp_peer_id :: string
  pp_routes :: "peer_route list"
  pp_active :: bool

fun scope_query_parts :: "route_scope \<Rightarrow> string \<times> int" where
  "scope_query_parts (Scope_Server server_id) = (''server'', server_id)"
| "scope_query_parts (Scope_Channel channel_id) = (''channel'', channel_id)"
| "scope_query_parts (Scope_Dm channel_id) = (''dm'', channel_id)"
| "scope_query_parts (Scope_Principal user_id) = (''principal'', user_id)"

definition peer_route_from_row :: "string \<Rightarrow> int \<Rightarrow> sqlx_error + peer_route" where
  "peer_route_from_row scope_type scope_id =
     (if scope_type = ''server'' then Inr (Route_Server scope_id)
      else if scope_type = ''channel'' then Inr (Route_Channel scope_id)
      else if scope_type = ''dm'' then Inr (Route_Dm scope_id)
      else if scope_type = ''principal'' then Inr (Route_Principal scope_id)
      else Inl Sqlx_Error)"

fun collect_results :: "('e + 'a) list \<Rightarrow> 'e + 'a list" where
  "collect_results [] = Inr []"
| "collect_results (r # rs) = bind_result r (\<lambda>x. bind_result (collect_results rs) (\<lambda>xs. Inr (x # xs)))"

text \<open>\<open>SELECT DISTINCT\<close> on the join with the active keys, in the order of the peer ids.\<close>

definition routes_for_scope :: "string \<Rightarrow> int \<Rightarrow> 'a fed_db_scheme \<Rightarrow> (string \<times> string \<times> int) list" where
  "routes_for_scope scope_type scope_id db =
     sort_key (\<lambda>(peer, _, _). map byte peer) (remdups (map (\<lambda>r. (rt_peer_id r, rt_scope_type r, rt_scope_id r))
       (filter (\<lambda>r. rt_status r = ''active'' \<and> rt_scope_type r = scope_type \<and> rt_scope_id r = scope_id \<and>
          list_ex (\<lambda>k. kr_peer_id k = rt_peer_id r \<and> kr_status k = ''active'') (fd_peer_keys db)) (fd_routes db))))"

definition producer_peers_for_scope :: "route_scope \<Rightarrow> ('a fed_db_scheme, sqlx_error, producer_peer list) step" where
  "producer_peers_for_scope scope =
     (case scope_query_parts scope of (scope_type, scope_id) \<Rightarrow>
       st_bind (db_call (\<lambda>db. (routes_for_scope scope_type scope_id db, db))) (\<lambda>rows.
       st_lift (collect_results (map (\<lambda>(peer_id, scope_type, scope_id).
         bind_result (peer_route_from_row scope_type scope_id) (\<lambda>route.
           Inr \<lparr>pp_peer_id = peer_id, pp_routes = [route], pp_active = True\<rparr>)) rows))))"

definition route_matches :: "string \<Rightarrow> string \<Rightarrow> int \<Rightarrow> route_row \<Rightarrow> bool" where
  "route_matches peer_id scope_type scope_id r \<longleftrightarrow>
     rt_peer_id r = peer_id \<and> rt_scope_type r = scope_type \<and> rt_scope_id r = scope_id"

definition upsert_peer_route :: "string \<Rightarrow> route_scope \<Rightarrow> int \<Rightarrow> ('a fed_db_scheme, sqlx_error, unit) step" where
  "upsert_peer_route peer_id scope now_ms =
     (case scope_query_parts scope of (scope_type, scope_id) \<Rightarrow>
       db_call (\<lambda>db. ((), db\<lparr>fd_routes :=
         (if list_ex (route_matches peer_id scope_type scope_id) (fd_routes db)
          then update_where (route_matches peer_id scope_type scope_id)
                 (\<lambda>r. r\<lparr>rt_status := ''active'', rt_updated_at_ms := now_ms\<rparr>) (fd_routes db)
          else fd_routes db @ [\<lparr>rt_peer_id = peer_id, rt_scope_type = scope_type, rt_scope_id = scope_id,
                 rt_status = ''active'', rt_updated_at_ms = now_ms\<rparr>])\<rparr>)))"

definition revoke_peer_route :: "string \<Rightarrow> route_scope \<Rightarrow> int \<Rightarrow> ('a fed_db_scheme, sqlx_error, unit) step" where
  "revoke_peer_route peer_id scope now_ms =
     (case scope_query_parts scope of (scope_type, scope_id) \<Rightarrow>
       db_call (\<lambda>db. ((), db\<lparr>fd_routes :=
         update_where (route_matches peer_id scope_type scope_id)
           (\<lambda>r. r\<lparr>rt_status := ''revoked'', rt_updated_at_ms := now_ms\<rparr>) (fd_routes db)\<rparr>)))"

section \<open>Replay nonces\<close>

definition replay_nonce_ttl_ms :: int where "replay_nonce_ttl_ms = 10 * 60 * 1000"
definition replay_nonce_prune_batch_limit :: nat where "replay_nonce_prune_batch_limit = 10000"

definition nonce_taken :: "string \<Rightarrow> string \<Rightarrow> 'a fed_db_scheme \<Rightarrow> bool" where
  "nonce_taken source_peer_id nonce db \<longleftrightarrow>
     list_ex (\<lambda>r. nr_source_peer_id r = source_peer_id \<and> nr_nonce r = nonce) (fd_nonces db)"

definition reserve_replay_nonce ::
  "int \<Rightarrow> string \<Rightarrow> string \<Rightarrow> string \<Rightarrow> int \<Rightarrow> int \<Rightarrow> ('a fed_db_scheme, sqlx_error, bool) step" where
  "reserve_replay_nonce row_id source_peer_id key_id nonce request_timestamp_ms now_ms =
     (let expires_at_ms = sat_add_i64 now_ms replay_nonce_ttl_ms
      in db_try (\<lambda>db.
           if nonce_taken source_peer_id nonce db then Some (False, db)
           else if row_id \<in> set (map nr_id (fd_nonces db)) then None
           else Some (True, db\<lparr>fd_nonces := fd_nonces db @
                  [\<lparr>nr_id = row_id, nr_source_peer_id = source_peer_id, nr_key_id = key_id, nr_nonce = nonce,
                    nr_timestamp_ms = request_timestamp_ms, nr_expires_at_ms = expires_at_ms\<rparr>]\<rparr>)))"

text \<open>
  The oldest expired rows are deleted, at most a batch of them; \<open>id\<close> is the primary key, so
  deleting by id deletes exactly the rows of the batch.
\<close>

definition prune_expired_replay_nonces :: "int \<Rightarrow> int \<Rightarrow> ('a fed_db_scheme, sqlx_error, nat) step" where
  "prune_expired_replay_nonces now_ms limit =
     db_call (\<lambda>db.
       let batch = take (nat (max 1 (min (int replay_nonce_prune_batch_limit) limit)))
             (sort_key (\<lambda>r. (nr_expires_at_ms r, nr_id r)) (filter (\<lambda>r. nr_expires_at_ms r < now_ms) (fd_nonces db)));
           kept = filter (\<lambda>r. r \<notin> set batch) (fd_nonces db)
       in (length (fd_nonces db) - length kept, db\<lparr>fd_nonces := kept\<rparr>))"

section \<open>Inbound events\<close>

datatype event_insert_result = Inserted | Duplicate

definition inbound_matches :: "string \<Rightarrow> string \<Rightarrow> inbound_row \<Rightarrow> bool" where
  "inbound_matches source_peer_id remote_event_id r \<longleftrightarrow>
     in_source_peer_id r = source_peer_id \<and> in_remote_event_id r = remote_event_id"

definition insert_inbound_event ::
  "int \<Rightarrow> string \<Rightarrow> string \<Rightarrow> event_kind \<Rightarrow> string \<Rightarrow> int \<Rightarrow> ('a fed_db_scheme, sqlx_error, event_insert_result) step" where
  "insert_inbound_event row_id source_peer_id remote_event_id kind payload_hash now_ms =
     db_try (\<lambda>db.
       if list_ex (inbound_matches source_peer_id remote_event_id) (fd_inbound db) then Some (Duplicate, db)
       else if row_id \<in> set (map in_id (fd_inbound db)) then None
       else Some (Inserted, db\<lparr>fd_inbound := fd_inbound db @
              [\<lparr>in_id = row_id, in_source_peer_id = source_peer_id, in_remote_event_id = remote_event_id,
                in_event_kind = kind_as_str kind, in_payload_hash = payload_hash, in_status = ''received'',
                in_accepted_at_ms = None, in_updated_at_ms = now_ms\<rparr>]\<rparr>))"

definition mark_inbound_event_accepted :: "string \<Rightarrow> string \<Rightarrow> int \<Rightarrow> ('a fed_db_scheme, sqlx_error, unit) step" where
  "mark_inbound_event_accepted source_peer_id remote_event_id now_ms =
     db_call (\<lambda>db. ((), db\<lparr>fd_inbound := update_where (inbound_matches source_peer_id remote_event_id)
       (\<lambda>r. r\<lparr>in_status := ''accepted'', in_accepted_at_ms := Some now_ms, in_updated_at_ms := now_ms\<rparr>)
       (fd_inbound db)\<rparr>))"

section \<open>Outbound events\<close>

definition insert_outbound_event ::
  "int \<Rightarrow> string \<Rightarrow> string \<Rightarrow> event_kind \<Rightarrow> string \<Rightarrow> json \<Rightarrow> int
    \<Rightarrow> ('a fed_db_scheme, sqlx_error, event_insert_result) step" where
  "insert_outbound_event row_id destination_peer_id event_id kind payload_hash body_json now_ms =
     db_try (\<lambda>db.
       if list_ex (\<lambda>r. ob_destination_peer_id r = destination_peer_id \<and> ob_event_id r = event_id) (fd_outbound db)
       then Some (Duplicate, db)
       else if row_id \<in> set (map ob_id (fd_outbound db)) then None
       else Some (Inserted, db\<lparr>fd_outbound := fd_outbound db @
              [\<lparr>ob_id = row_id, ob_destination_peer_id = destination_peer_id, ob_event_id = event_id,
                ob_event_kind = kind_as_str kind, ob_payload_hash = payload_hash, ob_body_json = body_json,
                ob_status = ''pending'', ob_attempt_count = 0, ob_next_attempt_at_ms = Some now_ms,
                ob_last_error_code = None, ob_updated_at_ms = now_ms\<rparr>]\<rparr>))"

definition outbound_due :: "int \<Rightarrow> outbound_row \<Rightarrow> bool" where
  "outbound_due now_ms r \<longleftrightarrow>
     (ob_status r = ''pending'' \<or> ob_status r = ''failed'') \<and>
     (case ob_next_attempt_at_ms r of None \<Rightarrow> False | Some t \<Rightarrow> t \<le> now_ms)"

definition due_batch :: "int \<Rightarrow> nat \<Rightarrow> outbound_row list \<Rightarrow> outbound_row list" where
  "due_batch now_ms limit rows =
     take limit (sort_key (\<lambda>r. (the (ob_next_attempt_at_ms r), ob_id r)) (filter (outbound_due now_ms) rows))"

text \<open>
  One statement claims the due events: it marks them and returns them as they are after the
  update, here in the order in which they fell due.
\<close>

definition claim_due_outbound_events :: "int \<Rightarrow> int \<Rightarrow> ('a fed_db_scheme, sqlx_error, outbound_row list) step" where
  "claim_due_outbound_events now_ms limit =
     db_call (\<lambda>db.
       let due = due_batch now_ms (nat (max 1 (min 100 limit))) (fd_outbound db);
           claim = (\<lambda>r. r\<lparr>ob_status := ''sending'', ob_updated_at_ms := now_ms\<rparr>)
       in (map claim due,
           db\<lparr>fd_outbound := update_where (\<lambda>r. ob_id r \<in> set (map ob_id due)) claim (fd_outbound db)\<rparr>))"

definition mark_outbound_event_sent :: "int \<Rightarrow> int \<Rightarrow> ('a fed_db_scheme, sqlx_error, unit) step" where
  "mark_outbound_event_sent row_id now_ms =
     db_call (\<lambda>db. ((), db\<lparr>fd_outbound := update_where (\<lambda>r. ob_id r = row_id)
       (\<lambda>r. r\<lparr>ob_status := ''sent'', ob_updated_at_ms := now_ms\<rparr>) (fd_outbound db)\<rparr>))"

definition mark_outbound_event_failed ::
  "int \<Rightarrow> int \<Rightarrow> int \<Rightarrow> string \<Rightarrow> ('a fed_db_scheme, sqlx_error, failure_plan) step" where
  "mark_outbound_event_failed row_id now_ms previous_attempt_count error_code =
     (let plan = next_outbound_failure_plan now_ms previous_attempt_count error_code
      in db_call (\<lambda>db. (plan, db\<lparr>fd_outbound := update_where (\<lambda>r. ob_id r = row_id)
           (\<lambda>r. r\<lparr>ob_status := fp_status plan, ob_attempt_count := fp_attempt_count plan,
                  ob_next_attempt_at_ms := fp_next_attempt_at_ms plan,
                  ob_last_error_code := Some (fp_last_error_code plan), ob_updated_at_ms := now_ms\<rparr>)
           (fd_outbound db)\<rparr>)))"

definition mark_outbound_event_dead ::
  "int \<Rightarrow> int \<Rightarrow> int \<Rightarrow> string \<Rightarrow> ('a fed_db_scheme, sqlx_error, failure_plan) step" where
  "mark_outbound_event_dead row_id now_ms previous_attempt_count error_code =
     (let attempt_count = max 1 (sat_add_i32 previous_attempt_count 1);
          plan = \<lparr>fp_status = ''dead'', fp_attempt_count = attempt_count, fp_next_attempt_at_ms = None,
                  fp_last_error_code = sanitize_outbound_error_code error_code\<rparr>
      in db_call (\<lambda>db. (plan, db\<lparr>fd_outbound := update_where (\<lambda>r. ob_id r = row_id)
           (\<lambda>r. r\<lparr>ob_status := ''dead'', ob_attempt_count := fp_attempt_count plan, ob_next_attempt_at_ms := None,
                  ob_last_error_code := Some (fp_last_error_code plan), ob_updated_at_ms := now_ms\<rparr>)
           (fd_outbound db)\<rparr>)))"

section \<open>Error codes and retry times\<close>

definition code_char :: "char \<Rightarrow> bool" where
  "code_char c \<longleftrightarrow> ascii_alnum c \<or> c = CHR ''_'' \<or> c = CHR ''-''"

lemma sanitize_loop_bounds:
  "length out \<le> 96 \<Longrightarrow> list_all code_char out \<Longrightarrow>
   length (sanitize_loop out sep cs) \<le> 96 \<and> list_all code_char (sanitize_loop out sep cs)"
  by (induction out sep cs rule: sanitize_loop.induct) (auto simp: code_char_def)

lemma set_trim_end: "set (trim_end_by P s) \<subseteq> set s"
  by (auto simp: trim_end_by_def dest: set_dropWhileD)

lemma set_trim_start: "set (trim_start_by P s) \<subseteq> set s"
  by (auto simp: trim_start_by_def dest: set_dropWhileD)

lemma length_trim: "length (trim_end_by P (trim_start_by Q s)) \<le> length s"
  unfolding trim_end_by_def trim_start_by_def
  by (metis length_dropWhile_le length_rev le_trans)

lemma sanitize_bounds:
  "sanitize_outbound_error_code s \<noteq> [] \<and> length (sanitize_outbound_error_code s) \<le> 96 \<and>
   list_all code_char (sanitize_outbound_error_code s)"
proof -
  let ?out = "sanitize_loop [] False s"
  let ?t = "trim_end_by (\<lambda>c. c = CHR ''_'') (trim_start_by (\<lambda>c. c = CHR ''_'') ?out)"
  have out: "length ?out \<le> 96" "list_all code_char ?out"
    using sanitize_loop_bounds [of "[]" False s] by simp_all
  have "length ?t \<le> 96" using length_trim [of _ _ ?out] out(1) by (rule le_trans)
  moreover have "list_all code_char ?t"
    using out(2) set_trim_end set_trim_start by (fastforce simp: list_all_iff)
  moreover have "list_all code_char ''UNSPECIFIED_DELIVERY_FAILURE''" by code_simp
  ultimately show ?thesis by (simp add: sanitize_outbound_error_code_def Let_def)
qed

lemma retry_delay:
  assumes "0 \<le> a" "i64_min \<le> now" "now \<le> i64_max - 30000"
  shows "next_retry_at_ms now a = now + min (1000 * 2 ^ nat (min 5 a)) 30000"
proof -
  define p where "p = (2::int) ^ nat (min 5 a)"
  have "(2::int) ^ nat (min 5 a) \<le> 2 ^ 5" by (rule power_increasing) auto
  then have "p \<le> 32" "0 < p" by (simp_all add: p_def)
  moreover have "max 0 (min 5 a) = min 5 a" using assms(1) by simp
  ultimately show ?thesis
    using assms(2,3)
    by (simp add: next_retry_at_ms_def sat_add_i64_def sat_i64_def Let_def i64_min_def i64_max_def
        flip: p_def)
qed

lemma retry_delay_bounds: "0 \<le> a \<Longrightarrow> 1000 \<le> min (1000 * 2 ^ nat (min 5 a)) (30000 :: int)"
  using one_le_power [of "2::int" "nat (min 5 a)"] by simp

text \<open>
  What happens after a failed delivery: up to the seventh failure the event is retried,
  with a delay that doubles from one second and is capped at thirty; at the eighth it is dead
  and never retried. The recorded error code is never empty, has at most 96 characters, as its
  column requires, and only letters, digits, \<open>_\<close> and \<open>-\<close>.
\<close>
lemma failure_plan_schedule:
  assumes "0 \<le> attempts" "attempts < i32_max" "i64_min \<le> now" "now \<le> i64_max - 30000"
  shows "next_outbound_failure_plan now attempts code =
      \<lparr>fp_status = (if attempts < 7 then ''failed'' else ''dead''),
       fp_attempt_count = attempts + 1,
       fp_next_attempt_at_ms = (if attempts < 7 then Some (now + min (1000 * 2 ^ nat (min 5 attempts)) 30000) else None),
       fp_last_error_code = sanitize_outbound_error_code code\<rparr> \<and>
    sanitize_outbound_error_code code \<noteq> [] \<and> length (sanitize_outbound_error_code code) \<le> 96 \<and>
    list_all code_char (sanitize_outbound_error_code code)"
  using assms sanitize_bounds [of code] retry_delay [of attempts now]
  by (auto simp: next_outbound_failure_plan_def Let_def sat_add_i32_def outbound_max_attempts_def i32_max_def)

lemma failure_plan_schedule_witness:
  "next_outbound_failure_plan 1000 3 ''HTTP 503!'' =
     \<lparr>fp_status = ''failed'', fp_attempt_count = 4, fp_next_attempt_at_ms = Some 9000, fp_last_error_code = ''HTTP_503''\<rparr>"
proof -
  have "sanitize_outbound_error_code ''HTTP 503!'' = ''HTTP_503''" by code_simp
  with failure_plan_schedule [of 3 1000 "''HTTP 503!''"] show ?thesis
    by (simp add: i32_max_def i64_min_def i64_max_def)
qed

section \<open>Statements\<close>

lemma db_call_Inr [result_iff]:
  "db_call op db = (Inr x, db') \<longleftrightarrow>
     (fd_faults db = [] \<or> hd (fd_faults db) = False) \<and> op (db\<lparr>fd_faults := tl (fd_faults db)\<rparr>) = (x, db')"
  by (auto simp: db_call_def Let_def split: list.splits prod.splits)

lemma db_call_Inl [result_iff]:
  "db_call op db = (Inl e, db') \<longleftrightarrow>
     e = Sqlx_Error \<and> fd_faults db \<noteq> [] \<and> hd (fd_faults db) \<and> db' = db\<lparr>fd_faults := tl (fd_faults db)\<rparr>"
  by (cases e) (auto simp: db_call_def Let_def split: list.splits prod.splits)

lemma db_try_Inr [result_iff]:
  "db_try op db = (Inr x, db') \<longleftrightarrow>
     (fd_faults db = [] \<or> hd (fd_faults db) = False) \<and> op (db\<lparr>fd_faults := tl (fd_faults db)\<rparr>) = Some (x, db')"
  by (auto simp: db_try_def Let_def split: list.splits prod.splits option.splits)

lemma db_try_Inl [result_iff]:
  "db_try op db = (Inl e, db') \<longleftrightarrow>
     e = Sqlx_Error \<and> db' = db\<lparr>fd_faults := tl (fd_faults db)\<rparr> \<and>
     (fd_faults db \<noteq> [] \<and> hd (fd_faults db) \<or> op db' = None)"
  by (cases e) (auto simp: db_try_def Let_def split: list.splits prod.splits option.splits)

text \<open>A statement keeps what its effect keeps, if the property does not look at the faults.\<close>

lemma st_keeps_db_call:
  assumes "\<And>db fs. I db \<Longrightarrow> I (db\<lparr>fd_faults := fs\<rparr>)" "\<And>db. I db \<Longrightarrow> I (snd (op db))"
  shows "st_keeps I (db_call op)"
  unfolding st_keeps_def
proof (intro allI impI)
  fix db assume I: "I db"
  have "I (snd (op (db\<lparr>fd_faults := fs\<rparr>)))" for fs using assms I by blast
  with I assms(1) show "I (snd (db_call op db))"
    by (auto simp: db_call_def Let_def split: prod.split) (metis snd_conv)+
qed

lemma st_keeps_db_try:
  assumes "\<And>db fs. I db \<Longrightarrow> I (db\<lparr>fd_faults := fs\<rparr>)" "\<And>db x db'. I db \<Longrightarrow> op db = Some (x, db') \<Longrightarrow> I db'"
  shows "st_keeps I (db_try op)"
  unfolding st_keeps_def
proof (intro allI impI)
  fix db assume I: "I db"
  have "op (db\<lparr>fd_faults := fs\<rparr>) = Some (x, db') \<Longrightarrow> I db'" for fs x db' using assms I by blast
  with I assms(1) show "I (snd (db_try op db))"
    by (auto simp: db_try_def Let_def split: prod.split option.split)
qed

lemma fault_free:
  "fd_faults db = [] \<Longrightarrow> db_call op db = (Inr (fst (op db)), snd (op db))"
  by (cases db) (simp add: db_call_def Let_def split: prod.split)

lemma update_where_simps [simp]:
  "update_where P f [] = []" "update_where P f (r # rs) = (if P r then f r else r) # update_where P f rs"
  "length (update_where P f rows) = length rows"
  by (simp_all add: update_where_def)

lemma map_update_where:
  "(\<And>r. P r \<Longrightarrow> g (f r) = g r) \<Longrightarrow> map g (update_where P f rows) = map g rows"
  by (simp add: update_where_def)

lemma bex_update_where:
  "(\<exists>r\<in>set (update_where P f rows). Q r) \<longleftrightarrow> (\<exists>r\<in>set rows. P r \<and> Q (f r)) \<or> (\<exists>r\<in>set rows. \<not> P r \<and> Q r)"
  by (auto simp: update_where_def)

lemma set_update_where: "set (update_where P f rows) = f ` {r \<in> set rows. P r} \<union> {r \<in> set rows. \<not> P r}"
  by (auto simp: update_where_def)

section \<open>Reserving and pruning nonces\<close>

lemma reserve_Inr:
  assumes "reserve_replay_nonce i p k n ts now db = (Inr b, db')"
  shows "b = (\<not> nonce_taken p n db)"
    "fd_nonces db' = fd_nonces db @ (if b then [\<lparr>nr_id = i, nr_source_peer_id = p, nr_key_id = k, nr_nonce = n,
        nr_timestamp_ms = ts, nr_expires_at_ms = sat_add_i64 now replay_nonce_ttl_ms\<rparr>] else [])"
  using assms by (auto simp: reserve_replay_nonce_def Let_def result_iff nonce_taken_def split: if_splits)

lemma reserve_Inl: "reserve_replay_nonce i p k n ts now db = (Inl e, db') \<Longrightarrow> fd_nonces db' = fd_nonces db"
  by (auto simp: reserve_replay_nonce_def Let_def result_iff)

lemma prune_keeps_live:
  assumes "prune_expired_replay_nonces now limit db = (r, db')"
  shows "{r \<in> set (fd_nonces db). now \<le> nr_expires_at_ms r} \<subseteq> set (fd_nonces db')"
proof (cases r)
  case (Inr n)
  obtain k and f :: "nonce_row \<Rightarrow> int \<times> int" where kept: "fd_nonces db' =
      filter (\<lambda>r. r \<notin> set (take k (sort_key f (filter (\<lambda>r. nr_expires_at_ms r < now) (fd_nonces db))))) (fd_nonces db)"
    using assms Inr by (clarsimp simp: prune_expired_replay_nonces_def result_iff Let_def)
  have "r \<notin> set (take k (sort_key f (filter (\<lambda>r. nr_expires_at_ms r < now) (fd_nonces db))))"
    if "now \<le> nr_expires_at_ms r" for r
    using that by (auto dest!: in_set_takeD)
  then show ?thesis by (auto simp: kept)
qed (use assms in \<open>auto simp: prune_expired_replay_nonces_def result_iff\<close>)

section \<open>Routes\<close>

fun route_of_scope :: "route_scope \<Rightarrow> peer_route" where
  "route_of_scope (Scope_Server i) = Route_Server i"
| "route_of_scope (Scope_Channel i) = Route_Channel i"
| "route_of_scope (Scope_Dm i) = Route_Dm i"
| "route_of_scope (Scope_Principal i) = Route_Principal i"

lemma route_round_trip:
  "scope_query_parts s = (ty, i) \<Longrightarrow> peer_route_from_row ty i = Inr (route_of_scope s)"
  by (cases s) (auto simp: peer_route_from_row_def)

lemma scope_query_parts_inj: "scope_query_parts s = scope_query_parts s' \<Longrightarrow> s = s'"
  by (cases s; cases s') auto

lemma collect_results_all_Inr: "(\<And>x. x \<in> set xs \<Longrightarrow> f x = Inr (g x)) \<Longrightarrow> collect_results (map f xs) = Inr (map g xs)"
  by (induction xs) auto

lemma collect_results_Inr: "collect_results (map (\<lambda>x. Inr (g x)) xs) = Inr (map g xs)"
  by (induction xs) auto

definition has_active_key :: "'a fed_db_scheme \<Rightarrow> string \<Rightarrow> bool" where
  "has_active_key db peer_id \<longleftrightarrow> (\<exists>k\<in>set (fd_peer_keys db). kr_peer_id k = peer_id \<and> kr_status k = ''active'')"

definition has_active_route :: "'a fed_db_scheme \<Rightarrow> string \<Rightarrow> route_scope \<Rightarrow> bool" where
  "has_active_route db peer_id scope \<longleftrightarrow>
     (\<exists>r\<in>set (fd_routes db). rt_peer_id r = peer_id \<and> (rt_scope_type r, rt_scope_id r) = scope_query_parts scope \<and>
        rt_status r = ''active'')"

text \<open>A fault-free lookup gives exactly the peers with an active key and an active route of the scope.\<close>

lemma producer_peers_spec:
  assumes "producer_peers_for_scope scope db = (Inr ps, db')"
  shows "set ps = (\<lambda>p. \<lparr>pp_peer_id = p, pp_routes = [route_of_scope scope], pp_active = True\<rparr>)
      ` {p. has_active_key db p \<and> has_active_route db p scope}"
proof -
  obtain ty i where parts: "scope_query_parts scope = (ty, i)" by (cases "scope_query_parts scope")
  define rows where "rows = routes_for_scope ty i (db\<lparr>fd_faults := tl (fd_faults db)\<rparr>)"
  have rows: "x \<in> set rows \<longleftrightarrow> (\<exists>p. x = (p, ty, i) \<and> has_active_key db p \<and> has_active_route db p scope)" for x
    using parts
    by (auto simp: rows_def routes_for_scope_def list_ex_iff has_active_key_def has_active_route_def image_iff)
        metis
  have "collect_results (map (\<lambda>(peer_id, scope_type, scope_id).
         bind_result (peer_route_from_row scope_type scope_id) (\<lambda>route.
           Inr \<lparr>pp_peer_id = peer_id, pp_routes = [route], pp_active = True\<rparr>)) rows) =
      Inr (map (\<lambda>(p, _, _). \<lparr>pp_peer_id = p, pp_routes = [route_of_scope scope], pp_active = True\<rparr>) rows)"
    using rows route_round_trip [OF parts] by (intro collect_results_all_Inr) auto
  with assms parts have "ps = map (\<lambda>(p, _, _). \<lparr>pp_peer_id = p, pp_routes = [route_of_scope scope], pp_active = True\<rparr>) rows"
    by (auto simp: producer_peers_for_scope_def result_iff rows_def)
  moreover have "set rows = (\<lambda>p. (p, ty, i)) ` {p. has_active_key db p \<and> has_active_route db p scope}"
    using rows by auto
  ultimately show ?thesis by (simp add: image_image)
qed

lemma upsert_route_active:
  assumes "upsert_peer_route p s now db = (Inr u, db')"
  shows "has_active_route db' q s' \<longleftrightarrow> has_active_route db q s' \<or> q = p \<and> s' = s"
    "fd_peer_keys db' = fd_peer_keys db"
proof -
  obtain ty i where parts: "scope_query_parts s = (ty, i)" by (cases "scope_query_parts s")
  have same: "scope_query_parts s' = (ty, i) \<longleftrightarrow> s' = s" using parts scope_query_parts_inj by metis
  define seen where "seen = list_ex (route_matches p ty i) (fd_routes db)"
  have rows: "fd_routes db' = (if seen
      then update_where (route_matches p ty i) (\<lambda>r. r\<lparr>rt_status := ''active'', rt_updated_at_ms := now\<rparr>) (fd_routes db)
      else fd_routes db @ [\<lparr>rt_peer_id = p, rt_scope_type = ty, rt_scope_id = i, rt_status = ''active'',
             rt_updated_at_ms = now\<rparr>])"
    using assms parts by (auto simp: upsert_peer_route_def result_iff seen_def)
  show "has_active_route db' q s' \<longleftrightarrow> has_active_route db q s' \<or> q = p \<and> s' = s"
  proof (cases seen)
    case True
    then obtain r0 where r0: "r0 \<in> set (fd_routes db)" "route_matches p ty i r0"
      by (auto simp: seen_def list_ex_iff)
    show ?thesis
      unfolding has_active_route_def rows if_P [OF True] bex_update_where same [symmetric]
      using r0 by (auto simp: route_matches_def)
  next
    case False
    then show ?thesis using same by (auto simp: has_active_route_def rows)
  qed
  show "fd_peer_keys db' = fd_peer_keys db"
    using assms parts by (auto simp: upsert_peer_route_def result_iff)
qed

lemma revoke_route_active:
  assumes "revoke_peer_route p s now db = (Inr u, db')"
  shows "has_active_route db' q s' \<longleftrightarrow> has_active_route db q s' \<and> \<not> (q = p \<and> s' = s)"
    "fd_peer_keys db' = fd_peer_keys db"
proof -
  obtain ty i where parts: "scope_query_parts s = (ty, i)" by (cases "scope_query_parts s")
  have same: "scope_query_parts s' = (ty, i) \<longleftrightarrow> s' = s" using parts scope_query_parts_inj by metis
  have rows: "fd_routes db' = update_where (route_matches p ty i)
      (\<lambda>r. r\<lparr>rt_status := ''revoked'', rt_updated_at_ms := now\<rparr>) (fd_routes db)"
    using assms parts by (auto simp: revoke_peer_route_def result_iff)
  obtain ty' i' where parts': "scope_query_parts s' = (ty', i')" by (cases "scope_query_parts s'")
  show "has_active_route db' q s' \<longleftrightarrow> has_active_route db q s' \<and> \<not> (q = p \<and> s' = s)"
    unfolding has_active_route_def rows bex_update_where same [symmetric] parts'
    by (auto simp: route_matches_def)
  show "fd_peer_keys db' = fd_peer_keys db"
    using assms parts by (auto simp: revoke_peer_route_def result_iff)
qed

definition active_routes :: "'a fed_db_scheme \<Rightarrow> (string \<times> route_scope) set" where
  "active_routes db = {(p, s). has_active_route db p s}"

lemma producer_peers_fault_free:
  assumes "fd_faults db = []"
  shows "\<exists>ps. producer_peers_for_scope s db = (Inr ps, db)"
proof -
  obtain ty i where parts: "scope_query_parts s = (ty, i)" by (cases "scope_query_parts s")
  have "collect_results (map (\<lambda>(peer_id, scope_type, scope_id).
         bind_result (peer_route_from_row scope_type scope_id) (\<lambda>route.
           Inr \<lparr>pp_peer_id = peer_id, pp_routes = [route], pp_active = True\<rparr>)) (routes_for_scope ty i db)) =
      Inr (map (\<lambda>(p, _, _). \<lparr>pp_peer_id = p, pp_routes = [route_of_scope s], pp_active = True\<rparr>) (routes_for_scope ty i db))"
    using route_round_trip [OF parts] by (intro collect_results_all_Inr) (auto simp: routes_for_scope_def)
  then show ?thesis
    by (simp add: producer_peers_for_scope_def parts fault_free [OF assms] st_bind_def st_lift_def)
qed

text \<open>
  C40. The route table implements a set of (peer, scope) pairs: a grant inserts a pair, whether
  its row existed, was revoked or is new, a revocation deletes exactly one pair, and the lookup
  of a scope returns the peers of the pairs with that scope that have an active key, never
  failing on a stored scope.
\<close>
theorem routes_implement_a_set:
  assumes "fd_faults db = []"
  shows "active_routes (snd (upsert_peer_route p s now db)) = insert (p, s) (active_routes db) \<and>
    active_routes (snd (revoke_peer_route p s now db)) = active_routes db - {(p, s)} \<and>
    (\<exists>ps. producer_peers_for_scope s db = (Inr ps, db) \<and>
       pp_peer_id ` set ps = {q. (q, s) \<in> active_routes db \<and> has_active_key db q})"
proof (intro conjI)
  obtain ty i where parts: "scope_query_parts s = (ty, i)" by (cases "scope_query_parts s")
  have "fst (upsert_peer_route p s now db) = Inr ()" "fst (revoke_peer_route p s now db) = Inr ()"
    by (simp_all add: upsert_peer_route_def revoke_peer_route_def parts fault_free [OF assms])
  then have ok: "upsert_peer_route p s now db = (Inr (), snd (upsert_peer_route p s now db))"
      "revoke_peer_route p s now db = (Inr (), snd (revoke_peer_route p s now db))"
    by (metis prod.collapse)+
  show "active_routes (snd (upsert_peer_route p s now db)) = insert (p, s) (active_routes db)"
    using upsert_route_active(1) [OF ok(1)] by (auto simp: active_routes_def)
  show "active_routes (snd (revoke_peer_route p s now db)) = active_routes db - {(p, s)}"
    using revoke_route_active(1) [OF ok(2)] by (auto simp: active_routes_def)
  obtain ps where ps: "producer_peers_for_scope s db = (Inr ps, db)"
    using producer_peers_fault_free [OF assms] by blast
  from producer_peers_spec [OF ps]
  have "pp_peer_id ` set ps = {q. (q, s) \<in> active_routes db \<and> has_active_key db q}"
    by (auto simp: active_routes_def image_image)
  with ps show "\<exists>ps. producer_peers_for_scope s db = (Inr ps, db) \<and>
       pp_peer_id ` set ps = {q. (q, s) \<in> active_routes db \<and> has_active_key db q}" by blast
qed

definition demo_fed_db :: fed_db where
  "demo_fed_db = \<lparr>fd_faults = [], fd_users = [], fd_principals = [],
     fd_peer_keys = [\<lparr>kr_peer_id = ''a.example'', kr_key_id = ''k1'', kr_api_origin = ''https://a.example'',
       kr_public_key = replicate 32 CHR ''p'', kr_status = ''active'', kr_valid_after_ms = None,
       kr_valid_until_ms = None, kr_updated_at_ms = 0\<rparr>],
     fd_routes = [\<lparr>rt_peer_id = ''a.example'', rt_scope_type = ''server'', rt_scope_id = 7,
       rt_status = ''revoked'', rt_updated_at_ms = 0\<rparr>],
     fd_nonces = [], fd_inbound = [], fd_outbound = []\<rparr>"

lemma routes_implement_a_set_witness:
  "active_routes (snd (upsert_peer_route ''a.example'' (Scope_Server 7) 5 demo_fed_db)) =
     insert (''a.example'', Scope_Server 7) (active_routes demo_fed_db)"
  using routes_implement_a_set [of demo_fed_db "''a.example''" "Scope_Server 7" 5]
  by (simp add: demo_fed_db_def)

section \<open>Principals\<close>

definition principal_key :: "principal_row \<Rightarrow> string \<times> string" where
  "principal_key r = (pr_home_peer_id r, pr_remote_user_id r)"

text \<open>The two uniqueness constraints of the table.\<close>

definition principals_wf :: "principal_row list \<Rightarrow> bool" where
  "principals_wf rows \<longleftrightarrow>
     distinct (map principal_key rows) \<and>
     (\<forall>r\<in>set rows. \<forall>r'\<in>set rows. pr_local_user_id r \<noteq> None \<and> pr_local_user_id r = pr_local_user_id r' \<longrightarrow>
        principal_key r = principal_key r')"

definition mapping :: "principal_row list \<Rightarrow> string \<times> string \<Rightarrow> int option" where
  "mapping rows k = Option.bind (map_of (map (\<lambda>r. (principal_key r, r)) rows) k) pr_local_user_id"

definition up_key :: "upsert_remote_principal \<Rightarrow> string \<times> string" where
  "up_key p = (up_home_peer_id p, up_remote_user_id p)"

lemma find_key:
  "List.find (\<lambda>r. principal_key r = k) rows = map_of (map (\<lambda>r. (principal_key r, r)) rows) k"
  by (induction rows) auto

lemma mapping_update:
  "(\<And>r. principal_key r = k \<Longrightarrow> principal_key (f r) = k) \<Longrightarrow>
   map_of (map (\<lambda>r. (principal_key r, r)) (update_where (\<lambda>r. principal_key r = k) f rows)) k' =
     (if k' = k then map_option f (map_of (map (\<lambda>r. (principal_key r, r)) rows) k)
      else map_of (map (\<lambda>r. (principal_key r, r)) rows) k')"
  by (induction rows) auto

lemma principals_wf_snoc:
  assumes "principals_wf rows" "principal_key x \<notin> principal_key ` set rows"
    "\<forall>r\<in>set rows. pr_local_user_id r \<noteq> pr_local_user_id x"
  shows "principals_wf (rows @ [x])"
  unfolding principals_wf_def
proof (intro conjI ballI impI)
  show "distinct (map principal_key (rows @ [x]))" using assms by (simp add: principals_wf_def)
  fix r r' assume "r \<in> set (rows @ [x])" "r' \<in> set (rows @ [x])"
    "pr_local_user_id r \<noteq> None \<and> pr_local_user_id r = pr_local_user_id r'"
  moreover from this have "r = x \<longleftrightarrow> r' = x" using assms(3) by (metis in_set_conv_decomp set_ConsD rotate1.simps(2) set_rotate1)
  ultimately show "principal_key r = principal_key r'"
    using assms(1) unfolding principals_wf_def by (metis set_ConsD rotate1.simps(2) set_rotate1)
qed

lemma upsert_principal_row_spec:
  assumes "upsert_principal_row u p rows = Some (m, rows')" "principals_wf rows"
  shows "principals_wf rows'" "mapping rows' = (mapping rows)(up_key p \<mapsto> m)"
    "m = (case mapping rows (up_key p) of Some i \<Rightarrow> i | None \<Rightarrow> u)"
    "map_of (map (\<lambda>r. (principal_key r, pr_status r)) rows') (up_key p) = Some ''active''"
proof -
  let ?k = "up_key p"
  let ?same = "\<lambda>r. principal_key r = ?k"
  let ?upd = "\<lambda>r. r\<lparr>pr_local_user_id := Some m, pr_remote_username := up_remote_username p,
      pr_display_name := up_display_name p, pr_avatar_url := up_avatar_url p,
      pr_status := ''active'', pr_updated_at_ms := up_now_ms p\<rparr>"
  have same: "(\<lambda>r. pr_home_peer_id r = up_home_peer_id p \<and> pr_remote_user_id r = up_remote_user_id p) = ?same"
    by (auto simp: principal_key_def up_key_def)
  have m: "m = (case mapping rows ?k of Some i \<Rightarrow> i | None \<Rightarrow> u)"
    and free: "\<forall>r\<in>set rows. \<not> ?same r \<longrightarrow> pr_local_user_id r \<noteq> Some m"
    and rows': "rows' = (if list_ex ?same rows then update_where ?same ?upd rows else rows @
      [\<lparr>pr_id = up_principal_id p, pr_home_peer_id = up_home_peer_id p, pr_remote_user_id = up_remote_user_id p,
        pr_local_user_id = Some m, pr_remote_username = up_remote_username p, pr_display_name = up_display_name p,
        pr_avatar_url = up_avatar_url p, pr_status = ''active'', pr_updated_at_ms = up_now_ms p\<rparr>])"
    using assms(1)
    by (auto simp: upsert_principal_row_def Let_def same mapping_def find_key up_key_def list_ex_iff split: if_splits)
  show "m = (case mapping rows ?k of Some i \<Rightarrow> i | None \<Rightarrow> u)" by (rule m)
  have key_upd: "principal_key (?upd r) = principal_key r" for r by (simp add: principal_key_def)
  show "principals_wf rows'"
  proof (cases "list_ex ?same rows")
    case True
    have "map principal_key rows' = map principal_key rows"
      unfolding rows' if_P [OF True] by (rule map_update_where) (rule key_upd)
    moreover have "principal_key r = principal_key r'"
      if "r \<in> set rows'" "r' \<in> set rows'" "pr_local_user_id r \<noteq> None" "pr_local_user_id r = pr_local_user_id r'" for r r'
    proof -
      note prem = that
      have pre: "\<exists>x0\<in>set rows. x = (if ?same x0 then ?upd x0 else x0)" if "x \<in> set rows'" for x
        using that unfolding rows' if_P [OF True] update_where_def by auto
      obtain r0 r0' where r0: "r0 \<in> set rows" "r = (if ?same r0 then ?upd r0 else r0)"
          "r0' \<in> set rows" "r' = (if ?same r0' then ?upd r0' else r0')"
        using pre [OF prem(1)] pre [OF prem(2)] by blast
      have wf: "pr_local_user_id r0 \<noteq> None \<and> pr_local_user_id r0 = pr_local_user_id r0' \<Longrightarrow> principal_key r0 = principal_key r0'"
        using assms(2) r0(1,3) unfolding principals_wf_def by blast
      show ?thesis
      proof (cases "?same r0")
        case True
        then show ?thesis using prem(4) r0 free key_upd by (cases "?same r0'") auto
      next
        case False
        then show ?thesis using prem(3,4) r0 free key_upd wf by (cases "?same r0'") auto
      qed
    qed
    ultimately show ?thesis using assms(2) unfolding principals_wf_def by metis
  next
    case False
    then have "?k \<notin> principal_key ` set rows" by (auto simp: list_ex_iff)
    moreover have "\<forall>r\<in>set rows. pr_local_user_id r \<noteq> Some m" using False free by (auto simp: list_ex_iff)
    ultimately show ?thesis
      unfolding rows' if_not_P [OF False] by (intro principals_wf_snoc assms(2)) (simp_all add: principal_key_def up_key_def)
  qed
  show "mapping rows' = (mapping rows)(?k \<mapsto> m)"
  proof (rule ext)
    fix k'
    show "mapping rows' k' = ((mapping rows)(?k \<mapsto> m)) k'"
    proof (cases "list_ex ?same rows")
      case True
      then have "map_of (map (\<lambda>r. (principal_key r, r)) rows) ?k \<noteq> None"
        by (auto simp: list_ex_iff map_of_eq_None_iff image_image intro: rev_image_eqI)
      with True show ?thesis
        by (auto simp: mapping_def rows' mapping_update [where k = ?k and f = ?upd, OF trans [OF key_upd]])
    next
      case False
      then have "map_of (map (\<lambda>r. (principal_key r, r)) rows) ?k = None"
        by (auto simp: list_ex_iff map_of_eq_None_iff)
      with False show ?thesis
        by (auto simp: mapping_def rows' map_add_def principal_key_def up_key_def split: option.splits)
    qed
  qed
  show "map_of (map (\<lambda>r. (principal_key r, pr_status r)) rows') ?k = Some ''active''"
  proof -
    have "map_of (map (\<lambda>r. (principal_key r, pr_status r)) rows') ?k =
        map_option pr_status (map_of (map (\<lambda>r. (principal_key r, r)) rows') ?k)" 
      by (induction rows') auto
    also have "\<dots> = Some ''active''"
    proof (cases "list_ex ?same rows")
      case True
      then have "map_of (map (\<lambda>r. (principal_key r, r)) rows) ?k \<noteq> None"
        by (auto simp: list_ex_iff map_of_eq_None_iff image_image intro: rev_image_eqI)
      with True show ?thesis
        by (auto simp: rows' mapping_update [where k = ?k and f = ?upd, OF trans [OF key_upd]])
    next
      case False
      then have "map_of (map (\<lambda>r. (principal_key r, r)) rows) ?k = None"
        by (auto simp: list_ex_iff map_of_eq_None_iff)
      with False show ?thesis by (auto simp: rows' map_add_def principal_key_def up_key_def)
    qed
    finally show ?thesis .
  qed
qed

lemma mapping_inj:
  assumes "principals_wf rows"
  shows "inj_on (mapping rows) (dom (mapping rows))"
proof (rule inj_onI)
  fix k k' assume k: "k \<in> dom (mapping rows)" "mapping rows k = mapping rows k'"
  have row: "\<exists>r\<in>set rows. principal_key r = j \<and> pr_local_user_id r = Some i" if "mapping rows j = Some i" for i j
  proof -
    from that obtain r where "map_of (map (\<lambda>r. (principal_key r, r)) rows) j = Some r" "pr_local_user_id r = Some i"
      by (auto simp: mapping_def bind_eq_Some_conv)
    then show ?thesis using map_of_SomeD [of _ j r] by fastforce
  qed
  obtain i where "mapping rows k = Some i" using k(1) by auto
  with k(2) row [of k i] row [of k' i] show "k = k'"
    using assms unfolding principals_wf_def by (metis option.distinct(1))
qed

lemma upsert_remote_principal_row:
  assumes "upsert_remote_principal env p db = (Inr m, db')"
  shows "\<exists>u. upsert_principal_row u p (fd_principals db) = Some (m, fd_principals db')"
  using assms
  by (auto simp: upsert_remote_principal_def upsert_transaction_def result_iff split: sum.splits prod.splits option.splits)

text \<open>
  C18. A remote user keeps the local account it was first given: an upsert that succeeds returns
  the account already mapped, if there is one, changes no other principal's mapping, and keeps
  the mapping injective, so two remote users never act as the same local user.
\<close>
theorem principal_mapping_is_stable:
  assumes "principals_wf (fd_principals db)" "upsert_remote_principal env p db = (Inr m, db')"
  shows "principals_wf (fd_principals db') \<and>
    mapping (fd_principals db') = (mapping (fd_principals db))(up_key p \<mapsto> m) \<and>
    mapping (fd_principals db) (up_key p) \<in> {None, Some m} \<and>
    inj_on (mapping (fd_principals db')) (dom (mapping (fd_principals db')))"
proof -
  obtain u where u: "upsert_principal_row u p (fd_principals db) = Some (m, fd_principals db')"
    using upsert_remote_principal_row [OF assms(2)] by blast
  note spec = upsert_principal_row_spec [OF u assms(1)]
  have "mapping (fd_principals db) (up_key p) \<in> {None, Some m}"
    using spec(3) by (cases "mapping (fd_principals db) (up_key p)") simp_all
  then show ?thesis using spec(1,2) mapping_inj [OF spec(1)] by simp
qed

definition demo_upsert :: upsert_remote_principal where
  "demo_upsert = \<lparr>up_principal_id = 1, up_local_user_id = 2, up_home_peer_id = ''a.example'',
     up_remote_user_id = ''u1'', up_remote_username = None, up_display_name = Some ''Ann'', up_avatar_url = None,
     up_now_ms = 10\<rparr>"

lemma principal_mapping_is_stable_witness:
  "\<exists>m db'. upsert_remote_principal demo_auth_env demo_upsert demo_fed_db = (Inr m, db') \<and>
     mapping (fd_principals db') (''a.example'', ''u1'') = Some m"
proof -
  let ?r = "upsert_remote_principal demo_auth_env demo_upsert demo_fed_db"
  have "is_ok (fst ?r)" by code_simp
  then obtain m where "?r = (Inr m, snd ?r)" by (cases ?r; cases "fst ?r") (auto simp: is_ok_def)
  moreover have "principals_wf (fd_principals demo_fed_db)" by (simp add: principals_wf_def demo_fed_db_def)
  ultimately have "mapping (fd_principals (snd ?r)) = (mapping (fd_principals demo_fed_db))(up_key demo_upsert \<mapsto> m)"
    using principal_mapping_is_stable by blast
  then have "mapping (fd_principals (snd ?r)) (''a.example'', ''u1'') = Some m"
    by (simp add: up_key_def demo_upsert_def)
  with \<open>?r = (Inr m, snd ?r)\<close> show ?thesis by metis
qed

end
