(* ===== verification/Fed_Outbox.thy ===== *)
theory Fed_Outbox
  imports Fed_Storage
begin

text \<open>
  Delivery of outbound events (\<open>src/server-rs/src/federation/outbox.rs\<close>): a cycle claims the due
  events, sends each one and records the outcome. \<open>ox_wire\<close> is what has been put on the network,
  with the id of the event each request carried; the nonce of a request is a parameter.
\<close>

record outbox_db = fed_db +
  ox_wire :: "(int \<times> http_request) list"

section \<open>Outcomes\<close>

datatype disposition = Sent | RetryableFailure string | PermanentFailure string

record dispatch_report =
  dr_claimed :: nat
  dr_sent :: nat
  dr_failed :: nat
  dr_dead :: nat

datatype outbox_error = Ob_Storage sqlx_error | SerializeBody | EventBodyTooLarge

definition federation_event_path :: string where
  "federation_event_path = ''/api/federation/v1/events''"

definition max_outbound_event_body_bytes :: nat where
  "max_outbound_event_body_bytes = 128 * 1024"

definition outbound_event_body_bytes :: "'a fed_env_scheme \<Rightarrow> outbound_row \<Rightarrow> outbox_error + string" where
  "outbound_event_body_bytes env event =
     (case to_vec env (ob_body_json event) of
        None \<Rightarrow> Inl SerializeBody
      | Some bytes \<Rightarrow> if max_outbound_event_body_bytes < length bytes then Inl EventBodyTooLarge else Inr bytes)"

definition outbox_dispatcher_enabled :: "string option \<Rightarrow> string option \<Rightarrow> bool" where
  "outbox_dispatcher_enabled key_id seed \<longleftrightarrow>
     (case key_id of None \<Rightarrow> False | Some value \<Rightarrow> str_trim value \<noteq> []) \<and> seed \<noteq> None"

definition delivery_status_disposition :: "nat \<Rightarrow> disposition" where
  "delivery_status_disposition status =
     (if 200 \<le> status \<and> status < 300 then Sent
      else
        let code = ''HTTP_'' @ nat_str status
        in if 500 \<le> status \<and> status < 600 \<or> status = 408 \<or> status = 409 \<or> status = 425 \<or> status = 429
           then RetryableFailure code
           else PermanentFailure code)"

fun client_error_disposition :: "client_error \<Rightarrow> disposition" where
  "client_error_disposition Delivery = RetryableFailure ''TRANSPORT_ERROR''"
| "client_error_disposition InvalidPeerEndpoint = PermanentFailure ''INVALID_DELIVERY_REQUEST''"
| "client_error_disposition (Sign _) = PermanentFailure ''INVALID_DELIVERY_REQUEST''"
| "client_error_disposition BuildRequest = PermanentFailure ''INVALID_DELIVERY_REQUEST''"

section \<open>One event\<close>

text \<open>\<open>send_signed_json_request\<close> and what it puts on the network.\<close>

definition send_event ::
  "'b client_env_scheme \<Rightarrow> signer \<Rightarrow> outbound_row \<Rightarrow> peer_endpoint \<Rightarrow> string \<Rightarrow> int \<Rightarrow> string
    \<Rightarrow> 'a outbox_db_scheme \<Rightarrow> disposition \<times> 'a outbox_db_scheme" where
  "send_event env signer event peer body now_ms nonce db =
     (let request = signed_json_request env signer ''POST'' peer federation_event_path body now_ms nonce;
          outcome = (case send_signed_json_request env signer ''POST'' peer federation_event_path body now_ms nonce of
                       Inr status \<Rightarrow> delivery_status_disposition status
                     | Inl e \<Rightarrow> client_error_disposition e)
      in (outcome, (case request of
                      Inr req \<Rightarrow> db\<lparr>ox_wire := ox_wire db @ [(ob_id event, req)]\<rparr>
                    | Inl _ \<Rightarrow> db)))"

definition record_outcome ::
  "outbound_row \<Rightarrow> int \<Rightarrow> disposition \<Rightarrow> ('a outbox_db_scheme, outbox_error, disposition) step" where
  "record_outcome event now_ms outcome =
     (case outcome of
        Sent \<Rightarrow>
          st_bind (st_map_err Ob_Storage (mark_outbound_event_sent (ob_id event) now_ms)) (\<lambda>_. st_return Sent)
      | RetryableFailure code \<Rightarrow>
          st_bind (st_map_err Ob_Storage
            (mark_outbound_event_failed (ob_id event) now_ms (ob_attempt_count event) code)) (\<lambda>plan.
          if fp_status plan = ''dead'' then st_return (PermanentFailure (fp_last_error_code plan))
          else st_return (RetryableFailure code))
      | PermanentFailure code \<Rightarrow>
          st_bind (st_map_err Ob_Storage
            (mark_outbound_event_dead (ob_id event) now_ms (ob_attempt_count event) code)) (\<lambda>_.
          st_return (PermanentFailure code)))"

definition dispatch_claimed_outbound_event ::
  "'b client_env_scheme \<Rightarrow> signer \<Rightarrow> (int \<Rightarrow> string) \<Rightarrow> outbound_row \<Rightarrow> int
    \<Rightarrow> ('a outbox_db_scheme, outbox_error, disposition) step" where
  "dispatch_claimed_outbound_event env signer nonces event now_ms =
     st_bind (st_map_err Ob_Storage (peer_endpoint_by_peer_id (ob_destination_peer_id event))) (\<lambda>found.
     case found of
       None \<Rightarrow>
         st_bind (st_map_err Ob_Storage
           (mark_outbound_event_failed (ob_id event) now_ms (ob_attempt_count event) ''UNKNOWN_PEER_ENDPOINT'')) (\<lambda>plan.
         if fp_status plan = ''dead'' then st_return (PermanentFailure (fp_last_error_code plan))
         else st_return (RetryableFailure (fp_last_error_code plan)))
     | Some peer \<Rightarrow>
         (case outbound_event_body_bytes env event of
            Inl error \<Rightarrow>
              st_bind (st_map_err Ob_Storage
                (mark_outbound_event_dead (ob_id event) now_ms (ob_attempt_count event) ''INVALID_EVENT_BODY'')) (\<lambda>_.
              st_fail error)
          | Inr body \<Rightarrow>
              (\<lambda>db. case send_event env signer event peer body now_ms (nonces (ob_id event)) db of
                      (outcome, db') \<Rightarrow> record_outcome event now_ms outcome db')))"

section \<open>One cycle\<close>

fun count_outcome :: "disposition \<Rightarrow> dispatch_report \<Rightarrow> dispatch_report" where
  "count_outcome Sent report = report\<lparr>dr_sent := dr_sent report + 1\<rparr>"
| "count_outcome (RetryableFailure _) report = report\<lparr>dr_failed := dr_failed report + 1\<rparr>"
| "count_outcome (PermanentFailure _) report = report\<lparr>dr_dead := dr_dead report + 1\<rparr>"

fun dispatch_events ::
  "'b client_env_scheme \<Rightarrow> signer \<Rightarrow> (int \<Rightarrow> string) \<Rightarrow> int \<Rightarrow> outbound_row list \<Rightarrow> dispatch_report
    \<Rightarrow> ('a outbox_db_scheme, outbox_error, dispatch_report) step" where
  "dispatch_events env signer nonces now_ms [] report = st_return report"
| "dispatch_events env signer nonces now_ms (event # events) report =
     st_bind (dispatch_claimed_outbound_event env signer nonces event now_ms) (\<lambda>outcome.
     dispatch_events env signer nonces now_ms events (count_outcome outcome report))"

definition dispatch_due_outbound_events ::
  "'b client_env_scheme \<Rightarrow> signer \<Rightarrow> (int \<Rightarrow> string) \<Rightarrow> int \<Rightarrow> int
    \<Rightarrow> ('a outbox_db_scheme, outbox_error, dispatch_report) step" where
  "dispatch_due_outbound_events env signer nonces now_ms limit =
     st_bind (st_map_err Ob_Storage (claim_due_outbound_events now_ms limit)) (\<lambda>events.
     dispatch_events env signer nonces now_ms events
       \<lparr>dr_claimed = length events, dr_sent = 0, dr_failed = 0, dr_dead = 0\<rparr>)"

section \<open>The dispatcher task\<close>

definition dispatch_batch_limit :: int where "dispatch_batch_limit = 25"

text \<open>
  The body of the task's loop at one tick: nothing once the server shuts down, otherwise a cycle
  whose error is only logged.
\<close>

definition dispatcher_tick ::
  "'b client_env_scheme \<Rightarrow> signer \<Rightarrow> (int \<Rightarrow> string) \<Rightarrow> bool \<Rightarrow> int \<Rightarrow> 'a outbox_db_scheme \<Rightarrow> bool \<times> 'a outbox_db_scheme" where
  "dispatcher_tick env signer nonces shutting_down now_ms db =
     (if shutting_down then (False, db)
      else (True, snd (dispatch_due_outbound_events env signer nonces now_ms dispatch_batch_limit db)))"

text \<open>What the outbox goes through: events are queued and the dispatcher ticks.\<close>

datatype outbox_op =
    Queue int string string event_kind string json int
  | Tick "int \<Rightarrow> string" bool int

fun outbox_step :: "'b client_env_scheme \<Rightarrow> signer \<Rightarrow> 'a outbox_db_scheme \<Rightarrow> outbox_op \<Rightarrow> 'a outbox_db_scheme" where
  "outbox_step env signer db (Queue row_id peer event_id kind hash body now_ms) =
     snd (insert_outbound_event row_id peer event_id kind hash body now_ms db)"
| "outbox_step env signer db (Tick nonces shutting_down now_ms) =
     snd (dispatcher_tick env signer nonces shutting_down now_ms db)"

section \<open>How often an event is sent\<close>

text \<open>What a row says about the number of times its event has been sent.\<close>

definition row_ok :: "nat \<Rightarrow> outbound_row \<Rightarrow> bool" where
  "row_ok n r \<longleftrightarrow> 0 \<le> ob_attempt_count r \<and>
     (ob_status r \<in> {''pending'', ''failed''} \<and> ob_attempt_count r \<le> 7 \<and> int n \<le> ob_attempt_count r \<or>
      ob_status r \<in> {''sending'', ''sent''} \<and> ob_attempt_count r \<le> 7 \<and> int n \<le> ob_attempt_count r + 1 \<or>
      ob_status r = ''dead'' \<and> ob_attempt_count r \<le> 8 \<and> int n \<le> ob_attempt_count r)"

definition rows_inv :: "outbound_row list \<Rightarrow> int list \<Rightarrow> bool" where
  "rows_inv rows w \<longleftrightarrow> distinct (map ob_id rows) \<and> set w \<subseteq> ob_id ` set rows \<and>
     (\<forall>r\<in>set rows. row_ok (count_list w (ob_id r)) r)"

definition outbox_inv :: "'a outbox_db_scheme \<Rightarrow> bool" where
  "outbox_inv db \<longleftrightarrow> rows_inv (fd_outbound db) (map fst (ox_wire db))"

text \<open>A claimed event that is still to be recorded, sent at most \<open>k\<close> times in this attempt.\<close>

definition in_flight :: "nat \<Rightarrow> outbound_row list \<Rightarrow> int list \<Rightarrow> outbound_row \<Rightarrow> bool" where
  "in_flight k rows w e \<longleftrightarrow> (\<exists>r\<in>set rows. ob_id r = ob_id e \<and> ob_status r = ''sending'' \<and>
     ob_attempt_count r = ob_attempt_count e \<and> 0 \<le> ob_attempt_count e \<and> ob_attempt_count e \<le> 7 \<and>
     int (count_list w (ob_id e)) \<le> ob_attempt_count e + int k)"

definition claimed :: "outbound_row list \<Rightarrow> int list \<Rightarrow> outbound_row list \<Rightarrow> bool" where
  "claimed rows w es \<longleftrightarrow> distinct (map ob_id es) \<and> (\<forall>e\<in>set es. in_flight 0 rows w e)"

lemma in_flight_update:
  assumes "in_flight k rows w e" "ob_id e \<noteq> i" "\<And>r. ob_id (f r) = ob_id r"
  shows "in_flight k (update_where (\<lambda>r. ob_id r = i) f rows) w e"
  using assms unfolding in_flight_def bex_update_where by auto

lemma claimed_update:
  assumes "claimed rows w es" "i \<notin> ob_id ` set es" "\<And>r. ob_id (f r) = ob_id r"
  shows "claimed (update_where (\<lambda>r. ob_id r = i) f rows) w es"
  using assms in_flight_update [of 0 rows w _ i f] unfolding claimed_def by (metis image_eqI)

lemma rows_inv_update:
  assumes "rows_inv rows w" "\<And>r. ob_id (f r) = ob_id r"
    and "\<And>r. r \<in> set rows \<Longrightarrow> ob_id r = i \<Longrightarrow> row_ok (count_list w i) (f r)"
  shows "rows_inv (update_where (\<lambda>r. ob_id r = i) f rows) w"
proof -
  have "map ob_id (update_where (\<lambda>r. ob_id r = i) f rows) = map ob_id rows"
    by (rule map_update_where) (rule assms(2))
  then have "distinct (map ob_id (update_where (\<lambda>r. ob_id r = i) f rows))"
      "ob_id ` set (update_where (\<lambda>r. ob_id r = i) f rows) = ob_id ` set rows"
    using assms(1) unfolding rows_inv_def by (metis, metis list.set_map)
  moreover have "row_ok (count_list w (ob_id r)) r" if r: "r \<in> set (update_where (\<lambda>r. ob_id r = i) f rows)" for r
  proof -
    from r obtain r0 where r0: "r0 \<in> set rows" "r = (if ob_id r0 = i then f r0 else r0)"
      by (auto simp: update_where_def)
    show ?thesis
    proof (cases "ob_id r0 = i")
      case True
      then show ?thesis using assms(3) [OF r0(1)] assms(2) [of r0] r0(2) by simp
    qed (use assms(1) r0 in \<open>simp add: rows_inv_def\<close>)
  qed
  ultimately show ?thesis using assms(1) by (simp add: rows_inv_def)
qed

lemma same_id: "rows_inv rows w \<Longrightarrow> r \<in> set rows \<Longrightarrow> r' \<in> set rows \<Longrightarrow> ob_id r = ob_id r' \<Longrightarrow> r = r'"
  unfolding rows_inv_def by (metis distinct_map inj_onD)

lemma in_flight_row:
  assumes "rows_inv rows w" "in_flight k rows w e" "r \<in> set rows" "ob_id r = ob_id e"
  shows "ob_attempt_count r = ob_attempt_count e"
proof -
  obtain r' where "r' \<in> set rows" "ob_id r' = ob_id e" "ob_attempt_count r' = ob_attempt_count e"
    using assms(2) by (auto simp: in_flight_def)
  with same_id [OF assms(1,3)] assms(4) show ?thesis by metis
qed

lemma in_flight_weaken: "in_flight 0 rows w e \<Longrightarrow> in_flight 1 rows w e"
  by (auto simp: in_flight_def)

lemma send_keeps:
  assumes "rows_inv rows w" "claimed rows w (e # es)"
  shows "rows_inv rows (w @ [ob_id e])" "claimed rows (w @ [ob_id e]) es" "in_flight 1 rows (w @ [ob_id e]) e"
proof -
  obtain r where r: "r \<in> set rows" "ob_id r = ob_id e" "ob_status r = ''sending''"
      "ob_attempt_count r = ob_attempt_count e" "0 \<le> ob_attempt_count e" "ob_attempt_count e \<le> 7"
      "int (count_list w (ob_id e)) \<le> ob_attempt_count e"
    using assms(2) by (auto simp: claimed_def in_flight_def)
  show "in_flight 1 rows (w @ [ob_id e]) e" using r by (auto simp: in_flight_def intro!: bexI [of _ r])
  have "row_ok (count_list (w @ [ob_id e]) (ob_id r')) r'" if "r' \<in> set rows" for r'
  proof (cases "ob_id r' = ob_id e")
    case True
    then have "r' = r" using same_id [OF assms(1) that r(1)] r(2) by simp
    with r show ?thesis by (simp add: row_ok_def)
  qed (use assms(1) that in \<open>auto simp: rows_inv_def\<close>)
  with assms(1) r show "rows_inv rows (w @ [ob_id e])" by (auto simp: rows_inv_def intro: rev_image_eqI)
  have "in_flight 0 rows (w @ [ob_id e]) e'" if "e' \<in> set es" for e'
  proof -
    have "ob_id e' \<noteq> ob_id e" using assms(2) that by (auto simp: claimed_def intro: rev_image_eqI)
    with assms(2) that show ?thesis by (auto simp: claimed_def in_flight_def)
  qed
  with assms(2) show "claimed rows (w @ [ob_id e]) es" by (simp add: claimed_def)
qed

lemma claimed_tl: "claimed rows w (e # es) \<Longrightarrow> claimed rows w es \<and> ob_id e \<notin> ob_id ` set es \<and> in_flight 0 rows w e"
  by (auto simp: claimed_def)

definition batch_inv :: "outbound_row list \<Rightarrow> 'a outbox_db_scheme \<Rightarrow> bool" where
  "batch_inv es db \<longleftrightarrow> outbox_inv db \<and> claimed (fd_outbound db) (map fst (ox_wire db)) es"

lemma mark_keeps:
  assumes inv: "batch_inv es db" and e: "in_flight 1 (fd_outbound db) (map fst (ox_wire db)) e" "ob_id e \<notin> ob_id ` set es"
    and wire: "ox_wire db' = ox_wire db"
    and rows: "fd_outbound db' = fd_outbound db \<or> fd_outbound db' = update_where (\<lambda>r. ob_id r = ob_id e) f (fd_outbound db)"
    and f: "\<And>r. ob_id (f r) = ob_id r"
      "\<And>r n. ob_attempt_count r = ob_attempt_count e \<Longrightarrow> 0 \<le> ob_attempt_count e \<Longrightarrow> ob_attempt_count e \<le> 7 \<Longrightarrow>
         int n \<le> ob_attempt_count e + 1 \<Longrightarrow> row_ok n (f r)"
  shows "batch_inv es db'"
  using rows
proof
  assume "fd_outbound db' = fd_outbound db"
  with inv wire show ?thesis by (simp add: batch_inv_def outbox_inv_def)
next
  assume db': "fd_outbound db' = update_where (\<lambda>r. ob_id r = ob_id e) f (fd_outbound db)"
  have ri: "rows_inv (fd_outbound db) (map fst (ox_wire db))" and cl: "claimed (fd_outbound db) (map fst (ox_wire db)) es"
    using inv by (simp_all add: batch_inv_def outbox_inv_def)
  have "row_ok (count_list (map fst (ox_wire db)) (ob_id e)) (f x)" if "x \<in> set (fd_outbound db)" "ob_id x = ob_id e" for x
    using in_flight_row [OF ri e(1) that] e(1) by (intro f(2)) (auto simp: in_flight_def)
  then have "rows_inv (fd_outbound db') (map fst (ox_wire db'))"
    unfolding db' wire by (intro rows_inv_update [OF ri f(1)])
  moreover have "claimed (fd_outbound db') (map fst (ox_wire db')) es"
    unfolding db' wire by (rule claimed_update [OF cl e(2) f(1)])
  ultimately show ?thesis by (simp add: batch_inv_def outbox_inv_def)
qed

lemma mark_sent_keeps:
  assumes "batch_inv es db" "in_flight 1 (fd_outbound db) (map fst (ox_wire db)) e" "ob_id e \<notin> ob_id ` set es"
    and "mark_outbound_event_sent (ob_id e) now db = (r, db')"
  shows "batch_inv es db'"
proof -
  let ?f = "\<lambda>r. r\<lparr>ob_status := ''sent'', ob_updated_at_ms := now\<rparr>"
  have "ox_wire db' = ox_wire db" "fd_outbound db' = fd_outbound db \<or>
      fd_outbound db' = update_where (\<lambda>r. ob_id r = ob_id e) ?f (fd_outbound db)"
    using assms(4) by (cases r; auto simp: mark_outbound_event_sent_def result_iff)+
  then show ?thesis by (rule mark_keeps [OF assms(1-3)]) (simp_all add: row_ok_def)
qed

lemma plan_cases:
  assumes "0 \<le> a" "a \<le> 7"
  shows "fp_attempt_count (next_outbound_failure_plan now a code) = a + 1 \<and>
    fp_status (next_outbound_failure_plan now a code) = (if a < 7 then ''failed'' else ''dead'')"
  using assms by (auto simp: next_outbound_failure_plan_def Let_def sat_add_i32_def i32_max_def outbound_max_attempts_def)

lemma mark_failed_keeps:
  assumes "batch_inv es db" "in_flight 1 (fd_outbound db) (map fst (ox_wire db)) e" "ob_id e \<notin> ob_id ` set es"
    and "mark_outbound_event_failed (ob_id e) now (ob_attempt_count e) code db = (r, db')"
  shows "batch_inv es db'"
proof -
  let ?p = "next_outbound_failure_plan now (ob_attempt_count e) code"
  let ?f = "\<lambda>r. r\<lparr>ob_status := fp_status ?p, ob_attempt_count := fp_attempt_count ?p,
      ob_next_attempt_at_ms := fp_next_attempt_at_ms ?p, ob_last_error_code := Some (fp_last_error_code ?p),
      ob_updated_at_ms := now\<rparr>"
  have ok: "row_ok n (?f r)" if "0 \<le> ob_attempt_count e" "ob_attempt_count e \<le> 7" "int n \<le> ob_attempt_count e + 1" for n r
    using plan_cases [OF that(1,2), of now code] that(3) that(1,2) by (cases "ob_attempt_count e < 7") (simp_all add: row_ok_def)
  have "ox_wire db' = ox_wire db" "fd_outbound db' = fd_outbound db \<or>
      fd_outbound db' = update_where (\<lambda>r. ob_id r = ob_id e) ?f (fd_outbound db)"
    using assms(4) by (cases r; auto simp: mark_outbound_event_failed_def result_iff Let_def)+
  then show ?thesis by (rule mark_keeps [OF assms(1-3)]) (simp_all add: ok)
qed

lemma mark_dead_keeps:
  assumes "batch_inv es db" "in_flight 1 (fd_outbound db) (map fst (ox_wire db)) e" "ob_id e \<notin> ob_id ` set es"
    and "mark_outbound_event_dead (ob_id e) now (ob_attempt_count e) code db = (r, db')"
  shows "batch_inv es db'"
proof -
  let ?f = "\<lambda>r. r\<lparr>ob_status := ''dead'', ob_attempt_count := max 1 (sat_add_i32 (ob_attempt_count e) 1),
      ob_next_attempt_at_ms := None, ob_last_error_code := Some (sanitize_outbound_error_code code),
      ob_updated_at_ms := now\<rparr>"
  have ok: "row_ok n (?f r)" if "0 \<le> ob_attempt_count e" "ob_attempt_count e \<le> 7" "int n \<le> ob_attempt_count e + 1" for n r
    using that by (simp add: row_ok_def sat_add_i32_def i32_max_def)
  have "ox_wire db' = ox_wire db" "fd_outbound db' = fd_outbound db \<or>
      fd_outbound db' = update_where (\<lambda>r. ob_id r = ob_id e) ?f (fd_outbound db)"
    using assms(4) by (cases r; auto simp: mark_outbound_event_dead_def result_iff Let_def)+
  then show ?thesis by (rule mark_keeps [OF assms(1-3)]) (simp_all add: ok)
qed

text \<open>The marks a claimed event can be given, and the shape of a dispatch.\<close>

definition marked :: "outbound_row \<Rightarrow> int \<Rightarrow> 'a outbox_db_scheme \<Rightarrow> 'a outbox_db_scheme \<Rightarrow> bool" where
  "marked e now db db' \<longleftrightarrow>
     fd_outbound db' = fd_outbound db \<and> ox_wire db' = ox_wire db
     \<or> (\<exists>q. mark_outbound_event_sent (ob_id e) now db = (q, db'))
     \<or> (\<exists>c q. mark_outbound_event_failed (ob_id e) now (ob_attempt_count e) c db = (q, db'))
     \<or> (\<exists>c q. mark_outbound_event_dead (ob_id e) now (ob_attempt_count e) c db = (q, db'))"

lemma record_outcome_marked: "record_outcome e now outcome db = (r, db') \<Longrightarrow> marked e now db db'"
  by (cases r; cases outcome) (auto simp: marked_def record_outcome_def result_iff split: if_splits)

lemma marked_keeps:
  assumes "batch_inv es db" "in_flight 1 (fd_outbound db) (map fst (ox_wire db)) e" "ob_id e \<notin> ob_id ` set es"
    and "marked e now db db'"
  shows "batch_inv es db'"
  using assms(4) mark_sent_keeps [OF assms(1-3)] mark_failed_keeps [OF assms(1-3)] mark_dead_keeps [OF assms(1-3)] assms(1)
  unfolding marked_def by (auto simp: batch_inv_def outbox_inv_def)

lemma marked_rows:
  assumes "marked e now db db'"
  shows "\<exists>f. fd_outbound db' = fd_outbound db \<or> fd_outbound db' = update_where (\<lambda>r. ob_id r = ob_id e) f (fd_outbound db)"
  using assms unfolding marked_def
proof (elim disjE exE)
  fix q assume "mark_outbound_event_sent (ob_id e) now db = (q, db')"
  then show ?thesis by (cases q) (auto simp: mark_outbound_event_sent_def result_iff)
next
  fix c q assume "mark_outbound_event_failed (ob_id e) now (ob_attempt_count e) c db = (q, db')"
  then show ?thesis by (cases q) (auto simp: mark_outbound_event_failed_def result_iff Let_def)
next
  fix c q assume "mark_outbound_event_dead (ob_id e) now (ob_attempt_count e) c db = (q, db')"
  then show ?thesis by (cases q) (auto simp: mark_outbound_event_dead_def result_iff Let_def)
qed simp

lemma dispatch_claimed_shape:
  assumes "dispatch_claimed_outbound_event env sg nonces e now db = (r, db')"
  shows "\<exists>db1. fd_outbound db1 = fd_outbound db \<and>
    (map fst (ox_wire db1) = map fst (ox_wire db) \<or> map fst (ox_wire db1) = map fst (ox_wire db) @ [ob_id e]) \<and>
    marked e now db1 db'"
proof -
  obtain q db1 where q: "peer_endpoint_by_peer_id (ob_destination_peer_id e) db = (q, db1)" by fastforce
  then have db1: "fd_outbound db1 = fd_outbound db \<and> ox_wire db1 = ox_wire db"
    by (cases q) (auto simp: peer_endpoint_by_peer_id_def result_iff)
  show ?thesis
  proof (cases q)
    case (Inl x)
    with q assms db1 show ?thesis
      by (auto simp: dispatch_claimed_outbound_event_def st_bind_def st_map_err_def marked_def)
  next
    case (Inr found)
    consider "found = None" | peer x where "found = Some peer" "outbound_event_body_bytes env e = Inl x"
      | peer body where "found = Some peer" "outbound_event_body_bytes env e = Inr body"
      by (cases found; cases "outbound_event_body_bytes env e") auto
    then show ?thesis
    proof cases
      case 1
      have "\<exists>z. mark_outbound_event_failed (ob_id e) now (ob_attempt_count e) ''UNKNOWN_PEER_ENDPOINT'' db1 = (z, db')"
        using assms q Inr 1 by (cases r) (auto simp: dispatch_claimed_outbound_event_def result_iff split: if_splits)
      with db1 show ?thesis by (auto simp: marked_def)
    next
      case 2
      have "\<exists>z. mark_outbound_event_dead (ob_id e) now (ob_attempt_count e) ''INVALID_EVENT_BODY'' db1 = (z, db')"
        using assms q Inr 2 by (cases r) (auto simp: dispatch_claimed_outbound_event_def result_iff)
      with db1 show ?thesis by (auto simp: marked_def)
    next
      case 3
      obtain outcome db2 where s: "send_event env sg e peer body now (nonces (ob_id e)) db1 = (outcome, db2)" by fastforce
      have "record_outcome e now outcome db2 = (r, db')"
        using assms q Inr 3 s by (simp add: dispatch_claimed_outbound_event_def st_bind_def st_map_err_def)
      then have "marked e now db2 db'" by (rule record_outcome_marked)
      moreover have "fd_outbound db2 = fd_outbound db" "map fst (ox_wire db2) = map fst (ox_wire db) \<or>
          map fst (ox_wire db2) = map fst (ox_wire db) @ [ob_id e]"
        using s db1 by (auto simp: send_event_def Let_def split: sum.splits)
      ultimately show ?thesis by blast
    qed
  qed
qed

lemma dispatch_claimed_keeps:
  assumes "batch_inv (e # es) db" "dispatch_claimed_outbound_event env sg nonces e now db = (r, db')"
  shows "batch_inv es db'"
proof -
  have cl: "claimed (fd_outbound db) (map fst (ox_wire db)) (e # es)" and ri: "outbox_inv db"
    using assms(1) by (auto simp: batch_inv_def)
  note tl = claimed_tl [OF cl]
  obtain db1 where db1: "fd_outbound db1 = fd_outbound db" "map fst (ox_wire db1) = map fst (ox_wire db) \<or>
      map fst (ox_wire db1) = map fst (ox_wire db) @ [ob_id e]" "marked e now db1 db'"
    using dispatch_claimed_shape [OF assms(2)] by blast
  have "batch_inv es db1 \<and> in_flight 1 (fd_outbound db1) (map fst (ox_wire db1)) e"
    using db1(2)
  proof
    assume "map fst (ox_wire db1) = map fst (ox_wire db)"
    with db1(1) tl ri in_flight_weaken show ?thesis by (simp add: batch_inv_def outbox_inv_def)
  next
    assume "map fst (ox_wire db1) = map fst (ox_wire db) @ [ob_id e]"
    with db1(1) send_keeps [OF _ cl] ri show ?thesis by (simp add: batch_inv_def outbox_inv_def)
  qed
  with marked_keeps tl db1(3) show ?thesis by blast
qed

lemma batch_inv_outbox: "batch_inv es db \<Longrightarrow> outbox_inv db"
  by (simp add: batch_inv_def)

lemma dispatch_events_keeps:
  "batch_inv es db \<Longrightarrow> outbox_inv (snd (dispatch_events env sg nonces now es report db))"
proof (induction es arbitrary: db report)
  case (Cons e es)
  obtain r db1 where d: "dispatch_claimed_outbound_event env sg nonces e now db = (r, db1)" by fastforce
  have "batch_inv es db1" by (rule dispatch_claimed_keeps [OF Cons.prems d])
  with Cons.IH batch_inv_outbox show ?case by (cases r) (auto simp: st_bind_def d)
qed (simp add: batch_inv_def st_return_def)

lemma due_batch_props:
  assumes "distinct (map ob_id rows)"
  shows "set (due_batch now n rows) \<subseteq> {r \<in> set rows. outbound_due now r}" "distinct (map ob_id (due_batch now n rows))"
proof -
  show "set (due_batch now n rows) \<subseteq> {r \<in> set rows. outbound_due now r}"
    by (auto simp: due_batch_def dest: in_set_takeD)
  have "distinct (map ob_id (sort_key f (filter P rows)))" for P and f :: "outbound_row \<Rightarrow> int \<times> int"
    using assms by (simp add: distinct_map inj_on_def)
  then show "distinct (map ob_id (due_batch now n rows))"
    by (simp add: due_batch_def take_map [symmetric] distinct_take)
qed

lemma claim_keeps:
  assumes "outbox_inv db" "claim_due_outbound_events now limit db = (Inr es, db')"
  shows "batch_inv es db'"
proof -
  let ?f = "\<lambda>r. r\<lparr>ob_status := ''sending'', ob_updated_at_ms := now\<rparr>"
  let ?rows = "fd_outbound db" and ?w = "map fst (ox_wire db)"
  obtain due where due: "due = due_batch now (nat (max 1 (min 100 limit))) ?rows" "es = map ?f due"
      "fd_outbound db' = update_where (\<lambda>r. ob_id r \<in> set (map ob_id due)) ?f ?rows" "ox_wire db' = ox_wire db"
    using assms(2) by (auto simp: claim_due_outbound_events_def result_iff Let_def)
  have ri: "rows_inv ?rows ?w" using assms(1) by (simp add: outbox_inv_def)
  note props = due_batch_props [of ?rows now "nat (max 1 (min 100 limit))", folded due(1)]
  have d: "set due \<subseteq> {r \<in> set ?rows. outbound_due now r}" "distinct (map ob_id due)"
    using props ri by (simp_all add: rows_inv_def)
  have small: "0 \<le> ob_attempt_count r \<and> ob_attempt_count r \<le> 7 \<and> int (count_list ?w (ob_id r)) \<le> ob_attempt_count r"
    if "r \<in> set due" for r
  proof -
    have "row_ok (count_list ?w (ob_id r)) r" "outbound_due now r" using that d(1) ri by (auto simp: rows_inv_def)
    then show ?thesis by (auto simp: row_ok_def outbound_due_def)
  qed
  have ids: "map ob_id (fd_outbound db') = map ob_id ?rows" unfolding due(3) by (rule map_update_where) simp
  have "row_ok (count_list ?w (ob_id r)) r" if r: "r \<in> set (fd_outbound db')" for r
  proof -
    obtain r0 where r0: "r0 \<in> set ?rows" "r = (if ob_id r0 \<in> set (map ob_id due) then ?f r0 else r0)"
      using r unfolding due(3) by (auto simp: update_where_def)
    show ?thesis
    proof (cases "ob_id r0 \<in> set (map ob_id due)")
      case True
      then obtain e where "e \<in> set due" "ob_id e = ob_id r0" by auto
      with d(1) have "e = r0" using same_id [OF ri _ r0(1)] by blast
      with small [OF \<open>e \<in> set due\<close>] r0(2) True show ?thesis by (simp add: row_ok_def)
    qed (use r0 ri in \<open>simp add: rows_inv_def\<close>)
  qed
  then have "rows_inv (fd_outbound db') ?w"
    using ri ids unfolding rows_inv_def by (metis list.set_map)
  moreover have "in_flight 0 (fd_outbound db') ?w (?f r)" if "r \<in> set due" for r
    unfolding in_flight_def due(3) bex_update_where using small [OF that] that d(1) by auto
  then have "claimed (fd_outbound db') ?w es"
    using d(2) by (auto simp: claimed_def due(2) comp_def)
  ultimately show ?thesis by (simp add: batch_inv_def outbox_inv_def due(4))
qed

lemma dispatch_due_keeps:
  assumes "outbox_inv db"
  shows "outbox_inv (snd (dispatch_due_outbound_events env sg nonces now limit db))"
proof -
  obtain r db1 where c: "claim_due_outbound_events now limit db = (r, db1)" by fastforce
  show ?thesis
  proof (cases r)
    case (Inl e)
    then have "outbox_inv db1" using assms c by (auto simp: claim_due_outbound_events_def result_iff outbox_inv_def)
    with c Inl show ?thesis by (simp add: dispatch_due_outbound_events_def st_bind_def st_map_err_def)
  next
    case (Inr es)
    with c have "batch_inv es db1" using claim_keeps [OF assms] by simp
    from dispatch_events_keeps [OF this] c Inr show ?thesis
      by (simp add: dispatch_due_outbound_events_def st_bind_def st_map_err_def)
  qed
qed

lemma rows_inv_snoc:
  assumes "rows_inv rows w" "ob_id x \<notin> ob_id ` set rows" "ob_status x = ''pending''" "ob_attempt_count x = 0"
  shows "rows_inv (rows @ [x]) w"
proof -
  have "count_list w (ob_id x) = 0" using assms(1,2) by (auto simp: rows_inv_def count_list_0_iff)
  then have "row_ok (count_list w (ob_id x)) x" using assms(3,4) by (simp add: row_ok_def)
  with assms(1,2) show ?thesis by (auto simp: rows_inv_def)
qed

lemma insert_outbound_keeps:
  assumes "outbox_inv db"
  shows "outbox_inv (snd (insert_outbound_event i p ev k h b now db))"
proof -
  obtain r db' where ins: "insert_outbound_event i p ev k h b now db = (r, db')" by fastforce
  have w: "ox_wire db' = ox_wire db"
    using ins by (cases r) (auto simp: insert_outbound_event_def result_iff split: if_splits)
  have "fd_outbound db' = fd_outbound db \<or> (\<exists>x. fd_outbound db' = fd_outbound db @ [x] \<and>
      ob_id x \<notin> ob_id ` set (fd_outbound db) \<and> ob_status x = ''pending'' \<and> ob_attempt_count x = 0)"
    using ins by (cases r) (auto simp: insert_outbound_event_def result_iff split: if_splits)
  with assms rows_inv_snoc show ?thesis by (auto simp: outbox_inv_def ins w)
qed

lemma outbox_step_keeps: "outbox_inv db \<Longrightarrow> outbox_inv (outbox_step env sg db x)"
  by (cases x) (simp_all add: insert_outbound_keeps dispatch_due_keeps dispatcher_tick_def)

interpretation outbox: invariant_machine "outbox_step env sg" outbox_inv "\<lambda>_. True" for env sg
  by unfold_locales (rule outbox_step_keeps)

lemma outbox_inv_bound:
  assumes "outbox_inv db"
  shows "count_list (map fst (ox_wire db)) i \<le> 8"
proof (cases "i \<in> ob_id ` set (fd_outbound db)")
  case True
  then obtain r where "r \<in> set (fd_outbound db)" "ob_id r = i" by auto
  with assms have "row_ok (count_list (map fst (ox_wire db)) i) r" by (auto simp: outbox_inv_def rows_inv_def)
  then show ?thesis by (auto simp: row_ok_def)
next
  case False
  with assms have "i \<notin> set (map fst (ox_wire db))" by (auto simp: outbox_inv_def rows_inv_def)
  then have "count_list (map fst (ox_wire db)) i = 0" by (rule count_list_0_iff [THEN iffD2])
  then show ?thesis by simp
qed

lemma record_outcome_wire: "ox_wire (snd (record_outcome event now outcome db)) = ox_wire db"
  by (cases outcome)
    (auto simp: record_outcome_def st_bind_def st_map_err_def st_return_def mark_outbound_event_sent_def
      mark_outbound_event_failed_def mark_outbound_event_dead_def db_call_def Let_def split: prod.splits sum.splits)

text \<open>A tick that claims one event sends it, when its peer is known and its body prints.\<close>

lemma tick_sends:
  assumes "claim_due_outbound_events now dispatch_batch_limit db = (Inr [e], db1)"
    and "peer_endpoint_by_peer_id (ob_destination_peer_id e) db1 = (Inr (Some peer), db2)"
    and "outbound_event_body_bytes env e = Inr body"
    and "signed_json_request env sg ''POST'' peer federation_event_path body now (nonces (ob_id e)) = Inr request"
  shows "ox_wire (outbox_step env sg db (Tick nonces False now)) = ox_wire db2 @ [(ob_id e, request)]"
proof -
  obtain outcome where s: "send_event env sg e peer body now (nonces (ob_id e)) db2 =
      (outcome, db2\<lparr>ox_wire := ox_wire db2 @ [(ob_id e, request)]\<rparr>)"
    using assms(4) by (simp add: send_event_def Let_def)
  let ?r = "record_outcome e now outcome (db2\<lparr>ox_wire := ox_wire db2 @ [(ob_id e, request)]\<rparr>)"
  have "dispatch_claimed_outbound_event env sg nonces e now db1 = ?r"
    using assms(2,3) s by (simp add: dispatch_claimed_outbound_event_def st_bind_def st_map_err_def)
  moreover have "ox_wire (snd ?r) = ox_wire db2 @ [(ob_id e, request)]" by (simp add: record_outcome_wire)
  ultimately show ?thesis
    using assms(1) by (cases ?r) (auto simp: dispatcher_tick_def dispatch_due_outbound_events_def st_bind_def st_map_err_def
        st_return_def split: sum.split)
qed

text \<open>
  C26. An outbound event is sent at most eight times, however the peer answers, whichever
  statements of the database fail and however the dispatcher's ticks and the queueing of events
  are ordered; and the rows stay consistent: an event that can still be claimed has failed at most
  seven times and been sent no more often than it failed.
\<close>
theorem events_are_sent_at_most_eight_times:
  assumes "fd_outbound db = []" "ox_wire db = []"
  shows "count_list (map fst (ox_wire (run_ops (outbox_step env sg) db ops))) i \<le> 8 \<and>
    outbox_inv (run_ops (outbox_step env sg) db ops)"
proof -
  have "outbox_inv db" using assms by (simp add: outbox_inv_def rows_inv_def)
  then have "outbox_inv (run_ops (outbox_step env sg) db ops)" by (rule outbox.run_inv) simp
  then show ?thesis using outbox_inv_bound by blast
qed

definition demo_outbox :: outbox_db where
  "demo_outbox = \<lparr>fd_faults = [], fd_users = [], fd_principals = [], fd_peer_keys = [], fd_routes = [],
     fd_nonces = [], fd_inbound = [], fd_outbound = [], ox_wire = []\<rparr>"

definition demo_sending :: outbox_db where
  "demo_sending = demo_outbox\<lparr>fd_peer_keys := fd_peer_keys demo_fed_db\<rparr>"

lemma events_are_sent_at_most_eight_times_witness:
  "count_list (map fst (ox_wire (run_ops (outbox_step demo_client_env demo_signer) demo_sending
     [Queue 1 ''a.example'' ''evt'' MembershipLeave ''h'' Json_Null 5, Tick (\<lambda>_. ''nonce-0123456789'') False 5]))) 1 \<in> {1..8}"
proof -
  let ?db = "outbox_step demo_client_env demo_signer demo_sending (Queue 1 ''a.example'' ''evt'' MembershipLeave ''h'' Json_Null 5)"
  let ?e = "\<lparr>ob_id = 1, ob_destination_peer_id = ''a.example'', ob_event_id = ''evt'', ob_event_kind = ''membership_leave'',
      ob_payload_hash = ''h'', ob_body_json = Json_Null, ob_status = ''sending'', ob_attempt_count = 0,
      ob_next_attempt_at_ms = Some 5, ob_last_error_code = None, ob_updated_at_ms = 5\<rparr>"
  let ?c = "claim_due_outbound_events 5 dispatch_batch_limit ?db"
  have "fst ?c = Inr [?e]" by code_simp
  then have c: "?c = (Inr [?e], snd ?c)" by (metis prod.collapse)
  let ?peer = "\<lparr>pe_peer_id = ''a.example'', pe_api_origin = ''https://a.example''\<rparr>"
  let ?p = "peer_endpoint_by_peer_id (ob_destination_peer_id ?e) (snd ?c)"
  have "fst ?p = Inr (Some ?peer)" by code_simp
  then have p: "?p = (Inr (Some ?peer), snd ?p)" by (metis prod.collapse)
  have b: "outbound_event_body_bytes demo_client_env ?e = Inr ''text''"
    by (simp add: outbound_event_body_bytes_def demo_client_env_def max_outbound_event_body_bytes_def)
  let ?r = "signed_json_request demo_client_env demo_signer ''POST'' ?peer federation_event_path ''text'' 5 ''nonce-0123456789''"
  have "is_ok ?r" by code_simp
  then obtain request where r: "?r = Inr request" by (cases ?r) (auto simp: is_ok_def)
  have "ox_wire (snd ?p) = []" by code_simp
  then have "map fst (ox_wire (outbox_step demo_client_env demo_signer ?db (Tick (\<lambda>_. ''nonce-0123456789'') False 5))) = [1]"
    using tick_sends [OF c p b, where nonces = "\<lambda>_. ''nonce-0123456789''", OF r] by simp
  moreover note events_are_sent_at_most_eight_times [THEN conjunct1, of demo_sending demo_client_env demo_signer
      "[Queue 1 ''a.example'' ''evt'' MembershipLeave ''h'' Json_Null 5, Tick (\<lambda>_. ''nonce-0123456789'') False 5]" 1]
  ultimately show ?thesis by (simp add: demo_sending_def demo_outbox_def)
qed

section \<open>What a cycle leaves behind\<close>

text \<open>A row that is not pending or failed is never claimed, and a cycle touches only rows it claimed.\<close>

lemma dispatch_events_other_rows:
  assumes "i \<notin> ob_id ` set es" "r \<in> set (fd_outbound db)" "ob_id r = i"
  shows "r \<in> set (fd_outbound (snd (dispatch_events env sg nonces now es report db)))"
  using assms
proof (induction es arbitrary: db report)
  case (Cons e es)
  obtain q db1 where d: "dispatch_claimed_outbound_event env sg nonces e now db = (q, db1)" by fastforce
  have "r \<in> set (fd_outbound db1)"
  proof -
    obtain f where "fd_outbound db1 = fd_outbound db \<or> fd_outbound db1 = update_where (\<lambda>r. ob_id r = ob_id e) f (fd_outbound db)"
      using dispatch_claimed_shape [OF d] marked_rows by metis
    then show ?thesis using Cons.prems by (auto simp: set_update_where)
  qed
  with Cons show ?case by (cases q) (auto simp: st_bind_def d)
qed (simp add: st_return_def)

lemma claim_other_rows:
  assumes "claim_due_outbound_events now limit db = (q, db')" "distinct (map ob_id (fd_outbound db))"
    and "r \<in> set (fd_outbound db)" "\<not> outbound_due now r"
  shows "r \<in> set (fd_outbound db')" "q = Inr es \<Longrightarrow> ob_id r \<notin> ob_id ` set es"
proof -
  have other: "ob_id r \<notin> ob_id ` set (due_batch now n (fd_outbound db))" for n
  proof
    assume "ob_id r \<in> ob_id ` set (due_batch now n (fd_outbound db))"
    then obtain x where "x \<in> set (fd_outbound db)" "outbound_due now x" "ob_id x = ob_id r"
      using due_batch_props(1) [OF assms(2), of now n] by auto
    with assms(2,3,4) show False by (metis distinct_map inj_onD)
  qed
  let ?f = "\<lambda>r. r\<lparr>ob_status := ''sending'', ob_updated_at_ms := now\<rparr>"
  have claim: "\<exists>due. due = due_batch now (nat (max 1 (min 100 limit))) (fd_outbound db) \<and> es = map ?f due \<and>
      fd_outbound db' = update_where (\<lambda>r. ob_id r \<in> set (map ob_id due)) ?f (fd_outbound db)" if "q = Inr es" for es
    using assms(1) that by (auto simp: claim_due_outbound_events_def result_iff Let_def)
  show "r \<in> set (fd_outbound db')"
  proof (cases q)
    case (Inl e)
    with assms(1,3) show ?thesis by (auto simp: claim_due_outbound_events_def result_iff)
  next
    case (Inr es)
    with claim [OF Inr] other assms(3) show ?thesis by (elim exE conjE) (simp add: set_update_where)
  qed
  show "ob_id r \<notin> ob_id ` set es" if "q = Inr es"
    using claim [OF that] other by (elim exE conjE) (simp add: image_image)
qed

lemma sending_stays:
  assumes "outbox_inv db" "r \<in> set (fd_outbound db)" "ob_status r = ''sending''"
  shows "r \<in> set (fd_outbound (outbox_step env sg db x))"
proof (cases x)
  case (Queue i p ev k h b now)
  obtain q db' where ins: "insert_outbound_event i p ev k h b now db = (q, db')" by fastforce
  with assms(2) have "r \<in> set (fd_outbound db')"
    by (cases q) (auto simp: insert_outbound_event_def result_iff split: if_splits)
  with Queue ins show ?thesis by simp
next
  case (Tick nonces down now)
  obtain q db' where c: "claim_due_outbound_events now dispatch_batch_limit db = (q, db')" by fastforce
  have "distinct (map ob_id (fd_outbound db))" "\<not> outbound_due now r"
    using assms by (simp_all add: outbox_inv_def rows_inv_def outbound_due_def)
  note other = claim_other_rows [OF c this(1) assms(2) this(2)]
  show ?thesis
  proof (cases q)
    case (Inl e)
    with Tick c other(1) assms(2) show ?thesis
      by (simp add: dispatcher_tick_def dispatch_due_outbound_events_def st_bind_def st_map_err_def)
  next
    case (Inr es)
    then have "ob_id r \<notin> ob_id ` set es" by (rule other(2))
    from dispatch_events_other_rows [OF this other(1) refl, of env sg nonces now] Tick c Inr assms(2) show ?thesis
      by (simp add: dispatcher_tick_def dispatch_due_outbound_events_def st_bind_def st_map_err_def)
  qed
qed

lemma sending_stays_forever:
  "outbox_inv db \<Longrightarrow> r \<in> set (fd_outbound db) \<Longrightarrow> ob_status r = ''sending'' \<Longrightarrow>
   r \<in> set (fd_outbound (run_ops (outbox_step env sg) db ops))"
proof (induction ops arbitrary: db)
  case (Cons x ops)
  from sending_stays [OF Cons.prems, of env sg x] outbox_step_keeps [OF Cons.prems(1), of env sg x] Cons
  show ?case by simp
qed simp

text \<open>
  C39. One event whose body cannot be sent, because it does not print or is longer than 128 KiB,
  ends the whole cycle: every event claimed after it stays in the state \<open>sending\<close>, and no later
  tick of the dispatcher ever picks it up again. Such an event is neither delivered nor retried
  nor recorded as dead.
\<close>
theorem bad_body_strands_the_batch:
  assumes inv: "outbox_inv db"
    and claim: "claim_due_outbound_events now dispatch_batch_limit db = (Inr (e # es), db1)"
    and peer: "peer_endpoint_by_peer_id (ob_destination_peer_id e) db1 = (Inr (Some peer), db2)"
    and body: "outbound_event_body_bytes env e = Inl err"
    and x: "x \<in> set es"
  shows "\<exists>r\<in>set (fd_outbound (run_ops (outbox_step env sg) (outbox_step env sg db (Tick nonces False now)) ops)).
    ob_id r = ob_id x \<and> ob_status r = ''sending''"
proof -
  obtain q db3 where d: "dispatch_claimed_outbound_event env sg nonces e now db1 = (q, db3)" by fastforce
  have "\<exists>err'. q = Inl err'"
    using d peer body
    by (cases q) (auto simp: dispatch_claimed_outbound_event_def st_bind_def st_map_err_def st_fail_def
        split: prod.splits sum.splits)
  then have step: "outbox_step env sg db (Tick nonces False now) = db3"
    using claim d by (auto simp: dispatcher_tick_def dispatch_due_outbound_events_def st_bind_def st_map_err_def)
  have b: "batch_inv (e # es) db1" by (rule claim_keeps [OF inv claim])
  have "in_flight 0 (fd_outbound db1) (map fst (ox_wire db1)) x" "ob_id e \<notin> ob_id ` set es"
    using b x by (simp_all add: batch_inv_def claimed_def)
  then have "ob_id x \<noteq> ob_id e" using x by (metis image_eqI)
  then obtain r where r: "r \<in> set (fd_outbound db1)" "ob_id r = ob_id x" "ob_status r = ''sending''" "ob_id x \<noteq> ob_id e"
    using \<open>in_flight 0 _ _ x\<close> by (auto simp: in_flight_def)
  obtain f where "fd_outbound db3 = fd_outbound db1 \<or> fd_outbound db3 = update_where (\<lambda>r. ob_id r = ob_id e) f (fd_outbound db1)"
    using dispatch_claimed_shape [OF d] marked_rows by metis
  with r have "r \<in> set (fd_outbound db3)" by (auto simp: set_update_where)
  moreover have "outbox_inv db3" using dispatch_claimed_keeps [OF b d] by (rule batch_inv_outbox)
  ultimately have "r \<in> set (fd_outbound (run_ops (outbox_step env sg) db3 ops))"
    using r(3) sending_stays_forever by blast
  with r step show ?thesis by auto
qed

definition big_body_env :: client_env where
  "big_body_env = demo_client_env\<lparr>to_vec := (\<lambda>v. Some (if v = Json_Null then replicate 131073 CHR ''x'' else ''{}''))\<rparr>"

definition demo_row :: "int \<Rightarrow> json \<Rightarrow> outbound_row" where
  "demo_row i body = \<lparr>ob_id = i, ob_destination_peer_id = ''a.example'', ob_event_id = nat_str (nat i),
     ob_event_kind = ''membership_leave'', ob_payload_hash = ''h'', ob_body_json = body, ob_status = ''pending'',
     ob_attempt_count = 0, ob_next_attempt_at_ms = Some 5, ob_last_error_code = None, ob_updated_at_ms = 5\<rparr>"

definition demo_batch :: outbox_db where
  "demo_batch = demo_outbox\<lparr>fd_peer_keys := fd_peer_keys demo_fed_db,
     fd_outbound := [demo_row 1 Json_Null, demo_row 2 (Json_Bool True)]\<rparr>"

lemma bad_body_strands_the_batch_witness:
  "\<exists>r\<in>set (fd_outbound (run_ops (outbox_step big_body_env demo_signer) (outbox_step big_body_env demo_signer demo_batch
       (Tick (\<lambda>_. ''nonce-0123456789'') False 5)) [Tick (\<lambda>_. ''nonce-0123456789'') False 100000])).
     ob_id r = 2 \<and> ob_status r = ''sending''"
proof -
  let ?claim = "\<lambda>r. r\<lparr>ob_status := ''sending'', ob_updated_at_ms := 5\<rparr>"
  let ?e = "?claim (demo_row 1 Json_Null)" and ?x = "?claim (demo_row 2 (Json_Bool True))"
  let ?c = "claim_due_outbound_events 5 dispatch_batch_limit demo_batch"
  have "fst ?c = Inr [?e, ?x]" by code_simp
  then have c: "?c = (Inr [?e, ?x], snd ?c)" by (metis prod.collapse)
  have inv: "outbox_inv demo_batch"
    by (simp add: outbox_inv_def rows_inv_def demo_batch_def demo_outbox_def demo_row_def row_ok_def)
  let ?peer = "\<lparr>pe_peer_id = ''a.example'', pe_api_origin = ''https://a.example''\<rparr>"
  let ?p = "peer_endpoint_by_peer_id (ob_destination_peer_id ?e) (snd ?c)"
  have "fst ?p = Inr (Some ?peer)" by code_simp
  then have p: "?p = (Inr (Some ?peer), snd ?p)" by (metis prod.collapse)
  have "outbound_event_body_bytes big_body_env ?e = Inl EventBodyTooLarge"
    by (simp add: outbound_event_body_bytes_def big_body_env_def demo_row_def max_outbound_event_body_bytes_def)
  from bad_body_strands_the_batch [OF inv c p this, of ?x demo_signer "\<lambda>_. ''nonce-0123456789''"
      "[Tick (\<lambda>_. ''nonce-0123456789'') False 100000]"]
  show ?thesis by (simp add: demo_row_def)
qed

end
