(* ===== verification/User_Cache.thy ===== *)
theory User_Cache
  imports Fed_Storage
begin

text \<open>
  The cache of user profiles (\<open>src/server-rs/src/services/user_cache.rs\<close>) and the CDN resolver
  it applies to avatars (\<open>src/server-rs/src/services/cdn.rs\<close>). The cache sits beside the tables it
  is filled from, so that its operations read through the same failing statements as the rest of
  the storage model. \<open>now\<close> is \<open>Instant::now()\<close> in milliseconds, \<open>cdn\<close> the value \<open>cdn::init\<close> has set.
\<close>

section \<open>The CDN resolver\<close>

definition cdn_init :: "string option \<Rightarrow> string option" where
  "cdn_init base_url = map_option (\<lambda>u.
     (let u = str_trim u;
          u = (if u \<noteq> [] \<and> \<not> starts_with u ''http://'' \<and> \<not> starts_with u ''https://'' then ''https://'' @ u else u)
      in trim_end_by (\<lambda>c. c = CHR ''/'') u)) base_url"

definition cdn_enabled :: "string option \<Rightarrow> bool" where
  "cdn_enabled cdn \<longleftrightarrow> cdn \<noteq> None"

definition cdn_resolve :: "string option \<Rightarrow> string option \<Rightarrow> string option" where
  "cdn_resolve cdn key_or_url =
     Option.bind key_or_url (\<lambda>value.
       if value = [] then None
       else if starts_with value ''http'' then Some value
       else (case cdn of
               Some base \<Rightarrow> Some (base @ ''/'' @ value)
             | None \<Rightarrow> Some value))"

section \<open>The cache\<close>

record cached_user_profile =
  cu_username :: string
  cu_avatar_url :: "string option"
  cu_display_name :: "string option"
  cu_is_deleted :: bool
  cu_cached_at :: int

type_synonym profile = "string \<times> string option \<times> string option"

record profile_db = fed_db +
  pf_bots :: "bot_row list"
  pf_entries :: "(int, cached_user_profile) dmap"

definition CACHE_TTL_SECS :: int where "CACHE_TTL_SECS = 300"
definition MAX_CACHE_SIZE :: nat where "MAX_CACHE_SIZE = 10000"

definition is_fresh :: "int \<Rightarrow> cached_user_profile \<Rightarrow> bool" where
  "is_fresh now entry \<longleftrightarrow> now - cu_cached_at entry < CACHE_TTL_SECS * 1000"

definition profile_of :: "string option \<Rightarrow> cached_user_profile \<Rightarrow> profile" where
  "profile_of cdn entry = (cu_username entry, cdn_resolve cdn (cu_avatar_url entry), cu_display_name entry)"

definition fresh_entry :: "int \<Rightarrow> int \<Rightarrow> (int, cached_user_profile) dmap \<Rightarrow> cached_user_profile option" where
  "fresh_entry now user_id entries = opt_filter (is_fresh now) (dm_get entries user_id)"

definition evict_oldest :: "(int, cached_user_profile) dmap \<Rightarrow> (int, cached_user_profile) dmap" where
  "evict_oldest entries =
     (let evict_count = MAX_CACHE_SIZE div 10;
          by_age = sort_key snd (map (\<lambda>(k, e). (k, cu_cached_at e)) entries)
      in fold (\<lambda>(key, _) m. dm_del key m) (take evict_count by_age) entries)"

text \<open>The rows a miss is answered from: a user, else a bot, else the placeholder.\<close>

definition entry_of_user :: "int \<Rightarrow> user_row \<Rightarrow> cached_user_profile" where
  "entry_of_user now u =
     \<lparr>cu_username = us_username u, cu_avatar_url = us_avatar_url u, cu_display_name = us_display_name u,
      cu_is_deleted = (us_deleted_at_ms u \<noteq> None), cu_cached_at = now\<rparr>"

definition entry_of_bot :: "int \<Rightarrow> bot_row \<Rightarrow> cached_user_profile" where
  "entry_of_bot now b =
     \<lparr>cu_username = bo_name b, cu_avatar_url = bo_avatar_url b, cu_display_name = None,
      cu_is_deleted = False, cu_cached_at = now\<rparr>"

definition unknown_entry :: "int \<Rightarrow> cached_user_profile" where
  "unknown_entry now =
     \<lparr>cu_username = ''Unknown'', cu_avatar_url = None, cu_display_name = None,
      cu_is_deleted = False, cu_cached_at = now\<rparr>"

definition users_by_id :: "int \<Rightarrow> ('a fed_db_scheme, sqlx_error, user_row option) step" where
  "users_by_id user_id = db_call (\<lambda>db. (List.find (\<lambda>u. us_id u = user_id) (fd_users db), db))"

definition users_by_ids :: "int list \<Rightarrow> ('a fed_db_scheme, sqlx_error, user_row list) step" where
  "users_by_ids ids =
     (if ids = [] then st_return [] else db_call (\<lambda>db. (filter (\<lambda>u. us_id u \<in> set ids) (fd_users db), db)))"

definition bots_by_id :: "int \<Rightarrow> ('a profile_db_scheme, sqlx_error, bot_row option) step" where
  "bots_by_id bot_id = db_call (\<lambda>db. (List.find (\<lambda>b. bo_id b = bot_id) (pf_bots db), db))"

definition bots_by_ids :: "int list \<Rightarrow> ('a profile_db_scheme, sqlx_error, bot_row list) step" where
  "bots_by_ids ids =
     (if ids = [] then st_return [] else db_call (\<lambda>db. (filter (\<lambda>b. bo_id b \<in> set ids) (pf_bots db), db)))"

definition fetch_entry :: "int \<Rightarrow> int \<Rightarrow> 'a profile_db_scheme \<Rightarrow> cached_user_profile \<times> 'a profile_db_scheme" where
  "fetch_entry now user_id db =
     (case users_by_id user_id db of
        (Inr (Some u), db) \<Rightarrow> (entry_of_user now u, db)
      | (_, db) \<Rightarrow>
          (case bots_by_id user_id db of
             (Inr (Some b), db) \<Rightarrow> (entry_of_bot now b, db)
           | (_, db) \<Rightarrow> (unknown_entry now, db)))"

definition get_or_fetch :: "string option \<Rightarrow> int \<Rightarrow> int \<Rightarrow> 'a profile_db_scheme \<Rightarrow> profile \<times> 'a profile_db_scheme" where
  "get_or_fetch cdn now user_id db =
     (case fresh_entry now user_id (pf_entries db) of
        Some entry \<Rightarrow> (profile_of cdn entry, db)
      | None \<Rightarrow>
          (case fetch_entry now user_id db of
             (entry, db) \<Rightarrow>
               (let entries = (if MAX_CACHE_SIZE \<le> length (pf_entries db) then evict_oldest (pf_entries db)
                               else pf_entries db)
                in (profile_of cdn entry, db\<lparr>pf_entries := dm_put user_id entry entries\<rparr>))))"

definition get_or_fetch_vdb :: "string option \<Rightarrow> int \<Rightarrow> int \<Rightarrow> 'a profile_db_scheme \<Rightarrow> profile \<times> 'a profile_db_scheme" where
  "get_or_fetch_vdb cdn now user_id db = get_or_fetch cdn now user_id db"

definition profile_is_deleted :: "string option \<Rightarrow> int \<Rightarrow> int \<Rightarrow> 'a profile_db_scheme \<Rightarrow> bool \<times> 'a profile_db_scheme" where
  "profile_is_deleted cdn now user_id db =
     (case fresh_entry now user_id (pf_entries db) of
        Some entry \<Rightarrow> (cu_is_deleted entry, db)
      | None \<Rightarrow>
          (case get_or_fetch cdn now user_id db of
             (_, db) \<Rightarrow> (case dm_get (pf_entries db) user_id of Some e \<Rightarrow> cu_is_deleted e | None \<Rightarrow> False, db)))"

definition invalidate_profile :: "int \<Rightarrow> 'a profile_db_scheme \<Rightarrow> 'a profile_db_scheme" where
  "invalidate_profile user_id db = db\<lparr>pf_entries := dm_del user_id (pf_entries db)\<rparr>"

definition is_loadtest_user :: "int \<Rightarrow> 'a profile_db_scheme \<Rightarrow> bool" where
  "is_loadtest_user user_id db =
     (case dm_get (pf_entries db) user_id of
        Some e \<Rightarrow> starts_with (cu_username e) ''loadtest_user_''
      | None \<Rightarrow> False)"

text \<open>One round of the background sweeper.\<close>

definition profile_sweep :: "int \<Rightarrow> 'a profile_db_scheme \<Rightarrow> 'a profile_db_scheme" where
  "profile_sweep now db =
     (let entries = filter (\<lambda>(_, e). is_fresh now e) (pf_entries db)
      in db\<lparr>pf_entries := (if MAX_CACHE_SIZE < length entries then evict_oldest entries else entries)\<rparr>)"

section \<open>The batched lookup\<close>

definition collect_hit ::
  "string option \<Rightarrow> int \<Rightarrow> (int, cached_user_profile) dmap \<Rightarrow> int
    \<Rightarrow> (int, profile) dmap \<times> int list \<Rightarrow> (int, profile) dmap \<times> int list" where
  "collect_hit cdn now entries user_id st =
     (case st of (out, misses) \<Rightarrow>
        if dm_get out user_id \<noteq> None then (out, misses)
        else (case fresh_entry now user_id entries of
                Some entry \<Rightarrow> (dm_put user_id (profile_of cdn entry) out, misses)
              | None \<Rightarrow> (out, misses @ [user_id])))"

text \<open>A fetched row is inserted in the cache and in the answer.\<close>

definition store_entry ::
  "string option \<Rightarrow> int \<times> cached_user_profile \<Rightarrow> (int, cached_user_profile) dmap \<times> (int, profile) dmap
    \<Rightarrow> (int, cached_user_profile) dmap \<times> (int, profile) dmap" where
  "store_entry cdn row st =
     (case (row, st) of ((i, entry), entries, out) \<Rightarrow> (dm_put i entry entries, dm_put i (profile_of cdn entry) out))"

definition fill_unknown :: "int list \<Rightarrow> (int, profile) dmap \<Rightarrow> (int, profile) dmap" where
  "fill_unknown ids out = fold (\<lambda>i. dm_put i (''Unknown'', None, None)) ids out"

definition fetch_misses ::
  "string option \<Rightarrow> int \<Rightarrow> int list \<Rightarrow> (int, profile) dmap \<Rightarrow> 'a profile_db_scheme
    \<Rightarrow> (int, profile) dmap \<times> 'a profile_db_scheme" where
  "fetch_misses cdn now misses out db =
     (case users_by_ids misses db of
        (Inl _, db) \<Rightarrow> (fill_unknown misses out, db)
      | (Inr rows, db) \<Rightarrow>
          (case fold (store_entry cdn) (map (\<lambda>u. (us_id u, entry_of_user now u)) rows) (pf_entries db, out) of
             (entries, out) \<Rightarrow>
               (let found = us_id ` set rows;
                    missing = filter (\<lambda>i. i \<notin> found) misses;
                    db = db\<lparr>pf_entries := entries\<rparr>
                in if missing = [] then (out, db)
                   else (case bots_by_ids missing db of
                           (Inl _, db) \<Rightarrow> (fill_unknown missing out, db)
                         | (Inr bots, db) \<Rightarrow>
                             (case fold (store_entry cdn) (map (\<lambda>b. (bo_id b, entry_of_bot now b)) bots)
                                     (pf_entries db, out) of
                                (entries, out) \<Rightarrow>
                                  (fill_unknown (filter (\<lambda>i. i \<notin> bo_id ` set bots) missing) out,
                                   db\<lparr>pf_entries := entries\<rparr>))))))"

definition get_or_fetch_many ::
  "string option \<Rightarrow> int \<Rightarrow> int list \<Rightarrow> 'a profile_db_scheme \<Rightarrow> (int, profile) dmap \<times> 'a profile_db_scheme" where
  "get_or_fetch_many cdn now user_ids db =
     (case fold (collect_hit cdn now (pf_entries db)) user_ids ([], []) of
        (out, misses) \<Rightarrow>
          if misses = [] then (out, db)
          else
            (let entries = (if MAX_CACHE_SIZE \<le> length (pf_entries db) + length misses
                            then evict_oldest (pf_entries db) else pf_entries db)
             in fetch_misses cdn now misses out (db\<lparr>pf_entries := entries\<rparr>)))"

section \<open>The cap\<close>

lemma fold_dm_del: "fold (\<lambda>(k, _) m. dm_del k m) vs m = filter (\<lambda>e. fst e \<notin> fst ` set vs) m"
  by (induction vs arbitrary: m) (auto simp: dm_del_def intro: filter_cong)

lemma length_dm_del_keys:
  assumes "dm_wf m" "distinct (map fst vs)" "fst ` set vs \<subseteq> fst ` set m"
  shows "length (filter (\<lambda>e. fst e \<notin> fst ` set vs) m) = length m - length vs"
proof -
  have "distinct (map fst (filter (\<lambda>e. fst e \<notin> fst ` set vs) m))"
    using assms(1) by (simp add: dm_wf_def distinct_map_filter)
  then have "length (filter (\<lambda>e. fst e \<notin> fst ` set vs) m) = card (fst ` set (filter (\<lambda>e. fst e \<notin> fst ` set vs) m))"
    using distinct_card by fastforce
  also have "fst ` set (filter (\<lambda>e. fst e \<notin> fst ` set vs) m) = fst ` set m - fst ` set vs" by auto
  also have "card \<dots> = card (fst ` set m) - card (fst ` set vs)"
    using assms(3) by (simp add: card_Diff_subset)
  also have "card (fst ` set m) = length m"
    using assms(1) distinct_card [of "map fst m"] by (simp add: dm_wf_def)
  also have "card (fst ` set vs) = length vs"
    using assms(2) distinct_card [of "map fst vs"] by simp
  finally show ?thesis .
qed

lemma evict_oldest_spec:
  assumes "dm_wf m"
  shows "dm_wf (evict_oldest m)" "length (evict_oldest m) = length m - min 1000 (length m)"
    "set (evict_oldest m) \<subseteq> set m"
proof -
  let ?vs = "take 1000 (sort_key snd (map (\<lambda>(k, e). (k, cu_cached_at e)) m))"
  have eq: "evict_oldest m = filter (\<lambda>e. fst e \<notin> fst ` set ?vs) m"
    by (simp add: evict_oldest_def Let_def MAX_CACHE_SIZE_def fold_dm_del)
  show "dm_wf (evict_oldest m)" "set (evict_oldest m) \<subseteq> set m" using assms by (auto simp: eq)
  have "map fst (map (\<lambda>(k, e). (k, cu_cached_at e)) m) = map fst m" by auto
  then have "distinct (map fst (map (\<lambda>(k, e). (k, cu_cached_at e)) m))"
    using assms by (metis dm_wf_def)
  then have "distinct (map fst (sort_key snd (map (\<lambda>(k, e). (k, cu_cached_at e)) m)))"
    by (metis distinct_map distinct_sort set_sort)
  then have "distinct (map fst ?vs)" by (metis distinct_take take_map)
  moreover have "fst ` set ?vs \<subseteq> fst ` set m"
    by (force dest!: in_set_takeD)
  ultimately show "length (evict_oldest m) = length m - min 1000 (length m)"
    unfolding eq using length_dm_del_keys [OF assms, of ?vs] by (simp add: min.commute)
qed

lemma length_dm_put: "length (dm_put k v m) \<le> Suc (length m)"
  unfolding dm_put_def by (induction m) auto

lemma length_store: "length (fst (fold (store_entry cdn) rows (m, out))) \<le> length m + length rows"
proof (induction rows arbitrary: m out)
  case (Cons r rows)
  have "store_entry cdn r (m, out) = (dm_put (fst r) (snd r) m, dm_put (fst r) (profile_of cdn (snd r)) out)"
    by (cases r) (simp add: store_entry_def)
  with Cons.IH [of "dm_put (fst r) (snd r) m" "dm_put (fst r) (profile_of cdn (snd r)) out"]
    length_dm_put [of "fst r" "snd r" m]
  show ?case by simp
qed simp

lemma dm_wf_store: "dm_wf m \<Longrightarrow> dm_wf (fst (fold (store_entry cdn) rows (m, out)))"
  by (induction rows arbitrary: m out) (auto simp: store_entry_def)

lemma fetch_entry_frame: "fetch_entry now i db = (e, db') \<Longrightarrow> pf_entries db' = pf_entries db \<and> fd_users db' = fd_users db \<and> pf_bots db' = pf_bots db"
  by (auto simp: fetch_entry_def users_by_id_def bots_by_id_def db_call_def Let_def split: prod.splits sum.splits option.splits if_splits)

lemma length_filter_card:
  "distinct (map f rows) \<Longrightarrow> length (filter (\<lambda>r. f r \<in> S) rows) = card (f ` set (filter (\<lambda>r. f r \<in> S) rows))"
  using distinct_card [of "map f (filter (\<lambda>r. f r \<in> S) rows)"] by (simp add: distinct_map_filter)

lemma users_by_ids_result:
  "users_by_ids ids db = (r, db') \<Longrightarrow>
   (r = Inl Sqlx_Error \<or> r = Inr (filter (\<lambda>u. us_id u \<in> set ids) (fd_users db))) \<and> (\<exists>fs. db' = db\<lparr>fd_faults := fs\<rparr>)"
  by (cases r; cases db) (auto simp: users_by_ids_def result_iff split: if_splits)

lemma bots_by_ids_result:
  "bots_by_ids ids db = (r, db') \<Longrightarrow>
   (r = Inl Sqlx_Error \<or> r = Inr (filter (\<lambda>b. bo_id b \<in> set ids) (pf_bots db))) \<and> (\<exists>fs. db' = db\<lparr>fd_faults := fs\<rparr>)"
  by (cases r; cases db) (auto simp: bots_by_ids_def result_iff split: if_splits)

lemma collect_hits_misses:
  "fold (collect_hit cdn now entries) ids (out, misses) = (out', misses') \<Longrightarrow>
   length misses' \<le> length misses + length ids"
proof (induction ids arbitrary: out misses)
  case (Cons i ids)
  obtain o1 m1 where st: "collect_hit cdn now entries i (out, misses) = (o1, m1)" by fastforce
  then have "length m1 \<le> Suc (length misses)" by (auto simp: collect_hit_def split: if_splits option.splits)
  with Cons.IH [of o1 m1] Cons.prems st show ?case by simp
qed simp

definition profile_keys :: "'a profile_db_scheme \<Rightarrow> bool" where
  "profile_keys db \<longleftrightarrow> distinct (map us_id (fd_users db)) \<and> distinct (map bo_id (pf_bots db)) \<and> dm_wf (pf_entries db)"

lemma get_or_fetch_capped:
  assumes "profile_keys db" "length (pf_entries db) \<le> MAX_CACHE_SIZE"
  shows "length (pf_entries (snd (get_or_fetch cdn now i db))) \<le> MAX_CACHE_SIZE"
proof (cases "fresh_entry now i (pf_entries db)")
  case None
  obtain e db' where f: "fetch_entry now i db = (e, db')" by fastforce
  note fr = fetch_entry_frame [OF f]
  have wf: "dm_wf (pf_entries db')" using assms(1) fr by (simp add: profile_keys_def)
  let ?m = "if MAX_CACHE_SIZE \<le> length (pf_entries db') then evict_oldest (pf_entries db') else pf_entries db'"
  have "length ?m < MAX_CACHE_SIZE"
    using assms(2) fr evict_oldest_spec(2) [OF wf] by (auto simp: MAX_CACHE_SIZE_def)
  then have "length (dm_put i e ?m) \<le> MAX_CACHE_SIZE" using length_dm_put [of i e ?m] by linarith
  then show ?thesis using None f by (simp add: get_or_fetch_def Let_def)
qed (use assms in \<open>simp add: get_or_fetch_def\<close>)

lemma fetch_misses_capped:
  assumes "profile_keys db" "length (pf_entries db) + length misses \<le> n"
  shows "length (pf_entries (snd (fetch_misses cdn now misses out db))) \<le> n"
proof -
  obtain r db1 where u: "users_by_ids misses db = (r, db1)" by fastforce
  obtain fs where db1: "db1 = db\<lparr>fd_faults := fs\<rparr>" using users_by_ids_result [OF u] by blast
  show ?thesis
  proof (cases r)
    case (Inl e)
    then show ?thesis using assms(2) u db1 by (simp add: fetch_misses_def)
  next
    case (Inr rows)
    then have rows: "rows = filter (\<lambda>u. us_id u \<in> set misses) (fd_users db)"
      using users_by_ids_result [OF u] by auto
    obtain m1 out1 where s1: "fold (store_entry cdn) (map (\<lambda>u. (us_id u, entry_of_user now u)) rows)
        (pf_entries db, out) = (m1, out1)" by fastforce
    define missing where "missing = filter (\<lambda>i. i \<notin> us_id ` set rows) misses"
    let ?db = "db\<lparr>fd_faults := fs, pf_entries := m1\<rparr>"
    have m1: "length m1 \<le> length (pf_entries db) + length rows"
      using length_store [of cdn "map (\<lambda>u. (us_id u, entry_of_user now u)) rows" "pf_entries db" out] s1 by simp
    obtain r2 db2 where b: "bots_by_ids missing ?db = (r2, db2)" by fastforce
    obtain fs2 where db2: "db2 = ?db\<lparr>fd_faults := fs2\<rparr>" using bots_by_ids_result [OF b] by blast
    let ?bots = "filter (\<lambda>b. bo_id b \<in> set missing) (pf_bots db)"
    have "set missing \<inter> us_id ` set rows = {}" "bo_id ` set ?bots \<subseteq> set missing"
      by (auto simp: missing_def)
    then have disj: "us_id ` set rows \<inter> bo_id ` set ?bots = {}" by blast
    have "length rows + length ?bots = card (us_id ` set rows) + card (bo_id ` set ?bots)"
      using assms(1) length_filter_card [of us_id "fd_users db" "set misses"]
        length_filter_card [of bo_id "pf_bots db" "set missing"]
      by (simp add: profile_keys_def rows)
    also have "\<dots> = card (us_id ` set rows \<union> bo_id ` set ?bots)"
      by (rule card_Un_disjoint [symmetric]) (use disj in simp_all)
    also have "\<dots> \<le> card (set misses)"
      by (rule card_mono) (auto simp: rows missing_def)
    also have "\<dots> \<le> length misses" by (rule card_length)
    finally have cnt: "length rows + length ?bots \<le> length misses" .
    show ?thesis
    proof (cases "missing = [] \<or> r2 = Inl Sqlx_Error")
      case True
      then show ?thesis using u Inr db1 s1 b db2 m1 cnt assms(2)
        by (auto simp: fetch_misses_def Let_def missing_def [symmetric])
    next
      case False
      then have r2: "r2 = Inr ?bots" using bots_by_ids_result [OF b] by simp
      obtain m2 out2 where s2: "fold (store_entry cdn) (map (\<lambda>b. (bo_id b, entry_of_bot now b)) ?bots)
        (m1, out1) = (m2, out2)" by fastforce
      have "length m2 \<le> length m1 + length ?bots"
        using length_store [of cdn "map (\<lambda>b. (bo_id b, entry_of_bot now b)) ?bots" m1 out1] s2 by simp
      then show ?thesis using False u Inr db1 s1 b db2 m1 cnt assms(2) r2 s2
        by (simp add: fetch_misses_def Let_def missing_def [symmetric])
    qed
  qed
qed

lemma many_capped:
  assumes "profile_keys db" "length (pf_entries db) \<le> MAX_CACHE_SIZE" "length ids \<le> 1000"
  shows "length (pf_entries (snd (get_or_fetch_many cdn now ids db))) \<le> MAX_CACHE_SIZE"
proof -
  obtain out misses where st: "fold (collect_hit cdn now (pf_entries db)) ids ([], []) = (out, misses)" by fastforce
  have len: "length misses \<le> 1000" using collect_hits_misses [OF st] assms(3) by simp
  have wf: "dm_wf (pf_entries db)" using assms(1) by (simp add: profile_keys_def)
  define m where "m = (if MAX_CACHE_SIZE \<le> length (pf_entries db) + length misses
                            then evict_oldest (pf_entries db) else pf_entries db)"
  have m: "dm_wf m" "length m + length misses \<le> MAX_CACHE_SIZE"
    using evict_oldest_spec(1,2) [OF wf] wf assms(2) len by (auto simp: m_def MAX_CACHE_SIZE_def)
  have "profile_keys (db\<lparr>pf_entries := m\<rparr>)" using assms(1) m(1) by (simp add: profile_keys_def)
  then have "length (pf_entries (snd (fetch_misses cdn now misses out (db\<lparr>pf_entries := m\<rparr>)))) \<le> MAX_CACHE_SIZE"
    by (rule fetch_misses_capped) (use m in simp)
  then show ?thesis using assms(2) st by (simp add: get_or_fetch_many_def Let_def flip: m_def)
qed

text \<open>
  The profile cache holds at most ten thousand entries, as long as a batched lookup asks for
  at most a thousand profiles: a lookup evicts the oldest tenth before it would exceed the cap.
\<close>
lemma profile_cache_capped:
  assumes "profile_keys db" "length (pf_entries db) \<le> MAX_CACHE_SIZE" "length ids \<le> 1000"
  shows "max (length (pf_entries (snd (get_or_fetch cdn now i db))))
           (length (pf_entries (snd (get_or_fetch_many cdn now ids db)))) \<le> MAX_CACHE_SIZE"
  using get_or_fetch_capped [OF assms(1,2)] many_capped [OF assms] by simp

section \<open>The batched lookup\<close>

definition table_entry :: "int \<Rightarrow> 'a profile_db_scheme \<Rightarrow> int \<Rightarrow> cached_user_profile" where
  "table_entry now db i =
     (case List.find (\<lambda>u. us_id u = i) (fd_users db) of
        Some u \<Rightarrow> entry_of_user now u
      | None \<Rightarrow> (case List.find (\<lambda>b. bo_id b = i) (pf_bots db) of
                   Some b \<Rightarrow> entry_of_bot now b
                 | None \<Rightarrow> unknown_entry now))"

lemma fetch_entry_fault_free:
  "fd_faults db = [] \<Longrightarrow> fetch_entry now i db = (table_entry now db i, db)"
  by (auto simp: fetch_entry_def users_by_id_def bots_by_id_def fault_free table_entry_def split: option.splits)

lemma get_or_fetch_answer:
  "fd_faults db = [] \<Longrightarrow> fst (get_or_fetch cdn now i db) =
     profile_of cdn (case fresh_entry now i (pf_entries db) of Some e \<Rightarrow> e | None \<Rightarrow> table_entry now db i)"
  by (auto simp: get_or_fetch_def fetch_entry_fault_free Let_def split: option.splits)

lemma collect_hits:
  assumes "fold (collect_hit cdn now entries) ids (out, misses) = (out', misses')"
    "\<And>i. dm_get out i = None \<or> dm_get out i = map_option (profile_of cdn) (fresh_entry now i entries)"
    "\<And>i. i \<in> set misses \<Longrightarrow> fresh_entry now i entries = None"
  shows "dm_get out' i = (if i \<in> set ids then map_option (profile_of cdn) (fresh_entry now i entries) else dm_get out i) \<and>
    set misses' = set misses \<union> {i \<in> set ids. fresh_entry now i entries = None}"
  using assms
proof (induction ids arbitrary: out misses)
  case (Cons j ids)
  obtain o1 m1 where st: "collect_hit cdn now entries j (out, misses) = (o1, m1)" by fastforce
  have o1: "dm_get o1 i = (if i = j then map_option (profile_of cdn) (fresh_entry now i entries) else dm_get out i)" for i
    using st Cons.prems(2) [of j] by (auto simp: collect_hit_def split: if_splits option.splits)
  have m1: "set m1 = set misses \<union> {i. i = j \<and> fresh_entry now j entries = None}"
    using st Cons.prems(2) [of j] by (auto simp: collect_hit_def split: if_splits option.splits)
  have "dm_get out' i = (if i \<in> set ids then map_option (profile_of cdn) (fresh_entry now i entries) else dm_get o1 i) \<and>
    set misses' = set m1 \<union> {i \<in> set ids. fresh_entry now i entries = None}"
    by (rule Cons.IH) (use Cons.prems st o1 m1 in \<open>auto\<close>)
  then show ?case using o1 m1 by auto
qed simp

lemma store_lookup:
  "distinct (map fst rows) \<Longrightarrow> dm_get (snd (fold (store_entry cdn) rows (m, out))) i =
     (case map_of rows i of Some e \<Rightarrow> Some (profile_of cdn e) | None \<Rightarrow> dm_get out i)"
proof (induction rows arbitrary: m out)
  case (Cons r rows)
  have "store_entry cdn r (m, out) = (dm_put (fst r) (snd r) m, dm_put (fst r) (profile_of cdn (snd r)) out)"
    by (cases r) (simp add: store_entry_def)
  moreover have "map_of rows (fst r) = None" using Cons.prems by (simp add: map_of_eq_None_iff)
  ultimately show ?case using Cons by (cases r) (auto split: option.split)
qed simp

lemma map_of_rows:
  assumes "distinct (map f rows)"
  shows "map_of (map (\<lambda>r. (f r, g r)) (filter (\<lambda>r. f r \<in> S) rows)) i =
     (if i \<in> S then map_option g (List.find (\<lambda>r. f r = i) rows) else None)"
  using assms by (induction rows) auto

lemma fill_unknown_get:
  "dm_get (fill_unknown ids out) i = (if i \<in> set ids then Some (''Unknown'', None, None) else dm_get out i)"
  unfolding fill_unknown_def by (induction ids arbitrary: out) auto

lemma unknown_profile: "profile_of cdn (unknown_entry now) = (''Unknown'', None, None)"
  by (simp add: profile_of_def unknown_entry_def cdn_resolve_def)

lemma distinct_keyed: "distinct (map f rows) \<Longrightarrow> distinct (map fst (map (\<lambda>r. (f r, g r)) (filter P rows)))"
  by (simp add: comp_def distinct_map_filter)

lemma find_in: "List.find (\<lambda>r. f r = i) rows \<noteq> None \<longleftrightarrow> i \<in> f ` set rows"
  by (auto simp: find_None_iff)

lemma fetch_misses_answer:
  assumes "fd_faults db = []" "profile_keys db" "misses \<noteq> []"
  shows "dm_get (fst (fetch_misses cdn now misses out db)) i =
    (if i \<in> set misses then Some (profile_of cdn (table_entry now db i)) else dm_get out i)"
proof -
  define rows where "rows = filter (\<lambda>u. us_id u \<in> set misses) (fd_users db)"
  have u: "users_by_ids misses db = (Inr rows, db)"
    using assms(1,3) by (simp add: users_by_ids_def fault_free rows_def)
  obtain m1 out1 where s1: "fold (store_entry cdn) (map (\<lambda>u. (us_id u, entry_of_user now u)) rows)
        (pf_entries db, out) = (m1, out1)" by fastforce
  define missing where "missing = filter (\<lambda>i. i \<notin> us_id ` set rows) misses"
  have users: "distinct (map us_id (fd_users db))" and bots: "distinct (map bo_id (pf_bots db))"
    using assms(2) by (simp_all add: profile_keys_def)
  have out1: "dm_get out1 i = (case if i \<in> set misses then map_option (entry_of_user now)
      (List.find (\<lambda>u. us_id u = i) (fd_users db)) else None of Some e \<Rightarrow> Some (profile_of cdn e) | None \<Rightarrow> dm_get out i)" for i
    using store_lookup [OF distinct_keyed [OF users], of cdn "entry_of_user now" "\<lambda>u. us_id u \<in> set misses" "pf_entries db" out i]
    by (simp only: rows_def [symmetric] s1 snd_conv
        map_of_rows [OF users, of "entry_of_user now" "set misses", folded rows_def])
  have missing: "set missing = {i \<in> set misses. List.find (\<lambda>u. us_id u = i) (fd_users db) = None}"
    by (auto simp: missing_def rows_def find_None_iff)
  show ?thesis
  proof (cases "missing = []")
    case True
    then have "i \<in> set misses \<Longrightarrow> List.find (\<lambda>u. us_id u = i) (fd_users db) \<noteq> None" using missing by auto
    moreover have "fst (fetch_misses cdn now misses out db) = out1"
      using True u s1 by (simp add: fetch_misses_def Let_def missing_def [symmetric])
    ultimately show ?thesis using out1 [of i] by (auto simp: table_entry_def split: option.splits)
  next
    case False
    let ?bots = "filter (\<lambda>b. bo_id b \<in> set missing) (pf_bots db)"
    have b: "bots_by_ids missing (db\<lparr>pf_entries := m1\<rparr>) = (Inr ?bots, db\<lparr>pf_entries := m1\<rparr>)"
      using False assms(1) by (simp add: bots_by_ids_def fault_free)
    obtain m2 out2 where s2: "fold (store_entry cdn) (map (\<lambda>b. (bo_id b, entry_of_bot now b)) ?bots)
        (m1, out1) = (m2, out2)" by fastforce
    have out2: "dm_get out2 i = (case if i \<in> set missing then map_option (entry_of_bot now)
        (List.find (\<lambda>b. bo_id b = i) (pf_bots db)) else None of Some e \<Rightarrow> Some (profile_of cdn e) | None \<Rightarrow> dm_get out1 i)"
      using store_lookup [OF distinct_keyed [OF bots], of cdn "entry_of_bot now" "\<lambda>b. bo_id b \<in> set missing" m1 out1 i]
      by (simp only: s2 snd_conv map_of_rows [OF bots])
    have unk: "set (filter (\<lambda>i. i \<notin> bo_id ` set ?bots) missing) =
        {i \<in> set missing. List.find (\<lambda>b. bo_id b = i) (pf_bots db) = None}"
      by (auto simp: find_None_iff)
    have ans: "fst (fetch_misses cdn now misses out db) =
        fill_unknown (filter (\<lambda>i. i \<notin> bo_id ` set ?bots) missing) out2"
      using False u s1 s2 b by (simp add: fetch_misses_def Let_def missing_def [symmetric])
    show ?thesis
      unfolding ans fill_unknown_get unk
      using out2 out1 [of i] missing unknown_profile [of cdn now]
      by (auto simp: table_entry_def split: option.splits)
  qed
qed

text \<open>
  The batched lookup answers every requested id, and only those, with exactly what the
  single lookup answers for it on the same cache and tables, whatever is cached, stale, repeated
  or missing, when no statement fails.
\<close>
lemma batched_profiles_agree:
  assumes "fd_faults db = []" "profile_keys db"
  shows "dm_get (fst (get_or_fetch_many cdn now ids db)) i =
    (if i \<in> set ids then Some (fst (get_or_fetch cdn now i db)) else None)"
proof -
  obtain out misses where st: "fold (collect_hit cdn now (pf_entries db)) ids ([], []) = (out, misses)" by fastforce
  have col: "dm_get out i = (if i \<in> set ids then map_option (profile_of cdn) (fresh_entry now i (pf_entries db)) else None)"
    "set misses = {i \<in> set ids. fresh_entry now i (pf_entries db) = None}" for i
    using collect_hits [OF st] by auto
  define m where "m = (if MAX_CACHE_SIZE \<le> length (pf_entries db) + length misses
                            then evict_oldest (pf_entries db) else pf_entries db)"
  have keys: "profile_keys (db\<lparr>pf_entries := m\<rparr>)"
    using assms(2) evict_oldest_spec(1) by (auto simp: profile_keys_def m_def)
  have te: "table_entry now (db\<lparr>pf_entries := m\<rparr>) i = table_entry now db i"
    by (simp add: table_entry_def cong: option.case_cong)
  show ?thesis
  proof (cases "misses = []")
    case True
    then show ?thesis using st col(1) [of i] col(2) assms(1)
      by (auto simp: get_or_fetch_many_def get_or_fetch_answer split: option.splits)
  next
    case False
    then have "fst (get_or_fetch_many cdn now ids db) = fst (fetch_misses cdn now misses out (db\<lparr>pf_entries := m\<rparr>))"
      using st by (simp add: get_or_fetch_many_def Let_def flip: m_def)
    then show ?thesis
      using fetch_misses_answer [OF _ keys False, where cdn = cdn and now = now and out = out and i = i] assms(1) col(1) [of i] col(2) te
      by (auto simp: get_or_fetch_answer split: option.splits)
  qed
qed

section \<open>Concrete instances\<close>

definition demo_profile_db :: "bool list \<Rightarrow> profile_db" where
  "demo_profile_db faults =
     \<lparr>fd_faults = faults,
      fd_users = [\<lparr>us_id = 2, us_email = ''ada@a.example'', us_password_hash = ''x'', us_username = ''ada'',
        us_display_name = None, us_avatar_url = Some ''a.png'',
        us_email_verified = False, us_totp_secret = None, us_totp_enabled_at_ms = None,
        us_backup_code_hashes = [], us_deleted_at_ms = Some 1, us_updated_at_ms = 1\<rparr>],
      fd_principals = [], fd_peer_keys = [], fd_routes = [], fd_nonces = [], fd_inbound = [], fd_outbound = [],
      pf_bots = [\<lparr>bo_id = 9, bo_server_id = 1, bo_name = ''helper'', bo_avatar_url = Some ''b.png''\<rparr>],
      pf_entries = []\<rparr>"

text \<open>
  A lookup during an outage caches the placeholder, so a deleted account passes for an existing
  one for five minutes after the tables can be read again.
\<close>

lemma outage_hides_deletion:
  "let db = snd (get_or_fetch None 0 2 (demo_profile_db [True, True]))
   in fd_faults db = [] \<and> fst (profile_is_deleted None 299999 2 db) = False \<and>
      fst (profile_is_deleted None 300000 2 db) = True"
  by code_simp

lemma batched_profiles_agree_witness:
  "dm_get (fst (get_or_fetch_many (Some ''https://cdn'') 0 [2, 9, 5, 2] (demo_profile_db []))) 9 =
     Some (''helper'', Some ''https://cdn/b.png'', None)"
proof -
  have "fd_faults (demo_profile_db []) = []" "profile_keys (demo_profile_db [])"
    by (simp_all add: demo_profile_db_def profile_keys_def)
  note batched_profiles_agree [OF this, of "Some ''https://cdn''" 0 "[2, 9, 5, 2]" 9]
  moreover have "fst (get_or_fetch (Some ''https://cdn'') 0 9 (demo_profile_db [])) =
      (''helper'', Some ''https://cdn/b.png'', None)" by code_simp
  ultimately show ?thesis by simp
qed

lemma profile_cache_capped_witness:
  "max (length (pf_entries (snd (get_or_fetch None 0 2 (demo_profile_db [])))))
     (length (pf_entries (snd (get_or_fetch_many None 0 [2, 9, 5] (demo_profile_db []))))) \<le> MAX_CACHE_SIZE"
  by (rule profile_cache_capped) (simp_all add: demo_profile_db_def profile_keys_def)

end
