(* ===== verification/Conn_Manager.thy ===== *)
theory Conn_Manager
  imports Prelude
begin

text \<open>
  The WebSocket connection manager (\<open>src/server-rs/src/ws/mod.rs\<close>): which user owns which
  connection, which topics it is subscribed to, and local fan-out. The eight \<open>DashMap\<close>s and
  the id counter are one record; a method is one atomic step. An outbound channel is the
  bounded queue of \<open>tokio::sync::mpsc\<close>: \<open>try_send\<close> appends unless the queue is full or its
  receiver is gone.
\<close>

section \<open>State\<close>

datatype encoding = Unknown | Json | Protobuf

datatype outbound_msg = Text string | Binary "u8 list" | Close nat string

record outbox =
  ob_capacity :: nat
  ob_open :: bool
  ob_items :: "outbound_msg list"

type_synonym sender = nat

record conn_manager =
  cm_connections :: "(int, u64 hset) dmap"
  cm_conn_info :: "(u64, sender \<times> encoding) dmap"
  cm_subscriptions :: "(u64, string hset) dmap"
  cm_topic_subscribers :: "(string, u64 hset) dmap"
  cm_conn_user :: "(u64, int) dmap"
  cm_conn_focus_channel :: "(u64, int) dmap"
  cm_conn_voice_channel :: "(u64, int) dmap"
  cm_batch_conns :: "(u64, unit) dmap"
  cm_next_conn_id :: u64
  cm_queues :: "(sender, outbox) dmap"

definition cm_new :: conn_manager where
  "cm_new = \<lparr>cm_connections = [], cm_conn_info = [], cm_subscriptions = [], cm_topic_subscribers = [],
     cm_conn_user = [], cm_conn_focus_channel = [], cm_conn_voice_channel = [], cm_batch_conns = [],
     cm_next_conn_id = 1, cm_queues = []\<rparr>"

section \<open>Outbound queues\<close>

definition try_send :: "sender \<Rightarrow> outbound_msg \<Rightarrow> conn_manager \<Rightarrow> bool \<times> conn_manager" where
  "try_send tx msg cm =
     (case dm_get (cm_queues cm) tx of
        None \<Rightarrow> (False, cm)
      | Some q \<Rightarrow>
          if \<not> ob_open q \<or> ob_capacity q \<le> length (ob_items q) then (False, cm)
          else (True, cm\<lparr>cm_queues := dm_upd tx (\<lambda>q. q\<lparr>ob_items := ob_items q @ [msg]\<rparr>) (cm_queues cm)\<rparr>))"

section \<open>Registration\<close>

definition mark_batch_capable :: "u64 \<Rightarrow> conn_manager \<Rightarrow> conn_manager" where
  "mark_batch_capable conn_id cm = cm\<lparr>cm_batch_conns := dm_put conn_id () (cm_batch_conns cm)\<rparr>"

definition is_batch_capable :: "conn_manager \<Rightarrow> u64 \<Rightarrow> bool" where
  "is_batch_capable cm conn_id \<longleftrightarrow> dm_get (cm_batch_conns cm) conn_id \<noteq> None"

definition all_conn_ids :: "conn_manager \<Rightarrow> u64 list" where
  "all_conn_ids cm = map fst (cm_conn_info cm)"

definition connection_count :: "conn_manager \<Rightarrow> nat" where
  "connection_count cm = length (cm_conn_info cm)"

definition next_conn_id :: "conn_manager \<Rightarrow> u64 \<times> conn_manager" where
  "next_conn_id cm = (cm_next_conn_id cm, cm\<lparr>cm_next_conn_id := cm_next_conn_id cm + 1\<rparr>)"

definition add_connection :: "int \<Rightarrow> u64 \<Rightarrow> sender \<Rightarrow> conn_manager \<Rightarrow> conn_manager" where
  "add_connection user_id conn_id tx cm =
     cm\<lparr>cm_connections := dm_upd user_id (hs_insert conn_id) (dm_or_insert user_id [] (cm_connections cm)),
        cm_conn_info := dm_put conn_id (tx, Unknown) (cm_conn_info cm),
        cm_conn_user := dm_put conn_id user_id (cm_conn_user cm),
        cm_subscriptions := dm_or_insert conn_id [] (cm_subscriptions cm)\<rparr>"

definition set_encoding :: "u64 \<Rightarrow> encoding \<Rightarrow> conn_manager \<Rightarrow> conn_manager" where
  "set_encoding conn_id enc cm =
     cm\<lparr>cm_conn_info := dm_upd conn_id (\<lambda>(tx, _). (tx, enc)) (cm_conn_info cm)\<rparr>"

definition get_encoding :: "conn_manager \<Rightarrow> u64 \<Rightarrow> encoding" where
  "get_encoding cm conn_id = (case dm_get (cm_conn_info cm) conn_id of Some (_, enc) \<Rightarrow> enc | None \<Rightarrow> Json)"

section \<open>Removal\<close>

text \<open>Take a connection out of a set stored under a key, dropping the key with the last one.\<close>

definition drop_member :: "'k \<Rightarrow> u64 \<Rightarrow> ('k, u64 hset) dmap \<Rightarrow> ('k, u64 hset) dmap" where
  "drop_member k conn_id m =
     (case dm_get m k of
        None \<Rightarrow> m
      | Some conns \<Rightarrow>
          if hs_remove conn_id conns = [] then dm_del k m
          else dm_upd k (hs_remove conn_id) m)"

definition unsub_topic ::
    "u64 \<Rightarrow> string \<Rightarrow> string list \<times> (string, u64 hset) dmap \<Rightarrow> string list \<times> (string, u64 hset) dmap" where
  "unsub_topic conn_id topic st =
     (let (emptied, m) = st in
      case dm_get m topic of
        None \<Rightarrow> (emptied, m)
      | Some subs \<Rightarrow>
          (if hs_remove conn_id subs = [] then emptied @ [topic] else emptied, drop_member topic conn_id m))"

definition remove_connection :: "u64 \<Rightarrow> conn_manager \<Rightarrow> string list \<times> conn_manager" where
  "remove_connection conn_id cm =
     (let cm1 = (case dm_get (cm_conn_user cm) conn_id of
                   None \<Rightarrow> cm
                 | Some user_id \<Rightarrow>
                     cm\<lparr>cm_conn_user := dm_del conn_id (cm_conn_user cm),
                        cm_connections := drop_member user_id conn_id (cm_connections cm)\<rparr>);
          (emptied, cm2) = (case dm_get (cm_subscriptions cm1) conn_id of
                   None \<Rightarrow> ([], cm1)
                 | Some topics \<Rightarrow>
                     (let (emptied, m) = fold (unsub_topic conn_id) topics ([], cm_topic_subscribers cm1)
                      in (emptied, cm1\<lparr>cm_subscriptions := dm_del conn_id (cm_subscriptions cm1),
                                      cm_topic_subscribers := m\<rparr>)))
      in (emptied,
          cm2\<lparr>cm_conn_info := dm_del conn_id (cm_conn_info cm2),
              cm_conn_focus_channel := dm_del conn_id (cm_conn_focus_channel cm2),
              cm_conn_voice_channel := dm_del conn_id (cm_conn_voice_channel cm2),
              cm_batch_conns := dm_del conn_id (cm_batch_conns cm2)\<rparr>))"

section \<open>Topics\<close>

definition subscribe :: "u64 \<Rightarrow> string \<Rightarrow> conn_manager \<Rightarrow> conn_manager" where
  "subscribe conn_id topic cm =
     cm\<lparr>cm_subscriptions := dm_upd conn_id (hs_insert topic) (cm_subscriptions cm),
        cm_topic_subscribers := dm_upd topic (hs_insert conn_id) (dm_or_insert topic [] (cm_topic_subscribers cm))\<rparr>"

definition unsubscribe :: "u64 \<Rightarrow> string \<Rightarrow> conn_manager \<Rightarrow> conn_manager" where
  "unsubscribe conn_id topic cm =
     cm\<lparr>cm_subscriptions := dm_upd conn_id (hs_remove topic) (cm_subscriptions cm),
        cm_topic_subscribers := drop_member topic conn_id (cm_topic_subscribers cm)\<rparr>"

definition cleanup_topic :: "string \<Rightarrow> conn_manager \<Rightarrow> conn_manager" where
  "cleanup_topic topic cm =
     (case dm_get (cm_topic_subscribers cm) topic of
        None \<Rightarrow> cm
      | Some conn_ids \<Rightarrow>
          cm\<lparr>cm_topic_subscribers := dm_del topic (cm_topic_subscribers cm),
             cm_subscriptions := fold (\<lambda>c m. dm_upd c (hs_remove topic) m) conn_ids (cm_subscriptions cm)\<rparr>)"

section \<open>Sending\<close>

definition send_to :: "u64 \<Rightarrow> outbound_msg \<Rightarrow> conn_manager \<Rightarrow> conn_manager" where
  "send_to conn_id msg cm =
     (case dm_get (cm_conn_info cm) conn_id of
        None \<Rightarrow> cm
      | Some (tx, _) \<Rightarrow> snd (try_send tx msg cm))"

definition send_to_user :: "int \<Rightarrow> outbound_msg \<Rightarrow> conn_manager \<Rightarrow> conn_manager" where
  "send_to_user user_id msg cm =
     (case dm_get (cm_connections cm) user_id of
        None \<Rightarrow> cm
      | Some conns \<Rightarrow> fold (\<lambda>c cm. send_to c msg cm) conns cm)"

text \<open>The loop of the publish methods: \<open>msg_for\<close> picks the frame by the encoding.\<close>

definition publish_one ::
    "(encoding \<Rightarrow> outbound_msg) \<Rightarrow> u64 \<Rightarrow> nat \<times> conn_manager \<Rightarrow> nat \<times> conn_manager" where
  "publish_one msg_for conn_id st =
     (let (count, cm) = st in
      case dm_get (cm_conn_info cm) conn_id of
        None \<Rightarrow> (count, cm)
      | Some (tx, enc) \<Rightarrow> (count + 1, snd (try_send tx (msg_for enc) cm)))"

definition json_first :: "outbound_msg \<Rightarrow> u8 list option \<Rightarrow> encoding \<Rightarrow> outbound_msg" where
  "json_first json_msg proto_bytes enc =
     (if enc = Protobuf then (case proto_bytes of Some bytes \<Rightarrow> Binary bytes | None \<Rightarrow> json_msg) else json_msg)"

definition proto_first :: "u8 list \<Rightarrow> string \<Rightarrow> encoding \<Rightarrow> outbound_msg" where
  "proto_first proto_bytes json_text enc = (if enc = Protobuf then Binary proto_bytes else Text json_text)"

definition publish_local :: "string \<Rightarrow> outbound_msg \<Rightarrow> u8 list option \<Rightarrow> conn_manager \<Rightarrow> nat \<times> conn_manager" where
  "publish_local topic json_msg proto_bytes cm =
     (case dm_get (cm_topic_subscribers cm) topic of
        None \<Rightarrow> (0, cm)
      | Some conns \<Rightarrow> fold (publish_one (json_first json_msg proto_bytes)) conns (0, cm))"

definition publish_local_proto_first :: "string \<Rightarrow> u8 list \<Rightarrow> string \<Rightarrow> conn_manager \<Rightarrow> nat \<times> conn_manager" where
  "publish_local_proto_first topic proto_bytes json_text cm =
     (case dm_get (cm_topic_subscribers cm) topic of
        None \<Rightarrow> (0, cm)
      | Some conns \<Rightarrow> fold (publish_one (proto_first proto_bytes json_text)) conns (0, cm))"

definition publish_local_except ::
    "string \<Rightarrow> outbound_msg \<Rightarrow> u8 list option \<Rightarrow> u64 \<Rightarrow> conn_manager \<Rightarrow> nat \<times> conn_manager" where
  "publish_local_except topic json_msg proto_bytes exclude_conn cm =
     (case dm_get (cm_topic_subscribers cm) topic of
        None \<Rightarrow> (0, cm)
      | Some conns \<Rightarrow>
          fold (\<lambda>c st. if c = exclude_conn then st else publish_one (json_first json_msg proto_bytes) c st)
            conns (0, cm))"

section \<open>Queries and per-connection channels\<close>

definition is_online :: "conn_manager \<Rightarrow> int \<Rightarrow> bool" where
  "is_online cm user_id = (case dm_get (cm_connections cm) user_id of Some c \<Rightarrow> c \<noteq> [] | None \<Rightarrow> False)"

definition connected_user_ids :: "conn_manager \<Rightarrow> int list" where
  "connected_user_ids cm = map fst (filter (\<lambda>(_, c). c \<noteq> []) (cm_connections cm))"

definition get_user_conn_ids :: "conn_manager \<Rightarrow> int \<Rightarrow> u64 list" where
  "get_user_conn_ids cm user_id = (case dm_get (cm_connections cm) user_id of Some c \<Rightarrow> c | None \<Rightarrow> [])"

definition set_focused_channel :: "u64 \<Rightarrow> int option \<Rightarrow> conn_manager \<Rightarrow> conn_manager" where
  "set_focused_channel conn_id channel cm =
     (case channel of
        Some channel_id \<Rightarrow> cm\<lparr>cm_conn_focus_channel := dm_put conn_id channel_id (cm_conn_focus_channel cm)\<rparr>
      | None \<Rightarrow> cm\<lparr>cm_conn_focus_channel := dm_del conn_id (cm_conn_focus_channel cm)\<rparr>)"

definition set_voice_channel_for_user :: "int \<Rightarrow> int \<Rightarrow> conn_manager \<Rightarrow> conn_manager" where
  "set_voice_channel_for_user user_id channel_id cm =
     cm\<lparr>cm_conn_voice_channel :=
          fold (\<lambda>c m. dm_put c channel_id m) (get_user_conn_ids cm user_id) (cm_conn_voice_channel cm)\<rparr>"

definition get_voice_channel :: "conn_manager \<Rightarrow> u64 \<Rightarrow> int option" where
  "get_voice_channel cm conn_id = dm_get (cm_conn_voice_channel cm) conn_id"

definition clear_voice_channel_for_user ::
    "int \<Rightarrow> int \<Rightarrow> conn_manager \<Rightarrow> (u64 \<times> int option) list \<times> conn_manager" where
  "clear_voice_channel_for_user user_id channel_id cm =
     fold (\<lambda>c (conns, cm).
             (conns @ [(c, dm_get (cm_conn_focus_channel cm) c)],
              if dm_get (cm_conn_voice_channel cm) c = Some channel_id
              then cm\<lparr>cm_conn_voice_channel := dm_del c (cm_conn_voice_channel cm)\<rparr> else cm))
       (get_user_conn_ids cm user_id) ([], cm)"

definition get_topic_user_ids :: "conn_manager \<Rightarrow> string \<Rightarrow> int list" where
  "get_topic_user_ids cm topic =
     (case dm_get (cm_topic_subscribers cm) topic of
        None \<Rightarrow> []
      | Some conns \<Rightarrow>
          fold (\<lambda>c out. case dm_get (cm_conn_user cm) c of Some uid \<Rightarrow> hs_insert uid out | None \<Rightarrow> out) conns [])"

section \<open>The relations behind the maps\<close>

definition dm_set :: "('k, 'a hset) dmap \<Rightarrow> 'k \<Rightarrow> 'a set" where
  "dm_set m k = (case dm_get m k of None \<Rightarrow> {} | Some s \<Rightarrow> set s)"

definition sets_ok :: "('k, 'a hset) dmap \<Rightarrow> bool" where
  "sets_ok m \<longleftrightarrow> dm_wf m \<and> dm_all (\<lambda>s. distinct s \<and> s \<noteq> []) m"

lemma dm_set_simps [simp]:
  "dm_set [] k = {}"
  "dm_set (dm_upd k (hs_insert x) (dm_or_insert k [] m)) k' = (if k' = k then insert x (dm_set m k) else dm_set m k')"
  "dm_set (dm_upd k (hs_remove x) m) k' = (if k' = k then dm_set m k - {x} else dm_set m k')"
  "dm_set (dm_del k m) k' = (if k' = k then {} else dm_set m k')"
  "dm_set (dm_or_insert k [] m) k' = dm_set m k'"
  by (auto simp: dm_set_def split: option.splits)

lemma dm_set_insert [simp]:
  "dm_get m k \<noteq> None \<Longrightarrow>
   dm_set (dm_upd k (hs_insert x) m) k' = (if k' = k then insert x (dm_set m k) else dm_set m k')"
  by (auto simp: dm_set_def split: option.splits)

lemma hs_remove_empty: "hs_remove c s = [] \<longleftrightarrow> set s \<subseteq> {c}"
  by (auto simp: hs_remove_def filter_empty_conv)

lemma dm_set_drop [simp]: "dm_set (drop_member k c m) k' = (if k' = k then dm_set m k - {c} else dm_set m k')"
  by (auto simp: drop_member_def dm_set_def hs_remove_empty split: option.splits)

lemma dm_get_drop_other: "k' \<noteq> k \<Longrightarrow> dm_get (drop_member k c m) k' = dm_get m k'"
  by (auto simp: drop_member_def split: option.splits)

lemma sets_ok_drop: "sets_ok m \<Longrightarrow> sets_ok (drop_member k c m)"
proof (cases "dm_get m k")
  case (Some s)
  assume ok: "sets_ok m"
  show ?thesis
  proof (cases "hs_remove c s = []")
    case True
    with Some ok show ?thesis by (auto simp: drop_member_def sets_ok_def)
  next
    case False
    have d: "distinct s" using ok Some by (auto simp: sets_ok_def dest: dm_all_get)
    have "dm_upd k (hs_remove c) m = dm_upd k (\<lambda>_. hs_remove c s) m"
    proof -
      have "e \<in> set m \<Longrightarrow> fst e = k \<Longrightarrow> snd e = s" for e
        using Some ok dm_get_in [of m k "snd e"] by (cases e) (auto simp: sets_ok_def)
      then show ?thesis by (auto simp: dm_upd_def)
    qed
    with Some ok False d show ?thesis
      by (auto simp: drop_member_def sets_ok_def intro!: dm_all_upd)
  qed
qed (simp add: drop_member_def)

lemma hs_insert_ne [simp]: "hs_insert x s \<noteq> []"
  by (auto simp: hs_insert_def)

lemma sets_ok_insert:
  assumes "sets_ok m"
  shows "sets_ok (dm_upd k (hs_insert x) (dm_or_insert k [] m))"
proof -
  have w: "dm_wf (dm_upd k (hs_insert x) (dm_or_insert k [] m))" using assms by (auto simp: sets_ok_def)
  have "distinct v \<and> v \<noteq> []" if "(j, v) \<in> set (dm_upd k (hs_insert x) (dm_or_insert k [] m))" for j v
  proof -
    have "dm_get (dm_upd k (hs_insert x) (dm_or_insert k [] m)) j = Some v" using that dm_get_in [OF w] by blast
    then show ?thesis using assms
      by (auto simp: sets_ok_def split: if_splits dest!: dm_all_get)
  qed
  with w show ?thesis by (auto simp: sets_ok_def dm_all_def)
qed

section \<open>The invariant\<close>

definition registered :: "conn_manager \<Rightarrow> u64 \<Rightarrow> bool" where
  "registered cm c \<longleftrightarrow> dm_get (cm_conn_user cm) c \<noteq> None"

definition conn_inv :: "conn_manager \<Rightarrow> bool" where
  "conn_inv cm \<longleftrightarrow>
     sets_ok (cm_connections cm) \<and> sets_ok (cm_topic_subscribers cm) \<and>
     dm_wf (cm_conn_info cm) \<and> dm_wf (cm_conn_user cm) \<and>
     dm_wf (cm_subscriptions cm) \<and> dm_all distinct (cm_subscriptions cm) \<and>
     (\<forall>u c. c \<in> dm_set (cm_connections cm) u \<longleftrightarrow> dm_get (cm_conn_user cm) c = Some u) \<and>
     (\<forall>t c. c \<in> dm_set (cm_topic_subscribers cm) t \<longleftrightarrow> t \<in> dm_set (cm_subscriptions cm) c) \<and>
     (\<forall>c. (dm_get (cm_subscriptions cm) c \<noteq> None) = registered cm c) \<and>
     (\<forall>c. (dm_get (cm_conn_info cm) c \<noteq> None) = registered cm c)"

lemma cm_new_inv: "conn_inv cm_new"
  by (simp add: conn_inv_def cm_new_def sets_ok_def registered_def)

datatype conn_op =
    Add int u64 sender
  | Remove u64
  | Subscribe u64 string
  | Unsubscribe u64 string
  | Cleanup_Topic string
  | Set_Encoding u64 encoding
  | Mark_Batch u64
  | Focus u64 "int option"
  | Voice_Set int int
  | Voice_Clear int int
  | Send_To u64 outbound_msg
  | Send_To_User int outbound_msg
  | Publish string outbound_msg "u8 list option"
  | Publish_Proto string "u8 list" string
  | Publish_Except string outbound_msg "u8 list option" u64

fun conn_step :: "conn_manager \<Rightarrow> conn_op \<Rightarrow> conn_manager" where
  "conn_step cm (Add u c tx) = add_connection u c tx cm"
| "conn_step cm (Remove c) = snd (remove_connection c cm)"
| "conn_step cm (Subscribe c t) = subscribe c t cm"
| "conn_step cm (Unsubscribe c t) = unsubscribe c t cm"
| "conn_step cm (Cleanup_Topic t) = cleanup_topic t cm"
| "conn_step cm (Set_Encoding c e) = set_encoding c e cm"
| "conn_step cm (Mark_Batch c) = mark_batch_capable c cm"
| "conn_step cm (Focus c ch) = set_focused_channel c ch cm"
| "conn_step cm (Voice_Set u ch) = set_voice_channel_for_user u ch cm"
| "conn_step cm (Voice_Clear u ch) = snd (clear_voice_channel_for_user u ch cm)"
| "conn_step cm (Send_To c m) = send_to c m cm"
| "conn_step cm (Send_To_User u m) = send_to_user u m cm"
| "conn_step cm (Publish t m p) = snd (publish_local t m p cm)"
| "conn_step cm (Publish_Proto t p j) = snd (publish_local_proto_first t p j cm)"
| "conn_step cm (Publish_Except t m p x) = snd (publish_local_except t m p x cm)"

text \<open>A connection is added once, and subscribes only while it is registered.\<close>

fun conn_enabled :: "conn_manager \<Rightarrow> conn_op \<Rightarrow> bool" where
  "conn_enabled cm (Add u c tx) = (\<not> registered cm c)"
| "conn_enabled cm (Subscribe c t) = registered cm c"
| "conn_enabled cm _ = True"

lemma conn_inv_cong:
  "cm_connections cm' = cm_connections cm \<Longrightarrow> cm_topic_subscribers cm' = cm_topic_subscribers cm \<Longrightarrow>
   cm_conn_info cm' = cm_conn_info cm \<Longrightarrow> cm_conn_user cm' = cm_conn_user cm \<Longrightarrow>
   cm_subscriptions cm' = cm_subscriptions cm \<Longrightarrow> conn_inv cm \<Longrightarrow> conn_inv cm'"
  by (simp add: conn_inv_def registered_def)

lemma add_connection_inv: "conn_inv cm \<Longrightarrow> \<not> registered cm c \<Longrightarrow> conn_inv (add_connection u c tx cm)"
  unfolding conn_inv_def add_connection_def registered_def
  by (auto intro!: sets_ok_insert)

lemma subscribe_inv: "conn_inv cm \<Longrightarrow> registered cm c \<Longrightarrow> conn_inv (subscribe c t cm)"
  unfolding conn_inv_def subscribe_def
  by (auto intro!: sets_ok_insert simp: registered_def)

lemma unsubscribe_inv: "conn_inv cm \<Longrightarrow> conn_inv (unsubscribe c t cm)"
  unfolding conn_inv_def unsubscribe_def
  by (auto intro!: sets_ok_drop simp: registered_def)

lemma fold_remove_topic:
  "dm_set (fold (\<lambda>c m. dm_upd c (hs_remove t) m) cs m) c = (if c \<in> set cs then dm_set m c - {t} else dm_set m c)"
  "(dm_get (fold (\<lambda>c m. dm_upd c (hs_remove t) m) cs m) c = None) = (dm_get m c = None)"
  "dm_wf m \<Longrightarrow> dm_wf (fold (\<lambda>c m. dm_upd c (hs_remove t) m) cs m)"
  by (induction cs arbitrary: m) auto

lemma fold_remove_topic_distinct:
  "dm_all distinct m \<Longrightarrow> dm_all distinct (fold (\<lambda>c m. dm_upd c (hs_remove t) m) cs m)"
  by (rule fold_inv [where P = "dm_all distinct"]) auto

lemma cleanup_topic_inv:
  assumes "conn_inv cm"
  shows "conn_inv (cleanup_topic t cm)"
proof (cases "dm_get (cm_topic_subscribers cm) t")
  case (Some cs)
  then have "set cs = dm_set (cm_topic_subscribers cm) t" by (simp add: dm_set_def)
  then have cs: "c \<in> set cs \<longleftrightarrow> t \<in> dm_set (cm_subscriptions cm) c" for c
    using assms by (simp add: conn_inv_def)
  have "sets_ok (dm_del t (cm_topic_subscribers cm))" using assms by (auto simp: conn_inv_def sets_ok_def)
  with assms Some cs show ?thesis
    by (auto simp: conn_inv_def cleanup_topic_def registered_def fold_remove_topic fold_remove_topic_distinct)
qed (use assms in \<open>simp add: cleanup_topic_def\<close>)

lemma unsub_fold:
  assumes "distinct ts" "sets_ok m"
  shows "sets_ok (snd (fold (unsub_topic c) ts (em, m))) \<and>
     (\<forall>t. dm_set (snd (fold (unsub_topic c) ts (em, m))) t = (if t \<in> set ts then dm_set m t - {c} else dm_set m t)) \<and>
     fst (fold (unsub_topic c) ts (em, m)) = em @ filter (\<lambda>t. dm_get m t \<noteq> None \<and> dm_set m t \<subseteq> {c}) ts"
  using assms
proof (induction ts arbitrary: em m)
  case (Cons t ts)
  have step: "unsub_topic c t (em, m) =
      (em @ (if dm_get m t \<noteq> None \<and> dm_set m t \<subseteq> {c} then [t] else []), drop_member t c m)"
    by (auto simp: unsub_topic_def drop_member_def dm_set_def hs_remove_empty split: option.splits)
  have get: "dm_get (drop_member t c m) t' = dm_get m t' \<and> dm_set (drop_member t c m) t' = dm_set m t'"
    if "t' \<in> set ts" for t'
    using that Cons.prems(1) dm_get_drop_other [of t' t] by auto
  have "filter (\<lambda>t'. dm_get (drop_member t c m) t' \<noteq> None \<and> dm_set (drop_member t c m) t' \<subseteq> {c}) ts =
      filter (\<lambda>t'. dm_get m t' \<noteq> None \<and> dm_set m t' \<subseteq> {c}) ts"
    using get by (intro filter_cong) auto
  with Cons.IH [of "drop_member t c m" "em @ (if dm_get m t \<noteq> None \<and> dm_set m t \<subseteq> {c} then [t] else [])"]
    Cons.prems sets_ok_drop [of m t c]
  show ?case by (auto simp: step)
qed simp

lemma conn_inv_dom:
  "conn_inv cm \<Longrightarrow> dm_get (cm_subscriptions cm) c = None \<longleftrightarrow> dm_get (cm_conn_user cm) c = None"
  "conn_inv cm \<Longrightarrow> dm_get (cm_conn_info cm) c = None \<longleftrightarrow> dm_get (cm_conn_user cm) c = None"
  unfolding conn_inv_def registered_def by metis+

lemma remove_connection_unregistered:
  assumes "conn_inv cm" "\<not> registered cm c"
  shows "fst (remove_connection c cm) = []"
    "cm_connections (snd (remove_connection c cm)) = cm_connections cm"
    "cm_topic_subscribers (snd (remove_connection c cm)) = cm_topic_subscribers cm"
    "cm_conn_user (snd (remove_connection c cm)) = cm_conn_user cm"
    "cm_subscriptions (snd (remove_connection c cm)) = cm_subscriptions cm"
    "cm_conn_info (snd (remove_connection c cm)) = cm_conn_info cm"
proof -
  have u: "dm_get (cm_conn_user cm) c = None" using assms(2) by (simp add: registered_def)
  moreover have "dm_get (cm_subscriptions cm) c = None" "dm_get (cm_conn_info cm) c = None"
    using conn_inv_dom [OF assms(1)] u by simp_all
  ultimately show "fst (remove_connection c cm) = []"
    "cm_connections (snd (remove_connection c cm)) = cm_connections cm"
    "cm_topic_subscribers (snd (remove_connection c cm)) = cm_topic_subscribers cm"
    "cm_conn_user (snd (remove_connection c cm)) = cm_conn_user cm"
    "cm_subscriptions (snd (remove_connection c cm)) = cm_subscriptions cm"
    "cm_conn_info (snd (remove_connection c cm)) = cm_conn_info cm"
    by (simp_all add: remove_connection_def Let_def dm_del_id)
qed

lemma remove_connection_registered:
  assumes "dm_get (cm_conn_user cm) c = Some u" "dm_get (cm_subscriptions cm) c = Some ts"
  shows "fst (remove_connection c cm) = fst (fold (unsub_topic c) ts ([], cm_topic_subscribers cm))"
    "cm_connections (snd (remove_connection c cm)) = drop_member u c (cm_connections cm)"
    "cm_topic_subscribers (snd (remove_connection c cm)) = snd (fold (unsub_topic c) ts ([], cm_topic_subscribers cm))"
    "cm_conn_user (snd (remove_connection c cm)) = dm_del c (cm_conn_user cm)"
    "cm_subscriptions (snd (remove_connection c cm)) = dm_del c (cm_subscriptions cm)"
    "cm_conn_info (snd (remove_connection c cm)) = dm_del c (cm_conn_info cm)"
  using assms by (simp_all add: remove_connection_def Let_def case_prod_beta)

lemma remove_connection_inv:
  assumes inv: "conn_inv cm"
  shows "conn_inv (snd (remove_connection c cm))"
proof (cases "registered cm c")
  case False
  show ?thesis
    by (rule conn_inv_cong [of _ cm]) (simp_all add: remove_connection_unregistered [OF inv False] inv)
next
  case True
  then obtain u where u: "dm_get (cm_conn_user cm) c = Some u" by (auto simp: registered_def)
  obtain ts where ts: "dm_get (cm_subscriptions cm) c = Some ts"
    using conn_inv_dom(1) [OF inv, of c] u by (cases "dm_get (cm_subscriptions cm) c") auto
  have "distinct ts" using inv ts by (auto simp: conn_inv_def dest: dm_all_get)
  note uf = unsub_fold [OF this, of "cm_topic_subscribers cm" c "[]"]
  have own: "set ts = dm_set (cm_subscriptions cm) c" using ts by (simp add: dm_set_def)
  show ?thesis
    unfolding conn_inv_def registered_def remove_connection_registered [OF u ts]
    using inv uf u own sets_ok_drop [of "cm_connections cm" u c]
    unfolding conn_inv_def registered_def
    by auto
qed

lemma publish_one_frame:
  "cm_connections (snd (publish_one f c st)) = cm_connections (snd st) \<and>
   cm_topic_subscribers (snd (publish_one f c st)) = cm_topic_subscribers (snd st) \<and>
   cm_conn_info (snd (publish_one f c st)) = cm_conn_info (snd st) \<and>
   cm_conn_user (snd (publish_one f c st)) = cm_conn_user (snd st) \<and>
   cm_subscriptions (snd (publish_one f c st)) = cm_subscriptions (snd st)"
  by (auto simp: publish_one_def try_send_def Let_def split: option.splits prod.splits)

lemma publish_one_inv: "conn_inv (snd st) \<Longrightarrow> conn_inv (snd (publish_one f c st))"
  using publish_one_frame [of f c st] by (intro conn_inv_cong [of "snd (publish_one f c st)" "snd st"]) auto

lemma send_to_inv: "conn_inv cm \<Longrightarrow> conn_inv (send_to c m cm)"
  by (rule conn_inv_cong [of _ cm]) (auto simp: send_to_def try_send_def split: option.splits prod.splits)

lemma set_encoding_inv: "conn_inv cm \<Longrightarrow> conn_inv (set_encoding c e cm)"
  by (auto simp: conn_inv_def set_encoding_def registered_def)

lemma voice_clear_inv: "conn_inv cm \<Longrightarrow> conn_inv (snd (clear_voice_channel_for_user u ch cm))"
  unfolding clear_voice_channel_for_user_def
  by (rule fold_inv [where P = "\<lambda>st. conn_inv (snd st)"])
    (auto split: prod.splits intro: conn_inv_cong)

lemma conn_step_inv: "conn_inv cm \<Longrightarrow> conn_enabled cm x \<Longrightarrow> conn_inv (conn_step cm x)"
proof (cases x)
  case (Publish t m p)
  then show "conn_inv cm \<Longrightarrow> conn_inv (conn_step cm x)"
    by (auto simp: publish_local_def split: option.splits
        intro!: fold_inv [where P = "\<lambda>st. conn_inv (snd st)"] publish_one_inv)
next
  case (Publish_Proto t p j)
  then show "conn_inv cm \<Longrightarrow> conn_inv (conn_step cm x)"
    by (auto simp: publish_local_proto_first_def split: option.splits
        intro!: fold_inv [where P = "\<lambda>st. conn_inv (snd st)"] publish_one_inv)
next
  case (Publish_Except t m p e)
  then show "conn_inv cm \<Longrightarrow> conn_inv (conn_step cm x)"
    by (auto simp: publish_local_except_def split: option.splits
        intro!: fold_inv [where P = "\<lambda>st. conn_inv (snd st)"] publish_one_inv)
next
  case (Send_To_User u m)
  then show "conn_inv cm \<Longrightarrow> conn_inv (conn_step cm x)"
    by (auto simp: send_to_user_def split: option.splits intro!: fold_inv [where P = conn_inv] send_to_inv)
qed (auto simp: add_connection_inv subscribe_inv unsubscribe_inv cleanup_topic_inv remove_connection_inv
      send_to_inv set_encoding_inv voice_clear_inv mark_batch_capable_def set_focused_channel_def
      set_voice_channel_for_user_def split: option.splits intro: conn_inv_cong)

interpretation conn: guarded_machine conn_step conn_inv conn_enabled
  by unfold_locales (rule conn_step_inv)

text \<open>
  C25. After any sequence of manager operations in which no connection is added while it is
  registered and a connection subscribes only while it is registered, the two topic indexes are
  each other's inverse, so are the two user indexes, the sets kept per topic and per user are never
  empty, and a user is online exactly if one of the connections is its own. Nothing in the manager
  enforces the second condition; without it a topic keeps a connection for ever
  (\<open>late_subscribe_leaks\<close>).
\<close>
theorem conn_indexes_consistent:
  assumes "conn.run_enabled cm_new xs" and "cm = run_ops conn_step cm_new xs"
  shows "(c \<in> dm_set (cm_topic_subscribers cm) t \<longleftrightarrow> t \<in> dm_set (cm_subscriptions cm) c) \<and>
     (c \<in> dm_set (cm_connections cm) u \<longleftrightarrow> dm_get (cm_conn_user cm) c = Some u) \<and>
     (dm_get (cm_topic_subscribers cm) t \<noteq> Some []) \<and> (dm_get (cm_connections cm) u \<noteq> Some []) \<and>
     (is_online cm u \<longleftrightarrow> (\<exists>c. dm_get (cm_conn_user cm) c = Some u))"
proof -
  have inv: "conn_inv cm" using conn.guarded_run [OF cm_new_inv assms(1)] assms(2) by simp
  have "is_online cm u \<longleftrightarrow> (\<exists>c. c \<in> dm_set (cm_connections cm) u)"
  proof (cases "dm_get (cm_connections cm) u")
    case (Some cs)
    then show ?thesis by (cases cs) (auto simp: is_online_def dm_set_def)
  qed (simp add: is_online_def dm_set_def)
  with inv show ?thesis by (auto simp: conn_inv_def sets_ok_def dest: dm_all_get)
qed

lemma conn_indexes_consistent_witness:
  "is_online (run_ops conn_step cm_new [Add 5 1 0, Subscribe 1 ''a'', Add 5 2 1, Remove 1]) 5 \<longleftrightarrow>
     (\<exists>c. dm_get (cm_conn_user (run_ops conn_step cm_new [Add 5 1 0, Subscribe 1 ''a'', Add 5 2 1, Remove 1])) c = Some 5)"
proof -
  have "conn.run_enabled cm_new [Add 5 1 0, Subscribe 1 ''a'', Add 5 2 1, Remove 1]"
    by (simp add: registered_def add_connection_def subscribe_def cm_new_def)
  from conn_indexes_consistent [OF this refl] show ?thesis by blast
qed

section \<open>Fan-out\<close>

text \<open>What a queue holds, and whether it has room for one more frame.\<close>

definition queue_of :: "conn_manager \<Rightarrow> sender \<Rightarrow> outbound_msg list" where
  "queue_of cm tx = (case dm_get (cm_queues cm) tx of Some q \<Rightarrow> ob_items q | None \<Rightarrow> [])"

definition has_room :: "conn_manager \<Rightarrow> sender \<Rightarrow> bool" where
  "has_room cm tx \<longleftrightarrow>
     (\<exists>q. dm_get (cm_queues cm) tx = Some q \<and> ob_open q \<and> length (ob_items q) < ob_capacity q)"

definition sender_of :: "conn_manager \<Rightarrow> u64 \<Rightarrow> sender option" where
  "sender_of cm c = map_option fst (dm_get (cm_conn_info cm) c)"

definition senders_distinct :: "conn_manager \<Rightarrow> bool" where
  "senders_distinct cm \<longleftrightarrow> (\<forall>c c' tx. sender_of cm c = Some tx \<and> sender_of cm c' = Some tx \<longrightarrow> c = c')"

lemma try_send_queue:
  "queue_of (snd (try_send tx msg cm)) tx' =
     (if tx' = tx \<and> has_room cm tx then queue_of cm tx @ [msg] else queue_of cm tx')"
  "tx' \<noteq> tx \<Longrightarrow> has_room (snd (try_send tx msg cm)) tx' = has_room cm tx'"
  by (auto simp: try_send_def queue_of_def has_room_def split: option.splits)

lemma publish_one_queue:
  assumes "dm_get (cm_conn_info (snd st)) c = Some (tx, e)"
  shows "queue_of (snd (publish_one f c st)) tx' =
     (if tx' = tx \<and> has_room (snd st) tx then queue_of (snd st) tx @ [f e] else queue_of (snd st) tx')"
    "tx' \<noteq> tx \<Longrightarrow> has_room (snd (publish_one f c st)) tx' = has_room (snd st) tx'"
    "fst (publish_one f c st) = fst st + 1"
  using assms by (auto simp: publish_one_def try_send_queue split: prod.splits)

lemma publish_fold:
  assumes "distinct cs" "\<forall>c\<in>set cs. dm_get (cm_conn_info (snd st)) c \<noteq> None" "senders_distinct (snd st)"
    "dm_get (cm_conn_info (snd st)) c = Some (tx, e)"
  shows "queue_of (snd (fold (publish_one f) cs st)) tx =
      (if c \<in> set cs \<and> has_room (snd st) tx then queue_of (snd st) tx @ [f e] else queue_of (snd st) tx) \<and>
    fst (fold (publish_one f) cs st) = fst st + length cs"
  using assms
proof (induction cs arbitrary: st)
  case (Cons d cs)
  obtain tx' e' where d: "dm_get (cm_conn_info (snd st)) d = Some (tx', e')" using Cons.prems(2) by fastforce
  let ?st = "publish_one f d st"
  have fr: "cm_conn_info (snd ?st) = cm_conn_info (snd st)" by (simp add: publish_one_frame)
  then have sd: "senders_distinct (snd ?st)" using Cons.prems(3) by (simp add: senders_distinct_def sender_of_def)
  have same: "tx' = tx \<longleftrightarrow> d = c"
    using Cons.prems(3,4) d unfolding senders_distinct_def sender_of_def by force
  have enc: "d = c \<Longrightarrow> e' = e" using Cons.prems(4) d by simp
  from Cons.IH [of ?st] Cons.prems fr sd same enc
  show ?case by (auto simp: publish_one_queue [OF d])
qed simp

definition topic_conns :: "conn_manager \<Rightarrow> string \<Rightarrow> u64 list" where
  "topic_conns cm t = (case dm_get (cm_topic_subscribers cm) t of Some cs \<Rightarrow> cs | None \<Rightarrow> [])"

lemma topic_conns_facts:
  assumes "conn_inv cm"
  shows "distinct (topic_conns cm t)" "c \<in> set (topic_conns cm t) \<longleftrightarrow> t \<in> dm_set (cm_subscriptions cm) c"
    "\<forall>x\<in>set (topic_conns cm t). dm_get (cm_conn_info cm) x \<noteq> None"
proof -
  show "distinct (topic_conns cm t)"
    using assms by (auto simp: topic_conns_def conn_inv_def sets_ok_def dest: dm_all_get split: option.split)
  have mem: "x \<in> set (topic_conns cm t) \<longleftrightarrow> t \<in> dm_set (cm_subscriptions cm) x" for x
  proof -
    have "set (topic_conns cm t) = dm_set (cm_topic_subscribers cm) t"
      by (simp add: topic_conns_def dm_set_def split: option.split)
    then show ?thesis using assms by (simp add: conn_inv_def)
  qed
  then show "c \<in> set (topic_conns cm t) \<longleftrightarrow> t \<in> dm_set (cm_subscriptions cm) c" .
  show "\<forall>x\<in>set (topic_conns cm t). dm_get (cm_conn_info cm) x \<noteq> None"
  proof
    fix x assume "x \<in> set (topic_conns cm t)"
    then have "dm_get (cm_subscriptions cm) x \<noteq> None"
      using mem [of x] by (cases "dm_get (cm_subscriptions cm) x") (auto simp: dm_set_def)
    then show "dm_get (cm_conn_info cm) x \<noteq> None" using conn_inv_dom [OF assms, of x] by simp
  qed
qed

text \<open>The loop over a topic's subscribers, whatever frame is chosen by the encoding.\<close>

lemma topic_fanout:
  assumes "conn_inv cm" "senders_distinct cm" "dm_get (cm_conn_info cm) c = Some (tx, e)"
  shows "queue_of (snd (fold (publish_one f) (topic_conns cm t) (0, cm))) tx =
      (if t \<in> dm_set (cm_subscriptions cm) c \<and> has_room cm tx then queue_of cm tx @ [f e] else queue_of cm tx) \<and>
    fst (fold (publish_one f) (topic_conns cm t) (0, cm)) = length (topic_conns cm t)"
  using publish_fold [of "topic_conns cm t" "(0, cm)" c tx e f] topic_conns_facts [OF assms(1)] assms(2,3)
  by simp

text \<open>
  Publishing to a topic counts its subscribers and puts the frame of the connection's
  own encoding on the queue of exactly the registered subscribers with room, once each, and
  leaves every other queue alone.
\<close>
lemma publish_local_delivers:
  assumes "conn_inv cm" "senders_distinct cm" "dm_get (cm_conn_info cm) c = Some (tx, e)"
  shows "queue_of (snd (publish_local t j p cm)) tx =
      (if t \<in> dm_set (cm_subscriptions cm) c \<and> has_room cm tx
       then queue_of cm tx @ [case p of Some b \<Rightarrow> if e = Protobuf then Binary b else j | None \<Rightarrow> j]
       else queue_of cm tx) \<and>
     fst (publish_local t j p cm) = card (dm_set (cm_topic_subscribers cm) t)"
proof -
  have "publish_local t j p cm = fold (publish_one (json_first j p)) (topic_conns cm t) (0, cm)"
    by (simp add: publish_local_def topic_conns_def split: option.split)
  moreover have "length (topic_conns cm t) = card (dm_set (cm_topic_subscribers cm) t)"
    using topic_conns_facts(1) [OF assms(1), of t]
    by (simp add: topic_conns_def dm_set_def distinct_card split: option.splits)
  ultimately show ?thesis
    using topic_fanout [OF assms, of "json_first j p" t] by (auto simp: json_first_def split: option.splits)
qed

definition fan_demo :: conn_manager where
  "fan_demo = set_encoding 2 Protobuf (subscribe 2 ''t'' (subscribe 1 ''t'' (add_connection 6 2 1 (add_connection 5 1 0
     (cm_new\<lparr>cm_queues := [(0, \<lparr>ob_capacity = 4, ob_open = True, ob_items = []\<rparr>),
        (1, \<lparr>ob_capacity = 4, ob_open = True, ob_items = []\<rparr>)]\<rparr>)))))"

lemma fan_demo_inv: "conn_inv fan_demo"
proof -
  have q: "conn_inv (cm_new\<lparr>cm_queues := qs\<rparr>)" for qs
    by (rule conn_inv_cong [OF _ _ _ _ _ cm_new_inv]) simp_all
  show ?thesis
    unfolding fan_demo_def
    by (intro set_encoding_inv subscribe_inv add_connection_inv q)
      (simp_all add: registered_def subscribe_def add_connection_def cm_new_def)
qed

lemma publish_local_delivers_witness:
  "queue_of (snd (publish_local ''t'' (Text ''x'') (Some [7]) fan_demo)) 1 = [Binary [7]]"
proof -
  note fan_demo_inv
  moreover have "cm_conn_info fan_demo = [(1, 0, Unknown), (2, 1, Protobuf)]" by code_simp
  then have "senders_distinct fan_demo \<and> dm_get (cm_conn_info fan_demo) 2 = Some (1, Protobuf)"
    by (auto simp: senders_distinct_def sender_of_def dm_get_def split: if_splits)
  moreover have "''t'' \<in> dm_set (cm_subscriptions fan_demo) 2" by code_simp
  moreover have "queue_of fan_demo 1 = [] \<and> dm_get (cm_queues fan_demo) 1 = Some \<lparr>ob_capacity = 4, ob_open = True, ob_items = []\<rparr>"
    by code_simp
  ultimately show ?thesis
    using publish_local_delivers [of fan_demo 2 1 Protobuf "''t''" "Text ''x''" "Some [7]"]
    by (simp add: has_room_def)
qed

section \<open>Disconnecting\<close>

text \<open>
  Removing a connection takes it out of every index, leaves other connections'
  subscriptions and owners alone, and returns exactly the topics it was the last subscriber of.
\<close>
lemma remove_connection_exact:
  assumes "conn_inv cm" and r_def: "r = remove_connection c cm"
  shows "set (fst r) = {t. dm_set (cm_topic_subscribers cm) t = {c}} \<and> distinct (fst r) \<and>
     \<not> registered (snd r) c \<and> get_encoding (snd r) c = Json \<and>
     (\<forall>t. dm_set (cm_topic_subscribers (snd r)) t = dm_set (cm_topic_subscribers cm) t - {c}) \<and>
     (\<forall>u. dm_set (cm_connections (snd r)) u = dm_set (cm_connections cm) u - {c}) \<and>
     (\<forall>d. d \<noteq> c \<longrightarrow> dm_get (cm_conn_user (snd r)) d = dm_get (cm_conn_user cm) d \<and>
        dm_get (cm_subscriptions (snd r)) d = dm_get (cm_subscriptions cm) d)"
proof (cases "registered cm c")
  case False
  then have none: "dm_get (cm_conn_user cm) c = None" "dm_get (cm_subscriptions cm) c = None"
      "dm_get (cm_conn_info cm) c = None"
    using conn_inv_dom [OF assms(1)] by (auto simp: registered_def)
  then have "c \<notin> dm_set (cm_topic_subscribers cm) t" "c \<notin> dm_set (cm_connections cm) u" for t u
    using assms(1) by (auto simp: conn_inv_def dm_set_def)
  then show ?thesis
    using none by (auto simp: r_def remove_connection_unregistered [OF assms(1) False] registered_def get_encoding_def)
next
  case True
  then obtain u where u: "dm_get (cm_conn_user cm) c = Some u" by (auto simp: registered_def)
  obtain ts where ts: "dm_get (cm_subscriptions cm) c = Some ts"
    using conn_inv_dom(1) [OF assms(1), of c] u by (cases "dm_get (cm_subscriptions cm) c") auto
  have d: "distinct ts" using assms(1) ts by (auto simp: conn_inv_def dest: dm_all_get)
  have ok: "sets_ok (cm_topic_subscribers cm)" using assms(1) by (simp add: conn_inv_def)
  have mem: "c \<in> dm_set (cm_topic_subscribers cm) t \<longleftrightarrow> t \<in> set ts" for t
    using assms(1) ts by (auto simp: conn_inv_def dm_set_def)
  have own: "c \<in> dm_set (cm_connections cm) v \<longleftrightarrow> v = u" for v
    using assms(1) u by (auto simp: conn_inv_def)
  have ne: "dm_get (cm_topic_subscribers cm) t \<noteq> None" if "t \<in> set ts" for t
    using mem [of t] that by (auto simp: dm_set_def split: option.splits)
  have sub: "dm_set (cm_topic_subscribers cm) t = {c} \<longleftrightarrow> t \<in> set ts \<and> dm_set (cm_topic_subscribers cm) t \<subseteq> {c}" for t
    using mem [of t] by blast
  show ?thesis
    using unsub_fold [OF d ok, of c "[]"] d mem own ne
    by (auto simp: r_def remove_connection_registered [OF u ts] registered_def get_encoding_def sub)
qed

lemma remove_connection_exact_witness:
  "fst (remove_connection 2 fan_demo) = [] \<and> dm_set (cm_topic_subscribers (snd (remove_connection 2 fan_demo))) ''t'' = {1}"
proof -
  note fan_demo_inv
  moreover have "dm_set (cm_topic_subscribers fan_demo) ''t'' = {1, 2}" by code_simp
  moreover have "fst (remove_connection 2 fan_demo) = []" by code_simp
  ultimately show ?thesis using remove_connection_exact [OF _ refl, of fan_demo 2] by auto
qed

text \<open>
  A subscribe that arrives after the connection was removed (or before it was added)
  leaves an entry in the topic index that no later removal of the connection clears: the topic
  keeps the dead connection and is never reported as emptied.
\<close>
lemma late_subscribe_leaks:
  assumes "conn_inv cm" and "\<not> registered cm c"
  shows "c \<in> dm_set (cm_topic_subscribers (snd (remove_connection c (subscribe c t cm)))) t \<and>
     fst (remove_connection c (subscribe c t cm)) = []"
proof -
  have "dm_get (cm_conn_user cm) c = None" "dm_get (cm_subscriptions cm) c = None"
    using assms conn_inv_dom [OF assms(1)] by (auto simp: registered_def)
  then show ?thesis by (simp add: remove_connection_def subscribe_def Let_def)
qed

lemma late_subscribe_leaks_witness:
  "1 \<in> dm_set (cm_topic_subscribers (snd (remove_connection 1 (subscribe 1 ''t'' cm_new)))) ''t''"
  using late_subscribe_leaks [OF cm_new_inv, of 1 "''t''"] by (simp add: registered_def cm_new_def)

end
