(* ===== verification/Broadcast.thy ===== *)
theory Broadcast
  imports Conn_Manager "HOL-Library.Multiset"
begin

text \<open>
  The sharded fan-out service (\<open>src/server-rs/src/services/broadcast.rs\<close>): \<open>publish\<close> puts a
  payload on a bounded queue, one coalescer task buffers payloads per topic and, at a tick or
  after 256 of them, resolves each topic's subscribers, partitions them over the workers by
  \<open>conn_id % num_workers\<close> and sends every worker one work item; the workers put frames on the
  connections' own queues. The tasks are interleaved steps over one state (\<open>bc_step\<close>): an
  \<open>await\<close> on a full queue is a step that is not enabled. The protobuf codec (\<open>prost\<close> over the
  generated \<open>WsMessage\<close>) is the pair of parameters \<open>dec\<close> (a payload's bytes to a message) and
  \<open>enc\<close> (messages to the bytes of one \<open>WsMessage::Batch\<close>).
\<close>

section \<open>Data\<close>

definition COALESCE_WINDOW_MS :: nat where
  "COALESCE_WINDOW_MS = 5"

definition MAX_PENDING_BEFORE_FLUSH :: nat where
  "MAX_PENDING_BEFORE_FLUSH = 256"

definition COALESCE_QUEUE_CAPACITY :: nat where
  "COALESCE_QUEUE_CAPACITY = 8192"

definition WORKER_QUEUE_CAPACITY :: nat where
  "WORKER_QUEUE_CAPACITY = 1024"

record payload =
  pl_proto :: "u8 list"
  pl_json_text :: string

record broadcast_work =
  bw_payloads :: "payload list"
  bw_batch_proto :: "u8 list option"
  bw_indiv_conn_ids :: "u64 list"
  bw_batch_conn_ids :: "u64 list"

record pending_publish =
  pp_topic :: string
  pp_payload :: payload

text \<open>The counters, but for the two sums of measured times.\<close>

record broadcast_stats =
  st_publishes_total :: u64
  st_deliveries_total :: u64
  st_worker_drops_total :: u64
  st_lookup_misses_total :: u64
  st_max_worker_pending :: u64
  st_coalesced_batches_total :: u64
  st_coalesced_payloads_total :: u64
  st_coalescer_ticks_total :: u64
  st_batch_frames_sent_total :: u64

definition stats_zero :: broadcast_stats where
  "stats_zero = \<lparr>st_publishes_total = 0, st_deliveries_total = 0, st_worker_drops_total = 0,
     st_lookup_misses_total = 0, st_max_worker_pending = 0, st_coalesced_batches_total = 0,
     st_coalesced_payloads_total = 0, st_coalescer_ticks_total = 0, st_batch_frames_sent_total = 0\<rparr>"

section \<open>Packing\<close>

fun decode_all :: "(u8 list \<Rightarrow> 'm option) \<Rightarrow> payload list \<Rightarrow> 'm list option" where
  "decode_all dec [] = Some []"
| "decode_all dec (p # ps) =
     (case dec (pl_proto p) of
        None \<Rightarrow> None
      | Some m \<Rightarrow> map_option ((#) m) (decode_all dec ps))"

definition pack_batch_frame ::
    "(u8 list \<Rightarrow> 'm option) \<Rightarrow> ('m list \<Rightarrow> u8 list option) \<Rightarrow> payload list \<Rightarrow> u8 list option" where
  "pack_batch_frame dec enc payloads =
     (case decode_all dec payloads of None \<Rightarrow> None | Some messages \<Rightarrow> enc messages)"

section \<open>Resolving one topic\<close>

text \<open>\<open>usize\<close> has 64 bits, so \<open>conn_id as usize\<close> keeps the value.\<close>

definition use_batch :: "conn_manager \<Rightarrow> nat \<Rightarrow> u64 \<Rightarrow> bool" where
  "use_batch cm batch_size conn_id \<longleftrightarrow>
     1 < batch_size \<and> is_batch_capable cm conn_id \<and>
     (case dm_get (cm_conn_info cm) conn_id of Some (_, enc) \<Rightarrow> enc = Protobuf | None \<Rightarrow> False)"

definition push_at :: "nat \<Rightarrow> 'a \<Rightarrow> 'a list list \<Rightarrow> 'a list list" where
  "push_at i x parts = parts[i := parts ! i @ [x]]"

definition partition_one ::
    "conn_manager \<Rightarrow> nat \<Rightarrow> nat \<Rightarrow> u64 \<Rightarrow> u64 list list \<times> u64 list list \<times> bool \<Rightarrow>
     u64 list list \<times> u64 list list \<times> bool" where
  "partition_one cm num_workers batch_size conn_id st =
     (let (indiv_parts, batch_parts, any_batch_candidate) = st;
          worker_idx = unat conn_id mod num_workers
      in if use_batch cm batch_size conn_id
         then (indiv_parts, push_at worker_idx conn_id batch_parts, True)
         else (push_at worker_idx conn_id indiv_parts, batch_parts, any_batch_candidate))"

definition works_of ::
    "payload list \<Rightarrow> u8 list option \<Rightarrow> u64 list list \<Rightarrow> u64 list list \<Rightarrow> nat \<Rightarrow> (nat \<times> broadcast_work) list" where
  "works_of payloads batch_proto indiv_parts batch_parts worker_idx =
     (if indiv_parts ! worker_idx = [] \<and> batch_parts ! worker_idx = [] then []
      else [(worker_idx, \<lparr>bw_payloads = payloads, bw_batch_proto = batch_proto,
               bw_indiv_conn_ids = indiv_parts ! worker_idx, bw_batch_conn_ids = batch_parts ! worker_idx\<rparr>)])"

definition plan_topic ::
    "(u8 list \<Rightarrow> 'm option) \<Rightarrow> ('m list \<Rightarrow> u8 list option) \<Rightarrow> nat \<Rightarrow> conn_manager \<Rightarrow> string \<Rightarrow>
     payload list \<Rightarrow> (nat \<times> broadcast_work) list" where
  "plan_topic dec enc num_workers cm topic payloads =
     (case dm_get (cm_topic_subscribers cm) topic of
        None \<Rightarrow> []
      | Some conns \<Rightarrow>
          if conns = [] then []
          else
            (let (indiv_parts, batch_parts, any_batch_candidate) =
                   fold (partition_one cm num_workers (length payloads)) conns
                     (replicate num_workers [], replicate num_workers [], False);
                 batch_proto = (if any_batch_candidate then pack_batch_frame dec enc payloads else None);
                 (indiv_parts, batch_parts) =
                   (if any_batch_candidate \<and> batch_proto = None
                    then (map (\<lambda>w. indiv_parts ! w @ batch_parts ! w) [0..<num_workers], replicate num_workers [])
                    else (indiv_parts, batch_parts))
             in concat (map (works_of payloads batch_proto indiv_parts batch_parts) [0..<num_workers])))"

section \<open>A worker\<close>

definition frame_for :: "bool \<Rightarrow> payload \<Rightarrow> outbound_msg" where
  "frame_for is_proto p = (if is_proto then Binary (pl_proto p) else Text (pl_json_text p))"

text \<open>The payloads go out until the connection's queue refuses one.\<close>

fun send_payloads :: "sender \<Rightarrow> bool \<Rightarrow> payload list \<Rightarrow> conn_manager \<times> u64 \<Rightarrow> conn_manager \<times> u64" where
  "send_payloads tx is_proto [] st = st"
| "send_payloads tx is_proto (p # ps) (cm, delivered) =
     (let (sent, cm') = try_send tx (frame_for is_proto p) cm
      in if sent then send_payloads tx is_proto ps (cm', delivered + 1) else (cm', delivered))"

definition work_indiv ::
    "payload list \<Rightarrow> u64 \<Rightarrow> conn_manager \<times> u64 \<times> u64 \<Rightarrow> conn_manager \<times> u64 \<times> u64" where
  "work_indiv payloads conn_id st =
     (let (cm, delivered, misses) = st
      in case dm_get (cm_conn_info cm) conn_id of
           None \<Rightarrow> (cm, delivered, misses + 1)
         | Some (tx, enc) \<Rightarrow>
             (let (cm', delivered') = send_payloads tx (enc = Protobuf) payloads (cm, delivered)
              in (cm', delivered', misses)))"

definition work_batch ::
    "u8 list \<Rightarrow> u64 \<Rightarrow> conn_manager \<times> u64 \<times> u64 \<times> u64 \<Rightarrow> conn_manager \<times> u64 \<times> u64 \<times> u64" where
  "work_batch batch_bytes conn_id st =
     (let (cm, delivered, misses, batch_frames) = st
      in case dm_get (cm_conn_info cm) conn_id of
           None \<Rightarrow> (cm, delivered, misses + 1, batch_frames)
         | Some (tx, _) \<Rightarrow>
             (let (sent, cm') = try_send tx (Binary batch_bytes) cm
              in if sent then (cm', delivered + 1, misses, batch_frames + 1) else (cm', delivered, misses, batch_frames)))"

definition worker_run :: "broadcast_work \<Rightarrow> conn_manager \<times> broadcast_stats \<Rightarrow> conn_manager \<times> broadcast_stats" where
  "worker_run work st =
     (let (cm, stats) = st;
          (cm1, delivered1, misses1) = fold (work_indiv (bw_payloads work)) (bw_indiv_conn_ids work) (cm, 0, 0);
          (cm2, delivered, misses, batch_frames) =
            (case bw_batch_proto work of
               None \<Rightarrow> (cm1, delivered1, misses1, 0)
             | Some batch_bytes \<Rightarrow>
                 fold (work_batch batch_bytes) (bw_batch_conn_ids work) (cm1, delivered1, misses1, 0))
      in (cm2, stats\<lparr>st_deliveries_total := st_deliveries_total stats + delivered,
                     st_lookup_misses_total := st_lookup_misses_total stats + misses,
                     st_batch_frames_sent_total := st_batch_frames_sent_total stats + batch_frames\<rparr>))"

section \<open>The tasks\<close>

record worker_queue =
  wq_open :: bool
  wq_items :: "broadcast_work list"

text \<open>
  \<open>bs_inbox\<close> is the coalescer's queue, \<open>bs_buffer\<close> and \<open>bs_pending_count\<close> its locals,
  \<open>bs_draining\<close> the topics a running flush has still to resolve, \<open>bs_outgoing\<close> the work items
  of the topic it is dispatching.
\<close>

record broadcast_state =
  bs_cm :: conn_manager
  bs_inbox :: "pending_publish list"
  bs_buffer :: "(string, payload list) dmap"
  bs_pending_count :: nat
  bs_draining :: "(string \<times> payload list) list"
  bs_outgoing :: "(nat \<times> broadcast_work) list"
  bs_workers :: "worker_queue list"
  bs_exited :: bool
  bs_stats :: broadcast_stats

definition bs_start :: "nat option \<Rightarrow> conn_manager \<Rightarrow> broadcast_state" where
  "bs_start parallelism cm =
     \<lparr>bs_cm = cm, bs_inbox = [], bs_buffer = [], bs_pending_count = 0, bs_draining = [], bs_outgoing = [],
      bs_workers = replicate (max 2 (case parallelism of Some n \<Rightarrow> n | None \<Rightarrow> 2)) \<lparr>wq_open = True, wq_items = []\<rparr>,
      bs_exited = False, bs_stats = stats_zero\<rparr>"

text \<open>The coalescer takes input only between flushes.\<close>

definition idle :: "broadcast_state \<Rightarrow> bool" where
  "idle s \<longleftrightarrow> bs_draining s = [] \<and> bs_outgoing s = [] \<and> \<not> bs_exited s"

definition publish_accepted :: "broadcast_state \<Rightarrow> bool" where
  "publish_accepted s \<longleftrightarrow> \<not> bs_exited s \<and> length (bs_inbox s) < COALESCE_QUEUE_CAPACITY"

definition bs_publish :: "string \<Rightarrow> u8 list \<Rightarrow> string \<Rightarrow> broadcast_state \<Rightarrow> nat \<times> broadcast_state" where
  "bs_publish topic proto_bytes json_text s =
     (let pending = \<lparr>pp_topic = topic, pp_payload = \<lparr>pl_proto = proto_bytes, pl_json_text = json_text\<rparr>\<rparr>
      in if publish_accepted s
         then (1, s\<lparr>bs_inbox := bs_inbox s @ [pending],
                    bs_stats := bs_stats s\<lparr>st_publishes_total := st_publishes_total (bs_stats s) + 1\<rparr>\<rparr>)
         else (0, s))"

definition start_flush :: "broadcast_state \<Rightarrow> broadcast_state" where
  "start_flush s = s\<lparr>bs_draining := bs_buffer s, bs_buffer := [], bs_pending_count := 0\<rparr>"

definition coalescer_recv :: "broadcast_state \<Rightarrow> broadcast_state" where
  "coalescer_recv s =
     (case bs_inbox s of
        [] \<Rightarrow> s
      | p # rest \<Rightarrow>
          if \<not> idle s then s
          else
            (let s' = s\<lparr>bs_inbox := rest,
                        bs_buffer := dm_upd (pp_topic p) (\<lambda>ps. ps @ [pp_payload p])
                                       (dm_or_insert (pp_topic p) [] (bs_buffer s)),
                        bs_pending_count := bs_pending_count s + 1\<rparr>
             in if MAX_PENDING_BEFORE_FLUSH \<le> bs_pending_count s' then start_flush s' else s'))"

definition coalescer_tick :: "broadcast_state \<Rightarrow> broadcast_state" where
  "coalescer_tick s =
     (if \<not> idle s then s
      else
        (let s' = s\<lparr>bs_stats := bs_stats s\<lparr>st_coalescer_ticks_total := st_coalescer_ticks_total (bs_stats s) + 1\<rparr>\<rparr>
         in if bs_buffer s' = [] then s' else start_flush s'))"

text \<open>The senders are gone and the queue is empty: drain what is buffered and stop receiving.\<close>

definition coalescer_shutdown :: "broadcast_state \<Rightarrow> broadcast_state" where
  "coalescer_shutdown s =
     (if \<not> idle s \<or> bs_inbox s \<noteq> [] then s
      else (if bs_buffer s = [] then s else start_flush s)\<lparr>bs_exited := True\<rparr>)"

definition count_coalesced :: "nat \<Rightarrow> broadcast_stats \<Rightarrow> broadcast_stats" where
  "count_coalesced batch_size stats =
     (if 1 < batch_size
      then stats\<lparr>st_coalesced_batches_total := st_coalesced_batches_total stats + 1,
                 st_coalesced_payloads_total := st_coalesced_payloads_total stats + of_nat batch_size\<rparr>
      else stats)"

definition flush_topic ::
    "(u8 list \<Rightarrow> 'm option) \<Rightarrow> ('m list \<Rightarrow> u8 list option) \<Rightarrow> broadcast_state \<Rightarrow> broadcast_state" where
  "flush_topic dec enc s =
     (case bs_draining s of
        [] \<Rightarrow> s
      | (topic, payloads) # rest \<Rightarrow>
          if bs_outgoing s \<noteq> [] then s
          else if payloads = [] then s\<lparr>bs_draining := rest\<rparr>
          else s\<lparr>bs_draining := rest,
                 bs_outgoing := plan_topic dec enc (length (bs_workers s)) (bs_cm s) topic payloads,
                 bs_stats := count_coalesced (length payloads) (bs_stats s)\<rparr>)"

text \<open>\<open>worker.send(work).await\<close>: it waits while the worker's queue is full.\<close>

definition dispatch :: "broadcast_state \<Rightarrow> broadcast_state" where
  "dispatch s =
     (case bs_outgoing s of
        [] \<Rightarrow> s
      | (w, work) # rest \<Rightarrow>
          (let q = bs_workers s ! w;
               stats = bs_stats s\<lparr>st_max_worker_pending :=
                         max (st_max_worker_pending (bs_stats s)) (of_nat (length (wq_items q)))\<rparr>
           in if \<not> wq_open q
              then s\<lparr>bs_outgoing := rest,
                     bs_stats := stats\<lparr>st_worker_drops_total := st_worker_drops_total stats + 1\<rparr>\<rparr>
              else if WORKER_QUEUE_CAPACITY \<le> length (wq_items q) then s\<lparr>bs_stats := stats\<rparr>
              else s\<lparr>bs_outgoing := rest, bs_stats := stats,
                     bs_workers := (bs_workers s)[w := q\<lparr>wq_items := wq_items q @ [work]\<rparr>]\<rparr>))"

definition worker_recv :: "nat \<Rightarrow> broadcast_state \<Rightarrow> broadcast_state" where
  "worker_recv w s =
     (if length (bs_workers s) \<le> w then s
      else
        (case wq_items (bs_workers s ! w) of
           [] \<Rightarrow> s
         | work # rest \<Rightarrow>
             (let (cm, stats) = worker_run work (bs_cm s, bs_stats s)
              in s\<lparr>bs_cm := cm, bs_stats := stats,
                   bs_workers := (bs_workers s)[w := (bs_workers s ! w)\<lparr>wq_items := rest\<rparr>]\<rparr>)))"

text \<open>The write task of a connection takes the oldest frame off the connection's queue.\<close>

definition take_outbound :: "sender \<Rightarrow> conn_manager \<Rightarrow> conn_manager" where
  "take_outbound tx cm = cm\<lparr>cm_queues := dm_upd tx (\<lambda>q. q\<lparr>ob_items := tl (ob_items q)\<rparr>) (cm_queues cm)\<rparr>"

datatype bc_op =
    Bc_Publish string "u8 list" string
  | Bc_Recv
  | Bc_Tick
  | Bc_Shutdown
  | Bc_Flush_Topic
  | Bc_Dispatch
  | Bc_Work nat
  | Bc_Conn conn_op
  | Bc_Client sender

fun bc_step ::
    "(u8 list \<Rightarrow> 'm option) \<Rightarrow> ('m list \<Rightarrow> u8 list option) \<Rightarrow> broadcast_state \<Rightarrow> bc_op \<Rightarrow> broadcast_state" where
  "bc_step dec enc s (Bc_Publish topic proto_bytes json_text) = snd (bs_publish topic proto_bytes json_text s)"
| "bc_step dec enc s Bc_Recv = coalescer_recv s"
| "bc_step dec enc s Bc_Tick = coalescer_tick s"
| "bc_step dec enc s Bc_Shutdown = coalescer_shutdown s"
| "bc_step dec enc s Bc_Flush_Topic = flush_topic dec enc s"
| "bc_step dec enc s Bc_Dispatch = dispatch s"
| "bc_step dec enc s (Bc_Work w) = worker_recv w s"
| "bc_step dec enc s (Bc_Conn op) = s\<lparr>bs_cm := conn_step (bs_cm s) op\<rparr>"
| "bc_step dec enc s (Bc_Client tx) = s\<lparr>bs_cm := take_outbound tx (bs_cm s)\<rparr>"

section \<open>The partition\<close>

lemma push_at_simps [simp]:
  "length (push_at i x parts) = length parts"
  "i < length parts \<Longrightarrow> push_at i x parts ! j = (if j = i then parts ! i @ [x] else parts ! j)"
  by (simp_all add: push_at_def nth_list_update)

lemma partition_one_simps:
  "use_batch cm k c \<Longrightarrow> partition_one cm n k c (ip, bp, a) = (ip, push_at (unat c mod n) c bp, True)"
  "\<not> use_batch cm k c \<Longrightarrow> partition_one cm n k c (ip, bp, a) = (push_at (unat c mod n) c ip, bp, a)"
  by (simp_all add: partition_one_def)

lemma partition_fold:
  assumes "0 < n" "length ip = n" "length bp = n"
    "fold (partition_one cm n k) cs (ip, bp, a) = (ip', bp', a')"
  shows "length ip' = n \<and> length bp' = n \<and> (a' \<longleftrightarrow> a \<or> (\<exists>c\<in>set cs. use_batch cm k c)) \<and>
     (\<forall>w<n. ip' ! w = ip ! w @ filter (\<lambda>c. \<not> use_batch cm k c \<and> unat c mod n = w) cs \<and>
            bp' ! w = bp ! w @ filter (\<lambda>c. use_batch cm k c \<and> unat c mod n = w) cs)"
  using assms
proof (induction cs arbitrary: ip bp a)
  case (Cons c cs)
  have w: "unat c mod n < n" using Cons.prems(1) by simp
  show ?case
  proof (cases "use_batch cm k c")
    case True
    with Cons.prems have "fold (partition_one cm n k) cs (ip, push_at (unat c mod n) c bp, True) = (ip', bp', a')"
      by (simp add: partition_one_simps)
    from Cons.IH [OF Cons.prems(1,2) _ this] Cons.prems w True show ?thesis by auto
  next
    case False
    with Cons.prems have "fold (partition_one cm n k) cs (push_at (unat c mod n) c ip, bp, a) = (ip', bp', a')"
      by (simp add: partition_one_simps)
    from Cons.IH [OF Cons.prems(1) _ Cons.prems(3) this] Cons.prems w False show ?thesis by auto
  qed
qed simp

text \<open>Who of the subscribers is sent the packed frame: nobody if packing fails.\<close>

definition batched :: "(u8 list \<Rightarrow> 'm option) \<Rightarrow> ('m list \<Rightarrow> u8 list option) \<Rightarrow> conn_manager \<Rightarrow> payload list \<Rightarrow> u64 \<Rightarrow> bool" where
  "batched dec enc cm ps c \<longleftrightarrow> use_batch cm (length ps) c \<and> pack_batch_frame dec enc ps \<noteq> None"

lemma works_of_mem:
  "(w', wk) \<in> set (works_of ps b ip bp w) \<longleftrightarrow>
     w' = w \<and> (ip ! w \<noteq> [] \<or> bp ! w \<noteq> []) \<and>
     wk = \<lparr>bw_payloads = ps, bw_batch_proto = b, bw_indiv_conn_ids = ip ! w, bw_batch_conn_ids = bp ! w\<rparr>"
  by (auto simp: works_of_def)

lemma plan_topic_shape:
  assumes n: "0 < n" and cs: "dm_get (cm_topic_subscribers cm) t = Some cs" "cs \<noteq> []"
  obtains ip bp b where
    "plan_topic dec enc n cm t ps = concat (map (works_of ps b ip bp) [0..<n])"
    "\<And>w. w < n \<Longrightarrow> bp ! w = filter (\<lambda>c. batched dec enc cm ps c \<and> unat c mod n = w) cs"
    "\<And>w. w < n \<Longrightarrow> set (ip ! w) = {c \<in> set cs. \<not> batched dec enc cm ps c \<and> unat c mod n = w}"
    "\<And>w. w < n \<Longrightarrow> distinct cs \<Longrightarrow> distinct (ip ! w)"
    "\<And>c. c \<in> set cs \<Longrightarrow> batched dec enc cm ps c \<Longrightarrow> b = pack_batch_frame dec enc ps"
proof -
  obtain ip bp a where f: "fold (partition_one cm n (length ps)) cs (replicate n [], replicate n [], False) = (ip, bp, a)"
    by (metis prod_cases3)
  from partition_fold [OF n _ _ f]
  have a: "a \<longleftrightarrow> (\<exists>c\<in>set cs. use_batch cm (length ps) c)"
    and parts: "\<And>w. w < n \<Longrightarrow> ip ! w = filter (\<lambda>c. \<not> use_batch cm (length ps) c \<and> unat c mod n = w) cs"
      "\<And>w. w < n \<Longrightarrow> bp ! w = filter (\<lambda>c. use_batch cm (length ps) c \<and> unat c mod n = w) cs" by auto
  show ?thesis
  proof (cases "a \<and> pack_batch_frame dec enc ps = None")
    case True
    then have nb: "\<not> batched dec enc cm ps c" for c by (simp add: batched_def)
    let ?ip = "map (\<lambda>w. ip ! w @ bp ! w) [0..<n]"
    show ?thesis
    proof (rule that [where ip = ?ip and bp = "replicate n []" and b = None])
      show "plan_topic dec enc n cm t ps = concat (map (works_of ps None ?ip (replicate n [])) [0..<n])"
        using f cs True by (simp add: plan_topic_def Let_def)
    qed (use parts nb in auto)
  next
    case False
    let ?b = "if a then pack_batch_frame dec enc ps else None"
    have eq: "batched dec enc cm ps c \<longleftrightarrow> use_batch cm (length ps) c" if "c \<in> set cs" for c
      using False a that by (auto simp: batched_def)
    show ?thesis
    proof (rule that [where ip = ip and bp = bp and b = ?b])
      show "plan_topic dec enc n cm t ps = concat (map (works_of ps ?b ip bp) [0..<n])"
        using f cs False by (auto simp: plan_topic_def Let_def)
      show "\<And>w. w < n \<Longrightarrow> bp ! w = filter (\<lambda>c. batched dec enc cm ps c \<and> unat c mod n = w) cs"
        using parts eq by (auto intro: filter_cong)
      show "\<And>c. c \<in> set cs \<Longrightarrow> batched dec enc cm ps c \<Longrightarrow> ?b = pack_batch_frame dec enc ps"
        using a eq by auto
    qed (use parts eq in auto)
  qed
qed

lemma mem_plan:
  "(w, wk) \<in> set (concat (map (works_of ps b ip bp) [0..<n])) \<longleftrightarrow> w < n \<and> (w, wk) \<in> set (works_of ps b ip bp w)"
  by (auto simp: works_of_mem)

lemma plan_topic_ids:
  assumes "conn_inv cm" and "0 < n" and "plan = plan_topic dec enc n cm t ps"
  shows "(\<forall>c. c \<in> dm_set (cm_topic_subscribers cm) t \<longleftrightarrow>
         (\<exists>(w, wk)\<in>set plan. c \<in> set (bw_indiv_conn_ids wk @ bw_batch_conn_ids wk))) \<and>
     (\<forall>(w, wk)\<in>set plan. w < n \<and> bw_payloads wk = ps \<and> distinct (bw_indiv_conn_ids wk @ bw_batch_conn_ids wk) \<and>
         (\<forall>c\<in>set (bw_indiv_conn_ids wk @ bw_batch_conn_ids wk). unat c mod n = w) \<and>
         (\<forall>c\<in>set (bw_indiv_conn_ids wk). \<not> batched dec enc cm ps c) \<and>
         (\<forall>c\<in>set (bw_batch_conn_ids wk). batched dec enc cm ps c \<and> bw_batch_proto wk = pack_batch_frame dec enc ps)) \<and>
     distinct (map fst plan)"
proof (cases "dm_set (cm_topic_subscribers cm) t = {}")
  case True
  then have "plan = []" using assms(3) by (auto simp: plan_topic_def dm_set_def split: option.splits)
  then show ?thesis using True by simp
next
  case False
  then obtain cs where cs: "dm_get (cm_topic_subscribers cm) t = Some cs" "cs \<noteq> []"
    by (auto simp: dm_set_def split: option.splits)
  have d: "distinct cs" using assms(1) cs by (auto simp: conn_inv_def sets_ok_def dest: dm_all_get)
  have mem: "dm_set (cm_topic_subscribers cm) t = set cs" using cs by (simp add: dm_set_def)
  obtain ip bp b where pl0: "plan_topic dec enc n cm t ps = concat (map (works_of ps b ip bp) [0..<n])"
    and bp: "\<And>w. w < n \<Longrightarrow> bp ! w = filter (\<lambda>c. batched dec enc cm ps c \<and> unat c mod n = w) cs"
    and ip: "\<And>w. w < n \<Longrightarrow> set (ip ! w) = {c \<in> set cs. \<not> batched dec enc cm ps c \<and> unat c mod n = w}"
      "\<And>w. w < n \<Longrightarrow> distinct cs \<Longrightarrow> distinct (ip ! w)"
    and b: "\<And>c. c \<in> set cs \<Longrightarrow> batched dec enc cm ps c \<Longrightarrow> b = pack_batch_frame dec enc ps"
    by (rule plan_topic_shape [OF assms(2) cs, where dec = dec and enc = enc and ps = ps], rule that)
  have pl: "plan = concat (map (works_of ps b ip bp) [0..<n])" using pl0 assms(3) by simp
  have ex: "(\<exists>(w, wk)\<in>set plan. c \<in> set (bw_indiv_conn_ids wk @ bw_batch_conn_ids wk)) \<longleftrightarrow> c \<in> set cs" for c
  proof
    assume "\<exists>(w, wk)\<in>set plan. c \<in> set (bw_indiv_conn_ids wk @ bw_batch_conn_ids wk)"
    then obtain w wk where "(w, wk) \<in> set plan" "c \<in> set (bw_indiv_conn_ids wk) \<union> set (bw_batch_conn_ids wk)" by auto
    then have "w < n" "c \<in> set (ip ! w) \<union> set (bp ! w)" unfolding pl mem_plan works_of_mem by simp_all
    then show "c \<in> set cs" by (auto simp: bp ip)
  next
    assume c: "c \<in> set cs"
    let ?w = "unat c mod n"
    have "c \<in> set (ip ! ?w) \<or> c \<in> set (bp ! ?w)" using c assms(2) by (auto simp: bp ip)
    moreover from this have "(?w, \<lparr>bw_payloads = ps, bw_batch_proto = b, bw_indiv_conn_ids = ip ! ?w,
        bw_batch_conn_ids = bp ! ?w\<rparr>) \<in> set plan"
      using assms(2) unfolding pl mem_plan works_of_mem by auto
    ultimately show "\<exists>(w, wk)\<in>set plan. c \<in> set (bw_indiv_conn_ids wk @ bw_batch_conn_ids wk)" by force
  qed
  have each: "w < n \<and> bw_payloads wk = ps \<and> distinct (bw_indiv_conn_ids wk @ bw_batch_conn_ids wk) \<and>
         (\<forall>c\<in>set (bw_indiv_conn_ids wk @ bw_batch_conn_ids wk). unat c mod n = w) \<and>
         (\<forall>c\<in>set (bw_indiv_conn_ids wk). \<not> batched dec enc cm ps c) \<and>
         (\<forall>c\<in>set (bw_batch_conn_ids wk). batched dec enc cm ps c \<and> bw_batch_proto wk = pack_batch_frame dec enc ps)"
    if "(w, wk) \<in> set plan" for w wk
  proof -
    have w: "w < n" and wk: "wk = \<lparr>bw_payloads = ps, bw_batch_proto = b, bw_indiv_conn_ids = ip ! w,
        bw_batch_conn_ids = bp ! w\<rparr>"
      using that unfolding pl mem_plan works_of_mem by auto
    have "\<forall>c\<in>set (bp ! w). b = pack_batch_frame dec enc ps" using b by (force simp: bp [OF w])
    with w show ?thesis by (auto simp: wk bp ip d)
  qed
  have "map fst (concat (map (works_of ps b ip bp) ws)) = filter (\<lambda>w. ip ! w \<noteq> [] \<or> bp ! w \<noteq> []) ws" for ws
    by (induction ws) (auto simp: works_of_def)
  then have "distinct (map fst plan)" unfolding pl by simp
  with ex each mem show ?thesis by blast
qed

text \<open>
  Resolving a topic assigns every subscriber to exactly one work item, the one of worker
  \<open>conn_id mod num_workers\<close>, once, either for individual frames or for the packed frame, and
  nobody else; the packed frame goes only to batch-capable protobuf connections of a burst, and
  only if packing succeeded.
\<close>
lemma plan_topic_partition:
  assumes "conn_inv cm" and "0 < n" and "plan = plan_topic dec enc n cm t ps"
  shows "(\<forall>c. c \<in> dm_set (cm_topic_subscribers cm) t \<longleftrightarrow>
         (\<exists>(w, wk)\<in>set plan. c \<in> set (bw_indiv_conn_ids wk @ bw_batch_conn_ids wk))) \<and>
     (\<forall>(w, wk)\<in>set plan. w < n \<and> bw_payloads wk = ps \<and> distinct (bw_indiv_conn_ids wk @ bw_batch_conn_ids wk) \<and>
         (\<forall>c\<in>set (bw_indiv_conn_ids wk @ bw_batch_conn_ids wk). unat c mod n = w) \<and>
         (\<forall>c\<in>set (bw_batch_conn_ids wk). 1 < length ps \<and> is_batch_capable cm c \<and> get_encoding cm c = Protobuf \<and>
             bw_batch_proto wk = pack_batch_frame dec enc ps \<and> bw_batch_proto wk \<noteq> None)) \<and>
     distinct (map fst plan)"
proof -
  have "1 < length ps \<and> is_batch_capable cm c \<and> get_encoding cm c = Protobuf \<and> pack_batch_frame dec enc ps \<noteq> None"
    if "batched dec enc cm ps c" for c
    using that by (auto simp: batched_def use_batch_def get_encoding_def split: option.splits)
  with plan_topic_ids [OF assms] show ?thesis by fastforce
qed

definition batch_demo :: conn_manager where
  "batch_demo = mark_batch_capable 2 fan_demo"

definition burst_demo :: "payload list" where
  "burst_demo = [\<lparr>pl_proto = [1], pl_json_text = ''a''\<rparr>, \<lparr>pl_proto = [2], pl_json_text = ''b''\<rparr>]"

lemma batch_demo_inv: "conn_inv batch_demo"
  unfolding batch_demo_def fan_demo_def mark_batch_capable_def
  by (rule conn_inv_cong [OF _ _ _ _ _ fan_demo_inv [unfolded fan_demo_def]]) simp_all

lemma plan_topic_partition_witness:
  "(2, \<lparr>bw_payloads = burst_demo, bw_batch_proto = Some [1, 2], bw_indiv_conn_ids = [], bw_batch_conn_ids = [2]\<rparr>)
      \<in> set (plan_topic Some (Some \<circ> concat) 4 batch_demo ''t'' burst_demo) \<and>
   is_batch_capable batch_demo 2 \<and> pack_batch_frame Some (Some \<circ> concat) burst_demo \<noteq> None"
proof -
  have m: "(2, \<lparr>bw_payloads = burst_demo, bw_batch_proto = Some [1, 2], bw_indiv_conn_ids = [], bw_batch_conn_ids = [2]\<rparr>)
      \<in> set (plan_topic Some (Some \<circ> concat) 4 batch_demo ''t'' burst_demo)"
    by code_simp
  from plan_topic_partition [OF batch_demo_inv _ refl, where n = 4 and dec = Some and enc = "Some \<circ> concat" and t = "''t''" and ps = burst_demo]
  show ?thesis using m by fastforce
qed

section \<open>Delivery\<close>

text \<open>The frames a queue still takes.\<close>

definition room :: "conn_manager \<Rightarrow> sender \<Rightarrow> nat" where
  "room cm tx =
     (case dm_get (cm_queues cm) tx of
        Some q \<Rightarrow> if ob_open q then ob_capacity q - length (ob_items q) else 0
      | None \<Rightarrow> 0)"

lemma try_send_room:
  "fst (try_send tx msg cm) \<longleftrightarrow> 0 < room cm tx"
  "cm_conn_info (snd (try_send tx msg cm)) = cm_conn_info cm"
  "queue_of (snd (try_send tx msg cm)) tx' = queue_of cm tx' @ (if tx' = tx \<and> 0 < room cm tx then [msg] else [])"
  "room (snd (try_send tx msg cm)) tx' = (if tx' = tx then room cm tx - 1 else room cm tx')"
  by (auto simp: try_send_def room_def queue_of_def split: option.splits)

lemma send_payloads_spec:
  "cm_conn_info (fst (send_payloads tx b ps st)) = cm_conn_info (fst st) \<and>
   queue_of (fst (send_payloads tx b ps st)) tx' =
     queue_of (fst st) tx' @ (if tx' = tx then take (room (fst st) tx) (map (frame_for b) ps) else []) \<and>
   (tx' \<noteq> tx \<longrightarrow> room (fst (send_payloads tx b ps st)) tx' = room (fst st) tx')"
proof (induction tx b ps st rule: send_payloads.induct)
  case (2 tx b p ps cm d)
  let ?s = "try_send tx (frame_for b p) cm"
  show ?case
  proof (cases "fst ?s")
    case True
    have eq: "send_payloads tx b (p # ps) (cm, d) = send_payloads tx b ps (snd ?s, d + 1)"
      using True by (simp add: case_prod_beta)
    have "0 < room cm tx" using True by (simp add: try_send_room)
    then obtain k where k: "room cm tx = Suc k" by (cases "room cm tx") auto
    show ?thesis
      unfolding eq using 2 [OF refl prod.collapse True] by (auto simp: try_send_room k)
  next
    case False
    have eq: "send_payloads tx b (p # ps) (cm, d) = (snd ?s, d)"
      using False by (simp add: case_prod_beta)
    have "room cm tx = 0" using False by (simp add: try_send_room)
    then show ?thesis unfolding eq by (simp add: try_send_room)
  qed
qed simp

text \<open>
  A loop over connection ids that gives each registered one its frames, as far as its queue
  takes them, and touches no other queue.
\<close>

locale fan_out =
  fixes step :: "u64 \<Rightarrow> 's \<Rightarrow> 's"
    and mgr :: "'s \<Rightarrow> conn_manager"
    and frames :: "encoding \<Rightarrow> outbound_msg list"
  assumes step_info: "cm_conn_info (mgr (step c st)) = cm_conn_info (mgr st)"
    and step_queue: "dm_get (cm_conn_info (mgr st)) c = Some (tx, e) \<Longrightarrow>
      queue_of (mgr (step c st)) tx' = queue_of (mgr st) tx' @ (if tx' = tx then take (room (mgr st) tx) (frames e) else [])"
    and step_room: "dm_get (cm_conn_info (mgr st)) c = Some (tx, e) \<Longrightarrow> tx' \<noteq> tx \<Longrightarrow>
      room (mgr (step c st)) tx' = room (mgr st) tx'"
    and step_miss: "dm_get (cm_conn_info (mgr st)) c = None \<Longrightarrow> mgr (step c st) = mgr st"
begin

lemma step_other:
  assumes "senders_distinct (mgr st)" "dm_get (cm_conn_info (mgr st)) c = Some (tx, e)" "d \<noteq> c"
  shows "queue_of (mgr (step d st)) tx = queue_of (mgr st) tx \<and> room (mgr (step d st)) tx = room (mgr st) tx"
proof (cases "dm_get (cm_conn_info (mgr st)) d")
  case None
  then show ?thesis by (simp add: step_miss)
next
  case (Some i)
  obtain tx' e' where i: "dm_get (cm_conn_info (mgr st)) d = Some (tx', e')" using Some by (cases i) auto
  have "tx' \<noteq> tx" using assms i unfolding senders_distinct_def sender_of_def by force
  then show ?thesis using step_queue [OF i, of tx] step_room [OF i, of tx] by simp
qed

lemma fan_out_fold:
  assumes "distinct cs" "senders_distinct (mgr st)" "dm_get (cm_conn_info (mgr st)) c = Some (tx, e)"
  shows "cm_conn_info (mgr (fold step cs st)) = cm_conn_info (mgr st) \<and>
    queue_of (mgr (fold step cs st)) tx =
      queue_of (mgr st) tx @ (if c \<in> set cs then take (room (mgr st) tx) (frames e) else []) \<and>
    (c \<notin> set cs \<longrightarrow> room (mgr (fold step cs st)) tx = room (mgr st) tx)"
  using assms
proof (induction cs arbitrary: st)
  case (Cons d cs)
  have sd: "senders_distinct (mgr (step d st))"
    using Cons.prems(2) by (simp add: senders_distinct_def sender_of_def step_info)
  have IH: "cm_conn_info (mgr (fold step cs (step d st))) = cm_conn_info (mgr (step d st)) \<and>
      queue_of (mgr (fold step cs (step d st))) tx =
        queue_of (mgr (step d st)) tx @ (if c \<in> set cs then take (room (mgr (step d st)) tx) (frames e) else []) \<and>
      (c \<notin> set cs \<longrightarrow> room (mgr (fold step cs (step d st))) tx = room (mgr (step d st)) tx)"
    using Cons.prems by (intro Cons.IH sd) (auto simp: step_info)
  show ?case
  proof (cases "d = c")
    case True
    with IH Cons.prems(1) step_queue [OF Cons.prems(3), of tx] show ?thesis by (simp add: step_info)
  next
    case False
    with IH step_other [OF Cons.prems(2,3) False] show ?thesis by (auto simp: step_info)
  qed
qed simp

end

interpretation indiv: fan_out "work_indiv ps" fst "\<lambda>e. map (frame_for (e = Protobuf)) ps" for ps
  by unfold_locales
    (auto simp: work_indiv_def Let_def case_prod_beta send_payloads_spec split: option.splits)

interpretation batch: fan_out "work_batch b" fst "\<lambda>_. [Binary b]" for b
  by unfold_locales
    (auto simp: work_batch_def Let_def case_prod_beta try_send_room take_Cons' split: option.splits if_splits)

lemma worker_run_spec:
  assumes d: "distinct (bw_indiv_conn_ids wk @ bw_batch_conn_ids wk)"
    and sd: "senders_distinct cm" and c: "dm_get (cm_conn_info cm) c = Some (tx, e)"
  shows "cm_conn_info (fst (worker_run wk (cm, stats))) = cm_conn_info cm \<and>
    queue_of (fst (worker_run wk (cm, stats))) tx = queue_of cm tx @
      (if c \<in> set (bw_indiv_conn_ids wk) then take (room cm tx) (map (frame_for (e = Protobuf)) (bw_payloads wk))
       else if c \<in> set (bw_batch_conn_ids wk)
       then (case bw_batch_proto wk of Some b \<Rightarrow> take (room cm tx) [Binary b] | None \<Rightarrow> []) else []) \<and>
    (c \<notin> set (bw_indiv_conn_ids wk @ bw_batch_conn_ids wk) \<longrightarrow>
       room (fst (worker_run wk (cm, stats))) tx = room cm tx)"
proof -
  obtain cm1 d1 m1 where f1: "fold (work_indiv (bw_payloads wk)) (bw_indiv_conn_ids wk) (cm, 0, 0) = (cm1, d1, m1)"
    by (metis prod_cases3)
  from d have d': "distinct (bw_indiv_conn_ids wk)" "distinct (bw_batch_conn_ids wk)" by auto
  from indiv.fan_out_fold [OF d'(1), of "(cm, 0, 0)" c tx e "bw_payloads wk"] sd c
  have one: "cm_conn_info cm1 = cm_conn_info cm"
    "queue_of cm1 tx = queue_of cm tx @ (if c \<in> set (bw_indiv_conn_ids wk)
        then take (room cm tx) (map (frame_for (e = Protobuf)) (bw_payloads wk)) else [])"
    "c \<notin> set (bw_indiv_conn_ids wk) \<longrightarrow> room cm1 tx = room cm tx"
    by (simp_all add: f1)
  show ?thesis
  proof (cases "bw_batch_proto wk")
    case None
    with one f1 show ?thesis by (auto simp: worker_run_def)
  next
    case (Some b)
    obtain cm2 r where f2: "fold (work_batch b) (bw_batch_conn_ids wk) (cm1, d1, m1, 0) = (cm2, r)"
      by (metis surj_pair)
    have sd1: "senders_distinct cm1" using sd one(1) by (simp add: senders_distinct_def sender_of_def)
    from batch.fan_out_fold [OF d'(2), of "(cm1, d1, m1, 0)" c tx e b] sd1 c one(1) f2
    have two: "cm_conn_info cm2 = cm_conn_info cm"
      "queue_of cm2 tx = queue_of cm1 tx @ (if c \<in> set (bw_batch_conn_ids wk) then take (room cm1 tx) [Binary b] else [])"
      "c \<notin> set (bw_batch_conn_ids wk) \<longrightarrow> room cm2 tx = room cm1 tx"
      by simp_all
    have "fst (worker_run wk (cm, stats)) = cm2" using f1 f2 Some by (cases r) (auto simp: worker_run_def)
    with one two d Some show ?thesis by auto
  qed
qed

definition run_plan :: "(nat \<times> broadcast_work) list \<Rightarrow> conn_manager \<times> broadcast_stats \<Rightarrow> conn_manager \<times> broadcast_stats" where
  "run_plan plan st = fold (\<lambda>(_, wk). worker_run wk) plan st"

definition work_ids :: "broadcast_work \<Rightarrow> u64 set" where
  "work_ids wk = set (bw_indiv_conn_ids wk @ bw_batch_conn_ids wk)"

text \<open>What one work item holds for a connection.\<close>

definition work_frames :: "broadcast_work \<Rightarrow> u64 \<Rightarrow> encoding \<Rightarrow> outbound_msg list" where
  "work_frames wk c e =
     (if c \<in> set (bw_indiv_conn_ids wk) then map (frame_for (e = Protobuf)) (bw_payloads wk)
      else if c \<in> set (bw_batch_conn_ids wk) then (case bw_batch_proto wk of Some b \<Rightarrow> [Binary b] | None \<Rightarrow> [])
      else [])"

lemma worker_run_frames:
  assumes "distinct (bw_indiv_conn_ids wk @ bw_batch_conn_ids wk)"
    and "senders_distinct (fst st)" "dm_get (cm_conn_info (fst st)) c = Some (tx, e)"
  shows "cm_conn_info (fst (worker_run wk st)) = cm_conn_info (fst st)"
    "queue_of (fst (worker_run wk st)) tx = queue_of (fst st) tx @ take (room (fst st) tx) (work_frames wk c e)"
    "c \<notin> work_ids wk \<Longrightarrow> room (fst (worker_run wk st)) tx = room (fst st) tx"
proof -
  note run = worker_run_spec [OF assms, of "snd st"]
  show "cm_conn_info (fst (worker_run wk st)) = cm_conn_info (fst st)" using run by simp
  show "queue_of (fst (worker_run wk st)) tx = queue_of (fst st) tx @ take (room (fst st) tx) (work_frames wk c e)"
    using run by (simp add: work_frames_def split: option.splits)
  show "c \<notin> work_ids wk \<Longrightarrow> room (fst (worker_run wk st)) tx = room (fst st) tx"
    using run by (simp add: work_ids_def)
qed

lemma run_plan_spec:
  assumes "distinct (map fst plan)"
    and "\<And>w wk. (w, wk) \<in> set plan \<Longrightarrow> distinct (bw_indiv_conn_ids wk @ bw_batch_conn_ids wk) \<and>
       (\<forall>c\<in>work_ids wk. unat c mod n = w)"
    and "senders_distinct (fst st)" "dm_get (cm_conn_info (fst st)) c = Some (tx, e)"
  shows "(\<forall>w wk. (w, wk) \<in> set plan \<longrightarrow> c \<in> work_ids wk \<longrightarrow>
       queue_of (fst (run_plan plan st)) tx = queue_of (fst st) tx @ take (room (fst st) tx) (work_frames wk c e)) \<and>
    ((\<forall>w wk. (w, wk) \<in> set plan \<longrightarrow> c \<notin> work_ids wk) \<longrightarrow>
       queue_of (fst (run_plan plan st)) tx = queue_of (fst st) tx)"
  using assms
proof (induction plan arbitrary: st)
  case (Cons x plan)
  obtain w wk where x: "x = (w, wk)" by fastforce
  have dw: "distinct (bw_indiv_conn_ids wk @ bw_batch_conn_ids wk)" "\<forall>c\<in>work_ids wk. unat c mod n = w"
    using Cons.prems(2) [of w wk] x by auto
  let ?st = "worker_run wk st"
  note run = worker_run_frames [OF dw(1) Cons.prems(3,4)]
  have run': "run_plan ((w, wk) # plan) st = run_plan plan ?st" by (simp add: run_plan_def)
  have IH: "(\<forall>w wk. (w, wk) \<in> set plan \<longrightarrow> c \<in> work_ids wk \<longrightarrow>
       queue_of (fst (run_plan plan ?st)) tx = queue_of (fst ?st) tx @ take (room (fst ?st) tx) (work_frames wk c e)) \<and>
    ((\<forall>w wk. (w, wk) \<in> set plan \<longrightarrow> c \<notin> work_ids wk) \<longrightarrow>
       queue_of (fst (run_plan plan ?st)) tx = queue_of (fst ?st) tx)"
  proof (rule Cons.IH)
    show "distinct (map fst plan)" using Cons.prems(1) by simp
    show "distinct (bw_indiv_conn_ids wk' @ bw_batch_conn_ids wk') \<and> (\<forall>c\<in>work_ids wk'. unat c mod n = w')"
      if "(w', wk') \<in> set plan" for w' wk'
      using Cons.prems(2) [of w' wk'] that by simp
    show "senders_distinct (fst ?st)" using Cons.prems(3) run(1) by (simp add: senders_distinct_def sender_of_def)
    show "dm_get (cm_conn_info (fst ?st)) c = Some (tx, e)" using Cons.prems(4) run(1) by simp
  qed
  show ?case
  proof (cases "c \<in> work_ids wk")
    case True
    have other: "c \<notin> work_ids wk'" if "(w', wk') \<in> set plan" for w' wk'
    proof
      assume "c \<in> work_ids wk'"
      then have "w' = w" using Cons.prems(2) [of w' wk'] that dw(2) True by auto
      then show False using Cons.prems(1) that x by (auto simp: image_iff)
    qed
    with IH have "queue_of (fst (run_plan plan ?st)) tx = queue_of (fst ?st) tx" by blast
    with other run(2) True show ?thesis unfolding x run' by auto
  next
    case False
    have "work_frames wk c e = []" using False by (simp add: work_frames_def work_ids_def)
    with IH run False show ?thesis unfolding x run' by auto
  qed
qed (simp add: run_plan_def)

text \<open>
  When the work items of a flushed topic have run, a subscriber has received, after what
  its queue held, either the packed frame or the payloads' frames in its own encoding and in
  publishing order, cut only where its queue was full; a connection that does not subscribe has
  received nothing.
\<close>
lemma flush_delivers:
  assumes "conn_inv cm" and "senders_distinct cm" and "0 < n"
    and "dm_get (cm_conn_info cm) c = Some (tx, e)"
  shows "queue_of (fst (run_plan (plan_topic dec enc n cm t ps) (cm, stats))) tx = queue_of cm tx @
     (if t \<notin> dm_set (cm_subscriptions cm) c then []
      else take (room cm tx)
        (if batched dec enc cm ps c then [Binary (the (pack_batch_frame dec enc ps))]
         else map (frame_for (e = Protobuf)) ps))"
proof -
  let ?plan = "plan_topic dec enc n cm t ps"
  note ids = plan_topic_ids [OF assms(1,3) refl, of t dec enc ps]
  have each: "distinct (bw_indiv_conn_ids wk @ bw_batch_conn_ids wk) \<and> (\<forall>c\<in>work_ids wk. unat c mod n = w)"
    if "(w, wk) \<in> set ?plan" for w wk
    using ids that unfolding work_ids_def by blast
  have d: "distinct (map fst ?plan)" using ids by blast
  note run = run_plan_spec [of ?plan n "(cm, stats)" c tx e, OF d each, unfolded fst_conv, OF _ assms(2,4)]
  show ?thesis
  proof (cases "t \<in> dm_set (cm_subscriptions cm) c")
    case False
    then have "c \<notin> dm_set (cm_topic_subscribers cm) t" using assms(1) by (simp add: conn_inv_def)
    then have "\<forall>w wk. (w, wk) \<in> set ?plan \<longrightarrow> c \<notin> work_ids wk" using ids unfolding work_ids_def by blast
    with run False show ?thesis by simp
  next
    case True
    then have "c \<in> dm_set (cm_topic_subscribers cm) t" using assms(1) by (simp add: conn_inv_def)
    then obtain w wk where wk: "(w, wk) \<in> set ?plan" "c \<in> work_ids wk" using ids unfolding work_ids_def by blast
    have p: "bw_payloads wk = ps" "c \<in> set (bw_indiv_conn_ids wk) \<longrightarrow> \<not> batched dec enc cm ps c"
      "c \<in> set (bw_batch_conn_ids wk) \<longrightarrow> batched dec enc cm ps c \<and> bw_batch_proto wk = pack_batch_frame dec enc ps"
      using ids wk(1) by blast+
    have q: "queue_of (fst (run_plan ?plan (cm, stats))) tx = queue_of cm tx @ take (room cm tx) (work_frames wk c e)"
      using run wk by blast
    have "c \<in> set (bw_indiv_conn_ids wk) \<or> c \<in> set (bw_batch_conn_ids wk)" using wk(2) by (simp add: work_ids_def)
    with p q True show ?thesis by (auto simp: batched_def work_frames_def split: option.splits)
  qed
qed

lemma demo_senders: "senders_distinct batch_demo \<and> dm_get (cm_conn_info batch_demo) 2 = Some (1, Protobuf) \<and>
    dm_get (cm_conn_info batch_demo) 1 = Some (0, Unknown)"
proof -
  have "cm_conn_info batch_demo = [(1, 0, Unknown), (2, 1, Protobuf)]" by code_simp
  then show ?thesis by (auto simp: senders_distinct_def sender_of_def dm_get_def split: if_splits)
qed

lemma flush_delivers_witness:
  "queue_of (fst (run_plan (plan_topic Some (Some \<circ> concat) 4 batch_demo ''t'' burst_demo) (batch_demo, stats_zero))) 0 =
     [Text ''a'', Text ''b'']"
proof -
  have s: "dm_set (cm_subscriptions batch_demo) 1 = {''t''}" by code_simp
  have b: "\<not> batched Some (Some \<circ> concat) batch_demo burst_demo 1" by code_simp
  have r: "queue_of batch_demo 0 = [] \<and> room batch_demo 0 = 4" by code_simp
  from flush_delivers [OF batch_demo_inv, of 4 1 0 Unknown Some "Some \<circ> concat" "''t''" burst_demo stats_zero]
  show ?thesis using demo_senders s b r by (simp add: burst_demo_def frame_for_def)
qed

text \<open>
  Batching is invisible to a client that unpacks: with a codec whose packed frame unpacks
  to the packed messages, a protobuf subscriber with room reads the same messages in the same
  order whether or not its connection is batch capable.
\<close>
lemma batching_transparent:
  assumes "conn_inv cm" and "senders_distinct cm" and "0 < n"
    and "dm_get (cm_conn_info cm) c = Some (tx, Protobuf)" and "t \<in> dm_set (cm_subscriptions cm) c"
    and "length ps \<le> room cm tx" and "queue_of cm tx = []"
    and unpack_batch: "\<And>ms b. enc ms = Some b \<Longrightarrow> unpack b = ms"
    and unpack_one: "\<And>p m. p \<in> set ps \<Longrightarrow> dec (pl_proto p) = Some m \<Longrightarrow> unpack (pl_proto p) = [m]"
    and received: "received = queue_of (fst (run_plan (plan_topic dec enc n cm t ps) (cm, stats))) tx"
  shows "concat (map (\<lambda>f. case f of Binary b \<Rightarrow> unpack b | _ \<Rightarrow> []) received) = concat (map (unpack \<circ> pl_proto) ps)"
proof -
  have dec: "decode_all dec qs = Some ms \<Longrightarrow> set qs \<subseteq> set ps \<Longrightarrow> ms = concat (map (unpack \<circ> pl_proto) qs)" for qs ms
  proof (induction qs arbitrary: ms)
    case (Cons q qs)
    then show ?case using unpack_one [of q] by (auto split: option.splits)
  qed simp
  have q: "received = take (room cm tx) (if batched dec enc cm ps c then [Binary (the (pack_batch_frame dec enc ps))]
         else map (frame_for True) ps)"
    using flush_delivers [OF assms(1,2,3,4), of dec enc t ps stats] assms(5,7) received by simp
  show ?thesis
  proof (cases "batched dec enc cm ps c")
    case True
    then obtain b ms where b: "decode_all dec ps = Some ms" "enc ms = Some b"
      by (auto simp: batched_def pack_batch_frame_def split: option.splits)
    have "0 < length ps" using True by (auto simp: batched_def use_batch_def)
    then have "received = [Binary b]" using q True b assms(6) by (cases "room cm tx") (auto simp: pack_batch_frame_def)
    then show ?thesis using dec [OF b(1)] unpack_batch [OF b(2)] by simp
  next
    case False
    then have "received = map (frame_for True) ps" using q assms(6) by simp
    then show ?thesis by (simp add: frame_for_def comp_def)
  qed
qed

lemma batching_transparent_witness:
  "concat (map (\<lambda>f. case f of Binary b \<Rightarrow> b | _ \<Rightarrow> [])
     (queue_of (fst (run_plan (plan_topic (\<lambda>b. if length b = 1 then Some (hd b) else None) Some 4 batch_demo ''t'' burst_demo)
        (batch_demo, stats_zero))) 1)) = [1, 2]"
proof -
  have s: "''t'' \<in> dm_set (cm_subscriptions batch_demo) 2" by code_simp
  have r: "length burst_demo \<le> room batch_demo 1" "queue_of batch_demo 1 = []" by code_simp+
  have p: "map ((\<lambda>b. b) \<circ> pl_proto) burst_demo = [[1], [2]]" by code_simp
  note app = batching_transparent [where cm = batch_demo and n = 4 and c = 2 and tx = 1 and t = "''t''" and ps = burst_demo and
      enc = Some and dec = "\<lambda>b. if length b = 1 then Some (hd b) else None" and unpack = "\<lambda>b. b" and stats = stats_zero,
      OF batch_demo_inv _ _ _ s r _ _ refl]
  have one: "pl_proto p = [m]"
    if "p \<in> set burst_demo" "(if length (pl_proto p) = 1 then Some (hd (pl_proto p)) else None) = Some m" for p m
    using that by (auto simp: burst_demo_def)
  have "concat (map (\<lambda>f. case f of Binary b \<Rightarrow> b | _ \<Rightarrow> [])
     (queue_of (fst (run_plan (plan_topic (\<lambda>b. if length b = 1 then Some (hd b) else None) Some 4 batch_demo ''t'' burst_demo)
        (batch_demo, stats_zero))) 1)) = concat (map ((\<lambda>b. b) \<circ> pl_proto) burst_demo)"
  proof (rule app)
    fix p and m :: u8
    assume "p \<in> set burst_demo" "(if length (pl_proto p) = 1 then Some (hd (pl_proto p)) else None) = Some m"
    then show "pl_proto p = [m]" by (rule one)
  qed (simp_all add: demo_senders)
  then show ?thesis unfolding p by simp
qed

section \<open>The pipeline\<close>

definition buffered :: "(string \<times> payload list) list \<Rightarrow> nat" where
  "buffered m = sum_list (map (length \<circ> snd) m)"

definition bc_inv :: "broadcast_state \<Rightarrow> bool" where
  "bc_inv s \<longleftrightarrow>
     length (bs_inbox s) \<le> COALESCE_QUEUE_CAPACITY \<and>
     dm_wf (bs_buffer s) \<and> bs_pending_count s = buffered (bs_buffer s) \<and>
     bs_pending_count s < MAX_PENDING_BEFORE_FLUSH \<and>
     buffered (bs_draining s) \<le> MAX_PENDING_BEFORE_FLUSH \<and>
     (\<forall>q\<in>set (bs_workers s). length (wq_items q) \<le> WORKER_QUEUE_CAPACITY)"

lemma buffered_simps [simp]:
  "buffered [] = 0"
  "buffered ((t, ps) # m) = length ps + buffered m"
  by (simp_all add: buffered_def)

lemma buffered_push:
  "dm_wf m \<Longrightarrow> buffered (dm_upd t (\<lambda>ps. ps @ [p]) (dm_or_insert t [] m)) = buffered m + 1"
proof -
  have upd: "buffered (dm_upd t (\<lambda>ps. ps @ [p]) m) = buffered m + (if dm_get m t = None then 0 else 1)"
    if "dm_wf m" for m
    using that
    by (induction m) (auto simp: buffered_def dm_upd_def dm_get_def dm_wf_def image_iff split: if_splits)
  have put: "buffered (dm_put t [] m) = buffered m" if "dm_get m t = None"
    using that by (induction m) (auto simp: dm_put_def dm_get_def buffered_def split: if_splits)
  assume wf: "dm_wf m"
  show ?thesis
  proof (cases "dm_get m t")
    case None
    with upd [of "dm_put t [] m"] put wf show ?thesis by (simp add: dm_or_insert_def)
  next
    case Some
    with upd [OF wf] show ?thesis by (simp add: dm_or_insert_def)
  qed
qed

lemma bs_start_inv: "bc_inv (bs_start par cm)"
  by (simp add: bc_inv_def bs_start_def MAX_PENDING_BEFORE_FLUSH_def)

lemma start_flush_inv:
  "length (bs_inbox s) \<le> COALESCE_QUEUE_CAPACITY \<Longrightarrow> buffered (bs_buffer s) \<le> MAX_PENDING_BEFORE_FLUSH \<Longrightarrow>
   \<forall>q\<in>set (bs_workers s). length (wq_items q) \<le> WORKER_QUEUE_CAPACITY \<Longrightarrow>
   bc_inv (start_flush s)"
  by (simp add: bc_inv_def start_flush_def MAX_PENDING_BEFORE_FLUSH_def)

lemma coalescer_recv_inv: "bc_inv s \<Longrightarrow> bc_inv (coalescer_recv s)"
proof (cases "bs_inbox s")
  case (Cons p rest)
  assume inv: "bc_inv s"
  show ?thesis
  proof (cases "idle s")
    case True
    let ?s = "s\<lparr>bs_inbox := rest, bs_buffer := dm_upd (pp_topic p) (\<lambda>ps. ps @ [pp_payload p])
        (dm_or_insert (pp_topic p) [] (bs_buffer s)), bs_pending_count := bs_pending_count s + 1\<rparr>"
    have b: "buffered (bs_buffer ?s) = bs_pending_count s + 1"
      using inv by (simp add: bc_inv_def buffered_push)
    show ?thesis
    proof (cases "MAX_PENDING_BEFORE_FLUSH \<le> bs_pending_count s + 1")
      case True
      have "bc_inv (start_flush ?s)"
        by (rule start_flush_inv) (use inv b Cons in \<open>auto simp: bc_inv_def\<close>)
      with True Cons \<open>idle s\<close> show ?thesis by (simp add: coalescer_recv_def)
    next
      case False
      with b inv Cons \<open>idle s\<close> show ?thesis by (simp add: coalescer_recv_def bc_inv_def)
    qed
  qed (use inv Cons in \<open>simp add: coalescer_recv_def\<close>)
qed (simp add: coalescer_recv_def)

lemma bc_inv_cong:
  "bs_inbox s' = bs_inbox s \<Longrightarrow> bs_buffer s' = bs_buffer s \<Longrightarrow> bs_pending_count s' = bs_pending_count s \<Longrightarrow>
   bs_draining s' = bs_draining s \<Longrightarrow> bs_workers s' = bs_workers s \<Longrightarrow> bc_inv s \<Longrightarrow> bc_inv s'"
  by (simp add: bc_inv_def)

lemma bc_inv_flush: "bc_inv s \<Longrightarrow> bc_inv (start_flush s)"
  by (rule start_flush_inv) (auto simp: bc_inv_def)

lemma flush_topic_inv: "bc_inv s \<Longrightarrow> bc_inv (flush_topic dec enc s)"
  by (auto simp: flush_topic_def bc_inv_def split: list.splits)

lemma dispatch_inv: "bc_inv s \<Longrightarrow> bc_inv (dispatch s)"
  by (auto simp: dispatch_def bc_inv_def Let_def not_le split: list.splits dest!: set_update_subset_insert [THEN subsetD])

lemma worker_recv_inv: "bc_inv s \<Longrightarrow> bc_inv (worker_recv w s)"
proof (cases "w < length (bs_workers s) \<and> wq_items (bs_workers s ! w) \<noteq> []")
  case True
  assume inv: "bc_inv s"
  from True obtain work rest where q: "wq_items (bs_workers s ! w) = work # rest" by (auto simp: neq_Nil_conv)
  have "bs_workers s ! w \<in> set (bs_workers s)" using True by simp
  then have "length rest \<le> WORKER_QUEUE_CAPACITY" using inv q by (fastforce simp: bc_inv_def)
  with inv True q show ?thesis
    by (auto simp: worker_recv_def bc_inv_def case_prod_beta dest!: set_update_subset_insert [THEN subsetD])
qed (auto simp: worker_recv_def split: list.splits)

lemma bc_step_inv: "bc_inv s \<Longrightarrow> bc_inv (bc_step dec enc s op)"
proof (cases op)
  case (Bc_Publish t p j)
  then show "bc_inv s \<Longrightarrow> ?thesis"
    by (auto simp: bs_publish_def publish_accepted_def bc_inv_def Let_def)
next
  case Bc_Tick
  assume "bc_inv s"
  then have "bc_inv (s\<lparr>bs_stats := st\<rparr>)" for st by (rule bc_inv_cong [rotated -1]) simp_all
  then show ?thesis using Bc_Tick \<open>bc_inv s\<close> bc_inv_flush by (auto simp: coalescer_tick_def Let_def)
next
  case Bc_Shutdown
  assume "bc_inv s"
  then have "bc_inv (s\<lparr>bs_exited := True\<rparr>)" "bc_inv ((start_flush s)\<lparr>bs_exited := True\<rparr>)"
    by (auto intro: bc_inv_cong bc_inv_flush)
  then show ?thesis using Bc_Shutdown \<open>bc_inv s\<close> by (auto simp: coalescer_shutdown_def)
qed (auto simp: coalescer_recv_inv flush_topic_inv dispatch_inv worker_recv_inv intro: bc_inv_cong)

interpretation bc: invariant_machine "bc_step dec enc" bc_inv "\<lambda>_. True" for dec enc
  by unfold_locales (rule bc_step_inv)

text \<open>
  Whatever the interleaving of publishers, coalescer, workers and connections, the queues
  stay within their bounds: at most 8192 waiting publishes, fewer than 256 payloads buffered
  (counted exactly by \<open>pending_count\<close>), at most 256 in a flush, 1024 items per worker.
\<close>
lemma broadcast_bounded:
  assumes "s = run_ops (bc_step dec enc) (bs_start par cm) ops"
  shows "length (bs_inbox s) \<le> 8192 \<and> buffered (bs_buffer s) = bs_pending_count s \<and> bs_pending_count s < 256 \<and>
     buffered (bs_draining s) \<le> 256 \<and> (\<forall>q\<in>set (bs_workers s). length (wq_items q) \<le> 1024)"
  using bc.run_inv [OF bs_start_inv, of ops dec enc par cm] assms
  by (auto simp: bc_inv_def COALESCE_QUEUE_CAPACITY_def MAX_PENDING_BEFORE_FLUSH_def
      WORKER_QUEUE_CAPACITY_def)

lemma broadcast_bounded_witness:
  "buffered (bs_draining (run_ops (bc_step Some (Some \<circ> concat)) (bs_start None batch_demo)
      [Bc_Publish ''t'' [1] ''a'', Bc_Recv, Bc_Tick])) \<le> 256"
  using broadcast_bounded [OF refl] by blast

section \<open>From publisher to subscriber\<close>

definition sel :: "string \<Rightarrow> (string \<times> payload list) list \<Rightarrow> payload list" where
  "sel t m = concat (map snd (filter (\<lambda>e. fst e = t) m))"

lemma sel_simps [simp]:
  "sel t [] = []"
  "sel t ((k, ps) # m) = (if k = t then ps @ sel t m else sel t m)"
  by (simp_all add: sel_def)

lemma sel_get: "dm_wf m \<Longrightarrow> sel t m = (case dm_get m t of None \<Rightarrow> [] | Some ps \<Rightarrow> ps)"
proof (induction m)
  case (Cons e m)
  have none: "t \<notin> fst ` set m \<Longrightarrow> sel t m = []" by (force simp: sel_def filter_empty_conv)
  with Cons show ?case by (cases e) (auto simp: dm_wf_def dm_get_def)
qed simp

lemma sel_push:
  assumes "dm_wf m"
  shows "sel t (dm_upd k (\<lambda>ps. ps @ [p]) (dm_or_insert k [] m)) = sel t m @ (if t = k then [p] else [])"
  using assms by (auto simp: sel_get split: option.splits)

text \<open>Payloads of a topic the coalescer has not resolved yet, oldest first.\<close>

definition backlog :: "string \<Rightarrow> broadcast_state \<Rightarrow> payload list" where
  "backlog t s =
     sel t (bs_draining s) @ sel t (bs_buffer s) @ map pp_payload (filter (\<lambda>p. pp_topic p = t) (bs_inbox s))"

text \<open>The worker of a connection, and the frames it and the dispatcher still hold for it.\<close>

definition worker_of :: "u64 \<Rightarrow> broadcast_state \<Rightarrow> nat" where
  "worker_of c s = unat c mod length (bs_workers s)"

definition in_flight :: "u64 \<Rightarrow> encoding \<Rightarrow> broadcast_state \<Rightarrow> outbound_msg list" where
  "in_flight c e s =
     concat (map (\<lambda>wk. work_frames wk c e) (wq_items (bs_workers s ! worker_of c s))) @
     concat (map (\<lambda>(w, wk). work_frames wk c e) (bs_outgoing s))"

text \<open>
  What a step accepts from a publisher of the topic, by the result of \<open>publish\<close>; and the frames
  a step of a fan-out worker has put on a connection's queue, read off the queue after the step.
\<close>

fun pub_accepted :: "string \<Rightarrow> broadcast_state \<Rightarrow> bc_op \<Rightarrow> payload list" where
  "pub_accepted t s (Bc_Publish topic proto_bytes json_text) =
     (if fst (bs_publish topic proto_bytes json_text s) = 1 \<and> topic = t
      then [\<lparr>pl_proto = proto_bytes, pl_json_text = json_text\<rparr>] else [])"
| "pub_accepted t s op = []"

definition put_on_queue ::
    "(u8 list \<Rightarrow> 'm option) \<Rightarrow> ('m list \<Rightarrow> u8 list option) \<Rightarrow> sender \<Rightarrow> broadcast_state \<Rightarrow> bc_op \<Rightarrow> outbound_msg list" where
  "put_on_queue dec enc tx s op =
     (case op of
        Bc_Work w \<Rightarrow> drop (length (queue_of (bs_cm s) tx)) (queue_of (bs_cm (bc_step dec enc s op)) tx)
      | _ \<Rightarrow> [])"

primrec run_trace :: "('s \<Rightarrow> 'op \<Rightarrow> 's) \<Rightarrow> ('s \<Rightarrow> 'op \<Rightarrow> 'a list) \<Rightarrow> 's \<Rightarrow> 'op list \<Rightarrow> 'a list" where
  "run_trace step f s [] = []"
| "run_trace step f s (x # xs) = f s x @ run_trace step f (step s x) xs"

lemma run_trace_append:
  "run_trace step f s (xs @ ys) = run_trace step f s xs @ run_trace step f (run_ops step s xs) ys"
  by (induction xs arbitrary: s) auto

primrec always :: "('s \<Rightarrow> bool) \<Rightarrow> ('s \<Rightarrow> 'op \<Rightarrow> 's) \<Rightarrow> 's \<Rightarrow> 'op list \<Rightarrow> bool" where
  "always P step s [] = P s"
| "always P step s (x # xs) = (P s \<and> always P step (step s x) xs)"

lemma always_start: "always P step s xs \<Longrightarrow> P s" "always P step s xs \<Longrightarrow> P (run_ops step s xs)"
  by (induction xs arbitrary: s) auto

text \<open>
  A connection listens to a topic: it is registered with one queue of its own and one encoding,
  subscribed to this topic alone, and its write task keeps up, so that the queue has room for the
  256 frames a work item can bring.
\<close>

definition attached :: "u64 \<Rightarrow> sender \<Rightarrow> encoding \<Rightarrow> string \<Rightarrow> conn_manager \<Rightarrow> bool" where
  "attached c tx e t cm \<longleftrightarrow> conn_inv cm \<and> senders_distinct cm \<and> dm_get (cm_conn_info cm) c = Some (tx, e) \<and>
     dm_set (cm_subscriptions cm) c = {t}"

definition listens :: "u64 \<Rightarrow> sender \<Rightarrow> encoding \<Rightarrow> string \<Rightarrow> broadcast_state \<Rightarrow> bool" where
  "listens c tx e t s \<longleftrightarrow> attached c tx e t (bs_cm s) \<and> MAX_PENDING_BEFORE_FLUSH \<le> room (bs_cm s) tx"

text \<open>What is on its way is addressed to the right worker, and nothing is left behind at exit.\<close>

definition work_ok :: "nat \<Rightarrow> nat \<Rightarrow> broadcast_work \<Rightarrow> bool" where
  "work_ok n w wk \<longleftrightarrow> distinct (bw_indiv_conn_ids wk @ bw_batch_conn_ids wk) \<and>
     length (bw_payloads wk) \<le> MAX_PENDING_BEFORE_FLUSH \<and> (\<forall>c\<in>work_ids wk. unat c mod n = w)"

definition pipe_inv :: "(payload \<Rightarrow> bool) \<Rightarrow> broadcast_state \<Rightarrow> bool" where
  "pipe_inv good s \<longleftrightarrow> bc_inv s \<and> bs_workers s \<noteq> [] \<and>
     (\<forall>w<length (bs_workers s). wq_open (bs_workers s ! w) \<and>
        (\<forall>wk\<in>set (wq_items (bs_workers s ! w)). work_ok (length (bs_workers s)) w wk)) \<and>
     (\<forall>(w, wk)\<in>set (bs_outgoing s). w < length (bs_workers s) \<and> work_ok (length (bs_workers s)) w wk) \<and>
     (bs_exited s \<longrightarrow> bs_inbox s = [] \<and> bs_buffer s = []) \<and>
     (\<forall>p\<in>set (bs_inbox s). good (pp_payload p)) \<and>
     (\<forall>t ps. (t, ps) \<in> set (bs_buffer s) \<union> set (bs_draining s) \<longrightarrow> (\<forall>p\<in>set ps. good p))"

lemma pipe_invD:
  assumes "pipe_inv good s"
  shows "bc_inv s" "0 < length (bs_workers s)"
    "w < length (bs_workers s) \<Longrightarrow> wq_open (bs_workers s ! w)"
    "w < length (bs_workers s) \<Longrightarrow> wk \<in> set (wq_items (bs_workers s ! w)) \<Longrightarrow> work_ok (length (bs_workers s)) w wk"
    "(w, wk) \<in> set (bs_outgoing s) \<Longrightarrow> w < length (bs_workers s) \<and> work_ok (length (bs_workers s)) w wk"
    "bs_exited s \<Longrightarrow> bs_inbox s = [] \<and> bs_buffer s = []"
    "p \<in> set (bs_inbox s) \<Longrightarrow> good (pp_payload p)"
    "(t, ps) \<in> set (bs_buffer s) \<Longrightarrow> q \<in> set ps \<Longrightarrow> good q"
    "(t, ps) \<in> set (bs_draining s) \<Longrightarrow> q \<in> set ps \<Longrightarrow> good q"
  using assms by (fastforce simp: pipe_inv_def)+

fun op_good :: "(payload \<Rightarrow> bool) \<Rightarrow> bc_op \<Rightarrow> bool" where
  "op_good good (Bc_Publish topic p j) = good \<lparr>pl_proto = p, pl_json_text = j\<rparr>"
| "op_good good op = True"

lemma start_pipe: "pipe_inv good (bs_start par cm)"
  using bs_start_inv [of par cm] by (auto simp: pipe_inv_def bs_start_def)

lemma or_insert_set: "e \<in> set (dm_or_insert k v m) \<Longrightarrow> e \<in> set m \<or> snd e = v"
proof -
  have "e \<in> set (AList.update k v m) \<Longrightarrow> e \<in> set m \<or> snd e = v"
    by (induction m) (auto split: if_splits)
  then show "e \<in> set (dm_or_insert k v m) \<Longrightarrow> e \<in> set m \<or> snd e = v"
    by (auto simp: dm_or_insert_def dm_put_def split: option.splits)
qed

lemma push_good:
  assumes m: "\<And>t ps q. (t, ps) \<in> set m \<Longrightarrow> q \<in> set ps \<Longrightarrow> good q" and p: "good p"
    and e: "(t, ps) \<in> set (dm_upd k (\<lambda>ps. ps @ [p]) (dm_or_insert k [] m))" "q \<in> set ps"
  shows "good q"
proof -
  obtain j qs where "(j, qs) \<in> set (dm_or_insert k [] m)" "q \<in> set qs \<or> q = p"
    using e by (auto simp: dm_upd_def split: if_splits)
  then show ?thesis using or_insert_set [of "(j, qs)" k "[]" m] m p by auto
qed

lemma buffered_topic: "(t, ps) \<in> set m \<Longrightarrow> length ps \<le> buffered m"
  by (induction m) auto

lemma plan_ok:
  assumes "conn_inv cm" "0 < n" "length ps \<le> MAX_PENDING_BEFORE_FLUSH" "(w, wk) \<in> set (plan_topic dec enc n cm t ps)"
  shows "w < n \<and> work_ok n w wk"
proof -
  have "w < n \<and> bw_payloads wk = ps \<and> distinct (bw_indiv_conn_ids wk @ bw_batch_conn_ids wk) \<and>
      (\<forall>c\<in>set (bw_indiv_conn_ids wk @ bw_batch_conn_ids wk). unat c mod n = w)"
    using plan_topic_ids [OF assms(1,2) refl, of t dec enc ps] assms(4) by blast
  then show ?thesis using assms(3) by (simp add: work_ok_def work_ids_def)
qed

lemma pipe_recv: "pipe_inv good s \<Longrightarrow> pipe_inv good (coalescer_recv s)"
proof (cases "bs_inbox s")
  case (Cons p rest)
  assume inv: "pipe_inv good s"
  note d = pipe_invD [OF inv]
  show ?thesis
  proof (cases "idle s")
    case True
    have bc: "bc_inv (coalescer_recv s)" using coalescer_recv_inv [OF d(1)] .
    have g: "good (pp_payload p)" using d(7) [of p] Cons by simp
    note push = push_good [where m = "bs_buffer s" and good = good and p = "pp_payload p" and k = "pp_topic p", OF d(8) g]
    have e: "\<not> bs_exited s" using True by (simp add: idle_def)
    show ?thesis
      unfolding pipe_inv_def using bc d(2) inv Cons True e push
      by (auto simp: coalescer_recv_def start_flush_def idle_def pipe_inv_def Let_def)
  qed (use inv Cons in \<open>simp add: coalescer_recv_def\<close>)
qed (simp add: coalescer_recv_def)

lemma pipe_tick: "pipe_inv good s \<Longrightarrow> pipe_inv good (coalescer_tick s)"
proof -
  assume inv: "pipe_inv good s"
  have "bc_inv (coalescer_tick s)" using bc_step_inv [OF pipe_invD(1) [OF inv], of undefined undefined Bc_Tick] by simp
  with inv show ?thesis unfolding pipe_inv_def by (auto simp: coalescer_tick_def start_flush_def Let_def)
qed

lemma pipe_shutdown: "pipe_inv good s \<Longrightarrow> pipe_inv good (coalescer_shutdown s)"
proof -
  assume inv: "pipe_inv good s"
  have "bc_inv (coalescer_shutdown s)"
    using bc_step_inv [OF pipe_invD(1) [OF inv], of undefined undefined Bc_Shutdown] by simp
  with inv show ?thesis unfolding pipe_inv_def by (auto simp: coalescer_shutdown_def start_flush_def Let_def)
qed

lemma pipe_flush: "pipe_inv good s \<Longrightarrow> conn_inv (bs_cm s) \<Longrightarrow> pipe_inv good (flush_topic dec enc s)"
proof -
  assume inv: "pipe_inv good s" and ci: "conn_inv (bs_cm s)"
  note d = pipe_invD [OF inv]
  have bc: "bc_inv (flush_topic dec enc s)" using flush_topic_inv [OF d(1)] .
  have len: "length ps \<le> MAX_PENDING_BEFORE_FLUSH" if "(t, ps) \<in> set (bs_draining s)" for t ps
    using buffered_topic [OF that] d(1) by (simp add: bc_inv_def)
  show "pipe_inv good (flush_topic dec enc s)"
  proof (cases "bs_draining s")
    case (Cons e rest)
    obtain t ps where e: "e = (t, ps)" by fastforce
    have "length ps \<le> MAX_PENDING_BEFORE_FLUSH" using len [of t ps] Cons e by simp
    note plan_ok [OF ci d(2) this, of _ _ dec enc t]
    with bc inv Cons e show ?thesis unfolding pipe_inv_def by (auto simp: flush_topic_def)
  qed (use inv in \<open>simp add: flush_topic_def\<close>)
qed

lemma pipe_dispatch: "pipe_inv good s \<Longrightarrow> pipe_inv good (dispatch s)"
proof (cases "bs_outgoing s")
  case (Cons x rest)
  assume inv: "pipe_inv good s"
  obtain w wk where x: "x = (w, wk)" by fastforce
  note d = pipe_invD [OF inv]
  have w: "w < length (bs_workers s)" "work_ok (length (bs_workers s)) w wk" "wq_open (bs_workers s ! w)"
    using d(5) [of w wk] d(3) [of w] Cons x by auto
  have "bc_inv (dispatch s)" using dispatch_inv [OF d(1)] .
  with inv w Cons x show ?thesis
    unfolding pipe_inv_def by (auto simp: dispatch_def Let_def nth_list_update)
qed (simp add: dispatch_def)

lemma pipe_worker: "pipe_inv good s \<Longrightarrow> pipe_inv good (worker_recv w s)"
proof -
  assume inv: "pipe_inv good s"
  have "bc_inv (worker_recv w s)" using worker_recv_inv [OF pipe_invD(1) [OF inv]] .
  with inv show ?thesis
    unfolding pipe_inv_def by (auto simp: worker_recv_def case_prod_beta nth_list_update split: list.splits)
qed

lemma pipe_step:
  assumes "pipe_inv good s" "conn_inv (bs_cm s)" "op_good good op"
  shows "pipe_inv good (bc_step dec enc s op)"
proof (cases op)
  case (Bc_Publish t p j)
  have "bc_inv (bc_step dec enc s op)" using bc_step_inv [OF pipe_invD(1) [OF assms(1)]] .
  with assms Bc_Publish show ?thesis
    unfolding pipe_inv_def by (auto simp: bs_publish_def publish_accepted_def Let_def)
next
  case (Bc_Conn x)
  with assms(1) show ?thesis by (auto simp: pipe_inv_def bc_inv_def)
next
  case (Bc_Client x)
  with assms(1) show ?thesis by (auto simp: pipe_inv_def bc_inv_def)
qed (use assms in \<open>auto simp: pipe_recv pipe_tick pipe_shutdown pipe_flush pipe_dispatch pipe_worker\<close>)

lemma start_flush_backlog: "bs_draining s = [] \<Longrightarrow> backlog t (start_flush s) = backlog t s"
  by (simp add: backlog_def start_flush_def)

lemma backlog_cong:
  "bs_draining s' = bs_draining s \<Longrightarrow> bs_buffer s' = bs_buffer s \<Longrightarrow> bs_inbox s' = bs_inbox s \<Longrightarrow>
   backlog t s' = backlog t s"
  by (simp add: backlog_def)

lemma coalescer_recv_backlog: "bc_inv s \<Longrightarrow> backlog t (coalescer_recv s) = backlog t s"
proof (cases "bs_inbox s")
  case (Cons p rest)
  assume inv: "bc_inv s"
  show ?thesis
  proof (cases "idle s")
    case True
    let ?s = "s\<lparr>bs_inbox := rest, bs_buffer := dm_upd (pp_topic p) (\<lambda>ps. ps @ [pp_payload p])
        (dm_or_insert (pp_topic p) [] (bs_buffer s)), bs_pending_count := bs_pending_count s + 1\<rparr>"
    have "backlog t ?s = backlog t s"
      using inv Cons by (auto simp: backlog_def bc_inv_def sel_push)
    moreover have "backlog t (start_flush ?s) = backlog t ?s"
      using True by (intro start_flush_backlog) (simp add: idle_def)
    ultimately show ?thesis using True Cons by (simp add: coalescer_recv_def Let_def)
  qed (simp add: coalescer_recv_def Cons)
qed (simp add: coalescer_recv_def)

text \<open>What resolving a topic puts on the way to a connection.\<close>

lemma frames_none: "c \<notin> work_ids wk \<Longrightarrow> work_frames wk c e = []"
  by (simp add: work_frames_def work_ids_def)

lemma plan_frames:
  assumes "conn_inv cm" "0 < n" "dm_get (cm_conn_info cm) c = Some (tx, e)"
  shows "concat (map (\<lambda>(w, wk). work_frames wk c e) (plan_topic dec enc n cm t ps)) =
     (if t \<notin> dm_set (cm_subscriptions cm) c then []
      else if batched dec enc cm ps c then [Binary (the (pack_batch_frame dec enc ps))]
      else map (frame_for (e = Protobuf)) ps)"
proof -
  let ?plan = "plan_topic dec enc n cm t ps"
  note ids = plan_topic_ids [OF assms(1,2) refl, of t dec enc ps]
  have sub: "t \<in> dm_set (cm_subscriptions cm) c \<longleftrightarrow> (\<exists>(w, wk)\<in>set ?plan. c \<in> work_ids wk)"
    using ids assms(1) unfolding work_ids_def conn_inv_def by blast
  have "\<forall>(w, wk)\<in>set ?plan. \<forall>c\<in>set (bw_indiv_conn_ids wk @ bw_batch_conn_ids wk). unat c mod n = w"
    using ids by blast
  then have addr: "w = unat c mod n" if "(w, wk) \<in> set ?plan" "c \<in> work_ids wk" for w wk
    using that unfolding work_ids_def by (auto dest: bspec)
  show ?thesis
  proof (cases "t \<in> dm_set (cm_subscriptions cm) c")
    case False
    then have "\<forall>x\<in>set ?plan. (\<lambda>(w, wk). work_frames wk c e) x = []" using sub by (auto intro!: frames_none)
    then show ?thesis using False by simp
  next
    case True
    then obtain w wk where wk: "(w, wk) \<in> set ?plan" "c \<in> work_ids wk" using sub by blast
    then obtain us vs where split: "?plan = us @ (w, wk) # vs" by (meson split_list)
    have other: "work_frames wk' c e = []" if "(w', wk') \<in> set (us @ vs)" for w' wk'
    proof (rule frames_none, rule notI)
      assume c: "c \<in> work_ids wk'"
      have "(w', wk') \<in> set ?plan" using that split by auto
      then have "w = w'" using addr [of w' wk'] addr [of w wk] wk c by simp
      then have "w \<in> fst ` set (us @ vs)" using imageI [OF that, of fst] by (simp only: fst_conv)
      moreover have "distinct (map fst ?plan)" using ids by blast
      ultimately show False unfolding split by auto
    qed
    have nil: "concat (map (\<lambda>(w, wk). work_frames wk c e) us) = []" "concat (map (\<lambda>(w, wk). work_frames wk c e) vs) = []"
      using other by auto
    have all: "concat (map (\<lambda>(w, wk). work_frames wk c e) ?plan) = work_frames wk c e"
      unfolding split by (simp only: map_append concat_append list.map concat.simps nil prod.case) simp
    have p: "bw_payloads wk = ps" "c \<in> set (bw_indiv_conn_ids wk) \<longrightarrow> \<not> batched dec enc cm ps c"
      "c \<in> set (bw_batch_conn_ids wk) \<longrightarrow> batched dec enc cm ps c \<and> bw_batch_proto wk = pack_batch_frame dec enc ps"
      using ids wk(1) by blast+
    have "c \<in> set (bw_indiv_conn_ids wk) \<or> c \<in> set (bw_batch_conn_ids wk)" using wk(2) by (simp add: work_ids_def)
    then show ?thesis using True p unfolding all by (auto simp: work_frames_def batched_def split: option.split)
  qed
qed

text \<open>What a client makes of frames: it unpacks a packed frame into the packed messages.\<close>

definition unpacks ::
    "(u8 list \<Rightarrow> 'm option) \<Rightarrow> ('m list \<Rightarrow> u8 list option) \<Rightarrow> (outbound_msg \<Rightarrow> 'm list) \<Rightarrow> bool" where
  "unpacks dec enc reads \<longleftrightarrow> (\<forall>ms b. enc ms = Some b \<longrightarrow> reads (Binary b) = ms)"

definition plain :: "(u8 list \<Rightarrow> 'm option) \<Rightarrow> (outbound_msg \<Rightarrow> 'm list) \<Rightarrow> payload \<Rightarrow> bool" where
  "plain dec reads p \<longleftrightarrow> (case dec (pl_proto p) of Some m \<Rightarrow> reads (Binary (pl_proto p)) = [m] | None \<Rightarrow> True)"

definition read_all :: "(outbound_msg \<Rightarrow> 'm list) \<Rightarrow> outbound_msg list \<Rightarrow> 'm list" where
  "read_all reads fs = concat (map reads fs)"

lemma read_all_simps [simp]:
  "read_all reads [] = []" "read_all reads (f # fs) = reads f @ read_all reads fs"
  "read_all reads (fs @ gs) = read_all reads fs @ read_all reads gs"
  by (simp_all add: read_all_def)

definition pending :: "(outbound_msg \<Rightarrow> 'm list) \<Rightarrow> u64 \<Rightarrow> encoding \<Rightarrow> string \<Rightarrow> broadcast_state \<Rightarrow> 'm list" where
  "pending reads c e t s =
     read_all reads (in_flight c e s @ map (frame_for (e = Protobuf)) (backlog t s))"

lemma decode_plain:
  "decode_all dec ps = Some ms \<Longrightarrow> \<forall>p\<in>set ps. plain dec reads p \<Longrightarrow> ms = read_all reads (map (frame_for True) ps)"
proof (induction ps arbitrary: ms)
  case (Cons p ps)
  then show ?case by (auto simp: plain_def frame_for_def split: option.splits)
qed simp

lemma packed_reads:
  assumes "unpacks dec enc reads" "\<forall>p\<in>set ps. plain dec reads p" "batched dec enc cm ps c"
    "dm_get (cm_conn_info cm) c = Some (tx, e)"
  shows "read_all reads [Binary (the (pack_batch_frame dec enc ps))] = read_all reads (map (frame_for (e = Protobuf)) ps)"
proof -
  obtain ms b where b: "decode_all dec ps = Some ms" "enc ms = Some b"
    using assms(3) by (auto simp: batched_def pack_batch_frame_def split: option.splits)
  have e: "e = Protobuf" using assms(3,4) by (simp add: batched_def use_batch_def)
  have "reads (Binary b) = ms" using assms(1) b(2) by (simp add: unpacks_def)
  with b e decode_plain [OF b(1) assms(2)] show ?thesis by (simp add: pack_batch_frame_def)
qed

lemma flush_pending:
  assumes inv: "pipe_inv (plain dec reads) s" and att: "attached c tx e t (bs_cm s)" and law: "unpacks dec enc reads"
  shows "pending reads c e t (flush_topic dec enc s) = pending reads c e t s"
proof (cases "bs_draining s")
  case (Cons x rest)
  obtain t' ps where x: "x = (t', ps)" by fastforce
  note d = pipe_invD [OF inv]
  have ci: "conn_inv (bs_cm s)" "dm_get (cm_conn_info (bs_cm s)) c = Some (tx, e)"
    "dm_set (cm_subscriptions (bs_cm s)) c = {t}" using att by (auto simp: attached_def)
  have good: "\<forall>p\<in>set ps. plain dec reads p" using d(9) [of t' ps] Cons x by auto
  show ?thesis
  proof (cases "bs_outgoing s = [] \<and> ps \<noteq> []")
    case True
    let ?fs = "concat (map (\<lambda>(w, wk). work_frames wk c e)
        (plan_topic dec enc (length (bs_workers s)) (bs_cm s) t' ps))"
    have "read_all reads ?fs = (if t' = t then read_all reads (map (frame_for (e = Protobuf)) ps) else [])"
      unfolding plan_frames [OF ci(1) d(2) ci(2)] ci(3) using packed_reads [OF law good _ ci(2)] by auto
    then show ?thesis using True Cons x
      by (simp add: flush_topic_def pending_def in_flight_def worker_of_def backlog_def)
  qed (use Cons x in \<open>auto simp: flush_topic_def pending_def in_flight_def worker_of_def backlog_def\<close>)
qed (simp add: flush_topic_def)

lemma dispatch_in_flight: "pipe_inv good s \<Longrightarrow> in_flight c e (dispatch s) = in_flight c e s"
proof (cases "bs_outgoing s")
  case (Cons x rest)
  assume inv: "pipe_inv good s"
  obtain w wk where x: "x = (w, wk)" by fastforce
  note d = pipe_invD [OF inv]
  have w: "w < length (bs_workers s)" "work_ok (length (bs_workers s)) w wk" "wq_open (bs_workers s ! w)"
    using d(5) [of w wk] d(3) [of w] Cons x by auto
  have "w \<noteq> worker_of c s \<Longrightarrow> work_frames wk c e = []"
    using w(2) by (intro frames_none) (auto simp: work_ok_def worker_of_def)
  with w Cons x show ?thesis
    by (auto simp: dispatch_def Let_def in_flight_def worker_of_def nth_list_update)
qed (simp add: dispatch_def)

lemma worker_delivers:
  assumes inv: "pipe_inv good s" and l: "listens c tx e t s"
  shows "put_on_queue dec enc tx s (Bc_Work w) @ in_flight c e (worker_recv w s) = in_flight c e s"
proof (cases "w < length (bs_workers s) \<and> wq_items (bs_workers s ! w) \<noteq> []")
  case False
  then have "worker_recv w s = s" by (auto simp: worker_recv_def split: list.splits)
  then show ?thesis by (simp add: put_on_queue_def)
next
  case True
  then obtain wk rest where q: "wq_items (bs_workers s ! w) = wk # rest" by (auto simp: neq_Nil_conv)
  note d = pipe_invD [OF inv]
  have ok: "work_ok (length (bs_workers s)) w wk" using d(4) [of w wk] True q by simp
  have att: "senders_distinct (bs_cm s)" "dm_get (cm_conn_info (bs_cm s)) c = Some (tx, e)"
    and room: "MAX_PENDING_BEFORE_FLUSH \<le> room (bs_cm s) tx"
    using l by (auto simp: listens_def attached_def)
  have "length (work_frames wk c e) \<le> MAX_PENDING_BEFORE_FLUSH"
    using ok by (auto simp: work_frames_def work_ok_def MAX_PENDING_BEFORE_FLUSH_def split: option.split)
  with room have all: "take (room (bs_cm s) tx) (work_frames wk c e) = work_frames wk c e" by simp
  have cm: "bs_cm (worker_recv w s) = fst (worker_run wk (bs_cm s, bs_stats s))"
    using True q by (simp add: worker_recv_def case_prod_beta)
  have put: "put_on_queue dec enc tx s (Bc_Work w) = work_frames wk c e"
    using worker_run_frames(2) [of wk "(bs_cm s, bs_stats s)" c tx e] ok att all
    by (simp add: put_on_queue_def cm work_ok_def)
  have "w \<noteq> worker_of c s \<Longrightarrow> work_frames wk c e = []"
    using ok by (intro frames_none) (auto simp: work_ok_def worker_of_def)
  with True q put show ?thesis
    by (auto simp: worker_recv_def case_prod_beta in_flight_def worker_of_def nth_list_update)
qed

lemma in_flight_cong:
  "bs_workers s' = bs_workers s \<Longrightarrow> bs_outgoing s' = bs_outgoing s \<Longrightarrow> in_flight c e s' = in_flight c e s"
  by (simp add: in_flight_def worker_of_def)

lemma tick_backlog: "backlog t (coalescer_tick s) = backlog t s"
proof -
  have "backlog t (start_flush (s\<lparr>bs_stats := x\<rparr>)) = backlog t s" if "idle s" for x
    using that start_flush_backlog [of "s\<lparr>bs_stats := x\<rparr>" t] backlog_cong [of "s\<lparr>bs_stats := x\<rparr>" s t]
    by (simp add: idle_def)
  then show ?thesis by (auto simp: coalescer_tick_def Let_def intro: backlog_cong)
qed

lemma shutdown_backlog: "backlog t (coalescer_shutdown s) = backlog t s"
proof -
  have "backlog t ((start_flush s)\<lparr>bs_exited := True\<rparr>) = backlog t s" if "idle s"
    using that start_flush_backlog [of s t] backlog_cong [of "(start_flush s)\<lparr>bs_exited := True\<rparr>" "start_flush s" t]
    by (simp add: idle_def)
  then show ?thesis by (auto simp: coalescer_shutdown_def intro: backlog_cong)
qed

text \<open>One step: what was on its way, and what it accepts, is what it delivers and what is on its way after it.\<close>

lemma step_pending:
  assumes inv: "pipe_inv (plain dec reads) s" and att: "attached c tx e t (bs_cm s)" and law: "unpacks dec enc reads"
    and room: "\<And>w. op = Bc_Work w \<Longrightarrow> MAX_PENDING_BEFORE_FLUSH \<le> room (bs_cm s) tx"
  shows "pending reads c e t s @ read_all reads (map (frame_for (e = Protobuf)) (pub_accepted t s op)) =
     read_all reads (put_on_queue dec enc tx s op) @ pending reads c e t (bc_step dec enc s op)"
proof (cases op)
  case (Bc_Publish topic p j)
  then show ?thesis
    by (auto simp: bs_publish_def Let_def backlog_def pending_def put_on_queue_def in_flight_def worker_of_def)
next
  case Bc_Recv
  have "in_flight c e (coalescer_recv s) = in_flight c e s"
    by (rule in_flight_cong) (auto simp: coalescer_recv_def start_flush_def Let_def split: list.splits)
  then show ?thesis using Bc_Recv coalescer_recv_backlog [OF pipe_invD(1) [OF inv]]
    by (simp add: pending_def put_on_queue_def)
next
  case Bc_Tick
  have "in_flight c e (coalescer_tick s) = in_flight c e s"
    by (rule in_flight_cong) (auto simp: coalescer_tick_def start_flush_def Let_def)
  then show ?thesis using Bc_Tick tick_backlog by (simp add: pending_def put_on_queue_def)
next
  case Bc_Shutdown
  have "in_flight c e (coalescer_shutdown s) = in_flight c e s"
    by (rule in_flight_cong) (auto simp: coalescer_shutdown_def start_flush_def)
  then show ?thesis using Bc_Shutdown shutdown_backlog by (simp add: pending_def put_on_queue_def)
next
  case Bc_Flush_Topic
  then show ?thesis using flush_pending [OF inv att law] by (simp add: put_on_queue_def)
next
  case Bc_Dispatch
  have "backlog t (dispatch s) = backlog t s"
    by (rule backlog_cong) (auto simp: dispatch_def Let_def split: list.splits)
  then show ?thesis using Bc_Dispatch dispatch_in_flight [OF inv] by (simp add: pending_def put_on_queue_def)
next
  case (Bc_Work w)
  have "listens c tx e t s" using att room [OF Bc_Work] by (simp add: listens_def)
  from worker_delivers [OF inv this, of dec enc w]
  have "read_all reads (put_on_queue dec enc tx s op) @ read_all reads (in_flight c e (worker_recv w s)) =
      read_all reads (in_flight c e s)" unfolding Bc_Work by (metis read_all_simps(3))
  moreover have "backlog t (worker_recv w s) = backlog t s"
    by (rule backlog_cong) (auto simp: worker_recv_def case_prod_beta split: list.splits)
  ultimately show ?thesis using Bc_Work by (simp add: pending_def)
next
  case (Bc_Conn x)
  then show ?thesis by (simp add: pending_def put_on_queue_def backlog_def in_flight_def worker_of_def)
next
  case (Bc_Client x)
  then show ?thesis by (simp add: pending_def put_on_queue_def backlog_def in_flight_def worker_of_def)
qed

lemma run_pending:
  assumes "always (listens c tx e t) (bc_step dec enc) s ops" and "pipe_inv (plain dec reads) s"
    and "unpacks dec enc reads" and "\<forall>op\<in>set ops. op_good (plain dec reads) op"
  shows "pending reads c e t s @ read_all reads (map (frame_for (e = Protobuf))
        (run_trace (bc_step dec enc) (pub_accepted t) s ops)) =
     read_all reads (run_trace (bc_step dec enc) (put_on_queue dec enc tx) s ops) @
     pending reads c e t (run_ops (bc_step dec enc) s ops) \<and>
   pipe_inv (plain dec reads) (run_ops (bc_step dec enc) s ops)"
  using assms
proof (induction ops arbitrary: s)
  case (Cons op ops)
  let ?s = "bc_step dec enc s op" and ?f = "\<lambda>ps. read_all reads (map (frame_for (e = Protobuf)) ps)"
  have l: "attached c tx e t (bs_cm s)" "MAX_PENDING_BEFORE_FLUSH \<le> room (bs_cm s) tx"
    using Cons.prems(1) by (auto simp: listens_def)
  have inv: "pipe_inv (plain dec reads) ?s"
    using Cons.prems(2,4) l(1) by (intro pipe_step) (auto simp: attached_def)
  note one = step_pending [OF Cons.prems(2) l(1) Cons.prems(3) l(2), of op]
  have rest: "always (listens c tx e t) (bc_step dec enc) ?s ops" "\<forall>op\<in>set ops. op_good (plain dec reads) op"
    using Cons.prems(1,4) by auto
  note IH = Cons.IH [OF rest(1) inv Cons.prems(3) rest(2)]
  have "pending reads c e t s @ ?f (run_trace (bc_step dec enc) (pub_accepted t) s (op # ops)) =
      (pending reads c e t s @ ?f (pub_accepted t s op)) @ ?f (run_trace (bc_step dec enc) (pub_accepted t) ?s ops)"
    by simp
  also have "\<dots> = read_all reads (put_on_queue dec enc tx s op) @
      (pending reads c e t ?s @ ?f (run_trace (bc_step dec enc) (pub_accepted t) ?s ops))"
    unfolding one by simp
  finally show ?case using IH by simp
qed simp

section \<open>The pipeline drains\<close>

text \<open>A worker changes nothing of the manager but the contents of queues.\<close>

definition queue_shape :: "conn_manager \<Rightarrow> sender \<Rightarrow> (nat \<times> bool) option" where
  "queue_shape cm tx = map_option (\<lambda>q. (ob_capacity q, ob_open q)) (dm_get (cm_queues cm) tx)"

abbreviation same_shape :: "conn_manager \<Rightarrow> conn_manager \<Rightarrow> bool" where
  "same_shape cm cm' \<equiv> cm'\<lparr>cm_queues := []\<rparr> = cm\<lparr>cm_queues := []\<rparr> \<and> queue_shape cm' = queue_shape cm"

lemma try_send_shape: "same_shape cm (snd (try_send tx msg cm))"
  by (auto simp: try_send_def queue_shape_def split: option.splits)

lemma send_payloads_shape: "same_shape (fst st) (fst (send_payloads tx b ps st))"
proof (induction tx b ps st rule: send_payloads.induct)
  case (2 tx b p ps cm d)
  let ?s = "try_send tx (frame_for b p) cm"
  show ?case
  proof (cases "fst ?s")
    case True
    have eq: "send_payloads tx b (p # ps) (cm, d) = send_payloads tx b ps (snd ?s, d + 1)"
      using True by (simp add: case_prod_beta)
    show ?thesis unfolding eq
      using 2 [OF refl prod.collapse True] try_send_shape [of tx "frame_for b p" cm] by simp
  next
    case False
    then show ?thesis using try_send_shape [of tx "frame_for b p" cm] by (simp add: case_prod_beta)
  qed
qed simp

lemma work_indiv_shape: "same_shape (fst st) (fst (work_indiv ps c st))"
  using send_payloads_shape by (auto simp: work_indiv_def Let_def case_prod_beta split: option.splits)

lemma work_batch_shape: "same_shape (fst st) (fst (work_batch b c st))"
  using try_send_shape by (auto simp: work_batch_def Let_def case_prod_beta split: option.splits)

lemma worker_run_shape: "same_shape (fst st) (fst (worker_run wk st))"
proof -
  have indiv: "same_shape cm (fst (fold (work_indiv ps) cs st))" if "same_shape cm (fst st)" for cm st ps cs
    by (rule fold_inv [where P = "\<lambda>st. same_shape cm (fst st)"]) (use that work_indiv_shape in \<open>auto intro: order.trans\<close>)
  have batch: "same_shape cm (fst (fold (work_batch b) cs st))" if "same_shape cm (fst st)" for cm st b cs
    by (rule fold_inv [where P = "\<lambda>st. same_shape cm (fst st)"]) (use that work_batch_shape in \<open>auto intro: order.trans\<close>)
  obtain cm stats where st: "st = (cm, stats)" by fastforce
  obtain cm1 d m where one: "fold (work_indiv (bw_payloads wk)) (bw_indiv_conn_ids wk) (cm, 0, 0) = (cm1, d, m)"
    by (metis prod_cases3)
  then have s1: "same_shape cm cm1" using indiv [where cm = cm and st = "(cm, 0, 0)" and ps = "bw_payloads wk" and cs = "bw_indiv_conn_ids wk"] by simp
  show ?thesis
  proof (cases "bw_batch_proto wk")
    case None
    then show ?thesis using s1 by (simp add: worker_run_def st one)
  next
    case (Some b)
    have "same_shape cm (fst (fold (work_batch b) (bw_batch_conn_ids wk) (cm1, d, m, 0)))"
      using batch [where cm = cm and st = "(cm1, d, m, 0)"] s1 by simp
    then show ?thesis using Some by (simp add: worker_run_def st one case_prod_beta)
  qed
qed

lemma attached_shape: "same_shape cm cm' \<Longrightarrow> attached c tx e t cm' = attached c tx e t cm"
proof -
  have strip: "attached c tx e t (cm\<lparr>cm_queues := []\<rparr>) = attached c tx e t cm" for cm
    by (simp add: attached_def conn_inv_def registered_def senders_distinct_def sender_of_def)
  show "same_shape cm cm' \<Longrightarrow> ?thesis" by (metis strip)
qed

definition roomy :: "conn_manager \<Rightarrow> sender \<Rightarrow> bool" where
  "roomy cm tx \<longleftrightarrow> (\<exists>k. queue_shape cm tx = Some (k, True) \<and> MAX_PENDING_BEFORE_FLUSH \<le> k)"

lemma room_roomy: "MAX_PENDING_BEFORE_FLUSH \<le> room cm tx \<Longrightarrow> roomy cm tx"
  by (auto simp: room_def roomy_def queue_shape_def MAX_PENDING_BEFORE_FLUSH_def split: option.splits if_splits)

lemma roomy_room: "roomy cm tx \<Longrightarrow> queue_of cm tx = [] \<Longrightarrow> MAX_PENDING_BEFORE_FLUSH \<le> room cm tx"
  by (auto simp: room_def roomy_def queue_shape_def queue_of_def)

lemma take_outbound_facts:
  "same_shape cm (take_outbound tx cm)"
  "queue_of (take_outbound tx cm) tx = tl (queue_of cm tx)"
  by (auto simp: take_outbound_def queue_shape_def queue_of_def fun_eq_iff option.map_comp comp_def
      split: option.splits)

text \<open>The write task empties the queue.\<close>

lemma put_client [simp]: "put_on_queue dec enc tx s (Bc_Client tx') = []"
  by (simp add: put_on_queue_def)

lemma client_catches_up:
  assumes "length (queue_of (bs_cm s) tx) \<le> k"
  shows "\<exists>cm'. run_ops (bc_step dec enc) s (replicate k (Bc_Client tx)) = s\<lparr>bs_cm := cm'\<rparr> \<and>
    same_shape (bs_cm s) cm' \<and> queue_of cm' tx = [] \<and>
    run_trace (bc_step dec enc) (put_on_queue dec enc tx) s (replicate k (Bc_Client tx)) = []"
  using assms
proof (induction k arbitrary: s)
  case 0
  then show ?case by (intro exI [where x = "bs_cm s"]) simp
next
  case (Suc k)
  let ?s = "s\<lparr>bs_cm := take_outbound tx (bs_cm s)\<rparr>"
  have "length (queue_of (bs_cm ?s) tx) \<le> k" using Suc.prems by (simp add: take_outbound_facts)
  from Suc.IH [OF this] obtain cm' where "run_ops (bc_step dec enc) ?s (replicate k (Bc_Client tx)) = ?s\<lparr>bs_cm := cm'\<rparr>"
    "same_shape (bs_cm ?s) cm'" "queue_of cm' tx = []"
    "run_trace (bc_step dec enc) (put_on_queue dec enc tx) ?s (replicate k (Bc_Client tx)) = []" by blast
  with take_outbound_facts(1) [of tx "bs_cm s"] show ?case
    by (intro exI [where x = cm']) simp
qed

text \<open>What is left to do, the earlier stages weighing more.\<close>

definition work_left :: "broadcast_state \<Rightarrow> nat \<times> nat \<times> nat \<times> nat \<times> nat" where
  "work_left s = (length (bs_inbox s), length (bs_buffer s), length (bs_draining s), length (bs_outgoing s),
     sum_list (map (length \<circ> wq_items) (bs_workers s)))"

abbreviation "less_left \<equiv> less_than <*lex*> less_than <*lex*> less_than <*lex*> less_than <*lex*> less_than"

definition drained :: "broadcast_state \<Rightarrow> bool" where
  "drained s \<longleftrightarrow> bs_inbox s = [] \<and> bs_buffer s = [] \<and> bs_draining s = [] \<and> bs_outgoing s = [] \<and>
     (\<forall>q\<in>set (bs_workers s). wq_items q = [])"

text \<open>The steps of the service's own tasks.\<close>

fun own_step :: "bc_op \<Rightarrow> bool" where
  "own_step Bc_Recv = True"
| "own_step Bc_Tick = True"
| "own_step Bc_Flush_Topic = True"
| "own_step Bc_Dispatch = True"
| "own_step (Bc_Work w) = True"
| "own_step op = False"

lemma some_step_works:
  assumes inv: "pipe_inv good s" and "\<not> drained s"
  shows "\<exists>op. own_step op \<and> (work_left (bc_step dec enc s op), work_left s) \<in> less_left"
proof -
  note d = pipe_invD [OF inv]
  consider (work) w where "w < length (bs_workers s)" "wq_items (bs_workers s ! w) \<noteq> []"
    | (dispatch) "\<forall>q\<in>set (bs_workers s). wq_items q = []" "bs_outgoing s \<noteq> []"
    | (flush) "bs_outgoing s = []" "bs_draining s \<noteq> []"
    | (tick) "bs_outgoing s = []" "bs_draining s = []" "bs_buffer s \<noteq> []"
    | (recv) "bs_outgoing s = []" "bs_draining s = []" "bs_buffer s = []" "bs_inbox s \<noteq> []"
    using assms(2) unfolding drained_def by (metis in_set_conv_nth)
  then show ?thesis
  proof cases
    case work
    then obtain wk rest where q: "wq_items (bs_workers s ! w) = wk # rest" by (auto simp: neq_Nil_conv)
    have "sum_list (map (length \<circ> wq_items) ((bs_workers s)[w := (bs_workers s ! w)\<lparr>wq_items := rest\<rparr>]))
        < sum_list (map (length \<circ> wq_items) (bs_workers s))"
    proof -
      have "map (length \<circ> wq_items) (bs_workers s) ! w = Suc (length rest)" using work q by simp
      moreover have "map (length \<circ> wq_items) (bs_workers s) ! w \<in> set (map (length \<circ> wq_items) (bs_workers s))"
        using work by (intro nth_mem) simp
      ultimately have "Suc (length rest) \<le> sum_list (map (length \<circ> wq_items) (bs_workers s))"
        by (metis member_le_sum_list zero_le)
      then show ?thesis using work q by (simp add: map_update sum_list_update comp_def)
    qed
    then have "(work_left (bc_step dec enc s (Bc_Work w)), work_left s) \<in> less_left"
      using work q by (simp add: worker_recv_def case_prod_beta work_left_def comp_def)
    then show ?thesis by (intro exI [where x = "Bc_Work w"]) simp
  next
    case dispatch
    then obtain w wk rest where o: "bs_outgoing s = (w, wk) # rest" by (auto simp: neq_Nil_conv)
    have w: "w < length (bs_workers s)" using d(5) [of w wk] o by simp
    then have "wq_items (bs_workers s ! w) = []" "wq_open (bs_workers s ! w)" using dispatch(1) d(3) by auto
    then show ?thesis using o
      by (intro exI [where x = Bc_Dispatch]) (simp add: dispatch_def Let_def work_left_def WORKER_QUEUE_CAPACITY_def)
  next
    case flush
    then obtain t ps rest where "bs_draining s = (t, ps) # rest" by (auto simp: neq_Nil_conv)
    then show ?thesis using flush(1)
      by (intro exI [where x = Bc_Flush_Topic]) (simp add: flush_topic_def work_left_def)
  next
    case tick
    then have "idle s" using d(6) by (auto simp: idle_def)
    then show ?thesis using tick
      by (intro exI [where x = Bc_Tick]) (simp add: coalescer_tick_def start_flush_def Let_def work_left_def)
  next
    case recv
    then have "idle s" using d(6) by (auto simp: idle_def)
    moreover obtain p rest where "bs_inbox s = p # rest" using recv by (auto simp: neq_Nil_conv)
    ultimately show ?thesis
      by (intro exI [where x = Bc_Recv]) (simp add: coalescer_recv_def start_flush_def Let_def work_left_def)
  qed
qed

lemma own_step_cm:
  assumes "own_step op"
  shows "same_shape (bs_cm s) (bs_cm (bc_step dec enc s op))" "op_good good op" "pub_accepted t s op = []"
proof -
  have w: "same_shape (bs_cm s) (bs_cm (worker_recv w s))" for w
    using worker_run_shape [where st = "(bs_cm s, bs_stats s)"] by (auto simp: worker_recv_def case_prod_beta split: list.splits)
  from assms show "same_shape (bs_cm s) (bs_cm (bc_step dec enc s op))"
  proof (cases op)
    case (Bc_Work w)
    then show ?thesis using w by simp
  qed (auto simp: coalescer_recv_def coalescer_tick_def start_flush_def flush_topic_def dispatch_def Let_def split: list.splits)
  from assms show "op_good good op" "pub_accepted t s op = []" by (cases op; simp)+
qed

text \<open>A round: one step of a task, and the client reads what has arrived.\<close>

definition tasks :: "sender \<Rightarrow> bc_op \<Rightarrow> bool" where
  "tasks tx op \<longleftrightarrow> own_step op \<or> op = Bc_Client tx"

lemma round:
  assumes inv: "pipe_inv (plain dec reads) s" and l: "listens c tx e t s" and law: "unpacks dec enc reads"
    and "\<not> drained s"
  obtains ops s' where "list_all (tasks tx) ops" "s' = run_ops (bc_step dec enc) s ops"
    "pipe_inv (plain dec reads) s'" "listens c tx e t s'" "(work_left s', work_left s) \<in> less_left"
    "pending reads c e t s = read_all reads (run_trace (bc_step dec enc) (put_on_queue dec enc tx) s ops) @ pending reads c e t s'"
proof -
  obtain op where op: "own_step op" "(work_left (bc_step dec enc s op), work_left s) \<in> less_left"
    using some_step_works [OF inv assms(4)] by blast
  let ?s = "bc_step dec enc s op" and ?k = "length (queue_of (bs_cm (bc_step dec enc s op)) tx)"
  have att: "attached c tx e t (bs_cm s)" and room: "MAX_PENDING_BEFORE_FLUSH \<le> room (bs_cm s) tx"
    using l by (auto simp: listens_def)
  have inv1: "pipe_inv (plain dec reads) ?s"
    using inv att own_step_cm(2) [OF op(1)] by (intro pipe_step) (auto simp: attached_def)
  note one = step_pending [OF inv att law room, of op, unfolded own_step_cm(3) [OF op(1)]]
  obtain cm' where catch: "run_ops (bc_step dec enc) ?s (replicate ?k (Bc_Client tx)) = ?s\<lparr>bs_cm := cm'\<rparr>"
    "same_shape (bs_cm ?s) cm'" "queue_of cm' tx = []"
    "run_trace (bc_step dec enc) (put_on_queue dec enc tx) ?s (replicate ?k (Bc_Client tx)) = []"
    using client_catches_up [of ?s tx ?k dec enc] by auto
  let ?t = "?s\<lparr>bs_cm := cm'\<rparr>"
  have shape: "same_shape (bs_cm s) cm'" using catch(2) own_step_cm(1) [OF op(1), where s = s and dec = dec and enc = enc] by simp
  have "roomy cm' tx" using shape room_roomy [OF room] by (simp add: roomy_def)
  then have "listens c tx e t ?t"
    using roomy_room catch(3) attached_shape [OF shape] att by (simp add: listens_def)
  moreover have "pipe_inv (plain dec reads) ?t" using inv1 by (auto simp: pipe_inv_def bc_inv_def)
  moreover have "work_left ?t = work_left ?s" by (simp add: work_left_def)
  moreover have "pending reads c e t ?t = pending reads c e t ?s"
    by (simp add: pending_def backlog_def in_flight_def worker_of_def)
  ultimately show ?thesis
    using op one catch by (intro that [of "op # replicate ?k (Bc_Client tx)" ?t]) (simp_all add: tasks_def list_all_iff)
qed

lemma drains:
  assumes "pipe_inv (plain dec reads) s" and "listens c tx e t s" and law: "unpacks dec enc reads"
  shows "\<exists>ops. list_all (tasks tx) ops \<and> drained (run_ops (bc_step dec enc) s ops) \<and>
    read_all reads (run_trace (bc_step dec enc) (put_on_queue dec enc tx) s ops) = pending reads c e t s"
proof -
  have "wf (inv_image less_left work_left)" by (intro wf_inv_image wf_lex_prod wf_less_than)
  then show ?thesis using assms(1,2)
  proof (induction s rule: wf_induct_rule)
    case (less s)
    show ?case
    proof (cases "drained s")
      case True
      then have "pending reads c e t s = []"
        using pipe_invD(2) [OF less(2)] by (simp add: drained_def pending_def in_flight_def backlog_def worker_of_def)
      with True show ?thesis by (intro exI [where x = "[]"]) simp
    next
      case False
      obtain ops s' where r: "list_all (tasks tx) ops" "s' = run_ops (bc_step dec enc) s ops"
        "pipe_inv (plain dec reads) s'" "listens c tx e t s'" "(work_left s', work_left s) \<in> less_left"
        "pending reads c e t s = read_all reads (run_trace (bc_step dec enc) (put_on_queue dec enc tx) s ops) @ pending reads c e t s'"
        using round [OF less(2,3) law False] by metis
      obtain more where m: "list_all (tasks tx) more" "drained (run_ops (bc_step dec enc) s' more)"
        "read_all reads (run_trace (bc_step dec enc) (put_on_queue dec enc tx) s' more) = pending reads c e t s'"
        using less(1) [of s'] r(3-5) unfolding in_inv_image by blast
      show ?thesis using r m
        by (intro exI [where x = "ops @ more"]) (simp add: run_ops_append run_trace_append)
    qed
  qed
qed

text \<open>
  C13. What is accepted arrives, once and in order. Take a connection that, in all states of a run
  of the service, listens to one topic: it is registered with a queue of its own, subscribed to
  that topic only, and its write task keeps up, so that its queue has room for the 256 frames one
  work item can bring. Whatever the interleaving of publishers, coalescer, ticks, shutdown, workers
  and the other connections, what the workers have put on its queue reads as a prefix of what the
  accepted publishes of the topic said, each in publishing order; and steps of the service's own
  tasks and of the write task can always follow after which all of it is there, also after the
  shutdown. A packed frame reads as the messages packed into it (the two laws on \<open>reads\<close>).
\<close>
theorem accepted_publishes_arrive:
  assumes "always (listens c tx e t) (bc_step dec enc) (bs_start par cm) ops"
    and "unpacks dec enc reads" and "list_all (op_good (plain dec reads)) ops"
    and "sent = read_all reads (map (frame_for (e = Protobuf))
           (run_trace (bc_step dec enc) (pub_accepted t) (bs_start par cm) ops))"
  shows "(\<exists>rest. read_all reads (run_trace (bc_step dec enc) (put_on_queue dec enc tx) (bs_start par cm) ops) @ rest = sent) \<and>
    (\<exists>more. list_all (tasks tx) more \<and>
       read_all reads (run_trace (bc_step dec enc) (put_on_queue dec enc tx) (bs_start par cm) (ops @ more)) = sent)"
proof -
  let ?s = "run_ops (bc_step dec enc) (bs_start par cm) ops"
  have "pending reads c e t (bs_start par cm) = []"
    by (simp add: pending_def in_flight_def backlog_def worker_of_def bs_start_def)
  moreover have "\<forall>op\<in>set ops. op_good (plain dec reads) op" using assms(3) by (simp add: list_all_iff)
  ultimately have run: "sent = read_all reads (run_trace (bc_step dec enc) (put_on_queue dec enc tx) (bs_start par cm) ops) @
      pending reads c e t ?s" "pipe_inv (plain dec reads) ?s"
    using run_pending [OF assms(1) start_pipe assms(2)] assms(4) by simp_all
  from drains [OF run(2) always_start(2) [OF assms(1)] assms(2)]
  obtain more where "list_all (tasks tx) more"
    "read_all reads (run_trace (bc_step dec enc) (put_on_queue dec enc tx) ?s more) = pending reads c e t ?s" by blast
  with run(1) show ?thesis by (auto simp: run_trace_append)
qed

definition roomy_demo :: conn_manager where
  "roomy_demo = batch_demo\<lparr>cm_queues := [(0, \<lparr>ob_capacity = 2048, ob_open = True, ob_items = []\<rparr>),
     (1, \<lparr>ob_capacity = 2048, ob_open = True, ob_items = []\<rparr>)]\<rparr>"

definition burst_ops :: "bc_op list" where
  "burst_ops = [Bc_Publish ''t'' [1] ''a'', Bc_Recv, Bc_Publish ''u'' [9] ''x'', Bc_Publish ''t'' [2] ''b'', Bc_Recv, Bc_Recv,
     Bc_Tick, Bc_Flush_Topic, Bc_Dispatch]"

definition decode_demo :: "u8 list \<Rightarrow> u8 option" where
  "decode_demo b = (if length b = 1 then Some (hd b) else None)"

definition read_demo :: "outbound_msg \<Rightarrow> u8 list" where
  "read_demo f = (case f of Binary b \<Rightarrow> b | _ \<Rightarrow> [])"

lemma burst_listens:
  "always (listens 2 1 Protobuf ''t'') (bc_step decode_demo Some) (bs_start None roomy_demo) burst_ops"
proof -
  have info: "cm_conn_info roomy_demo = [(1, 0, Unknown), (2, 1, Protobuf)]" "dm_set (cm_subscriptions roomy_demo) 2 = {''t''}"
    by code_simp+
  have "conn_inv roomy_demo"
    unfolding roomy_demo_def by (rule conn_inv_cong [OF _ _ _ _ _ batch_demo_inv]) simp_all
  then have "attached 2 1 Protobuf ''t'' roomy_demo"
    using info by (auto simp: attached_def senders_distinct_def sender_of_def dm_get_def split: if_splits)
  moreover have "MAX_PENDING_BEFORE_FLUSH \<le> room roomy_demo 1" by code_simp
  ultimately have l: "listens 2 1 Protobuf ''t'' s" if "bs_cm s = roomy_demo" for s
    using that by (simp add: listens_def)
  have still: "bs_cm (bc_step decode_demo Some s op) = bs_cm s" if "op \<in> set burst_ops" for s op
    using that by (auto simp: burst_ops_def bs_publish_def coalescer_recv_def coalescer_tick_def start_flush_def
        flush_topic_def dispatch_def Let_def split: list.splits)
  have "always (listens 2 1 Protobuf ''t'') (bc_step decode_demo Some) s ops"
    if "bs_cm s = roomy_demo" "set ops \<subseteq> set burst_ops" for s ops
    using that by (induction ops arbitrary: s) (auto simp: l still simp del: One_nat_def)
  then show ?thesis by (simp add: bs_start_def)
qed

lemma accepted_publishes_arrive_witness:
  "\<exists>more. list_all (tasks 1) more \<and> read_all read_demo (run_trace (bc_step decode_demo Some)
     (put_on_queue decode_demo Some 1) (bs_start None roomy_demo) (burst_ops @ more)) = [1, 2]"
proof -
  have law: "unpacks decode_demo Some read_demo" by (simp add: unpacks_def read_demo_def)
  have good: "list_all (op_good (plain decode_demo read_demo)) burst_ops" by code_simp
  have sent: "[1, 2] = read_all read_demo (map (frame_for (Protobuf = Protobuf))
      (run_trace (bc_step decode_demo Some) (pub_accepted ''t'') (bs_start None roomy_demo) burst_ops))"
    by (simp add: burst_ops_def read_demo_def frame_for_def bs_publish_def publish_accepted_def bs_start_def coalescer_recv_def idle_def Let_def COALESCE_QUEUE_CAPACITY_def MAX_PENDING_BEFORE_FLUSH_def dm_or_insert_def)
  from accepted_publishes_arrive [OF burst_listens law good sent] show ?thesis by blast
qed

text \<open>
  Subscribers are resolved at the flush, so a connection that joins a topic within the
  coalescing window is also sent a payload published before it joined.
\<close>
lemma late_joiner_gets_earlier_publish:
  "\<exists>s. s = run_ops (bc_step Some (Some \<circ> concat)) (bs_start None (unsubscribe 1 ''t'' fan_demo))
       [Bc_Publish ''t'' [9] ''j'', Bc_Recv, Bc_Conn (Subscribe 1 ''t''), Bc_Tick, Bc_Flush_Topic, Bc_Dispatch,
        Bc_Dispatch, Bc_Work 0, Bc_Work 1] \<and>
     1 \<notin> dm_set (cm_topic_subscribers (unsubscribe 1 ''t'' fan_demo)) ''t'' \<and>
     queue_of (bs_cm s) 0 = [Text ''j'']"
  by (rule exI, rule conjI [OF refl]) code_simp

end
