(* ===== verification/Topics.thy ===== *)
theory Topics
  imports Broadcast Perm_Cache Json_Value
begin

text \<open>
  Topics and the bridge between the nodes (\<open>src/server-rs/src/ws/topics.rs\<close>, and of
  \<open>src/server-rs/src/services/nats.rs\<close> what decides whether an event leaves the region). A node is
  one record: its broadcast pipeline with the connection manager in it, the topics its Redis
  subscriber is subscribed to, and what it has handed to Redis and to NATS. A protobuf message is
  its encoding. Redis and NATS deliver bytes from one node to the other; what they drop is left
  open: a theorem about a delivery starts from a message that arrives.
\<close>

section \<open>Topic names\<close>

definition channel_topic :: "int \<Rightarrow> string" where
  "channel_topic channel_id = ''channel:'' @ int_str channel_id"

definition channel_live_topic :: "int \<Rightarrow> string" where
  "channel_live_topic channel_id = ''channel_live:'' @ int_str channel_id"

definition channel_notify_topic :: "int \<Rightarrow> string" where
  "channel_notify_topic channel_id = ''channel_notify:'' @ int_str channel_id"

definition voice_topic :: "int \<Rightarrow> string" where
  "voice_topic channel_id = ''voice:'' @ int_str channel_id"

definition focused_channel_topics :: "int \<Rightarrow> string list" where
  "focused_channel_topics channel_id = [channel_live_topic channel_id, channel_notify_topic channel_id]"

definition all_channel_topics :: "int \<Rightarrow> string list" where
  "all_channel_topics channel_id =
     [channel_topic channel_id, channel_live_topic channel_id, channel_notify_topic channel_id, voice_topic channel_id]"

definition presence_topic :: "int \<Rightarrow> string" where
  "presence_topic server_id = ''presence:'' @ int_str server_id"

definition user_topic :: "int \<Rightarrow> string" where
  "user_topic user_id = ''user:'' @ int_str user_id"

definition system_topic :: string where
  "system_topic = ''broadcast:system''"

definition is_realtime_scope_topic :: "string \<Rightarrow> bool" where
  "is_realtime_scope_topic topic \<longleftrightarrow>
     starts_with topic ''channel:'' \<or> starts_with topic ''channel_live:'' \<or> starts_with topic ''channel_notify:''
     \<or> starts_with topic ''voice:'' \<or> starts_with topic ''presence:'' \<or> starts_with topic ''user:''"

definition OPS_DRAIN_TOPIC :: string where "OPS_DRAIN_TOPIC = ''ops:drain''"

section \<open>UTF-8\<close>

definition cont_byte :: "u8 \<Rightarrow> bool" where
  "cont_byte b \<longleftrightarrow> 0x80 \<le> b \<and> b \<le> 0xBF"

text \<open>\<open>str::from_utf8\<close> succeeds.\<close>

fun utf8_ok :: "u8 list \<Rightarrow> bool" where
  "utf8_ok [] = True"
| "utf8_ok (a # bs) =
     (if a < 0x80 then utf8_ok bs
      else case bs of
        [] \<Rightarrow> False
      | b # cs \<Rightarrow>
          if 0xC2 \<le> a \<and> a \<le> 0xDF then cont_byte b \<and> utf8_ok cs
          else case cs of
            [] \<Rightarrow> False
          | c # ds \<Rightarrow>
              if 0xE0 \<le> a \<and> a \<le> 0xEF
              then (if a = 0xE0 then 0xA0 \<le> b else 0x80 \<le> b) \<and> (if a = 0xED then b \<le> 0x9F else b \<le> 0xBF)
                   \<and> cont_byte c \<and> utf8_ok ds
              else case ds of
                [] \<Rightarrow> False
              | d # es \<Rightarrow>
                  0xF0 \<le> a \<and> a \<le> 0xF4
                  \<and> (if a = 0xF0 then 0x90 \<le> b else 0x80 \<le> b) \<and> (if a = 0xF4 then b \<le> 0x8F else b \<le> 0xBF)
                  \<and> cont_byte c \<and> cont_byte d \<and> utf8_ok es)"

definition bytes_of :: "string \<Rightarrow> u8 list" where
  "bytes_of s = map of_char s"

definition str_of :: "u8 list \<Rightarrow> string" where
  "str_of bs = map (\<lambda>b. char_of (unat b)) bs"

section \<open>Envelopes\<close>

definition redis_proto_envelope :: "string \<Rightarrow> u8 list \<Rightarrow> u8 list" where
  "redis_proto_envelope node_id proto_bytes = of_nat (length node_id) # bytes_of node_id @ proto_bytes"

definition parse_redis_proto_envelope :: "u8 list \<Rightarrow> (string \<times> u8 list) option" where
  "parse_redis_proto_envelope data =
     (case data of
        [] \<Rightarrow> None
      | n # rest \<Rightarrow>
          (let node_len = unat n
           in if length data < 1 + node_len then None
              else if \<not> utf8_ok (take node_len rest) then None
              else Some (str_of (take node_len rest), drop node_len rest)))"

definition redis_json_envelope :: "string \<Rightarrow> string \<Rightarrow> string" where
  "redis_json_envelope node_id json = node_id @ CHR 0x0A # json"

definition parse_json_envelope :: "string \<Rightarrow> string \<times> string" where
  "parse_json_envelope payload =
     (case dropWhile (\<lambda>c. c \<noteq> CHR 0x0A) payload of
        _ # json \<Rightarrow> (takeWhile (\<lambda>c. c \<noteq> CHR 0x0A) payload, json)
      | [] \<Rightarrow> ([], payload))"

section \<open>A node\<close>

record node_runtime_info =
  ni_droplet_id :: "string option"
  ni_name :: "string option"
  ni_public_ip :: "string option"
  ni_region :: "string option"

text \<open>\<open>CrossRegionEvent\<close>, but for its timestamp.\<close>

record cross_region_event =
  xr_origin_region :: string
  xr_event_subject :: string
  xr_payload :: "u8 list"

text \<open>
  \<open>nd_nats\<close> is the region of the bridge, if one is configured; \<open>nd_redis_faults\<close> says which calls
  of the Redis subscriber fail (their errors are ignored by the code).
\<close>

record node =
  nd_node_id :: string
  nd_info :: node_runtime_info
  nd_draining :: bool
  nd_broadcast :: broadcast_state
  nd_redis_faults :: "bool list"
  nd_redis_subs :: "string list"
  nd_redis_out :: "(string \<times> u8 list) list"
  nd_nats :: "string option"
  nd_nats_out :: "(string \<times> cross_region_event) list"

definition node_ws :: "'a node_scheme \<Rightarrow> conn_manager" where
  "node_ws nd = bs_cm (nd_broadcast nd)"

definition on_ws :: "(conn_manager \<Rightarrow> conn_manager) \<Rightarrow> 'a node_scheme \<Rightarrow> 'a node_scheme" where
  "on_ws f nd = nd\<lparr>nd_broadcast := (nd_broadcast nd)\<lparr>bs_cm := f (bs_cm (nd_broadcast nd))\<rparr>\<rparr>"

section \<open>Publishing\<close>

definition relayed_prefixes :: "string list" where
  "relayed_prefixes = [''channel:'']"

definition should_relay :: "string \<Rightarrow> bool" where
  "should_relay subject \<longleftrightarrow> list_ex (\<lambda>p. starts_with subject p) relayed_prefixes"

definition xr_subject :: "string \<Rightarrow> string" where
  "xr_subject region = ''verdant.xr.'' @ region"

definition publish_xr :: "string \<Rightarrow> string \<Rightarrow> u8 list \<Rightarrow> 'a node_scheme \<Rightarrow> 'a node_scheme" where
  "publish_xr origin_region subject payload nd =
     (if \<not> should_relay subject then nd
      else nd\<lparr>nd_nats_out := nd_nats_out nd @
        [(xr_subject origin_region,
          \<lparr>xr_origin_region = origin_region, xr_event_subject = subject, xr_payload = payload\<rparr>)]\<rparr>)"

definition redis_publish :: "string \<Rightarrow> u8 list \<Rightarrow> 'a node_scheme \<Rightarrow> 'a node_scheme" where
  "redis_publish topic payload nd = nd\<lparr>nd_redis_out := nd_redis_out nd @ [(topic, payload)]\<rparr>"

text \<open>The part \<open>publish\<close> and \<open>publish_except\<close> share: Redis, and NATS if there is a bridge.\<close>

definition publish_remote :: "string \<Rightarrow> u8 list \<Rightarrow> 'a node_scheme \<Rightarrow> 'a node_scheme" where
  "publish_remote topic proto_bytes nd =
     (let envelope = redis_proto_envelope (nd_node_id nd) proto_bytes;
          nd = (case nd_nats nd of Some region \<Rightarrow> publish_xr region topic envelope nd | None \<Rightarrow> nd)
      in redis_publish topic envelope nd)"

definition publish :: "string \<Rightarrow> string \<Rightarrow> u8 list \<Rightarrow> 'a node_scheme \<Rightarrow> 'a node_scheme" where
  "publish topic json_text proto_bytes nd =
     publish_remote topic proto_bytes
       (nd\<lparr>nd_broadcast := snd (bs_publish topic proto_bytes json_text (nd_broadcast nd))\<rparr>)"

definition publish_json :: "string \<Rightarrow> string \<Rightarrow> 'a node_scheme \<Rightarrow> 'a node_scheme" where
  "publish_json topic json_text nd =
     redis_publish topic (bytes_of (redis_json_envelope (nd_node_id nd) json_text))
       (on_ws (\<lambda>ws. snd (publish_local topic (Text json_text) None ws)) nd)"

definition publish_to_topics :: "string list \<Rightarrow> string \<Rightarrow> u8 list \<Rightarrow> 'a node_scheme \<Rightarrow> 'a node_scheme" where
  "publish_to_topics topics json_text proto_bytes nd =
     fold (\<lambda>topic. publish topic json_text proto_bytes) topics nd"

definition publish_to_presence :: "int \<Rightarrow> string \<Rightarrow> u8 list \<Rightarrow> 'a node_scheme \<Rightarrow> 'a node_scheme" where
  "publish_to_presence server_id json_text proto_bytes nd =
     publish (presence_topic server_id) json_text proto_bytes nd"

definition publish_feed_scoped ::
  "permission_cache \<Rightarrow> int \<Rightarrow> int list \<Rightarrow> string \<Rightarrow> u8 list \<Rightarrow> 'a node_scheme \<Rightarrow> 'a node_scheme" where
  "publish_feed_scoped permissions server_id visible_role_ids json_text proto_bytes nd =
     (if visible_role_ids = [] then publish (presence_topic server_id) json_text proto_bytes nd
      else
        (let allowed = hs_of_list visible_role_ids;
             entitled = collect_entitled_online_members permissions server_id allowed
         in fold (\<lambda>user_id. publish (user_topic user_id) json_text proto_bytes) entitled nd))"

definition publish_except :: "string \<Rightarrow> string \<Rightarrow> u8 list \<Rightarrow> u64 \<Rightarrow> 'a node_scheme \<Rightarrow> 'a node_scheme" where
  "publish_except topic json_text proto_bytes exclude_conn nd =
     publish_remote topic proto_bytes
       (on_ws (\<lambda>ws. snd (publish_local_except topic (Text json_text) (Some proto_bytes) exclude_conn ws)) nd)"

section \<open>Subscriptions\<close>

definition redis_sub_call :: "(string list \<Rightarrow> string list) \<Rightarrow> 'a node_scheme \<Rightarrow> 'a node_scheme" where
  "redis_sub_call f nd =
     (let nd' = nd\<lparr>nd_redis_faults := tl (nd_redis_faults nd)\<rparr>
      in if nd_redis_faults nd \<noteq> [] \<and> hd (nd_redis_faults nd) then nd'
         else nd'\<lparr>nd_redis_subs := f (nd_redis_subs nd)\<rparr>)"

definition redis_subscribe :: "string \<Rightarrow> 'a node_scheme \<Rightarrow> 'a node_scheme" where
  "redis_subscribe topic nd = redis_sub_call (hs_insert topic) nd"

definition redis_unsubscribe :: "string \<Rightarrow> 'a node_scheme \<Rightarrow> 'a node_scheme" where
  "redis_unsubscribe topic nd = redis_sub_call (hs_remove topic) nd"

definition redis_unsubscribe_if_empty :: "string \<Rightarrow> 'a node_scheme \<Rightarrow> 'a node_scheme" where
  "redis_unsubscribe_if_empty topic nd =
     (let empty = (case dm_get (cm_topic_subscribers (node_ws nd)) topic of Some s \<Rightarrow> s = [] | None \<Rightarrow> True)
      in if empty then redis_unsubscribe topic nd else nd)"

definition cleanup_node_topic :: "string \<Rightarrow> 'a node_scheme \<Rightarrow> 'a node_scheme" where
  "cleanup_node_topic topic nd = redis_unsubscribe topic (on_ws (cleanup_topic topic) nd)"

definition subscribe_connection :: "u64 \<Rightarrow> string list \<Rightarrow> 'a node_scheme \<Rightarrow> 'a node_scheme" where
  "subscribe_connection conn_id topics nd =
     fold (\<lambda>topic nd. redis_subscribe topic (on_ws (subscribe conn_id topic) nd)) topics nd"

definition unsubscribe_connection :: "u64 \<Rightarrow> string list \<Rightarrow> 'a node_scheme \<Rightarrow> 'a node_scheme" where
  "unsubscribe_connection conn_id topics nd =
     fold (\<lambda>topic nd. redis_unsubscribe_if_empty topic (on_ws (unsubscribe conn_id topic) nd)) topics nd"

definition subscribe_user :: "int \<Rightarrow> string list \<Rightarrow> 'a node_scheme \<Rightarrow> 'a node_scheme" where
  "subscribe_user user_id topics nd =
     fold (\<lambda>conn_id. subscribe_connection conn_id topics) (get_user_conn_ids (node_ws nd) user_id) nd"

text \<open>Every connection of the user leaves every one of the topics; then the idle topics go.\<close>

definition unsubscribe_all :: "int \<Rightarrow> string list \<Rightarrow> 'a node_scheme \<Rightarrow> 'a node_scheme" where
  "unsubscribe_all user_id topics nd =
     (let conn_ids = get_user_conn_ids (node_ws nd) user_id;
          nd = on_ws (fold (\<lambda>conn_id ws. fold (unsubscribe conn_id) topics ws) conn_ids) nd
      in fold redis_unsubscribe_if_empty topics nd)"

definition unsubscribe_user_from_server :: "int \<Rightarrow> int \<Rightarrow> int list \<Rightarrow> 'a node_scheme \<Rightarrow> 'a node_scheme" where
  "unsubscribe_user_from_server user_id server_id channel_ids nd =
     unsubscribe_all user_id (presence_topic server_id # concat (map all_channel_topics channel_ids)) nd"

definition unsubscribe_user_from_channel :: "int \<Rightarrow> int \<Rightarrow> 'a node_scheme \<Rightarrow> 'a node_scheme" where
  "unsubscribe_user_from_channel user_id channel_id nd = unsubscribe_all user_id (all_channel_topics channel_id) nd"

section \<open>Draining\<close>

record drain_command =
  dc_target_node_id :: "string option"
  dc_target_droplet_id :: "string option"
  dc_target_public_ip :: "string option"
  dc_target_name :: "string option"
  dc_reason :: "string option"
  dc_reconnect_after_ms :: "nat option"
  dc_close_after_ms :: "nat option"

definition DEFAULT_DRAIN_CLOSE_AFTER_MS :: nat where "DEFAULT_DRAIN_CLOSE_AFTER_MS = 750"
definition MAX_DRAIN_DELAY_MS :: nat where "MAX_DRAIN_DELAY_MS = 30000"

definition server_draining_json :: "string \<Rightarrow> nat \<Rightarrow> nat \<Rightarrow> json" where
  "server_draining_json reason reconnect_after_ms close_after_ms =
     Json_Object [(''op'', Json_String ''SERVER_DRAINING''),
       (''d'', Json_Object [(''reason'', Json_String reason),
         (''reconnectAfterMs'', Json_Number (Num_Int (int reconnect_after_ms))),
         (''closeAfterMs'', Json_Number (Num_Int (int close_after_ms)))])]"

definition drain_reason_char :: "char \<Rightarrow> bool" where
  "drain_reason_char c \<longleftrightarrow> ascii_alnum c \<or> c = CHR ''-'' \<or> c = CHR ''_'' \<or> c = CHR '' ''"

definition sanitize_drain_reason :: "string option \<Rightarrow> string" where
  "sanitize_drain_reason reason =
     (let cleaned = take 64 (filter drain_reason_char (case reason of Some r \<Rightarrow> r | None \<Rightarrow> ''zdt''))
      in if str_trim cleaned = [] then ''zdt'' else cleaned)"

definition drain_targets_node :: "string \<Rightarrow> node_runtime_info \<Rightarrow> drain_command \<Rightarrow> bool" where
  "drain_targets_node node_id info cmd =
     (if dc_target_node_id cmd = Some node_id then True
      else if dc_target_droplet_id cmd \<noteq> None \<and> ni_droplet_id info = dc_target_droplet_id cmd then True
      else if dc_target_public_ip cmd \<noteq> None \<and> ni_public_ip info = dc_target_public_ip cmd then True
      else if dc_target_name cmd \<noteq> None \<and> ni_name info = dc_target_name cmd then True
      else False)"

definition command_targets_node :: "'a node_scheme \<Rightarrow> drain_command \<Rightarrow> bool" where
  "command_targets_node nd cmd = drain_targets_node (nd_node_id nd) (nd_info nd) cmd"

text \<open>
  \<open>handle_drain_command\<close> sleeps between announcing the drain and closing the connections: it is two
  steps. The first yields the delay and the connections to close; \<open>print\<close> is \<open>Value::to_string\<close>.
\<close>

definition drain_begin ::
  "(json \<Rightarrow> string) \<Rightarrow> drain_command \<Rightarrow> 'a node_scheme \<Rightarrow> (nat \<times> u64 list) option \<times> 'a node_scheme" where
  "drain_begin print cmd nd =
     (if \<not> command_targets_node nd cmd then (None, nd)
      else if nd_draining nd then (None, nd)
      else
        (let nd = nd\<lparr>nd_draining := True\<rparr>;
             reconnect_after_ms = min (case dc_reconnect_after_ms cmd of Some n \<Rightarrow> n | None \<Rightarrow> 0) 5000;
             close_after_ms = max 100 (min MAX_DRAIN_DELAY_MS
               (case dc_close_after_ms cmd of Some n \<Rightarrow> n | None \<Rightarrow> DEFAULT_DRAIN_CLOSE_AFTER_MS));
             reason = sanitize_drain_reason (dc_reason cmd);
             event = Text (print (server_draining_json reason reconnect_after_ms close_after_ms));
             conn_ids = all_conn_ids (node_ws nd)
         in (Some (close_after_ms, conn_ids), on_ws (fold (\<lambda>conn_id. send_to conn_id event) conn_ids) nd)))"

definition drain_close :: "u64 list \<Rightarrow> 'a node_scheme \<Rightarrow> 'a node_scheme" where
  "drain_close conn_ids nd =
     on_ws (fold (\<lambda>conn_id. send_to conn_id (Close 1001 ''Server draining'')) conn_ids) nd"

section \<open>The bridge\<close>

text \<open>
  One message of the Redis subscriber; \<open>parse_drain\<close> is the derived \<open>Deserialize\<close> of
  \<open>DrainCommand\<close>. A drain command spawns the handler, whose first step is taken here.
\<close>

definition deliver_remote_proto :: "string \<Rightarrow> u8 list \<Rightarrow> 'a node_scheme \<Rightarrow> 'a node_scheme" where
  "deliver_remote_proto topic proto_bytes nd =
     on_ws (\<lambda>ws. snd (fold (publish_one (\<lambda>_. Binary proto_bytes)) (topic_conns ws topic) (0, ws))) nd"

definition deliver_remote_json :: "string \<Rightarrow> u8 list \<Rightarrow> 'a node_scheme \<Rightarrow> 'a node_scheme" where
  "deliver_remote_json topic raw_bytes nd =
     (if utf8_ok raw_bytes then
        (case parse_json_envelope (str_of raw_bytes) of
           (origin_node, json_payload) \<Rightarrow>
             if origin_node = nd_node_id nd then nd
             else on_ws (\<lambda>ws. snd (publish_local topic (Text json_payload) None ws)) nd)
      else nd)"

definition bridge_receive ::
  "(json \<Rightarrow> string) \<Rightarrow> (u8 list \<Rightarrow> drain_command option) \<Rightarrow> string \<Rightarrow> u8 list \<Rightarrow> 'a node_scheme \<Rightarrow> 'a node_scheme" where
  "bridge_receive print parse_drain topic raw_bytes nd =
     (if topic = OPS_DRAIN_TOPIC then
        (case parse_drain raw_bytes of Some cmd \<Rightarrow> snd (drain_begin print cmd nd) | None \<Rightarrow> nd)
      else
        (case parse_redis_proto_envelope raw_bytes of
           Some (origin_node, proto_bytes) \<Rightarrow>
             if origin_node = nd_node_id nd then nd
             else if proto_bytes \<noteq> [] \<and> hd raw_bytes = 16 then deliver_remote_proto topic proto_bytes nd
             else deliver_remote_json topic raw_bytes nd
         | None \<Rightarrow> deliver_remote_json topic raw_bytes nd))"

text \<open>An event from another region is put on the local Redis, unless it is an echo or not relayed.\<close>

definition xr_receive :: "string \<Rightarrow> cross_region_event \<Rightarrow> 'a node_scheme \<Rightarrow> 'a node_scheme" where
  "xr_receive self_region envelope nd =
     (if xr_origin_region envelope = self_region then nd
      else if \<not> should_relay (xr_event_subject envelope) then nd
      else redis_publish (xr_event_subject envelope) (xr_payload envelope) nd)"

section \<open>Envelopes\<close>

definition hex_char :: "char \<Rightarrow> bool" where
  "hex_char c \<longleftrightarrow> ascii_digit c \<or> 97 \<le> byte c \<and> byte c \<le> 102"

text \<open>The node ids the server generates: \<open>format!("{:016x}", random)\<close>.\<close>

definition node_id_ok :: "string \<Rightarrow> bool" where
  "node_id_ok s \<longleftrightarrow> length s = 16 \<and> list_all hex_char s"

lemma of_char_byte: "(of_char c :: u8) = of_nat (byte c)"
  by (simp add: byte_def of_nat_of_char)

lemma unat_small: "n < 256 \<Longrightarrow> unat (of_nat n :: u8) = n"
  by (simp add: unsigned_of_nat take_bit_eq_mod)

lemma byte_lt: "byte c < 256"
  by (simp add: byte_def of_char_def)

lemma unat_of_char: "unat (of_char c :: u8) = byte c"
  unfolding of_char_byte using byte_lt by (rule unat_small)

lemma str_of_bytes_of [simp]: "str_of (bytes_of s) = s"
  by (simp add: str_of_def bytes_of_def comp_def unat_of_char) (simp add: byte_def)

lemma length_bytes_of [simp]: "length (bytes_of s) = length s"
  by (simp add: bytes_of_def)

lemma bytes_of_append [simp]: "bytes_of (s @ t) = bytes_of s @ bytes_of t"
  by (simp add: bytes_of_def)

lemma hex_char_byte: "hex_char c \<Longrightarrow> 48 \<le> byte c \<and> byte c < 128 \<and> c \<noteq> CHR 0x0A"
  by (auto simp: hex_char_def ascii_digit_def byte_def)

lemma utf8_ok_ascii: "list_all (\<lambda>c. byte c < 128) s \<Longrightarrow> utf8_ok (bytes_of s @ bs) = utf8_ok bs"
  by (induction s) (auto simp: bytes_of_def word_less_nat_alt unat_of_char)

lemma node_id_ascii: "node_id_ok s \<Longrightarrow> list_all (\<lambda>c. byte c < 128) s"
  by (auto simp: node_id_ok_def list_all_iff dest: hex_char_byte)

lemma proto_envelope_round_trip:
  assumes "length node_id < 256" "utf8_ok (bytes_of node_id)"
  shows "parse_redis_proto_envelope (redis_proto_envelope node_id bytes) = Some (node_id, bytes)"
  using assms by (simp add: parse_redis_proto_envelope_def redis_proto_envelope_def Let_def unat_small)

lemma json_envelope_round_trip:
  assumes "CHR 0x0A \<notin> set node_id"
  shows "parse_json_envelope (redis_json_envelope node_id json) = (node_id, json)"
proof -
  have "takeWhile (\<lambda>c. c \<noteq> CHR 0x0A) (node_id @ CHR 0x0A # json) = node_id"
    "dropWhile (\<lambda>c. c \<noteq> CHR 0x0A) (node_id @ CHR 0x0A # json) = CHR 0x0A # json"
    using assms by (subst takeWhile_append2 dropWhile_append2; auto)+
  then show ?thesis by (simp add: parse_json_envelope_def redis_json_envelope_def)
qed

text \<open>A JSON envelope starts with a hexadecimal digit, so it is never taken for a protobuf one.\<close>

lemma json_envelope_not_proto:
  assumes "node_id_ok node_id" "length self = 16"
    "parse_redis_proto_envelope (bytes_of (redis_json_envelope node_id json)) = Some (origin, proto)"
  shows "origin \<noteq> self" "hd (bytes_of (redis_json_envelope node_id json)) \<noteq> 16"
proof -
  obtain c cs where node: "node_id = c # cs" "hex_char c"
    using assms(1) by (cases node_id) (auto simp: node_id_ok_def)
  then have c: "48 \<le> byte c" using hex_char_byte by blast
  have len: "length origin = byte c"
    using assms(3) node
    by (auto simp: parse_redis_proto_envelope_def redis_json_envelope_def bytes_of_def Let_def unat_of_char str_of_def
        split: if_splits)
  with c assms(2) show "origin \<noteq> self" by auto
  have "unat (of_char c :: u8) \<noteq> unat (16 :: u8)" using c by (simp add: unat_of_char)
  then have "(of_char c :: u8) \<noteq> 16" by auto
  with node show "hd (bytes_of (redis_json_envelope node_id json)) \<noteq> 16"
    by (simp add: redis_json_envelope_def bytes_of_def)
qed

section \<open>From node to node\<close>

lemma node_ws_on_ws [simp]: "node_ws (on_ws f nd) = f (node_ws nd)"
  by (simp add: node_ws_def on_ws_def)

lemma publish_redis_out: "nd_redis_out (publish topic j p nd) = nd_redis_out nd @ [(topic, redis_proto_envelope (nd_node_id nd) p)]"
  by (auto simp: publish_def publish_remote_def redis_publish_def publish_xr_def Let_def split: option.split)

lemma publish_json_redis_out:
  "nd_redis_out (publish_json topic j nd) =
     nd_redis_out nd @ [(topic, bytes_of (redis_json_envelope (nd_node_id nd) j))]"
  by (simp add: publish_json_def redis_publish_def on_ws_def)

lemma bridge_proto:
  assumes "node_id_ok origin" "proto \<noteq> []" "topic \<noteq> OPS_DRAIN_TOPIC"
  shows "bridge_receive print pd topic (redis_proto_envelope origin proto) nd =
     (if origin = nd_node_id nd then nd else deliver_remote_proto topic proto nd)"
proof -
  have len: "length origin = 16" using assms(1) by (simp add: node_id_ok_def)
  have "utf8_ok (bytes_of origin)" using utf8_ok_ascii [OF node_id_ascii [OF assms(1)], of "[]"] by simp
  then have "parse_redis_proto_envelope (redis_proto_envelope origin proto) = Some (origin, proto)"
    using len by (intro proto_envelope_round_trip) simp_all
  then show ?thesis using assms(2,3) len by (simp add: bridge_receive_def redis_proto_envelope_def)
qed

lemma bridge_json:
  assumes "node_id_ok origin" "node_id_ok (nd_node_id nd)" "utf8_ok (bytes_of json)" "topic \<noteq> OPS_DRAIN_TOPIC"
  shows "bridge_receive print pd topic (bytes_of (redis_json_envelope origin json)) nd =
     (if origin = nd_node_id nd then nd else on_ws (\<lambda>ws. snd (publish_local topic (Text json) None ws)) nd)"
proof -
  let ?raw = "bytes_of (redis_json_envelope origin json)"
  have "utf8_ok (bytes_of (origin @ ''\<newline>'') @ bytes_of json)"
    using assms(1,3) node_id_ascii [OF assms(1)] by (subst utf8_ok_ascii) (auto simp: byte_def)
  then have utf8: "utf8_ok ?raw" by (simp add: redis_json_envelope_def bytes_of_def)
  have nl: "CHR 0x0A \<notin> set origin"
    using assms(1) hex_char_byte by (auto simp: node_id_ok_def list_all_iff)
  have json: "deliver_remote_json topic ?raw nd =
      (if origin = nd_node_id nd then nd else on_ws (\<lambda>ws. snd (publish_local topic (Text json) None ws)) nd)"
    using utf8 by (simp add: deliver_remote_json_def json_envelope_round_trip [OF nl])
  have "length (nd_node_id nd) = 16" using assms(2) by (simp add: node_id_ok_def)
  note np = json_envelope_not_proto [OF assms(1) this]
  show ?thesis
    using np json assms(4) by (auto simp: bridge_receive_def split: option.split)
qed

text \<open>
  What a node publishes reaches the other nodes: when the message of a \<open>publish\<close> or of a
  \<open>publish_json\<close> arrives at a node, every connection there that is subscribed to the topic and has
  room gets it once, no other connection gets anything, and the publishing node ignores its own
  echo. The frame of a protobuf message is binary whatever the connection's encoding is.
\<close>
lemma redis_bridge_delivers:
  assumes "node_id_ok (nd_node_id a)" "node_id_ok (nd_node_id b)" "topic \<noteq> OPS_DRAIN_TOPIC"
    and "proto \<noteq> []" "utf8_ok (bytes_of json)"
    and "conn_inv (node_ws b)" "senders_distinct (node_ws b)" "dm_get (cm_conn_info (node_ws b)) c = Some (tx, e)"
    and receives_def: "receives = (nd_node_id b \<noteq> nd_node_id a \<and> topic \<in> dm_set (cm_subscriptions (node_ws b)) c
          \<and> has_room (node_ws b) tx)"
  shows "queue_of (node_ws (bridge_receive print pd topic (snd (last (nd_redis_out (publish topic json proto a)))) b)) tx
      = queue_of (node_ws b) tx @ (if receives then [Binary proto] else []) \<and>
    queue_of (node_ws (bridge_receive print pd topic (snd (last (nd_redis_out (publish_json topic json a)))) b)) tx
      = queue_of (node_ws b) tx @ (if receives then [Text json] else [])"
proof -
  have local: "publish_local topic (Text json) None ws = fold (publish_one (\<lambda>_. Text json)) (topic_conns ws topic) (0, ws)" for ws
    by (simp add: publish_local_def topic_conns_def json_first_def [abs_def] split: option.split)
  note fan = topic_fanout [OF assms(6-8), of _ topic]
  show ?thesis
    unfolding publish_redis_out publish_json_redis_out
    using fan [of "\<lambda>_. Binary proto"] fan [of "\<lambda>_. Text json"]
    by (auto simp: bridge_proto [OF assms(1,4,3)] bridge_json [OF assms(1,2,5,3)] deliver_remote_proto_def
        local receives_def)
qed

definition demo_node :: "string \<Rightarrow> node" where
  "demo_node node_id =
     \<lparr>nd_node_id = node_id, nd_info = \<lparr>ni_droplet_id = None, ni_name = None, ni_public_ip = None, ni_region = None\<rparr>,
      nd_draining = False, nd_broadcast = bs_start None fan_demo, nd_redis_faults = [], nd_redis_subs = [''t''],
      nd_redis_out = [], nd_nats = Some ''nyc1'', nd_nats_out = []\<rparr>"

lemma redis_bridge_delivers_witness:
  "queue_of (node_ws (bridge_receive (\<lambda>_. []) (\<lambda>_. None) ''t''
      (snd (last (nd_redis_out (publish ''t'' ''x'' [7] (demo_node (replicate 16 CHR ''a'')))))) (demo_node (replicate 16 CHR ''b'')))) 0
   = [Binary [7]]"
proof -
  have ids: "node_id_ok (nd_node_id (demo_node (replicate 16 CHR ''a'')))" "node_id_ok (nd_node_id (demo_node (replicate 16 CHR ''b'')))"
    "nd_node_id (demo_node (replicate 16 CHR ''b'')) \<noteq> nd_node_id (demo_node (replicate 16 CHR ''a''))"
    "''t'' \<noteq> OPS_DRAIN_TOPIC" "utf8_ok (bytes_of ''x'')"
    by code_simp+
  have ws: "node_ws (demo_node i) = fan_demo" for i by (simp add: node_ws_def demo_node_def bs_start_def)
  have "cm_conn_info fan_demo = [(1, 0, Unknown), (2, 1, Protobuf)]" by code_simp
  then have "senders_distinct fan_demo \<and> dm_get (cm_conn_info fan_demo) 1 = Some (0, Unknown)"
    by (auto simp: senders_distinct_def sender_of_def dm_get_def split: if_splits)
  moreover have "''t'' \<in> dm_set (cm_subscriptions fan_demo) 1" by code_simp
  moreover have "queue_of fan_demo 0 = [] \<and> dm_get (cm_queues fan_demo) 0 = Some \<lparr>ob_capacity = 4, ob_open = True, ob_items = []\<rparr>"
    by code_simp
  ultimately show ?thesis
    using redis_bridge_delivers [OF ids(1,2,4) _ ids(5), of "[7]" 1 0 Unknown _ "\<lambda>_. []" "\<lambda>_. None"]
      ids(3) fan_demo_inv
    by (simp add: ws has_room_def)
qed

section \<open>Leaving a server\<close>

lemma unsubscribe_topics:
  "conn_inv ws \<Longrightarrow> conn_inv (fold (unsubscribe c) topics ws) \<and>
   cm_conn_user (fold (unsubscribe c) topics ws) = cm_conn_user ws \<and>
   dm_set (cm_subscriptions (fold (unsubscribe c) topics ws)) d =
     dm_set (cm_subscriptions ws) d - (if d = c then set topics else {})"
proof (induction topics arbitrary: ws)
  case (Cons t topics)
  have "conn_inv (unsubscribe c t ws)" by (rule unsubscribe_inv [OF Cons.prems])
  note Cons.IH [OF this]
  then show ?case by (auto simp: unsubscribe_def)
qed simp

lemma unsubscribe_conns:
  "conn_inv ws \<Longrightarrow> conn_inv (fold (\<lambda>c. fold (unsubscribe c) topics) cs ws) \<and>
   cm_conn_user (fold (\<lambda>c. fold (unsubscribe c) topics) cs ws) = cm_conn_user ws \<and>
   dm_set (cm_subscriptions (fold (\<lambda>c. fold (unsubscribe c) topics) cs ws)) d =
     dm_set (cm_subscriptions ws) d - (if d \<in> set cs then set topics else {})"
proof (induction cs arbitrary: ws)
  case (Cons c cs)
  note u = unsubscribe_topics [OF Cons.prems, where c = c and topics = topics]
  then show ?case using Cons.IH [of "fold (unsubscribe c) topics ws"] by auto
qed simp

lemma redis_unsubscribe_if_empty_frame:
  "node_ws (redis_unsubscribe_if_empty t nd) = node_ws nd"
  "nd_redis_faults nd = [] \<Longrightarrow> nd_redis_faults (redis_unsubscribe_if_empty t nd) = [] \<and>
   set (nd_redis_subs (redis_unsubscribe_if_empty t nd)) =
     set (nd_redis_subs nd) - {t. dm_set (cm_topic_subscribers (node_ws nd)) t = {}} \<inter> {t}"
  by (auto simp: redis_unsubscribe_if_empty_def redis_unsubscribe_def redis_sub_call_def Let_def node_ws_def dm_set_def
      hs_remove_def split: option.split)

lemma redis_unsubscribe_fold:
  "node_ws (fold redis_unsubscribe_if_empty topics nd) = node_ws nd"
  "nd_redis_faults nd = [] \<Longrightarrow> set (nd_redis_subs (fold redis_unsubscribe_if_empty topics nd)) =
     set (nd_redis_subs nd) - {t \<in> set topics. dm_set (cm_topic_subscribers (node_ws nd)) t = {}}"
  by (induction topics arbitrary: nd) (auto simp: redis_unsubscribe_if_empty_frame)

text \<open>
  C33. Taking a user out of a server ends every subscription of that user's connections to the
  server's presence topic and to the topics of the given channels, touches no other subscription,
  and ends the node's Redis subscription of exactly those of the topics nobody is left on.
\<close>
theorem server_unsubscribe_complete:
  assumes "conn_inv (node_ws nd)" "nd_redis_faults nd = []"
    and topics_def: "topics = insert (presence_topic s) (\<Union>ch\<in>set chans. set (all_channel_topics ch))"
    and nd'_def: "nd' = unsubscribe_user_from_server u s chans nd"
  shows "conn_inv (node_ws nd') \<and>
    (\<forall>c. dm_set (cm_subscriptions (node_ws nd')) c = dm_set (cm_subscriptions (node_ws nd)) c -
       (if dm_get (cm_conn_user (node_ws nd)) c = Some u then topics else {})) \<and>
    set (nd_redis_subs nd') = set (nd_redis_subs nd) - {t \<in> topics. dm_set (cm_topic_subscribers (node_ws nd')) t = {}}"
proof -
  let ?ts = "presence_topic s # concat (map all_channel_topics chans)"
  have ts: "set ?ts = topics" by (simp add: topics_def)
  define cs where "cs = get_user_conn_ids (node_ws nd) u"
  have "set cs = dm_set (cm_connections (node_ws nd)) u"
    by (simp add: cs_def get_user_conn_ids_def dm_set_def split: option.split)
  then have cs: "c \<in> set cs \<longleftrightarrow> dm_get (cm_conn_user (node_ws nd)) c = Some u" for c
    using assms(1) by (simp add: conn_inv_def)
  define nd1 where "nd1 = on_ws (fold (\<lambda>c. fold (unsubscribe c) ?ts) cs) nd"
  have nd1: "node_ws nd1 = fold (\<lambda>c. fold (unsubscribe c) ?ts) cs (node_ws nd)" "nd_redis_faults nd1 = []"
    "nd_redis_subs nd1 = nd_redis_subs nd"
    using assms(2) by (simp_all add: nd1_def on_ws_def node_ws_def)
  have nd': "nd' = fold redis_unsubscribe_if_empty ?ts nd1"
    unfolding nd'_def unsubscribe_user_from_server_def unsubscribe_all_def Let_def cs_def [symmetric] nd1_def
    by (simp add: eta_contract_eq)
  have ws: "node_ws nd' = node_ws nd1" unfolding nd' by (rule redis_unsubscribe_fold)
  have "set (nd_redis_subs nd') = set (nd_redis_subs nd) - {t \<in> topics. dm_set (cm_topic_subscribers (node_ws nd')) t = {}}"
    unfolding ws unfolding nd' redis_unsubscribe_fold(2) [OF nd1(2)] nd1(3) ts ..
  then show ?thesis
    unfolding ws nd1(1) using unsubscribe_conns [OF assms(1), of ?ts cs] cs by (auto simp: ts simp del: set_simps)
qed

section \<open>What leaves the region\<close>

text \<open>No topic the server publishes to starts with the prefix the relay lets through.\<close>

lemma nothing_published_is_relayed:
  "\<not> should_relay (channel_live_topic i)" "\<not> should_relay (channel_notify_topic i)" "\<not> should_relay (voice_topic i)"
  "\<not> should_relay (presence_topic i)" "\<not> should_relay (user_topic i)" "\<not> should_relay system_topic"
  by (simp_all add: should_relay_def relayed_prefixes_def starts_with_def channel_live_topic_def channel_notify_topic_def
      voice_topic_def presence_topic_def user_topic_def system_topic_def)

section \<open>Draining\<close>

definition drain_targets :: "string \<Rightarrow> node_runtime_info \<Rightarrow> drain_command \<Rightarrow> bool" where
  "drain_targets node_id info cmd \<longleftrightarrow>
     dc_target_node_id cmd = Some node_id \<or>
     (\<exists>x. dc_target_droplet_id cmd = Some x \<and> ni_droplet_id info = Some x) \<or>
     (\<exists>x. dc_target_public_ip cmd = Some x \<and> ni_public_ip info = Some x) \<or>
     (\<exists>x. dc_target_name cmd = Some x \<and> ni_name info = Some x)"

lemma drain_reason_bounds:
  "sanitize_drain_reason r \<noteq> [] \<and> length (sanitize_drain_reason r) \<le> 64 \<and> list_all drain_reason_char (sanitize_drain_reason r)"
proof -
  have "list_all drain_reason_char (take 64 (filter drain_reason_char s))" for s
    by (auto simp: list_all_iff dest!: in_set_takeD)
  moreover have "list_all drain_reason_char ''zdt''" "str_trim [] = []" by code_simp+
  ultimately show ?thesis by (auto simp: sanitize_drain_reason_def Let_def)
qed

lemma drain_targets_node_iff: "drain_targets_node node_id info cmd \<longleftrightarrow> drain_targets node_id info cmd"
  by (cases "dc_target_droplet_id cmd"; cases "dc_target_public_ip cmd"; cases "dc_target_name cmd")
    (simp_all add: drain_targets_node_def drain_targets_def)

lemma drain_begin_cases:
  "drain_begin print cmd nd = (None, nd) \<and> \<not> (drain_targets (nd_node_id nd) (nd_info nd) cmd \<and> \<not> nd_draining nd) \<or>
   (\<exists>delay msg. drain_begin print cmd nd = (Some (delay, all_conn_ids (node_ws nd)),
       on_ws (fold (\<lambda>c. send_to c msg) (all_conn_ids (node_ws nd))) (nd\<lparr>nd_draining := True\<rparr>)) \<and>
     100 \<le> delay \<and> delay \<le> 30000 \<and> drain_targets (nd_node_id nd) (nd_info nd) cmd \<and> \<not> nd_draining nd)"
proof (cases "drain_targets (nd_node_id nd) (nd_info nd) cmd \<and> \<not> nd_draining nd")
  case True
  define delay where "delay = max 100 (min MAX_DRAIN_DELAY_MS
      (case dc_close_after_ms cmd of Some n \<Rightarrow> n | None \<Rightarrow> DEFAULT_DRAIN_CLOSE_AFTER_MS))"
  have "100 \<le> delay" "delay \<le> 30000" by (simp_all add: delay_def MAX_DRAIN_DELAY_MS_def)
  moreover have "node_ws (nd\<lparr>nd_draining := True\<rparr>) = node_ws nd" by (simp add: node_ws_def)
  ultimately show ?thesis
    using True unfolding drain_begin_def command_targets_node_def drain_targets_node_iff Let_def delay_def [symmetric]
    by auto
next
  case False
  then show ?thesis by (auto simp: drain_begin_def command_targets_node_def drain_targets_node_iff)
qed

text \<open>A node that is draining ignores further commands, so its connections are told once.\<close>

lemma drain_once:
  assumes "fst (drain_begin print cmd nd) \<noteq> None"
  shows "drain_begin print cmd' (snd (drain_begin print cmd nd)) = (None, snd (drain_begin print cmd nd))"
proof -
  have "nd_draining (snd (drain_begin print cmd nd))"
    using drain_begin_cases [of print cmd nd] assms by (auto simp: on_ws_def)
  then show ?thesis by (simp add: drain_begin_def)
qed

definition leave_demo :: node where
  "leave_demo = on_ws (subscribe 2 (presence_topic 9)) (demo_node ''n''\<lparr>nd_redis_subs := [''t'', presence_topic 9]\<rparr>)"

lemma server_unsubscribe_complete_witness:
  "dm_set (cm_subscriptions (node_ws (unsubscribe_user_from_server 6 9 [3] leave_demo))) 2 = {''t''} \<and>
   set (nd_redis_subs (unsubscribe_user_from_server 6 9 [3] leave_demo)) = {''t''}"
proof -
  have "node_ws leave_demo = subscribe 2 (presence_topic 9) fan_demo"
    by (simp add: leave_demo_def on_ws_def node_ws_def demo_node_def bs_start_def)
  moreover have "registered fan_demo 2" by code_simp
  ultimately have "conn_inv (node_ws leave_demo)" using fan_demo_inv by (simp add: subscribe_inv)
  note main = server_unsubscribe_complete [OF this _ refl refl, where s = 9 and chans = "[3]" and u = 6]
  have "nd_redis_faults leave_demo = []" by code_simp
  note main = main [OF this]
  have subs: "dm_set (cm_subscriptions (node_ws leave_demo)) 2 = {''t'', presence_topic 9}"
    "dm_get (cm_conn_user (node_ws leave_demo)) 2 = Some 6" "set (nd_redis_subs leave_demo) = {''t'', presence_topic 9}"
    by code_simp+
  have gone: "dm_set (cm_topic_subscribers (node_ws (unsubscribe_user_from_server 6 9 [3] leave_demo))) (presence_topic 9) = {}"
    by code_simp
  have ch: "set (all_channel_topics 3) = {channel_topic 3, channel_live_topic 3, channel_notify_topic 3, voice_topic 3}"
    by (simp add: all_channel_topics_def)
  have t: "''t'' \<noteq> presence_topic 9" "''t'' \<notin> set (all_channel_topics 3)" by code_simp+
  then show ?thesis using main subs gone by auto
qed

end
