(* ===== verification/Ws_Events.thy ===== *)
theory Ws_Events
  imports Json_Value
begin

text \<open>
  The server-to-client events the modelled handlers publish (\<open>src/server-rs/src/ws/events.rs\<close>).
  An event is a value with its JSON form; the protobuf form is the generated code's encoding of it.
\<close>

record message_view =
  mv_id :: string
  mv_channel_id :: string
  mv_author_id :: string
  mv_username :: string
  mv_display_name :: "string option"
  mv_avatar_url :: "string option"
  mv_content :: string
  mv_created_at :: string

datatype ws_event =
    Ev_Member_Remove string string
  | Ev_Server_Delete string
  | Ev_Member_Join string string string "string option" "string option" string
  | Ev_Message_Create message_view
  | Ev_Channel_Unread_Signal string "string option" string string string bool bool

definition json_event :: "string \<Rightarrow> json \<Rightarrow> json" where
  "json_event op data = Json_Object [(''op'', Json_String op), (''d'', data)]"

definition json_opt :: "string option \<Rightarrow> json" where
  "json_opt x = (case x of Some s \<Rightarrow> Json_String s | None \<Rightarrow> Json_Null)"

definition member_remove_json :: "string \<Rightarrow> string \<Rightarrow> json" where
  "member_remove_json server_id user_id =
     json_event ''MEMBER_REMOVE'' (Json_Object [(''serverId'', Json_String server_id), (''userId'', Json_String user_id)])"

definition server_delete_json :: "string \<Rightarrow> json" where
  "server_delete_json server_id = json_event ''SERVER_DELETE'' (Json_Object [(''serverId'', Json_String server_id)])"

definition member_join_json ::
  "string \<Rightarrow> string \<Rightarrow> string \<Rightarrow> string option \<Rightarrow> string option \<Rightarrow> string \<Rightarrow> json" where
  "member_join_json server_id user_id username display_name avatar_url joined_at =
     json_event ''MEMBER_JOIN'' (Json_Object
       [(''serverId'', Json_String server_id), (''userId'', Json_String user_id), (''username'', Json_String username),
        (''displayName'', json_opt display_name), (''avatarUrl'', json_opt avatar_url),
        (''joinedAt'', Json_String joined_at)])"

definition message_create_json :: "json \<Rightarrow> json" where
  "message_create_json msg = json_event ''MESSAGE_CREATE'' (Json_Object [(''message'', msg)])"

definition channel_unread_signal_json ::
  "string \<Rightarrow> string option \<Rightarrow> string \<Rightarrow> string \<Rightarrow> string \<Rightarrow> bool \<Rightarrow> bool \<Rightarrow> json" where
  "channel_unread_signal_json channel_id server_id message_id author_id created_at mentions_current_user dm =
     json_event ''CHANNEL_UNREAD_SIGNAL'' (Json_Object
       [(''channelId'', Json_String channel_id), (''serverId'', json_opt server_id),
        (''messageId'', Json_String message_id), (''authorId'', Json_String author_id),
        (''createdAt'', Json_String created_at), (''mentionsCurrentUser'', Json_Bool mentions_current_user),
        (''dm'', Json_Bool dm)])"

text \<open>The message value of a join announcement (\<open>handlers/federation.rs\<close>).\<close>

definition join_message_json :: "message_view \<Rightarrow> json" where
  "join_message_json m =
     Json_Object
       [(''id'', Json_String (mv_id m)), (''channelId'', Json_String (mv_channel_id m)),
        (''authorId'', Json_String (mv_author_id m)),
        (''author'', Json_Object
          [(''id'', Json_String (mv_author_id m)), (''username'', Json_String (mv_username m)),
           (''displayName'', json_opt (mv_display_name m)), (''avatarUrl'', json_opt (mv_avatar_url m))]),
        (''content'', Json_String (mv_content m)), (''type'', Json_Number (Num_Int 1)), (''edited'', Json_Bool False),
        (''editedAt'', Json_Null), (''createdAt'', Json_String (mv_created_at m)),
        (''updatedAt'', Json_String (mv_created_at m)), (''reactions'', Json_Array []), (''attachments'', Json_Array [])]"

fun event_json :: "ws_event \<Rightarrow> json" where
  "event_json (Ev_Member_Remove server_id user_id) = member_remove_json server_id user_id"
| "event_json (Ev_Server_Delete server_id) = server_delete_json server_id"
| "event_json (Ev_Member_Join server_id user_id username display_name avatar_url joined_at) =
     member_join_json server_id user_id username display_name avatar_url joined_at"
| "event_json (Ev_Message_Create m) = message_create_json (join_message_json m)"
| "event_json (Ev_Channel_Unread_Signal channel_id server_id message_id author_id created_at mentions dm) =
     channel_unread_signal_json channel_id server_id message_id author_id created_at mentions dm"

end
