(* ===== verification/Rate_Limit.thy ===== *)
theory Rate_Limit
  imports Errors Decimal
begin

text \<open>
  Rate limiting (\<open>src/server-rs/src/middleware/rate_limit.rs\<close>): the in-memory limiter used
  when Redis is down, the predefined limits, the two bypass headers, and the two entry
  points that count a request in Redis first. Redis is outside the repository: \<open>INCR\<close> and
  \<open>EXPIRE\<close> are arguments over an abstract Redis state. An operation on a \<open>DashMap\<close> entry is
  one atomic step. \<open>Instant\<close>s are seconds since the epoch, as \<open>u64\<close>.
\<close>

section \<open>The local limiter\<close>

record local_entry =
  le_count :: u64
  le_window :: u64
  le_expires_at :: u64

record local_rate_limiter =
  ll_entries :: "(string, local_entry) dmap"

definition CLEANUP_INTERVAL_SECS :: u64 where "CLEANUP_INTERVAL_SECS = 60"

definition ll_new :: local_rate_limiter where "ll_new = \<lparr>ll_entries = []\<rparr>"

definition bump_entry :: "string \<Rightarrow> local_rate_limiter \<Rightarrow> u64 \<times> local_rate_limiter" where
  "bump_entry key ll =
     (case dm_get (ll_entries ll) key of
        None \<Rightarrow> (0, ll)
      | Some e \<Rightarrow> (le_count e + 1,
          ll\<lparr>ll_entries := dm_upd key (\<lambda>e. e\<lparr>le_count := le_count e + 1\<rparr>) (ll_entries ll)\<rparr>))"

definition ll_check :: "string \<Rightarrow> u64 \<Rightarrow> u64 \<Rightarrow> local_rate_limiter \<Rightarrow> u64 \<times> local_rate_limiter" where
  "ll_check key window window_secs ll =
     (let expires_at = (window + 1) * window_secs;
          fresh = \<lparr>le_count = 0, le_window = window, le_expires_at = expires_at\<rparr>;
          ll = ll\<lparr>ll_entries := dm_or_insert key fresh (ll_entries ll)\<rparr>
      in case dm_get (ll_entries ll) key of
           None \<Rightarrow> (0, ll)
         | Some entry \<Rightarrow>
             if le_window entry \<noteq> window
             then bump_entry key
                    (ll\<lparr>ll_entries := dm_or_insert key fresh (dm_del key (ll_entries ll))\<rparr>)
             else bump_entry key ll)"

definition check_public :: "string \<Rightarrow> u64 \<Rightarrow> u64 \<Rightarrow> local_rate_limiter \<Rightarrow> u64 \<times> local_rate_limiter" where
  "check_public key window window_secs ll = ll_check key window window_secs ll"

definition ll_cleanup :: "u64 \<Rightarrow> local_rate_limiter \<Rightarrow> local_rate_limiter" where
  "ll_cleanup now_secs ll = ll\<lparr>ll_entries := filter (\<lambda>e. now_secs < le_expires_at (snd e)) (ll_entries ll)\<rparr>"

section \<open>Limits\<close>

record rate_limit_config =
  rc_window_secs :: u64
  rc_max :: u64
  rc_prefix :: string

definition AUTH_LIMIT :: rate_limit_config where "AUTH_LIMIT = \<lparr>rc_window_secs = 60, rc_max = 5, rc_prefix = ''rl:auth''\<rparr>"
definition REGISTER_LIMIT :: rate_limit_config where "REGISTER_LIMIT = \<lparr>rc_window_secs = 300, rc_max = 3, rc_prefix = ''rl:register''\<rparr>"
definition MESSAGE_LIMIT :: rate_limit_config where "MESSAGE_LIMIT = \<lparr>rc_window_secs = 10, rc_max = 10, rc_prefix = ''rl:message''\<rparr>"
definition REACTION_LIMIT :: rate_limit_config where "REACTION_LIMIT = \<lparr>rc_window_secs = 60, rc_max = 20, rc_prefix = ''rl:reaction''\<rparr>"
definition TYPING_LIMIT :: rate_limit_config where "TYPING_LIMIT = \<lparr>rc_window_secs = 10, rc_max = 20, rc_prefix = ''rl:typing''\<rparr>"
definition READ_STATE_LIMIT :: rate_limit_config where "READ_STATE_LIMIT = \<lparr>rc_window_secs = 60, rc_max = 60, rc_prefix = ''rl:read_state''\<rparr>"
definition PRESENCE_LIMIT :: rate_limit_config where "PRESENCE_LIMIT = \<lparr>rc_window_secs = 60, rc_max = 20, rc_prefix = ''rl:presence''\<rparr>"
definition WS_NAV_LIMIT :: rate_limit_config where "WS_NAV_LIMIT = \<lparr>rc_window_secs = 10, rc_max = 30, rc_prefix = ''rl:ws_nav''\<rparr>"
definition VOICE_LIMIT :: rate_limit_config where "VOICE_LIMIT = \<lparr>rc_window_secs = 10, rc_max = 8, rc_prefix = ''rl:voice''\<rparr>"
definition API_LIMIT :: rate_limit_config where "API_LIMIT = \<lparr>rc_window_secs = 10, rc_max = 20, rc_prefix = ''rl:api''\<rparr>"
definition INVITE_LIMIT :: rate_limit_config where "INVITE_LIMIT = \<lparr>rc_window_secs = 60, rc_max = 5, rc_prefix = ''rl:invite''\<rparr>"
definition CHANNEL_LIMIT :: rate_limit_config where "CHANNEL_LIMIT = \<lparr>rc_window_secs = 60, rc_max = 20, rc_prefix = ''rl:channel''\<rparr>"
definition CATEGORY_LIMIT :: rate_limit_config where "CATEGORY_LIMIT = \<lparr>rc_window_secs = 60, rc_max = 20, rc_prefix = ''rl:category''\<rparr>"
definition SERVER_LIMIT :: rate_limit_config where "SERVER_LIMIT = \<lparr>rc_window_secs = 60, rc_max = 10, rc_prefix = ''rl:server''\<rparr>"
definition DM_LIMIT :: rate_limit_config where "DM_LIMIT = \<lparr>rc_window_secs = 5, rc_max = 5, rc_prefix = ''rl:dm''\<rparr>"
definition RELATIONSHIP_LIMIT :: rate_limit_config where "RELATIONSHIP_LIMIT = \<lparr>rc_window_secs = 60, rc_max = 10, rc_prefix = ''rl:relationship''\<rparr>"
definition EMOJI_LIMIT :: rate_limit_config where "EMOJI_LIMIT = \<lparr>rc_window_secs = 60, rc_max = 10, rc_prefix = ''rl:emoji''\<rparr>"
definition ROLE_LIMIT :: rate_limit_config where "ROLE_LIMIT = \<lparr>rc_window_secs = 60, rc_max = 20, rc_prefix = ''rl:role''\<rparr>"
definition UPLOAD_LIMIT :: rate_limit_config where "UPLOAD_LIMIT = \<lparr>rc_window_secs = 60, rc_max = 10, rc_prefix = ''rl:upload''\<rparr>"
definition MODERATION_LIMIT :: rate_limit_config where "MODERATION_LIMIT = \<lparr>rc_window_secs = 60, rc_max = 10, rc_prefix = ''rl:moderation''\<rparr>"
definition PASSWORD_RESET_LIMIT :: rate_limit_config where "PASSWORD_RESET_LIMIT = \<lparr>rc_window_secs = 300, rc_max = 3, rc_prefix = ''rl:pwreset''\<rparr>"
definition IDENTIFY_LIMIT :: rate_limit_config where "IDENTIFY_LIMIT = \<lparr>rc_window_secs = 60, rc_max = 10, rc_prefix = ''rl:identify''\<rparr>"
definition ADMIN_LIMIT :: rate_limit_config where "ADMIN_LIMIT = \<lparr>rc_window_secs = 60, rc_max = 5, rc_prefix = ''rl:admin''\<rparr>"
definition UPDATE_LIMIT :: rate_limit_config where "UPDATE_LIMIT = \<lparr>rc_window_secs = 60, rc_max = 30, rc_prefix = ''rl:update''\<rparr>"
definition MEDIA_LIMIT :: rate_limit_config where "MEDIA_LIMIT = \<lparr>rc_window_secs = 60, rc_max = 60, rc_prefix = ''rl:media''\<rparr>"
definition ATTACHMENT_MEDIA_LIMIT :: rate_limit_config where "ATTACHMENT_MEDIA_LIMIT = \<lparr>rc_window_secs = 60, rc_max = 240, rc_prefix = ''rl:attachment_media''\<rparr>"
definition SEARCH_LIMIT :: rate_limit_config where "SEARCH_LIMIT = \<lparr>rc_window_secs = 60, rc_max = 20, rc_prefix = ''rl:search''\<rparr>"
definition LINK_PREVIEW_LIMIT :: rate_limit_config where "LINK_PREVIEW_LIMIT = \<lparr>rc_window_secs = 60, rc_max = 20, rc_prefix = ''rl:link_preview''\<rparr>"
definition REPORT_LIMIT :: rate_limit_config where "REPORT_LIMIT = \<lparr>rc_window_secs = 60, rc_max = 5, rc_prefix = ''rl:report''\<rparr>"
definition BUG_REPORT_LIMIT :: rate_limit_config where "BUG_REPORT_LIMIT = \<lparr>rc_window_secs = 60, rc_max = 5, rc_prefix = ''rl:bugreport''\<rparr>"
definition STRIPE_WEBHOOK_LIMIT :: rate_limit_config where "STRIPE_WEBHOOK_LIMIT = \<lparr>rc_window_secs = 60, rc_max = 120, rc_prefix = ''rl:stripe_webhook''\<rparr>"
definition FEDERATION_EVENT_LIMIT :: rate_limit_config where "FEDERATION_EVENT_LIMIT = \<lparr>rc_window_secs = 60, rc_max = 120, rc_prefix = ''rl:federation_event''\<rparr>"
definition FEDERATION_INVITE_PREVIEW_LIMIT :: rate_limit_config where "FEDERATION_INVITE_PREVIEW_LIMIT = \<lparr>rc_window_secs = 60, rc_max = 20, rc_prefix = ''rl:federation_invite_preview''\<rparr>"

definition all_limits :: "rate_limit_config list" where
  "all_limits = [AUTH_LIMIT, REGISTER_LIMIT, MESSAGE_LIMIT, REACTION_LIMIT, TYPING_LIMIT, READ_STATE_LIMIT, PRESENCE_LIMIT, WS_NAV_LIMIT, VOICE_LIMIT, API_LIMIT, INVITE_LIMIT, CHANNEL_LIMIT, CATEGORY_LIMIT, SERVER_LIMIT, DM_LIMIT, RELATIONSHIP_LIMIT, EMOJI_LIMIT, ROLE_LIMIT, UPLOAD_LIMIT, MODERATION_LIMIT, PASSWORD_RESET_LIMIT, IDENTIFY_LIMIT, ADMIN_LIMIT, UPDATE_LIMIT, MEDIA_LIMIT, ATTACHMENT_MEDIA_LIMIT, SEARCH_LIMIT, LINK_PREVIEW_LIMIT, REPORT_LIMIT, BUG_REPORT_LIMIT, STRIPE_WEBHOOK_LIMIT, FEDERATION_EVENT_LIMIT, FEDERATION_INVITE_PREVIEW_LIMIT]"

section \<open>Counting a request\<close>

record rate_limit_info =
  ri_limit :: u64
  ri_remaining :: u64
  ri_reset_at :: u64

text \<open>\<open>format!("{}:{}:{}", prefix, identifier, window)\<close>.\<close>

definition rate_key :: "string \<Rightarrow> string \<Rightarrow> u64 \<Rightarrow> string" where
  "rate_key prefix identifier window =
     prefix @ CHR '':'' # identifier @ CHR '':'' # nat_str (unat window)"

definition sat_sub :: "u64 \<Rightarrow> u64 \<Rightarrow> u64" where
  "sat_sub a b = (if a < b then 0 else a - b)"

text \<open>
  The state a limiter works on: Redis (whatever it is) and the local fallback. \<open>incr\<close> is
  \<open>INCRBY key 1\<close>, which may fail; \<open>expire\<close> is \<open>EXPIRE key secs\<close>, whose result is ignored.
\<close>

definition rate_count ::
    "(string \<Rightarrow> 'r \<Rightarrow> (unit + i64_bits) \<times> 'r) \<Rightarrow> (string \<Rightarrow> u64 \<Rightarrow> 'r \<Rightarrow> 'r) \<Rightarrow>
     string \<Rightarrow> u64 \<Rightarrow> u64 \<Rightarrow> 'r \<times> local_rate_limiter \<Rightarrow> u64 \<times> 'r \<times> local_rate_limiter" where
  "rate_count incr expire key window window_secs st =
     (let (r, ll) = st;
          (res, r) = incr key r;
          (current, ll) = (case res of
              Inr val \<Rightarrow> (val, ll)
            | Inl _ \<Rightarrow> ll_check key window window_secs ll);
          r = (if current = 1 then expire key window_secs r else r)
      in (current, r, ll))"

definition enforce ::
    "(string \<Rightarrow> 'r \<Rightarrow> (unit + i64_bits) \<times> 'r) \<Rightarrow> (string \<Rightarrow> u64 \<Rightarrow> 'r \<Rightarrow> 'r) \<Rightarrow>
     u64 \<Rightarrow> rate_limit_config \<Rightarrow> string \<Rightarrow> 'r \<times> local_rate_limiter \<Rightarrow>
     rate_limit_info app_result \<times> 'r \<times> local_rate_limiter" where
  "enforce incr expire now_secs config identifier st =
     (let window = now_secs div rc_window_secs config;
          key = rate_key (rc_prefix config) identifier window;
          (current, st) = rate_count incr expire key window (rc_window_secs config) st;
          reset_at = (window + 1) * rc_window_secs config
      in if rc_max config < current then (Inl RateLimited, st)
         else (Inr \<lparr>ri_limit = rc_max config, ri_remaining = sat_sub (rc_max config) current,
                    ri_reset_at = reset_at\<rparr>, st))"

text \<open>
  The middleware's variant: the identifier is the authenticated user or the address; the
  rejection carries the seconds left in the window.
\<close>

definition check_rate_limit ::
    "(string \<Rightarrow> 'r \<Rightarrow> (unit + i64_bits) \<times> 'r) \<Rightarrow> (string \<Rightarrow> u64 \<Rightarrow> 'r \<Rightarrow> 'r) \<Rightarrow>
     u64 \<Rightarrow> rate_limit_config \<Rightarrow> int option \<Rightarrow> string \<Rightarrow> 'r \<times> local_rate_limiter \<Rightarrow>
     (u64 + unit) \<times> 'r \<times> local_rate_limiter" where
  "check_rate_limit incr expire now_secs config user ip st =
     (let identifier = (case user of Some u \<Rightarrow> int_str u | None \<Rightarrow> ip);
          window = now_secs div rc_window_secs config;
          key = rate_key (rc_prefix config) identifier window;
          (current, st) = rate_count incr expire key window (rc_window_secs config) st
      in if rc_max config < current
         then (Inl (sat_sub (rc_window_secs config) (now_secs mod rc_window_secs config)), st)
         else (Inr (), st))"

section \<open>Bypass headers\<close>

definition is_stress_test_bypass :: "string option \<Rightarrow> (string \<Rightarrow> string option) \<Rightarrow> bool" where
  "is_stress_test_bypass stress_test_key headers =
     (case stress_test_key of
        Some key \<Rightarrow> (case headers ''x-stress-test'' of Some header \<Rightarrow> header = key | None \<Rightarrow> False)
      | None \<Rightarrow> False)"

fun xor_diff :: "u8 list \<Rightarrow> u8 list \<Rightarrow> u8 \<Rightarrow> u8" where
  "xor_diff (x # xs) (y # ys) diff = xor_diff xs ys (diff OR (x XOR y))"
| "xor_diff _ _ diff = diff"

definition str_bytes :: "string \<Rightarrow> u8 list" where
  "str_bytes s = map (\<lambda>c. of_nat (of_char c)) s"

definition is_loadtest_bypass :: "string option \<Rightarrow> (string \<Rightarrow> string option) \<Rightarrow> bool" where
  "is_loadtest_bypass loadtest_secret headers =
     (case loadtest_secret of
        None \<Rightarrow> False
      | Some expected \<Rightarrow>
          if expected = [] then False
          else case headers ''x-loadtest-secret'' of
                 None \<Rightarrow> False
               | Some provided \<Rightarrow>
                   (let a = str_bytes expected; b = str_bytes provided
                    in if length a \<noteq> length b then False else xor_diff a b 0 = 0))"

definition enforce_opt_bypass ::
    "(string \<Rightarrow> 'r \<Rightarrow> (unit + i64_bits) \<times> 'r) \<Rightarrow> (string \<Rightarrow> u64 \<Rightarrow> 'r \<Rightarrow> 'r) \<Rightarrow>
     string option \<Rightarrow> u64 \<Rightarrow> rate_limit_config \<Rightarrow> string \<Rightarrow> (string \<Rightarrow> string option) option \<Rightarrow>
     'r \<times> local_rate_limiter \<Rightarrow> rate_limit_info app_result \<times> 'r \<times> local_rate_limiter" where
  "enforce_opt_bypass incr expire stress_test_key now_secs config identifier headers st =
     (if (case headers of Some h \<Rightarrow> is_stress_test_bypass stress_test_key h | None \<Rightarrow> False)
      then (Inr \<lparr>ri_limit = - 1, ri_remaining = - 1, ri_reset_at = 0\<rparr>, st)
      else enforce incr expire now_secs config identifier st)"

section \<open>Counters\<close>

text \<open>
  What a limiter needs of its counter: \<open>bump\<close> returns the number of bumps of the key so far
  and leaves the other keys alone.
\<close>

locale rate_counter =
  fixes bump :: "string \<Rightarrow> 's \<Rightarrow> u64 \<times> 's"
    and counted :: "'s \<Rightarrow> string \<Rightarrow> u64"
  assumes bump_result: "fst (bump k s) = counted s k + 1"
    and bump_counted: "counted (snd (bump k s)) k' = (if k' = k then counted s k + 1 else counted s k')"
begin

text \<open>The results a key sees in a sequence of bumps of any keys.\<close>

primrec results :: "string \<Rightarrow> string list \<Rightarrow> 's \<Rightarrow> u64 list" where
  "results k [] s = []"
| "results k (j # js) s = (if j = k then [fst (bump j s)] else []) @ results k js (snd (bump j s))"

lemma results_upt:
  "results k js s = map (\<lambda>i. counted s k + 1 + of_nat i) [0..<length (filter (\<lambda>j. j = k) js)]"
proof (induction js arbitrary: s)
  case (Cons j js)
  show ?case
    by (simp add: Cons.IH bump_result bump_counted map_upt_Suc add.assoc add.left_commute del: upt_Suc)
qed simp

text \<open>From a fresh key at most \<open>m\<close> bumps report a number not above \<open>m\<close>.\<close>

lemma accepted_le:
  assumes "counted s k = 0" "length js < 2 ^ 64 - 1"
  shows "length (filter (\<lambda>n. n \<le> m) (results k js s)) = min (length (filter (\<lambda>j. j = k) js)) (unat m)"
proof -
  let ?n = "length (filter (\<lambda>j. j = k) js)"
  have n: "?n < 2 ^ 64 - 1" using assms(2) length_filter_le [of "\<lambda>j. j = k" js] by linarith
  have u: "unat (1 + of_nat i :: u64) = i + 1" if "i < ?n" for i
    using that n by (simp add: unat_word_ariths unat_of_nat)
  have "length (filter (\<lambda>n. n \<le> m) (results k js s)) = card {i. i < ?n \<and> (1 + of_nat i :: u64) \<le> m}"
    using distinct_card [of "filter (\<lambda>i. (1 + of_nat i :: u64) \<le> m) [0..<?n]"]
    by (simp add: results_upt assms(1) filter_map comp_def)
  also have "{i. i < ?n \<and> (1 + of_nat i :: u64) \<le> m} = {..< min ?n (unat m)}"
    using u by (auto simp: word_le_nat_alt)
  finally show ?thesis by simp
qed

end

section \<open>The local limiter is a counter\<close>

definition ll_counted :: "u64 \<Rightarrow> local_rate_limiter \<Rightarrow> string \<Rightarrow> u64" where
  "ll_counted window ll k =
     (case dm_get (ll_entries ll) k of
        Some e \<Rightarrow> if le_window e = window then le_count e else 0
      | None \<Rightarrow> 0)"

lemma ll_check_result: "fst (ll_check k w secs ll) = ll_counted w ll k + 1"
  by (auto simp: ll_check_def bump_entry_def ll_counted_def Let_def split: option.splits)

lemma ll_check_get:
  "dm_get (ll_entries (snd (ll_check k w secs ll))) k' =
     (if k' = k then Some (case dm_get (ll_entries ll) k of
          Some e \<Rightarrow> if le_window e = w then e\<lparr>le_count := le_count e + 1\<rparr>
                    else \<lparr>le_count = 1, le_window = w, le_expires_at = (w + 1) * secs\<rparr>
        | None \<Rightarrow> \<lparr>le_count = 1, le_window = w, le_expires_at = (w + 1) * secs\<rparr>)
      else dm_get (ll_entries ll) k')"
  by (auto simp: ll_check_def bump_entry_def Let_def split: option.splits)

lemma ll_check_counted:
  "ll_counted w (snd (ll_check k w secs ll)) k' = (if k' = k then ll_counted w ll k + 1 else ll_counted w ll k')"
  by (auto simp: ll_counted_def ll_check_get split: option.splits)

interpretation ll: rate_counter "\<lambda>k. ll_check k w secs" "ll_counted w" for w secs
  by unfold_locales (simp_all add: ll_check_result ll_check_counted)

section \<open>A counter among other operations\<close>

locale shared_counter = rate_counter bump counted
  for bump :: "string \<Rightarrow> 's \<Rightarrow> u64 \<times> 's" and counted :: "'s \<Rightarrow> string \<Rightarrow> u64" +
  fixes other :: "'o \<Rightarrow> 's \<Rightarrow> 's" and keeps :: "string \<Rightarrow> 'o \<Rightarrow> bool" and inv :: "string \<Rightarrow> 's \<Rightarrow> bool"
  assumes other_counted: "inv k s \<Longrightarrow> keeps k x \<Longrightarrow> counted (other x s) k = counted s k"
    and other_inv: "inv k s \<Longrightarrow> keeps k x \<Longrightarrow> inv k (other x s)"
    and bump_inv: "inv k s \<Longrightarrow> inv k (snd (bump k s))"
begin

text \<open>\<open>None\<close> is a bump of the key, \<open>Some x\<close> another operation.\<close>

fun event_results :: "string \<Rightarrow> 'o option list \<Rightarrow> 's \<Rightarrow> u64 list" where
  "event_results k [] s = []"
| "event_results k (None # es) s = fst (bump k s) # event_results k es (snd (bump k s))"
| "event_results k (Some x # es) s = event_results k es (other x s)"

lemma event_results_bumps:
  "inv k s \<Longrightarrow> (\<And>x. Some x \<in> set es \<Longrightarrow> keeps k x) \<Longrightarrow>
   event_results k es s = results k (replicate (length (filter (\<lambda>e. e = None) es)) k) s"
proof (induction k es s rule: event_results.induct)
  case (2 k es s)
  then show ?case using bump_inv by simp
next
  case (3 k x es s)
  then have "inv k (other x s)" "counted (other x s) k = counted s k"
    using other_inv other_counted by simp_all
  with 3 show ?case by (simp add: results_upt)
qed simp

lemma events_accepted:
  assumes "inv k s" "\<And>x. Some x \<in> set es \<Longrightarrow> keeps k x" "counted s k = 0" "length es < 2 ^ 64 - 1"
  shows "length (filter (\<lambda>n. n \<le> m) (event_results k es s)) = min (length (filter (\<lambda>e. e = None) es)) (unat m)"
proof -
  let ?n = "length (filter (\<lambda>e. e = None) es)"
  have "?n < 2 ^ 64 - 1" using assms(4) length_filter_le [of "\<lambda>e. e = None" es] by linarith
  then show ?thesis
    using accepted_le [OF assms(3), of "replicate ?n k" m] event_results_bumps [OF assms(1,2)] by simp
qed

end

text \<open>The other operations on the local limiter: checks of other keys, and sweeps.\<close>

datatype ll_other = Check_Other string u64 u64 | Sweep_At u64

fun ll_other_op :: "ll_other \<Rightarrow> local_rate_limiter \<Rightarrow> local_rate_limiter" where
  "ll_other_op (Check_Other k w secs) ll = snd (ll_check k w secs ll)"
| "ll_other_op (Sweep_At now) ll = ll_cleanup now ll"

fun ll_keeps :: "u64 \<Rightarrow> string \<Rightarrow> ll_other \<Rightarrow> bool" where
  "ll_keeps expires k (Check_Other j w secs) = (j \<noteq> k)"
| "ll_keeps expires k (Sweep_At now) = (now < expires)"

definition ll_inv :: "u64 \<Rightarrow> u64 \<Rightarrow> string \<Rightarrow> local_rate_limiter \<Rightarrow> bool" where
  "ll_inv w expires k ll \<longleftrightarrow> dm_wf (ll_entries ll) \<and>
     (\<forall>e. dm_get (ll_entries ll) k = Some e \<longrightarrow> le_window e = w \<longrightarrow> le_expires_at e = expires)"

lemma ll_check_wf: "dm_wf (ll_entries ll) \<Longrightarrow> dm_wf (ll_entries (snd (ll_check k w secs ll)))"
  by (auto simp: ll_check_def bump_entry_def Let_def split: option.splits)

lemma ll_cleanup_get:
  "dm_wf (ll_entries ll) \<Longrightarrow> dm_get (ll_entries (ll_cleanup now ll)) k =
     (case dm_get (ll_entries ll) k of
        Some e \<Rightarrow> if now < le_expires_at e then Some e else None | None \<Rightarrow> None)"
  by (simp add: ll_cleanup_def dm_get_filter split: option.splits)

lemma ll_cleanup_wf: "dm_wf (ll_entries ll) \<Longrightarrow> dm_wf (ll_entries (ll_cleanup now ll))"
  by (simp add: ll_cleanup_def)

interpretation ll: shared_counter "\<lambda>k. ll_check k w secs" "ll_counted w" ll_other_op
    "ll_keeps ((w + 1) * secs)" "ll_inv w ((w + 1) * secs)" for w secs
proof unfold_locales
  show "ll_counted w (ll_other_op x s) k = ll_counted w s k"
    if "ll_inv w ((w + 1) * secs) k s" "ll_keeps ((w + 1) * secs) k x" for k s x
    using that by (cases x) (auto simp: ll_counted_def ll_check_get ll_cleanup_get ll_inv_def split: option.splits)
  show "ll_inv w ((w + 1) * secs) k (ll_other_op x s)"
    if "ll_inv w ((w + 1) * secs) k s" "ll_keeps ((w + 1) * secs) k x" for k s x
    using that by (cases x)
      (auto simp: ll_inv_def ll_check_get ll_cleanup_get ll_check_wf ll_cleanup_wf split: option.splits if_splits)
  show "ll_inv w ((w + 1) * secs) k (snd (ll_check k w secs s))" if "ll_inv w ((w + 1) * secs) k s" for k s
    using that by (auto simp: ll_inv_def ll_check_get ll_check_wf split: option.splits if_splits)
qed

section \<open>Keys\<close>

text \<open>No prefix is another prefix followed by a colon.\<close>

definition prefixes_free :: "string list \<Rightarrow> bool" where
  "prefixes_free ps \<longleftrightarrow>
     list_all (\<lambda>p. take 3 p = ''rl:'' \<and> CHR '':'' \<notin> set (drop 3 p)) ps \<and> distinct ps"

lemma limits_prefixes_free: "prefixes_free (map rc_prefix all_limits)"
  by code_simp

lemma prefix_shape:
  "prefixes_free ps \<Longrightarrow> p \<in> set ps \<Longrightarrow> p = ''rl:'' @ drop 3 p \<and> CHR '':'' \<notin> set (drop 3 p)"
proof -
  assume "prefixes_free ps" "p \<in> set ps"
  then have t: "take 3 p = ''rl:''" and d: "CHR '':'' \<notin> set (drop 3 p)"
    by (auto simp: prefixes_free_def list_all_iff)
  show "p = ''rl:'' @ drop 3 p \<and> CHR '':'' \<notin> set (drop 3 p)"
    using d append_take_drop_id [of 3 p] unfolding t by metis
qed

lemma rate_key_inj:
  assumes "p \<in> set (map rc_prefix all_limits)" "p' \<in> set (map rc_prefix all_limits)"
    and "rate_key p i w = rate_key p' i' w'"
  shows "p = p' \<and> i = i' \<and> w = w'"
proof -
  have last: "p @ CHR '':'' # i = p' @ CHR '':'' # i' \<and> nat_str (unat w) = nat_str (unat w')"
    using split_last_unique [of "p @ CHR '':'' # i" "CHR '':''" "nat_str (unat w)"
        "p' @ CHR '':'' # i'" "nat_str (unat w')"] assms(3) nat_str_no_colon
    by (simp add: rate_key_def)
  have s: "p = ''rl:'' @ drop 3 p" "CHR '':'' \<notin> set (drop 3 p)"
    "p' = ''rl:'' @ drop 3 p'" "CHR '':'' \<notin> set (drop 3 p')"
    using prefix_shape [OF limits_prefixes_free assms(1)] prefix_shape [OF limits_prefixes_free assms(2)]
    by blast+
  have "drop 3 p @ CHR '':'' # i = drop 3 p' @ CHR '':'' # i'"
    using last s(1,3) by (metis append_assoc same_append_eq)
  then have "drop 3 p = drop 3 p' \<and> i = i'"
    using split_first_unique s(2,4) by metis
  with s(1,3) last show ?thesis by (metis nat_str_inj unsigned_word_eqI)
qed

lemma limits_by_prefix:
  "c \<in> set all_limits \<Longrightarrow> c' \<in> set all_limits \<Longrightarrow> rc_prefix c = rc_prefix c' \<Longrightarrow> c = c'"
proof -
  have "distinct (map rc_prefix all_limits)" using limits_prefixes_free by (simp add: prefixes_free_def)
  then show "c \<in> set all_limits \<Longrightarrow> c' \<in> set all_limits \<Longrightarrow> rc_prefix c = rc_prefix c' \<Longrightarrow> c = c'"
    by (auto simp: distinct_map dest: inj_onD)
qed

section \<open>Requests while Redis is down\<close>

definition down_incr :: "string \<Rightarrow> unit \<Rightarrow> (unit + i64_bits) \<times> unit" where
  "down_incr k r = (Inl (), r)"

definition no_expire :: "string \<Rightarrow> u64 \<Rightarrow> 'r \<Rightarrow> 'r" where
  "no_expire k secs r = r"

datatype rl_event = Request u64 rate_limit_config string | Sweep u64

fun event_time :: "rl_event \<Rightarrow> u64" where
  "event_time (Request now _ _) = now"
| "event_time (Sweep now) = now"

fun event_known :: "rl_event \<Rightarrow> bool" where
  "event_known (Request _ c _) = (c \<in> set all_limits)"
| "event_known (Sweep _) = True"

definition counts :: "rate_limit_config \<Rightarrow> string \<Rightarrow> u64 \<Rightarrow> rl_event \<Rightarrow> bool" where
  "counts c i w e = (case e of Request now c' i' \<Rightarrow> c' = c \<and> i' = i \<and> now div rc_window_secs c = w | _ \<Rightarrow> False)"

text \<open>How many of the requests of \<open>(config, identifier)\<close> in a window a run lets through.\<close>

fun accepted :: "rate_limit_config \<Rightarrow> string \<Rightarrow> u64 \<Rightarrow> rl_event list \<Rightarrow> local_rate_limiter \<Rightarrow> nat" where
  "accepted c i w [] ll = 0"
| "accepted c i w (Request now c' i' # es) ll =
     (let (res, _, ll') = enforce down_incr no_expire now c' i' ((), ll)
      in (if is_ok res \<and> counts c i w (Request now c' i') then 1 else 0) + accepted c i w es ll')"
| "accepted c i w (Sweep now # es) ll = accepted c i w es (ll_cleanup now ll)"

fun to_ll_event :: "rate_limit_config \<Rightarrow> string \<Rightarrow> u64 \<Rightarrow> rl_event \<Rightarrow> ll_other option" where
  "to_ll_event c i w (Sweep now) = Some (Sweep_At now)"
| "to_ll_event c i w (Request now c' i') =
     (if counts c i w (Request now c' i') then None
      else Some (Check_Other (rate_key (rc_prefix c') i' (now div rc_window_secs c'))
                   (now div rc_window_secs c') (rc_window_secs c')))"

lemma enforce_down:
  "\<exists>res. enforce down_incr no_expire now c i ((), ll) =
     (res, (), snd (ll_check (rate_key (rc_prefix c) i (now div rc_window_secs c)) (now div rc_window_secs c) (rc_window_secs c) ll))
   \<and> (is_ok res \<longleftrightarrow>
        fst (ll_check (rate_key (rc_prefix c) i (now div rc_window_secs c)) (now div rc_window_secs c) (rc_window_secs c) ll) \<le> rc_max c)"
  by (cases "ll_check (rate_key (rc_prefix c) i (now div rc_window_secs c)) (now div rc_window_secs c) (rc_window_secs c) ll")
    (auto simp: enforce_def rate_count_def down_incr_def no_expire_def Let_def)

lemma accepted_events:
  "accepted c i w es ll = length (filter (\<lambda>n. n \<le> rc_max c)
     (ll.event_results w (rc_window_secs c) (rate_key (rc_prefix c) i w) (map (to_ll_event c i w) es) ll))"
proof (induction es arbitrary: ll)
  case (Cons e es)
  show ?case
  proof (cases e)
    case (Request now c' i')
    obtain res where r: "enforce down_incr no_expire now c' i' ((), ll) =
        (res, (), snd (ll_check (rate_key (rc_prefix c') i' (now div rc_window_secs c')) (now div rc_window_secs c') (rc_window_secs c') ll))"
      "is_ok res \<longleftrightarrow> fst (ll_check (rate_key (rc_prefix c') i' (now div rc_window_secs c')) (now div rc_window_secs c') (rc_window_secs c') ll) \<le> rc_max c'"
      using enforce_down by blast
    show ?thesis
    proof (cases "counts c i w e")
      case True
      then show ?thesis using r Cons.IH unfolding Request by (simp add: counts_def)
    next
      case False
      then show ?thesis using r Cons.IH unfolding Request by simp
    qed
  next
    case (Sweep now)
    then show ?thesis using Cons.IH by simp
  qed
qed simp

lemma event_results_split:
  "\<exists>s'. ll.event_results w secs k (es @ fs) s = ll.event_results w secs k es s @ ll.event_results w secs k fs s'"
proof (induction es arbitrary: s)
  case (Cons e es)
  then show ?case by (cases e) auto
qed auto

lemma event_results_none: "(\<And>e. e \<in> set es \<Longrightarrow> e \<noteq> None) \<Longrightarrow> ll.event_results w secs k es s = []"
proof (induction es arbitrary: s)
  case (Cons e es)
  then show ?case by (cases e) auto
qed simp

lemma limits_bounds: "c \<in> set all_limits \<Longrightarrow> 0 < rc_window_secs c \<and> rc_window_secs c \<le> 300"
proof -
  have "list_all (\<lambda>c. 0 < rc_window_secs c \<and> rc_window_secs c \<le> 300) all_limits" by code_simp
  then show "c \<in> set all_limits \<Longrightarrow> 0 < rc_window_secs c \<and> rc_window_secs c \<le> 300" by (simp add: list_all_iff)
qed

lemma window_end:
  assumes "t < 2 ^ 62" "0 < secs" "secs \<le> (300 :: u64)" "t div secs = w"
  shows "unat ((w + 1) * secs) = (unat w + 1) * unat secs" "s < (w + 1) * secs \<longleftrightarrow> unat s < (unat w + 1) * unat secs"
    "unat s div unat secs = unat w \<Longrightarrow> s < (w + 1) * secs"
proof -
  have n: "unat t < 2 ^ 62" "0 < unat secs" "unat secs \<le> 300" "unat w = unat t div unat secs"
    using assms by (auto simp: word_less_nat_alt word_le_nat_alt unat_div)
  have le: "unat w * unat secs \<le> unat t" using n(4) by simp
  have w: "unat w \<le> unat t" using n(4) by simp
  then have "unat (w + 1) = unat w + 1" using n(1) by (simp add: unat_word_ariths)
  moreover have "(unat w + 1) * unat secs < 2 ^ 64" using le n(1,3) by simp
  ultimately show e: "unat ((w + 1) * secs) = (unat w + 1) * unat secs"
    by (simp add: unat_word_ariths(2))
  then show "s < (w + 1) * secs \<longleftrightarrow> unat s < (unat w + 1) * unat secs" by (simp add: word_less_nat_alt)
  show "s < (w + 1) * secs" if "unat s div unat secs = unat w"
    using that n(2) e by (metis add.commute dividend_less_times_div mult.commute plus_1_eq_Suc word_less_nat_alt mult_Suc_right)
qed

lemma to_ll_None: "to_ll_event c i w e = None \<longleftrightarrow> counts c i w e"
  by (cases e) (auto simp: counts_def)

lemma dropWhile_sorted:
  "sorted (map f xs) \<Longrightarrow> x \<in> set (dropWhile (\<lambda>e. f e < (b :: u64)) xs) \<Longrightarrow> \<not> f x < b"
  by (induction xs) (force split: if_splits)+

lemma keeps_before_end:
  assumes "event_known e" "\<not> counts c i w e" "c \<in> set all_limits" "event_time e < x"
  shows "ll_keeps x (rate_key (rc_prefix c) i w) (the (to_ll_event c i w e))"
proof (cases e)
  case (Request now c' i')
  have "rate_key (rc_prefix c') i' (now div rc_window_secs c') \<noteq> rate_key (rc_prefix c) i w"
  proof
    assume "rate_key (rc_prefix c') i' (now div rc_window_secs c') = rate_key (rc_prefix c) i w"
    then have "rc_prefix c' = rc_prefix c \<and> i' = i \<and> now div rc_window_secs c' = w"
      using assms(1,3) Request by (intro rate_key_inj) auto
    then show False
      using limits_by_prefix [of c' c] assms(1-3) Request by (auto simp: counts_def)
  qed
  with assms(2) Request show ?thesis by simp
qed (use assms in simp)

text \<open>
  C38. While Redis is down, the local limiter lets through exactly the first \<open>max\<close> requests of
  an identifier in each window, whatever other requests and cleanup sweeps come between:
  no other identifier, limit or window shares the counter, and no sweep resets a live window.
\<close>
theorem local_limit_exact:
  assumes "\<forall>e\<in>set es. event_known e \<and> event_time e < 2 ^ 62" and "sorted (map event_time es)"
    and "c \<in> set all_limits" "length es < 2 ^ 64 - 1"
  shows "accepted c i w es ll_new = min (length (filter (counts c i w) es)) (unat (rc_max c))"
proof (cases "\<exists>e\<in>set es. counts c i w e")
  case False
  then have "x \<noteq> None" if "x \<in> set (map (to_ll_event c i w) es)" for x
    using that to_ll_None by fastforce
  then have "ll.event_results w secs k (map (to_ll_event c i w) es) ll_new = []" for secs k
    by (intro event_results_none) blast
  then have "accepted c i w es ll_new = 0" by (simp add: accepted_events)
  moreover have "filter (counts c i w) es = []" using False by (simp add: filter_empty_conv)
  ultimately show ?thesis by simp
next
  case True
  let ?secs = "rc_window_secs c" and ?k = "rate_key (rc_prefix c) i w"
  let ?P = "\<lambda>e. event_time e < (w + 1) * ?secs"
  let ?es = "takeWhile ?P es" and ?fs = "dropWhile ?P es"
  note sb = limits_bounds [OF assms(3)]
  obtain t where t: "t < 2 ^ 62" "t div ?secs = w"
    using True assms(1) by (force simp: counts_def split: rl_event.splits)
  note we = window_end [OF t(1) _ _ t(2)]
  have late: "\<not> counts c i w e" if e: "e \<in> set ?fs" for e
  proof
    assume "counts c i w e"
    then have "unat (event_time e) div unat ?secs = unat w"
      by (auto simp: counts_def unat_div split: rl_event.splits)
    then have "event_time e < (w + 1) * ?secs" using we(3) sb by blast
    then show False using dropWhile_sorted [OF assms(2) e] by simp
  qed
  let ?ev = "map (to_ll_event c i w) ?es"
  have none: "event_known e \<and> event_time e < (w + 1) * ?secs" if "e \<in> set ?es" for e
    using set_takeWhileD [OF that] assms(1) by auto
  have keeps: "ll_keeps ((w + 1) * ?secs) ?k x" if x: "Some x \<in> set ?ev" for x
  proof -
    obtain e where e: "e \<in> set ?es" "Some x = to_ll_event c i w e"
      using x unfolding set_map by blast
    then have "\<not> counts c i w e" using to_ll_None [of c i w e] by (metis option.distinct(1))
    from keeps_before_end [OF _ this assms(3)] none [OF e(1)] e(2) [symmetric] show ?thesis by fastforce
  qed
  have len: "length ?ev < 2 ^ 64 - 1"
    using assms(4) length_takeWhile_le [of ?P es] by simp
  have "ll_inv w ((w + 1) * ?secs) ?k ll_new" "ll_counted w ll_new ?k = 0"
    by (simp_all add: ll_inv_def ll_new_def ll_counted_def)
  from ll.events_accepted [OF this(1) keeps this(2) len, of "rc_max c"]
  have main: "length (filter (\<lambda>n. n \<le> rc_max c) (ll.event_results w ?secs ?k ?ev ll_new)) =
      min (length (filter (\<lambda>e. e = None) ?ev)) (unat (rc_max c))" .
  have "length (filter (\<lambda>e. e = None) ?ev) = length (filter (counts c i w) ?es)"
    by (simp add: filter_map comp_def to_ll_None)
  also have "\<dots> = length (filter (counts c i w) es)"
  proof -
    have "filter (counts c i w) ?fs = []" using late by (simp add: filter_empty_conv)
    then have "filter (counts c i w) (?es @ ?fs) = filter (counts c i w) ?es" by (simp only: filter_append append_Nil2)
    then show ?thesis by simp
  qed
  finally have n: "length (filter (\<lambda>e. e = None) ?ev) = length (filter (counts c i w) es)" .
  obtain s' where "ll.event_results w ?secs ?k (?ev @ map (to_ll_event c i w) ?fs) ll_new =
      ll.event_results w ?secs ?k ?ev ll_new @ ll.event_results w ?secs ?k (map (to_ll_event c i w) ?fs) s'"
    using event_results_split by blast
  moreover have "ll.event_results w ?secs ?k (map (to_ll_event c i w) ?fs) s' = []"
    by (rule event_results_none) (use late to_ll_None in fastforce)
  moreover have "?ev @ map (to_ll_event c i w) ?fs = map (to_ll_event c i w) es"
    by (simp add: map_append [symmetric] del: map_append)
  ultimately have "ll.event_results w ?secs ?k (map (to_ll_event c i w) es) ll_new =
      ll.event_results w ?secs ?k ?ev ll_new" by simp
  then show ?thesis unfolding accepted_events using main n by simp
qed

lemma local_limit_exact_witness:
  "accepted DM_LIMIT ''5'' 20 [Request 100 DM_LIMIT ''5'', Sweep 101, Request 103 API_LIMIT ''5'',
     Request 104 DM_LIMIT ''5''] ll_new = 2"
proof -
  have k: "DM_LIMIT \<in> set all_limits" "API_LIMIT \<in> set all_limits" by (simp_all add: all_limits_def)
  show ?thesis
    by (subst local_limit_exact) (use k in \<open>simp_all add: counts_def\<close>, simp_all add: DM_LIMIT_def API_LIMIT_def)
qed

section \<open>The secret header\<close>

lemma xor_diff_0: "length xs = length ys \<Longrightarrow> xor_diff xs ys d = 0 \<longleftrightarrow> d = 0 \<and> xs = ys"
proof (induction xs ys d rule: xor_diff.induct)
  case (1 x xs y ys d)
  have "d OR (x XOR y) = 0 \<longleftrightarrow> d = 0 \<and> x = y"
    by (metis bit.xor_self or_eq_0_iff xor.left_neutral xor.assoc xor.right_neutral)
  with 1 show ?case by auto
qed auto

lemma str_bytes_inj: "str_bytes s = str_bytes t \<longleftrightarrow> s = t"
proof -
  have "inj (\<lambda>c :: char. of_nat (of_char c) :: u8)"
  proof (rule injI)
    fix c d :: char assume "(of_nat (of_char c) :: u8) = of_nat (of_char d)"
    then have "unat (of_nat (of_char c) :: u8) = unat (of_nat (of_char d) :: u8)" by simp
    moreover have "(of_char c :: nat) < 256" "(of_char d :: nat) < 256" by simp_all
    ultimately show "c = d" by (simp add: unat_of_nat)
  qed
  then show ?thesis by (simp add: str_bytes_def inj_map_eq_map)
qed

text \<open>
  The constant-time comparison of the loadtest secret decides equality: the bypass is
  granted exactly when a non-empty secret is configured and the header equals it.
\<close>
lemma loadtest_bypass_exact:
  "is_loadtest_bypass secret headers \<longleftrightarrow>
     (\<exists>s. secret = Some s \<and> s \<noteq> [] \<and> headers ''x-loadtest-secret'' = Some s)"
proof -
  have "(length (str_bytes s) = length (str_bytes t) \<and> xor_diff (str_bytes s) (str_bytes t) 0 = 0) \<longleftrightarrow> s = t" for s t
    using xor_diff_0 str_bytes_inj by metis
  then show ?thesis
    unfolding is_loadtest_bypass_def Let_def
    by (cases secret; cases "headers ''x-loadtest-secret''") (simp_all, metis)
qed

end
