(* ===== verification/Host.thy ===== *)
theory Host
  imports User_Cache Perm_Load Topics Ws_Events Rate_Limit
begin

text \<open>
  The state the HTTP handlers work on: the tables, the parts of Redis they use, the permission
  cache, the profile cache and the node with its connections, with the storage and service calls
  the handlers share (\<open>src/server-rs/src/services/pg/{servers,roles,server_invites,messages}.rs\<close>,
  \<open>services/{bot_events,audit,presence}.rs\<close>). A call of Postgres may fail as \<open>fd_faults\<close> says, a
  read of the permission tables as \<open>db_fails\<close> says, and a call of Redis as \<open>hs_redis_faults\<close> says.
\<close>

section \<open>Rows\<close>

record invite_row =
  iv_code :: string
  iv_server_id :: int
  iv_inviter_id :: int
  iv_max_uses :: int
  iv_uses :: int
  iv_expires_at_ms :: "int option"
  iv_created_at_ms :: int

record message_row =
  mg_id :: int
  mg_channel_id :: int
  mg_author_id :: int
  mg_type :: int
  mg_content :: string
  mg_created_at_ms :: int

record bot_event =
  be_id :: int
  be_event_type :: string
  be_server_id :: "int option"
  be_actor_user_id :: "int option"
  be_payload :: json

datatype audit_action = KickMember | BanMember | UnbanMember

record audit_entry =
  ae_id :: int
  ae_actor_id :: int
  ae_action :: audit_action
  ae_target_type :: string
  ae_target_id :: int
  ae_server_id :: "int option"
  ae_metadata :: "json option"

text \<open>The rows the authentication code reads and writes.\<close>

record session_row =
  ss_id :: int
  ss_user_id :: int
  ss_token_hash :: string
  ss_revoke_token_hash :: "string option"
  ss_verify_token_hash :: "string option"
  ss_expires_at_ms :: int
  ss_verified :: bool
  ss_ip :: "string option"
  ss_user_agent :: "string option"
  ss_device_hash :: "string option"
  ss_city :: "string option"
  ss_region :: "string option"
  ss_country :: "string option"
  ss_risk_level :: "string option"
  ss_verify_expires_at_ms :: "int option"
  ss_verify_attempts :: int
  ss_created_at_ms :: int
  ss_last_used_at_ms :: int

record account_ban_row =
  ab_id :: int
  ab_user_id :: int
  ab_created_at_ms :: int
  ab_expires_at_ms :: "int option"
  ab_revoked_at_ms :: "int option"

record ip_ban_row =
  ib_id :: int
  ib_ip :: string
  ib_created_at_ms :: int
  ib_expires_at_ms :: "int option"
  ib_revoked_at_ms :: "int option"

record bot_token_row =
  bt_id :: int
  bt_bot_id :: int
  bt_token_hash :: string
  bt_scopes :: "string list"
  bt_allowed_feed_ids :: "int list"
  bt_allowed_channel_ids :: "int list"
  bt_revoked_at_ms :: "int option"
  bt_last_used_at_ms :: "int option"

datatype risk_level = Risk_None | Risk_Low | Risk_High

record login_entry =
  lg_id :: int
  lg_user_id :: "int option"
  lg_session_id :: "int option"
  lg_ip :: string
  lg_user_agent :: "string option"
  lg_device_hash :: "string option"
  lg_success :: bool
  lg_risk_level :: risk_level
  lg_failure_reason :: "string option"

text \<open>A mail handed to the mail service: the address and the code, label or token in it.\<close>

datatype mail = Login_Code string string | Login_Notice string string | Address_Check string string

section \<open>The state\<close>

text \<open>
  Redis sets, hashes, plain keys and counters by name. A plain key or counter has the seconds it
  was told to live; that Redis drops it after them is a change between two steps, which the
  theorems allow for by starting from any state. \<open>hs_ids\<close> is the sequence of ids the snowflake
  generator hands out, of which \<open>hs_id_count\<close> have been drawn. What is handed to the bot outbox,
  the audit log, the login log and the mail service is written there by tasks of their own.
\<close>

record host = profile_db +
  hs_pg :: pg_db
  hs_invites :: "invite_row list"
  hs_messages :: "message_row list"
  hs_sessions :: "session_row list"
  hs_account_bans :: "account_ban_row list"
  hs_ip_bans :: "ip_ban_row list"
  hs_bot_tokens :: "bot_token_row list"
  hs_redis_faults :: "bool list"
  hs_redis_sets :: "(string, string hset) dmap"
  hs_redis_hashes :: "(string, (string \<times> string) list) dmap"
  hs_redis_keys :: "(string, string) dmap"
  hs_redis_ttls :: "(string, int) dmap"
  hs_redis_counters :: "(string, i64_bits \<times> u64 option) dmap"
  hs_limiter :: local_rate_limiter
  hs_permissions :: permission_cache
  hs_node :: node
  hs_ids :: "nat \<Rightarrow> int"
  hs_id_count :: nat
  hs_bot_events :: "bot_event list"
  hs_audit :: "audit_entry list"
  hs_login_log :: "login_entry list"
  hs_mail :: "mail list"

text \<open>
  What the handlers take from outside the repository: printing JSON, encoding an event, formatting
  a time (now, when it is out of the calendar's range), the configured CDN and the identity of this
  instance; and the readings of the monotonic clock, in milliseconds for the profile cache and in
  seconds for the permission cache.
\<close>

record host_env = fed_env +
  json_text :: "json \<Rightarrow> string"
  encode_event :: "ws_event \<Rightarrow> u8 list"
  rfc3339 :: "int \<Rightarrow> string"
  cdn_base :: "string option"
  instance_id :: string
  instant_ms :: int
  instant_secs :: int

type_synonym ('e, 'a) host_step = "(host, 'e, 'a) step"

section \<open>Lifting\<close>

definition next_snowflake :: "host \<Rightarrow> int \<times> host" where
  "next_snowflake s = (hs_ids s (hs_id_count s), s\<lparr>hs_id_count := Suc (hs_id_count s)\<rparr>)"

definition draw_id :: "('e, int) host_step" where
  "draw_id s = (case next_snowflake s of (i, s') \<Rightarrow> (Inr i, s'))"

text \<open>A read of the permission tables; a storage error becomes the given error.\<close>

definition ask_pg :: "(pg_db \<Rightarrow> 'a sqlx_result) \<Rightarrow> (app_error, 'a) host_step" where
  "ask_pg q s = (map_err (\<lambda>_. Internal) (q (hs_pg s)), s)"

definition or_internal :: "(sqlx_error, 'a) host_step \<Rightarrow> (app_error, 'a) host_step" where
  "or_internal m = st_map_err (\<lambda>_. Internal) m"

definition with_permissions ::
  "(permission_cache \<Rightarrow> 'a app_result \<times> permission_cache) \<Rightarrow> (app_error, 'a) host_step" where
  "with_permissions f s = (case f (hs_permissions s) of (r, pc) \<Rightarrow> (r, s\<lparr>hs_permissions := pc\<rparr>))"

definition redis_call :: "(host \<Rightarrow> 'a \<times> host) \<Rightarrow> (unit, 'a) host_step" where
  "redis_call op s =
     (let s' = s\<lparr>hs_redis_faults := tl (hs_redis_faults s)\<rparr>
      in if hs_redis_faults s \<noteq> [] \<and> hd (hs_redis_faults s) then (Inl (), s')
         else (case op s' of (x, s'') \<Rightarrow> (Inr x, s'')))"

text \<open>An error that is only logged.\<close>

definition ignoring_errors :: "('e, 'a) host_step \<Rightarrow> host \<Rightarrow> host" where
  "ignoring_errors m s = snd (m s)"

definition st_do :: "(host \<Rightarrow> host) \<Rightarrow> ('e, unit) host_step" where
  "st_do f = st_modify f"

definition on_permissions :: "(permission_cache \<Rightarrow> permission_cache) \<Rightarrow> host \<Rightarrow> host" where
  "on_permissions f s = s\<lparr>hs_permissions := f (hs_permissions s)\<rparr>"

definition cached_profile :: "'a host_env_scheme \<Rightarrow> int \<Rightarrow> host \<Rightarrow> profile \<times> host" where
  "cached_profile env user_id s = get_or_fetch_vdb (cdn_base env) (instant_ms env) user_id s"

text \<open>A transaction that fails leaves the tables as they were.\<close>

definition transaction :: "(sqlx_error, 'a) host_step \<Rightarrow> (sqlx_error, 'a) host_step" where
  "transaction run s =
     (case run s of
        (Inr x, s') \<Rightarrow> (Inr x, s')
      | (Inl e, s') \<Rightarrow> (Inl e, s\<lparr>fd_faults := fd_faults s'\<rparr>))"

section \<open>Servers, members, roles\<close>

definition pg_add_member :: "int \<Rightarrow> int \<Rightarrow> (sqlx_error, unit) host_step" where
  "pg_add_member server_id user_id =
     db_call (\<lambda>s. ((), s\<lparr>hs_pg := (hs_pg s)\<lparr>db_server_members :=
       (if (server_id, user_id) \<in> set (db_server_members (hs_pg s)) then db_server_members (hs_pg s)
        else db_server_members (hs_pg s) @ [(server_id, user_id)])\<rparr>\<rparr>))"

definition pg_remove_member :: "int \<Rightarrow> int \<Rightarrow> (sqlx_error, unit) host_step" where
  "pg_remove_member server_id user_id =
     db_call (\<lambda>s. ((), s\<lparr>hs_pg := (hs_pg s)\<lparr>db_server_members :=
       filter (\<lambda>m. m \<noteq> (server_id, user_id)) (db_server_members (hs_pg s))\<rparr>\<rparr>))"

definition pg_member_count :: "int \<Rightarrow> (sqlx_error, int) host_step" where
  "pg_member_count server_id =
     db_call (\<lambda>s. (int (length (filter (\<lambda>m. fst m = server_id \<and>
        list_ex (\<lambda>u. us_id u = snd m \<and> us_deleted_at_ms u = None) (fd_users s)) (db_server_members (hs_pg s)))), s))"

definition replace_user_roles_in_server :: "int \<Rightarrow> int \<Rightarrow> int list \<Rightarrow> (sqlx_error, unit) host_step" where
  "replace_user_roles_in_server user_id server_id role_ids =
     transaction
       (st_bind (db_call (\<lambda>s. ((), s))) (\<lambda>_.
        st_bind (db_call (\<lambda>s. ((), s\<lparr>hs_pg := (hs_pg s)\<lparr>db_member_roles :=
          filter (\<lambda>r. \<not> (mr_user_id r = user_id \<and> mr_server_id r = server_id)) (db_member_roles (hs_pg s))\<rparr>\<rparr>))) (\<lambda>_.
        st_bind (if role_ids = [] then st_return ()
                 else db_call (\<lambda>s. ((), s\<lparr>hs_pg := (hs_pg s)\<lparr>db_member_roles := db_member_roles (hs_pg s) @
                   map (\<lambda>rid. \<lparr>mr_user_id = user_id, mr_server_id = server_id, mr_role_id = rid\<rparr>) (remdups role_ids)\<rparr>\<rparr>))) (\<lambda>_.
        db_call (\<lambda>s. ((), s))))))"

definition pg_user_by_id :: "int \<Rightarrow> (sqlx_error, user_row option) host_step" where
  "pg_user_by_id user_id = users_by_id user_id"

section \<open>Invites\<close>

definition invite_by_code :: "string \<Rightarrow> (sqlx_error, invite_row option) host_step" where
  "invite_by_code code = db_call (\<lambda>s. (List.find (\<lambda>r. iv_code r = code) (hs_invites s), s))"

definition valid_code_hash :: "string \<Rightarrow> bool" where
  "valid_code_hash value \<longleftrightarrow>
     is_some_and (strip_prefix ''sha256:'' value) (\<lambda>hex. length hex = 64 \<and> list_all ascii_hexdigit hex)"

definition invite_by_code_hash_for_server ::
  "'b digest_env_scheme \<Rightarrow> int \<Rightarrow> string \<Rightarrow> (sqlx_error, invite_row option) host_step" where
  "invite_by_code_hash_for_server env server_id invite_code_hash =
     (if \<not> valid_code_hash invite_code_hash then st_return None
      else
        let invite_code_hash = to_ascii_lowercase invite_code_hash
        in db_call (\<lambda>s.
             let rows = sort_key (\<lambda>r. - iv_created_at_ms r) (filter (\<lambda>r. iv_server_id r = server_id) (hs_invites s))
             in (List.find (\<lambda>r. code_hash env (iv_code r) = invite_code_hash) rows, s)))"

definition invite_consumable :: "string \<Rightarrow> int \<Rightarrow> invite_row \<Rightarrow> bool" where
  "invite_consumable code now_ms r \<longleftrightarrow>
     iv_code r = code \<and> (iv_max_uses r = 0 \<or> iv_uses r < iv_max_uses r) \<and>
     is_none_or (iv_expires_at_ms r) (\<lambda>t. now_ms < t)"

definition invite_try_consume :: "string \<Rightarrow> int \<Rightarrow> (sqlx_error, bool) host_step" where
  "invite_try_consume code now_ms =
     db_call (\<lambda>s. (length (filter (invite_consumable code now_ms) (hs_invites s)) = 1,
       s\<lparr>hs_invites := update_where (invite_consumable code now_ms) (\<lambda>r. r\<lparr>iv_uses := iv_uses r + 1\<rparr>) (hs_invites s)\<rparr>))"

section \<open>Messages, events, audit, presence\<close>

definition pg_insert_message :: "message_row \<Rightarrow> (sqlx_error, unit) host_step" where
  "pg_insert_message row =
     db_try (\<lambda>s. if mg_id row \<in> set (map mg_id (hs_messages s)) then None
                 else Some ((), s\<lparr>hs_messages := hs_messages s @ [row]\<rparr>))"

definition publish_event :: "'a host_env_scheme \<Rightarrow> string \<Rightarrow> ws_event \<Rightarrow> host \<Rightarrow> host" where
  "publish_event env topic ev s =
     s\<lparr>hs_node := publish topic (json_text env (event_json ev)) (encode_event env ev) (hs_node s)\<rparr>"

definition enqueue_bot_event :: "string \<Rightarrow> int option \<Rightarrow> int option \<Rightarrow> json \<Rightarrow> host \<Rightarrow> host" where
  "enqueue_bot_event event_type server_id actor_user_id payload s =
     (case next_snowflake s of (i, s) \<Rightarrow>
        s\<lparr>hs_bot_events := hs_bot_events s @
          [\<lparr>be_id = i, be_event_type = event_type, be_server_id = server_id, be_actor_user_id = actor_user_id,
            be_payload = payload\<rparr>]\<rparr>)"

definition audit_log_async ::
  "int \<Rightarrow> audit_action \<Rightarrow> string \<Rightarrow> int \<Rightarrow> int option \<Rightarrow> json option \<Rightarrow> host \<Rightarrow> host" where
  "audit_log_async actor_id action target_type target_id server_id metadata s =
     (case next_snowflake s of (i, s) \<Rightarrow>
        s\<lparr>hs_audit := hs_audit s @
          [\<lparr>ae_id = i, ae_actor_id = actor_id, ae_action = action, ae_target_type = target_type,
            ae_target_id = target_id, ae_server_id = server_id, ae_metadata = metadata\<rparr>]\<rparr>)"

definition presence_key :: "int \<Rightarrow> string" where
  "presence_key user_id = ''presence:'' @ int_str user_id"

definition presence_remove :: "int \<Rightarrow> host \<Rightarrow> host" where
  "presence_remove user_id s =
     ignoring_errors (redis_call (\<lambda>s. ((), s\<lparr>hs_redis_keys := dm_del (presence_key user_id) (hs_redis_keys s)\<rparr>))) s"

definition redis_sismember :: "string \<Rightarrow> string \<Rightarrow> (unit, bool) host_step" where
  "redis_sismember key member =
     redis_call (\<lambda>s. (case dm_get (hs_redis_sets s) key of Some xs \<Rightarrow> member \<in> set xs | None \<Rightarrow> False, s))"

definition redis_sadd :: "string \<Rightarrow> string \<Rightarrow> (unit, unit) host_step" where
  "redis_sadd key member =
     redis_call (\<lambda>s. ((), s\<lparr>hs_redis_sets := dm_upd key (hs_insert member) (dm_or_insert key [] (hs_redis_sets s))\<rparr>))"

definition redis_srem :: "string \<Rightarrow> string \<Rightarrow> (unit, unit) host_step" where
  "redis_srem key member =
     redis_call (\<lambda>s. ((), s\<lparr>hs_redis_sets := dm_upd key (hs_remove member) (hs_redis_sets s)\<rparr>))"

definition redis_hset :: "string \<Rightarrow> (string \<times> string) list \<Rightarrow> (unit, unit) host_step" where
  "redis_hset key pairs =
     redis_call (\<lambda>s. ((), s\<lparr>hs_redis_hashes := dm_put key
       (fold (\<lambda>(f, v). AList.update f v) pairs (case dm_get (hs_redis_hashes s) key of Some h \<Rightarrow> h | None \<Rightarrow> []))
       (hs_redis_hashes s)\<rparr>))"

definition redis_del_hash :: "string \<Rightarrow> (unit, unit) host_step" where
  "redis_del_hash key = redis_call (\<lambda>s. ((), s\<lparr>hs_redis_hashes := dm_del key (hs_redis_hashes s)\<rparr>))"

text \<open>
  \<open>SET\<close> with \<open>EX\<close>, \<open>GET\<close>, \<open>EXISTS\<close> and \<open>DEL\<close>; a counter reads as its decimal text. No code mixes
  the two kinds under one name, except for reading and deleting.
\<close>

definition redis_value :: "string \<Rightarrow> host \<Rightarrow> string option" where
  "redis_value key s =
     (case dm_get (hs_redis_keys s) key of
        Some v \<Rightarrow> Some v
      | None \<Rightarrow> map_option (\<lambda>c. int_str (sint (fst c))) (dm_get (hs_redis_counters s) key))"

definition redis_get :: "string \<Rightarrow> (unit, string option) host_step" where
  "redis_get key = redis_call (\<lambda>s. (redis_value key s, s))"

definition redis_exists :: "string \<Rightarrow> (unit, bool) host_step" where
  "redis_exists key = redis_call (\<lambda>s. (redis_value key s \<noteq> None, s))"

definition redis_set_ex :: "string \<Rightarrow> string \<Rightarrow> int \<Rightarrow> (unit, unit) host_step" where
  "redis_set_ex key value secs =
     redis_call (\<lambda>s. ((), s\<lparr>hs_redis_keys := dm_put key value (hs_redis_keys s),
                            hs_redis_ttls := dm_put key secs (hs_redis_ttls s)\<rparr>))"

definition redis_del :: "string \<Rightarrow> (unit, unit) host_step" where
  "redis_del key =
     redis_call (\<lambda>s. ((), s\<lparr>hs_redis_keys := dm_del key (hs_redis_keys s),
                            hs_redis_ttls := dm_del key (hs_redis_ttls s),
                            hs_redis_counters := dm_del key (hs_redis_counters s)\<rparr>))"

section \<open>Counters\<close>

definition redis_incr :: "string \<Rightarrow> host \<Rightarrow> (unit + i64_bits) \<times> host" where
  "redis_incr key =
     redis_call (\<lambda>s.
       let (n, ttl) = (case dm_get (hs_redis_counters s) key of Some c \<Rightarrow> c | None \<Rightarrow> (0, None))
       in (n + 1, s\<lparr>hs_redis_counters := dm_put key (n + 1, ttl) (hs_redis_counters s)\<rparr>))"

definition redis_expire :: "string \<Rightarrow> u64 \<Rightarrow> host \<Rightarrow> host" where
  "redis_expire key secs =
     ignoring_errors (redis_call (\<lambda>s. ((), s\<lparr>hs_redis_counters :=
       dm_upd key (\<lambda>(n, _). (n, Some secs)) (hs_redis_counters s)\<rparr>)))"

definition enforce_limit :: "u64 \<Rightarrow> rate_limit_config \<Rightarrow> string \<Rightarrow> (app_error, rate_limit_info) host_step" where
  "enforce_limit now_secs config identifier s =
     (case enforce redis_incr redis_expire now_secs config identifier (s, hs_limiter s) of
        (r, s', limiter) \<Rightarrow> (r, s'\<lparr>hs_limiter := limiter\<rparr>))"

section \<open>Replacing in a text\<close>

text \<open>\<open>str::replace\<close>, for the patterns the handlers use, none of which is empty.\<close>

function str_replace :: "string \<Rightarrow> string \<Rightarrow> string \<Rightarrow> string" where
  "str_replace pat rep s =
     (if pat = [] \<or> s = [] then s
      else case strip_prefix pat s of
        Some rest \<Rightarrow> rep @ str_replace pat rep rest
      | None \<Rightarrow> hd s # str_replace pat rep (tl s))"
  by pat_completeness auto
termination
proof (relation "measure (\<lambda>(_, _, s). length s)")
  fix pat s rest :: string
  assume "\<not> (pat = [] \<or> s = [])" "strip_prefix pat s = Some rest"
  then show "((pat, rep, rest), (pat, rep, s)) \<in> measure (\<lambda>(_, _, s). length s)" for rep :: string
    by (auto simp: strip_prefix_def split: if_splits)
qed auto

declare str_replace.simps [simp del]

section \<open>Frames\<close>

text \<open>A state with no fault ahead is not changed by taking the next one.\<close>

lemma no_faults:
  fixes s :: host
  shows "fd_faults s = [] \<Longrightarrow> s\<lparr>fd_faults := []\<rparr> = s"
    "hs_redis_faults s = [] \<Longrightarrow> s\<lparr>hs_redis_faults := []\<rparr> = s"
proof -
  have "s\<lparr>fd_faults := fd_faults s\<rparr> = s" by simp
  then show "fd_faults s = [] \<Longrightarrow> s\<lparr>fd_faults := []\<rparr> = s" by metis
  have "s\<lparr>hs_redis_faults := hs_redis_faults s\<rparr> = s" by simp
  then show "hs_redis_faults s = [] \<Longrightarrow> s\<lparr>hs_redis_faults := []\<rparr> = s" by metis
qed

text \<open>A step leaves the part \<open>f\<close> of the state alone.\<close>

definition leaves :: "('s \<Rightarrow> 'x) \<Rightarrow> ('s, 'e, 'a) step \<Rightarrow> bool" where
  "leaves f m \<longleftrightarrow> (\<forall>s r s'. m s = (r, s') \<longrightarrow> f s' = f s)"

named_theorems leaves_intro

lemma leavesD: "leaves f m \<Longrightarrow> m s = (r, s') \<Longrightarrow> f s' = f s"
  unfolding leaves_def by blast

lemma leaves_basic [leaves_intro]:
  "leaves f (st_return x)" "leaves f (st_fail e)" "leaves f (st_lift r)"
  by (simp_all add: leaves_def st_return_def st_fail_def st_lift_def)

lemma leaves_modify: "(\<And>s. f (g s) = f s) \<Longrightarrow> leaves f (st_modify g)" "(\<And>s. f (g s) = f s) \<Longrightarrow> leaves f (st_do g)"
  by (simp_all add: leaves_def st_modify_def st_do_def)

lemma leaves_bind [leaves_intro]:
  "leaves f m \<Longrightarrow> (\<And>x. leaves f (k x)) \<Longrightarrow> leaves f (st_bind m k)"
  unfolding leaves_def st_bind_def by (auto split: prod.splits sum.splits)

lemma leaves_map_err [leaves_intro]: "leaves f m \<Longrightarrow> leaves f (st_map_err g m)"
  unfolding leaves_def st_map_err_def by (auto split: prod.splits)

lemma leaves_or_internal [leaves_intro]: "leaves f m \<Longrightarrow> leaves f (or_internal m)"
  unfolding or_internal_def by (rule leaves_map_err)

lemma leaves_if [leaves_intro]: "leaves f m \<Longrightarrow> leaves f m' \<Longrightarrow> leaves f (if b then m else m')"
  by simp

lemma leaves_option [leaves_intro]:
  "leaves f m \<Longrightarrow> (\<And>x. leaves f (k x)) \<Longrightarrow> leaves f (case q of None \<Rightarrow> m | Some x \<Rightarrow> k x)"
  by (cases q) auto

lemma leaves_ask_pg [leaves_intro]: "leaves f (ask_pg q)"
  by (simp add: leaves_def ask_pg_def)

lemma leaves_ignoring: "leaves f m \<Longrightarrow> f (ignoring_errors m s) = f s"
  by (metis leaves_def ignoring_errors_def prod.collapse)

text \<open>What no failing call and no drawn id touches.\<close>

locale read_frame =
  fixes f :: "host \<Rightarrow> 'x"
  assumes fd_faults: "f (s\<lparr>fd_faults := x\<rparr>) = f s"
    and redis_faults: "f (s\<lparr>hs_redis_faults := y\<rparr>) = f s"
begin

lemma db_call: "(\<And>s x s'. op s = (x, s') \<Longrightarrow> f s' = f s) \<Longrightarrow> leaves f (db_call op)"
  by (auto simp: leaves_def db_call_def Let_def fd_faults split: prod.splits if_splits)

lemma db_try: "(\<And>s x s'. op s = Some (x, s') \<Longrightarrow> f s' = f s) \<Longrightarrow> leaves f (db_try op)"
  by (auto simp: leaves_def db_try_def Let_def fd_faults split: prod.splits option.splits if_splits)

lemma redis: "(\<And>s x s'. op s = (x, s') \<Longrightarrow> f s' = f s) \<Longrightarrow> leaves f (redis_call op)"
  by (auto simp: leaves_def redis_call_def Let_def redis_faults split: prod.splits if_splits)

lemma reads:
  "leaves f (users_by_id i)" "leaves f (bots_by_id i)" "leaves f (pg_user_by_id i)" "leaves f (pg_member_count i)"
  "leaves f (invite_by_code c)" "leaves f (invite_by_code_hash_for_server env i h)"
  "leaves f (redis_sismember key v)" "leaves f (redis_get key)" "leaves f (redis_exists key)" "leaves f (local_user_id_for_remote_principal p u)"
  "leaves f (peer_key_by_peer_and_key p k)"
  unfolding users_by_id_def bots_by_id_def pg_user_by_id_def pg_member_count_def invite_by_code_def
    invite_by_code_hash_for_server_def redis_sismember_def redis_get_def redis_exists_def local_user_id_for_remote_principal_def
    peer_key_by_peer_and_key_def Let_def
  by (intro leaves_intro db_call redis; simp)+

end

text \<open>A limiter touches its counters only.\<close>

lemma enforce_limit_leaves:
  assumes rf: "read_frame f" and counters: "\<And>s cs. f (s\<lparr>hs_redis_counters := cs\<rparr>) = f s"
    and limiter: "\<And>s l. f (s\<lparr>hs_limiter := l\<rparr>) = f s"
  shows "leaves f (enforce_limit secs config ip)"
proof -
  have incr: "f s' = f s" if "redis_incr key s = (r, s')" for key s r s'
  proof -
    have "leaves f (redis_incr key)"
      unfolding redis_incr_def by (rule read_frame.redis [OF rf]) (auto simp: counters Let_def split: prod.splits)
    then show ?thesis using that by (rule leavesD)
  qed
  have expire: "f (redis_expire key n s) = f s" for key n s
    unfolding redis_expire_def by (rule leaves_ignoring [OF read_frame.redis [OF rf]]) (auto simp: counters)
  show ?thesis
    unfolding leaves_def enforce_limit_def enforce_def rate_count_def Let_def
    by (auto simp: limiter expire split: prod.splits sum.splits if_splits dest!: incr)
qed

lemma draw_leaves: "(\<And>s n. f (s\<lparr>hs_id_count := n\<rparr>) = f s) \<Longrightarrow> leaves f draw_id"
  by (auto simp: leaves_def draw_id_def next_snowflake_def)

section \<open>A concrete state\<close>

definition demo_host_env :: host_env where
  "demo_host_env = \<lparr>
     url_parse = (\<lambda>_. None),
     url_join = (\<lambda>_ _. None),
     parse_ip = (\<lambda>_. None),
     parse_raw = (\<lambda>bytes. Some \<lparr>raw_protocol_version = 1, raw_event_id = bytes, raw_kind = ''membership_join'',
       raw_source_peer_id = ''a.example'', raw_destination_peer_id = ''b.example'', raw_sent_at_ms = 5,
       raw_payload = Json_Object [(''serverId'', Json_String ''9''), (''remoteUserId'', Json_String ''u1''),
         (''inviteCode'', Json_String ''abc'')]\<rparr>),
     to_vec = (\<lambda>_. Some ''text''),
     digests = demo_auth_env,
     json_text = (\<lambda>_. ''{}''),
     encode_event = (\<lambda>_. [1]),
     rfc3339 = int_str,
     cdn_base = None,
     instance_id = ''b.example'',
     instant_ms = 0,
     instant_secs = 0\<rparr>"

definition demo_host :: host where
  "demo_host = \<lparr>
     fd_faults = [],
     fd_users = [\<lparr>us_id = 50, us_email = ''u1@a'', us_password_hash = [], us_username = ''u1'', us_display_name = None,
                 us_avatar_url = None, us_email_verified = False, us_totp_secret = None, us_totp_enabled_at_ms = None,
        us_backup_code_hashes = [], us_deleted_at_ms = None, us_updated_at_ms = 0\<rparr>],
     fd_principals = [\<lparr>pr_id = 1, pr_home_peer_id = ''a.example'', pr_remote_user_id = ''u1'', pr_local_user_id = Some 50,
                      pr_remote_username = None, pr_display_name = None, pr_avatar_url = None,
                      pr_status = ''active'', pr_updated_at_ms = 0\<rparr>],
     fd_peer_keys = [\<lparr>kr_peer_id = ''a.example'', kr_key_id = ''k1'', kr_api_origin = ''https://a.example'',
                     kr_public_key = replicate 32 CHR ''k'', kr_status = ''active'', kr_valid_after_ms = None,
                     kr_valid_until_ms = None, kr_updated_at_ms = 0\<rparr>],
     fd_routes = [], fd_nonces = [], fd_inbound = [], fd_outbound = [],
     pf_bots = [], pf_entries = [],
     hs_pg = \<lparr>db_servers = [\<lparr>sv_id = 9, sv_name = ''s'', sv_owner_id = 3, sv_welcome_channel_id = None,
                            sv_welcome_message = None, sv_deleted_at = None\<rparr>],
              db_server_members = [(9, 3)], db_roles = [], db_member_roles = [], db_channels = [], db_overrides = [],
              db_bot_roles = [], db_relationships = [], db_dm_members = [], db_fails = (\<lambda>_. False)\<rparr>,
     hs_invites = [\<lparr>iv_code = ''abc'', iv_server_id = 9, iv_inviter_id = 3, iv_max_uses = 5, iv_uses = 1,
                    iv_expires_at_ms = Some 9000, iv_created_at_ms = 1\<rparr>],
     hs_messages = [], hs_sessions = [], hs_account_bans = [], hs_ip_bans = [], hs_bot_tokens = [],
     hs_redis_faults = [], hs_redis_sets = [], hs_redis_hashes = [], hs_redis_keys = [], hs_redis_ttls = [],
     hs_redis_counters = [], hs_limiter = ll_new, hs_permissions = pc_new, hs_node = demo_node ''n'',
     hs_ids = (\<lambda>n. 1000 + int n), hs_id_count = 0, hs_bot_events = [], hs_audit = [], hs_login_log = [], hs_mail = []\<rparr>"

end
