(* ===== verification/Fed_Membership.thy ===== *)
theory Fed_Membership
  imports Host Perm_Refine
begin

text \<open>
  What a federation event does to this server once it was accepted
  (\<open>src/server-rs/src/handlers/federation.rs\<close>): the membership of a remote principal, the
  moderation it may do, the routes its peer is granted, and the messages sent about it. Every
  handler is a step on the state of \<open>Host\<close>; what the code only logs, the step ignores.
\<close>

section \<open>Rejections\<close>

definition federation_membership_rejected :: "string \<Rightarrow> app_error" where
  "federation_membership_rejected code = WithCode 400 code ''Federation event was rejected''"

definition federation_require_remote_principal :: "string \<Rightarrow> string \<Rightarrow> (app_error, int) host_step" where
  "federation_require_remote_principal home_peer_id remote_user_id =
     st_bind (or_internal (local_user_id_for_remote_principal home_peer_id remote_user_id)) (\<lambda>local_user_id.
     st_lift (ok_or local_user_id (federation_membership_rejected ''FEDERATION_UNKNOWN_REMOTE_PRINCIPAL'')))"

definition federation_banned_set_key :: "int \<Rightarrow> string" where
  "federation_banned_set_key server_id = ''banned:'' @ int_str server_id"

definition federation_ban_detail_key :: "int \<Rightarrow> int \<Rightarrow> string" where
  "federation_ban_detail_key server_id target_user_id =
     ''ban:'' @ int_str server_id @ '':'' @ int_str target_user_id"

section \<open>Routes of a peer\<close>

definition MAX_FEDERATION_MEMBERS_PER_SERVER :: int where "MAX_FEDERATION_MEMBERS_PER_SERVER = 10000"
definition FEDERATION_CHANNEL_TYPE_SERVER_TEXT :: int where "FEDERATION_CHANNEL_TYPE_SERVER_TEXT = 0"

text \<open>The id drawn for a route row names no row the model keeps.\<close>

definition grant_route :: "string \<Rightarrow> route_scope \<Rightarrow> int \<Rightarrow> (sqlx_error, unit) host_step" where
  "grant_route peer_id scope now_ms =
     st_bind draw_id (\<lambda>_. upsert_peer_route peer_id scope now_ms)"

definition grant_federation_peer_server_routes :: "string \<Rightarrow> int \<Rightarrow> int \<Rightarrow> host \<Rightarrow> host" where
  "grant_federation_peer_server_routes peer_id server_id now_ms s =
     (case grant_route peer_id (Scope_Server server_id) now_ms s of
        (Inl _, s) \<Rightarrow> s
      | (Inr _, s) \<Rightarrow>
          (case pg_channels_for_server (hs_pg s) server_id of
             Inl _ \<Rightarrow> s
           | Inr channels \<Rightarrow>
               fold (\<lambda>channel s.
                 if ch_type channel \<noteq> FEDERATION_CHANNEL_TYPE_SERVER_TEXT then s
                 else ignoring_errors (grant_route peer_id (Scope_Channel (ch_id channel)) now_ms) s) channels s))"

definition revoke_federation_peer_server_routes :: "string \<Rightarrow> int \<Rightarrow> int \<Rightarrow> host \<Rightarrow> host" where
  "revoke_federation_peer_server_routes peer_id server_id now_ms s =
     (let s = ignoring_errors (revoke_peer_route peer_id (Scope_Server server_id) now_ms) s
      in case pg_channels_for_server (hs_pg s) server_id of
           Inl _ \<Rightarrow> s
         | Inr channels \<Rightarrow>
             fold (\<lambda>channel. ignoring_errors (revoke_peer_route peer_id (Scope_Channel (ch_id channel)) now_ms))
               channels s)"

section \<open>Announcing a member\<close>

definition member_join_payload ::
  "string \<Rightarrow> string \<Rightarrow> string \<Rightarrow> string option \<Rightarrow> string option \<Rightarrow> string \<Rightarrow> json" where
  "member_join_payload server_id user_id username display_name avatar_url joined_at =
     Json_Object
       [(''serverId'', Json_String server_id), (''userId'', Json_String user_id), (''username'', Json_String username),
        (''displayName'', json_opt display_name), (''avatarUrl'', json_opt avatar_url),
        (''joinedAt'', Json_String joined_at)]"

definition federation_publish_member_join :: "'a host_env_scheme \<Rightarrow> int \<Rightarrow> int \<Rightarrow> int \<Rightarrow> host \<Rightarrow> host" where
  "federation_publish_member_join env server_id local_user_id now_ms s =
     (case cached_profile env local_user_id s of
        ((username, avatar_url, display_name), s) \<Rightarrow>
          let user_id_str = int_str local_user_id;
              server_id_str = int_str server_id;
              joined_at = rfc3339 env now_ms;
              s = enqueue_bot_event ''MEMBER_JOIN'' (Some server_id) (Some local_user_id)
                    (member_join_payload server_id_str user_id_str username display_name avatar_url joined_at) s
          in publish_event env (presence_topic server_id)
               (Ev_Member_Join server_id_str user_id_str username display_name avatar_url joined_at) s)"

definition federation_configured_server_text_channel_exists :: "pg_db \<Rightarrow> int \<Rightarrow> int \<Rightarrow> bool" where
  "federation_configured_server_text_channel_exists db server_id channel_id =
     (case pg_channel_by_id db channel_id of
        Inr (Some channel) \<Rightarrow>
          ch_server_id channel = Some server_id \<and> ch_type channel = FEDERATION_CHANNEL_TYPE_SERVER_TEXT
      | _ \<Rightarrow> False)"

definition welcome_content :: "server_row \<Rightarrow> string \<Rightarrow> int \<Rightarrow> string" where
  "welcome_content server username member_count =
     (let content = (case opt_filter (\<lambda>message. message \<noteq> []) (sv_welcome_message server) of
                       Some message \<Rightarrow> message
                     | None \<Rightarrow> ''{user} joined the server!'')
      in str_replace ''{count}'' (int_str member_count)
           (str_replace ''{server}'' (sv_name server)
             (str_replace ''{user}'' username content)))"

definition publish_welcome ::
  "'a host_env_scheme \<Rightarrow> server_row \<Rightarrow> int \<Rightarrow> int \<Rightarrow> int \<Rightarrow> profile \<Rightarrow> string \<Rightarrow> int \<Rightarrow> host \<Rightarrow> host" where
  "publish_welcome env server channel_id local_user_id message_id profile content now_ms s =
     (case profile of
        (username, avatar_url, display_name) \<Rightarrow>
          let created_at = rfc3339 env now_ms;
              view = \<lparr>mv_id = int_str message_id, mv_channel_id = int_str channel_id,
                      mv_author_id = int_str local_user_id, mv_username = username,
                      mv_display_name = display_name, mv_avatar_url = avatar_url,
                      mv_content = content, mv_created_at = created_at\<rparr>;
              s = publish_event env (channel_live_topic channel_id) (Ev_Message_Create view) s
          in publish_event env (channel_notify_topic channel_id)
               (Ev_Channel_Unread_Signal (int_str channel_id) (Some (int_str (sv_id server)))
                 (int_str message_id) (int_str local_user_id) created_at False False) s)"

definition federation_publish_welcome_join_message ::
  "'a host_env_scheme \<Rightarrow> server_row \<Rightarrow> int \<Rightarrow> int \<Rightarrow> int \<Rightarrow> host \<Rightarrow> host" where
  "federation_publish_welcome_join_message env server local_user_id member_count now_ms s =
     (case sv_welcome_channel_id server of
        None \<Rightarrow> s
      | Some welcome_channel_id \<Rightarrow>
          if \<not> federation_configured_server_text_channel_exists (hs_pg s) (sv_id server) welcome_channel_id then s
          else
            (case cached_profile env local_user_id s of
               (profile, s) \<Rightarrow>
                 let content = welcome_content server (fst profile) member_count
                 in case next_snowflake s of
                      (message_id, s) \<Rightarrow>
                        (case pg_insert_message
                            \<lparr>mg_id = message_id, mg_channel_id = welcome_channel_id, mg_author_id = local_user_id,
                             mg_type = 1, mg_content = content, mg_created_at_ms = now_ms\<rparr> s of
                           (Inl _, s) \<Rightarrow> s
                         | (Inr _, s) \<Rightarrow>
                             publish_welcome env server welcome_channel_id local_user_id message_id profile
                               content now_ms s)))"

section \<open>Join\<close>

abbreviation "invite_not_found \<equiv> federation_membership_rejected ''FEDERATION_INVITE_NOT_FOUND''"

definition join_invite ::
  "'a host_env_scheme \<Rightarrow> int \<Rightarrow> string option \<Rightarrow> string option \<Rightarrow> int \<Rightarrow> (app_error, invite_row) host_step" where
  "join_invite env server_id invite_code invite_code_hash now_ms =
     st_bind (or_internal
       (case invite_code of
          Some code \<Rightarrow> invite_by_code code
        | None \<Rightarrow> invite_by_code_hash_for_server (digests env) server_id
                    (case invite_code_hash of Some h \<Rightarrow> h | None \<Rightarrow> []))) (\<lambda>invite.
     st_bind (st_lift (ok_or invite invite_not_found)) (\<lambda>invite.
     st_bind (st_lift (guard (iv_server_id invite = server_id) invite_not_found)) (\<lambda>_.
     st_bind (st_lift (guard (\<not> (is_some_and (iv_expires_at_ms invite) (\<lambda>expires_at_ms. expires_at_ms < now_ms)
                                  \<or> iv_max_uses invite \<noteq> 0 \<and> iv_max_uses invite \<le> iv_uses invite))
                invite_not_found)) (\<lambda>_.
     st_return invite))))"

definition join_server :: "int \<Rightarrow> int \<Rightarrow> (app_error, server_row) host_step" where
  "join_server server_id local_user_id =
     st_bind (ask_pg (\<lambda>db. pg_server_by_id db server_id)) (\<lambda>server.
     st_bind (st_lift (ok_or server invite_not_found)) (\<lambda>server.
     st_bind (st_lift (guard (sv_deleted_at server = None) invite_not_found)) (\<lambda>_.
     st_bind (st_map_err (\<lambda>_. Internal)
       (redis_sismember (federation_banned_set_key server_id) (int_str local_user_id))) (\<lambda>banned.
     st_bind (st_lift (guard (\<not> banned) invite_not_found)) (\<lambda>_.
     st_return server)))))"

definition join_new_member ::
  "'a host_env_scheme \<Rightarrow> ingress_decision \<Rightarrow> invite_row \<Rightarrow> server_row \<Rightarrow> int \<Rightarrow> int \<Rightarrow> int
    \<Rightarrow> (app_error, unit) host_step" where
  "join_new_member env decision invite server server_id local_user_id now_ms =
     st_bind (or_internal (pg_member_count server_id)) (\<lambda>member_count.
     st_bind (st_lift (guard (member_count < MAX_FEDERATION_MEMBERS_PER_SERVER)
                (federation_membership_rejected ''FEDERATION_SERVER_FULL''))) (\<lambda>_.
     st_bind (or_internal (invite_try_consume (iv_code invite) now_ms)) (\<lambda>consumed.
     st_bind (st_lift (guard consumed invite_not_found)) (\<lambda>_.
     st_bind (or_internal (pg_add_member server_id local_user_id)) (\<lambda>_.
     st_do (\<lambda>s.
       let s = on_permissions (add_user_server local_user_id server_id) s;
           s = grant_federation_peer_server_routes (id_source_peer_id decision) server_id now_ms s;
           s = federation_publish_member_join env server_id local_user_id now_ms s
       in federation_publish_welcome_join_message env server local_user_id (member_count + 1) now_ms s))))))"

definition apply_federation_membership_join ::
  "'a host_env_scheme \<Rightarrow> ingress_decision \<Rightarrow> string \<Rightarrow> string \<Rightarrow> int \<Rightarrow> string option \<Rightarrow> string option \<Rightarrow> int
    \<Rightarrow> (app_error, unit) host_step" where
  "apply_federation_membership_join env decision home_peer_id remote_user_id server_id invite_code invite_code_hash now_ms =
     st_bind (st_lift (guard (\<not> (invite_code = None \<and> invite_code_hash = None))
                (federation_membership_rejected ''FEDERATION_INVITE_REQUIRED''))) (\<lambda>_.
     st_bind (federation_require_remote_principal home_peer_id remote_user_id) (\<lambda>local_user_id.
     st_bind (join_invite env server_id invite_code invite_code_hash now_ms) (\<lambda>invite.
     st_bind (join_server server_id local_user_id) (\<lambda>server.
     st_bind (ask_pg (\<lambda>db. pg_is_member db server_id local_user_id)) (\<lambda>already_member.
     if already_member then
       st_do (\<lambda>s. grant_federation_peer_server_routes (id_source_peer_id decision) server_id now_ms
                    (on_permissions (add_user_server local_user_id server_id) s))
     else join_new_member env decision invite server server_id local_user_id now_ms)))))"

section \<open>Leave\<close>

definition leave_payload :: "string \<Rightarrow> string \<Rightarrow> string \<Rightarrow> json" where
  "leave_payload server_id user_id reason =
     Json_Object [(''serverId'', Json_String server_id), (''userId'', Json_String user_id), (''reason'', Json_String reason)]"

definition apply_federation_membership_leave ::
  "'a host_env_scheme \<Rightarrow> ingress_decision \<Rightarrow> string \<Rightarrow> string \<Rightarrow> int \<Rightarrow> int \<Rightarrow> (app_error, unit) host_step" where
  "apply_federation_membership_leave env decision home_peer_id remote_user_id server_id now_ms =
     st_bind (federation_require_remote_principal home_peer_id remote_user_id) (\<lambda>local_user_id.
     st_bind (ask_pg (\<lambda>db. pg_server_by_id db server_id)) (\<lambda>server.
     st_bind (st_lift (ok_or server (federation_membership_rejected ''FEDERATION_SERVER_NOT_FOUND''))) (\<lambda>server.
     st_bind (st_lift (guard (sv_deleted_at server = None)
                (federation_membership_rejected ''FEDERATION_SERVER_NOT_FOUND''))) (\<lambda>_.
     st_bind (st_lift (guard (sv_owner_id server \<noteq> local_user_id)
                (federation_membership_rejected ''FEDERATION_OWNER_CANNOT_LEAVE''))) (\<lambda>_.
     st_bind (ask_pg (\<lambda>db. pg_is_member db server_id local_user_id)) (\<lambda>is_member.
     st_bind (st_lift (guard is_member (federation_membership_rejected ''FEDERATION_NOT_MEMBER''))) (\<lambda>_.
     st_bind (or_internal (pg_remove_member server_id local_user_id)) (\<lambda>_.
     st_do (\<lambda>s.
       let s = ignoring_errors (replace_user_roles_in_server local_user_id server_id []) s;
           s = on_permissions (remove_user_server local_user_id server_id) s;
           s = presence_remove local_user_id s;
           s = revoke_federation_peer_server_routes (id_source_peer_id decision) server_id now_ms s;
           s = enqueue_bot_event ''MEMBER_LEAVE'' (Some server_id) (Some local_user_id)
                 (leave_payload (int_str server_id) (int_str local_user_id) ''leave'') s
       in publish_event env (presence_topic server_id)
            (Ev_Member_Remove (int_str server_id) (int_str local_user_id)) s)))))))))"

section \<open>Moderation\<close>

datatype moderation_action = Mod_Remove | Mod_Ban | Mod_Unban

fun required_permission :: "moderation_action \<Rightarrow> i64_bits" where
  "required_permission Mod_Remove = KICK_MEMBERS"
| "required_permission Mod_Ban = BAN_MEMBERS"
| "required_permission Mod_Unban = BAN_MEMBERS"

fun moderation_audit_action :: "moderation_action \<Rightarrow> audit_action" where
  "moderation_audit_action Mod_Remove = KickMember"
| "moderation_audit_action Mod_Ban = BanMember"
| "moderation_audit_action Mod_Unban = UnbanMember"

fun bot_reason :: "moderation_action \<Rightarrow> string" where
  "bot_reason Mod_Remove = ''kick''"
| "bot_reason Mod_Ban = ''ban''"
| "bot_reason Mod_Unban = ''unban''"

definition moderation_hierarchy ::
  "'a host_env_scheme \<Rightarrow> int \<Rightarrow> int \<Rightarrow> int \<Rightarrow> (app_error, unit) host_step" where
  "moderation_hierarchy env actor_user_id target_user_id server_id =
     st_map_err (\<lambda>_. federation_membership_rejected ''FEDERATION_MODERATION_HIERARCHY_DENIED'') (\<lambda>s.
       with_permissions (check_hierarchy (hs_pg s) (instant_secs env) actor_user_id target_user_id server_id) s)"

definition drop_member_state ::
  "'a host_env_scheme \<Rightarrow> int \<Rightarrow> int \<Rightarrow> int \<Rightarrow> moderation_action \<Rightarrow> host \<Rightarrow> host" where
  "drop_member_state env server_id actor_user_id target_user_id action s =
     (let s = ignoring_errors (replace_user_roles_in_server target_user_id server_id []) s;
          s = on_permissions (remove_user_server target_user_id server_id) s;
          channel_ids = (case pg_channels_for_server (hs_pg s) server_id of
                           Inr channels \<Rightarrow> map ch_id channels | Inl _ \<Rightarrow> []);
          s = s\<lparr>hs_node := unsubscribe_user_from_server target_user_id server_id channel_ids (hs_node s)\<rparr>;
          s = enqueue_bot_event ''MEMBER_LEAVE'' (Some server_id) (Some actor_user_id)
                (leave_payload (int_str server_id) (int_str target_user_id) (bot_reason action)) s;
          s = publish_event env (presence_topic server_id)
                (Ev_Member_Remove (int_str server_id) (int_str target_user_id)) s
      in publish_event env (user_topic target_user_id) (Ev_Server_Delete (int_str server_id)) s)"

definition federation_apply_member_remove ::
  "'a host_env_scheme \<Rightarrow> int \<Rightarrow> int \<Rightarrow> int \<Rightarrow> moderation_action \<Rightarrow> bool \<Rightarrow> (app_error, unit) host_step" where
  "federation_apply_member_remove env server_id actor_user_id target_user_id action require_existing_member =
     st_bind (ask_pg (\<lambda>db. pg_is_member db server_id target_user_id)) (\<lambda>is_member.
     if \<not> is_member then
       (if require_existing_member then st_fail (federation_membership_rejected ''FEDERATION_NOT_MEMBER'')
        else st_return ())
     else
       st_bind (moderation_hierarchy env actor_user_id target_user_id server_id) (\<lambda>_.
       st_bind (or_internal (pg_remove_member server_id target_user_id)) (\<lambda>_.
       st_do (drop_member_state env server_id actor_user_id target_user_id action))))"

text \<open>The ban goes to Redis, whose errors are dropped.\<close>

definition record_ban :: "int \<Rightarrow> int \<Rightarrow> int \<Rightarrow> string option \<Rightarrow> int \<Rightarrow> host \<Rightarrow> host" where
  "record_ban server_id actor_user_id target_user_id reason now_ms s =
     ignoring_errors (redis_hset (federation_ban_detail_key server_id target_user_id)
        [(''banned_by'', int_str actor_user_id),
         (''reason'', case reason of Some r \<Rightarrow> r | None \<Rightarrow> []),
         (''created_at_millis'', int_str now_ms)])
       (ignoring_errors (redis_sadd (federation_banned_set_key server_id) (int_str target_user_id)) s)"

definition moderation_ban ::
  "'a host_env_scheme \<Rightarrow> int \<Rightarrow> int \<Rightarrow> int \<Rightarrow> string option \<Rightarrow> int \<Rightarrow> (app_error, unit) host_step" where
  "moderation_ban env server_id actor_user_id target_user_id reason now_ms =
     st_bind (ask_pg (\<lambda>db. pg_is_member db server_id target_user_id)) (\<lambda>is_member.
     st_bind (if is_member then moderation_hierarchy env actor_user_id target_user_id server_id
              else st_return ()) (\<lambda>_.
     st_bind (st_map_err (\<lambda>_. Internal)
       (redis_sismember (federation_banned_set_key server_id) (int_str target_user_id))) (\<lambda>banned.
     st_bind (if \<not> banned then st_do (record_ban server_id actor_user_id target_user_id reason now_ms)
              else st_return ()) (\<lambda>_.
     if is_member
     then federation_apply_member_remove env server_id actor_user_id target_user_id Mod_Ban False
     else st_return ()))))"

definition moderation_unban :: "int \<Rightarrow> int \<Rightarrow> host \<Rightarrow> host" where
  "moderation_unban server_id target_user_id s =
     ignoring_errors (redis_del_hash (federation_ban_detail_key server_id target_user_id))
       (ignoring_errors (redis_srem (federation_banned_set_key server_id) (int_str target_user_id)) s)"

definition moderation_audit_metadata :: "moderation_action \<Rightarrow> int \<Rightarrow> string option \<Rightarrow> json" where
  "moderation_audit_metadata action server_id reason =
     (case action of
        Mod_Unban \<Rightarrow> Json_Object [(''serverId'', Json_String (int_str server_id)), (''federated'', Json_Bool True)]
      | _ \<Rightarrow> Json_Object [(''serverId'', Json_String (int_str server_id)), (''reason'', json_opt reason),
                          (''federated'', Json_Bool True)])"

definition moderation_allowed ::
  "'a host_env_scheme \<Rightarrow> moderation_action \<Rightarrow> int \<Rightarrow> int \<Rightarrow> int \<Rightarrow> (app_error, unit) host_step" where
  "moderation_allowed env action actor_user_id server_id target_user_id =
     st_bind (st_map_err (\<lambda>_. federation_membership_rejected ''FEDERATION_MODERATION_DENIED'') (\<lambda>s.
       with_permissions (require_permission (hs_pg s) (instant_secs env) actor_user_id server_id
         (required_permission action)) s)) (\<lambda>_.
     st_bind (st_lift (guard (actor_user_id \<noteq> target_user_id)
                (federation_membership_rejected ''FEDERATION_CANNOT_MODERATE_SELF''))) (\<lambda>_.
     st_bind (ask_pg (\<lambda>db. pg_server_by_id db server_id)) (\<lambda>server.
     st_bind (st_lift (ok_or server (federation_membership_rejected ''FEDERATION_SERVER_NOT_FOUND''))) (\<lambda>server.
     st_bind (st_lift (guard (sv_deleted_at server = None)
                (federation_membership_rejected ''FEDERATION_SERVER_NOT_FOUND''))) (\<lambda>_.
     st_bind (st_lift (guard (\<not> ((action = Mod_Remove \<or> action = Mod_Ban) \<and> target_user_id = sv_owner_id server))
                (federation_membership_rejected ''FEDERATION_CANNOT_MODERATE_OWNER''))) (\<lambda>_.
     st_bind (or_internal (pg_user_by_id target_user_id)) (\<lambda>target.
     st_lift (guard (target \<noteq> None) (federation_membership_rejected ''FEDERATION_TARGET_USER_NOT_FOUND'')))))))))"

definition moderation_effect ::
  "'a host_env_scheme \<Rightarrow> moderation_action \<Rightarrow> int \<Rightarrow> int \<Rightarrow> int \<Rightarrow> string option \<Rightarrow> int
    \<Rightarrow> (app_error, unit) host_step" where
  "moderation_effect env action actor_user_id server_id target_user_id reason now_ms =
     (case action of
        Mod_Remove \<Rightarrow> federation_apply_member_remove env server_id actor_user_id target_user_id action True
      | Mod_Ban \<Rightarrow> moderation_ban env server_id actor_user_id target_user_id reason now_ms
      | Mod_Unban \<Rightarrow> st_do (moderation_unban server_id target_user_id))"

definition apply_federation_membership_moderation ::
  "'a host_env_scheme \<Rightarrow> moderation_action \<Rightarrow> string \<Rightarrow> string \<Rightarrow> int \<Rightarrow> int \<Rightarrow> string option \<Rightarrow> int
    \<Rightarrow> (app_error, unit) host_step" where
  "apply_federation_membership_moderation env action home_peer_id remote_user_id server_id target_user_id reason now_ms =
     st_bind (federation_require_remote_principal home_peer_id remote_user_id) (\<lambda>actor_user_id.
     st_bind (moderation_allowed env action actor_user_id server_id target_user_id) (\<lambda>_.
     st_bind (moderation_effect env action actor_user_id server_id target_user_id reason now_ms) (\<lambda>_.
     st_do (audit_log_async actor_user_id (moderation_audit_action action) ''user'' target_user_id (Some server_id)
       (Some (moderation_audit_metadata action server_id reason))))))"

section \<open>Commands\<close>

definition apply_upsert_principal ::
  "'a host_env_scheme \<Rightarrow> string \<Rightarrow> string \<Rightarrow> string option \<Rightarrow> string option \<Rightarrow> string option \<Rightarrow> int
    \<Rightarrow> (app_error, unit) host_step" where
  "apply_upsert_principal env home_peer_id remote_user_id username display_name avatar_url now_ms =
     st_bind draw_id (\<lambda>principal_id.
     st_bind draw_id (\<lambda>local_user_id.
     st_bind (or_internal (upsert_remote_principal (digests env)
       \<lparr>up_principal_id = principal_id, up_local_user_id = local_user_id, up_home_peer_id = home_peer_id,
        up_remote_user_id = remote_user_id, up_remote_username = username, up_display_name = display_name,
        up_avatar_url = avatar_url, up_now_ms = now_ms\<rparr>)) (\<lambda>_.
     st_return ())))"

fun apply_federation_runtime_command ::
  "'a host_env_scheme \<Rightarrow> ingress_decision \<Rightarrow> runtime_command \<Rightarrow> int \<Rightarrow> (app_error, unit) host_step" where
  "apply_federation_runtime_command env decision AuditOnly now_ms = st_return ()"
| "apply_federation_runtime_command env decision
     (Cmd_UpsertRemotePrincipal home_peer_id remote_user_id username display_name avatar_url) now_ms =
     apply_upsert_principal env home_peer_id remote_user_id username display_name avatar_url now_ms"
| "apply_federation_runtime_command env decision
     (Cmd_MembershipJoin home_peer_id remote_user_id server_id invite_code invite_code_hash) now_ms =
     apply_federation_membership_join env decision home_peer_id remote_user_id server_id invite_code
       invite_code_hash now_ms"
| "apply_federation_runtime_command env decision (Cmd_MembershipLeave home_peer_id remote_user_id server_id) now_ms =
     apply_federation_membership_leave env decision home_peer_id remote_user_id server_id now_ms"
| "apply_federation_runtime_command env decision
     (Cmd_MembershipRemove home_peer_id remote_user_id server_id target_user_id reason) now_ms =
     apply_federation_membership_moderation env Mod_Remove home_peer_id remote_user_id server_id target_user_id
       reason now_ms"
| "apply_federation_runtime_command env decision
     (Cmd_MembershipBan home_peer_id remote_user_id server_id target_user_id reason) now_ms =
     apply_federation_membership_moderation env Mod_Ban home_peer_id remote_user_id server_id target_user_id
       reason now_ms"
| "apply_federation_runtime_command env decision
     (Cmd_MembershipUnban home_peer_id remote_user_id server_id target_user_id) now_ms =
     apply_federation_membership_moderation env Mod_Unban home_peer_id remote_user_id server_id target_user_id
       None now_ms"

section \<open>What the announcements leave alone\<close>

text \<open>
  The parts of the state that announcing a member, granting and revoking routes, the caches and the
  audit log do not touch.
\<close>

locale host_frame = read_frame +
  assumes ids: "f (s\<lparr>hs_id_count := n\<rparr>) = f s"
    and routes: "f (s\<lparr>fd_routes := rs\<rparr>) = f s"
    and profiles: "f (s\<lparr>pf_entries := es\<rparr>) = f s"
    and bots: "f (s\<lparr>hs_bot_events := bs\<rparr>) = f s"
    and nodes: "f (s\<lparr>hs_node := nd\<rparr>) = f s"
    and messages: "f (s\<lparr>hs_messages := ms\<rparr>) = f s"
    and keys: "f (s\<lparr>hs_redis_keys := ks\<rparr>) = f s"
    and permissions: "f (s\<lparr>hs_permissions := pc\<rparr>) = f s"
    and audit: "f (s\<lparr>hs_audit := as\<rparr>) = f s"
    and member_roles: "f (s\<lparr>hs_pg := (hs_pg s)\<lparr>db_member_roles := mr\<rparr>\<rparr>) = f s"
begin

lemma draws: "leaves f draw_id"
  by (auto simp: leaves_def draw_id_def next_snowflake_def ids)

lemma granting: "leaves f (grant_route p sc t)"
  unfolding grant_route_def upsert_peer_route_def
  by (intro leaves_intro draws) (auto intro: db_call simp: routes split: prod.split)

lemma revoking: "leaves f (revoke_peer_route p sc t)"
  unfolding revoke_peer_route_def by (auto intro: db_call simp: routes split: prod.split)

lemma granted: "f (grant_federation_peer_server_routes p sid t s) = f s"
proof -
  have 1: "f (fold (\<lambda>c s. if ch_type c \<noteq> FEDERATION_CHANNEL_TYPE_SERVER_TEXT then s
        else ignoring_errors (grant_route p (Scope_Channel (ch_id c)) t) s) cs s) = f s" for cs s
    by (induction cs arbitrary: s) (simp_all add: leaves_ignoring [OF granting])
  show ?thesis
    unfolding grant_federation_peer_server_routes_def
    by (auto simp: 1 split: prod.split sum.split dest: leavesD [OF granting])
qed

lemma revoked: "f (revoke_federation_peer_server_routes p sid t s) = f s"
proof -
  have "f (fold (\<lambda>c. ignoring_errors (revoke_peer_route p (Scope_Channel (ch_id c)) t)) cs s) = f s" for cs :: "channel_row list" and s
    by (induction cs arbitrary: s) (simp_all add: leaves_ignoring [OF revoking])
  then show ?thesis
    by (simp add: revoke_federation_peer_server_routes_def Let_def leaves_ignoring [OF revoking] split: sum.split)
qed

lemma profile: "cached_profile env i s = (p, s') \<Longrightarrow> f s' = f s"
proof -
  have "f s' = f s" if "fetch_entry t i s = (e, s')" for t e s'
    using that leavesD [OF reads(1)] leavesD [OF reads(2)]
    by (fastforce simp: fetch_entry_def split: prod.splits sum.splits option.splits)
  then show "cached_profile env i s = (p, s') \<Longrightarrow> f s' = f s"
    by (auto simp: cached_profile_def get_or_fetch_vdb_def get_or_fetch_def Let_def profiles split: prod.splits option.splits)
qed

lemma published: "f (publish_event env t ev s) = f s" and bot: "f (enqueue_bot_event ty sid u j s) = f s"
  and audited: "f (audit_log_async a ac tt ti si md s) = f s"
  and permitted: "f (on_permissions g s) = f s"
  by (simp_all add: publish_event_def enqueue_bot_event_def audit_log_async_def on_permissions_def next_snowflake_def
      nodes ids bots audit permissions)

lemma checked: "leaves f (with_permissions c)"
  by (auto simp: leaves_def with_permissions_def permissions split: prod.splits)

lemma unpresent: "f (presence_remove u s) = f s"
  unfolding presence_remove_def by (intro leaves_ignoring redis) (auto simp: keys)

lemma joined: "f (federation_publish_member_join env sid u t s) = f s"
  by (auto simp: federation_publish_member_join_def Let_def published bot split: prod.split dest: profile)

lemma inserted: "leaves f (pg_insert_message row)"
  unfolding pg_insert_message_def by (rule db_try) (auto simp: messages split: if_splits)

lemma welcomed: "f (federation_publish_welcome_join_message env sv u n t s) = f s"
proof -
  have "f (publish_welcome env sv c u i p x t s) = f s" for c i p x s
    by (simp add: publish_welcome_def Let_def published split: prod.split)
  moreover have "next_snowflake s = (i, s') \<Longrightarrow> f s' = f s" for i s s'
    by (auto simp: next_snowflake_def ids)
  ultimately show ?thesis
    unfolding federation_publish_welcome_join_message_def Let_def
    by (auto split: option.split prod.split sum.split dest!: profile leavesD [OF inserted])
qed

lemma roles_wiped: "leaves f (replace_user_roles_in_server u sid [])"
proof -
  have tr: "leaves f (transaction m)" if "leaves f m" for m :: "(sqlx_error, unit) host_step"
    using that by (auto simp: leaves_def transaction_def fd_faults split: prod.splits sum.splits)
  show ?thesis
    unfolding replace_user_roles_in_server_def
    by (rule tr, intro leaves_intro db_call) (auto simp: member_roles)
qed

lemma dropped: "f (drop_member_state env sid a u act s) = f s"
  by (simp add: drop_member_state_def Let_def published bot nodes permitted leaves_ignoring [OF roles_wiped])

end

lemma read_step:
  assumes "st_bind m k s = (r, s')" "leaves f m" "f s' \<noteq> f s"
  obtains x s1 where "m s = (Inr x, s1)" "f s1 = f s" "k x s1 = (r, s')"
proof (cases "m s")
  case (Pair q s1)
  then have "f s1 = f s" by (rule leavesD [OF assms(2)])
  then show thesis using assms(1,3) that Pair by (auto simp: st_bind_def split: sum.splits)
qed

lemma db_call_result: "db_call op s = (Inr x, s') \<Longrightarrow> op (s\<lparr>fd_faults := tl (fd_faults s)\<rparr>) = (x, s')"
  by (auto simp: db_call_def Let_def split: prod.splits if_splits)

lemma db_call_failed: "db_call op s = (Inl e, s') \<Longrightarrow> s' = s\<lparr>fd_faults := tl (fd_faults s)\<rparr>"
  by (auto simp: db_call_def Let_def split: prod.splits if_splits)

lemma redis_call_Inr: "redis_call op s = (Inr x, s') \<Longrightarrow> op (s\<lparr>hs_redis_faults := tl (hs_redis_faults s)\<rparr>) = (x, s')"
  by (auto simp: redis_call_def Let_def split: prod.splits if_splits)

interpretation inbound: host_frame "\<lambda>s. (fd_inbound s, fd_nonces s, fd_peer_keys s)"
  by unfold_locales simp_all

interpretation members: host_frame "\<lambda>s. (db_server_members (hs_pg s), hs_invites s)"
  by unfold_locales simp_all

abbreviation tables :: "host \<Rightarrow> pg_db \<times> invite_row list \<times> principal_row list \<times> user_row list \<times> (string, string hset) dmap" where
  "tables s \<equiv> (hs_pg s, hs_invites s, fd_principals s, fd_users s, hs_redis_sets s)"

interpretation tables: read_frame tables
  by unfold_locales simp_all

abbreviation "server_members s \<equiv> db_server_members (hs_pg s)"

section \<open>Joining\<close>

definition mapped_principal :: "host \<Rightarrow> string \<Rightarrow> string \<Rightarrow> int \<Rightarrow> bool" where
  "mapped_principal s home_peer_id remote_user_id u \<longleftrightarrow>
     (\<exists>p\<in>set (fd_principals s). pr_home_peer_id p = home_peer_id \<and> pr_remote_user_id p = remote_user_id \<and>
        pr_status p = ''active'' \<and> pr_local_user_id p = Some u)"

definition banned_in :: "host \<Rightarrow> int \<Rightarrow> int \<Rightarrow> bool" where
  "banned_in s server_id u \<longleftrightarrow>
     (case dm_get (hs_redis_sets s) (federation_banned_set_key server_id) of
        Some xs \<Rightarrow> int_str u \<in> set xs | None \<Rightarrow> False)"

definition member_total :: "host \<Rightarrow> int \<Rightarrow> nat" where
  "member_total s server_id =
     length (filter (\<lambda>m. fst m = server_id \<and> list_ex (\<lambda>u. us_id u = snd m \<and> us_deleted_at_ms u = None) (fd_users s))
       (server_members s))"

definition names_invite :: "'a digest_env_scheme \<Rightarrow> string option \<Rightarrow> string option \<Rightarrow> invite_row \<Rightarrow> bool" where
  "names_invite env invite_code invite_code_hash r \<longleftrightarrow>
     (case invite_code of
        Some code \<Rightarrow> iv_code r = code
      | None \<Rightarrow> (\<exists>h. invite_code_hash = Some h \<and> code_hash env (iv_code r) = to_ascii_lowercase h))"

lemma require_principal_reads: "leaves tables (federation_require_remote_principal p u)"
  unfolding federation_require_remote_principal_def by (intro leaves_intro tables.reads)

lemma require_principal_Inr:
  assumes "federation_require_remote_principal p u s = (Inr i, s')"
  shows "mapped_principal s p u i"
  using assms
  unfolding federation_require_remote_principal_def or_internal_def local_user_id_for_remote_principal_def
  by (auto simp: result_iff mapped_principal_def find_Some_iff bind_eq_Some_conv dest!: db_call_result)

lemma join_invite_reads: "leaves tables (join_invite env sid c h t)"
  unfolding join_invite_def by (intro leaves_intro tables.reads)

lemma join_invite_Inr:
  assumes "join_invite env sid c h t s = (Inr ivr, s')"
  shows "ivr \<in> set (hs_invites s) \<and> iv_server_id ivr = sid \<and> (c \<noteq> None \<or> h \<noteq> None \<longrightarrow> names_invite (digests env) c h ivr)"
proof -
  have find: "List.find P xs = Some x \<Longrightarrow> x \<in> set xs \<and> P x" for P and xs :: "invite_row list" and x
    by (auto simp: find_Some_iff)
  show ?thesis
    using assms
    unfolding join_invite_def or_internal_def invite_by_code_def invite_by_code_hash_for_server_def
    by (auto simp: result_iff names_invite_def Let_def split: option.splits if_splits dest!: db_call_result find)
qed

lemma join_server_reads: "leaves tables (join_server sid u)"
  unfolding join_server_def by (intro leaves_intro tables.reads)

lemma join_server_Inr:
  assumes "join_server sid u s = (Inr sv, s')"
  shows "sv \<in> set (db_servers (hs_pg s)) \<and> sv_id sv = sid \<and> sv_deleted_at sv = None \<and> \<not> banned_in s sid u"
  using assms
  unfolding join_server_def ask_pg_def redis_sismember_def
  by (auto simp: result_iff pg_server_by_id_def pg_ask_def banned_in_def find_Some_iff guard_def map_err_def
      split: if_splits option.splits sum.splits dest!: redis_call_Inr)

lemma join_new_member_changes:
  assumes run: "join_new_member env d ivr sv sid u t s = (r, s')"
    and changed: "server_members s' \<noteq> server_members s"
  shows "int (member_total s sid) < MAX_FEDERATION_MEMBERS_PER_SERVER \<and>
    length (filter (invite_consumable (iv_code ivr) t) (hs_invites s)) = 1 \<and>
    server_members s' = server_members s @ [(sid, u)] \<and>
    hs_invites s' = update_where (invite_consumable (iv_code ivr) t) (\<lambda>r. r\<lparr>iv_uses := iv_uses r + 1\<rparr>) (hs_invites s)"
proof -
  have T: "tables s' \<noteq> tables s" using changed by auto
  obtain n s1 where n: "or_internal (pg_member_count sid) s = (Inr n, s1)" "tables s1 = tables s"
    and run: "st_bind (st_lift (guard (n < MAX_FEDERATION_MEMBERS_PER_SERVER)
        (federation_membership_rejected ''FEDERATION_SERVER_FULL''))) (\<lambda>_.
      st_bind (or_internal (invite_try_consume (iv_code ivr) t)) (\<lambda>consumed.
      st_bind (st_lift (guard consumed invite_not_found)) (\<lambda>_.
      st_bind (or_internal (pg_add_member sid u)) (\<lambda>_.
      st_do (\<lambda>s.
        let s = on_permissions (add_user_server u sid) s;
            s = grant_federation_peer_server_routes (id_source_peer_id d) sid t s;
            s = federation_publish_member_join env sid u t s
        in federation_publish_welcome_join_message env sv u (n + 1) t s))))) s1 = (r, s')"
    using run unfolding join_new_member_def
    by (rule read_step) (use T in \<open>auto intro: leaves_intro tables.reads\<close>)
  have full: "int (member_total s sid) = n"
    using n(1) by (auto simp: or_internal_def result_iff pg_member_count_def member_total_def dest!: db_call_result)
  have keep: "db_server_members (hs_pg (federation_publish_welcome_join_message env sv u m t
      (federation_publish_member_join env sid u t (grant_federation_peer_server_routes p sid t
        (on_permissions g s)))) ) = db_server_members (hs_pg s) \<and>
     hs_invites (federation_publish_welcome_join_message env sv u m t
      (federation_publish_member_join env sid u t (grant_federation_peer_server_routes p sid t
        (on_permissions g s)))) = hs_invites s" for m p g s
    using members.welcomed members.joined members.granted members.permitted by (metis prod.inject)
  have fresh: "server_members s' \<noteq> server_members s1" "hs_invites s1 = hs_invites s" "server_members s1 = server_members s"
    using changed n(2) by auto
  show ?thesis
    using run fresh full
    unfolding invite_try_consume_def pg_add_member_def st_do_def or_internal_def
    by (cases r) (auto simp: result_iff keep Let_def guard_def dest!: db_call_result db_call_failed split: if_splits)
qed

lemma only_consumable:
  assumes "length (filter P xs) = 1" "distinct (map g xs)" "\<And>x. P x \<Longrightarrow> g x = g y" "y \<in> set xs"
  shows "P y"
proof -
  obtain x where "x \<in> set xs" "P x" using assms(1) by (metis filter_empty_conv list.size(3) zero_neq_one)
  moreover have "x = y" if "x \<in> set xs" "P x" for x
    using that assms(2,4) assms(3) by (metis distinct_map inj_onD)
  ultimately show ?thesis by blast
qed

text \<open>Up to the membership test the handler only reads.\<close>

lemma join_prefix:
  assumes run: "apply_federation_membership_join env d p ru sid code hash t s = (r, s')"
    and T: "tables s' \<noteq> tables s"
  obtains u row sv already s1 where
    "mapped_principal s p ru u" "row \<in> set (hs_invites s)" "iv_server_id row = sid"
    "names_invite (digests env) code hash row" "sv \<in> set (db_servers (hs_pg s))" "sv_id sv = sid"
    "sv_deleted_at sv = None" "\<not> banned_in s sid u" "tables s1 = tables s"
    "(if already then st_do (\<lambda>s. grant_federation_peer_server_routes (id_source_peer_id d) sid t
        (on_permissions (add_user_server u sid) s))
      else join_new_member env d row sv sid u t) s1 = (r, s')"
proof -
  define k4 where "k4 u row sv already = (if already then
      st_do (\<lambda>s. grant_federation_peer_server_routes (id_source_peer_id d) sid t
        (on_permissions (add_user_server u sid) s))
    else join_new_member env d row sv sid u t)" for u row sv already
  define k3 where "k3 u row sv = st_bind (ask_pg (\<lambda>db. pg_is_member db sid u)) (k4 u row sv)" for u row sv
  define k2 where "k2 u row = st_bind (join_server sid u) (k3 u row)" for u row
  define k1 where "k1 u = st_bind (join_invite env sid code hash t) (k2 u)" for u
  have start: "st_bind (st_lift (guard (\<not> (code = None \<and> hash = None))
      (federation_membership_rejected ''FEDERATION_INVITE_REQUIRED'')))
      (\<lambda>_. st_bind (federation_require_remote_principal p ru) k1) s = (r, s')"
    using run unfolding apply_federation_membership_join_def k1_def k2_def k3_def k4_def .
  have named: "code \<noteq> None \<or> hash \<noteq> None" using start T by (auto simp: st_bind_def st_lift_def guard_def split: if_splits)
  then have "st_bind (federation_require_remote_principal p ru) k1 s = (r, s')"
    using start by (auto simp: st_bind_def st_lift_def guard_def)
  from this require_principal_reads T obtain u s1
    where u: "federation_require_remote_principal p ru s = (Inr u, s1)" "tables s1 = tables s" "k1 u s1 = (r, s')"
    by (rule read_step)
  from u(3)[unfolded k1_def] join_invite_reads T[folded u(2)] obtain row s2
    where row: "join_invite env sid code hash t s1 = (Inr row, s2)" "tables s2 = tables s1" "k2 u row s2 = (r, s')"
    by (rule read_step)
  from row(3)[unfolded k2_def] join_server_reads T[folded u(2), folded row(2)] obtain sv s3
    where sv: "join_server sid u s2 = (Inr sv, s3)" "tables s3 = tables s2" "k3 u row sv s3 = (r, s')"
    by (rule read_step)
  from sv(3)[unfolded k3_def] leaves_ask_pg T[folded u(2), folded row(2), folded sv(2)] obtain already s4
    where s4: "tables s4 = tables s3" "k4 u row sv already s4 = (r, s')"
    by (rule read_step)
  show thesis
    by (rule that [OF _ _ _ _ _ _ _ _ _ s4(2)[unfolded k4_def]])
      (use require_principal_Inr [OF u(1)] join_invite_Inr [OF row(1)] join_server_Inr [OF sv(1)] named u(2) row(2) sv(2) s4(1)
        in \<open>auto simp: banned_in_def\<close>)
qed

text \<open>
  C11. A federation join makes a member only with a valid invite: if the members change at all,
  then by the one pair of the server and the account the signer's principal is mapped to, this
  account is not banned, the server exists and has fewer than 10,000 members, and the invite the
  event names, by its code or by the hash of its code, belongs to that server, has not expired, is
  not used up, and is counted as used once more.
\<close>
theorem join_needs_a_valid_invite:
  assumes "apply_federation_membership_join env d home_peer remote_user sid code hash now s = (r, s')"
    and "server_members s' \<noteq> server_members s"
    and "distinct (map iv_code (hs_invites s))"
  shows "\<exists>u row sv. mapped_principal s home_peer remote_user u \<and> \<not> banned_in s sid u \<and>
    sv \<in> set (db_servers (hs_pg s)) \<and> sv_id sv = sid \<and> sv_deleted_at sv = None \<and>
    int (member_total s sid) < 10000 \<and>
    row \<in> set (hs_invites s) \<and> names_invite (digests env) code hash row \<and> iv_server_id row = sid \<and>
    invite_consumable (iv_code row) now row \<and>
    server_members s' = server_members s @ [(sid, u)] \<and>
    hs_invites s' = update_where (\<lambda>r. r = row) (\<lambda>r. r\<lparr>iv_uses := iv_uses r + 1\<rparr>) (hs_invites s)"
proof -
  have T: "tables s' \<noteq> tables s" using assms(2) by auto
  from assms(1) T obtain u row sv already s1 where facts: "mapped_principal s home_peer remote_user u"
    "row \<in> set (hs_invites s)" "iv_server_id row = sid" "names_invite (digests env) code hash row"
    "sv \<in> set (db_servers (hs_pg s))" "sv_id sv = sid" "sv_deleted_at sv = None" "\<not> banned_in s sid u"
    and t: "tables s1 = tables s"
    and run: "(if already then st_do (\<lambda>s. grant_federation_peer_server_routes (id_source_peer_id d) sid now
        (on_permissions (add_user_server u sid) s))
      else join_new_member env d row sv sid u now) s1 = (r, s')"
    by (rule join_prefix)
  have "\<not> already"
    using run assms(2) t members.granted members.permitted by (auto simp: st_do_def st_modify_def)
  with run have "join_new_member env d row sv sid u now s1 = (r, s')" by simp
  note join_new_member_changes [OF this]
  then have new: "int (member_total s sid) < MAX_FEDERATION_MEMBERS_PER_SERVER"
    "length (filter (invite_consumable (iv_code row) now) (hs_invites s)) = 1"
    "server_members s' = server_members s @ [(sid, u)]"
    "hs_invites s' = update_where (invite_consumable (iv_code row) now) (\<lambda>r. r\<lparr>iv_uses := iv_uses r + 1\<rparr>) (hs_invites s)"
    using assms(2) t by (auto simp: member_total_def)
  have c: "invite_consumable (iv_code row) now row"
    by (rule only_consumable [OF new(2) assms(3) _ facts(2)]) (simp add: invite_consumable_def)
  have "update_where (invite_consumable (iv_code row) now) f (hs_invites s) = update_where (\<lambda>r. r = row) f (hs_invites s)" for f
    unfolding update_where_def using assms(3) facts(2) c
    by (intro map_cong refl if_cong) (auto simp: invite_consumable_def distinct_map dest: inj_onD)
  with facts new c show ?thesis unfolding MAX_FEDERATION_MEMBERS_PER_SERVER_def by auto
qed

lemma members_frame:
  "server_members (federation_publish_welcome_join_message env sv u n t s) = server_members s"
  "server_members (federation_publish_member_join env sid u t s) = server_members s"
  "server_members (grant_federation_peer_server_routes p sid t s) = server_members s"
  "server_members (on_permissions g s) = server_members s"
  using members.welcomed members.joined members.granted members.permitted by (metis prod.inject)+

definition demo_decision :: ingress_decision where
  "demo_decision = \<lparr>id_source_peer_id = ''a.example'', id_destination_peer_id = ''b.example'',
     id_remote_event_id = ''evt-1'', id_event_kind = MembershipJoin, id_payload_hash = ''h''\<rparr>"

definition demo_join :: "(app_error + unit) \<times> host" where
  "demo_join = apply_federation_membership_join demo_host_env demo_decision ''a.example'' ''u1'' 9 (Some ''abc'') None 2000 demo_host"

lemma demo_join_members: "fst demo_join = Inr () \<and> server_members (snd demo_join) = [(9, 3), (9, 50)]"
proof -
  have "str_trim ''x'' = ''x''" by code_simp
  have find: "List.find P [x] = (if P x then Some x else None)" for P and x :: 'z by simp
  show ?thesis
    unfolding demo_join_def apply_federation_membership_join_def federation_require_remote_principal_def join_invite_def
      join_server_def join_new_member_def or_internal_def local_user_id_for_remote_principal_def invite_by_code_def
      ask_pg_def pg_server_by_id_def pg_is_member_def pg_ask_def redis_sismember_def pg_member_count_def
      invite_try_consume_def pg_add_member_def st_do_def
    by (simp add: demo_host_def st_bind_def st_lift_def st_return_def st_map_err_def st_modify_def db_call_def
        redis_call_def ok_or_def guard_def invite_consumable_def MAX_FEDERATION_MEMBERS_PER_SERVER_def Let_def
        members_frame)
qed

lemma join_needs_a_valid_invite_witness:
  "\<exists>row. iv_server_id row = 9 \<and> invite_consumable (iv_code row) 2000 row \<and>
     server_members (snd demo_join) = server_members demo_host @ [(9, 50)] \<and>
     hs_invites (snd demo_join) = update_where (\<lambda>r. r = row) (\<lambda>r. r\<lparr>iv_uses := iv_uses r + 1\<rparr>) (hs_invites demo_host)"
proof -
  have m: "server_members demo_host = [(9, 3)]" "distinct (map iv_code (hs_invites demo_host))" by code_simp+
  with demo_join_members have ch: "server_members (snd demo_join) \<noteq> server_members demo_host" by simp
  have run: "apply_federation_membership_join demo_host_env demo_decision ''a.example'' ''u1'' 9 (Some ''abc'') None 2000 demo_host
      = (fst demo_join, snd demo_join)"
    by (simp add: demo_join_def)
  from join_needs_a_valid_invite [OF run ch m(2)] demo_join_members m(1) show ?thesis by auto
qed

section \<open>Moderating\<close>

lemma leaves_with_permissions:
  "(\<And>s pc. f (s\<lparr>hs_permissions := pc\<rparr>) = f s) \<Longrightarrow> leaves f (\<lambda>s. with_permissions (c s) s)"
  by (auto simp: leaves_def with_permissions_def split: prod.splits)

abbreviation "pg_and_permissions s \<equiv> (hs_pg s, hs_permissions s)"

interpretation pg_and_permissions: read_frame pg_and_permissions
  by unfold_locales simp_all

lemma moderation_hierarchy_leaves: "(\<And>s pc. f (s\<lparr>hs_permissions := pc\<rparr>) = f s) \<Longrightarrow> leaves f (moderation_hierarchy env a u sid)"
  unfolding moderation_hierarchy_def by (intro leaves_intro leaves_with_permissions)

lemma moderation_hierarchy_Inr:
  assumes "moderation_hierarchy env a u sid s = (Inr x, s')"
  shows "fst (check_hierarchy (hs_pg s) (instant_secs env) a u sid (hs_permissions s)) = Inr ()"
  using assms by (auto simp: moderation_hierarchy_def with_permissions_def result_iff split: prod.splits)

lemma moderation_allowed_leaves: "leaves (\<lambda>s. (server_members s, fd_principals s)) (moderation_allowed env act a sid u)"
proof -
  have rf: "read_frame (\<lambda>s. (server_members s, fd_principals s))" by unfold_locales simp_all
  show ?thesis
    unfolding moderation_allowed_def
    by (intro leaves_intro leaves_with_permissions read_frame.reads [OF rf]) simp
qed

lemma moderation_allowed_Inr:
  assumes "moderation_allowed env act a sid u s = (Inr x, s')"
  shows "hs_pg s' = hs_pg s \<and> a \<noteq> u \<and>
    require_permission (hs_pg s) (instant_secs env) a sid (required_permission act) (hs_permissions s) = (Inr (), hs_permissions s') \<and>
    (\<exists>sv\<in>set (db_servers (hs_pg s)). sv_id sv = sid \<and> sv_deleted_at sv = None \<and> (act = Mod_Unban \<or> sv_owner_id sv \<noteq> u))"
  using assms
  unfolding moderation_allowed_def ask_pg_def with_permissions_def pg_user_by_id_def users_by_id_def or_internal_def
  by (cases act) (fastforce simp: result_iff pg_server_by_id_def pg_ask_def find_Some_iff guard_def map_err_def
      split: if_splits option.splits sum.splits prod.splits dest!: db_call_result)+

lemma member_remove_changes:
  assumes run: "federation_apply_member_remove env sid a u act need s = (r, s')"
    and changed: "server_members s' \<noteq> server_members s"
  shows "(sid, u) \<in> set (server_members s) \<and>
    fst (check_hierarchy (hs_pg s) (instant_secs env) a u sid (hs_permissions s)) = Inr () \<and>
    server_members s' = filter (\<lambda>m. m \<noteq> (sid, u)) (server_members s)"
proof -
  have T: "pg_and_permissions s' \<noteq> pg_and_permissions s" using changed by auto
  from run[unfolded federation_apply_member_remove_def] leaves_ask_pg T obtain is_member s1
    where s1: "ask_pg (\<lambda>db. pg_is_member db sid u) s = (Inr is_member, s1)" "pg_and_permissions s1 = pg_and_permissions s"
      and run1: "(if \<not> is_member then (if need then st_fail (federation_membership_rejected ''FEDERATION_NOT_MEMBER'')
          else st_return ())
        else st_bind (moderation_hierarchy env a u sid) (\<lambda>_.
          st_bind (or_internal (pg_remove_member sid u)) (\<lambda>_. st_do (drop_member_state env sid a u act)))) s1 = (r, s')"
    by (rule read_step)
  have ch1: "server_members s' \<noteq> server_members s1" using changed s1(2) by auto
  have member: is_member using run1 ch1 by (auto simp: result_iff split: if_splits)
  then have run2: "st_bind (moderation_hierarchy env a u sid) (\<lambda>_.
      st_bind (or_internal (pg_remove_member sid u)) (\<lambda>_. st_do (drop_member_state env sid a u act))) s1 = (r, s')"
    using run1 by simp
  have "leaves server_members (moderation_hierarchy env a u sid)" by (rule moderation_hierarchy_leaves) simp
  from run2 this ch1 obtain x s2
    where s2: "moderation_hierarchy env a u sid s1 = (Inr x, s2)" "server_members s2 = server_members s1"
      and run3: "st_bind (or_internal (pg_remove_member sid u)) (\<lambda>_. st_do (drop_member_state env sid a u act)) s2 = (r, s')"
    by (rule read_step)
  have "server_members (drop_member_state env sid a u act t) = server_members t" for t
    using members.dropped [of env sid a u act t] by simp
  with run3 ch1 s2(2) have "server_members s' = filter (\<lambda>m. m \<noteq> (sid, u)) (server_members s1)"
    unfolding or_internal_def pg_remove_member_def st_do_def
    by (cases r) (auto simp: result_iff dest!: db_call_result db_call_failed)
  then show ?thesis
    using moderation_hierarchy_Inr [OF s2(1)] s1 member by (auto simp: ask_pg_def map_err_def pg_is_member_def pg_ask_def split: if_splits)
qed

lemma record_ban_members [simp]: "server_members (record_ban sid a u reason t s) = server_members s"
  and moderation_unban_members [simp]: "server_members (moderation_unban sid u s) = server_members s"
  by (simp_all add: record_ban_def moderation_unban_def ignoring_errors_def redis_hset_def redis_sadd_def redis_srem_def
      redis_del_hash_def redis_call_def Let_def)

lemma moderation_ban_changes:
  assumes run: "moderation_ban env sid a u reason t s = (r, s')"
    and changed: "server_members s' \<noteq> server_members s"
  shows "(sid, u) \<in> set (server_members s) \<and>
    fst (check_hierarchy (hs_pg s) (instant_secs env) a u sid (hs_permissions s)) = Inr () \<and>
    server_members s' = filter (\<lambda>m. m \<noteq> (sid, u)) (server_members s)"
proof -
  define k3 where "k3 is_member banned = st_bind (if \<not> banned then st_do (record_ban sid a u reason t) else st_return ())
    (\<lambda>_. if is_member then federation_apply_member_remove env sid a u Mod_Ban False else st_return ())" for is_member banned
  define k2 where "k2 is_member = st_bind (st_map_err (\<lambda>_. Internal) (redis_sismember (federation_banned_set_key sid) (int_str u)))
    (k3 is_member)" for is_member
  define k1 where "k1 is_member = st_bind (if is_member then moderation_hierarchy env a u sid else st_return ()) (\<lambda>_. k2 is_member)"
    for is_member
  have T: "pg_and_permissions s' \<noteq> pg_and_permissions s" using changed by auto
  have start: "st_bind (ask_pg (\<lambda>db. pg_is_member db sid u)) k1 s = (r, s')"
    using run unfolding moderation_ban_def k1_def k2_def k3_def .
  from start leaves_ask_pg T obtain m s1
    where s1: "ask_pg (\<lambda>db. pg_is_member db sid u) s = (Inr m, s1)" "pg_and_permissions s1 = pg_and_permissions s" "k1 m s1 = (r, s')"
    by (rule read_step)
  have "leaves server_members (if m then moderation_hierarchy env a u sid else st_return ())"
    by (intro leaves_intro moderation_hierarchy_leaves) simp
  from s1(3)[unfolded k1_def] this obtain x s2
    where s2: "(if m then moderation_hierarchy env a u sid else st_return ()) s1 = (Inr x, s2)"
      "server_members s2 = server_members s1" "k2 m s2 = (r, s')"
    by (rule read_step) (use changed s1(2) in auto)
  have "leaves server_members (st_map_err (\<lambda>_. Internal) (redis_sismember (federation_banned_set_key sid) (int_str u)))"
  proof -
    have rf: "read_frame server_members" by unfold_locales simp_all
    show ?thesis by (intro leaves_intro read_frame.reads [OF rf])
  qed
  from s2(3)[unfolded k2_def] this obtain banned s3
    where s3: "server_members s3 = server_members s2" "k3 m banned s3 = (r, s')"
    by (rule read_step) (use changed s1(2) s2(2) in auto)
  have "leaves server_members (if \<not> banned then st_do (record_ban sid a u reason t) else st_return ())"
    by (intro leaves_intro leaves_modify) simp
  from s3(2)[unfolded k3_def] this obtain y s4
    where s4: "server_members s4 = server_members s3"
      "(if m then federation_apply_member_remove env sid a u Mod_Ban False else st_return ()) s4 = (r, s')"
    by (rule read_step) (use changed s1(2) s2(2) s3(1) in auto)
  have m: m using s4 changed s1(2) s2(2) s3(1) by (auto simp: result_iff split: if_splits)
  then have "fst (check_hierarchy (hs_pg s1) (instant_secs env) a u sid (hs_permissions s1)) = Inr ()"
    using s2(1) by (auto intro: moderation_hierarchy_Inr)
  then show ?thesis
    using member_remove_changes [of env sid a u Mod_Ban False s4 r s'] m s4 changed s1(2) s2(2) s3(1) by auto
qed

text \<open>
  C7. A federated moderator removes a member only where a local one could: if a remove or ban
  event changes the members at all, it takes exactly the target out of the named server, the
  account the signer's principal is mapped to has the permission the action needs there, is
  strictly above the target in the hierarchy check and is not the target, the target was a member,
  and it does not own the server.
\<close>
theorem moderation_respects_rank:
  assumes "apply_federation_membership_moderation env act home_peer remote_user sid target reason now s = (r, s')"
    and "server_members s' \<noteq> server_members s"
  shows "\<exists>a pc. mapped_principal s home_peer remote_user a \<and> act \<noteq> Mod_Unban \<and> a \<noteq> target \<and>
    require_permission (hs_pg s) (instant_secs env) a sid (required_permission act) (hs_permissions s) = (Inr (), pc) \<and>
    fst (check_hierarchy (hs_pg s) (instant_secs env) a target sid pc) = Inr () \<and>
    (\<exists>sv\<in>set (db_servers (hs_pg s)). sv_id sv = sid \<and> sv_deleted_at sv = None \<and> sv_owner_id sv \<noteq> target) \<and>
    (sid, target) \<in> set (server_members s) \<and>
    server_members s' = filter (\<lambda>m. m \<noteq> (sid, target)) (server_members s)"
proof -
  define k2 where "k2 a = st_bind (moderation_effect env act a sid target reason now) (\<lambda>_.
    st_do (audit_log_async a (moderation_audit_action act) ''user'' target (Some sid)
      (Some (moderation_audit_metadata act sid reason))))" for a
  define k1 where "k1 a = st_bind (moderation_allowed env act a sid target) (\<lambda>_. k2 a)" for a
  have start: "st_bind (federation_require_remote_principal home_peer remote_user) k1 s = (r, s')"
    using assms(1) unfolding apply_federation_membership_moderation_def k1_def k2_def .
  have "leaves pg_and_permissions (federation_require_remote_principal home_peer remote_user)"
    unfolding federation_require_remote_principal_def by (intro leaves_intro pg_and_permissions.reads)
  from start this obtain a s1
    where s1: "federation_require_remote_principal home_peer remote_user s = (Inr a, s1)"
      "pg_and_permissions s1 = pg_and_permissions s" "k1 a s1 = (r, s')"
    by (rule read_step) (use assms(2) in auto)
  have "leaves server_members (moderation_allowed env act a sid target)"
    using moderation_allowed_leaves [of env act a sid target] by (auto simp: leaves_def)
  from s1(3)[unfolded k1_def] this obtain x s2
    where s2: "moderation_allowed env act a sid target s1 = (Inr x, s2)" "server_members s2 = server_members s1" "k2 a s2 = (r, s')"
    by (rule read_step) (use assms(2) s1(2) in auto)
  note allowed = moderation_allowed_Inr [OF s2(1)]
  obtain q s3 where s3: "moderation_effect env act a sid target reason now s2 = (q, s3)" by (cases "moderation_effect env act a sid target reason now s2")
  have "server_members s' = server_members s3"
    using s2(3) s3 members.audited by (auto simp: k2_def st_bind_def st_do_def st_modify_def split: sum.splits)
  then have "server_members s3 \<noteq> server_members s2" using assms(2) s1(2) s2(2) by auto
  with s3 have "act \<noteq> Mod_Unban \<and> (sid, target) \<in> set (server_members s2) \<and>
      fst (check_hierarchy (hs_pg s2) (instant_secs env) a target sid (hs_permissions s2)) = Inr () \<and>
      server_members s3 = filter (\<lambda>m. m \<noteq> (sid, target)) (server_members s2)"
    using member_remove_changes [of env sid a target act True s2 q s3] moderation_ban_changes [of env sid a target reason now s2 q s3]
    by (cases act) (auto simp: moderation_effect_def st_do_def result_iff)
  then show ?thesis
    using allowed require_principal_Inr [OF s1(1)] s1(2) \<open>server_members s' = server_members s3\<close>
    by (intro exI [of _ a] exI [of _ "hs_permissions s2"]) auto
qed

definition demo_club :: host where
  "demo_club = demo_host\<lparr>
     fd_users := fd_users demo_host @ [\<lparr>us_id = 60, us_email = ''v'', us_password_hash = [], us_username = ''v'',
       us_display_name = None, us_avatar_url = None, us_email_verified = False, us_totp_secret = None, us_totp_enabled_at_ms = None,
        us_backup_code_hashes = [], us_deleted_at_ms = None, us_updated_at_ms = 0\<rparr>],
     hs_pg := (hs_pg demo_host)\<lparr>db_servers := [\<lparr>sv_id = 9, sv_name = ''s'', sv_owner_id = 50,
       sv_welcome_channel_id = None, sv_welcome_message = None, sv_deleted_at = None\<rparr>],
       db_server_members := [(9, 50), (9, 60)]\<rparr>\<rparr>"

definition demo_kick :: "(app_error + unit) \<times> host" where
  "demo_kick = apply_federation_membership_moderation demo_host_env Mod_Remove ''a.example'' ''u1'' 9 60 None 2000 demo_club"

lemma demo_kick_members: "server_members (snd demo_kick) = [(9, 50)]"
proof -
  define pc where "pc = snd (require_permission (hs_pg demo_club) 0 50 9 KICK_MEMBERS pc_new)"
  have fst: "fst (require_permission (hs_pg demo_club) 0 50 9 KICK_MEMBERS pc_new) = Inr ()" by code_simp
  then have rp: "require_permission (hs_pg demo_club) 0 50 9 KICK_MEMBERS pc_new = (Inr (), pc)"
    by (simp add: pc_def prod_eq_iff)
  have "fst (check_hierarchy (hs_pg demo_club) 0 50 60 9 pc) = Inr ()" unfolding pc_def by code_simp
  then obtain pc' where ch: "check_hierarchy (hs_pg demo_club) 0 50 60 9 pc = (Inr (), pc')" by (metis prod.collapse)
  have dropped: "server_members (drop_member_state env sid a u act s) = server_members s" for env :: host_env and sid a u act s
    using members.dropped [of env sid a u act s] by simp
  have audited: "server_members (audit_log_async a ac tt ti si md s) = server_members s" for a ac tt ti si md s
    using members.audited [of a ac tt ti si md s] by simp
  have host: "hs_permissions demo_club = pc_new" "fd_faults demo_club = []" "instant_secs demo_host_env = 0"
    "server_members demo_club = [(9, 50), (9, 60)]" "db_fails (hs_pg demo_club) = (\<lambda>_. False)"
    "List.find (\<lambda>r. sv_id r = 9) (db_servers (hs_pg demo_club)) = Some \<lparr>sv_id = 9, sv_name = ''s'', sv_owner_id = 50,
       sv_welcome_channel_id = None, sv_welcome_message = None, sv_deleted_at = None\<rparr>"
    "Option.bind (List.find (\<lambda>r. pr_home_peer_id r = ''a.example'' \<and> pr_remote_user_id r = ''u1'' \<and> pr_status r = ''active'')
       (fd_principals demo_club)) pr_local_user_id = Some 50"
    "\<exists>y. List.find (\<lambda>u. us_id u = 60) (fd_users demo_club) = Some y"
    by (simp_all add: demo_club_def demo_host_def demo_host_env_def)
  then show ?thesis
    unfolding demo_kick_def apply_federation_membership_moderation_def federation_require_remote_principal_def
      moderation_allowed_def moderation_effect_def federation_apply_member_remove_def moderation_hierarchy_def
      or_internal_def local_user_id_for_remote_principal_def ask_pg_def pg_server_by_id_def pg_is_member_def pg_ask_def
      pg_user_by_id_def users_by_id_def pg_remove_member_def st_do_def with_permissions_def
    by (auto simp: st_bind_def st_lift_def st_return_def st_map_err_def st_modify_def db_call_def ok_or_def guard_def Let_def
        rp ch dropped audited)
qed

lemma moderation_respects_rank_witness:
  "server_members (snd demo_kick) = filter (\<lambda>m. m \<noteq> (9, 60)) (server_members demo_club) \<and>
   (\<exists>a. mapped_principal demo_club ''a.example'' ''u1'' a \<and> a \<noteq> 60)"
proof -
  have "server_members (snd demo_kick) \<noteq> server_members demo_club"
    unfolding demo_kick_members by (simp add: demo_club_def)
  moreover have "apply_federation_membership_moderation demo_host_env Mod_Remove ''a.example'' ''u1'' 9 60 None 2000 demo_club
      = (fst demo_kick, snd demo_kick)"
    by (simp add: demo_kick_def)
  ultimately show ?thesis using moderation_respects_rank by blast
qed

end
