(* ===== verification/Fed_Receive.thy ===== *)
theory Fed_Receive
  imports Fed_Membership
begin

text \<open>
  The endpoint that receives federation events (\<open>receive_event\<close> and its error mappings in
  \<open>src/server-rs/src/handlers/federation.rs\<close>): rate limit, body limit, signature, replay check,
  envelope, record of the event, its effect. The client address, the headers and the body are
  arguments; a body is absent when its stream breaks.
\<close>

section \<open>Errors\<close>

fun verify_error_code :: "verify_error \<Rightarrow> string" where
  "verify_error_code MissingHeader = ''FEDERATION_INVALID_SIGNATURE_HEADERS''"
| "verify_error_code MalformedHeader = ''FEDERATION_INVALID_SIGNATURE_HEADERS''"
| "verify_error_code UnsupportedAlgorithm = ''FEDERATION_UNSUPPORTED_SIGNATURE_ALGORITHM''"
| "verify_error_code DestinationMismatch = ''FEDERATION_DESTINATION_MISMATCH''"
| "verify_error_code BodyHashMismatch = ''FEDERATION_BODY_HASH_MISMATCH''"
| "verify_error_code TimestampOutsideWindow = ''FEDERATION_TIMESTAMP_EXPIRED''"
| "verify_error_code Replay = ''FEDERATION_REPLAY_REJECTED''"
| "verify_error_code UnknownPeerKey = ''FEDERATION_UNKNOWN_PEER_KEY''"
| "verify_error_code KeyOutsideValidityWindow = ''FEDERATION_KEY_NOT_VALID''"
| "verify_error_code InvalidSignature = ''FEDERATION_INVALID_SIGNATURE''"
| "verify_error_code ReplayStoreUnavailable = ''FEDERATION_REPLAY_STORE_UNAVAILABLE''"

definition federation_verify_error :: "verify_error \<Rightarrow> app_error" where
  "federation_verify_error error =
     WithCode (case error of
                 ReplayStoreUnavailable \<Rightarrow> 503
               | MissingHeader \<Rightarrow> 400
               | MalformedHeader \<Rightarrow> 400
               | UnsupportedAlgorithm \<Rightarrow> 400
               | _ \<Rightarrow> 401)
       (verify_error_code error) ''Federation request was rejected''"

fun federation_protocol_error :: "protocol_error \<Rightarrow> app_error" where
  "federation_protocol_error MalformedJson =
     WithCode 400 ''FEDERATION_EVENT_MALFORMED_JSON'' ''Federation event envelope was rejected''"
| "federation_protocol_error UnsupportedVersion =
     WithCode 400 ''FEDERATION_UNSUPPORTED_PROTOCOL_VERSION'' ''Federation event envelope was rejected''"
| "federation_protocol_error UnknownEventKind =
     WithCode 400 ''FEDERATION_UNKNOWN_EVENT_KIND'' ''Federation event envelope was rejected''"
| "federation_protocol_error InvalidEnvelope =
     WithCode 400 ''FEDERATION_INVALID_EVENT_ENVELOPE'' ''Federation event envelope was rejected''"
| "federation_protocol_error InvalidPayload =
     WithCode 400 ''FEDERATION_INVALID_EVENT_PAYLOAD'' ''Federation event envelope was rejected''"

fun federation_ingress_error :: "ingress_error \<Rightarrow> app_error" where
  "federation_ingress_error SourceMismatch =
     WithCode 400 ''FEDERATION_EVENT_SOURCE_MISMATCH'' ''Federation event was rejected''"
| "federation_ingress_error Ingress_DestinationMismatch =
     WithCode 400 ''FEDERATION_EVENT_DESTINATION_MISMATCH'' ''Federation event was rejected''"
| "federation_ingress_error Ingress_UnsupportedEventKind =
     WithCode 400 ''FEDERATION_EVENT_KIND_UNSUPPORTED'' ''Federation event was rejected''"
| "federation_ingress_error Ingress_InvalidPayload =
     WithCode 400 ''FEDERATION_EVENT_INVALID_PAYLOAD'' ''Federation event was rejected''"

fun federation_runtime_error :: "runtime_error \<Rightarrow> app_error" where
  "federation_runtime_error Runtime_UnsupportedEventKind =
     WithCode 400 ''FEDERATION_EVENT_KIND_UNSUPPORTED'' ''Federation event was rejected''"
| "federation_runtime_error Runtime_InvalidPayload =
     WithCode 400 ''FEDERATION_EVENT_INVALID_PAYLOAD'' ''Federation event was rejected''"

definition federation_runtime_propagation_error :: app_error where
  "federation_runtime_propagation_error =
     WithCode 403 ''FEDERATION_RUNTIME_PROPAGATION_DISABLED''
       ''Federation runtime propagation is disabled for server-owned backends''"

section \<open>The body\<close>

definition FEDERATION_RUNTIME_BODY_LIMIT_BYTES :: nat where "FEDERATION_RUNTIME_BODY_LIMIT_BYTES = 64 * 1024"

definition read_federation_runtime_body :: "string option \<Rightarrow> string app_result" where
  "read_federation_runtime_body body =
     ok_or (opt_filter (\<lambda>bytes. length bytes \<le> FEDERATION_RUNTIME_BODY_LIMIT_BYTES) body)
       (WithCode 413 ''FEDERATION_EVENT_BODY_TOO_LARGE'' ''Federation event body is too large'')"

section \<open>Receiving\<close>

record event_response =
  er_accepted :: bool
  er_duplicate :: bool
  er_event_id :: string

text \<open>
  Who sent this? The key the headers name is read from the table and the signature checked against
  it, at the reading \<open>clock\<close> of the system clock.
\<close>

definition verify_sender ::
  "'a host_env_scheme \<Rightarrow> int \<Rightarrow> headers \<Rightarrow> string \<Rightarrow> (app_error, verified_request) host_step" where
  "verify_sender env clock headers body =
     st_bind (st_lift (map_err federation_verify_error (identity_from_headers (digests env) headers))) (\<lambda>identity.
     st_bind (or_internal (peer_key_by_peer_and_key (ri_source_peer_id identity) (ri_key_id identity))) (\<lambda>key.
     st_bind (st_lift (ok_or key (federation_verify_error UnknownPeerKey))) (\<lambda>peer_key.
     let verifier = new_verifier (instance_id env) (key_store_insert Map.empty peer_key)
     in st_lift (map_err federation_verify_error
          (verify_signature (digests env) clock verifier ''POST'' ''/api/federation/v1/events'' headers body)))))"

text \<open>Seen before? The nonce of the request is reserved.\<close>

definition reserve_nonce :: "verified_request \<Rightarrow> int \<Rightarrow> (app_error, unit) host_step" where
  "reserve_nonce verified now_ms =
     st_bind draw_id (\<lambda>row_id.
     st_bind (or_internal (reserve_replay_nonce row_id (vr_source_peer_id verified) (vr_key_id verified)
       (vr_nonce verified) (vr_timestamp_ms verified) now_ms)) (\<lambda>nonce_reserved.
     st_lift (guard nonce_reserved (federation_verify_error Replay))))"

text \<open>What does it ask for? Nothing of the state is read.\<close>

definition event_command ::
  "'a host_env_scheme \<Rightarrow> verified_request \<Rightarrow> string \<Rightarrow> (ingress_decision \<times> runtime_command) app_result" where
  "event_command env verified body =
     bind_result (map_err federation_protocol_error (envelope_from_json env body)) (\<lambda>envl.
     bind_result (map_err federation_ingress_error (validate_ingress_envelope env verified envl)) (\<lambda>decision.
     bind_result (guard (runtime_propagation_allowed (id_event_kind decision)) federation_runtime_propagation_error) (\<lambda>_.
     bind_result (map_err federation_runtime_error (command_from_envelope env envl)) (\<lambda>command.
     Inr (decision, command)))))"

definition apply_event ::
  "'a host_env_scheme \<Rightarrow> ingress_decision \<Rightarrow> runtime_command \<Rightarrow> int \<Rightarrow> (app_error, event_response) host_step" where
  "apply_event env decision command now_ms =
     st_bind draw_id (\<lambda>row_id.
     st_bind (or_internal (insert_inbound_event row_id (id_source_peer_id decision) (id_remote_event_id decision)
       (id_event_kind decision) (id_payload_hash decision) now_ms)) (\<lambda>insert_result.
     let duplicate = insert_result = Duplicate
     in st_bind (if \<not> duplicate then
          st_bind (apply_federation_runtime_command env decision command now_ms) (\<lambda>_.
          or_internal (mark_inbound_event_accepted (id_source_peer_id decision) (id_remote_event_id decision) now_ms))
        else st_return ()) (\<lambda>_.
        st_return \<lparr>er_accepted = True, er_duplicate = duplicate, er_event_id = id_remote_event_id decision\<rparr>)))"

text \<open>
  The handler reads the clock three times: in seconds for the limiter, in the verifier, and as
  \<open>now_ms\<close> for the tables.
\<close>

definition receive_event ::
  "'a host_env_scheme \<Rightarrow> u64 \<Rightarrow> int \<Rightarrow> int \<Rightarrow> string \<Rightarrow> headers \<Rightarrow> string option
    \<Rightarrow> (app_error, event_response) host_step" where
  "receive_event env now_secs clock now_ms ip headers body =
     st_bind (enforce_limit now_secs FEDERATION_EVENT_LIMIT ip) (\<lambda>_.
     st_bind (st_lift (read_federation_runtime_body body)) (\<lambda>body_bytes.
     st_bind (verify_sender env clock headers body_bytes) (\<lambda>verified.
     st_bind (reserve_nonce verified now_ms) (\<lambda>_.
     st_bind (st_lift (event_command env verified body_bytes)) (\<lambda>(decision, command).
     apply_event env decision command now_ms)))))"

section \<open>What a request may change\<close>

text \<open>
  The state without what every request may write: the replay nonces, the record of events, the
  counters of the limiter and the ids drawn.
\<close>

definition application_state :: "host \<Rightarrow> host" where
  "application_state s =
     s\<lparr>fd_faults := [], fd_nonces := [], fd_inbound := [], hs_redis_faults := [], hs_redis_counters := [],
       hs_limiter := ll_new, hs_id_count := 0\<rparr>"

definition knows_event :: "host \<Rightarrow> string \<Rightarrow> string \<Rightarrow> bool" where
  "knows_event s peer_id event_id \<longleftrightarrow> list_ex (inbound_matches peer_id event_id) (fd_inbound s)"

interpretation application: read_frame application_state
  by unfold_locales (simp_all add: application_state_def)

lemma application_ids [simp]: "application_state (s\<lparr>hs_id_count := n\<rparr>) = application_state s"
  and application_limiter [simp]: "application_state (s\<lparr>hs_limiter := l\<rparr>) = application_state s"
  and application_inbound [simp]: "application_state (s\<lparr>fd_inbound := i\<rparr>) = application_state s"
  and application_nonces [simp]: "application_state (s\<lparr>fd_nonces := ns\<rparr>) = application_state s"
  and application_counters [simp]: "application_state (s\<lparr>hs_redis_counters := cs\<rparr>) = application_state s"
  by (simp_all add: application_state_def)

lemma verify_sender_leaves: "read_frame f \<Longrightarrow> leaves f (verify_sender env clock headers b)"
  unfolding verify_sender_def Let_def by (intro leaves_intro read_frame.reads)

lemma reserve_nonce_leaves:
  assumes rf: "read_frame f" and "\<And>s n. f (s\<lparr>hs_id_count := n\<rparr>) = f s" "\<And>s n. f (s\<lparr>fd_nonces := n\<rparr>) = f s"
  shows "leaves f (reserve_nonce v t)"
  unfolding reserve_nonce_def reserve_replay_nonce_def Let_def
  by (intro leaves_intro draw_leaves read_frame.db_try [OF rf]) (auto simp: assms(2,3) split: if_splits)

lemma reserve_nonce_Inr:
  assumes "reserve_nonce v t s = (Inr x, s')"
  shows "\<not> nonce_taken (vr_source_peer_id v) (vr_nonce v) s \<and> nonce_taken (vr_source_peer_id v) (vr_nonce v) s'"
  using assms
  unfolding reserve_nonce_def reserve_replay_nonce_def draw_id_def next_snowflake_def or_internal_def
  by (auto simp: result_iff guard_def db_try_def nonce_taken_def Let_def split: if_splits)

text \<open>The handlers of the commands do not touch what makes a request a repetition.\<close>

abbreviation "seen s \<equiv> (fd_inbound s, fd_nonces s, fd_peer_keys s)"

lemma seen_frame: "read_frame seen"
  by unfold_locales simp_all

lemma principal_seen: "leaves seen (federation_require_remote_principal p u)"
  unfolding federation_require_remote_principal_def by (intro leaves_intro read_frame.reads [OF seen_frame])

lemma membership_seen:
  "leaves seen (pg_remove_member sid u)" "leaves seen (pg_add_member sid u)" "leaves seen (invite_try_consume c t)"
  unfolding pg_remove_member_def pg_add_member_def invite_try_consume_def
  by (rule read_frame.db_call [OF seen_frame]; auto)+

lemma join_seen: "leaves seen (apply_federation_membership_join env d p u sid c h t)"
proof -
  have "leaves seen (join_new_member env d row sv sid i t)" for row sv i
    unfolding join_new_member_def
    by (intro leaves_intro read_frame.reads [OF seen_frame] membership_seen leaves_modify)
      (simp add: Let_def inbound.welcomed inbound.joined inbound.granted inbound.permitted)
  then show ?thesis
    unfolding apply_federation_membership_join_def join_invite_def join_server_def
    by (intro leaves_intro principal_seen read_frame.reads [OF seen_frame] leaves_modify)
      (simp_all add: inbound.granted inbound.permitted)
qed

lemma leave_seen: "leaves seen (apply_federation_membership_leave env d p u sid t)"
  unfolding apply_federation_membership_leave_def
  by (intro leaves_intro principal_seen membership_seen leaves_modify)
    (simp add: Let_def inbound.published inbound.bot inbound.revoked inbound.unpresent inbound.permitted
      leaves_ignoring [OF inbound.roles_wiped])

lemma remove_seen: "leaves seen (federation_apply_member_remove env sid a u act need)"
  unfolding federation_apply_member_remove_def
  by (intro leaves_intro moderation_hierarchy_leaves membership_seen leaves_modify) (simp_all add: inbound.dropped)

lemma ban_list_seen:
  "leaves seen (redis_sadd k v)" "leaves seen (redis_srem k v)" "leaves seen (redis_hset k ps)" "leaves seen (redis_del_hash k)"
  unfolding redis_sadd_def redis_srem_def redis_hset_def redis_del_hash_def
  by (rule read_frame.redis [OF seen_frame]; auto)+

lemma moderation_seen: "leaves seen (apply_federation_membership_moderation env act p u sid target reason t)"
proof -
  have ban: "leaves seen (moderation_ban env sid a target reason t)" for a
    unfolding moderation_ban_def
    by (intro leaves_intro moderation_hierarchy_leaves remove_seen read_frame.reads [OF seen_frame] leaves_modify)
      (simp_all add: record_ban_def leaves_ignoring [OF ban_list_seen(1)] leaves_ignoring [OF ban_list_seen(3)])
  have unban: "leaves seen (st_do (moderation_unban sid target))"
    by (rule leaves_modify)
      (simp add: moderation_unban_def leaves_ignoring [OF ban_list_seen(2)] leaves_ignoring [OF ban_list_seen(4)])
  have "leaves seen (moderation_effect env act a sid target reason t)" for a
    unfolding moderation_effect_def by (cases act) (simp_all add: remove_seen ban unban)
  then show ?thesis
    unfolding apply_federation_membership_moderation_def moderation_allowed_def
    by (intro leaves_intro principal_seen read_frame.reads [OF seen_frame] leaves_with_permissions leaves_modify)
      (simp_all add: inbound.audited)
qed

lemma upsert_row_leaves:
  "(\<And>s rows. f (s\<lparr>fd_principals := rows\<rparr>) = f s) \<Longrightarrow> read_frame f \<Longrightarrow>
   leaves f (db_call (\<lambda>s. case upsert_principal_row i q (fd_principals s) of
     None \<Rightarrow> (None, s) | Some (m, rows) \<Rightarrow> (Some m, s\<lparr>fd_principals := rows\<rparr>)))"
  by (rule read_frame.db_call) (auto split: option.splits)

lemma principal_upsert_seen: "leaves seen (apply_upsert_principal env p u n dn av t)"
proof -
  have "leaves seen (upsert_transaction q projection :: (host, sqlx_error, int) step)" for q projection
    unfolding upsert_transaction_def
    by (intro leaves_intro upsert_row_leaves seen_frame; (rule read_frame.db_call [OF seen_frame])?; auto)
  then have "leaves seen (upsert_remote_principal denv q :: (host, sqlx_error, int) step)" for denv :: auth_env and q
    by (auto simp: leaves_def upsert_remote_principal_def split: prod.splits sum.splits)
  then show ?thesis
    unfolding apply_upsert_principal_def by (intro leaves_intro inbound.draws)
qed

lemma command_seen: "leaves seen (apply_federation_runtime_command env d c t)"
  by (cases c) (simp_all add: join_seen leave_seen moderation_seen principal_upsert_seen leaves_basic)

section \<open>At most once\<close>

lemma mark_accepted_knows:
  "mark_inbound_event_accepted p e t s = (r, s') \<Longrightarrow> knows_event s' q i = knows_event s q i"
proof -
  have "list_ex (inbound_matches q i) (update_where P (\<lambda>r. r\<lparr>in_status := st, in_accepted_at_ms := ac, in_updated_at_ms := t\<rparr>) rows)
      = list_ex (inbound_matches q i) rows" for P st ac rows
    by (induction rows) (auto simp: update_where_def inbound_matches_def)
  then show "mark_inbound_event_accepted p e t s = (r, s') \<Longrightarrow> knows_event s' q i = knows_event s q i"
    by (auto simp: mark_inbound_event_accepted_def db_call_def Let_def knows_event_def split: if_splits)
qed

lemma insert_inbound_cases:
  assumes "insert_inbound_event row p e kind h t s = (r, s')"
  shows "application_state s' = application_state s \<and> (knows_event s q i \<longrightarrow> knows_event s' q i) \<and>
    (case r of Inl _ \<Rightarrow> True | Inr Duplicate \<Rightarrow> knows_event s p e | Inr Inserted \<Rightarrow> \<not> knows_event s p e \<and> knows_event s' p e)"
  using assms
  by (auto simp: insert_inbound_event_def db_try_def Let_def knows_event_def inbound_matches_def application.fd_faults
      split: if_splits)

text \<open>The command of an event runs only when the event is new, and then the event is recorded.\<close>

lemma apply_event_cases:
  assumes run: "apply_event env d c t s = (r, s')"
  defines "p \<equiv> id_source_peer_id d" and "e \<equiv> id_remote_event_id d"
  shows "(knows_event s q i \<longrightarrow> knows_event s' q i) \<and>
    (application_state s' = application_state s \<or> \<not> knows_event s p e \<and> knows_event s' p e) \<and>
    (knows_event s p e \<longrightarrow> (\<forall>y. r = Inr y \<longrightarrow> y = \<lparr>er_accepted = True, er_duplicate = True, er_event_id = e\<rparr>))"
proof -
  obtain row s1 where s1: "(draw_id s :: (app_error + int) \<times> host) = (Inr row, s1)" "application_state s1 = application_state s" "fd_inbound s1 = fd_inbound s"
    by (auto simp: draw_id_def next_snowflake_def)
  obtain q2 s2 where s2: "insert_inbound_event row p e (id_event_kind d) (id_payload_hash d) t s1 = (q2, s2)"
    by (cases "insert_inbound_event row p e (id_event_kind d) (id_payload_hash d) t s1")
  have k1: "knows_event s1 q i = knows_event s q i" for q i using s1(3) by (simp add: knows_event_def)
  note ins = insert_inbound_cases [OF s2]
  have run2: "(case q2 of Inl _ \<Rightarrow> (Inl Internal, s2) | Inr res \<Rightarrow>
      st_bind (if res \<noteq> Duplicate then
          st_bind (apply_federation_runtime_command env d c t) (\<lambda>_. or_internal (mark_inbound_event_accepted p e t))
        else st_return ()) (\<lambda>_. st_return \<lparr>er_accepted = True, er_duplicate = res = Duplicate, er_event_id = e\<rparr>) s2) = (r, s')"
    using run s1 s2 by (auto simp: apply_event_def st_bind_def or_internal_def st_map_err_def p_def e_def Let_def split: sum.splits)
  consider (fail) "r = Inl Internal" "s' = s2" "\<exists>x. q2 = Inl x"
    | (dup) "q2 = Inr Duplicate" "s' = s2" "r = Inr \<lparr>er_accepted = True, er_duplicate = True, er_event_id = e\<rparr>"
    | (new) "q2 = Inr Inserted"
    using run2 by (cases q2; cases "projr q2") (auto simp: result_iff st_bind_def st_return_def)
  then show ?thesis
  proof cases
    case new
    have "knows_event s' q i = knows_event s2 q i" for q i
    proof -
      obtain q3 s3 where s3: "apply_federation_runtime_command env d c t s2 = (q3, s3)" by (cases "apply_federation_runtime_command env d c t s2")
      have "fd_inbound s3 = fd_inbound s2" using leavesD [OF command_seen s3] by simp
      moreover have "s' = s3 \<or> (\<exists>x. mark_inbound_event_accepted p e t s3 = (x, s'))"
        using run2 new s3 by (auto simp: st_bind_def or_internal_def st_map_err_def st_return_def split: sum.splits prod.splits)
      ultimately show ?thesis using mark_accepted_knows by (auto simp: knows_event_def)
    qed
    then show ?thesis using ins k1 new by auto
  qed (use ins k1 s1(2) in auto)
qed

lemma bind_cases:
  assumes "st_bind m k s = (r, s')" "leaves f m"
  obtains (fail) e where "r = Inl e" "f s' = f s" "m s = (Inl e, s')"
    | (step) x s1 where "m s = (Inr x, s1)" "f s1 = f s" "k x s1 = (r, s')"
proof (cases "m s")
  case (Pair q s1)
  then have "f s1 = f s" by (rule leavesD [OF assms(2)])
  then show thesis using assms(1) that Pair by (cases q) (auto simp: st_bind_def)
qed

lemma event_command_Inr:
  assumes "event_command env v b = Inr (d, c)"
  obtains e where "envelope_from_json env b = Inr e" "id_source_peer_id d = env_source_peer_id e"
    "id_remote_event_id d = env_event_id e" "env_source_peer_id e = vr_source_peer_id v"
    "env_destination_peer_id e = vr_destination_peer_id v" "command_from_envelope env e = Inr c"
  using assms
  by (auto simp: event_command_def result_iff validate_ingress_envelope_def guard_def split: if_splits)

definition sender_checked :: "'a host_env_scheme \<Rightarrow> peer_key_row list \<Rightarrow> int \<Rightarrow> headers \<Rightarrow> string \<Rightarrow> verified_request \<Rightarrow> bool" where
  "sender_checked env keys clock headers b v \<longleftrightarrow>
     (\<exists>row\<in>set keys. \<exists>key. kr_status row = ''active'' \<and> kr_peer_id row = pk_peer_id key \<and> kr_key_id row = pk_key_id key \<and>
        kr_public_key row = pk_public_key key \<and>
        verify_signature (digests env) clock (new_verifier (instance_id env) (key_store_insert Map.empty key))
          ''POST'' ''/api/federation/v1/events'' headers b = Inr v)"

lemma verify_sender_Inr:
  assumes "verify_sender env clock headers b s = (Inr v, s')"
  shows "sender_checked env (fd_peer_keys s) clock headers b v"
proof -
  obtain identity :: request_identity and key where
    key: "peer_key_by_peer_and_key (ri_source_peer_id identity) (ri_key_id identity) s = (Inr (Some key), s')"
    and ok: "verify_signature (digests env) clock (new_verifier (instance_id env) (key_store_insert Map.empty key))
      ''POST'' ''/api/federation/v1/events'' headers b = Inr v"
    using assms unfolding verify_sender_def or_internal_def Let_def by (auto simp: result_iff)
  have find: "List.find P xs = Some x \<Longrightarrow> x \<in> set xs \<and> P x" for P and xs :: "peer_key_row list" and x
    by (auto simp: find_Some_iff)
  obtain row where "row \<in> set (fd_peer_keys s)" "kr_status row = ''active''" "pk_peer_id key = kr_peer_id row"
    "pk_key_id key = kr_key_id row" "pk_public_key key = kr_public_key row"
    using key unfolding peer_key_by_peer_and_key_def
    by (auto simp: result_iff split: option.splits if_splits dest!: db_call_result find)
  with ok show ?thesis unfolding sender_checked_def by metis
qed

lemma apply_event_nonces: "leaves (fd_nonces :: host \<Rightarrow> nonce_row list) (apply_event env d c t)"
proof -
  have rf: "read_frame (fd_nonces :: host \<Rightarrow> nonce_row list)" by unfold_locales simp_all
  have "leaves (fd_nonces :: host \<Rightarrow> nonce_row list) (apply_federation_runtime_command env d c t)"
    using command_seen [of env d c t] by (auto simp: leaves_def)
  moreover have "leaves (fd_nonces :: host \<Rightarrow> nonce_row list) (insert_inbound_event r p e k h t)" for r p e k h
    unfolding insert_inbound_event_def by (rule read_frame.db_try [OF rf]) (auto split: if_splits)
  moreover have "leaves (fd_nonces :: host \<Rightarrow> nonce_row list) (mark_inbound_event_accepted p e t)" for p e
    unfolding mark_inbound_event_accepted_def by (rule read_frame.db_call [OF rf]) auto
  ultimately show ?thesis
    unfolding apply_event_def Let_def by (intro leaves_intro draw_leaves) simp_all
qed

lemma receive_event_cases:
  assumes run: "receive_event env secs clock now ip headers body s = (r, s')"
  obtains (refused) e where "r = Inl e" "application_state s' = application_state s" "fd_inbound s' = fd_inbound s"
  | (applied) b v d c s1 where "body = Some b" "length b \<le> 65536" "sender_checked env (fd_peer_keys s) clock headers b v"
      "\<not> nonce_taken (vr_source_peer_id v) (vr_nonce v) s" "nonce_taken (vr_source_peer_id v) (vr_nonce v) s'"
      "event_command env v b = Inr (d, c)" "application_state s1 = application_state s" "fd_inbound s1 = fd_inbound s"
      "apply_event env d c now s1 = (r, s')"
proof -
  let ?f = "\<lambda>s. (application_state s, fd_inbound s)"
  let ?g = "\<lambda>s. (?f s, fd_nonces s, fd_peer_keys s)"
  have f: "read_frame ?f" and g: "read_frame ?g" by unfold_locales (simp_all add: application.fd_faults application.redis_faults)
  define k4 where "k4 b v = st_bind (st_lift (event_command env v b)) (\<lambda>(d, c). apply_event env d c now)" for b v
  define k3 where "k3 b v = st_bind (reserve_nonce v now) (\<lambda>_. k4 b v)" for b v
  define k2 where "k2 b = st_bind (verify_sender env clock headers b) (k3 b)" for b
  define k1 where "k1 = st_bind (st_lift (read_federation_runtime_body body)) k2"
  have "st_bind (enforce_limit secs FEDERATION_EVENT_LIMIT ip) (\<lambda>_. k1) s = (r, s')"
    using run unfolding receive_event_def k1_def k2_def k3_def k4_def .
  moreover have "leaves ?g (enforce_limit secs FEDERATION_EVENT_LIMIT ip)" by (rule enforce_limit_leaves [OF g]) simp_all
  ultimately show thesis
  proof (rule bind_cases)
    fix x s1 assume s1: "?g s1 = ?g s" and "k1 s1 = (r, s')"
    from this(2)[unfolded k1_def] show thesis
    proof (rule bind_cases [where f = ?g])
      fix b s2 assume b: "st_lift (read_federation_runtime_body body) s1 = (Inr b, s2)" "?g s2 = ?g s1" "k2 b s2 = (r, s')"
      from b(3)[unfolded k2_def] verify_sender_leaves [OF g] show thesis
      proof (rule bind_cases)
        fix v s3 assume v: "verify_sender env clock headers b s2 = (Inr v, s3)" "?g s3 = ?g s2" "k3 b v s3 = (r, s')"
        have "leaves ?f (reserve_nonce v now)" by (rule reserve_nonce_leaves [OF f]) simp_all
        from v(3)[unfolded k3_def] this show thesis
        proof (rule bind_cases)
          fix y s4 assume n: "reserve_nonce v now s3 = (Inr y, s4)" "?f s4 = ?f s3" "k4 b v s4 = (r, s')"
          note fresh = reserve_nonce_Inr [OF n(1)]
          have body: "body = Some b \<and> length b \<le> 65536"
            using b(1) by (auto simp: result_iff read_federation_runtime_body_def opt_filter_def
                FEDERATION_RUNTIME_BODY_LIMIT_BYTES_def split: option.splits if_splits)
          show thesis
          proof (cases "event_command env v b")
            case (Inl e)
            then have "r = Inl e" "s' = s4" using n(3) by (auto simp: k4_def st_bind_def st_lift_def)
            then show thesis using refused s1 b(2) v(2) n(2) by auto
          next
            case (Inr dc)
            then obtain d c where dc: "event_command env v b = Inr (d, c)" by (cases dc) auto
            then have "apply_event env d c now s4 = (r, s')" using n(3) by (auto simp: k4_def st_bind_def st_lift_def)
            moreover have "fd_nonces s' = fd_nonces s4" by (rule leavesD [OF apply_event_nonces calculation])
            ultimately show thesis
              using applied [OF _ _ _ _ _ dc] body verify_sender_Inr [OF v(1)] fresh s1 b(2) v(2) n(2)
              by (auto simp: nonce_taken_def)
          qed
        qed (use refused s1 b(2) v(2) in auto)
      qed (use refused s1 b(2) in auto)
    qed (use refused s1 in \<open>auto intro: leaves_basic\<close>)
  qed (use refused in auto)
qed

text \<open>
  C2. A federation request has an effect on this server only if it is fresh and signed: when
  anything but the bookkeeping of requests changes, the body is at most 64 KiB, an active key of
  the named peer verifies the signature over this endpoint, its headers and its body, the peer had
  not used the nonce before and the event was not recorded before, both are recorded afterwards,
  and the command the event stands for acts for a user of the signing peer itself.
\<close>
theorem effects_need_a_fresh_signed_event:
  assumes "receive_event env secs clock now ip headers body s = (r, s')"
    and "application_state s' \<noteq> application_state s"
  shows "\<exists>b v d c. body = Some b \<and> length b \<le> 65536 \<and>
    sender_checked env (fd_peer_keys s) clock headers b v \<and> event_command env v b = Inr (d, c) \<and>
    id_source_peer_id d = vr_source_peer_id v \<and>
    \<not> nonce_taken (vr_source_peer_id v) (vr_nonce v) s \<and> nonce_taken (vr_source_peer_id v) (vr_nonce v) s' \<and>
    \<not> knows_event s (vr_source_peer_id v) (id_remote_event_id d) \<and> knows_event s' (vr_source_peer_id v) (id_remote_event_id d) \<and>
    (\<forall>p u. command_actor c = Some (p, u) \<longrightarrow> p = vr_source_peer_id v)"
  using assms(1)
proof (cases rule: receive_event_cases)
  case (applied b v d c s1)
  obtain e where e: "id_source_peer_id d = env_source_peer_id e" "env_source_peer_id e = vr_source_peer_id v"
    "command_from_envelope env e = Inr c"
    using event_command_Inr [OF applied(6)] by metis
  have "\<not> knows_event s1 (id_source_peer_id d) (id_remote_event_id d) \<and> knows_event s' (id_source_peer_id d) (id_remote_event_id d)"
    using apply_event_cases [OF applied(9)] assms(2) applied(7) by auto
  then show ?thesis
    using applied(1-6,8) e command_actor_source [OF e(3)]
    by (intro exI [of _ b] exI [of _ v] exI [of _ d] exI [of _ c]) (auto simp: knows_event_def)
qed (use assms(2) in simp)

section \<open>Runs of requests\<close>

record request =
  rx_secs :: u64
  rx_clock :: int
  rx_now_ms :: int
  rx_ip :: string
  rx_headers :: headers
  rx_body :: "string option"

definition receive :: "'a host_env_scheme \<Rightarrow> request \<Rightarrow> host \<Rightarrow> host" where
  "receive env q s = snd (receive_event env (rx_secs q) (rx_clock q) (rx_now_ms q) (rx_ip q) (rx_headers q) (rx_body q) s)"

text \<open>The name an event goes by: the peer and the id its envelope claims.\<close>

definition event_name :: "'a host_env_scheme \<Rightarrow> request \<Rightarrow> (string \<times> string) option" where
  "event_name env q =
     (case rx_body q of
        None \<Rightarrow> None
      | Some b \<Rightarrow> (case envelope_from_json env b of
            Inl _ \<Rightarrow> None | Inr e \<Rightarrow> Some (env_source_peer_id e, env_event_id e)))"

lemma receive_keeps_known: "knows_event s p e \<Longrightarrow> knows_event (receive env q s) p e"
proof -
  assume k: "knows_event s p e"
  obtain r s' where run: "receive_event env (rx_secs q) (rx_clock q) (rx_now_ms q) (rx_ip q) (rx_headers q) (rx_body q) s = (r, s')"
    by (meson surj_pair)
  then have "knows_event s' p e"
  proof (cases rule: receive_event_cases)
    case (applied b v d c s1)
    then show ?thesis using apply_event_cases [OF applied(9)] k by (auto simp: knows_event_def)
  qed (use k in \<open>simp add: knows_event_def\<close>)
  with run show ?thesis by (simp add: receive_def)
qed

lemma run_keeps_known: "knows_event s p e \<Longrightarrow> knows_event (fold (receive env) qs s) p e"
  by (induction qs arbitrary: s) (simp_all add: receive_keeps_known)

lemma receive_effect:
  assumes "application_state (receive env q s) \<noteq> application_state s"
  obtains p e where "event_name env q = Some (p, e)" "\<not> knows_event s p e" "knows_event (receive env q s) p e"
proof -
  obtain r s' where run: "receive_event env (rx_secs q) (rx_clock q) (rx_now_ms q) (rx_ip q) (rx_headers q) (rx_body q) s = (r, s')"
    by (meson surj_pair)
  then have s': "receive env q s = s'" by (simp add: receive_def)
  from run show thesis
  proof (cases rule: receive_event_cases)
    case (applied b v d c s1)
    from applied(6) obtain e where "envelope_from_json env b = Inr e" "id_source_peer_id d = env_source_peer_id e"
      "id_remote_event_id d = env_event_id e"
      by (rule event_command_Inr)
    then show thesis
      using that [of "env_source_peer_id e" "env_event_id e"] apply_event_cases [OF applied(9)] applied(1,7,8) assms s'
      by (auto simp: event_name_def knows_event_def)
  qed (use assms s' in simp)
qed

text \<open>
  C6. An event takes effect at most once: when one request of an event has changed the server,
  no later request of the same event, however it is signed and whatever was received in between,
  changes it again.
\<close>
theorem an_event_takes_effect_once:
  assumes "application_state (receive env q s) \<noteq> application_state s"
    and "event_name env q' = event_name env q"
    and "s2 = fold (receive env) qs (receive env q s)"
  shows "application_state (receive env q' s2) = application_state s2"
proof (rule ccontr)
  assume "application_state (receive env q' s2) \<noteq> application_state s2"
  then obtain p' e' where 2: "event_name env q' = Some (p', e')" "\<not> knows_event s2 p' e'" by (rule receive_effect)
  from assms(1) obtain p e where 1: "event_name env q = Some (p, e)" "knows_event (receive env q s) p e" by (rule receive_effect)
  have "knows_event s2 p e" unfolding assms(3) by (rule run_keeps_known [OF 1(2)])
  with 1(1) 2 assms(2) show False by simp
qed

text \<open>
  C14. The record is made before the effect and stays when the effect fails: once a request of an
  event was recorded, even one that was answered with an error, every later request of the event
  that is answered at all without an error is told it was accepted as a duplicate, and has no
  effect. An event that fails halfway, or that comes before the event it depends on, is lost.
\<close>
theorem failed_events_are_lost:
  assumes "event_name env q = Some (p, e)" and "knows_event (receive env q s) p e"
    and "s2 = fold (receive env) qs (receive env q s)" and "event_name env q' = Some (p, e)"
    and "receive_event env (rx_secs q') (rx_clock q') (rx_now_ms q') (rx_ip q') (rx_headers q') (rx_body q') s2 = (Inr answer, s3)"
  shows "answer = \<lparr>er_accepted = True, er_duplicate = True, er_event_id = e\<rparr> \<and>
    application_state s3 = application_state s2"
proof -
  have known: "knows_event s2 p e" unfolding assms(3) by (rule run_keeps_known [OF assms(2)])
  from assms(5) show ?thesis
  proof (cases rule: receive_event_cases)
    case (applied b v d c s1)
    from applied(6) obtain env' where "envelope_from_json env b = Inr env'" "id_source_peer_id d = env_source_peer_id env'"
      "id_remote_event_id d = env_event_id env'"
      by (rule event_command_Inr)
    then have "id_source_peer_id d = p" "id_remote_event_id d = e"
      using assms(4) applied(1) by (auto simp: event_name_def)
    then show ?thesis
      using apply_event_cases [OF applied(9)] known applied(7,8) by (auto simp: knows_event_def)
  qed simp
qed

section \<open>A concrete exchange\<close>

definition demo_request :: "u64 \<Rightarrow> string \<Rightarrow> request" where
  "demo_request secs nonce =
     \<lparr>rx_secs = secs, rx_clock = 2500, rx_now_ms = 2500, rx_ip = ''1.2.3.4'',
      rx_headers = (case sign_request demo_auth_env demo_signer ''POST'' ''/api/federation/v1/events'' ''b.example''
         ''evt-1'' 2000 nonce of Inr h \<Rightarrow> h | Inl _ \<Rightarrow> Map.empty),
      rx_body = Some ''evt-1''\<rparr>"

definition demo_verified :: "string \<Rightarrow> verified_request" where
  "demo_verified nonce =
     \<lparr>vr_source_peer_id = ''a.example'', vr_destination_peer_id = ''b.example'', vr_key_id = ''k1'', vr_nonce = nonce,
      vr_timestamp_ms = 2000, vr_body_sha256 = replicate 43 CHR ''H''\<rparr>"

definition demo_accepted :: "ingress_decision \<times> runtime_command" where
  "demo_accepted =
     (\<lparr>id_source_peer_id = ''a.example'', id_destination_peer_id = ''b.example'', id_remote_event_id = ''evt-1'',
       id_event_kind = MembershipJoin, id_payload_hash = replicate 64 CHR ''h''\<rparr>,
      Cmd_MembershipJoin ''a.example'' ''u1'' 9 (Some ''abc'') (Some (''sha256:'' @ replicate 64 CHR ''h'')))"

abbreviation "nonce_a \<equiv> ''nonce-0123456789''"
abbreviation "nonce_b \<equiv> ''nonce-9876543210''"

lemma demo_identity:
  "identity_from_headers (digests demo_host_env) (rx_headers (demo_request 0 nonce_a)) =
     Inr \<lparr>ri_source_peer_id = ''a.example'', ri_key_id = ''k1''\<rparr>"
  "identity_from_headers (digests demo_host_env) (rx_headers (demo_request 0 nonce_b)) =
     Inr \<lparr>ri_source_peer_id = ''a.example'', ri_key_id = ''k1''\<rparr>"
  by code_simp+

definition demo_peer_key :: peer_key where
  "demo_peer_key = \<lparr>pk_peer_id = ''a.example'', pk_key_id = ''k1'', pk_public_key = replicate 32 CHR ''k'',
     pk_valid_after_ms = None, pk_valid_until_ms = None\<rparr>"

lemma demo_signature:
  "verify_signature (digests demo_host_env) 2500 (new_verifier (instance_id demo_host_env) (key_store_insert Map.empty demo_peer_key))
     ''POST'' ''/api/federation/v1/events'' (rx_headers (demo_request 0 nonce_a)) ''evt-1'' = Inr (demo_verified nonce_a)"
  "verify_signature (digests demo_host_env) 2500 (new_verifier (instance_id demo_host_env) (key_store_insert Map.empty demo_peer_key))
     ''POST'' ''/api/federation/v1/events'' (rx_headers (demo_request 0 nonce_b)) ''evt-1'' = Inr (demo_verified nonce_b)"
  by code_simp+

lemma demo_command:
  "event_command demo_host_env (demo_verified n) ''evt-1'' = Inr demo_accepted"
  by code_simp

definition demo_key :: "u64 \<Rightarrow> string" where
  "demo_key secs = rate_key ''rl:federation_event'' ''1.2.3.4'' (secs div 60)"

text \<open>Up to the command, a signed request with a fresh nonce only writes the bookkeeping.\<close>

lemma demo_run:
  assumes n: "n \<in> {''nonce-0123456789'', ''nonce-9876543210''}"
    and up: "fd_faults s = []" "hs_redis_faults s = []" "fd_peer_keys s = fd_peer_keys demo_host"
    and window: "dm_get (hs_redis_counters s) (demo_key secs) = None"
    and fresh: "\<not> nonce_taken ''a.example'' n s" "hs_ids s (hs_id_count s) \<notin> set (map nr_id (fd_nonces s))"
  defines "q \<equiv> demo_request secs n"
  shows "\<exists>cs row. (\<forall>k. k \<noteq> demo_key secs \<longrightarrow> dm_get cs k = dm_get (hs_redis_counters s) k) \<and>
    nr_nonce row = n \<and> nr_id row = hs_ids s (hs_id_count s) \<and>
    receive_event demo_host_env (rx_secs q) (rx_clock q) (rx_now_ms q) (rx_ip q) (rx_headers q) (rx_body q) s =
      apply_event demo_host_env (fst demo_accepted) (snd demo_accepted) 2500
        (s\<lparr>hs_redis_counters := cs, fd_nonces := fd_nonces s @ [row], hs_id_count := Suc (hs_id_count s)\<rparr>)"
proof -
  define cs where "cs = dm_upd (demo_key secs) (\<lambda>(n, _). (n, Some 60)) (dm_put (demo_key secs) (1, None) (hs_redis_counters s))"
  define s1 where "s1 = s\<lparr>hs_redis_counters := cs\<rparr>"
  note same = no_faults
  have "\<exists>i. enforce_limit secs FEDERATION_EVENT_LIMIT ''1.2.3.4'' s = (Inr i, s1)"
    using up(2) window
    by (simp add: enforce_limit_def enforce_def rate_count_def redis_incr_def redis_expire_def redis_call_def ignoring_errors_def
        FEDERATION_EVENT_LIMIT_def demo_key_def [symmetric] Let_def s1_def cs_def)
  then obtain i where lim: "enforce_limit secs FEDERATION_EVENT_LIMIT ''1.2.3.4'' s = (Inr i, s1)" ..
  have h: "rx_headers q = rx_headers (demo_request 0 n)" by (simp add: q_def demo_request_def)
  have checks: "identity_from_headers (digests demo_host_env) (rx_headers q) = Inr \<lparr>ri_source_peer_id = ''a.example'', ri_key_id = ''k1''\<rparr>"
    "verify_signature (digests demo_host_env) 2500 (new_verifier (instance_id demo_host_env) (key_store_insert Map.empty demo_peer_key))
       ''POST'' ''/api/federation/v1/events'' (rx_headers q) ''evt-1'' = Inr (demo_verified n)"
    using n demo_identity demo_signature unfolding h by auto
  have keys: "List.find (\<lambda>r. kr_peer_id r = ''a.example'' \<and> kr_key_id r = ''k1'' \<and> kr_status r = ''active'') (fd_peer_keys s1) =
      Some \<lparr>kr_peer_id = ''a.example'', kr_key_id = ''k1'', kr_api_origin = ''https://a.example'',
        kr_public_key = replicate 32 CHR ''k'', kr_status = ''active'', kr_valid_after_ms = None,
        kr_valid_until_ms = None, kr_updated_at_ms = 0\<rparr>" "fd_faults s1 = []" "hs_redis_faults s1 = []"
    using up by (simp_all add: s1_def demo_host_def)
  have key: "peer_key_by_peer_and_key ''a.example'' ''k1'' s1 = (Inr (Some demo_peer_key), s1)"
    using keys same(1) [OF keys(2)] same(2) [OF keys(3)]
    unfolding peer_key_by_peer_and_key_def by (simp add: st_bind_def st_return_def db_call_def demo_peer_key_def)
  have sender: "verify_sender demo_host_env 2500 (rx_headers q) ''evt-1'' s1 = (Inr (demo_verified n), s1)"
    using checks key
    unfolding verify_sender_def or_internal_def by (simp add: st_bind_def st_lift_def st_map_err_def Let_def ok_or_def)
  define row where "row = \<lparr>nr_id = hs_ids s (hs_id_count s), nr_source_peer_id = ''a.example'', nr_key_id = ''k1'', nr_nonce = n,
    nr_timestamp_ms = 2000, nr_expires_at_ms = sat_add_i64 2500 replay_nonce_ttl_ms\<rparr>"
  define s3 where "s3 = s\<lparr>hs_redis_counters := cs, fd_nonces := fd_nonces s @ [row], hs_id_count := Suc (hs_id_count s)\<rparr>"
  have "fd_faults s3 = []" "hs_redis_faults s3 = []" using up by (simp_all add: s3_def)
  note same(1) [OF this(1)] same(2) [OF this(2)]
  then have nonce: "reserve_nonce (demo_verified n) 2500 s1 = (Inr (), s3)"
    using fresh up
    unfolding reserve_nonce_def reserve_replay_nonce_def or_internal_def draw_id_def next_snowflake_def
    by (simp add: st_bind_def st_map_err_def st_lift_def db_try_def demo_verified_def nonce_taken_def guard_def Let_def s1_def s3_def row_def)
  have body: "read_federation_runtime_body (Some ''evt-1'') = Inr ''evt-1''" by code_simp
  have "receive_event demo_host_env (rx_secs q) (rx_clock q) (rx_now_ms q) (rx_ip q) (rx_headers q) (rx_body q) s =
      apply_event demo_host_env (fst demo_accepted) (snd demo_accepted) 2500 s3"
    using lim sender nonce demo_command [of n] body
    by (simp add: receive_event_def q_def demo_request_def st_bind_def st_lift_def demo_accepted_def)
  moreover have "\<forall>k. k \<noteq> demo_key secs \<longrightarrow> dm_get cs k = dm_get (hs_redis_counters s) k"
    by (simp add: cs_def)
  ultimately show ?thesis unfolding s3_def by (intro exI [of _ cs] exI [of _ row]) (simp add: row_def)
qed

lemma demo_join_anywhere:
  assumes "tables s = tables demo_host" "fd_faults s = []" "hs_redis_faults s = []"
  shows "fst (apply_federation_membership_join demo_host_env d ''a.example'' ''u1'' 9 (Some ''abc'') h 2500 s) = Inr () \<and>
    server_members (snd (apply_federation_membership_join demo_host_env d ''a.example'' ''u1'' 9 (Some ''abc'') h 2500 s)) = [(9, 3), (9, 50)]"
proof -
  have t: "hs_pg s = hs_pg demo_host" "hs_invites s = hs_invites demo_host" "fd_principals s = fd_principals demo_host"
    "fd_users s = fd_users demo_host" "hs_redis_sets s = []"
    using assms(1) by (simp_all add: demo_host_def)
  show ?thesis
    unfolding apply_federation_membership_join_def federation_require_remote_principal_def join_invite_def
      join_server_def join_new_member_def or_internal_def local_user_id_for_remote_principal_def invite_by_code_def
      ask_pg_def pg_server_by_id_def pg_is_member_def pg_ask_def redis_sismember_def pg_member_count_def
      invite_try_consume_def pg_add_member_def st_do_def
    by (simp add: t assms(2,3)) (simp add: demo_host_def st_bind_def st_lift_def st_return_def st_map_err_def st_modify_def db_call_def
        redis_call_def ok_or_def guard_def invite_consumable_def MAX_FEDERATION_MEMBERS_PER_SERVER_def Let_def
        members_frame t assms(2,3))
qed

lemma demo_received: "server_members (receive demo_host_env (demo_request 2 nonce_a) demo_host) = [(9, 3), (9, 50)]"
proof -
  have "fd_nonces demo_host = []" "hs_redis_counters demo_host = []" "fd_faults demo_host = []" "hs_redis_faults demo_host = []"
    "fd_inbound demo_host = []" by (simp_all add: demo_host_def)
  then obtain cs row where run: "receive demo_host_env (demo_request 2 nonce_a) demo_host =
      snd (apply_event demo_host_env (fst demo_accepted) (snd demo_accepted) 2500
        (demo_host\<lparr>hs_redis_counters := cs, fd_nonces := [row], hs_id_count := 1\<rparr>))"
    using demo_run [of nonce_a demo_host 2] by (auto simp: receive_def nonce_taken_def dm_get_def demo_host_def)
  define s1 where "s1 = demo_host\<lparr>hs_redis_counters := cs, fd_nonces := [row], hs_id_count := 1\<rparr>"
  define s2 where "s2 = s1\<lparr>fd_faults := [], hs_id_count := Suc 1, fd_inbound := [\<lparr>in_id = hs_ids s1 1, in_source_peer_id = ''a.example'',
    in_remote_event_id = ''evt-1'', in_event_kind = ''membership_join'', in_payload_hash = replicate 64 CHR ''h'',
    in_status = ''received'', in_accepted_at_ms = None, in_updated_at_ms = 2500\<rparr>]\<rparr>"
  have s2_facts: "tables s2 = tables demo_host" "fd_faults s2 = []" "hs_redis_faults s2 = []"
    by (simp_all add: s1_def s2_def demo_host_def)
  obtain s3 where s3: "apply_federation_membership_join demo_host_env (fst demo_accepted) ''a.example'' ''u1'' 9 (Some ''abc'')
      (Some (''sha256:'' @ replicate 64 CHR ''h'')) 2500 s2 = (Inr (), s3)" "server_members s3 = [(9, 3), (9, 50)]"
    using demo_join_anywhere [of s2] by (metis (no_types, lifting) prod.collapse s2_facts)
  have "mark_inbound_event_accepted p e t s3 = (x, s') \<Longrightarrow> server_members s' = server_members s3" for p e t x s'
    by (auto simp: mark_inbound_event_accepted_def db_call_def Let_def split: if_splits)
  then have "server_members (snd (apply_event demo_host_env (fst demo_accepted) (snd demo_accepted) 2500 s1)) = server_members s3"
  proof -
    have "insert_inbound_event (hs_ids s1 1) ''a.example'' ''evt-1'' MembershipJoin (replicate 64 CHR ''h'') 2500 (s1\<lparr>hs_id_count := Suc 1\<rparr>) =
        ((Inr Inserted :: sqlx_error + event_insert_result), s2)"
      by (simp add: s1_def s2_def demo_host_def insert_inbound_event_def db_try_def Let_def)
    moreover have "hs_id_count s1 = 1" by (simp add: s1_def)
    ultimately show ?thesis
      using s3(1) \<open>\<And>x t s' p e. mark_inbound_event_accepted p e t s3 = (x, s') \<Longrightarrow> server_members s' = server_members s3\<close>
      by (auto simp: apply_event_def draw_id_def next_snowflake_def demo_accepted_def st_bind_def or_internal_def st_map_err_def
          st_return_def Let_def split: prod.splits sum.splits)
  qed
  then show ?thesis using run s3(2) by (simp add: s1_def)
qed

lemma members_application: "server_members (application_state s) = server_members s"
  by (simp add: application_state_def)

lemma demo_received_effect:
  "application_state (receive demo_host_env (demo_request 2 nonce_a) demo_host) \<noteq> application_state demo_host"
proof -
  have "server_members (receive demo_host_env (demo_request 2 nonce_a) demo_host) \<noteq> server_members demo_host"
    unfolding demo_received by (simp add: demo_host_def)
  then show ?thesis using members_application by metis
qed

lemma effects_need_a_fresh_signed_event_witness:
  "\<exists>b v. rx_body (demo_request 2 nonce_a) = Some b \<and>
     sender_checked demo_host_env (fd_peer_keys demo_host) 2500 (rx_headers (demo_request 2 nonce_a)) b v"
proof -
  let ?q = "demo_request 2 nonce_a"
  obtain r s' where run: "receive_event demo_host_env (rx_secs ?q) (rx_clock ?q) (rx_now_ms ?q) (rx_ip ?q) (rx_headers ?q) (rx_body ?q) demo_host = (r, s')"
    by (meson surj_pair)
  then have "application_state s' \<noteq> application_state demo_host" using demo_received_effect by (simp add: receive_def)
  from effects_need_a_fresh_signed_event [OF run this] show ?thesis by (auto simp: demo_request_def)
qed

lemma demo_request_simps [simp]:
  "rx_secs (demo_request secs n) = secs" "rx_clock (demo_request secs n) = 2500" "rx_now_ms (demo_request secs n) = 2500"
  "rx_ip (demo_request secs n) = ''1.2.3.4''" "rx_body (demo_request secs n) = Some ''evt-1''"
  by (simp_all add: demo_request_def)

lemma demo_event_name: "event_name demo_host_env (demo_request secs n) = Some (''a.example'', ''evt-1'')"
proof -
  have "\<exists>e. envelope_from_json demo_host_env ''evt-1'' = Inr e \<and> env_source_peer_id e = ''a.example'' \<and> env_event_id e = ''evt-1''"
  proof -
    have "event_command demo_host_env (demo_verified n) ''evt-1'' = Inr (fst demo_accepted, snd demo_accepted)"
      using demo_command by simp
    then show ?thesis by (rule event_command_Inr) (auto simp: demo_accepted_def)
  qed
  then show ?thesis by (auto simp: event_name_def)
qed

lemma an_event_takes_effect_once_witness:
  "application_state (receive demo_host_env (demo_request 100 nonce_b) (receive demo_host_env (demo_request 2 nonce_a) demo_host)) =
   application_state (receive demo_host_env (demo_request 2 nonce_a) demo_host)"
  by (rule an_event_takes_effect_once [OF demo_received_effect, where qs = "[]" and q' = "demo_request 100 nonce_b"])
    (simp_all add: demo_event_name)

text \<open>The same join before the invite exists: it is refused, and recorded.\<close>

definition demo_early :: host where
  "demo_early = demo_host\<lparr>hs_invites := []\<rparr>"

lemma demo_early_refused:
  "\<exists>cs row i. (\<forall>k. k \<noteq> demo_key 2 \<longrightarrow> dm_get cs k = None) \<and> nr_nonce row = nonce_a \<and> nr_id row = 1000 \<and>
     receive demo_host_env (demo_request 2 nonce_a) demo_early =
       demo_early\<lparr>hs_redis_counters := cs, fd_nonces := [row], hs_id_count := 2, fd_inbound := [i]\<rparr> \<and>
     inbound_matches ''a.example'' ''evt-1'' i"
proof -
  have "hs_redis_counters demo_early = []" by (simp add: demo_early_def demo_host_def)
  with demo_run [of nonce_a demo_early 2] obtain cs row where cs: "\<forall>k. k \<noteq> demo_key 2 \<longrightarrow> dm_get cs k = None"
    and row: "nr_nonce row = nonce_a" "nr_id row = 1000"
    and run: "receive demo_host_env (demo_request 2 nonce_a) demo_early =
      snd (apply_event demo_host_env (fst demo_accepted) (snd demo_accepted) 2500
        (demo_early\<lparr>hs_redis_counters := cs, fd_nonces := [row], hs_id_count := 1\<rparr>))"
    by (auto simp: receive_def nonce_taken_def dm_get_def demo_host_def demo_early_def)
  show ?thesis
    unfolding run
    by (rule exI [of _ cs], rule exI [of _ row])
      (use cs row in \<open>simp add: apply_event_def demo_accepted_def draw_id_def next_snowflake_def st_bind_def or_internal_def
        st_map_err_def insert_inbound_event_def db_try_def Let_def demo_early_def demo_host_def inbound_matches_def
        apply_federation_membership_join_def federation_require_remote_principal_def join_invite_def
        local_user_id_for_remote_principal_def invite_by_code_def db_call_def st_lift_def guard_def ok_or_def\<close>)
qed

lemma failed_events_are_lost_witness:
  "fst (receive_event demo_host_env 100 2500 2500 ''1.2.3.4'' (rx_headers (demo_request 100 nonce_b)) (Some ''evt-1'')
      (receive demo_host_env (demo_request 2 nonce_a) demo_early)) =
    Inr \<lparr>er_accepted = True, er_duplicate = True, er_event_id = ''evt-1''\<rparr>"
proof -
  define s1 where "s1 = receive demo_host_env (demo_request 2 nonce_a) demo_early"
  obtain cs row i where cs: "\<forall>k. k \<noteq> demo_key 2 \<longrightarrow> dm_get cs k = None" and row: "nr_nonce row = nonce_a" "nr_id row = 1000"
    and s1: "s1 = demo_early\<lparr>hs_redis_counters := cs, fd_nonces := [row], hs_id_count := 2, fd_inbound := [i]\<rparr>"
    and i: "inbound_matches ''a.example'' ''evt-1'' i"
    using demo_early_refused unfolding s1_def by blast
  have other: "demo_key 100 \<noteq> demo_key 2" by code_simp
  with demo_run [of nonce_b s1 100] cs row obtain s2 where
    run: "receive_event demo_host_env 100 2500 2500 ''1.2.3.4'' (rx_headers (demo_request 100 nonce_b)) (Some ''evt-1'') s1 =
      apply_event demo_host_env (fst demo_accepted) (snd demo_accepted) 2500 s2"
    and s2: "fd_inbound s2 = [i]" "fd_faults s2 = []"
    by (auto simp: s1 nonce_taken_def demo_early_def demo_host_def demo_request_def)
  obtain answer s3 where "receive_event demo_host_env 100 2500 2500 ''1.2.3.4'' (rx_headers (demo_request 100 nonce_b)) (Some ''evt-1'') s1 =
      (Inr answer, s3)"
    using i s2 unfolding run
    by (simp add: apply_event_def demo_accepted_def draw_id_def next_snowflake_def st_bind_def or_internal_def st_return_def
        st_map_err_def insert_inbound_event_def db_try_def Let_def)
  moreover have "knows_event s1 ''a.example'' ''evt-1''" using i by (simp add: s1 knows_event_def)
  ultimately have "answer = \<lparr>er_accepted = True, er_duplicate = True, er_event_id = ''evt-1''\<rparr>"
    using failed_events_are_lost [of demo_host_env "demo_request 2 nonce_a" "''a.example''" "''evt-1''" demo_early s1 "[]"
        "demo_request 100 nonce_b" answer s3]
    by (simp add: demo_event_name s1_def)
  with \<open>_ = (Inr answer, s3)\<close> show ?thesis by (simp add: s1_def)
qed

end
