(* ===== verification/Fed_Producer.thy ===== *)
theory Fed_Producer
  imports Host Fed_Client
begin

text \<open>
  What this server tells its peers (\<open>src/server-rs/src/federation/producer.rs\<close> and the queueing half
  of \<open>federation/invite_join.rs\<close>): the envelope of a local event, the peers it goes to and the rows
  of the outbox it becomes. The first group of lemmas says which rows an event adds; the second
  that what the producer builds is what the receiving peer's ingress and runtime make of it; the
  third what the stable event ids do to an event that happens twice.
\<close>

section \<open>Events\<close>

datatype unsupported_surface =
    AttachmentMedia | Voice | BotExecution | Billing | ServerAdministration | EmojiUpload | OfficialRelay

record role_order =
  ro_role_id :: int
  ro_position :: "int option"
  ro_color_priority :: "int option"

record layout_item =
  ly_id :: int
  ly_item_type :: string

record category_layout =
  ct_category_id :: int
  ct_channel_ids :: "int list"

text \<open>The variants of the event, in groups.\<close>

datatype handshake_event =
    Lo_PrincipalUpsert int "string option" "string option" "string option"
  | Lo_MembershipJoin int int "string option" "string option"
  | Lo_MembershipLeave int int "string option"
  | Lo_MembershipRemove int int int "string option"
  | Lo_MembershipBan int int int "string option"
  | Lo_MembershipUnban int int int

datatype role_event =
    Lo_RoleCreate int int int string "string option" "int option" bool bool "int option"
  | Lo_RoleUpdate int int int "string option" "string option option" "int option" "int option" "bool option" "int option"
  | Lo_RoleDelete int int int
  | Lo_RoleReorder int int "role_order list"
  | Lo_MemberRoleAssign int int int int
  | Lo_MemberRoleRemove int int int int

datatype layout_event =
    Lo_CategoryCreate int int int string "string option"
  | Lo_CategoryUpdate int int int "string option" "int option" "string option option"
  | Lo_CategoryDelete int int int
  | Lo_ChannelCreate int int int string "string option" "int option" bool int
  | Lo_ChannelUpdate int int int "string option" "string option option" "int option" "int option option" "bool option" "int option"
  | Lo_ChannelDelete int int int
  | Lo_ChannelReorder int int "layout_item list" "category_layout list"
  | Lo_ChannelOverrideSet int int int int "int option" "int option"
  | Lo_ChannelOverrideDelete int int int int

datatype content_event =
    Lo_EmojiRename int int int string
  | Lo_EmojiDelete int int int
  | Lo_MessageCreate int "int option" int int string "string option" "int option"
  | Lo_MessageUpdate int int int string
  | Lo_MessageDelete int int int
  | Lo_MessagePin int int int
  | Lo_MessageUnpin int int int
  | Lo_ReactionAdd int int int string "int option"
  | Lo_ReactionRemove int int int string "int option"

datatype social_event =
    Lo_RelationshipRequest int int
  | Lo_RelationshipAccept int int
  | Lo_RelationshipRemove int int
  | Lo_RelationshipBlock int int
  | Lo_PresenceUpdate int string
  | Lo_TypingStart int int
  | Lo_ReadStateUpdate int int int
  | Lo_DmCreate int int int
  | Lo_DmGroupCreate int int "int list" "string option"

datatype local_event =
    Of_Handshake handshake_event
  | Of_Role role_event
  | Of_Layout layout_event
  | Of_Content content_event
  | Of_Social social_event
  | Lo_Unsupported unsupported_surface

datatype producer_source = Source_Local | Source_InboundFederation string string

datatype producer_error =
    InboundRebroadcast
  | RuntimePropagationDisabled
  | UnsupportedSurface unsupported_surface
  | Producer_InvalidPayload
  | Producer_InvalidEnvelope
  | Producer_Storage

record produced_envelope =
  pd_event_id :: string
  pd_kind :: event_kind
  pd_destination_peer_id :: string
  pd_payload_hash :: string
  pd_body_json :: json

record enqueue_report =
  er_selected_peers :: nat
  er_inserted :: nat
  er_duplicates :: nat

section \<open>Peers\<close>

fun route_matches_scope :: "peer_route \<Rightarrow> route_scope \<Rightarrow> bool" where
  "route_matches_scope (Route_Server i) (Scope_Server j) = (i = j)"
| "route_matches_scope (Route_Channel i) (Scope_Channel j) = (i = j)"
| "route_matches_scope (Route_Dm i) (Scope_Dm j) = (i = j)"
| "route_matches_scope (Route_Principal i) (Scope_Principal j) = (i = j)"
| "route_matches_scope _ _ = False"

definition peer_selected :: "string \<Rightarrow> route_scope \<Rightarrow> producer_peer \<Rightarrow> bool" where
  "peer_selected local_peer_id scope peer \<longleftrightarrow>
     \<not> (\<not> pp_active peer \<or> pp_peer_id peer = local_peer_id) \<and>
     list_ex (\<lambda>route. route_matches_scope route scope) (pp_routes peer)"

definition select_outbound_peers ::
  "producer_peer list \<Rightarrow> string \<Rightarrow> route_scope \<Rightarrow> producer_source \<Rightarrow> string list" where
  "select_outbound_peers candidates local_peer_id scope source =
     (case source of
        Source_InboundFederation _ _ \<Rightarrow> []
      | Source_Local \<Rightarrow>
          remdups_adj (sort_key (map byte) (map pp_peer_id (filter (peer_selected local_peer_id scope) candidates))))"

section \<open>Kinds\<close>

primrec kind_of_handshake :: "handshake_event \<Rightarrow> event_kind" where
  "kind_of_handshake (Lo_PrincipalUpsert _ _ _ _) = PrincipalUpsert"
| "kind_of_handshake (Lo_MembershipJoin _ _ _ _) = MembershipJoin"
| "kind_of_handshake (Lo_MembershipLeave _ _ _) = MembershipLeave"
| "kind_of_handshake (Lo_MembershipRemove _ _ _ _) = MembershipRemove"
| "kind_of_handshake (Lo_MembershipBan _ _ _ _) = MembershipBan"
| "kind_of_handshake (Lo_MembershipUnban _ _ _) = MembershipUnban"

primrec kind_of_role :: "role_event \<Rightarrow> event_kind" where
  "kind_of_role (Lo_RoleCreate _ _ _ _ _ _ _ _ _) = RoleCreate"
| "kind_of_role (Lo_RoleUpdate _ _ _ _ _ _ _ _ _) = RoleUpdate"
| "kind_of_role (Lo_RoleDelete _ _ _) = RoleDelete"
| "kind_of_role (Lo_RoleReorder _ _ _) = RoleReorder"
| "kind_of_role (Lo_MemberRoleAssign _ _ _ _) = MemberRoleAssign"
| "kind_of_role (Lo_MemberRoleRemove _ _ _ _) = MemberRoleRemove"

primrec kind_of_layout :: "layout_event \<Rightarrow> event_kind" where
  "kind_of_layout (Lo_CategoryCreate _ _ _ _ _) = CategoryCreate"
| "kind_of_layout (Lo_CategoryUpdate _ _ _ _ _ _) = CategoryUpdate"
| "kind_of_layout (Lo_CategoryDelete _ _ _) = CategoryDelete"
| "kind_of_layout (Lo_ChannelCreate _ _ _ _ _ _ _ _) = ChannelCreate"
| "kind_of_layout (Lo_ChannelUpdate _ _ _ _ _ _ _ _ _) = ChannelUpdate"
| "kind_of_layout (Lo_ChannelDelete _ _ _) = ChannelDelete"
| "kind_of_layout (Lo_ChannelReorder _ _ _ _) = ChannelReorder"
| "kind_of_layout (Lo_ChannelOverrideSet _ _ _ _ _ _) = ChannelOverrideSet"
| "kind_of_layout (Lo_ChannelOverrideDelete _ _ _ _) = ChannelOverrideDelete"

primrec kind_of_content :: "content_event \<Rightarrow> event_kind" where
  "kind_of_content (Lo_EmojiRename _ _ _ _) = EmojiRename"
| "kind_of_content (Lo_EmojiDelete _ _ _) = EmojiDelete"
| "kind_of_content (Lo_MessageCreate _ _ _ _ _ _ _) = MessageCreate"
| "kind_of_content (Lo_MessageUpdate _ _ _ _) = MessageUpdate"
| "kind_of_content (Lo_MessageDelete _ _ _) = MessageDelete"
| "kind_of_content (Lo_MessagePin _ _ _) = MessagePin"
| "kind_of_content (Lo_MessageUnpin _ _ _) = MessageUnpin"
| "kind_of_content (Lo_ReactionAdd _ _ _ _ _) = ReactionAdd"
| "kind_of_content (Lo_ReactionRemove _ _ _ _ _) = ReactionRemove"

primrec kind_of_social :: "social_event \<Rightarrow> event_kind" where
  "kind_of_social (Lo_RelationshipRequest _ _) = RelationshipRequest"
| "kind_of_social (Lo_RelationshipAccept _ _) = RelationshipAccept"
| "kind_of_social (Lo_RelationshipRemove _ _) = RelationshipRemove"
| "kind_of_social (Lo_RelationshipBlock _ _) = RelationshipBlock"
| "kind_of_social (Lo_PresenceUpdate _ _) = PresenceUpdate"
| "kind_of_social (Lo_TypingStart _ _) = TypingStart"
| "kind_of_social (Lo_ReadStateUpdate _ _ _) = ReadStateUpdate"
| "kind_of_social (Lo_DmCreate _ _ _) = DmCreate"
| "kind_of_social (Lo_DmGroupCreate _ _ _ _) = DmGroupCreate"

primrec kind_of_event :: "local_event \<Rightarrow> producer_error + event_kind" where
  "kind_of_event (Lo_Unsupported surface) = Inl (UnsupportedSurface surface)"
| "kind_of_event (Of_Handshake event) = Inr (kind_of_handshake event)"
| "kind_of_event (Of_Role event) = Inr (kind_of_role event)"
| "kind_of_event (Of_Layout event) = Inr (kind_of_layout event)"
| "kind_of_event (Of_Content event) = Inr (kind_of_content event)"
| "kind_of_event (Of_Social event) = Inr (kind_of_social event)"

section \<open>Payloads\<close>

definition js_id :: "int \<Rightarrow> json" where "js_id i = Json_String (int_str i)"
definition js_int :: "int \<Rightarrow> json" where "js_int i = Json_Number (Num_Int i)"

definition js_option :: "('a \<Rightarrow> json) \<Rightarrow> 'a option \<Rightarrow> json" where
  "js_option f x = (case x of None \<Rightarrow> Json_Null | Some v \<Rightarrow> f v)"

text \<open>Assignment to a member of an object.\<close>

definition json_put :: "string \<Rightarrow> json \<Rightarrow> json \<Rightarrow> json" where
  "json_put k v x = (case x of Json_Object m \<Rightarrow> Json_Object (AList.update k v m) | _ \<Rightarrow> x)"

definition put_if_some :: "string \<Rightarrow> ('a \<Rightarrow> json) \<Rightarrow> 'a option \<Rightarrow> json \<Rightarrow> json" where
  "put_if_some k f x payload = (case x of None \<Rightarrow> payload | Some v \<Rightarrow> json_put k (f v) payload)"

text \<open>The texts of a deduplication key with colons between them.\<close>

fun key_of :: "string list \<Rightarrow> string" where
  "key_of [] = []"
| "key_of [x] = x"
| "key_of (x # xs) = x @ CHR '':'' # key_of xs"

type_synonym produced_payload = "producer_error + event_kind \<times> json \<times> string"

definition membership_moderation_payload ::
  "event_kind \<Rightarrow> string \<Rightarrow> int \<Rightarrow> int \<Rightarrow> int \<Rightarrow> string option \<Rightarrow> produced_payload" where
  "membership_moderation_payload kind prefix server_id moderator_user_id target_user_id reason =
     Inr (kind,
       Json_Object [(''serverId'', js_id server_id), (''remoteUserId'', js_id moderator_user_id),
                    (''targetUserId'', js_id target_user_id), (''reason'', json_opt reason)],
       key_of [prefix, int_str server_id, int_str moderator_user_id, int_str target_user_id])"

definition mapped_id_payload :: "event_kind \<Rightarrow> string \<Rightarrow> int \<Rightarrow> int \<Rightarrow> string \<Rightarrow> int \<Rightarrow> produced_payload" where
  "mapped_id_payload kind prefix server_id actor_user_id id_key id_value =
     Inr (kind,
       Json_Object [(''serverId'', js_id server_id), (''remoteUserId'', js_id actor_user_id), (id_key, js_id id_value)],
       key_of [prefix, int_str server_id, int_str id_value])"

definition member_role_payload :: "event_kind \<Rightarrow> string \<Rightarrow> int \<Rightarrow> int \<Rightarrow> int \<Rightarrow> int \<Rightarrow> produced_payload" where
  "member_role_payload kind prefix server_id actor_user_id target_user_id role_id =
     Inr (kind,
       Json_Object [(''serverId'', js_id server_id), (''remoteUserId'', js_id actor_user_id),
                    (''targetUserId'', js_id target_user_id), (''roleId'', js_id role_id)],
       key_of [prefix, int_str server_id, int_str target_user_id, int_str role_id])"

definition message_payload :: "event_kind \<Rightarrow> string \<Rightarrow> int \<Rightarrow> int \<Rightarrow> int \<Rightarrow> string option \<Rightarrow> produced_payload" where
  "message_payload kind prefix channel_id message_id user_id content =
     Inr (kind,
       put_if_some ''content'' Json_String content
         (Json_Object [(''channelId'', js_id channel_id), (''remoteMessageId'', js_id message_id),
                       (''remoteUserId'', js_id user_id)]),
       key_of [prefix, int_str channel_id, int_str message_id, int_str user_id])"

definition reaction_payload ::
  "event_kind \<Rightarrow> string \<Rightarrow> int \<Rightarrow> int \<Rightarrow> int \<Rightarrow> string \<Rightarrow> int option \<Rightarrow> produced_payload" where
  "reaction_payload kind prefix channel_id message_id user_id emoji emoji_id =
     Inr (kind,
       Json_Object [(''channelId'', js_id channel_id), (''remoteMessageId'', js_id message_id),
                    (''remoteUserId'', js_id user_id), (''emoji'', Json_String emoji),
                    (''emojiId'', js_option js_id emoji_id)],
       key_of [prefix, int_str channel_id, int_str message_id, int_str user_id, emoji])"

definition relationship_payload :: "event_kind \<Rightarrow> string \<Rightarrow> int \<Rightarrow> int \<Rightarrow> produced_payload" where
  "relationship_payload kind prefix user_id local_user_id =
     Inr (kind,
       Json_Object [(''remoteUserId'', js_id user_id), (''localUserId'', js_id local_user_id)],
       key_of [prefix, int_str user_id, int_str local_user_id])"

definition role_item_json :: "role_order \<Rightarrow> json" where
  "role_item_json item =
     put_if_some ''colorPriority'' js_int (ro_color_priority item)
       (put_if_some ''position'' js_int (ro_position item)
         (Json_Object [(''remoteRoleId'', js_id (ro_role_id item))]))"

definition layout_item_json :: "layout_item \<Rightarrow> json" where
  "layout_item_json item =
     Json_Object [(''remoteId'', js_id (ly_id item)), (''type'', Json_String (ly_item_type item))]"

text \<open>Collected into a map, where the later of two entries with one key stays.\<close>

definition categories_json :: "category_layout list \<Rightarrow> json" where
  "categories_json categories =
     Json_Object (fold (\<lambda>c. AList.update (int_str (ct_category_id c)) (Json_Array (map js_id (ct_channel_ids c))))
       categories [])"

primrec handshake_payload :: "'a digest_env_scheme \<Rightarrow> handshake_event \<Rightarrow> produced_payload" where
  "handshake_payload env (Lo_PrincipalUpsert user_id username display_name avatar_url) =
     Inr (PrincipalUpsert,
       Json_Object [(''remoteUserId'', js_id user_id), (''username'', json_opt username),
                    (''displayName'', json_opt display_name), (''avatarUrl'', json_opt avatar_url)],
       key_of [''principal_upsert'', int_str user_id])"
| "handshake_payload env (Lo_MembershipJoin server_id user_id invite_code invite_code_hash) =
     (case (case invite_code_hash of Some h \<Rightarrow> Some h | None \<Rightarrow> map_option (code_hash env) invite_code) of
        None \<Rightarrow> Inl Producer_InvalidPayload
      | Some invite_code_hash \<Rightarrow>
          Inr (MembershipJoin,
            Json_Object [(''serverId'', js_id server_id), (''remoteUserId'', js_id user_id),
                         (''inviteCodeHash'', Json_String invite_code_hash)],
            key_of [''membership_join'', int_str server_id, int_str user_id]))"
| "handshake_payload env (Lo_MembershipLeave server_id user_id reason) =
     Inr (MembershipLeave,
       Json_Object [(''serverId'', js_id server_id), (''remoteUserId'', js_id user_id), (''reason'', json_opt reason)],
       key_of [''membership_leave'', int_str server_id, int_str user_id])"
| "handshake_payload env (Lo_MembershipRemove server_id moderator_user_id target_user_id reason) =
     membership_moderation_payload MembershipRemove ''membership_remove'' server_id moderator_user_id target_user_id reason"
| "handshake_payload env (Lo_MembershipBan server_id moderator_user_id target_user_id reason) =
     membership_moderation_payload MembershipBan ''membership_ban'' server_id moderator_user_id target_user_id reason"
| "handshake_payload env (Lo_MembershipUnban server_id moderator_user_id target_user_id) =
     Inr (MembershipUnban,
       Json_Object [(''serverId'', js_id server_id), (''remoteUserId'', js_id moderator_user_id),
                    (''targetUserId'', js_id target_user_id)],
       key_of [''membership_unban'', int_str server_id, int_str moderator_user_id, int_str target_user_id])"

primrec role_payload :: "role_event \<Rightarrow> produced_payload" where
  "role_payload (Lo_RoleCreate server_id actor_user_id role_id name color permissions color_only show_as_section color_priority) =
     Inr (RoleCreate,
       Json_Object [(''serverId'', js_id server_id), (''remoteUserId'', js_id actor_user_id),
                    (''remoteRoleId'', js_id role_id), (''name'', Json_String name), (''color'', json_opt color),
                    (''permissions'', js_option js_id permissions), (''colorOnly'', Json_Bool color_only),
                    (''showAsSection'', Json_Bool show_as_section), (''colorPriority'', js_option js_int color_priority)],
       key_of [''role_create'', int_str server_id, int_str role_id])"
| "role_payload (Lo_RoleUpdate server_id actor_user_id role_id name color permissions position show_as_section color_priority) =
     Inr (RoleUpdate,
       put_if_some ''color'' json_opt color
         (Json_Object [(''serverId'', js_id server_id), (''remoteUserId'', js_id actor_user_id),
                       (''remoteRoleId'', js_id role_id), (''name'', json_opt name),
                       (''permissions'', js_option js_id permissions), (''position'', js_option js_int position),
                       (''showAsSection'', js_option Json_Bool show_as_section),
                       (''colorPriority'', js_option js_int color_priority)]),
       key_of [''role_update'', int_str server_id, int_str role_id])"
| "role_payload (Lo_RoleDelete server_id actor_user_id role_id) =
     mapped_id_payload RoleDelete ''role_delete'' server_id actor_user_id ''remoteRoleId'' role_id"
| "role_payload (Lo_RoleReorder server_id actor_user_id items) =
     Inr (RoleReorder,
       Json_Object [(''serverId'', js_id server_id), (''remoteUserId'', js_id actor_user_id),
                    (''items'', Json_Array (map role_item_json items))],
       key_of [''role_reorder'', int_str server_id, int_str actor_user_id])"
| "role_payload (Lo_MemberRoleAssign server_id actor_user_id target_user_id role_id) =
     member_role_payload MemberRoleAssign ''member_role_assign'' server_id actor_user_id target_user_id role_id"
| "role_payload (Lo_MemberRoleRemove server_id actor_user_id target_user_id role_id) =
     member_role_payload MemberRoleRemove ''member_role_remove'' server_id actor_user_id target_user_id role_id"

primrec layout_payload :: "layout_event \<Rightarrow> produced_payload" where
  "layout_payload (Lo_CategoryCreate server_id actor_user_id category_id name emoji) =
     Inr (CategoryCreate,
       Json_Object [(''serverId'', js_id server_id), (''remoteUserId'', js_id actor_user_id),
                    (''remoteCategoryId'', js_id category_id), (''name'', Json_String name), (''emoji'', json_opt emoji)],
       key_of [''category_create'', int_str server_id, int_str category_id])"
| "layout_payload (Lo_CategoryUpdate server_id actor_user_id category_id name position emoji) =
     Inr (CategoryUpdate,
       put_if_some ''emoji'' json_opt emoji
         (Json_Object [(''serverId'', js_id server_id), (''remoteUserId'', js_id actor_user_id),
                       (''remoteCategoryId'', js_id category_id), (''name'', json_opt name),
                       (''position'', js_option js_int position)]),
       key_of [''category_update'', int_str server_id, int_str category_id])"
| "layout_payload (Lo_CategoryDelete server_id actor_user_id category_id) =
     mapped_id_payload CategoryDelete ''category_delete'' server_id actor_user_id ''remoteCategoryId'' category_id"
| "layout_payload (Lo_ChannelCreate server_id actor_user_id channel_id name topic category_id read_only slowmode_seconds) =
     Inr (ChannelCreate,
       Json_Object [(''serverId'', js_id server_id), (''remoteUserId'', js_id actor_user_id),
                    (''remoteChannelId'', js_id channel_id), (''name'', Json_String name), (''topic'', json_opt topic),
                    (''type'', Json_String ''text''), (''remoteCategoryId'', js_option js_id category_id),
                    (''readOnly'', Json_Bool read_only), (''slowmodeSeconds'', js_int slowmode_seconds)],
       key_of [''channel_create'', int_str server_id, int_str channel_id])"
| "layout_payload (Lo_ChannelUpdate server_id actor_user_id channel_id name topic position category_id read_only slowmode_seconds) =
     Inr (ChannelUpdate,
       put_if_some ''remoteCategoryId'' (js_option js_id) category_id
         (put_if_some ''topic'' json_opt topic
           (Json_Object [(''serverId'', js_id server_id), (''remoteUserId'', js_id actor_user_id),
                         (''remoteChannelId'', js_id channel_id), (''name'', json_opt name),
                         (''position'', js_option js_int position), (''readOnly'', js_option Json_Bool read_only),
                         (''slowmodeSeconds'', js_option js_int slowmode_seconds)])),
       key_of [''channel_update'', int_str server_id, int_str channel_id])"
| "layout_payload (Lo_ChannelDelete server_id actor_user_id channel_id) =
     mapped_id_payload ChannelDelete ''channel_delete'' server_id actor_user_id ''remoteChannelId'' channel_id"
| "layout_payload (Lo_ChannelReorder server_id actor_user_id top_level categories) =
     Inr (ChannelReorder,
       Json_Object [(''serverId'', js_id server_id), (''remoteUserId'', js_id actor_user_id),
                    (''topLevel'', Json_Array (map layout_item_json top_level)),
                    (''categories'', categories_json categories)],
       key_of [''channel_reorder'', int_str server_id, int_str actor_user_id])"
| "layout_payload (Lo_ChannelOverrideSet server_id actor_user_id channel_id role_id allow deny) =
     Inr (ChannelOverrideSet,
       Json_Object [(''serverId'', js_id server_id), (''remoteUserId'', js_id actor_user_id),
                    (''remoteChannelId'', js_id channel_id), (''roleId'', js_id role_id),
                    (''allow'', js_option js_id allow), (''deny'', js_option js_id deny)],
       key_of [''channel_override_set'', int_str server_id, int_str channel_id, int_str role_id])"
| "layout_payload (Lo_ChannelOverrideDelete server_id actor_user_id channel_id role_id) =
     Inr (ChannelOverrideDelete,
       Json_Object [(''serverId'', js_id server_id), (''remoteUserId'', js_id actor_user_id),
                    (''remoteChannelId'', js_id channel_id), (''roleId'', js_id role_id)],
       key_of [''channel_override_delete'', int_str server_id, int_str channel_id, int_str role_id])"

primrec content_payload :: "content_event \<Rightarrow> produced_payload" where
  "content_payload (Lo_EmojiRename server_id actor_user_id emoji_id name) =
     Inr (EmojiRename,
       Json_Object [(''serverId'', js_id server_id), (''remoteUserId'', js_id actor_user_id),
                    (''emojiId'', js_id emoji_id), (''name'', Json_String name)],
       key_of [''emoji_rename'', int_str server_id, int_str emoji_id])"
| "content_payload (Lo_EmojiDelete server_id actor_user_id emoji_id) =
     Inr (EmojiDelete,
       Json_Object [(''serverId'', js_id server_id), (''remoteUserId'', js_id actor_user_id),
                    (''emojiId'', js_id emoji_id)],
       key_of [''emoji_delete'', int_str server_id, int_str emoji_id])"
| "content_payload (Lo_MessageCreate channel_id server_id message_id author_user_id content nonce reply_to_message_id) =
     Inr (MessageCreate,
       Json_Object [(''serverId'', js_option js_id server_id), (''channelId'', js_id channel_id),
                    (''remoteMessageId'', js_id message_id), (''remoteUserId'', js_id author_user_id),
                    (''content'', Json_String content), (''nonce'', json_opt nonce),
                    (''replyToRemoteMessageId'', js_option js_id reply_to_message_id)],
       key_of [''message_create'', int_str channel_id, int_str message_id])"
| "content_payload (Lo_MessageUpdate channel_id message_id author_user_id content) =
     message_payload MessageUpdate ''message_update'' channel_id message_id author_user_id (Some content)"
| "content_payload (Lo_MessageDelete channel_id message_id author_user_id) =
     message_payload MessageDelete ''message_delete'' channel_id message_id author_user_id None"
| "content_payload (Lo_MessagePin channel_id message_id actor_user_id) =
     message_payload MessagePin ''message_pin'' channel_id message_id actor_user_id None"
| "content_payload (Lo_MessageUnpin channel_id message_id actor_user_id) =
     message_payload MessageUnpin ''message_unpin'' channel_id message_id actor_user_id None"
| "content_payload (Lo_ReactionAdd channel_id message_id user_id emoji emoji_id) =
     reaction_payload ReactionAdd ''reaction_add'' channel_id message_id user_id emoji emoji_id"
| "content_payload (Lo_ReactionRemove channel_id message_id user_id emoji emoji_id) =
     reaction_payload ReactionRemove ''reaction_remove'' channel_id message_id user_id emoji emoji_id"

primrec social_payload :: "social_event \<Rightarrow> produced_payload" where
  "social_payload (Lo_RelationshipRequest user_id local_user_id) =
     relationship_payload RelationshipRequest ''relationship_request'' user_id local_user_id"
| "social_payload (Lo_RelationshipAccept user_id local_user_id) =
     relationship_payload RelationshipAccept ''relationship_accept'' user_id local_user_id"
| "social_payload (Lo_RelationshipRemove user_id local_user_id) =
     relationship_payload RelationshipRemove ''relationship_remove'' user_id local_user_id"
| "social_payload (Lo_RelationshipBlock user_id local_user_id) =
     relationship_payload RelationshipBlock ''relationship_block'' user_id local_user_id"
| "social_payload (Lo_PresenceUpdate user_id status) =
     Inr (PresenceUpdate,
       Json_Object [(''remoteUserId'', js_id user_id), (''status'', Json_String status)],
       key_of [''presence_update'', int_str user_id, status])"
| "social_payload (Lo_TypingStart channel_id user_id) =
     Inr (TypingStart,
       Json_Object [(''channelId'', js_id channel_id), (''remoteUserId'', js_id user_id)],
       key_of [''typing_start'', int_str channel_id, int_str user_id])"
| "social_payload (Lo_ReadStateUpdate channel_id message_id user_id) =
     Inr (ReadStateUpdate,
       Json_Object [(''channelId'', js_id channel_id), (''remoteMessageId'', js_id message_id),
                    (''remoteUserId'', js_id user_id)],
       key_of [''read_state_update'', int_str channel_id, int_str message_id, int_str user_id])"
| "social_payload (Lo_DmCreate dm_id actor_user_id local_user_id) =
     Inr (DmCreate,
       Json_Object [(''dmId'', js_id dm_id), (''remoteUserId'', js_id actor_user_id), (''localUserId'', js_id local_user_id)],
       key_of [''dm_create'', int_str dm_id, int_str actor_user_id, int_str local_user_id])"
| "social_payload (Lo_DmGroupCreate dm_id actor_user_id local_user_ids name) =
     Inr (DmGroupCreate,
       Json_Object [(''dmId'', js_id dm_id), (''remoteUserId'', js_id actor_user_id),
                    (''localUserIds'', Json_Array (map js_id local_user_ids)), (''name'', json_opt name)],
       key_of [''dm_group_create'', int_str dm_id, int_str actor_user_id])"

primrec event_payload :: "'a digest_env_scheme \<Rightarrow> local_event \<Rightarrow> produced_payload" where
  "event_payload env (Lo_Unsupported surface) = Inl (UnsupportedSurface surface)"
| "event_payload env (Of_Handshake event) = handshake_payload env event"
| "event_payload env (Of_Role event) = role_payload event"
| "event_payload env (Of_Layout event) = layout_payload event"
| "event_payload env (Of_Content event) = content_payload event"
| "event_payload env (Of_Social event) = social_payload event"

section \<open>Envelopes\<close>

text \<open>The digest in hexadecimal has 64 digits, of which the id takes 32.\<close>

definition stable_event_id :: "'a digest_env_scheme \<Rightarrow> string \<Rightarrow> string \<Rightarrow> event_kind \<Rightarrow> string \<Rightarrow> string" where
  "stable_event_id env source_peer_id destination_peer_id kind dedupe_key =
     (let digest = hex_encode env (sha256 env
            (source_peer_id @ CHR 0x0A # destination_peer_id @ CHR 0x0A # kind_as_str kind @ CHR 0x0A # dedupe_key))
      in ''fed:'' @ kind_as_str kind @ CHR '':'' # take 32 digest)"

definition event_kind_is_ephemeral :: "event_kind \<Rightarrow> bool" where
  "event_kind_is_ephemeral kind \<longleftrightarrow> kind = PresenceUpdate \<or> kind = TypingStart"

definition producer_payload_hash :: "'a fed_env_scheme \<Rightarrow> json \<Rightarrow> producer_error + string" where
  "producer_payload_hash env payload =
     (case to_vec env payload of
        None \<Rightarrow> Inl Producer_InvalidPayload
      | Some bytes \<Rightarrow> Inr (hex_encode (digests env) (sha256 (digests env) bytes)))"

definition envelope_json :: "string \<Rightarrow> event_kind \<Rightarrow> string \<Rightarrow> string \<Rightarrow> int \<Rightarrow> json \<Rightarrow> json" where
  "envelope_json event_id kind source_peer_id destination_peer_id sent_at_ms payload =
     Json_Object
       [(''protocolVersion'', js_int 1), (''eventId'', Json_String event_id), (''kind'', Json_String (kind_as_str kind)),
        (''sourcePeerId'', Json_String source_peer_id), (''destinationPeerId'', Json_String destination_peer_id),
        (''sentAtMs'', js_int sent_at_ms), (''payload'', payload)]"

definition producer_protocol_error :: "protocol_error \<Rightarrow> producer_error" where
  "producer_protocol_error e = (if e = InvalidPayload then Producer_InvalidPayload else Producer_InvalidEnvelope)"

definition dedupe_key_at :: "event_kind \<Rightarrow> string \<Rightarrow> int \<Rightarrow> string" where
  "dedupe_key_at kind dedupe_key sent_at_ms =
     (if event_kind_is_ephemeral kind then dedupe_key @ CHR '':'' # int_str sent_at_ms else dedupe_key)"

definition build_outbound_envelope ::
  "'a host_env_scheme \<Rightarrow> string \<Rightarrow> string \<Rightarrow> local_event \<Rightarrow> producer_source \<Rightarrow> int
    \<Rightarrow> producer_error + produced_envelope" where
  "build_outbound_envelope env source_peer_id destination_peer_id event source sent_at_ms =
     (case source of
        Source_InboundFederation _ _ \<Rightarrow> Inl InboundRebroadcast
      | Source_Local \<Rightarrow>
          bind_result (kind_of_event event) (\<lambda>kind.
          if \<not> runtime_propagation_allowed kind then Inl RuntimePropagationDisabled
          else
            bind_result (event_payload (digests env) event) (\<lambda>(kind, payload, dedupe_key).
            let dedupe_key = dedupe_key_at kind dedupe_key sent_at_ms;
                event_id = stable_event_id (digests env) source_peer_id destination_peer_id kind dedupe_key
            in bind_result (producer_payload_hash env payload) (\<lambda>payload_hash.
               let body_json = envelope_json event_id kind source_peer_id destination_peer_id sent_at_ms payload
               in bind_result (map_err producer_protocol_error (envelope_from_json env (json_text env body_json))) (\<lambda>_.
                  Inr \<lparr>pd_event_id = event_id, pd_kind = kind, pd_destination_peer_id = destination_peer_id,
                       pd_payload_hash = payload_hash, pd_body_json = body_json\<rparr>)))))"

section \<open>Queueing\<close>

definition count_insert :: "event_insert_result \<Rightarrow> enqueue_report \<Rightarrow> enqueue_report" where
  "count_insert result report =
     (case result of
        Inserted \<Rightarrow> report\<lparr>er_inserted := er_inserted report + 1\<rparr>
      | Duplicate \<Rightarrow> report\<lparr>er_duplicates := er_duplicates report + 1\<rparr>)"

text \<open>The id is drawn whether or not the row is inserted.\<close>

definition insert_produced :: "produced_envelope \<Rightarrow> int \<Rightarrow> (sqlx_error, event_insert_result) host_step" where
  "insert_produced produced now_ms =
     st_bind draw_id (\<lambda>i. insert_outbound_event i (pd_destination_peer_id produced) (pd_event_id produced)
       (pd_kind produced) (pd_payload_hash produced) (pd_body_json produced) now_ms)"

fun enqueue_to_peers ::
  "'a host_env_scheme \<Rightarrow> local_event \<Rightarrow> producer_source \<Rightarrow> int \<Rightarrow> string list \<Rightarrow> enqueue_report
    \<Rightarrow> (producer_error, enqueue_report) host_step" where
  "enqueue_to_peers env event source now_ms [] report = st_return report"
| "enqueue_to_peers env event source now_ms (destination_peer_id # peers) report =
     st_bind (st_lift (build_outbound_envelope env (instance_id env) destination_peer_id event source now_ms)) (\<lambda>produced.
     st_bind (st_map_err (\<lambda>_. Producer_Storage) (insert_produced produced now_ms)) (\<lambda>result.
     enqueue_to_peers env event source now_ms peers (count_insert result report)))"

definition no_peers :: enqueue_report where
  "no_peers = \<lparr>er_selected_peers = 0, er_inserted = 0, er_duplicates = 0\<rparr>"

definition enqueue_local_event_for_scope ::
  "'a host_env_scheme \<Rightarrow> route_scope \<Rightarrow> local_event \<Rightarrow> producer_source \<Rightarrow> int
    \<Rightarrow> (producer_error, enqueue_report) host_step" where
  "enqueue_local_event_for_scope env scope event source now_ms =
     st_bind (st_lift (kind_of_event event)) (\<lambda>kind.
     if \<not> runtime_propagation_allowed kind then st_return no_peers
     else
       st_bind (st_map_err (\<lambda>_. Producer_Storage) (producer_peers_for_scope scope)) (\<lambda>candidates.
       let selected_peer_ids = select_outbound_peers candidates (instance_id env) scope source
       in enqueue_to_peers env event source now_ms selected_peer_ids
            (no_peers\<lparr>er_selected_peers := length selected_peer_ids\<rparr>)))"

section \<open>Joining over an invite\<close>

definition build_federated_invite_join_events ::
  "'a digest_env_scheme \<Rightarrow> int \<Rightarrow> int \<Rightarrow> string \<Rightarrow> string option \<Rightarrow> string option \<Rightarrow> string option
    \<Rightarrow> invite_join_error + local_event list" where
  "build_federated_invite_join_events env user_id server_id invite_code username display_name avatar_url =
     (if \<not> valid_invite_code invite_code then Inl InvalidInviteCode
      else Inr [Of_Handshake (Lo_PrincipalUpsert user_id username display_name avatar_url),
                Of_Handshake (Lo_MembershipJoin server_id user_id None (Some (federated_invite_code_hash env invite_code)))])"

record invite_join_report =
  ij_queued_events :: nat
  ij_duplicate_events :: nat

definition count_join :: "event_insert_result \<Rightarrow> invite_join_report \<Rightarrow> invite_join_report" where
  "count_join result report =
     (case result of
        Inserted \<Rightarrow> report\<lparr>ij_queued_events := ij_queued_events report + 1\<rparr>
      | Duplicate \<Rightarrow> report\<lparr>ij_duplicate_events := ij_duplicate_events report + 1\<rparr>)"

fun enqueue_join_events ::
  "'a host_env_scheme \<Rightarrow> string \<Rightarrow> int \<Rightarrow> local_event list \<Rightarrow> invite_join_report
    \<Rightarrow> (invite_join_error, invite_join_report) host_step" where
  "enqueue_join_events env target_peer_id now_ms [] report = st_return report"
| "enqueue_join_events env target_peer_id now_ms (event # events) report =
     st_bind (st_lift (map_err (\<lambda>_. Join_Producer)
       (build_outbound_envelope env (instance_id env) target_peer_id event Source_Local now_ms))) (\<lambda>produced.
     st_bind (st_map_err (\<lambda>_. Join_Storage) (insert_produced produced now_ms)) (\<lambda>result.
     enqueue_join_events env target_peer_id now_ms events (count_join result report)))"

definition enqueue_federated_invite_join ::
  "'a host_env_scheme \<Rightarrow> string \<Rightarrow> int \<Rightarrow> int \<Rightarrow> string \<Rightarrow> string option \<Rightarrow> string option \<Rightarrow> string option \<Rightarrow> int
    \<Rightarrow> (invite_join_error, invite_join_report) host_step" where
  "enqueue_federated_invite_join env target_peer_id server_id user_id invite_code username display_name avatar_url now_ms =
     st_bind (st_lift (build_federated_invite_join_events (digests env) user_id server_id invite_code username display_name
       avatar_url)) (\<lambda>events.
     enqueue_join_events env target_peer_id now_ms events \<lparr>ij_queued_events = 0, ij_duplicate_events = 0\<rparr>)"

section \<open>Which rows an event adds\<close>

lemma byte_inj: "inj (map byte)"
  by (intro inj_mapI) (simp add: byte_def inj_def)

lemma distinct_remdups_adj: "sorted (xs :: 'a :: linorder list) \<Longrightarrow> distinct (remdups_adj xs)"
  by (induction xs rule: remdups_adj.induct) auto

lemma selected_peers:
  "set (select_outbound_peers candidates me scope Source_Local) =
     pp_peer_id ` {p \<in> set candidates. peer_selected me scope p}"
  "distinct (select_outbound_peers candidates me scope source)"
proof -
  show "set (select_outbound_peers candidates me scope Source_Local) =
     pp_peer_id ` {p \<in> set candidates. peer_selected me scope p}"
    by (simp add: select_outbound_peers_def)
  let ?ps = "map pp_peer_id (filter (peer_selected me scope) candidates)"
  have "distinct (remdups_adj (map (map byte) (sort_key (map byte) ?ps)))"
    by (rule distinct_remdups_adj) simp
  then have "distinct (map (map byte) (remdups_adj (sort_key (map byte) ?ps)))"
    by (simp only: remdups_adj_map_injective [OF byte_inj])
  then show "distinct (select_outbound_peers candidates me scope source)"
    by (auto simp: select_outbound_peers_def distinct_map split: producer_source.split)
qed

lemmas payload_shapes = membership_moderation_payload_def mapped_id_payload_def member_role_payload_def
  message_payload_def reaction_payload_def relationship_payload_def

lemma event_payload_kind:
  assumes "event_payload env event = Inr (kind, p, d)"
  shows "kind_of_event event = Inr kind"
proof (cases event)
  case (Of_Handshake e)
  then show ?thesis using assms by (cases e) (auto simp: payload_shapes split: option.splits)
next
  case (Of_Role e)
  then show ?thesis using assms by (cases e) (auto simp: payload_shapes)
next
  case (Of_Layout e)
  then show ?thesis using assms by (cases e) (auto simp: payload_shapes)
next
  case (Of_Content e)
  then show ?thesis using assms by (cases e) (auto simp: payload_shapes)
next
  case (Of_Social e)
  then show ?thesis using assms by (cases e) (auto simp: payload_shapes)
qed (use assms in simp)

lemma kind_of_handshake_in [simp]: "kind_of_handshake e \<in> handshake_kinds"
  by (cases e) (simp_all add: handshake_kinds_def)

lemma handshake_kind_iff:
  "(\<exists>kind\<in>handshake_kinds. kind_of_event event = Inr kind) \<longleftrightarrow> (\<exists>e. event = Of_Handshake e)"
proof -
  have "kind_of_role e \<notin> handshake_kinds" for e by (cases e) (simp_all add: handshake_kinds_def)
  moreover have "kind_of_layout e \<notin> handshake_kinds" for e by (cases e) (simp_all add: handshake_kinds_def)
  moreover have "kind_of_content e \<notin> handshake_kinds" for e by (cases e) (simp_all add: handshake_kinds_def)
  moreover have "kind_of_social e \<notin> handshake_kinds" for e by (cases e) (simp_all add: handshake_kinds_def)
  ultimately show ?thesis by (cases event) auto
qed

lemma build_Inr:
  "build_outbound_envelope env src dst event source t = Inr p \<longleftrightarrow>
     source = Source_Local \<and>
     (\<exists>kind payload key hash e.
        event_payload (digests env) event = Inr (kind, payload, key) \<and> kind \<in> handshake_kinds \<and>
        producer_payload_hash env payload = Inr hash \<and>
        envelope_from_json env (json_text env (envelope_json (stable_event_id (digests env) src dst kind key) kind src dst t payload)) = Inr e \<and>
        p = \<lparr>pd_event_id = stable_event_id (digests env) src dst kind key, pd_kind = kind, pd_destination_peer_id = dst,
             pd_payload_hash = hash,
             pd_body_json = envelope_json (stable_event_id (digests env) src dst kind key) kind src dst t payload\<rparr>)"
proof -
  have key: "dedupe_key_at kind d t = d" if "kind \<in> handshake_kinds" for kind d
    using that by (auto simp: dedupe_key_at_def event_kind_is_ephemeral_def handshake_kinds_def)
  show ?thesis
  proof (cases "event_payload (digests env) event")
    case (Inl e)
    then show ?thesis
      by (auto simp: build_outbound_envelope_def result_iff Let_def split: producer_source.splits if_splits)
  next
    case (Inr x)
    then obtain kind payload d where x: "event_payload (digests env) event = Inr (kind, payload, d)" by (cases x) auto
    note k = event_payload_kind [OF x]
    show ?thesis
      by (auto simp: build_outbound_envelope_def result_iff runtime_propagation_allowed_iff Let_def key x k
          split: producer_source.splits)
  qed
qed

lemma insert_produced_row:
  assumes "insert_produced p now s = (r, s')"
  shows "\<exists>rows. fd_outbound s' = fd_outbound s @ rows \<and>
    (\<forall>x\<in>set rows. ob_destination_peer_id x = pd_destination_peer_id p \<and> ob_event_id x = pd_event_id p \<and>
       ob_event_kind x = kind_as_str (pd_kind p) \<and> ob_body_json x = pd_body_json p \<and> ob_status x = ''pending'' \<and>
       ob_attempt_count x = 0) \<and>
    length rows \<le> 1 \<and>
    (rows \<noteq> [] \<longrightarrow> (\<forall>x\<in>set (fd_outbound s). ob_destination_peer_id x \<noteq> pd_destination_peer_id p \<or> ob_event_id x \<noteq> pd_event_id p)) \<and>
    (is_ok r \<longrightarrow> (\<exists>x\<in>set (fd_outbound s'). ob_destination_peer_id x = pd_destination_peer_id p \<and> ob_event_id x = pd_event_id p))"
  using assms
  by (cases r)
    (auto simp: insert_produced_def draw_id_def next_snowflake_def insert_outbound_event_def result_iff list_ex_iff
      split: if_splits prod.splits)

lemma same_tables_insert: "insert_produced p now s = (r, s') \<Longrightarrow> fd_peer_keys s' = fd_peer_keys s \<and> fd_routes s' = fd_routes s"
  by (cases r)
    (auto simp: insert_produced_def draw_id_def next_snowflake_def insert_outbound_event_def result_iff
      split: if_splits prod.splits)

text \<open>A row says of event \<open>ev\<close> what the producer says to the row's destination.\<close>

definition announces :: "'a host_env_scheme \<Rightarrow> local_event \<Rightarrow> producer_source \<Rightarrow> int \<Rightarrow> outbound_row \<Rightarrow> bool" where
  "announces env event source now x \<longleftrightarrow>
     (\<exists>p. build_outbound_envelope env (instance_id env) (ob_destination_peer_id x) event source now = Inr p \<and>
        ob_event_id x = pd_event_id p \<and> ob_event_kind x = kind_as_str (pd_kind p) \<and> ob_body_json x = pd_body_json p \<and>
        ob_status x = ''pending'' \<and> ob_attempt_count x = 0)"

definition is_queued :: "outbound_row list \<Rightarrow> string \<Rightarrow> string \<Rightarrow> bool" where
  "is_queued rows peer event_id \<longleftrightarrow> (\<exists>x\<in>set rows. ob_destination_peer_id x = peer \<and> ob_event_id x = event_id)"

lemma enqueue_to_peers_rows:
  assumes "enqueue_to_peers env event source now peers report s = (r, s')" and "distinct peers"
  shows "\<exists>rows. fd_outbound s' = fd_outbound s @ rows \<and> distinct (map ob_destination_peer_id rows) \<and>
    (\<forall>x\<in>set rows. ob_destination_peer_id x \<in> set peers \<and> announces env event source now x \<and>
       \<not> is_queued (fd_outbound s) (ob_destination_peer_id x) (ob_event_id x)) \<and>
    (is_ok r \<longrightarrow> (\<forall>peer\<in>set peers. \<exists>p. build_outbound_envelope env (instance_id env) peer event source now = Inr p \<and>
       is_queued (fd_outbound s') peer (pd_event_id p)))"
  using assms
proof (induction peers arbitrary: report s)
  case Nil
  then show ?case by (auto simp: result_iff)
next
  case (Cons d peers)
  show ?case
  proof (cases "build_outbound_envelope env (instance_id env) d event source now")
    case (Inl e)
    with Cons.prems show ?thesis by (auto simp: st_bind_def st_lift_def)
  next
    case (Inr p)
    have dst: "pd_destination_peer_id p = d" using Inr by (auto simp: build_Inr)
    obtain q s1 where ins: "insert_produced p now s = (q, s1)" by (cases "insert_produced p now s")
    obtain new where new: "fd_outbound s1 = fd_outbound s @ new" "length new \<le> 1"
      "\<And>x. x \<in> set new \<Longrightarrow> ob_destination_peer_id x = d \<and> announces env event source now x \<and>
         \<not> is_queued (fd_outbound s) d (ob_event_id x)"
      "is_ok q \<Longrightarrow> is_queued (fd_outbound s1) d (pd_event_id p)"
      using insert_produced_row [OF ins] Inr by (fastforce simp: dst announces_def is_queued_def)
    have one: "distinct (map ob_destination_peer_id new)" using new(2) by (cases new) auto
    show ?thesis
    proof (cases q)
      case Inl': (Inl e)
      with Cons.prems ins Inr have "s' = s1" "\<not> is_ok r"
        by (auto simp: st_bind_def st_lift_def st_map_err_def is_ok_def)
      then show ?thesis using new one by auto
    next
      case Inr': (Inr x)
      with Cons.prems ins Inr
      have "enqueue_to_peers env event source now peers (count_insert x report) s1 = (r, s')" "distinct peers"
        by (auto simp: st_bind_def st_lift_def st_map_err_def)
      from Cons.IH [OF this] obtain rows where rows: "fd_outbound s' = fd_outbound s1 @ rows"
        "distinct (map ob_destination_peer_id rows)"
        "\<And>x. x \<in> set rows \<Longrightarrow> ob_destination_peer_id x \<in> set peers \<and> announces env event source now x \<and>
          \<not> is_queued (fd_outbound s1) (ob_destination_peer_id x) (ob_event_id x)"
        "is_ok r \<Longrightarrow> peer \<in> set peers \<Longrightarrow> \<exists>p. build_outbound_envelope env (instance_id env) peer event source now = Inr p \<and>
          is_queued (fd_outbound s') peer (pd_event_id p)" for peer
        by blast
      have "distinct (map ob_destination_peer_id (new @ rows))"
        using one rows(2,3) new(3) Cons.prems(2) by fastforce
      moreover have "is_queued (fd_outbound s') d (pd_event_id p)" using new(4) rows(1) Inr' by (auto simp: is_ok_def is_queued_def)
      moreover have "\<not> is_queued (fd_outbound s) (ob_destination_peer_id x) (ob_event_id x)" if "x \<in> set rows" for x
        using rows(3) [OF that] new(1) by (auto simp: is_queued_def)
      moreover have "ob_destination_peer_id x = d" "announces env event source now x"
          "\<not> is_queued (fd_outbound s) (ob_destination_peer_id x) (ob_event_id x)" if "x \<in> set new" for x
        using new(3) [OF that] by auto
      moreover have "ob_destination_peer_id x \<in> set peers" "announces env event source now x" if "x \<in> set rows" for x
        using rows(3) [OF that] by auto
      ultimately show ?thesis
        using rows(1,4) new(1) Inr by (intro exI [of _ "new @ rows"] conjI ballI impI) auto
    qed
  qed
qed

lemma Collect_image_conj: "{x \<in> f ` {p. P p}. Q x} = f ` {p. P p \<and> Q (f p)}"
  by blast

lemma peer_selected_route:
  "peer_selected me scope \<lparr>pp_peer_id = p, pp_routes = [route_of_scope scope], pp_active = True\<rparr> \<longleftrightarrow> p \<noteq> me"
  by (cases scope) (auto simp: peer_selected_def)

lemma producer_peers_tables:
  "producer_peers_for_scope scope s = (r, s') \<Longrightarrow> fd_outbound s' = fd_outbound s"
  by (cases r) (auto simp: producer_peers_for_scope_def result_iff split: prod.splits)

text \<open>An event of a kind that does not propagate changes nothing.\<close>

lemma other_kinds_stay_local:
  "kind_of_event event = Inr kind \<Longrightarrow> kind \<notin> handshake_kinds \<Longrightarrow>
   enqueue_local_event_for_scope env scope event source now s = (Inr no_peers, s)"
  by (simp add: enqueue_local_event_for_scope_def runtime_propagation_allowed_iff st_bind_def st_lift_def st_return_def)

lemma enqueue_Inl_kind:
  "kind_of_event event = Inl e \<Longrightarrow> enqueue_local_event_for_scope env scope event source now s = (Inl e, s)"
  by (simp add: enqueue_local_event_for_scope_def st_bind_def st_lift_def)

lemma enqueue_rows:
  assumes run: "enqueue_local_event_for_scope env scope event source now s = (r, s')"
  shows "\<exists>rows. fd_outbound s' = fd_outbound s @ rows \<and> distinct (map ob_destination_peer_id rows) \<and>
    (\<forall>x\<in>set rows. ob_destination_peer_id x \<noteq> instance_id env \<and> has_active_key s (ob_destination_peer_id x) \<and>
       has_active_route s (ob_destination_peer_id x) scope \<and> announces env event source now x \<and>
       \<not> is_queued (fd_outbound s) (ob_destination_peer_id x) (ob_event_id x)) \<and>
    (is_ok r \<and> source = Source_Local \<and> (\<exists>kind\<in>handshake_kinds. kind_of_event event = Inr kind) \<longrightarrow>
       (\<forall>peer. peer \<noteq> instance_id env \<and> has_active_key s peer \<and> has_active_route s peer scope \<longrightarrow>
         (\<exists>p. build_outbound_envelope env (instance_id env) peer event source now = Inr p \<and>
            is_queued (fd_outbound s') peer (pd_event_id p))))"
proof (cases "\<exists>kind\<in>handshake_kinds. kind_of_event event = Inr kind")
  case False
  then have "s' = s"
    using run by (cases "kind_of_event event") (auto simp: other_kinds_stay_local enqueue_Inl_kind)
  with False show ?thesis by auto
next
  case True
  obtain q s1 where peers: "producer_peers_for_scope scope s = (q, s1)" by (cases "producer_peers_for_scope scope s")
  note same = producer_peers_tables [OF peers]
  show ?thesis
  proof (cases q)
    case (Inl e)
    with True run peers have "s' = s1" "\<not> is_ok r"
      by (auto simp: enqueue_local_event_for_scope_def st_bind_def st_lift_def st_map_err_def
          runtime_propagation_allowed_iff is_ok_def)
    with same show ?thesis by auto
  next
    case (Inr cs)
    let ?ps = "select_outbound_peers cs (instance_id env) scope source"
    have go: "enqueue_to_peers env event source now ?ps (no_peers\<lparr>er_selected_peers := length ?ps\<rparr>) s1 = (r, s')"
      using True run peers Inr
      by (auto simp: enqueue_local_event_for_scope_def st_bind_def st_lift_def st_map_err_def Let_def
          runtime_propagation_allowed_iff)
    have route: "route_matches_scope (route_of_scope scope) scope" by (cases scope) auto
    have sel: "set (select_outbound_peers cs (instance_id env) scope Source_Local) =
        {p. p \<noteq> instance_id env \<and> has_active_key s p \<and> has_active_route s p scope}"
      (is "_ = ?R")
    proof -
      have "set cs = (\<lambda>p. \<lparr>pp_peer_id = p, pp_routes = [route_of_scope scope], pp_active = True\<rparr>)
          ` {p. has_active_key s p \<and> has_active_route s p scope}"
        using producer_peers_spec [of scope s cs s1] peers Inr by simp
      then have "{p \<in> set cs. peer_selected (instance_id env) scope p} =
          (\<lambda>p. \<lparr>pp_peer_id = p, pp_routes = [route_of_scope scope], pp_active = True\<rparr>) ` ?R"
        by (simp only: Collect_image_conj peer_selected_route) (simp add: conj_ac)
      then show ?thesis by (simp add: selected_peers image_image)
    qed
    have sub: "set ?ps \<subseteq> {p. p \<noteq> instance_id env \<and> has_active_key s p \<and> has_active_route s p scope}"
      using sel by (cases source) (auto simp: select_outbound_peers_def)
    from enqueue_to_peers_rows [OF go selected_peers(2)] obtain rows where rows: "fd_outbound s' = fd_outbound s @ rows"
      "distinct (map ob_destination_peer_id rows)"
      "\<And>x. x \<in> set rows \<Longrightarrow> ob_destination_peer_id x \<in> set ?ps"
      "\<And>x. x \<in> set rows \<Longrightarrow> announces env event source now x \<and>
         \<not> is_queued (fd_outbound s) (ob_destination_peer_id x) (ob_event_id x)"
      "is_ok r \<Longrightarrow> peer \<in> set ?ps \<Longrightarrow> \<exists>p. build_outbound_envelope env (instance_id env) peer event source now = Inr p \<and>
        is_queued (fd_outbound s') peer (pd_event_id p)" for peer
      unfolding same by blast
    have to: "ob_destination_peer_id x \<noteq> instance_id env" "has_active_key s (ob_destination_peer_id x)"
        "has_active_route s (ob_destination_peer_id x) scope" if "x \<in> set rows" for x
      using rows(3) [OF that] sub by auto
    have all: "peer \<in> set ?ps"
      if "source = Source_Local" "peer \<noteq> instance_id env" "has_active_key s peer" "has_active_route s peer scope" for peer
      using that sel by simp
    show ?thesis using rows(1,2,4,5) to all by (intro exI [of _ rows] conjI ballI impI allI) auto
  qed
qed

section \<open>What the receiving peer makes of an envelope\<close>

text \<open>What decoding a printed envelope gives: the members of the value that was printed.\<close>

definition raw_of_json :: "json \<Rightarrow> raw_envelope option" where
  "raw_of_json body =
     (case (Option.bind (json_get body ''protocolVersion'') as_i64, Option.bind (json_get body ''eventId'') as_str,
            Option.bind (json_get body ''kind'') as_str, Option.bind (json_get body ''sourcePeerId'') as_str,
            Option.bind (json_get body ''destinationPeerId'') as_str, Option.bind (json_get body ''sentAtMs'') as_i64,
            json_get body ''payload'') of
        (Some v, Some i, Some k, Some src, Some dst, Some t, Some payload) \<Rightarrow>
          Some \<lparr>raw_protocol_version = v, raw_event_id = i, raw_kind = k, raw_source_peer_id = src,
                raw_destination_peer_id = dst, raw_sent_at_ms = t, raw_payload = payload\<rparr>
      | _ \<Rightarrow> None)"

definition nonempty_reason :: "string option \<Rightarrow> string option" where
  "nonempty_reason = opt_filter (\<lambda>r. r \<noteq> [])"

text \<open>
  What an event of this server \<open>src\<close> tells another one: the reason of a leave and an empty reason of
  a moderation are not told, and a join tells the hash of its code.
\<close>

primrec told_command :: "'a fed_env_scheme \<Rightarrow> string \<Rightarrow> handshake_event \<Rightarrow> runtime_error + runtime_command" where
  "told_command env src (Lo_PrincipalUpsert user_id username display_name avatar_url) =
     (if optional_username username \<and> optional_display_name display_name \<and> optional_public_avatar_url env avatar_url
      then Inr (Cmd_UpsertRemotePrincipal src (int_str user_id) username display_name avatar_url)
      else Inl Runtime_InvalidPayload)"
| "told_command env src (Lo_MembershipJoin server_id user_id code code_h) =
     (case (case code_h of Some h \<Rightarrow> h | None \<Rightarrow> code_hash (digests env) (the code)) of
        [] \<Rightarrow> Inl Runtime_InvalidPayload
      | h \<Rightarrow> Inr (Cmd_MembershipJoin src (int_str user_id) server_id None (Some h)))"
| "told_command env src (Lo_MembershipLeave server_id user_id reason) =
     Inr (Cmd_MembershipLeave src (int_str user_id) server_id)"
| "told_command env src (Lo_MembershipRemove server_id moderator target reason) =
     Inr (Cmd_MembershipRemove src (int_str moderator) server_id target (nonempty_reason reason))"
| "told_command env src (Lo_MembershipBan server_id moderator target reason) =
     Inr (Cmd_MembershipBan src (int_str moderator) server_id target (nonempty_reason reason))"
| "told_command env src (Lo_MembershipUnban server_id moderator target) =
     Inr (Cmd_MembershipUnban src (int_str moderator) server_id target)"

text \<open>The servers and targets an event names, which are positive 64-bit ids.\<close>

primrec event_ids :: "handshake_event \<Rightarrow> int set" where
  "event_ids (Lo_PrincipalUpsert _ _ _ _) = {}"
| "event_ids (Lo_MembershipJoin server_id _ _ _) = {server_id}"
| "event_ids (Lo_MembershipLeave server_id _ _) = {server_id}"
| "event_ids (Lo_MembershipRemove server_id _ target _) = {server_id, target}"
| "event_ids (Lo_MembershipBan server_id _ target _) = {server_id, target}"
| "event_ids (Lo_MembershipUnban server_id _ target) = {server_id, target}"

lemma int_str_not_Nil [simp]: "int_str i \<noteq> []"
  using nat_str_digits by (auto simp: int_str_def)

lemma required_id_text [simp]: "required_str (Json_Object m) k = Inr (int_str i)" if "map_of m k = Some (js_id i)"
  using that by (simp add: required_str_def js_id_def ok_or_def opt_filter_def)

lemma required_local_id_text [simp]:
  "required_local_id (Json_Object m) k = Inr i" if "map_of m k = Some (js_id i)" "i \<in> {1..i64_max}"
  using that by (simp add: required_local_id_def parse_i64_str i64_min_def ok_or_def opt_filter_def)

lemma optional_text:
  "optional_str (Json_Object m) k = (case map_of m k of Some v \<Rightarrow> as_str v | None \<Rightarrow> None)"
  by (simp add: optional_str_def split: option.split)

lemma as_str_json_opt [simp]: "as_str (json_opt x) = x"
  by (cases x) (simp_all add: json_opt_def)

lemma in_handshake_kinds [simp]:
  "PrincipalUpsert \<in> handshake_kinds" "MembershipJoin \<in> handshake_kinds" "MembershipLeave \<in> handshake_kinds"
  "MembershipRemove \<in> handshake_kinds" "MembershipBan \<in> handshake_kinds" "MembershipUnban \<in> handshake_kinds"
  by (simp_all add: handshake_kinds_def)

lemmas commands = command_from_envelope_def runtime_propagation_allowed_iff optional_text Let_def

lemma told_payload:
  assumes "handshake_payload (digests env) event = Inr (kind, payload, key)" and "event_ids event \<subseteq> {1..i64_max}"
  shows "is_object payload"
    and "command_from_envelope env \<lparr>env_protocol_version = 1, env_event_id = i, env_kind = kind, env_source_peer_id = src,
           env_destination_peer_id = dst, env_sent_at_ms = t, env_payload = payload\<rparr> = told_command env src event"
      (is "command_from_envelope env ?e = _")
proof -
  show "is_object payload"
    using assms by (cases event) (auto simp: is_object_iff payload_shapes split: option.splits)
  show "command_from_envelope env ?e = told_command env src event"
  proof (cases event)
    case (Lo_PrincipalUpsert u n d a)
    with assms(1) show ?thesis
      by (clarsimp simp: commands remote_principal_command_def new_metadata_def)
  next
    case (Lo_MembershipJoin i u c h)
    with assms show ?thesis
      by (cases h; cases c; clarsimp simp: commands membership_join_command_def opt_filter_def split: list.split)
  next
    case (Lo_MembershipLeave i u r)
    with assms show ?thesis by (clarsimp simp: commands membership_leave_command_def)
  next
    case (Lo_MembershipRemove i m t r)
    with assms show ?thesis
      by (clarsimp simp: commands membership_moderation_command_def membership_moderation_payload_def nonempty_reason_def)
  next
    case (Lo_MembershipBan i m t r)
    with assms show ?thesis
      by (clarsimp simp: commands membership_moderation_command_def membership_moderation_payload_def nonempty_reason_def)
  next
    case (Lo_MembershipUnban i m t)
    with assms show ?thesis
      by (clarsimp simp: commands membership_moderation_command_def opt_filter_def)
  qed
qed

lemma raw_of_envelope_json:
  "raw_of_json (envelope_json i kind src dst t payload) =
     (if i64_min \<le> t \<and> t \<le> i64_max then
        Some \<lparr>raw_protocol_version = 1, raw_event_id = i, raw_kind = kind_as_str kind, raw_source_peer_id = src,
              raw_destination_peer_id = dst, raw_sent_at_ms = t, raw_payload = payload\<rparr>
      else None)"
  by (simp add: raw_of_json_def envelope_json_def js_int_def i64_min_def i64_max_def)


section \<open>An event that happens twice\<close>

text \<open>What the id of a membership event depends on, beside the two peers.\<close>

primrec subject :: "handshake_event \<Rightarrow> event_kind \<times> int list" where
  "subject (Lo_PrincipalUpsert user_id _ _ _) = (PrincipalUpsert, [user_id])"
| "subject (Lo_MembershipJoin server_id user_id _ _) = (MembershipJoin, [server_id, user_id])"
| "subject (Lo_MembershipLeave server_id user_id _) = (MembershipLeave, [server_id, user_id])"
| "subject (Lo_MembershipRemove server_id moderator target _) = (MembershipRemove, [server_id, moderator, target])"
| "subject (Lo_MembershipBan server_id moderator target _) = (MembershipBan, [server_id, moderator, target])"
| "subject (Lo_MembershipUnban server_id moderator target) = (MembershipUnban, [server_id, moderator, target])"

lemma subject_key:
  "handshake_payload env event = Inr (kind, payload, key) \<Longrightarrow>
     kind = fst (subject event) \<and> key = key_of (kind_as_str kind # map int_str (snd (subject event)))"
  by (cases event) (auto simp: payload_shapes split: option.splits)

lemma same_subject_same_id:
  assumes "subject first = subject again"
    and "build_outbound_envelope env src dst (Of_Handshake first) source t = Inr p"
    and "build_outbound_envelope env src dst (Of_Handshake again) source' t' = Inr p'"
  shows "pd_event_id p' = pd_event_id p"
  using assms by (auto simp: build_Inr dest!: subject_key)

text \<open>
  C21. A membership event is announced to a peer once. When a join, leave, kick, ban or unban
  of a user on a server, or the profile of a user, was queued for peer \<open>d\<close>, and rows of the outbox
  are kept, then whatever happens in between, the same kind of event for the same user (of all but
  the profile: on the same server; of a kick, ban or unban: by the same moderator) adds no row for
  \<open>d\<close> ever again: a member whom
  the same moderator bans, unbans and bans a second time, or who leaves, joins and leaves the server
  again, stays what the peer heard first, and a changed profile is not told. A ban by another
  moderator and a join of another server have other ids and are told.
\<close>
theorem repeated_events_are_not_announced:
  assumes "enqueue_local_event_for_scope env scope (Of_Handshake first) Source_Local t s0 = (Inr report, s1)"
    and "d \<noteq> instance_id env" and "has_active_key s0 d" and "has_active_route s0 d scope"
    and "\<And>event_id. is_queued (fd_outbound s1) d event_id \<Longrightarrow> is_queued (fd_outbound s) d event_id"
    and "subject first = subject again"
    and "enqueue_local_event_for_scope env scope' (Of_Handshake again) source now s = (r, s')"
  shows "filter (\<lambda>x. ob_destination_peer_id x = d) (fd_outbound s') = filter (\<lambda>x. ob_destination_peer_id x = d) (fd_outbound s)"
proof -
  obtain p where p: "build_outbound_envelope env (instance_id env) d (Of_Handshake first) Source_Local t = Inr p"
      "is_queued (fd_outbound s1) d (pd_event_id p)"
    using enqueue_rows [OF assms(1)] assms(2-4) by (auto simp: is_ok_def)
  obtain rows where rows: "fd_outbound s' = fd_outbound s @ rows"
    "\<And>x. x \<in> set rows \<Longrightarrow> announces env (Of_Handshake again) source now x \<and>
       \<not> is_queued (fd_outbound s) (ob_destination_peer_id x) (ob_event_id x)"
    using enqueue_rows [OF assms(7)] by blast
  have "ob_destination_peer_id x \<noteq> d" if "x \<in> set rows" for x
  proof
    assume d: "ob_destination_peer_id x = d"
    from rows(2) [OF that] d obtain p' where p': "build_outbound_envelope env (instance_id env) d (Of_Handshake again) source now = Inr p'"
      "ob_event_id x = pd_event_id p'" "\<not> is_queued (fd_outbound s) d (pd_event_id p')" by (auto simp: announces_def)
    with same_subject_same_id [OF assms(6) p(1) p'(1)] assms(5) [OF p(2)] show False by simp
  qed
  then show ?thesis by (simp add: rows(1) filter_empty_conv)
qed

lemma insert_produced_again:
  assumes "is_queued (fd_outbound s) (pd_destination_peer_id p) (pd_event_id p)" and "insert_produced p now s = (r, s')"
  shows "fd_outbound s' = fd_outbound s" and "r = Inr x \<Longrightarrow> x = Duplicate"
proof -
  obtain rows where rows: "fd_outbound s' = fd_outbound s @ rows"
    "rows \<noteq> [] \<longrightarrow> (\<forall>x\<in>set (fd_outbound s). ob_destination_peer_id x \<noteq> pd_destination_peer_id p \<or> ob_event_id x \<noteq> pd_event_id p)"
    using insert_produced_row [OF assms(2)] by blast
  with assms(1) show "fd_outbound s' = fd_outbound s" by (auto simp: is_queued_def)
  show "x = Duplicate" if "r = Inr x"
    using assms that
    by (auto simp: insert_produced_def draw_id_def next_snowflake_def insert_outbound_event_def result_iff list_ex_iff
        is_queued_def split: if_splits prod.splits)
qed

lemma insert_produced_queues:
  assumes "insert_produced p now s = (r, s')"
  shows "is_queued (fd_outbound s) d i \<Longrightarrow> is_queued (fd_outbound s') d i"
    and "is_ok r \<Longrightarrow> is_queued (fd_outbound s') (pd_destination_peer_id p) (pd_event_id p)"
  using insert_produced_row [OF assms] by (auto simp: is_queued_def)

lemma join_events_queue:
  assumes "enqueue_join_events env d t events report s = (Inr report', s')"
  shows "(\<forall>event\<in>set events. \<exists>p. build_outbound_envelope env (instance_id env) d event Source_Local t = Inr p \<and>
      is_queued (fd_outbound s') d (pd_event_id p)) \<and> (\<forall>i. is_queued (fd_outbound s) d i \<longrightarrow> is_queued (fd_outbound s') d i)"
  using assms
proof (induction events arbitrary: report s)
  case (Cons event events)
  from Cons.prems obtain p x s1 where 1: "build_outbound_envelope env (instance_id env) d event Source_Local t = Inr p"
      "insert_produced p t s = (Inr x, s1)" "enqueue_join_events env d t events (count_join x report) s1 = (Inr report', s')"
    by (auto simp: result_iff)
  have "pd_destination_peer_id p = d" using 1(1) by (auto simp: build_Inr)
  with insert_produced_queues(1) [OF 1(2), of d] insert_produced_queues(2) [OF 1(2)] Cons.IH [OF 1(3)] 1(1) show ?case by (auto simp: is_ok_def)
qed (auto simp: result_iff)

lemma join_events_again:
  assumes "enqueue_join_events env d now events report s = (r, s')"
    and "\<And>event p. event \<in> set events \<Longrightarrow> build_outbound_envelope env (instance_id env) d event Source_Local now = Inr p \<Longrightarrow>
       is_queued (fd_outbound s) d (pd_event_id p)"
  shows "fd_outbound s' = fd_outbound s \<and>
    (\<forall>report'. r = Inr report' \<longrightarrow> report' = report\<lparr>ij_duplicate_events := ij_duplicate_events report + length events\<rparr>)"
  using assms
proof (induction events arbitrary: report s)
  case (Cons event events)
  show ?case
  proof (cases "build_outbound_envelope env (instance_id env) d event Source_Local now")
    case (Inl e)
    with Cons.prems show ?thesis by (auto simp: st_bind_def st_lift_def)
  next
    case (Inr p)
    obtain q s1 where ins: "insert_produced p now s = (q, s1)" by (cases "insert_produced p now s")
    have "pd_destination_peer_id p = d" using Inr by (auto simp: build_Inr)
    with Cons.prems(2) [of event p] Inr have "is_queued (fd_outbound s) (pd_destination_peer_id p) (pd_event_id p)" by simp
    note again = insert_produced_again [OF this ins]
    show ?thesis
    proof (cases q)
      case Inl': (Inl e)
      with Cons.prems(1) Inr ins have "s' = s1" "\<not> is_ok r" by (auto simp: st_bind_def st_lift_def st_map_err_def is_ok_def)
      with again(1) show ?thesis by (auto simp: is_ok_def)
    next
      case Inr': (Inr x)
      with Cons.prems(1) Inr ins again(2) [of x]
      have "enqueue_join_events env d now events (report\<lparr>ij_duplicate_events := ij_duplicate_events report + 1\<rparr>) s1 = (r, s')"
        by (auto simp: st_bind_def st_lift_def st_map_err_def count_join_def)
      from Cons.IH [OF this] Cons.prems(2) again(1) show ?thesis by auto
    qed
  qed
qed (auto simp: result_iff)

text \<open>
  A second join over an invite is never sent. When the join of a user to a server of peer \<open>d\<close>
  was queued and the outbox keeps its rows, queueing it again, with any invite code and profile and
  at any later time (after the user has left, or was refused because the code had expired), leaves
  the outbox as it is, and what is reported as success has queued no event.
\<close>
lemma a_second_join_is_never_sent:
  assumes "enqueue_federated_invite_join env d server_id user_id code username display_name avatar_url t s0 = (Inr report, s1)"
    and "\<And>event_id. is_queued (fd_outbound s1) d event_id \<Longrightarrow> is_queued (fd_outbound s) d event_id"
    and "enqueue_federated_invite_join env d server_id user_id code' username' display_name' avatar_url' now s = (r, s')"
  shows "fd_outbound s' = fd_outbound s \<and> (\<forall>report'. r = Inr report' \<longrightarrow> ij_queued_events report' = 0)"
proof -
  let ?e1 = "Lo_PrincipalUpsert user_id username display_name avatar_url"
  let ?e2 = "Lo_MembershipJoin server_id user_id None (Some (federated_invite_code_hash (digests env) code))"
  let ?f1 = "Lo_PrincipalUpsert user_id username' display_name' avatar_url'"
  let ?f2 = "Lo_MembershipJoin server_id user_id None (Some (federated_invite_code_hash (digests env) code'))"
  have "enqueue_join_events env d t [Of_Handshake ?e1, Of_Handshake ?e2] \<lparr>ij_queued_events = 0, ij_duplicate_events = 0\<rparr> s0 = (Inr report, s1)"
    using assms(1) by (auto simp: enqueue_federated_invite_join_def build_federated_invite_join_events_def result_iff
        simp del: enqueue_join_events.simps split: if_splits)
  from join_events_queue [OF this] obtain p1 p2 where
    p: "build_outbound_envelope env (instance_id env) d (Of_Handshake ?e1) Source_Local t = Inr p1" "is_queued (fd_outbound s) d (pd_event_id p1)"
       "build_outbound_envelope env (instance_id env) d (Of_Handshake ?e2) Source_Local t = Inr p2" "is_queued (fd_outbound s) d (pd_event_id p2)"
    using assms(2) by auto
  have queued: "is_queued (fd_outbound s) d (pd_event_id p)"
    if "event \<in> set [Of_Handshake ?f1, Of_Handshake ?f2]" "build_outbound_envelope env (instance_id env) d event Source_Local now = Inr p" for event p
    using that same_subject_same_id [OF _ p(1), where again = ?f1] same_subject_same_id [OF _ p(3), where again = ?f2] p(2,4) by fastforce
  show ?thesis
  proof (cases "valid_invite_code code'")
    case True
    then have "enqueue_join_events env d now [Of_Handshake ?f1, Of_Handshake ?f2] \<lparr>ij_queued_events = 0, ij_duplicate_events = 0\<rparr> s = (r, s')"
      using assms(3) by (auto simp: enqueue_federated_invite_join_def build_federated_invite_join_events_def st_bind_def
          st_lift_def simp del: enqueue_join_events.simps)
    from join_events_again [OF this queued] show ?thesis by auto
  next
    case False
    then show ?thesis
      using assms(3) by (auto simp: enqueue_federated_invite_join_def build_federated_invite_join_events_def st_bind_def st_lift_def)
  qed
qed

section \<open>A concrete announcement\<close>

definition demo_ban :: handshake_event where
  "demo_ban = Lo_MembershipBan 9 3 60 (Some ''spam'')"

definition demo_ban_body :: json where
  "demo_ban_body = envelope_json (stable_event_id demo_auth_env ''b.example'' ''a.example'' MembershipBan ''membership_ban:9:3:60'')
     MembershipBan ''b.example'' ''a.example'' 5
     (Json_Object [(''serverId'', js_id 9), (''remoteUserId'', js_id 3), (''targetUserId'', js_id 60),
                   (''reason'', Json_String ''spam'')])"

definition demo_producer_env :: host_env where
  "demo_producer_env = demo_host_env\<lparr>parse_raw := (\<lambda>_. raw_of_json demo_ban_body)\<rparr>"

definition demo_routed :: host where
  "demo_routed = demo_host\<lparr>fd_routes := [\<lparr>rt_peer_id = ''a.example'', rt_scope_type = ''server'', rt_scope_id = 9,
     rt_status = ''active'', rt_updated_at_ms = 0\<rparr>]\<rparr>"

lemma demo_ban_built:
  "\<exists>p. build_outbound_envelope demo_producer_env ''b.example'' ''a.example'' (Of_Handshake demo_ban) Source_Local 5 = Inr p \<and>
     pd_body_json p = demo_ban_body"
proof -
  have "case build_outbound_envelope demo_producer_env ''b.example'' ''a.example'' (Of_Handshake demo_ban) Source_Local 5 of
      Inr p \<Rightarrow> pd_body_json p = demo_ban_body | Inl _ \<Rightarrow> False" by code_simp
  then show ?thesis by (auto split: sum.splits)
qed


abbreviation "demo_announce again now \<equiv>
  enqueue_local_event_for_scope demo_producer_env (Scope_Server 9) (Of_Handshake again) Source_Local now"

lemma demo_announced: "\<exists>report. demo_announce demo_ban 5 demo_routed = (Inr report, snd (demo_announce demo_ban 5 demo_routed))"
proof -
  have "is_ok (fst (demo_announce demo_ban 5 demo_routed))" by code_simp
  then show ?thesis by (auto simp: is_ok_def prod_eq_iff split: sum.splits)
qed

lemma repeated_events_are_not_announced_witness:
  "filter (\<lambda>x. ob_destination_peer_id x = ''a.example'')
     (fd_outbound (snd (demo_announce (Lo_MembershipBan 9 3 60 None) 6 (snd (demo_announce demo_ban 5 demo_routed))))) =
   filter (\<lambda>x. ob_destination_peer_id x = ''a.example'') (fd_outbound (snd (demo_announce demo_ban 5 demo_routed)))"
proof -
  obtain report where first: "demo_announce demo_ban 5 demo_routed = (Inr report, snd (demo_announce demo_ban 5 demo_routed))"
    using demo_announced by blast
  have "''a.example'' \<noteq> instance_id demo_producer_env" by (simp add: demo_producer_env_def demo_host_env_def)
  moreover have "has_active_key demo_routed ''a.example''" "has_active_route demo_routed ''a.example'' (Scope_Server 9)"
    by (simp_all add: has_active_key_def has_active_route_def demo_routed_def demo_host_def)
  moreover have "subject demo_ban = subject (Lo_MembershipBan 9 3 60 None)" by (simp add: demo_ban_def)
  ultimately show ?thesis
    by (intro repeated_events_are_not_announced [OF first _ _ _ _ _ prod.collapse [symmetric]])
qed

end
