(* ===== verification/Sessions.thy ===== *)
theory Sessions
  imports Host
begin

text \<open>
  Sessions (\<open>src/server-rs/src/services/session.rs\<close>), their statements
  (\<open>src/server-rs/src/services/pg/sessions.rs\<close>) and the risk of a login
  (\<open>src/server-rs/src/services/risk.rs\<close>). A random token or code is the argument \<open>fresh\<close>; where the
  code reads the clock twice, the second reading is \<open>later_ms\<close>. An operation that acts on a row it
  has read before is split after the read, so that theorems can let other requests run in between.
\<close>

section \<open>Parameters and constants\<close>

definition hash_token :: "'a digest_env_scheme \<Rightarrow> string \<Rightarrow> string" where
  "hash_token env token = hex_encode env (sha256 env token)"

definition MAX_SESSIONS_PER_USER :: nat where "MAX_SESSIONS_PER_USER = 10"
definition SESSION_LIFETIME_DAYS :: int where "SESSION_LIFETIME_DAYS = 7"
definition VERIFY_CODE_EXPIRY_MINUTES :: int where "VERIFY_CODE_EXPIRY_MINUTES = 15"
definition MAX_VERIFY_ATTEMPTS :: int where "MAX_VERIFY_ATTEMPTS = 5"
definition SLIDING_UPDATE_THRESHOLD_MS :: int where "SLIDING_UPDATE_THRESHOLD_MS = 5 * 60 * 1000"

definition days_ms :: "int \<Rightarrow> int" where "days_ms n = n * 86400000"
definition minutes_ms :: "int \<Rightarrow> int" where "minutes_ms n = n * 60000"

record geo_result =
  geo_city :: "string option"
  geo_region :: "string option"
  geo_country :: "string option"

record device_info =
  device_hash :: string
  device_label :: string

record create_session_result =
  cs_token :: string
  cs_session_id :: int
  cs_risk_level :: risk_level
  cs_verified :: bool

record validated_session =
  vs_user_id :: int
  vs_session_id :: int

record rotated_session =
  rs_user_id :: int
  rs_session_id :: int
  rs_token :: string

fun risk_str :: "risk_level \<Rightarrow> string" where
  "risk_str Risk_None = ''none''"
| "risk_str Risk_Low = ''low''"
| "risk_str Risk_High = ''high''"

definition coalesce :: "'a option \<Rightarrow> 'a option \<Rightarrow> 'a option" where
  "coalesce a b = (case a of Some x \<Rightarrow> Some x | None \<Rightarrow> b)"

section \<open>Statements\<close>

definition session_insert :: "session_row \<Rightarrow> (sqlx_error, unit) host_step" where
  "session_insert row =
     db_try (\<lambda>s. if list_ex (\<lambda>r. ss_id r = ss_id row \<or> ss_token_hash r = ss_token_hash row
                     \<or> (ss_revoke_token_hash row \<noteq> None \<and> ss_revoke_token_hash r = ss_revoke_token_hash row)) (hs_sessions s)
                   \<or> \<not> list_ex (\<lambda>u. us_id u = ss_user_id row) (fd_users s)
                 then None else Some ((), s\<lparr>hs_sessions := hs_sessions s @ [row]\<rparr>))"

definition session_by_id :: "int \<Rightarrow> (sqlx_error, session_row option) host_step" where
  "session_by_id i = db_call (\<lambda>s. (List.find (\<lambda>r. ss_id r = i) (hs_sessions s), s))"

definition by_token_hash :: "string \<Rightarrow> (sqlx_error, session_row option) host_step" where
  "by_token_hash h = db_call (\<lambda>s. (List.find (\<lambda>r. ss_token_hash r = h) (hs_sessions s), s))"

definition by_revoke_token_hash :: "string \<Rightarrow> (sqlx_error, session_row option) host_step" where
  "by_revoke_token_hash h = db_call (\<lambda>s. (List.find (\<lambda>r. ss_revoke_token_hash r = Some h) (hs_sessions s), s))"

definition session_update :: "(session_row \<Rightarrow> bool) \<Rightarrow> (session_row \<Rightarrow> session_row) \<Rightarrow> (sqlx_error, unit) host_step" where
  "session_update P f = db_call (\<lambda>s. ((), s\<lparr>hs_sessions := update_where P f (hs_sessions s)\<rparr>))"

definition touch_last_used :: "int \<Rightarrow> int \<Rightarrow> string option \<Rightarrow> string option \<Rightarrow> (sqlx_error, unit) host_step" where
  "touch_last_used i last_used_at_ms new_ip new_user_agent =
     session_update (\<lambda>r. ss_id r = i)
       (\<lambda>r. r\<lparr>ss_last_used_at_ms := last_used_at_ms, ss_ip := coalesce new_ip (ss_ip r),
              ss_user_agent := coalesce new_user_agent (ss_user_agent r)\<rparr>)"

definition rotate_token_hash ::
  "int \<Rightarrow> string \<Rightarrow> string \<Rightarrow> int \<Rightarrow> int \<Rightarrow> string option \<Rightarrow> (sqlx_error, bool) host_step" where
  "rotate_token_hash i current_token_hash new_token_hash expires_at_ms last_used_at_ms new_ip =
     db_try (\<lambda>s.
       let hit = (\<lambda>r. ss_id r = i \<and> ss_token_hash r = current_token_hash)
       in if list_ex hit (hs_sessions s) \<and> list_ex (\<lambda>r. \<not> hit r \<and> ss_token_hash r = new_token_hash) (hs_sessions s)
          then None
          else Some (length (filter hit (hs_sessions s)) = 1,
            s\<lparr>hs_sessions := update_where hit
               (\<lambda>r. r\<lparr>ss_token_hash := new_token_hash, ss_expires_at_ms := expires_at_ms,
                      ss_last_used_at_ms := last_used_at_ms, ss_ip := coalesce new_ip (ss_ip r)\<rparr>) (hs_sessions s)\<rparr>))"

definition mark_verified :: "int \<Rightarrow> (sqlx_error, unit) host_step" where
  "mark_verified i =
     session_update (\<lambda>r. ss_id r = i)
       (\<lambda>r. r\<lparr>ss_verified := True, ss_verify_token_hash := None, ss_verify_expires_at_ms := None,
              ss_verify_attempts := 0\<rparr>)"

text \<open>\<open>fetch_one\<close> of an update that hits no row is an error.\<close>

definition bump_verify_attempts :: "int \<Rightarrow> (sqlx_error, int) host_step" where
  "bump_verify_attempts i =
     db_try (\<lambda>s. case List.find (\<lambda>r. ss_id r = i) (hs_sessions s) of
        None \<Rightarrow> None
      | Some r \<Rightarrow> Some (ss_verify_attempts r + 1, s\<lparr>hs_sessions := update_where (\<lambda>r. ss_id r = i)
          (\<lambda>r. r\<lparr>ss_verify_attempts := ss_verify_attempts r + 1\<rparr>) (hs_sessions s)\<rparr>))"

definition set_verify_token :: "int \<Rightarrow> string \<Rightarrow> int \<Rightarrow> (sqlx_error, unit) host_step" where
  "set_verify_token i verify_token_hash verify_expires_at_ms =
     session_update (\<lambda>r. ss_id r = i)
       (\<lambda>r. r\<lparr>ss_verify_token_hash := Some verify_token_hash, ss_verify_expires_at_ms := Some verify_expires_at_ms,
              ss_verify_attempts := 0\<rparr>)"

definition set_revoke_token :: "int \<Rightarrow> string \<Rightarrow> (sqlx_error, unit) host_step" where
  "set_revoke_token i revoke_token_hash =
     db_try (\<lambda>s. if list_ex (\<lambda>r. ss_id r = i) (hs_sessions s)
                   \<and> list_ex (\<lambda>r. ss_id r \<noteq> i \<and> ss_revoke_token_hash r = Some revoke_token_hash) (hs_sessions s)
                 then None
                 else Some ((), s\<lparr>hs_sessions := update_where (\<lambda>r. ss_id r = i)
                   (\<lambda>r. r\<lparr>ss_revoke_token_hash := Some revoke_token_hash\<rparr>) (hs_sessions s)\<rparr>))"

definition clear_revoke_token :: "int \<Rightarrow> (sqlx_error, unit) host_step" where
  "clear_revoke_token i =
     session_update (\<lambda>r. ss_id r = i) (\<lambda>r. r\<lparr>ss_revoke_token_hash := None\<rparr>)"

definition session_delete_one :: "int \<Rightarrow> (sqlx_error, unit) host_step" where
  "session_delete_one i = db_call (\<lambda>s. ((), s\<lparr>hs_sessions := filter (\<lambda>r. ss_id r \<noteq> i) (hs_sessions s)\<rparr>))"

definition session_delete_all_for_user :: "int \<Rightarrow> (sqlx_error, (int \<times> string) list) host_step" where
  "session_delete_all_for_user user_id =
     db_call (\<lambda>s. (map (\<lambda>r. (ss_id r, ss_token_hash r)) (filter (\<lambda>r. ss_user_id r = user_id) (hs_sessions s)),
       s\<lparr>hs_sessions := filter (\<lambda>r. ss_user_id r \<noteq> user_id) (hs_sessions s)\<rparr>))"

definition session_list_for_user :: "int \<Rightarrow> (sqlx_error, session_row list) host_step" where
  "session_list_for_user user_id =
     db_call (\<lambda>s. (sort_key (\<lambda>r. - ss_last_used_at_ms r) (filter (\<lambda>r. ss_user_id r = user_id) (hs_sessions s)), s))"

definition session_delete_expired :: "int \<Rightarrow> (sqlx_error, nat) host_step" where
  "session_delete_expired now_ms =
     (let gone = (\<lambda>r. 0 < ss_expires_at_ms r \<and> ss_expires_at_ms r < now_ms)
      in db_call (\<lambda>s. (length (filter gone (hs_sessions s)),
           s\<lparr>hs_sessions := filter (\<lambda>r. \<not> gone r) (hs_sessions s)\<rparr>)))"

section \<open>The risk of a login\<close>

definition assess_login_risk :: "int \<Rightarrow> string \<Rightarrow> string option \<Rightarrow> host \<Rightarrow> risk_level \<times> host" where
  "assess_login_risk user_id dev_hash country s =
     (case session_list_for_user user_id s of (found, s') \<Rightarrow>
        (let sessions = (case found of Inr rows \<Rightarrow> rows | Inl _ \<Rightarrow> []);
             devices = [d. Some d \<leftarrow> map ss_device_hash sessions, d \<noteq> []];
             countries = [c. Some c \<leftarrow> map ss_country sessions, c \<noteq> []]
         in (if sessions = [] then Risk_None
             else if devices = [] \<and> countries = [] then Risk_None
             else if is_some_and country (\<lambda>c. c \<notin> set countries) then Risk_High
             else if dev_hash \<notin> set devices then Risk_Low
             else Risk_None, s')))"

section \<open>The service\<close>

definition try_delete :: "session_row \<Rightarrow> host \<Rightarrow> host" where
  "try_delete row = ignoring_errors (session_delete_one (ss_id row))"

text \<open>The oldest sessions go, so that with the new one the user is at the limit.\<close>

definition evict_surplus :: "session_row list \<Rightarrow> host \<Rightarrow> host" where
  "evict_surplus existing s =
     (if MAX_SESSIONS_PER_USER \<le> length existing
      then fold try_delete
             (take (length existing - (MAX_SESSIONS_PER_USER - 1)) (sort_key ss_created_at_ms existing)) s
      else s)"

definition new_session_row ::
  "int \<Rightarrow> int \<Rightarrow> string \<Rightarrow> string \<Rightarrow> string option \<Rightarrow> device_info \<Rightarrow> geo_result \<Rightarrow> risk_level \<Rightarrow> int \<Rightarrow> session_row" where
  "new_session_row session_id user_id token_hash ip user_agent device geo risk now_ms =
     \<lparr>ss_id = session_id, ss_user_id = user_id, ss_token_hash = token_hash, ss_revoke_token_hash = None,
      ss_verify_token_hash = None, ss_expires_at_ms = now_ms + days_ms SESSION_LIFETIME_DAYS,
      ss_verified = (risk \<noteq> Risk_High), ss_ip = Some ip, ss_user_agent = user_agent,
      ss_device_hash = Some (device_hash device), ss_city = geo_city geo, ss_region = geo_region geo,
      ss_country = geo_country geo, ss_risk_level = Some (risk_str risk), ss_verify_expires_at_ms = None,
      ss_verify_attempts = 0, ss_created_at_ms = now_ms, ss_last_used_at_ms = now_ms\<rparr>"

definition create_session ::
  "'a digest_env_scheme \<Rightarrow> string \<Rightarrow> int \<Rightarrow> int \<Rightarrow> string \<Rightarrow> string option \<Rightarrow> device_info \<Rightarrow> geo_result \<Rightarrow> risk_level
     \<Rightarrow> (app_error, create_session_result) host_step" where
  "create_session env fresh now_ms user_id ip user_agent device geo risk =
     st_bind (or_internal (session_list_for_user user_id)) (\<lambda>existing.
     st_bind (st_do (evict_surplus existing)) (\<lambda>_.
     st_bind draw_id (\<lambda>session_id.
     st_bind (or_internal (session_insert
       (new_session_row session_id user_id (hash_token env fresh) ip user_agent device geo risk now_ms))) (\<lambda>_.
     st_return \<lparr>cs_token = fresh, cs_session_id = session_id, cs_risk_level = risk, cs_verified = (risk \<noteq> Risk_High)\<rparr>))))"

text \<open>The part \<open>COALESCE\<close> of the two geo updates has in common.\<close>

definition refresh_geo :: "geo_result \<Rightarrow> session_row \<Rightarrow> session_row" where
  "refresh_geo geo r =
     r\<lparr>ss_city := coalesce (geo_city geo) (ss_city r), ss_region := coalesce (geo_region geo) (ss_region r),
       ss_country := coalesce (geo_country geo) (ss_country r)\<rparr>"

definition geo_known :: "geo_result \<Rightarrow> bool" where
  "geo_known geo \<longleftrightarrow> geo_city geo \<noteq> None \<or> geo_country geo \<noteq> None"

definition slide_session :: "int \<Rightarrow> int \<Rightarrow> string \<Rightarrow> geo_result \<Rightarrow> session_row \<Rightarrow> host \<Rightarrow> host" where
  "slide_session now_ms later_ms ip geo session s =
     (let i = ss_id session;
          s = ignoring_errors (touch_last_used i now_ms (Some ip) None) s;
          s = (if geo_known geo then ignoring_errors (session_update (\<lambda>r. ss_id r = i) (refresh_geo geo)) s else s)
      in ignoring_errors (session_update (\<lambda>r. ss_id r = i)
           (\<lambda>r. r\<lparr>ss_expires_at_ms := later_ms + days_ms SESSION_LIFETIME_DAYS\<rparr>)) s)"

definition validate_session ::
  "'a digest_env_scheme \<Rightarrow> int \<Rightarrow> int \<Rightarrow> string \<Rightarrow> string \<Rightarrow> geo_result \<Rightarrow> (app_error, validated_session option) host_step" where
  "validate_session env now_ms later_ms token ip geo =
     st_bind (or_internal (by_token_hash (hash_token env token))) (\<lambda>found.
     case found of
       None \<Rightarrow> st_return None
     | Some session \<Rightarrow>
         if ss_expires_at_ms session \<le> now_ms then
           st_bind (st_do (try_delete session)) (\<lambda>_. st_return None)
         else if \<not> ss_verified session then st_return None
         else
           st_bind (if SLIDING_UPDATE_THRESHOLD_MS \<le> now_ms - ss_last_used_at_ms session
                    then st_do (slide_session now_ms later_ms ip geo session) else st_return ()) (\<lambda>_.
           st_return (Some \<lparr>vs_user_id = ss_user_id session, vs_session_id = ss_id session\<rparr>)))"

text \<open>A rotation after it has read and checked its row.\<close>

definition rotate_write ::
  "'a digest_env_scheme \<Rightarrow> string \<Rightarrow> int \<Rightarrow> int \<Rightarrow> string \<Rightarrow> string \<Rightarrow> geo_result \<Rightarrow> session_row
     \<Rightarrow> (app_error, rotated_session option) host_step" where
  "rotate_write env fresh now_ms later_ms token ip geo session =
     (let new_hash = hash_token env fresh
      in st_bind (or_internal (rotate_token_hash (ss_id session) (hash_token env token) new_hash
           (later_ms + days_ms SESSION_LIFETIME_DAYS) now_ms (Some ip))) (\<lambda>rotated.
         if \<not> rotated then st_return None
         else
           st_bind (if geo_known geo
                    then st_do (ignoring_errors (session_update
                           (\<lambda>r. ss_id r = ss_id session \<and> ss_token_hash r = new_hash) (refresh_geo geo)))
                    else st_return ()) (\<lambda>_.
           st_return (Some \<lparr>rs_user_id = ss_user_id session, rs_session_id = ss_id session, rs_token = fresh\<rparr>))))"

definition rotate_session ::
  "'a digest_env_scheme \<Rightarrow> string \<Rightarrow> int \<Rightarrow> int \<Rightarrow> string \<Rightarrow> string \<Rightarrow> geo_result
     \<Rightarrow> (app_error, rotated_session option) host_step" where
  "rotate_session env fresh now_ms later_ms token ip geo =
     st_bind (or_internal (by_token_hash (hash_token env token))) (\<lambda>found.
     case found of
       None \<Rightarrow> st_return None
     | Some session \<Rightarrow>
         if ss_expires_at_ms session \<le> now_ms then
           st_bind (st_do (try_delete session)) (\<lambda>_. st_return None)
         else if \<not> ss_verified session then st_return None
         else rotate_write env fresh now_ms later_ms token ip geo session)"

definition revoke_session :: "'a digest_env_scheme \<Rightarrow> string \<Rightarrow> (app_error, unit) host_step" where
  "revoke_session env token =
     st_bind (or_internal (by_token_hash (hash_token env token))) (\<lambda>found.
     case found of None \<Rightarrow> st_return () | Some session \<Rightarrow> st_do (try_delete session))"

definition revoke_session_by_revoke_token :: "'a digest_env_scheme \<Rightarrow> string \<Rightarrow> (app_error, bool) host_step" where
  "revoke_session_by_revoke_token env revoke_token =
     st_bind (or_internal (by_revoke_token_hash (hash_token env revoke_token))) (\<lambda>found.
     case found of
       None \<Rightarrow> st_return False
     | Some session \<Rightarrow> st_bind (st_do (try_delete session)) (\<lambda>_. st_return True))"

definition create_verification_token ::
  "'a digest_env_scheme \<Rightarrow> string \<Rightarrow> int \<Rightarrow> int \<Rightarrow> (app_error, string) host_step" where
  "create_verification_token env fresh now_ms session_id =
     st_bind (or_internal (set_verify_token session_id (hash_token env fresh)
       (now_ms + minutes_ms VERIFY_CODE_EXPIRY_MINUTES))) (\<lambda>_. st_return fresh)"

text \<open>The check of a code against a row that was read before.\<close>

definition check_code ::
  "'a digest_env_scheme \<Rightarrow> int \<Rightarrow> string \<Rightarrow> session_row \<Rightarrow> (app_error, int option) host_step" where
  "check_code env now_ms code session =
     (if ss_expires_at_ms session \<le> now_ms then st_bind (st_do (try_delete session)) (\<lambda>_. st_return None)
      else if ss_verified session then st_return (Some (ss_user_id session))
      else if MAX_VERIFY_ATTEMPTS \<le> ss_verify_attempts session then
        st_bind (st_do (try_delete session)) (\<lambda>_. st_return None)
      else case ss_verify_token_hash session of
        None \<Rightarrow> st_return None
      | Some verify_hash \<Rightarrow>
          if is_none_or (ss_verify_expires_at_ms session) (\<lambda>exp. exp \<le> now_ms) then st_return None
          else if hash_token env code \<noteq> verify_hash then
            st_bind (or_internal (bump_verify_attempts (ss_id session))) (\<lambda>attempts.
            st_bind (if MAX_VERIFY_ATTEMPTS \<le> attempts then st_do (try_delete session) else st_return ()) (\<lambda>_.
            st_return None))
          else
            st_bind (or_internal (mark_verified (ss_id session))) (\<lambda>_. st_return (Some (ss_user_id session))))"

definition verify_session_code ::
  "'a digest_env_scheme \<Rightarrow> int \<Rightarrow> string \<Rightarrow> string \<Rightarrow> (app_error, int option) host_step" where
  "verify_session_code env now_ms session_token code =
     st_bind (or_internal (by_token_hash (hash_token env session_token))) (\<lambda>found.
     case found of None \<Rightarrow> st_return None | Some session \<Rightarrow> check_code env now_ms code session)"

definition revoke_all_user_sessions :: "int \<Rightarrow> (app_error, (int \<times> string) list) host_step" where
  "revoke_all_user_sessions user_id = or_internal (session_delete_all_for_user user_id)"

definition set_revoke_token_for_session :: "int \<Rightarrow> string \<Rightarrow> (app_error, unit) host_step" where
  "set_revoke_token_for_session session_id revoke_token_hash = or_internal (set_revoke_token session_id revoke_token_hash)"

section \<open>Statements on the table\<close>

lemma in_update_where: "r \<in> set (update_where P f rows) \<Longrightarrow> \<exists>q\<in>set rows. r = (if P q then f q else q)"
  by (auto simp: update_where_def)

lemma db_call_clear: "fd_faults s = [] \<Longrightarrow> db_call op (s :: host) = (case op s of (x, s') \<Rightarrow> (Inr x, s'))"
  by (simp add: db_call_def Let_def no_faults)

lemma db_try_clear:
  "fd_faults s = [] \<Longrightarrow> db_try op (s :: host) = (case op s of None \<Rightarrow> (Inl Sqlx_Error, s) | Some (x, s') \<Rightarrow> (Inr x, s'))"
  by (simp add: db_try_def Let_def no_faults split: option.split)

text \<open>A property of the rows kept by every statement of an operation is kept by the operation.\<close>

abbreviation keeps_rows :: "(session_row list \<Rightarrow> bool) \<Rightarrow> (host, 'e, 'a) step \<Rightarrow> bool" where
  "keeps_rows P \<equiv> st_keeps (\<lambda>s. P (hs_sessions s))"

lemma keeps_call:
  "(\<And>s. P (hs_sessions s) \<Longrightarrow> P (hs_sessions (snd (op s)))) \<Longrightarrow> keeps_rows P (db_call op)"
proof (unfold st_keeps_def, intro allI impI)
  fix s :: host assume op: "\<And>s. P (hs_sessions s) \<Longrightarrow> P (hs_sessions (snd (op s)))" and "P (hs_sessions s)"
  then have "P (hs_sessions (snd (op (s\<lparr>fd_faults := tl (fd_faults s)\<rparr>))))" by (intro op) simp
  then show "P (hs_sessions (snd (db_call op s)))"
    using \<open>P (hs_sessions s)\<close> by (cases "fd_faults s") (simp_all add: db_call_def Let_def split_beta)
qed

lemma keeps_try:
  "(\<And>s x s'. P (hs_sessions s) \<Longrightarrow> op s = Some (x, s') \<Longrightarrow> P (hs_sessions s')) \<Longrightarrow> keeps_rows P (db_try op)"
proof (unfold st_keeps_def, intro allI impI)
  fix s :: host assume op: "\<And>s x s'. P (hs_sessions s) \<Longrightarrow> op s = Some (x, s') \<Longrightarrow> P (hs_sessions s')" and P: "P (hs_sessions s)"
  then have "P (hs_sessions s')" if "op (s\<lparr>fd_faults := tl (fd_faults s)\<rparr>) = Some (x, s')" for x s'
    using op [OF _ that] by simp
  then show "P (hs_sessions (snd (db_try op s)))"
    using P by (simp add: db_try_def Let_def split: prod.split option.split)
qed

lemma keeps_reads [st_keeps_intro]:
  "keeps_rows P (by_token_hash h)" "keeps_rows P (by_revoke_token_hash h)" "keeps_rows P (session_list_for_user u)"
  "keeps_rows P (session_by_id i)"
  unfolding by_token_hash_def by_revoke_token_hash_def session_list_for_user_def session_by_id_def
  by (rule keeps_call; simp)+

lemma keeps_or_internal [st_keeps_intro]: "st_keeps I m \<Longrightarrow> st_keeps I (or_internal m)"
  unfolding or_internal_def by (rule st_keeps_map_err)

lemma keeps_option [st_keeps_intro]:
  "st_keeps I m \<Longrightarrow> (\<And>x. st_keeps I (k x)) \<Longrightarrow> st_keeps I (case q of None \<Rightarrow> m | Some x \<Rightarrow> k x)"
  by (cases q) auto

lemma keeps_do: "(\<And>s. I s \<Longrightarrow> I (f s)) \<Longrightarrow> st_keeps I (st_do f)"
  unfolding st_do_def by (rule st_keeps_modify)

lemma keeps_ignoring: "st_keeps I m \<Longrightarrow> I s \<Longrightarrow> I (ignoring_errors m s)"
  by (simp add: st_keeps_def ignoring_errors_def)

lemma keeps_draw [st_keeps_intro]: "keeps_rows P (draw_id :: (app_error, int) host_step)"
  by (simp add: st_keeps_def draw_id_def next_snowflake_def)

lemma update_where_none: "\<not> list_ex P rows \<Longrightarrow> update_where P f rows = rows"
  unfolding update_where_def by (rule map_idI) (auto simp: list_ex_iff)

lemma new_session_row_sel [simp]:
  "ss_id (new_session_row i u h ip ua dev geo risk t) = i"
  "ss_user_id (new_session_row i u h ip ua dev geo risk t) = u"
  "ss_token_hash (new_session_row i u h ip ua dev geo risk t) = h"
  "ss_revoke_token_hash (new_session_row i u h ip ua dev geo risk t) = None"
  "ss_verified (new_session_row i u h ip ua dev geo risk t) = (risk \<noteq> Risk_High)"
  "ss_verify_attempts (new_session_row i u h ip ua dev geo risk t) = 0"
  by (simp_all add: new_session_row_def)

text \<open>
  What the operations do to the table is deleting rows, updating rows and appending one. A
  property of rows that survives these in the forms they come in survives every operation.
\<close>

locale row_property =
  fixes env :: "'a digest_env_scheme" and P :: "session_row list \<Rightarrow> bool"
  assumes filtered: "P rows \<Longrightarrow> P (filter Q rows)"
    and touched: "P rows \<Longrightarrow> P (update_where Q (\<lambda>r. r\<lparr>ss_last_used_at_ms := t, ss_ip := f r, ss_user_agent := g r\<rparr>) rows)"
    and relocated: "P rows \<Longrightarrow> P (update_where Q (refresh_geo geo) rows)"
    and slid: "P rows \<Longrightarrow> P (update_where Q (\<lambda>r. r\<lparr>ss_expires_at_ms := t\<rparr>) rows)"
    and counted: "P rows \<Longrightarrow> P (update_where Q (\<lambda>r. r\<lparr>ss_verify_attempts := ss_verify_attempts r + 1\<rparr>) rows)"
    and asked: "P rows \<Longrightarrow> P (update_where Q
       (\<lambda>r. r\<lparr>ss_verify_token_hash := vh, ss_verify_expires_at_ms := ve, ss_verify_attempts := 0\<rparr>) rows)"
    and revocable: "P rows \<Longrightarrow> P (update_where Q (\<lambda>r. r\<lparr>ss_revoke_token_hash := rh\<rparr>) rows)"
    and rotated: "P rows \<Longrightarrow> \<forall>r\<in>set rows. \<not> (ss_id r = i \<and> ss_token_hash r = h) \<longrightarrow> ss_token_hash r \<noteq> hash_token env fresh
       \<Longrightarrow> P (update_where (\<lambda>r. ss_id r = i \<and> ss_token_hash r = h)
             (\<lambda>r. r\<lparr>ss_token_hash := hash_token env fresh, ss_expires_at_ms := t, ss_last_used_at_ms := t', ss_ip := f r\<rparr>) rows)"
begin

lemma delete: "keeps_rows P (session_delete_one i)" "keeps_rows P (session_delete_all_for_user u)"
  "keeps_rows P (session_delete_expired t)"
  unfolding session_delete_one_def session_delete_all_for_user_def session_delete_expired_def Let_def
  by (rule keeps_call; simp add: filtered)+

lemma try_delete: "P (hs_sessions s) \<Longrightarrow> P (hs_sessions (try_delete row s))"
  unfolding try_delete_def by (rule keeps_ignoring [OF delete(1)])

lemma evict: "P (hs_sessions s) \<Longrightarrow> P (hs_sessions (evict_surplus rows s))"
proof -
  have "P (hs_sessions (fold try_delete xs s))" if "P (hs_sessions s)" for xs s
    using that by (induction xs arbitrary: s) (simp_all add: try_delete)
  then show "P (hs_sessions s) \<Longrightarrow> ?thesis" by (simp add: evict_surplus_def)
qed

lemma create_if:
  assumes "\<And>rows i. P rows \<Longrightarrow> \<not> list_ex (\<lambda>r. ss_id r = i \<or> ss_token_hash r = hash_token env fresh) rows
    \<Longrightarrow> P (rows @ [new_session_row i u (hash_token env fresh) ip ua dev geo risk now])"
  shows "keeps_rows P (create_session env fresh now u ip ua dev geo risk)"
  unfolding create_session_def session_insert_def
  by (intro st_keeps_intro keeps_do keeps_try evict) (use assms in \<open>auto split: if_splits simp: list_ex_iff\<close>)

lemma slide: "P (hs_sessions s) \<Longrightarrow> P (hs_sessions (slide_session now later ip geo row s))"
  unfolding slide_session_def touch_last_used_def Let_def session_update_def
  by (intro keeps_ignoring [where I = "\<lambda>s. P (hs_sessions s)"] keeps_call)
    (auto intro!: keeps_ignoring [where I = "\<lambda>s. P (hs_sessions s)"] keeps_call simp: touched relocated slid)

lemma validate: "keeps_rows P (validate_session env now later tok ip geo)"
  unfolding validate_session_def by (intro st_keeps_intro keeps_do try_delete slide)

lemma rotate_hash: "keeps_rows P (rotate_token_hash i h (hash_token env fresh) t t' ip)"
  unfolding rotate_token_hash_def Let_def
proof (rule keeps_try)
  let ?hit = "\<lambda>r. ss_id r = i \<and> ss_token_hash r = h"
  fix s x s'
  assume P: "P (hs_sessions s)" and run: "(if list_ex ?hit (hs_sessions s) \<and>
      list_ex (\<lambda>r. \<not> ?hit r \<and> ss_token_hash r = hash_token env fresh) (hs_sessions s) then None
    else Some (length (filter ?hit (hs_sessions s)) = 1, s\<lparr>hs_sessions := update_where ?hit
      (\<lambda>r. r\<lparr>ss_token_hash := hash_token env fresh, ss_expires_at_ms := t, ss_last_used_at_ms := t',
             ss_ip := coalesce ip (ss_ip r)\<rparr>) (hs_sessions s)\<rparr>)) = Some (x, s')"
  show "P (hs_sessions s')"
  proof (cases "list_ex ?hit (hs_sessions s)")
    case True
    with run show ?thesis by (auto split: if_splits intro!: rotated [OF P] simp: list_ex_iff)
  next
    case False
    with run P show ?thesis by (auto simp: update_where_none)
  qed
qed

lemma rotate_write: "keeps_rows P (rotate_write env fresh now later tok ip geo row)"
  unfolding rotate_write_def Let_def session_update_def
  by (intro st_keeps_intro keeps_do rotate_hash keeps_ignoring [where I = "\<lambda>s. P (hs_sessions s)"] keeps_call)
    (simp_all add: relocated)

lemma rotate: "keeps_rows P (rotate_session env fresh now later tok ip geo)"
  unfolding rotate_session_def by (intro st_keeps_intro keeps_do try_delete rotate_write)

lemma revoke: "keeps_rows P (revoke_session env tok)"
  unfolding revoke_session_def by (intro st_keeps_intro keeps_do try_delete)

lemma revoke_by_token: "keeps_rows P (revoke_session_by_revoke_token env tok)"
  unfolding revoke_session_by_revoke_token_def by (intro st_keeps_intro keeps_do try_delete)

lemma revoke_all: "keeps_rows P (revoke_all_user_sessions u)"
  unfolding revoke_all_user_sessions_def by (intro st_keeps_intro delete)

lemma set_revoke: "keeps_rows P (set_revoke_token_for_session i h)"
  unfolding set_revoke_token_for_session_def set_revoke_token_def
  by (intro st_keeps_intro keeps_try) (auto split: if_splits intro: revocable)

lemma bump: "keeps_rows P (bump_verify_attempts i)"
  unfolding bump_verify_attempts_def by (rule keeps_try) (auto simp: counted split: option.splits)

lemma challenge: "keeps_rows P (create_verification_token env fresh now i)"
  unfolding create_verification_token_def set_verify_token_def session_update_def
  by (intro st_keeps_intro keeps_call) (simp add: asked)

text \<open>A code that is not the one asked for.\<close>

lemma check_wrong:
  assumes "ss_verify_token_hash row \<noteq> Some (hash_token env code)"
  shows "keeps_rows P (check_code env now code row)"
  using assms unfolding check_code_def
  by (cases "ss_verify_token_hash row") (auto intro!: st_keeps_intro keeps_do try_delete bump simp: eq_commute)

end

text \<open>The operations of a login and of the verification by code, for properties that survive those too.\<close>

locale row_invariant = row_property +
  assumes appended: "P rows \<Longrightarrow> \<not> list_ex (\<lambda>r. ss_id r = i \<or> ss_token_hash r = hash_token env fresh) rows
       \<Longrightarrow> P (rows @ [new_session_row i u (hash_token env fresh) ip ua dev geo risk t])"
    and verified: "P rows \<Longrightarrow> P (update_where Q
       (\<lambda>r. r\<lparr>ss_verified := True, ss_verify_token_hash := None, ss_verify_expires_at_ms := None, ss_verify_attempts := 0\<rparr>) rows)"
begin

lemma create: "keeps_rows P (create_session env fresh now u ip ua dev geo risk)"
  by (rule create_if) (rule appended)

lemma marked: "keeps_rows P (mark_verified i)"
  unfolding mark_verified_def session_update_def by (rule keeps_call) (simp add: verified)

lemma check: "keeps_rows P (check_code env now code row)"
  unfolding check_code_def by (intro st_keeps_intro keeps_do try_delete bump marked)

lemma verify: "keeps_rows P (verify_session_code env now tok code)"
  unfolding verify_session_code_def by (intro st_keeps_intro check)

end

section \<open>The machine\<close>

datatype session_op =
    Create string int int string "string option" device_info geo_result risk_level
  | Validate int int string string geo_result
  | Rotate string int int string string geo_result
  | Revoke string
  | Revoke_By_Token string
  | Revoke_All int
  | Set_Revoke_Token int string
  | Ask_Code string int int
  | Verify int string string
  | Create_After_Second_Factor string int int string "string option" device_info geo_result risk_level
  | Delete_One int
  | Delete_All int
  | Delete_Expired int

text \<open>
  What a login with a second factor does to the table: its session is made and, if the risk kept
  it closed, opened (\<open>login_2fa\<close> of \<open>handlers/auth.rs\<close>, whose checks are in \<open>Login\<close>).
\<close>

definition create_after_second_factor ::
  "'a digest_env_scheme \<Rightarrow> string \<Rightarrow> int \<Rightarrow> int \<Rightarrow> string \<Rightarrow> string option \<Rightarrow> device_info \<Rightarrow> geo_result \<Rightarrow> risk_level
     \<Rightarrow> host \<Rightarrow> host" where
  "create_after_second_factor env fresh now_ms user_id ip user_agent device geo risk s =
     (case create_session env fresh now_ms user_id ip user_agent device geo risk s of
        (Inl _, s') \<Rightarrow> s'
      | (Inr session, s') \<Rightarrow>
          if risk = Risk_High \<and> \<not> cs_verified session then ignoring_errors (mark_verified (cs_session_id session)) s' else s')"

fun session_step :: "'a digest_env_scheme \<Rightarrow> host \<Rightarrow> session_op \<Rightarrow> host" where
  "session_step env s (Create fresh now u ip ua dev geo risk) = snd (create_session env fresh now u ip ua dev geo risk s)"
| "session_step env s (Validate now later tok ip geo) = snd (validate_session env now later tok ip geo s)"
| "session_step env s (Rotate fresh now later tok ip geo) = snd (rotate_session env fresh now later tok ip geo s)"
| "session_step env s (Revoke tok) = snd (revoke_session env tok s)"
| "session_step env s (Revoke_By_Token tok) = snd (revoke_session_by_revoke_token env tok s)"
| "session_step env s (Revoke_All u) = snd (revoke_all_user_sessions u s)"
| "session_step env s (Set_Revoke_Token i h) = snd (set_revoke_token_for_session i h s)"
| "session_step env s (Ask_Code fresh now i) = snd (create_verification_token env fresh now i s)"
| "session_step env s (Verify now tok code) = snd (verify_session_code env now tok code s)"
| "session_step env s (Create_After_Second_Factor fresh now u ip ua dev geo risk) =
     create_after_second_factor env fresh now u ip ua dev geo risk s"
| "session_step env s (Delete_One i) = snd (session_delete_one i s)"
| "session_step env s (Delete_All u) = snd (session_delete_all_for_user u s)"
| "session_step env s (Delete_Expired t) = snd (session_delete_expired t s)"

context row_invariant
begin

lemma create_opened: "P (hs_sessions s) \<Longrightarrow> P (hs_sessions (create_after_second_factor env fresh now u ip ua dev geo risk s))"
proof -
  assume p: "P (hs_sessions s)"
  obtain q s1 where c: "create_session env fresh now u ip ua dev geo risk s = (q, s1)"
    by (cases "create_session env fresh now u ip ua dev geo risk s")
  have made: "P (hs_sessions s1)"
    using create [of fresh now u ip ua dev geo risk] p c by (simp add: st_keeps_def) (metis snd_conv)
  then have "P (hs_sessions (ignoring_errors (mark_verified i) s1))" for i
    by (rule keeps_ignoring [where I = "\<lambda>s. P (hs_sessions s)", OF marked])
  with made show ?thesis by (simp add: create_after_second_factor_def c split: sum.split)
qed

lemma step: "P (hs_sessions s) \<Longrightarrow> P (hs_sessions (session_step env s x))"
  using create validate rotate revoke revoke_by_token revoke_all set_revoke challenge verify create_opened delete
  by (cases x) (simp_all add: st_keeps_def)

end

section \<open>Keys\<close>

definition session_keys :: "session_row list \<Rightarrow> bool" where
  "session_keys rows \<longleftrightarrow> distinct (map ss_id rows) \<and> distinct (map ss_token_hash rows)"

lemma same_session: "session_keys rows \<Longrightarrow> q \<in> set rows \<Longrightarrow> r \<in> set rows \<Longrightarrow> ss_id q = ss_id r \<Longrightarrow> q = r"
  by (auto simp: session_keys_def distinct_map dest: inj_onD)

lemma same_token: "session_keys rows \<Longrightarrow> q \<in> set rows \<Longrightarrow> r \<in> set rows \<Longrightarrow> ss_token_hash q = ss_token_hash r \<Longrightarrow> q = r"
  by (auto simp: session_keys_def distinct_map dest: inj_onD)

lemma session_keys_update:
  "(\<And>r. ss_id (f r) = ss_id r) \<Longrightarrow> (\<And>r. ss_token_hash (f r) = ss_token_hash r) \<Longrightarrow>
   session_keys (update_where Q f rows) = session_keys rows"
  by (simp add: session_keys_def map_update_where)

lemma session_keys_filter: "session_keys rows \<Longrightarrow> session_keys (filter Q rows)"
  by (simp add: session_keys_def distinct_map_filter)

lemma session_keys_rotated:
  assumes keys: "session_keys rows"
    and free: "\<forall>r\<in>set rows. \<not> (ss_id r = i \<and> ss_token_hash r = h) \<longrightarrow> ss_token_hash r \<noteq> new"
    and f: "\<And>r. ss_id (f r) = ss_id r" "\<And>r. ss_token_hash (f r) = new"
  shows "session_keys (update_where (\<lambda>r. ss_id r = i \<and> ss_token_hash r = h) f rows)"
proof -
  let ?hit = "\<lambda>r. ss_id r = i \<and> ss_token_hash r = h"
  have inj: "inj_on ss_id (set rows)" "inj_on ss_token_hash (set rows)" "distinct rows"
    using keys by (auto simp: session_keys_def distinct_map)
  have "inj_on (\<lambda>r. if ?hit r then new else ss_token_hash r) (set rows)"
  proof (rule inj_onI)
    fix q r assume "q \<in> set rows" "r \<in> set rows"
      "(if ?hit q then new else ss_token_hash q) = (if ?hit r then new else ss_token_hash r)"
    then show "q = r"
      using free inj(1,2)[THEN inj_onD, of q r] by (metis (full_types))
  qed
  moreover have "map ss_token_hash (update_where ?hit f rows) = map (\<lambda>r. if ?hit r then new else ss_token_hash r) rows"
    by (simp add: update_where_def f)
  ultimately have "distinct (map ss_token_hash (update_where ?hit f rows))"
    using inj(3) by (simp add: distinct_map)
  then show ?thesis using keys f by (simp add: session_keys_def map_update_where)
qed

interpretation keys: row_invariant env session_keys for env :: "'a digest_env_scheme"
proof unfold_locales
  show "session_keys rows \<Longrightarrow> \<not> list_ex (\<lambda>r. ss_id r = i \<or> ss_token_hash r = hash_token env fresh) rows \<Longrightarrow>
      session_keys (rows @ [new_session_row i u (hash_token env fresh) ip ua dev geo risk t])"
    for rows i u fresh ip ua dev geo risk t
    by (auto simp: session_keys_def list_ex_iff)
  show "session_keys (update_where (\<lambda>r. ss_id r = i \<and> ss_token_hash r = h)
      (\<lambda>r. r\<lparr>ss_token_hash := hash_token env fresh, ss_expires_at_ms := t, ss_last_used_at_ms := t', ss_ip := f r\<rparr>) rows)"
    if "session_keys rows" "\<forall>r\<in>set rows. \<not> (ss_id r = i \<and> ss_token_hash r = h) \<longrightarrow> ss_token_hash r \<noteq> hash_token env fresh"
    for rows i h fresh t t' f
    by (rule session_keys_rotated [OF that]) simp_all
qed (simp_all add: session_keys_filter session_keys_update refresh_geo_def)

interpretation sessions: invariant_machine "session_step env" "\<lambda>s. session_keys (hs_sessions s)" "\<lambda>_. True"
  for env :: "'a digest_env_scheme"
  by unfold_locales (rule keys.step)


section \<open>Who may open a session\<close>

text \<open>Every open session was open before, or is one of the users'.\<close>

definition opened_from :: "session_row list \<Rightarrow> int set \<Rightarrow> session_row list \<Rightarrow> bool" where
  "opened_from before users rows \<longleftrightarrow>
     (\<forall>r'\<in>set rows. ss_verified r' \<longrightarrow> ss_user_id r' \<in> users \<or>
        (\<exists>r\<in>set before. ss_id r = ss_id r' \<and> ss_user_id r = ss_user_id r' \<and> ss_verified r))"

lemma opened_from_update:
  "opened_from before users rows \<Longrightarrow> (\<And>r. ss_id (f r) = ss_id r) \<Longrightarrow> (\<And>r. ss_user_id (f r) = ss_user_id r) \<Longrightarrow>
   (\<And>r. ss_verified (f r) = ss_verified r) \<Longrightarrow> opened_from before users (update_where Q f rows)"
  by (auto simp: opened_from_def update_where_def)

interpretation opened: row_property env "opened_from before users" for env :: "'a digest_env_scheme" and before users
proof unfold_locales
  show "opened_from before users rows \<Longrightarrow> opened_from before users (filter Q rows)" for rows Q
    by (simp add: opened_from_def)
qed (simp_all add: opened_from_update refresh_geo_def)

lemma opened_from_refl: "opened_from rows users rows"
  by (auto simp: opened_from_def)

lemma by_token_hash_found:
  "by_token_hash h s = (Inr (Some row), s1) \<Longrightarrow> row \<in> set (hs_sessions s) \<and> ss_token_hash row = h \<and> hs_sessions s1 = hs_sessions s"
  by (auto simp: by_token_hash_def db_call_def Let_def find_Some_iff split: if_splits)

lemma by_token_hash_state: "by_token_hash h s = (r, s1) \<Longrightarrow> hs_sessions s1 = hs_sessions s"
  by (auto simp: by_token_hash_def db_call_def Let_def split: if_splits)

text \<open>The only code that opens a session is the one whose hash it keeps, while the challenge lasts.\<close>

lemma check_code_opens:
  assumes "r' \<in> set (hs_sessions (snd (check_code env now code row s)))" "ss_verified r'"
    "\<not> (\<exists>r\<in>set (hs_sessions s). ss_id r = ss_id r' \<and> ss_user_id r = ss_user_id r' \<and> ss_verified r)"
  shows "ss_id row = ss_id r' \<and> ss_verify_token_hash row = Some (hash_token env code) \<and> now < ss_expires_at_ms row \<and>
    ss_verify_attempts row < MAX_VERIFY_ATTEMPTS \<and> (\<exists>t. ss_verify_expires_at_ms row = Some t \<and> now < t) \<and>
    (\<exists>r\<in>set (hs_sessions s). ss_id r = ss_id r' \<and> ss_user_id r = ss_user_id r')"
proof -
  have closed: "opened_from (hs_sessions s) {} (hs_sessions s)" by (rule opened_from_refl)
  have no: "\<not> opened_from (hs_sessions s) {} (hs_sessions (snd (check_code env now code row s)))"
    using assms by (auto simp: opened_from_def)
  from no closed have right: "ss_verify_token_hash row = Some (hash_token env code)"
    using opened.check_wrong [of row env code "hs_sessions s" "{}" now] by (auto simp: st_keeps_def)
  have live: "now < ss_expires_at_ms row" "\<not> ss_verified row" "ss_verify_attempts row < MAX_VERIFY_ATTEMPTS"
    "\<exists>t. ss_verify_expires_at_ms row = Some t \<and> now < t"
    using no closed opened.try_delete [OF closed]
    by (auto simp: check_code_def right st_bind_def st_do_def st_modify_def st_return_def is_none_or_def
        split: if_splits option.splits)
  have "ss_id row = ss_id r' \<and> (\<exists>r\<in>set (hs_sessions s). ss_id r = ss_id r' \<and> ss_user_id r = ss_user_id r')"
    using assms live right
    by (auto simp: check_code_def is_none_or_def st_bind_def st_return_def or_internal_def st_map_err_def mark_verified_def
        session_update_def db_call_def Let_def update_where_def split: if_splits sum.splits)
  with live right show ?thesis by simp
qed

text \<open>A second factor opens the session its login has made, and no other.\<close>

lemma inserted_session:
  "or_internal (session_insert row) s = (Inr (), s') \<Longrightarrow>
   hs_sessions s' = hs_sessions s @ [row] \<and> (\<forall>r\<in>set (hs_sessions s). ss_id r \<noteq> ss_id row)"
  by (auto simp: or_internal_def st_map_err_def session_insert_def db_try_def Let_def list_ex_iff split: if_splits sum.splits prod.splits)

lemma created_session_user:
  assumes "create_session env fresh now u ip ua dev geo risk s = (Inr res, s')"
    and "r \<in> set (hs_sessions s')" "ss_id r = cs_session_id res"
  shows "ss_user_id r = u"
proof -
  obtain i s1 where ins: "or_internal (session_insert (new_session_row i u (hash_token env fresh) ip ua dev geo risk now)) s1 = (Inr (), s')"
    and i: "cs_session_id res = i"
    using assms(1) by (auto simp: create_session_def result_iff)
  have "r = new_session_row i u (hash_token env fresh) ip ua dev geo risk now"
    using inserted_session [OF ins] assms(2,3) i by (auto simp: new_session_row_def)
  then show ?thesis by (simp add: new_session_row_def)
qed

lemma opened_after_second_factor:
  assumes "opened_from before {} (hs_sessions s)"
  shows "opened_from before {u} (hs_sessions (create_after_second_factor env fresh now u ip ua dev geo risk s))"
proof -
  obtain q s1 where c: "create_session env fresh now u ip ua dev geo risk s = (q, s1)"
    by (cases "create_session env fresh now u ip ua dev geo risk s")
  have "opened_from before {u} (hs_sessions s)" using assms by (auto simp: opened_from_def)
  moreover have "keeps_rows (opened_from before {u}) (create_session env fresh now u ip ua dev geo risk)"
    by (rule opened.create_if) (auto simp: opened_from_def)
  ultimately have made: "opened_from before {u} (hs_sessions s1)" using c by (metis snd_conv st_keeps_def)
  have marked: "opened_from before {u} (hs_sessions (ignoring_errors (mark_verified (cs_session_id res)) s1))" if "q = Inr res" for res
  proof -
    have mine: "\<forall>r\<in>set (hs_sessions s1). ss_id r = cs_session_id res \<longrightarrow> ss_user_id r = u"
      using created_session_user [OF c [unfolded that]] by blast
    have "hs_sessions (ignoring_errors (mark_verified (cs_session_id res)) s1) = hs_sessions s1 \<or>
        hs_sessions (ignoring_errors (mark_verified (cs_session_id res)) s1) =
          update_where (\<lambda>r. ss_id r = cs_session_id res) (\<lambda>r. r\<lparr>ss_verified := True, ss_verify_token_hash := None,
            ss_verify_expires_at_ms := None, ss_verify_attempts := 0\<rparr>) (hs_sessions s1)"
      by (simp add: ignoring_errors_def mark_verified_def session_update_def db_call_def Let_def)
    then have from_old: "\<exists>r\<in>set (hs_sessions s1). r' = r \<or> (ss_id r = cs_session_id res \<and> ss_user_id r' = ss_user_id r)"
      if "r' \<in> set (hs_sessions (ignoring_errors (mark_verified (cs_session_id res)) s1))" for r'
      using that by (elim disjE) (force simp: update_where_def split: if_splits)+
    show ?thesis unfolding opened_from_def
    proof (intro ballI impI)
      fix r' assume r': "r' \<in> set (hs_sessions (ignoring_errors (mark_verified (cs_session_id res)) s1))" "ss_verified r'"
      from from_old [OF r'(1)] r'(2) made mine
      show "ss_user_id r' \<in> {u} \<or> (\<exists>r\<in>set before. ss_id r = ss_id r' \<and> ss_user_id r = ss_user_id r' \<and> ss_verified r)"
        unfolding opened_from_def by fastforce
    qed
  qed
  show ?thesis using made marked by (auto simp: create_after_second_factor_def c split: sum.split)
qed

text \<open>
  C10. A session becomes usable only in three ways: by a login (or registration) that was not rated
  a high risk; by a login that has shown its second factor; or by the code that was sent for it, given with the
  session's own token, before the code and the session expire and after fewer than five counted
  guesses. No other operation on the sessions opens one or moves one to another user, and a login
  opens sessions of its own user only.
\<close>
theorem a_session_opens_by_login_or_code:
  assumes "session_keys (hs_sessions s)"
    and "r' \<in> set (hs_sessions (session_step env s x))" and "ss_verified r'"
    and "\<not> (\<exists>r\<in>set (hs_sessions s). ss_id r = ss_id r' \<and> ss_user_id r = ss_user_id r' \<and> ss_verified r)"
  shows "(\<exists>fresh now ip ua dev geo risk. x = Create fresh now (ss_user_id r') ip ua dev geo risk \<and> risk \<noteq> Risk_High) \<or>
    (\<exists>fresh now ip ua dev geo risk. x = Create_After_Second_Factor fresh now (ss_user_id r') ip ua dev geo risk) \<or>
    (\<exists>now tok code r t. x = Verify now tok code \<and> r \<in> set (hs_sessions s) \<and> ss_id r = ss_id r' \<and>
       ss_user_id r = ss_user_id r' \<and> ss_token_hash r = hash_token env tok \<and>
       ss_verify_token_hash r = Some (hash_token env code) \<and> now < ss_expires_at_ms r \<and>
       ss_verify_attempts r < 5 \<and> ss_verify_expires_at_ms r = Some t \<and> now < t)"
proof -
  let ?R = "hs_sessions s"
  have closed: "opened_from ?R U ?R" for U by (rule opened_from_refl)
  have no: "\<not> opened_from ?R {} (hs_sessions (session_step env s x))"
    using assms(2-4) by (auto simp: opened_from_def)
  show ?thesis
  proof (cases x)
    case (Create fresh now u ip ua dev geo risk)
    have "keeps_rows (opened_from ?R (if risk = Risk_High then {} else {u})) (create_session env fresh now u ip ua dev geo risk)"
      by (rule opened.create_if) (auto simp: opened_from_def)
    then have "opened_from ?R (if risk = Risk_High then {} else {u}) (hs_sessions (session_step env s x))"
      using closed by (simp add: st_keeps_def Create)
    with assms(2-4) have "ss_user_id r' = u" "risk \<noteq> Risk_High" by (auto simp: opened_from_def split: if_splits)
    then show ?thesis using Create by auto
  next
    case (Create_After_Second_Factor fresh now u ip ua dev geo risk)
    have "opened_from ?R {u} (hs_sessions (session_step env s x))"
      unfolding Create_After_Second_Factor session_step.simps by (rule opened_after_second_factor [OF closed])
    with assms(2-4) have "ss_user_id r' = u" by (auto simp: opened_from_def)
    then show ?thesis using Create_After_Second_Factor by auto
  next
    case (Verify now tok code)
    obtain q s1 where q: "by_token_hash (hash_token env tok) s = (q, s1)" by (cases "by_token_hash (hash_token env tok) s")
    have same: "hs_sessions s1 = ?R" by (rule by_token_hash_state [OF q])
    have "\<exists>row. q = Inr (Some row)"
      using no closed [of "{}"] same
      by (auto simp: Verify verify_session_code_def st_bind_def or_internal_def st_map_err_def map_err_def st_return_def q
          split: sum.splits option.splits)
    then obtain row where row: "q = Inr (Some row)" ..
    note found = by_token_hash_found [OF q[unfolded row]]
    have "ss_id row = ss_id r' \<and> ss_verify_token_hash row = Some (hash_token env code) \<and> now < ss_expires_at_ms row \<and>
      ss_verify_attempts row < MAX_VERIFY_ATTEMPTS \<and> (\<exists>t. ss_verify_expires_at_ms row = Some t \<and> now < t) \<and>
      (\<exists>r\<in>set (hs_sessions s1). ss_id r = ss_id r' \<and> ss_user_id r = ss_user_id r')"
      by (rule check_code_opens)
        (use assms(2-4) same in \<open>simp_all add: Verify verify_session_code_def st_bind_def or_internal_def st_map_err_def q row\<close>)
    moreover from this have "ss_user_id row = ss_user_id r'"
      using same_session [OF assms(1)] found same by metis
    ultimately show ?thesis using found Verify by (auto simp: MAX_VERIFY_ATTEMPTS_def)
  qed (use no closed opened.validate opened.rotate opened.revoke opened.revoke_by_token opened.revoke_all
      opened.set_revoke opened.challenge opened.delete in \<open>fastforce simp: st_keeps_def\<close>)+
qed

section \<open>Authentication by a session\<close>

lemma find_Some_in: "List.find P rows = Some q \<Longrightarrow> q \<in> set rows \<and> P q"
  by (auto simp: find_Some_iff)

lemma find_unique:
  "row \<in> set rows \<Longrightarrow> P row \<Longrightarrow> (\<And>q. q \<in> set rows \<Longrightarrow> P q \<Longrightarrow> q = row) \<Longrightarrow> List.find P rows = Some row"
  using find_Some_in [of P rows] by (cases "List.find P rows") (blast dest: find_None_iff [THEN iffD1], metis)

lemma find_by_token:
  "session_keys rows \<Longrightarrow> row \<in> set rows \<Longrightarrow> List.find (\<lambda>r. ss_token_hash r = ss_token_hash row) rows = Some row"
  by (rule find_unique) (auto dest: same_token)

lemma find_by_session:
  "session_keys rows \<Longrightarrow> row \<in> set rows \<Longrightarrow> List.find (\<lambda>r. ss_id r = ss_id row) rows = Some row"
  by (rule find_unique) (auto dest: same_session)

lemma validate_Some:
  assumes ok: "fst (validate_session env now later tok ip geo s) = Inr (Some v)"
  shows "\<exists>r\<in>set (hs_sessions s). ss_token_hash r = hash_token env tok \<and> ss_verified r \<and> now < ss_expires_at_ms r \<and>
         v = \<lparr>vs_user_id = ss_user_id r, vs_session_id = ss_id r\<rparr>"
proof -
  obtain q s1 where q: "by_token_hash (hash_token env tok) s = (q, s1)" by (cases "by_token_hash (hash_token env tok) s")
  have "\<exists>row. q = Inr (Some row)"
    using ok by (auto simp: validate_session_def st_bind_def or_internal_def st_map_err_def map_err_def st_return_def q
        split: sum.splits option.splits)
  then obtain row where row: "q = Inr (Some row)" ..
  then have "\<not> ss_expires_at_ms row \<le> now \<and> ss_verified row \<and> v = \<lparr>vs_user_id = ss_user_id row, vs_session_id = ss_id row\<rparr>"
    using ok by (auto simp: validate_session_def st_bind_def or_internal_def st_map_err_def st_return_def st_do_def
        st_modify_def q split: if_splits)
  with by_token_hash_found [OF q[unfolded row]]
  show ?thesis
    by (intro bexI [of _ row]) simp_all
qed

text \<open>
  C32. A token authenticates exactly one user: a validation succeeds only for the row whose stored
  hash is the token's, and only while that row is verified and unexpired; and for such a row it
  does succeed when the database answers, whether or not the refresh of the row gets through.
\<close>
theorem tokens_authenticate_exactly:
  assumes "session_keys (hs_sessions s)"
  shows "(fst (validate_session env now later tok ip geo s) = Inr (Some v) \<longrightarrow>
      (\<exists>r\<in>set (hs_sessions s). ss_token_hash r = hash_token env tok \<and> ss_verified r \<and> now < ss_expires_at_ms r \<and>
         v = \<lparr>vs_user_id = ss_user_id r, vs_session_id = ss_id r\<rparr>)) \<and>
    (r \<in> set (hs_sessions s) \<and> ss_token_hash r = hash_token env tok \<and> ss_verified r \<and> now < ss_expires_at_ms r \<and>
      (fd_faults s = [] \<or> \<not> hd (fd_faults s)) \<longrightarrow>
      fst (validate_session env now later tok ip geo s) = Inr (Some \<lparr>vs_user_id = ss_user_id r, vs_session_id = ss_id r\<rparr>))"
proof (intro conjI impI)
  show "\<exists>r\<in>set (hs_sessions s). ss_token_hash r = hash_token env tok \<and> ss_verified r \<and> now < ss_expires_at_ms r \<and>
      v = \<lparr>vs_user_id = ss_user_id r, vs_session_id = ss_id r\<rparr>"
    if "fst (validate_session env now later tok ip geo s) = Inr (Some v)"
    using that by (rule validate_Some)
next
  assume r: "r \<in> set (hs_sessions s) \<and> ss_token_hash r = hash_token env tok \<and> ss_verified r \<and> now < ss_expires_at_ms r \<and>
    (fd_faults s = [] \<or> \<not> hd (fd_faults s))"
  then have "fst (by_token_hash (hash_token env tok) s) = Inr (Some r)"
    using find_by_token [OF assms, of r] by (auto simp: by_token_hash_def db_call_def Let_def)
  then show "fst (validate_session env now later tok ip geo s) = Inr (Some \<lparr>vs_user_id = ss_user_id r, vs_session_id = ss_id r\<rparr>)"
    using r by (auto simp: validate_session_def or_internal_def st_bind_def st_map_err_def st_return_def st_do_def st_modify_def
        split: prod.splits)
qed

section \<open>Rotation\<close>

lemma ignored_update:
  "hs_sessions (ignoring_errors (session_update P f) s) \<in> {hs_sessions s, update_where P f (hs_sessions s)}"
  by (simp add: ignoring_errors_def session_update_def db_call_def Let_def)

lemma rotate_write_won:
  assumes "rotate_write env fresh now later tok ip geo row s = (Inr (Some v), s')"
  shows "(\<exists>r\<in>set (hs_sessions s). ss_id r = ss_id row \<and> ss_token_hash r = hash_token env tok) \<and>
    (\<forall>r\<in>set (hs_sessions s'). ss_token_hash r = hash_token env tok \<longrightarrow>
       hash_token env tok = hash_token env fresh \<or> ss_id r \<noteq> ss_id row \<and>
         (\<exists>q\<in>set (hs_sessions s). ss_id q = ss_id r \<and> ss_token_hash q = hash_token env tok))"
proof -
  let ?hit = "\<lambda>r. ss_id r = ss_id row \<and> ss_token_hash r = hash_token env tok"
  let ?upd = "rotate_token_hash (ss_id row) (hash_token env tok) (hash_token env fresh)
      (later + days_ms SESSION_LIFETIME_DAYS) now (Some ip)"
  let ?P = "\<lambda>r. ss_id r = ss_id row \<and> ss_token_hash r = hash_token env fresh"
  obtain q s1 where q: "?upd s = (q, s1)" by (cases "?upd s")
  have won: "q = Inr True"
    using assms by (auto simp: rotate_write_def Let_def or_internal_def st_bind_def st_map_err_def map_err_def st_return_def q
        split: sum.splits if_splits)
  have "s' = s1 \<or> s' = ignoring_errors (session_update ?P (refresh_geo geo)) s1"
    using assms by (auto simp: rotate_write_def Let_def or_internal_def st_bind_def st_map_err_def st_return_def st_do_def
        st_modify_def q won split: if_splits)
  then have geo: "hs_sessions s' \<in> {hs_sessions s1, update_where ?P (refresh_geo geo) (hs_sessions s1)}"
    using ignored_update [of ?P "refresh_geo geo" s1] by auto
  note s1 = q[unfolded won]
  have "length (filter ?hit (hs_sessions s)) = 1" and rows: "hs_sessions s1 = update_where ?hit
      (\<lambda>r. r\<lparr>ss_token_hash := hash_token env fresh, ss_expires_at_ms := later + days_ms SESSION_LIFETIME_DAYS,
             ss_last_used_at_ms := now, ss_ip := coalesce (Some ip) (ss_ip r)\<rparr>) (hs_sessions s)"
    using s1 by (auto simp: rotate_token_hash_def Let_def result_iff split: if_splits)
  then have "filter ?hit (hs_sessions s) \<noteq> []" by force
  then have hit: "\<exists>r\<in>set (hs_sessions s). ?hit r" by (auto simp: filter_empty_conv)
  have "\<forall>r\<in>set (hs_sessions s1). ss_token_hash r = hash_token env tok \<longrightarrow>
       hash_token env tok = hash_token env fresh \<or> ss_id r \<noteq> ss_id row \<and>
         (\<exists>q\<in>set (hs_sessions s). ss_id q = ss_id r \<and> ss_token_hash q = hash_token env tok)"
    unfolding rows by (auto simp: update_where_def)
  then have "\<forall>r\<in>set (hs_sessions s'). ss_token_hash r = hash_token env tok \<longrightarrow>
       hash_token env tok = hash_token env fresh \<or> ss_id r \<noteq> ss_id row \<and>
         (\<exists>q\<in>set (hs_sessions s). ss_id q = ss_id r \<and> ss_token_hash q = hash_token env tok)"
    using geo by (auto simp: update_where_def refresh_geo_def)
  with hit show ?thesis by blast
qed

text \<open>No row has the token hash.\<close>

definition token_gone :: "string \<Rightarrow> session_row list \<Rightarrow> bool" where
  "token_gone h rows \<longleftrightarrow> (\<forall>r\<in>set rows. ss_token_hash r \<noteq> h)"

lemma rotate_write_kills:
  assumes "session_keys (hs_sessions s)" "hash_token env fresh \<noteq> hash_token env tok"
    "rotate_write env fresh now later tok ip geo row s = (Inr (Some v), s')"
  shows "token_gone (hash_token env tok) (hs_sessions s')"
proof -
  obtain r where r: "r \<in> set (hs_sessions s)" "ss_id r = ss_id row" "ss_token_hash r = hash_token env tok"
    using rotate_write_won [OF assms(3)] by blast
  then have "ss_id q = ss_id row" if "q \<in> set (hs_sessions s)" "ss_token_hash q = hash_token env tok" for q
    using same_token [OF assms(1) that(1) r(1)] that(2) by simp
  then show ?thesis using rotate_write_won [OF assms(3)] assms(2) by (force simp: token_gone_def)
qed

lemma rotate_write_gone:
  assumes "token_gone (hash_token env tok) (hs_sessions s)" "hash_token env fresh \<noteq> hash_token env tok"
  shows "fst (rotate_write env fresh now later tok ip geo row s) \<noteq> Inr (Some v)"
    "token_gone (hash_token env tok) (hs_sessions (snd (rotate_write env fresh now later tok ip geo row s)))"
proof -
  show "fst (rotate_write env fresh now later tok ip geo row s) \<noteq> Inr (Some v)"
    using rotate_write_won [of env fresh now later tok ip geo row s v] assms(1)
    by (cases "rotate_write env fresh now later tok ip geo row s") (auto simp: token_gone_def)
  have "keeps_rows (token_gone (hash_token env tok)) (rotate_token_hash i h (hash_token env fresh) t t' ip')" for i h t t' ip'
    unfolding rotate_token_hash_def Let_def
    by (rule keeps_try) (use assms(2) in \<open>auto simp: token_gone_def update_where_def split: if_splits\<close>)
  then have "keeps_rows (token_gone (hash_token env tok)) (rotate_write env fresh now later tok ip geo row)"
    unfolding rotate_write_def Let_def session_update_def
    by (intro st_keeps_intro keeps_do keeps_ignoring [where I = "\<lambda>s. token_gone (hash_token env tok) (hs_sessions s)"] keeps_call)
      (auto simp: token_gone_def update_where_def refresh_geo_def)
  then show "token_gone (hash_token env tok) (hs_sessions (snd (rotate_write env fresh now later tok ip geo row s)))"
    using assms(1) by (simp add: st_keeps_def)
qed

text \<open>Requests that have all read the same row before any of them writes.\<close>

record rotation =
  ro_fresh :: string
  ro_now_ms :: int
  ro_later_ms :: int
  ro_ip :: string
  ro_geo :: geo_result

fun rotations :: "'a digest_env_scheme \<Rightarrow> string \<Rightarrow> session_row \<Rightarrow> rotation list \<Rightarrow> host \<Rightarrow> rotated_session list \<times> host" where
  "rotations env tok row [] s = ([], s)"
| "rotations env tok row (w # ws) s =
     (case rotate_write env (ro_fresh w) (ro_now_ms w) (ro_later_ms w) tok (ro_ip w) (ro_geo w) row s of
        (r, s1) \<Rightarrow> (case rotations env tok row ws s1 of
          (won, s2) \<Rightarrow> ((case r of Inr (Some v) \<Rightarrow> v # won | _ \<Rightarrow> won), s2)))"

lemma rotations_gone:
  assumes "token_gone (hash_token env tok) (hs_sessions s)" "\<forall>w\<in>set ws. hash_token env (ro_fresh w) \<noteq> hash_token env tok"
  shows "fst (rotations env tok row ws s) = [] \<and> token_gone (hash_token env tok) (hs_sessions (snd (rotations env tok row ws s)))"
  using assms
proof (induction ws arbitrary: s)
  case (Cons w ws)
  obtain r s1 where w: "rotate_write env (ro_fresh w) (ro_now_ms w) (ro_later_ms w) tok (ro_ip w) (ro_geo w) row s = (r, s1)"
    by (cases "rotate_write env (ro_fresh w) (ro_now_ms w) (ro_later_ms w) tok (ro_ip w) (ro_geo w) row s")
  then have "token_gone (hash_token env tok) (hs_sessions s1)" "\<nexists>v. r = Inr (Some v)"
    using rotate_write_gone [of env tok s "ro_fresh w" "ro_now_ms w" "ro_later_ms w" "ro_ip w" "ro_geo w" row] Cons.prems by auto
  with Cons.IH [of s1] Cons.prems w show ?case
    by (auto split: prod.split sum.split option.split)
qed simp

text \<open>
  C20. Of any number of refreshes that use one session token at the same time, at most one gets a
  new token, however their reads and writes overlap and whichever statements fail; and once one
  got it, the old token authenticates nobody.
\<close>
theorem one_rotation_wins:
  assumes "session_keys (hs_sessions s)" and "\<forall>w\<in>set ws. hash_token env (ro_fresh w) \<noteq> hash_token env tok"
    and "rotations env tok row ws s = (won, s')"
  shows "length won \<le> 1 \<and>
    (won \<noteq> [] \<longrightarrow> fst (validate_session env now later tok ip geo s') \<noteq> Inr (Some v) \<and>
                 fst (rotate_session env fresh now later tok ip geo s') \<noteq> Inr (Some v'))"
proof -
  have "length won \<le> 1 \<and> (won \<noteq> [] \<longrightarrow> token_gone (hash_token env tok) (hs_sessions s'))"
    using assms
  proof (induction ws arbitrary: s won)
    case (Cons w ws)
    let ?upd = "rotate_write env (ro_fresh w) (ro_now_ms w) (ro_later_ms w) tok (ro_ip w) (ro_geo w) row"
    obtain r s1 where w: "?upd s = (r, s1)" by (cases "?upd s")
    obtain rest s2 where rest: "rotations env tok row ws s1 = (rest, s2)" by (cases "rotations env tok row ws s1")
    show ?case
    proof (cases "\<exists>v. r = Inr (Some v)")
      case True
      then obtain v where v: "r = Inr (Some v)" ..
      have "token_gone (hash_token env tok) (hs_sessions s1)"
        using rotate_write_kills [OF Cons.prems(1) _ w[unfolded v]] Cons.prems(2) by simp
      from rotations_gone [OF this, of ws row] Cons.prems w v rest show ?thesis by auto
    next
      case False
      then have "won = rest" "s' = s2"
        using Cons.prems(3) w rest by (auto split: sum.splits option.splits)
      moreover have "session_keys (hs_sessions s1)"
        using keys.rotate_write Cons.prems(1) w by (metis (no_types, lifting) snd_conv st_keeps_def)
      ultimately show ?thesis using Cons.IH [of s1 rest] Cons.prems(2) rest by simp
    qed
  qed simp
  moreover have "fst (validate_session env now later tok ip geo s') \<noteq> Inr (Some v)"
    "fst (rotate_session env fresh now later tok ip geo s') \<noteq> Inr (Some v')"
    if gone: "token_gone (hash_token env tok) (hs_sessions s')"
  proof -
    obtain q s1 where q: "by_token_hash (hash_token env tok) s' = (q, s1)" by (cases "by_token_hash (hash_token env tok) s'")
    have "q \<noteq> Inr (Some r)" for r
      using by_token_hash_found [of "hash_token env tok" s' r s1] q gone by (auto simp: token_gone_def)
    then show "fst (validate_session env now later tok ip geo s') \<noteq> Inr (Some v)"
      "fst (rotate_session env fresh now later tok ip geo s') \<noteq> Inr (Some v')"
      by (auto simp: validate_session_def rotate_session_def st_bind_def or_internal_def st_map_err_def map_err_def
          st_return_def q split: sum.splits option.splits)
  qed
  ultimately show ?thesis by blast
qed

section \<open>The limit per user\<close>

lemma try_deletes:
  assumes "fd_faults s = []"
  shows "fold try_delete xs s = s\<lparr>hs_sessions := filter (\<lambda>r. ss_id r \<notin> ss_id ` set xs) (hs_sessions s)\<rparr>"
  using assms
proof (induction xs arbitrary: s)
  case (Cons x xs)
  have "try_delete x s = s\<lparr>hs_sessions := filter (\<lambda>r. ss_id r \<noteq> ss_id x) (hs_sessions s)\<rparr>"
    using Cons.prems by (simp add: try_delete_def ignoring_errors_def session_delete_one_def db_call_clear)
  with Cons show ?case by (simp add: conj_commute)
qed simp

lemma filter_dropped:
  assumes "distinct (map g L)"
  shows "filter (\<lambda>r. g r \<notin> g ` set (take k L)) L = drop k L"
proof -
  have "distinct (map g (take k L @ drop k L))" using assms by simp
  then have "g ` set (take k L) \<inter> g ` set (drop k L) = {}" by (simp del: append_take_drop_id add: take_map drop_map)
  then have "filter (\<lambda>r. g r \<notin> g ` set (take k L)) (take k L) = []"
    "filter (\<lambda>r. g r \<notin> g ` set (take k L)) (drop k L) = drop k L"
    by (auto simp: filter_empty_conv filter_id_conv)
  then show ?thesis by (metis append_Nil append_take_drop_id filter_append)
qed

text \<open>What eviction leaves of a user's rows, and that what goes is not newer than what stays.\<close>

lemma evicted_rows:
  fixes u :: int and k :: nat
  assumes keys: "session_keys rows"
  defines "E \<equiv> filter (\<lambda>r. ss_user_id r = u) rows"
  defines "gone \<equiv> take k (sort_key ss_created_at_ms (sort_key (\<lambda>r. - ss_last_used_at_ms r) E))"
  shows "length (filter (\<lambda>r. ss_id r \<notin> ss_id ` set gone) E) = length E - k"
    "q \<in> set gone \<Longrightarrow> r \<in> set (filter (\<lambda>r. ss_id r \<notin> ss_id ` set gone) E) \<Longrightarrow> ss_created_at_ms q \<le> ss_created_at_ms r"
    "set gone \<subseteq> set E"
proof -
  let ?L = "sort_key ss_created_at_ms (sort_key (\<lambda>r. - ss_last_used_at_ms r) E)"
  let ?keep = "\<lambda>r. ss_id r \<notin> ss_id ` set gone"
  have "distinct (map ss_id E)" using keys by (simp add: session_keys_def E_def distinct_map_filter)
  then have "distinct (map ss_id ?L)" by (simp add: distinct_map)
  then have kept: "filter ?keep ?L = drop k ?L" unfolding gone_def by (rule filter_dropped)
  have perm: "mset (filter ?keep E) = mset (drop k ?L)"
    by (metis kept mset_filter mset_sort)
  then show "length (filter ?keep E) = length E - k" by (metis length_drop length_sort size_mset)
  show "set gone \<subseteq> set E" by (auto simp: gone_def dest: in_set_takeD)
  assume "q \<in> set gone" "r \<in> set (filter ?keep E)"
  then have "q \<in> set (take k ?L)" "r \<in> set (drop k ?L)"
    using perm mset_eq_setD gone_def by (blast, metis)
  moreover have "sorted (map ss_created_at_ms (take k ?L @ drop k ?L))" by simp
  ultimately show "ss_created_at_ms q \<le> ss_created_at_ms r"
    by (auto simp: sorted_append simp del: append_take_drop_id)
qed

text \<open>A login that finds the database up: the rows that go, the new row, the id drawn.\<close>

definition surplus_of :: "int \<Rightarrow> session_row list \<Rightarrow> session_row list" where
  "surplus_of u rows = (let E = filter (\<lambda>r. ss_user_id r = u) rows
     in take (length E - 9) (sort_key ss_created_at_ms (sort_key (\<lambda>r. - ss_last_used_at_ms r) E)))"

lemma create_session_clear:
  fixes u :: int
  assumes "fd_faults s = []"
  defines "i \<equiv> hs_ids s (hs_id_count s)"
  defines "kept \<equiv> filter (\<lambda>r. ss_id r \<notin> ss_id ` set (surplus_of u (hs_sessions s))) (hs_sessions s)"
  shows "create_session env fresh now u ip ua dev geo risk s =
      st_bind (or_internal (session_insert (new_session_row i u (hash_token env fresh) ip ua dev geo risk now))) (\<lambda>_. st_return
        \<lparr>cs_token = fresh, cs_session_id = i, cs_risk_level = risk, cs_verified = (risk \<noteq> Risk_High)\<rparr>)
      (s\<lparr>hs_sessions := kept, hs_id_count := Suc (hs_id_count s)\<rparr>)"
proof -
  let ?R = "hs_sessions s"
  let ?E = "filter (\<lambda>r. ss_user_id r = u) ?R"
  let ?X = "sort_key (\<lambda>r. - ss_last_used_at_ms r) ?E"
  define gone where "gone = surplus_of u ?R"
  let ?kept = "filter (\<lambda>r. ss_id r \<notin> ss_id ` set gone) ?R"
  have evict: "evict_surplus ?X s = s\<lparr>hs_sessions := ?kept\<rparr>"
  proof (cases "10 \<le> length ?E")
    case True
    then have "evict_surplus ?X s = fold try_delete gone s"
      by (simp add: evict_surplus_def MAX_SESSIONS_PER_USER_def gone_def surplus_of_def Let_def)
    then show ?thesis by (simp add: try_deletes [OF assms(1)])
  next
    case False
    then have "gone = []" by (simp add: gone_def surplus_of_def Let_def)
    with False show ?thesis by (simp add: evict_surplus_def MAX_SESSIONS_PER_USER_def)
  qed
  let ?s1 = "s\<lparr>hs_sessions := ?kept\<rparr>" and ?s2 = "s\<lparr>hs_sessions := ?kept, hs_id_count := Suc (hs_id_count s)\<rparr>"
  have steps: "or_internal (session_list_for_user u) s = (Inr ?X, s)" "(draw_id ?s1 :: (app_error + int) \<times> host) = (Inr i, ?s2)"
    using assms(1)
    by (simp_all add: or_internal_def st_map_err_def session_list_for_user_def db_call_clear draw_id_def next_snowflake_def i_def)
  show ?thesis
    by (simp add: create_session_def st_bind_def [of "or_internal (session_list_for_user u)"] steps st_do_def st_modify_def
        st_bind_def [of "st_do _"] st_bind_def [of draw_id] st_bind_def [of "\<lambda>s. _ s"] evict kept_def
        flip: gone_def i_def)
qed


section \<open>Guessing a code\<close>

text \<open>The codes a client tries one after the other for one session.\<close>

fun code_tries :: "'a digest_env_scheme \<Rightarrow> string \<Rightarrow> (int \<times> string) list \<Rightarrow> host \<Rightarrow> int option list \<times> host" where
  "code_tries env tok [] s = ([], s)"
| "code_tries env tok ((now, c) # cs) s =
     (case verify_session_code env now tok c s of
        (r, s1) \<Rightarrow> (case code_tries env tok cs s1 of
          (rs, s2) \<Rightarrow> ((case r of Inr x \<Rightarrow> x | Inl _ \<Rightarrow> None) # rs, s2)))"

lemma by_token_hash_clear:
  "fd_faults s = [] \<Longrightarrow> by_token_hash h s = (Inr (List.find (\<lambda>r. ss_token_hash r = h) (hs_sessions s)), s)"
  by (simp add: by_token_hash_def db_call_clear)

lemma verify_gone:
  assumes "fd_faults s = []" "token_gone (hash_token env tok) (hs_sessions s)"
  shows "verify_session_code env now tok code s = (Inr None, s)"
proof -
  have "List.find (\<lambda>r. ss_token_hash r = hash_token env tok) (hs_sessions s) = None"
    using assms(2) by (auto simp: token_gone_def find_None_iff)
  then show ?thesis
    by (simp add: verify_session_code_def st_bind_def or_internal_def st_map_err_def by_token_hash_clear [OF assms(1)] st_return_def)
qed

lemma code_tries_gone:
  assumes "fd_faults s = []" "token_gone (hash_token env tok) (hs_sessions s)"
  shows "code_tries env tok cs s = (replicate (length cs) None, s)"
  by (induction cs) (auto simp: verify_gone [OF assms])

definition challenge_over :: "int \<Rightarrow> session_row \<Rightarrow> bool" where
  "challenge_over now r \<longleftrightarrow> ss_verify_token_hash r = None \<or> is_none_or (ss_verify_expires_at_ms r) (\<lambda>t. t \<le> now)"

lemma filter_updated:
  "(\<And>r. P (f r) = P r) \<Longrightarrow> filter (\<lambda>r. \<not> P r) (update_where P f rows) = filter (\<lambda>r. \<not> P r) rows"
  by (induction rows) (simp_all add: update_where_def)

text \<open>A guess that is wrong, or comes when no code is asked for: it is counted, or the row is gone.\<close>

lemma failed_guess:
  assumes keys: "session_keys (hs_sessions s)" and up: "fd_faults s = []"
    and row: "row \<in> set (hs_sessions s)" "ss_token_hash row = hash_token env tok" "\<not> ss_verified row"
    and wrong: "ss_verify_token_hash row \<noteq> Some (hash_token env code) \<or> challenge_over now row \<or> 5 \<le> ss_verify_attempts row"
  shows "\<exists>s'. verify_session_code env now tok code s = (Inr None, s') \<and> fd_faults s' = [] \<and> session_keys (hs_sessions s') \<and>
    (token_gone (hash_token env tok) (hs_sessions s') \<or>
     row \<in> set (hs_sessions s') \<and> challenge_over now row \<or>
     row\<lparr>ss_verify_attempts := ss_verify_attempts row + 1\<rparr> \<in> set (hs_sessions s') \<and> ss_verify_attempts row < 4 \<and>
       \<not> challenge_over now row)"
proof -
  let ?i = "ss_id row" and ?R = "hs_sessions s"
  let ?bumped = "update_where (\<lambda>r. ss_id r = ?i) (\<lambda>r. r\<lparr>ss_verify_attempts := ss_verify_attempts r + 1\<rparr>) ?R"
  have find: "List.find (\<lambda>r. ss_token_hash r = hash_token env tok) ?R = Some row"
    using find_by_token [OF keys row(1)] row(2) by simp
  then have "verify_session_code env now tok code s = check_code env now code row s"
    by (simp add: verify_session_code_def st_bind_def or_internal_def st_map_err_def by_token_hash_clear [OF up])
  moreover have gone: "token_gone (hash_token env tok) (filter (\<lambda>r. ss_id r \<noteq> ?i) ?R)"
    using same_token [OF keys _ row(1)] row(2) by (auto simp: token_gone_def)
  moreover have deleted: "try_delete row t = t\<lparr>hs_sessions := filter (\<lambda>r. ss_id r \<noteq> ?i) (hs_sessions t)\<rparr>" if "fd_faults t = []" for t
    using that by (simp add: try_delete_def ignoring_errors_def session_delete_one_def db_call_clear)
  moreover have "session_keys (filter (\<lambda>r. ss_id r \<noteq> ?i) ?R)" by (rule session_keys_filter [OF keys])
  moreover have bump: "bump_verify_attempts ?i s = (Inr (ss_verify_attempts row + 1), s\<lparr>hs_sessions := ?bumped\<rparr>)"
    by (simp add: bump_verify_attempts_def db_try_clear [OF up] find_by_session [OF keys row(1)])
  moreover have "filter (\<lambda>r. ss_id r \<noteq> ?i) ?bumped = filter (\<lambda>r. ss_id r \<noteq> ?i) ?R"
    by (rule filter_updated) simp
  moreover have "row\<lparr>ss_verify_attempts := ss_verify_attempts row + 1\<rparr> \<in> set ?bumped"
    using row(1) by (force simp: update_where_def)
  moreover have "session_keys ?bumped" by (simp add: session_keys_update keys)
  ultimately show ?thesis
    using row wrong up keys
    by (cases "ss_verify_token_hash row")
      (auto simp: check_code_def st_bind_def st_do_def st_modify_def st_return_def or_internal_def st_map_err_def
        MAX_VERIFY_ATTEMPTS_def challenge_over_def)
qed

lemma tries_when_over:
  assumes "session_keys (hs_sessions s)" "fd_faults s = []" "row \<in> set (hs_sessions s)"
    "ss_token_hash row = hash_token env tok" "\<not> ss_verified row" "\<forall>(t, c)\<in>set cs. challenge_over t row"
  shows "set (fst (code_tries env tok cs s)) \<subseteq> {None}"
  using assms
proof (induction env tok cs s rule: code_tries.induct)
  case (2 env tok now c cs s)
  then have over: "challenge_over now row" by simp
  then obtain s' where s': "verify_session_code env now tok c s = (Inr None, s')" "fd_faults s' = []" "session_keys (hs_sessions s')"
    "token_gone (hash_token env tok) (hs_sessions s') \<or> row \<in> set (hs_sessions s')"
    using failed_guess [OF "2.prems"(1-5), of c now] by blast
  from s'(4) have "set (fst (code_tries env tok cs s')) \<subseteq> {None}"
  proof
    assume "token_gone (hash_token env tok) (hs_sessions s')"
    from code_tries_gone [OF s'(2) this] show ?thesis by (simp add: set_replicate_conv_if)
  next
    assume "row \<in> set (hs_sessions s')"
    then show ?thesis using "2.IH" s'(1-3) "2.prems" by simp
  qed
  then show ?case by (simp add: s'(1) split: prod.split) auto
qed simp

text \<open>
  Five guesses: of the codes a client tries one after the other for a session that waits for
  its code, only the first five are compared at all, less those already spent. If these are wrong,
  no code that follows opens the session, not even the right one; and a code is worth nothing once
  its time is over.
\<close>
lemma five_guesses:
  assumes "session_keys (hs_sessions s)" and "fd_faults s = []" and "row \<in> set (hs_sessions s)"
    and "ss_token_hash row = hash_token env tok" and "\<not> ss_verified row" and "sorted (map fst cs)"
    and "\<forall>(t, c)\<in>set (take (nat (5 - ss_verify_attempts row)) cs).
           ss_verify_token_hash row \<noteq> Some (hash_token env c) \<or> challenge_over t row"
  shows "set (fst (code_tries env tok cs s)) \<subseteq> {None}"
  using assms
proof (induction env tok cs s arbitrary: row rule: code_tries.induct)
  case (2 env tok now c cs s)
  have "ss_verify_token_hash row \<noteq> Some (hash_token env c) \<or> challenge_over now row" if "ss_verify_attempts row < 5"
    using "2.prems"(7) that by (cases "nat (5 - ss_verify_attempts row)") auto
  then obtain s' where s': "verify_session_code env now tok c s = (Inr None, s')" "fd_faults s' = []" "session_keys (hs_sessions s')"
    "token_gone (hash_token env tok) (hs_sessions s') \<or> row \<in> set (hs_sessions s') \<and> challenge_over now row \<or>
     row\<lparr>ss_verify_attempts := ss_verify_attempts row + 1\<rparr> \<in> set (hs_sessions s') \<and> ss_verify_attempts row < 4"
    using failed_guess [OF "2.prems"(1-5), of c now] by (meson linorder_not_le)
  from s'(4) have "set (fst (code_tries env tok cs s')) \<subseteq> {None}"
  proof (elim disjE conjE)
    assume "token_gone (hash_token env tok) (hs_sessions s')"
    from code_tries_gone [OF s'(2) this] show ?thesis by (simp add: set_replicate_conv_if)
  next
    assume in_rows: "row \<in> set (hs_sessions s')" and "challenge_over now row"
    then have "\<forall>(t, c)\<in>set cs. challenge_over t row"
      using "2.prems"(6) by (fastforce simp: challenge_over_def is_none_or_def split: option.splits)
    with in_rows show ?thesis by (intro tries_when_over [OF s'(3,2)]) (use "2.prems" in simp_all)
  next
    assume bumped: "row\<lparr>ss_verify_attempts := ss_verify_attempts row + 1\<rparr> \<in> set (hs_sessions s')" and "ss_verify_attempts row < 4"
    then have "nat (5 - ss_verify_attempts row) = Suc (nat (4 - ss_verify_attempts row))" by simp
    then have rest: "\<forall>(t, c')\<in>set (take (nat (4 - ss_verify_attempts row)) cs).
        ss_verify_token_hash row \<noteq> Some (hash_token env c') \<or> challenge_over t row"
      using "2.prems"(7) by simp
    show ?thesis
      by (rule "2.IH" [OF s'(1)[symmetric] s'(3,2) bumped]) (use "2.prems"(4-6) rest in \<open>auto simp: challenge_over_def\<close>)
  qed
  then show ?case by (simp add: s'(1) split: prod.split) auto
qed simp

section \<open>What a failing or overlapping request does\<close>

text \<open>
  The limit of guesses is read with the row and written later: a request that has read the row
  before the guesses of others were counted is answered by the code alone, whatever has happened
  to the row since; also when the row is deleted by now.
\<close>
lemma overlapping_guesses_are_not_limited:
  assumes "fd_faults s = []" "now < ss_expires_at_ms row" "\<not> ss_verified row" "ss_verify_attempts row < 5"
    "\<not> challenge_over now row" "ss_verify_token_hash row = Some (hash_token env code)"
  shows "fst (check_code env now code row s) = Inr (Some (ss_user_id row))"
  using assms
  by (auto simp: check_code_def MAX_VERIFY_ATTEMPTS_def challenge_over_def st_bind_def or_internal_def st_map_err_def mark_verified_def
      session_update_def db_call_clear st_return_def)

text \<open>A logout whose delete fails is answered as a logout, and the session lives on.\<close>

lemma logout_may_fail_silently:
  assumes "fd_faults s = [False, True]" "session_keys (hs_sessions s)" "row \<in> set (hs_sessions s)"
    "ss_token_hash row = hash_token env tok"
  shows "\<exists>s'. revoke_session env tok s = (Inr (), s') \<and> hs_sessions s' = hs_sessions s"
  using assms find_by_token [OF assms(2,3)]
  by (simp add: revoke_session_def by_token_hash_def db_call_def st_bind_def or_internal_def st_map_err_def st_do_def st_modify_def
      try_delete_def ignoring_errors_def session_delete_one_def Let_def)

text \<open>An expiry of zero, which the table's comment calls never, is an expiry in the past.\<close>

lemma expiry_zero_is_not_never:
  assumes "session_keys (hs_sessions s)" "row \<in> set (hs_sessions s)" "ss_expires_at_ms row = 0"
    "ss_token_hash row = hash_token env tok" "0 \<le> now"
  shows "fst (validate_session env now later tok ip geo s) \<noteq> Inr (Some v)"
proof
  assume "fst (validate_session env now later tok ip geo s) = Inr (Some v)"
  then obtain r where "r \<in> set (hs_sessions s)" "ss_token_hash r = hash_token env tok" "now < ss_expires_at_ms r"
    using validate_Some by blast
  with same_token [OF assms(1) _ assms(2), of r] assms(3-5) show False by simp
qed

section \<open>Concrete sessions\<close>

definition demo_digests :: digest_env where
  "demo_digests = \<lparr>sha256 = (\<lambda>b. b), hex_encode = (\<lambda>b. b), b64url_encode = (\<lambda>b. b)\<rparr>"

definition demo_geo :: geo_result where
  "demo_geo = \<lparr>geo_city = None, geo_region = None, geo_country = Some ''SE''\<rparr>"

definition demo_device :: device_info where
  "demo_device = \<lparr>device_hash = ''d'', device_label = ''Firefox on Linux''\<rparr>"

text \<open>The session that waits for the code, beside those created at the times given.\<close>

definition demo_waiting :: session_row where
  "demo_waiting = (new_session_row 70 50 ''tok'' ''1.2.3.4'' None demo_device demo_geo Risk_High 1000)
     \<lparr>ss_verify_token_hash := Some ''123456'', ss_verify_expires_at_ms := Some 901000, ss_verify_attempts := 3\<rparr>"

definition demo_sessions :: "nat \<Rightarrow> host" where
  "demo_sessions n = demo_host\<lparr>hs_sessions := demo_waiting #
     map (\<lambda>i. new_session_row (int i) 50 (nat_str i) ''1.2.3.4'' None demo_device demo_geo Risk_None (int i)) [0..<n]\<rparr>"

lemma demo_session_keys: "session_keys (hs_sessions (demo_sessions 11))"
  by code_simp

lemma demo_verified: "hs_sessions (session_step demo_digests (demo_sessions 11) (Verify 2000 ''tok'' ''123456'')) ! 0 =
   demo_waiting\<lparr>ss_verified := True, ss_verify_token_hash := None, ss_verify_expires_at_ms := None, ss_verify_attempts := 0\<rparr>"
  by code_simp

abbreviation "demo_verify \<equiv> Verify 2000 ''tok'' ''123456''"

lemma demo_verified_in:
  "hs_sessions (session_step demo_digests (demo_sessions 11) demo_verify) ! 0 \<in>
     set (hs_sessions (session_step demo_digests (demo_sessions 11) demo_verify))"
  by (rule nth_mem) code_simp

lemma a_session_opens_by_login_or_code_witness:
  "\<exists>now tok code r t. demo_verify = Verify now tok code \<and> r \<in> set (hs_sessions (demo_sessions 11)) \<and> ss_id r = 70 \<and>
     ss_user_id r = 50 \<and> ss_token_hash r = hash_token demo_digests tok \<and>
     ss_verify_token_hash r = Some (hash_token demo_digests code) \<and> now < ss_expires_at_ms r \<and>
     ss_verify_attempts r < 5 \<and> ss_verify_expires_at_ms r = Some t \<and> now < t"
proof -
  have closed: "\<not> (\<exists>r\<in>set (hs_sessions (demo_sessions 11)). ss_id r = 70 \<and> ss_user_id r = 50 \<and> ss_verified r)"
    by code_simp
  have row: "ss_verified (hs_sessions (session_step demo_digests (demo_sessions 11) demo_verify) ! 0) = True"
    "ss_id (hs_sessions (session_step demo_digests (demo_sessions 11) demo_verify) ! 0) = 70"
    "ss_user_id (hs_sessions (session_step demo_digests (demo_sessions 11) demo_verify) ! 0) = 50"
    unfolding demo_verified by (simp_all add: demo_waiting_def)
  show ?thesis
    using a_session_opens_by_login_or_code [OF demo_session_keys demo_verified_in, unfolded row, OF TrueI closed]
    by (simp del: session_step.simps)
qed

lemma tokens_authenticate_exactly_witness:
  "fst (validate_session demo_digests 5 6 ''7'' ''ip'' demo_geo (demo_sessions 11)) = Inr (Some \<lparr>vs_user_id = 50, vs_session_id = 7\<rparr>)"
proof -
  let ?r = "new_session_row 7 50 ''7'' ''1.2.3.4'' None demo_device demo_geo Risk_None 7"
  have "?r \<in> set (hs_sessions (demo_sessions 11))" "ss_token_hash ?r = hash_token demo_digests ''7''" "ss_verified ?r"
    "5 < ss_expires_at_ms ?r" "fd_faults (demo_sessions 11) = []"
    by code_simp+
  then show ?thesis
    using tokens_authenticate_exactly [OF demo_session_keys, where r = ?r and now = 5 and later = 6 and tok = "''7''"
      and env = demo_digests and ip = "''ip''" and geo = demo_geo] by simp
qed

definition demo_rotation :: "string \<Rightarrow> rotation" where
  "demo_rotation f = \<lparr>ro_fresh = f, ro_now_ms = 5, ro_later_ms = 6, ro_ip = ''ip'', ro_geo = demo_geo\<rparr>"

definition demo_rotated :: "rotated_session list \<times> host" where
  "demo_rotated = rotations demo_digests ''7''
     (new_session_row 7 50 ''7'' ''1.2.3.4'' None demo_device demo_geo Risk_None 7) [demo_rotation ''a'', demo_rotation ''b''] (demo_sessions 11)"

lemma one_rotation_wins_witness:
  "fst demo_rotated = [\<lparr>rs_user_id = 50, rs_session_id = 7, rs_token = ''a''\<rparr>] \<and> length (fst demo_rotated) \<le> 1 \<and>
   (\<forall>v. fst (validate_session demo_digests 5 6 ''7'' ''ip'' demo_geo (snd demo_rotated)) \<noteq> Inr (Some v))"
proof -
  have won: "fst demo_rotated = [\<lparr>rs_user_id = 50, rs_session_id = 7, rs_token = ''a''\<rparr>]" by code_simp
  have "\<forall>w\<in>set [demo_rotation ''a'', demo_rotation ''b'']. hash_token demo_digests (ro_fresh w) \<noteq> hash_token demo_digests ''7''"
    by code_simp
  moreover have "rotations demo_digests ''7'' (new_session_row 7 50 ''7'' ''1.2.3.4'' None demo_device demo_geo Risk_None 7)
      [demo_rotation ''a'', demo_rotation ''b''] (demo_sessions 11) = (fst demo_rotated, snd demo_rotated)"
    by (simp only: demo_rotated_def prod.collapse)
  ultimately have "length (fst demo_rotated) \<le> 1 \<and> (fst demo_rotated \<noteq> [] \<longrightarrow>
      fst (validate_session demo_digests 5 6 ''7'' ''ip'' demo_geo (snd demo_rotated)) \<noteq> Inr (Some v) \<and>
      fst (rotate_session demo_digests ''c'' 5 6 ''7'' ''ip'' demo_geo (snd demo_rotated)) \<noteq> Inr (Some v'))" for v v'
    by (rule one_rotation_wins [OF demo_session_keys])
  then show ?thesis using won by simp
qed

definition demo_created :: "(app_error + create_session_result) \<times> host" where
  "demo_created = create_session demo_digests ''new'' 2000 50 ''ip'' None demo_device demo_geo Risk_Low (demo_sessions 11)"


lemma five_guesses_witness:
  "set (fst (code_tries demo_digests ''tok'' [(2000, ''1''), (2001, ''2''), (2002, ''123456'')] (demo_sessions 11))) \<subseteq> {None}"
proof (rule five_guesses [OF demo_session_keys])
  show "demo_waiting \<in> set (hs_sessions (demo_sessions 11))" by (simp add: demo_sessions_def)
qed (code_simp+)

end
