(* ===== verification/Client_Ip.thy ===== *)
theory Client_Ip
  imports Fed_Auth
begin

text \<open>
  The address of a client (\<open>src/server-rs/src/handlers/mod.rs\<close>): the peer's own, or, from a
  configured proxy, the one it forwards. Masks are words of the address's width.
  \<open>str::parse::<IpAddr>\<close> is the parameter \<open>parse_ip\<close>; printing an address is modelled.
\<close>

section \<open>Splitting and numbers\<close>

fun split_on :: "char \<Rightarrow> string \<Rightarrow> string list" where
  "split_on c [] = [[]]"
| "split_on c (x # xs) =
     (if x = c then [] # split_on c xs
      else case split_on c xs of [] \<Rightarrow> [[x]] | w # ws \<Rightarrow> (x # w) # ws)"

definition split_once :: "char \<Rightarrow> string \<Rightarrow> (string \<times> string) option" where
  "split_once c s =
     (if c \<in> set s then Some (takeWhile (\<lambda>x. x \<noteq> c) s, tl (dropWhile (\<lambda>x. x \<noteq> c) s)) else None)"

definition parse_unsigned :: "nat \<Rightarrow> string \<Rightarrow> nat option" where
  "parse_unsigned bound s =
     opt_filter (\<lambda>n. n \<le> bound) (parse_nat (case s of c # cs \<Rightarrow> if c = CHR ''+'' then cs else s | [] \<Rightarrow> s))"

section \<open>Printing addresses\<close>

fun hex_digit :: "nat \<Rightarrow> char" where
  "hex_digit n = (if n < 10 then char_of (48 + n) else char_of (87 + n))"

fun hex_str :: "nat \<Rightarrow> string" where
  "hex_str n = (if n < 16 then [hex_digit n] else hex_str (n div 16) @ [hex_digit (n mod 16)])"

declare hex_str.simps [simp del]

fun join_with :: "string \<Rightarrow> string list \<Rightarrow> string" where
  "join_with sep [] = []"
| "join_with sep [s] = s"
| "join_with sep (s # t # ts) = s @ sep @ join_with sep (t # ts)"

definition ipv4_str :: "ipv4 \<Rightarrow> string" where
  "ipv4_str ip = join_with ''.'' (map (\<lambda>b. nat_str (unat b)) (octets ip))"

text \<open>The first longest run of zero segments.\<close>

fun zero_span :: "nat \<Rightarrow> nat \<times> nat \<Rightarrow> nat \<times> nat \<Rightarrow> u16 list \<Rightarrow> nat \<times> nat" where
  "zero_span i current longest [] = longest"
| "zero_span i (start, len) longest (segment # rest) =
     (if segment = 0 then
        let current = (if len = 0 then i else start, len + 1);
            longest = (if snd longest < snd current then current else longest)
        in zero_span (i + 1) current longest rest
      else zero_span (i + 1) (0, 0) longest rest)"

definition hex_segments :: "u16 list \<Rightarrow> string" where
  "hex_segments segs = join_with '':'' (map (\<lambda>w. hex_str (unat w)) segs)"

fun ipv4_mapped :: "ipv6 \<Rightarrow> ipv4 option" where
  "ipv4_mapped (Ipv6 a b c d e f g h) =
     (if [a, b, c, d, e, f] = [0, 0, 0, 0, 0, 0xFFFF]
      then Some (Ipv4 (ucast (drop_bit 8 g)) (ucast g) (ucast (drop_bit 8 h)) (ucast h)) else None)"

definition ipv6_str :: "ipv6 \<Rightarrow> string" where
  "ipv6_str ip =
     (case ipv4_mapped ip of
        Some v4 \<Rightarrow> ''::ffff:'' @ ipv4_str v4
      | None \<Rightarrow>
          (case zero_span 0 (0, 0) (0, 0) (segments ip) of
             (start, len) \<Rightarrow>
               if 1 < len then hex_segments (take start (segments ip)) @ ''::'' @ hex_segments (drop (start + len) (segments ip))
               else hex_segments (segments ip)))"

text \<open>\<open>normalize_ip\<close>: to the number and back, and printed.\<close>

fun normalize_ip :: "ip_addr \<Rightarrow> string" where
  "normalize_ip (V4 ip) = ipv4_str ip"
| "normalize_ip (V6 ip) = ipv6_str ip"

section \<open>Trusted proxies\<close>

record trusted_proxy =
  tp_network :: ip_addr
  tp_prefix :: u8

definition ipv4_bits :: "ipv4 \<Rightarrow> 32 word" where
  "ipv4_bits ip = fold (\<lambda>b w. push_bit 8 w OR ucast b) (octets ip) 0"

definition ipv6_bits :: "ipv6 \<Rightarrow> 128 word" where
  "ipv6_bits ip = fold (\<lambda>b w. push_bit 16 w OR ucast b) (segments ip) 0"

definition ipv4_mask :: "u8 \<Rightarrow> 32 word" where
  "ipv4_mask prefix = (if prefix = 0 then 0 else push_bit (32 - unat prefix) (- 1))"

definition ipv6_mask :: "u8 \<Rightarrow> 128 word" where
  "ipv6_mask prefix = (if prefix = 0 then 0 else push_bit (128 - unat prefix) (- 1))"

definition proxy_contains :: "trusted_proxy \<Rightarrow> ip_addr \<Rightarrow> bool" where
  "proxy_contains p ip =
     (case (tp_network p, ip) of
        (V4 network, V4 ip) \<Rightarrow> (let mask = ipv4_mask (tp_prefix p) in ipv4_bits network AND mask = ipv4_bits ip AND mask)
      | (V6 network, V6 ip) \<Rightarrow> (let mask = ipv6_mask (tp_prefix p) in ipv6_bits network AND mask = ipv6_bits ip AND mask)
      | _ \<Rightarrow> False)"

fun max_prefix :: "ip_addr \<Rightarrow> nat" where
  "max_prefix (V4 _) = 32"
| "max_prefix (V6 _) = 128"

definition validate_proxy_prefix :: "ip_addr \<Rightarrow> nat \<Rightarrow> string \<Rightarrow> string + unit" where
  "validate_proxy_prefix ip prefix entry =
     guard (prefix \<le> max_prefix ip) (''invalid proxy CIDR prefix: '' @ entry)"

definition parse_proxy_entry :: "'a url_env_scheme \<Rightarrow> string \<Rightarrow> string + trusted_proxy" where
  "parse_proxy_entry env entry =
     (case split_once CHR ''/'' entry of
        Some (addr, prefix) \<Rightarrow>
          bind_result (ok_or (parse_ip env addr) (''invalid proxy CIDR address: '' @ entry)) (\<lambda>ip.
          bind_result (ok_or (parse_unsigned 255 prefix) (''invalid proxy CIDR prefix: '' @ entry)) (\<lambda>prefix.
          bind_result (validate_proxy_prefix ip prefix entry) (\<lambda>_.
          Inr \<lparr>tp_network = ip, tp_prefix = of_nat prefix\<rparr>)))
      | None \<Rightarrow>
          bind_result (ok_or (parse_ip env entry) (''invalid proxy IP address: '' @ entry)) (\<lambda>ip.
          Inr \<lparr>tp_network = ip, tp_prefix = of_nat (max_prefix ip)\<rparr>))"

fun parse_proxy_entries :: "'a url_env_scheme \<Rightarrow> string list \<Rightarrow> string + trusted_proxy list" where
  "parse_proxy_entries env [] = Inr []"
| "parse_proxy_entries env (entry # entries) =
     bind_result (parse_proxy_entry env entry) (\<lambda>p.
     bind_result (parse_proxy_entries env entries) (\<lambda>ps. Inr (p # ps)))"

definition parse_trusted_proxy_cidrs :: "'a url_env_scheme \<Rightarrow> string \<Rightarrow> string + trusted_proxy list" where
  "parse_trusted_proxy_cidrs env raw =
     parse_proxy_entries env (filter (\<lambda>entry. entry \<noteq> []) (map str_trim (split_on CHR '','' raw)))"

definition trusted_proxy_cidrs_from_env :: "'a url_env_scheme \<Rightarrow> string option \<Rightarrow> trusted_proxy list" where
  "trusted_proxy_cidrs_from_env env var =
     (case var of
        None \<Rightarrow> []
      | Some raw \<Rightarrow> (case parse_trusted_proxy_cidrs env raw of Inr proxies \<Rightarrow> proxies | Inl _ \<Rightarrow> []))"

definition is_trusted_proxy_peer :: "ip_addr \<Rightarrow> trusted_proxy list \<Rightarrow> bool" where
  "is_trusted_proxy_peer ip proxies = list_ex (\<lambda>p. proxy_contains p ip) proxies"

definition FORWARDED_CLIENT_IP_HEADER :: string where "FORWARDED_CLIENT_IP_HEADER = ''do-connecting-ip''"

definition extract_client_ip_with_trusted_proxies ::
  "'a url_env_scheme \<Rightarrow> 'b auth_env_scheme \<Rightarrow> headers \<Rightarrow> ip_addr \<Rightarrow> trusted_proxy list \<Rightarrow> string" where
  "extract_client_ip_with_trusted_proxies urls env headers peer_ip proxies =
     (let raw = Option.bind (headers FORWARDED_CLIENT_IP_HEADER) (header_to_str env)
      in case (is_trusted_proxy_peer peer_ip proxies, raw) of
           (True, Some raw_ip) \<Rightarrow>
             (case parse_ip urls (str_trim raw_ip) of
                Some client_ip \<Rightarrow> normalize_ip client_ip
              | None \<Rightarrow> normalize_ip peer_ip)
         | _ \<Rightarrow> normalize_ip peer_ip)"

definition extract_client_ip ::
  "'a url_env_scheme \<Rightarrow> 'b auth_env_scheme \<Rightarrow> string option \<Rightarrow> headers \<Rightarrow> ip_addr \<Rightarrow> string" where
  "extract_client_ip urls env proxies_var headers peer_ip =
     extract_client_ip_with_trusted_proxies urls env headers peer_ip (trusted_proxy_cidrs_from_env urls proxies_var)"

section \<open>Which peers are trusted\<close>

text \<open>The \<open>n\<close>th bit of an address in writing order.\<close>

fun address_bits :: "ip_addr \<Rightarrow> nat \<Rightarrow> bool" where
  "address_bits (V4 ip) n = bit (ipv4_bits ip) (31 - n)"
| "address_bits (V6 ip) n = bit (ipv6_bits ip) (127 - n)"

lemma mask_bits:
  fixes a b :: "'w::len word"
  assumes "p \<le> LENGTH('w)"
  shows "a AND push_bit (LENGTH('w) - p) (- 1) = b AND push_bit (LENGTH('w) - p) (- 1) \<longleftrightarrow>
    (\<forall>n<p. bit a (LENGTH('w) - 1 - n) = bit b (LENGTH('w) - 1 - n))"
proof
  assume eq: "a AND push_bit (LENGTH('w) - p) (- 1) = b AND push_bit (LENGTH('w) - p) (- 1)"
  show "\<forall>n<p. bit a (LENGTH('w) - 1 - n) = bit b (LENGTH('w) - 1 - n)"
  proof (intro allI impI)
    fix n assume "n < p"
    then have "LENGTH('w) - p \<le> LENGTH('w) - 1 - n" "LENGTH('w) - 1 - n < LENGTH('w)" using assms by auto
    then show "bit a (LENGTH('w) - 1 - n) = bit b (LENGTH('w) - 1 - n)"
      using arg_cong [OF eq, of "\<lambda>w. bit w (LENGTH('w) - 1 - n)"] by (simp add: bit_and_iff bit_push_bit_iff bit_minus_1_iff bit_not_iff bit_mask_iff)
  qed
next
  assume top: "\<forall>n<p. bit a (LENGTH('w) - 1 - n) = bit b (LENGTH('w) - 1 - n)"
  show "a AND push_bit (LENGTH('w) - p) (- 1) = b AND push_bit (LENGTH('w) - p) (- 1)"
  proof (rule bit_word_eqI)
    fix k assume "k < LENGTH('w)"
    then show "bit (a AND push_bit (LENGTH('w) - p) (- 1)) k = bit (b AND push_bit (LENGTH('w) - p) (- 1)) k"
      using top [rule_format, of "LENGTH('w) - 1 - k"] assms
      by (auto simp: bit_and_iff bit_push_bit_iff bit_minus_1_iff bit_not_iff bit_mask_iff)
  qed
qed

text \<open>
  A proxy entry covers exactly the addresses of its family whose leading bits, as many as its
  prefix says, are those of its network.
\<close>
lemma proxy_contains_prefix:
  assumes "unat (tp_prefix p) \<le> max_prefix (tp_network p)"
  shows "proxy_contains p ip \<longleftrightarrow> max_prefix (tp_network p) = max_prefix ip \<and>
    (\<forall>n<unat (tp_prefix p). address_bits (tp_network p) n = address_bits ip n)"
proof (cases "tp_network p"; cases ip)
  fix network addr assume "tp_network p = V4 network" "ip = V4 addr"
  then show ?thesis
    using assms mask_bits [where 'w = 32, of "unat (tp_prefix p)" "ipv4_bits network" "ipv4_bits addr"]
    by (auto simp: proxy_contains_def ipv4_mask_def Let_def unat_eq_0)
next
  fix network addr assume "tp_network p = V6 network" "ip = V6 addr"
  then show ?thesis
    using assms mask_bits [where 'w = 128, of "unat (tp_prefix p)" "ipv6_bits network" "ipv6_bits addr"]
    by (auto simp: proxy_contains_def ipv6_mask_def Let_def unat_eq_0)
qed (use assms in \<open>auto simp: proxy_contains_def\<close>)

lemma parsed_prefix:
  assumes "parse_proxy_entry env entry = Inr p"
  shows "unat (tp_prefix p) \<le> max_prefix (tp_network p)"
proof -
  have m: "max_prefix ip \<le> 128" for ip by (cases ip) auto
  have byte: "unat (of_nat n :: u8) = n" if "n \<le> max_prefix ip" for n ip
    using that m [of ip] by (simp add: unat_of_nat)
  show ?thesis
    using assms byte [OF order_refl]
    by (auto simp: byte parse_proxy_entry_def result_iff validate_proxy_prefix_def split: option.splits)
qed

lemma parsed_prefixes:
  "parse_proxy_entries env es = Inr ps \<Longrightarrow> p \<in> set ps \<Longrightarrow> unat (tp_prefix p) \<le> max_prefix (tp_network p)"
  by (induction es arbitrary: ps) (auto simp: result_iff dest: parsed_prefix)

text \<open>
  C30. A client can choose the address the server believes only behind a configured proxy: unless
  the leading bits of the peer's address are those of a network named in the configuration, as
  many as named there, the address is the peer's own whatever headers it sends.
\<close>
theorem forwarded_address_needs_a_proxy:
  assumes "extract_client_ip urls env var headers peer \<noteq> normalize_ip peer"
  shows "\<exists>raw ps p. var = Some raw \<and> parse_trusted_proxy_cidrs urls raw = Inr ps \<and> p \<in> set ps \<and>
    max_prefix (tp_network p) = max_prefix peer \<and> unat (tp_prefix p) \<le> max_prefix peer \<and>
    (\<forall>n<unat (tp_prefix p). address_bits (tp_network p) n = address_bits peer n)"
proof -
  have "is_trusted_proxy_peer peer (trusted_proxy_cidrs_from_env urls var)"
    using assms
    by (auto simp: extract_client_ip_def extract_client_ip_with_trusted_proxies_def Let_def split: option.splits bool.splits)
  then obtain p where p: "p \<in> set (trusted_proxy_cidrs_from_env urls var)" "proxy_contains p peer"
    by (auto simp: is_trusted_proxy_peer_def list_ex_iff)
  then obtain raw where "var = Some raw" by (cases var) (auto simp: trusted_proxy_cidrs_from_env_def)
  moreover from this p(1) obtain ps where "parse_trusted_proxy_cidrs urls raw = Inr ps" "p \<in> set ps"
    by (cases "parse_trusted_proxy_cidrs urls raw") (auto simp: trusted_proxy_cidrs_from_env_def)
  ultimately have raw: "var = Some raw" "parse_trusted_proxy_cidrs urls raw = Inr ps" "p \<in> set ps" by simp_all
  have "unat (tp_prefix p) \<le> max_prefix (tp_network p)"
    by (rule parsed_prefixes [OF raw(2)[unfolded parse_trusted_proxy_cidrs_def] raw(3)])
  with p(2) raw show ?thesis using proxy_contains_prefix by metis
qed

definition demo_urls :: url_env where
  "demo_urls = \<lparr>url_parse = (\<lambda>_. None), url_join = (\<lambda>_ _. None),
     parse_ip = (\<lambda>s. if s = ''10.0.0.0'' then Some (V4 (Ipv4 10 0 0 0)) else if s = ''9.9.9.9'' then Some (V4 (Ipv4 9 9 9 9)) else None)\<rparr>"

lemma forwarded_address_needs_a_proxy_witness:
  "extract_client_ip demo_urls demo_auth_env (Some ''10.0.0.0/8, 9.9.9.9'') [''do-connecting-ip'' \<mapsto> '' 9.9.9.9''] (V4 (Ipv4 10 1 2 3)) = ''9.9.9.9'' \<and>
   (\<exists>raw ps p. Some ''10.0.0.0/8, 9.9.9.9'' = Some raw \<and> parse_trusted_proxy_cidrs demo_urls raw = Inr ps \<and> p \<in> set ps \<and>
      unat (tp_prefix p) \<le> 32)"
proof -
  have shown: "extract_client_ip demo_urls demo_auth_env (Some ''10.0.0.0/8, 9.9.9.9'') [''do-connecting-ip'' \<mapsto> '' 9.9.9.9'']
      (V4 (Ipv4 10 1 2 3)) = ''9.9.9.9''" by code_simp
  then have "extract_client_ip demo_urls demo_auth_env (Some ''10.0.0.0/8, 9.9.9.9'') [''do-connecting-ip'' \<mapsto> '' 9.9.9.9'']
      (V4 (Ipv4 10 1 2 3)) \<noteq> normalize_ip (V4 (Ipv4 10 1 2 3))" by code_simp
  from forwarded_address_needs_a_proxy [OF this] shown show ?thesis by auto
qed

end
