(* ===== verification/Access_Tokens.thy ===== *)
theory Access_Tokens
  imports Sessions Client_Ip
begin

text \<open>
  Access tokens (\<open>src/server-rs/src/services/crypto.rs\<close>): what their claims say, issuing, verifying
  and revoking them. Signing and decoding is \<open>jsonwebtoken\<close>'s (\<open>jwt_encode\<close>, \<open>jwt_decode\<close>); what the
  theorems need of it is \<open>jwt_law\<close>. The unique id of a token is the argument \<open>jti\<close>, times are
  seconds.
\<close>

section \<open>Parameters\<close>

record claims =
  cl_user_id :: string
  cl_iss :: string
  cl_aud :: "string option"
  cl_typ :: "string option"
  cl_jti :: string
  cl_exp :: int
  cl_iat :: int
  cl_sid :: "int option"
  cl_home_peer_id :: "string option"
  cl_remote_user_id :: "string option"
  cl_server_ids :: "string list option"

record jwt_validation =
  jv_issuers :: "string list"
  jv_validate_exp :: bool
  jv_validate_aud :: bool

record web_env = host_env +
  jwt_encode :: "string \<Rightarrow> claims \<Rightarrow> string option"
  jwt_decode :: "string \<Rightarrow> jwt_validation \<Rightarrow> int \<Rightarrow> string \<Rightarrow> claims option"
  jwt_secret :: string
  trusted_proxies_var :: "string option"
  email_verification_required :: bool

definition default_validation :: jwt_validation where
  "default_validation = \<lparr>jv_issuers = [], jv_validate_exp = True, jv_validate_aud = True\<rparr>"

text \<open>
  What an encoded token decodes to: its claims, if the issuer is one of the expected, the time has
  not passed its expiry, and it has no audience or audiences are not looked at.
\<close>

definition jwt_law :: "'a web_env_scheme \<Rightarrow> bool" where
  "jwt_law env \<longleftrightarrow>
     (\<forall>secret c token v now. jwt_encode env secret c = Some token \<and> (jv_issuers v = [] \<or> cl_iss c \<in> set (jv_issuers v)) \<and>
        (jv_validate_exp v \<longrightarrow> now \<le> cl_exp c) \<and> (jv_validate_aud v \<longrightarrow> cl_aud c = None)
        \<longrightarrow> jwt_decode env secret v now token = Some c)"

section \<open>Issuing\<close>

definition generate_access_token_with_ttl ::
  "'a web_env_scheme \<Rightarrow> int \<Rightarrow> string \<Rightarrow> int \<Rightarrow> int option \<Rightarrow> int \<Rightarrow> string app_result" where
  "generate_access_token_with_ttl env now_secs jti user_id session_id ttl_secs =
     ok_or (jwt_encode env (jwt_secret env)
       \<lparr>cl_user_id = int_str user_id, cl_iss = ''verdant'', cl_aud = None, cl_typ = None, cl_jti = jti,
        cl_exp = now_secs + ttl_secs, cl_iat = now_secs, cl_sid = session_id, cl_home_peer_id = None,
        cl_remote_user_id = None, cl_server_ids = None\<rparr>) Internal"

definition generate_access_token :: "'a web_env_scheme \<Rightarrow> int \<Rightarrow> string \<Rightarrow> int \<Rightarrow> int option \<Rightarrow> string app_result" where
  "generate_access_token env now_secs jti user_id session_id =
     generate_access_token_with_ttl env now_secs jti user_id session_id (15 * 60)"

definition token_char :: "char \<Rightarrow> bool" where
  "token_char c \<longleftrightarrow> ascii_alnum c \<or> c \<in> {CHR ''.'', CHR ''-'', CHR ''_'', CHR '':''}"

definition valid_token_peer_id :: "string \<Rightarrow> bool" where
  "valid_token_peer_id value \<longleftrightarrow> value \<noteq> [] \<and> length value \<le> 253 \<and> list_all token_char value"

definition valid_token_remote_user_id :: "string \<Rightarrow> bool" where
  "valid_token_remote_user_id value \<longleftrightarrow> value \<noteq> [] \<and> length value \<le> 256 \<and> list_all token_char value"

definition generate_federated_client_access_token ::
  "'a web_env_scheme \<Rightarrow> int \<Rightarrow> string \<Rightarrow> int \<Rightarrow> string \<Rightarrow> string \<Rightarrow> string \<Rightarrow> int list \<Rightarrow> int \<Rightarrow> string app_result" where
  "generate_federated_client_access_token env now_secs jti local_user_id audience_instance_id home_peer_id remote_user_id
     server_ids ttl_secs =
     (if local_user_id \<le> 0 \<or> \<not> valid_token_peer_id audience_instance_id \<or> \<not> valid_token_peer_id home_peer_id
        \<or> \<not> valid_token_remote_user_id remote_user_id \<or> server_ids = [] \<or> 64 < length server_ids
        \<or> list_ex (\<lambda>server_id. server_id \<le> 0) server_ids
      then Inl Internal
      else ok_or (jwt_encode env (jwt_secret env)
        \<lparr>cl_user_id = int_str local_user_id, cl_iss = ''verdant'', cl_aud = Some audience_instance_id,
         cl_typ = Some ''federated_client'', cl_jti = jti, cl_exp = now_secs + ttl_secs, cl_iat = now_secs,
         cl_sid = None, cl_home_peer_id = Some home_peer_id, cl_remote_user_id = Some remote_user_id,
         cl_server_ids = Some (map int_str server_ids)\<rparr>) Internal)"

section \<open>Verifying\<close>

datatype verified_token_kind = UserSession | FederatedClient string string "int list"

record verified_token =
  vt_user_id :: int
  vt_jti :: "string option"
  vt_session_id :: "int option"
  vt_kind :: verified_token_kind

definition decode_access_token :: "'a web_env_scheme \<Rightarrow> int \<Rightarrow> string \<Rightarrow> int option" where
  "decode_access_token env now_secs token =
     Option.bind (jwt_decode env (jwt_secret env) (default_validation\<lparr>jv_issuers := [''verdant'']\<rparr>) now_secs token)
       (\<lambda>c. parse_i64 (cl_user_id c))"

fun collect_results :: "('e + 'a) list \<Rightarrow> 'e + 'a list" where
  "collect_results [] = Inr []"
| "collect_results (r # rs) = bind_result r (\<lambda>x. bind_result (collect_results rs) (\<lambda>xs. Inr (x # xs)))"

definition verified_token_kind_of :: "claims \<Rightarrow> string option \<Rightarrow> verified_token_kind app_result" where
  "verified_token_kind_of claims audience_instance_id =
     (if cl_typ claims = None \<or> cl_typ claims = Some [] then
        if cl_aud claims \<noteq> None \<or> cl_home_peer_id claims \<noteq> None \<or> cl_remote_user_id claims \<noteq> None
          \<or> cl_server_ids claims \<noteq> None
        then Inl TokenInvalid
        else Inr UserSession
      else if cl_typ claims = Some ''federated_client'' then
        bind_result (ok_or audience_instance_id TokenInvalid) (\<lambda>expected_audience.
        bind_result (guard (\<not> (cl_aud claims \<noteq> Some expected_audience \<or> cl_sid claims \<noteq> None)) TokenInvalid) (\<lambda>_.
        bind_result (ok_or (opt_filter valid_token_peer_id (cl_home_peer_id claims)) TokenInvalid) (\<lambda>home_peer_id.
        bind_result (ok_or (opt_filter valid_token_remote_user_id (cl_remote_user_id claims)) TokenInvalid) (\<lambda>remote_user_id.
        bind_result (ok_or (opt_filter (\<lambda>values. values \<noteq> [] \<and> length values \<le> 64) (cl_server_ids claims)) TokenInvalid) (\<lambda>values.
        bind_result (collect_results (map (\<lambda>value.
          ok_or (opt_filter (\<lambda>server_id. 0 < server_id) (parse_i64 value)) TokenInvalid) values)) (\<lambda>server_ids.
        Inr (FederatedClient home_peer_id remote_user_id server_ids)))))))
      else Inl TokenInvalid)"

definition blacklist_key :: "string \<Rightarrow> string" where
  "blacklist_key jti = ''blacklist:'' @ jti"

text \<open>The blacklist test: an entry, and no answer, both mean revoked.\<close>

definition require_not_blacklisted :: "string \<Rightarrow> (app_error, unit) host_step" where
  "require_not_blacklisted jti s =
     (case redis_exists (blacklist_key jti) s of
        (Inr False, s') \<Rightarrow> (Inr (), s')
      | (_, s') \<Rightarrow> (Inl TokenRevoked, s'))"

definition verify_access_token_for_instance ::
  "'a web_env_scheme \<Rightarrow> int \<Rightarrow> string \<Rightarrow> string option \<Rightarrow> (app_error, verified_token) host_step" where
  "verify_access_token_for_instance env now_secs token audience_instance_id =
     st_bind (st_lift (ok_or (jwt_decode env (jwt_secret env)
       \<lparr>jv_issuers = [''verdant''], jv_validate_exp = True, jv_validate_aud = False\<rparr> now_secs token) TokenInvalid)) (\<lambda>claims.
     st_bind (st_lift (ok_or (parse_i64 (cl_user_id claims)) TokenInvalid)) (\<lambda>user_id.
     st_bind (st_lift (verified_token_kind_of claims audience_instance_id)) (\<lambda>kind.
     st_bind (st_lift (guard (cl_jti claims \<noteq> []) TokenInvalid)) (\<lambda>_.
     st_bind (require_not_blacklisted (cl_jti claims)) (\<lambda>_.
     st_return \<lparr>vt_user_id = user_id, vt_jti = Some (cl_jti claims), vt_session_id = cl_sid claims, vt_kind = kind\<rparr>)))))"

definition verify_access_token :: "'a web_env_scheme \<Rightarrow> int \<Rightarrow> string \<Rightarrow> (app_error, verified_token) host_step" where
  "verify_access_token env now_secs token = verify_access_token_for_instance env now_secs token None"

definition blacklist_access_token :: "'a web_env_scheme \<Rightarrow> int \<Rightarrow> string \<Rightarrow> host \<Rightarrow> host" where
  "blacklist_access_token env now_secs token s =
     (case jwt_decode env (jwt_secret env)
        \<lparr>jv_issuers = [''verdant''], jv_validate_exp = False, jv_validate_aud = True\<rparr> now_secs token of
        None \<Rightarrow> s
      | Some claims \<Rightarrow>
          if cl_jti claims = [] then s
          else let ttl = cl_exp claims - now_secs
               in if ttl \<le> 0 then s
                  else ignoring_errors (redis_set_ex (blacklist_key (cl_jti claims)) ''1'' ttl) s)"

section \<open>Round trip and revocation\<close>

lemma ok_or_simps: "ok_or (Some v) e = Inr v" "ok_or None e = Inl e"
  by (simp_all add: ok_or_def)

lemma collect_parsed:
  assumes "\<And>i. i \<in> set is \<Longrightarrow> 0 < i \<and> i \<le> i64_max"
  shows "collect_results (map (\<lambda>value. ok_or (opt_filter (\<lambda>i. 0 < i) (parse_i64 value)) e) (map int_str is)) = Inr is"
  using assms
proof (induction "is")
  case (Cons a "is")
  from Cons.prems [of a] have "parse_i64 (int_str a) = Some a" "0 < a"
    by (simp_all add: parse_i64_str i64_min_def)
  with Cons show ?case by (simp add: ok_or_def opt_filter_def)
qed simp

lemma issued_federated_token_verifies:
  assumes law: "jwt_law env"
    and issued: "generate_federated_client_access_token env now jti user aud peer ruser sids ttl = Inr token"
    and range: "user \<le> i64_max" "\<forall>i\<in>set sids. i \<le> i64_max" and jti: "jti \<noteq> []"
    and live: "later \<le> now + ttl"
    and listed: "require_not_blacklisted jti s = (r, s')"
  shows "verify_access_token_for_instance env later token inst s =
    (if inst = Some aud then (case r of Inl e \<Rightarrow> (Inl e, s')
       | Inr _ \<Rightarrow> (Inr \<lparr>vt_user_id = user, vt_jti = Some jti, vt_session_id = None, vt_kind = FederatedClient peer ruser sids\<rparr>, s'))
     else (Inl TokenInvalid, s))"
proof -
  define c where "c = \<lparr>cl_user_id = int_str user, cl_iss = ''verdant'', cl_aud = Some aud,
         cl_typ = Some ''federated_client'', cl_jti = jti, cl_exp = now + ttl, cl_iat = now,
         cl_sid = None, cl_home_peer_id = Some peer, cl_remote_user_id = Some ruser,
         cl_server_ids = Some (map int_str sids)\<rparr>"
  from issued have ok: "0 < user" "valid_token_peer_id aud" "valid_token_peer_id peer" "valid_token_remote_user_id ruser"
      "sids \<noteq> []" "length sids \<le> 64" "\<And>i. i \<in> set sids \<Longrightarrow> 0 < i"
      and enc: "jwt_encode env (jwt_secret env) c = Some token"
    by (auto simp: generate_federated_client_access_token_def c_def list_ex_iff ok_or_def split: if_splits option.splits)
  have dec: "jwt_decode env (jwt_secret env) \<lparr>jv_issuers = [''verdant''], jv_validate_exp = True, jv_validate_aud = False\<rparr> later token = Some c"
    using law enc live unfolding jwt_law_def by (auto simp: c_def)
  have user: "parse_i64 (int_str user) = Some user" using ok(1) range(1) by (simp add: parse_i64_str i64_min_def)
  have kind: "verified_token_kind_of c inst = (if inst = Some aud then Inr (FederatedClient peer ruser sids) else Inl TokenInvalid)"
  proof -
    have coll: "collect_results (map (\<lambda>value. ok_or (opt_filter (\<lambda>i. 0 < i) (parse_i64 value)) TokenInvalid) (map int_str sids)) = Inr sids"
      by (rule collect_parsed) (use ok(7) range(2) in auto)
    have filters: "opt_filter valid_token_peer_id (Some peer) = Some peer" "opt_filter valid_token_remote_user_id (Some ruser) = Some ruser"
      "opt_filter (\<lambda>values. values \<noteq> [] \<and> length values \<le> 64) (Some (map int_str sids)) = Some (map int_str sids)"
      using ok by (simp_all add: opt_filter_def)
    show ?thesis
      by (cases inst) (simp_all add: verified_token_kind_of_def c_def ok_or_simps filters coll guard_def del: map_map)
  qed
  have sel: "cl_user_id c = int_str user" "cl_jti c = jti" "cl_sid c = None" by (simp_all add: c_def)
  show ?thesis
    by (cases r) (simp_all add: verify_access_token_for_instance_def dec kind st_bind_def st_lift_def st_return_def
      sel user jti guard_def listed ok_or_simps)
qed

text \<open>What a verified token is: it decodes, its claims are of a known kind, and it is not revoked.\<close>

lemma verified_token_claims:
  assumes "verify_access_token_for_instance env now_secs token inst s = (Inr v, s')"
  obtains c where "jwt_decode env (jwt_secret env)
       \<lparr>jv_issuers = [''verdant''], jv_validate_exp = True, jv_validate_aud = False\<rparr> now_secs token = Some c"
    "parse_i64 (cl_user_id c) = Some (vt_user_id v)" "verified_token_kind_of c inst = Inr (vt_kind v)"
    "vt_session_id v = cl_sid c" "require_not_blacklisted (cl_jti c) s = (Inr (), s')"
  using assms
  by (auto simp: verify_access_token_for_instance_def result_iff)

lemma redis_value_faults [simp]: "redis_value key (s\<lparr>hs_redis_faults := x\<rparr>) = redis_value key s"
  by (simp add: redis_value_def split: option.split)

lemma require_not_blacklisted_clear:
  "require_not_blacklisted jti s = (Inr (), s') \<Longrightarrow> redis_value (blacklist_key jti) s = None"
  by (auto simp: require_not_blacklisted_def redis_exists_def redis_call_def Let_def split: if_splits prod.splits bool.splits)

lemma require_not_blacklisted_errors: "fst (require_not_blacklisted jti s) = Inl e \<Longrightarrow> e = TokenRevoked"
  by (auto simp: require_not_blacklisted_def split: sum.splits bool.splits prod.splits)

lemma blacklisted_refused:
  "redis_value (blacklist_key jti) s \<noteq> None \<Longrightarrow> fst (require_not_blacklisted jti s) = Inl TokenRevoked"
  by (auto simp: require_not_blacklisted_def redis_exists_def redis_call_def Let_def split: bool.splits)

text \<open>
  Revoking a live token puts it on the blacklist for the rest of its life. A token for an audience
  does not decode there, so revoking it has no effect.
\<close>

lemma revoked_is_listed:
  assumes "jwt_decode env (jwt_secret env)
        \<lparr>jv_issuers = [''verdant''], jv_validate_exp = False, jv_validate_aud = True\<rparr> now_secs token = Some c"
    and "cl_jti c \<noteq> []" "now_secs < cl_exp c" "hs_redis_faults s = []"
  shows "redis_value (blacklist_key (cl_jti c)) (blacklist_access_token env now_secs token s) = Some ''1''"
    and "dm_get (hs_redis_ttls (blacklist_access_token env now_secs token s)) (blacklist_key (cl_jti c)) = Some (cl_exp c - now_secs)"
  using assms
  by (simp_all add: blacklist_access_token_def ignoring_errors_def redis_set_ex_def redis_call_def redis_value_def Let_def)

definition jwt_audience_law :: "'a web_env_scheme \<Rightarrow> bool" where
  "jwt_audience_law env \<longleftrightarrow>
     (\<forall>secret c token v now. jwt_encode env secret c = Some token \<and> jv_validate_aud v \<and> cl_aud c \<noteq> None
        \<longrightarrow> jwt_decode env secret v now token = None)"

lemma audience_tokens_cannot_be_revoked:
  assumes "jwt_audience_law env" "generate_federated_client_access_token env now jti user aud peer ruser sids ttl = Inr token"
  shows "blacklist_access_token env now_secs token s = s"
proof -
  from assms(2) obtain c where "jwt_encode env (jwt_secret env) c = Some token" "cl_aud c = Some aud"
    by (auto simp: generate_federated_client_access_token_def ok_or_def split: if_splits option.splits)
  with assms(1) have "jwt_decode env (jwt_secret env)
        \<lparr>jv_issuers = [''verdant''], jv_validate_exp = False, jv_validate_aud = True\<rparr> now_secs token = None"
    unfolding jwt_audience_law_def by force
  then show ?thesis by (simp add: blacklist_access_token_def)
qed

text \<open>
  C23. A token issued for a federated client of instance \<open>aud\<close> is accepted by that instance until it
  expires or is revoked, and then as exactly the identity it was issued for; any other instance, and
  a verification that names none, refuses it.
\<close>

theorem federated_token_roundtrip:
  assumes "jwt_law env"
    and "generate_federated_client_access_token env now jti user aud peer ruser sids ttl = Inr token"
    and "user \<le> i64_max" "list_all (\<lambda>i. i \<le> i64_max) sids" "jti \<noteq> []" "later \<le> now + ttl"
    and "redis_value (blacklist_key jti) s = None" "hs_redis_faults s = []"
  shows "verify_access_token_for_instance env later token inst s =
    (if inst = Some aud
     then (Inr \<lparr>vt_user_id = user, vt_jti = Some jti, vt_session_id = None, vt_kind = FederatedClient peer ruser sids\<rparr>, s)
     else (Inl TokenInvalid, s))"
proof -
  have "require_not_blacklisted jti s = (Inr (), s)"
    using assms(7,8) by (simp add: require_not_blacklisted_def redis_exists_def redis_call_def Let_def no_faults)
  from issued_federated_token_verifies [OF assms(1,2,3) _ assms(5,6) this] assms(4)
  show ?thesis by (simp add: list_all_iff)
qed

text \<open>Tokens that are the encoded claims themselves, for a fixed set of claims.\<close>

definition demo_claims :: claims where
  "demo_claims = \<lparr>cl_user_id = ''50'', cl_iss = ''verdant'', cl_aud = Some ''b.example'', cl_typ = Some ''federated_client'',
     cl_jti = ''j'', cl_exp = 700, cl_iat = 100, cl_sid = None, cl_home_peer_id = Some ''a.example'',
     cl_remote_user_id = Some ''u1'', cl_server_ids = Some [''9'']\<rparr>"

definition demo_web_env :: web_env where
  "demo_web_env = host_env.extend demo_host_env \<lparr>
     jwt_encode = (\<lambda>secret c. if c = demo_claims then Some ''token'' else None),
     jwt_decode = (\<lambda>secret v now token.
       if token = ''token'' \<and> (jv_validate_exp v \<longrightarrow> now \<le> cl_exp demo_claims) \<and> \<not> jv_validate_aud v then Some demo_claims else None),
     jwt_secret = ''secret'', trusted_proxies_var = None, email_verification_required = True\<rparr>"

lemma federated_token_roundtrip_witness:
  "verify_access_token_for_instance demo_web_env 600 ''token'' (Some ''b.example'') demo_host =
     (Inr \<lparr>vt_user_id = 50, vt_jti = Some ''j'', vt_session_id = None, vt_kind = FederatedClient ''a.example'' ''u1'' [9]\<rparr>, demo_host)
   \<and> verify_access_token_for_instance demo_web_env 600 ''token'' (Some ''c.example'') demo_host = (Inl TokenInvalid, demo_host)"
proof -
  have law: "jwt_law demo_web_env"
    by (auto simp: jwt_law_def demo_web_env_def demo_claims_def host_env.defs split: if_splits)
  have issued: "generate_federated_client_access_token demo_web_env 100 ''j'' 50 ''b.example'' ''a.example'' ''u1'' [9] 600 = Inr ''token''"
    by code_simp
  have clear: "redis_value (blacklist_key ''j'') demo_host = None" "hs_redis_faults demo_host = []"
    by (simp_all add: redis_value_def demo_host_def dm_get_def)
  note * = federated_token_roundtrip [OF law issued _ _ _ _ clear]
  show ?thesis by (simp add: * i64_max_def)
qed

end
