(* ===== verification/Request_Auth.thy ===== *)
theory Request_Auth
  imports Access_Tokens Bot_Perms
begin

text \<open>
  Admission of a request (\<open>src/server-rs/src/middleware/auth.rs\<close>): the bans
  (\<open>services/app_bans.rs\<close>, \<open>services/pg/app_bans.rs\<close>), bot tokens (\<open>services/pg/bots.rs\<close>), access
  tokens of users and of federated clients with the routes those may use, deleted accounts and
  unverified addresses. \<open>auth_middleware\<close> returns the identity it puts into the request's
  extensions; the handler it then calls is not part of it. The touch of a bot token's last use is
  a task of its own, modelled as done.
\<close>

section \<open>Bans\<close>

text \<open>\<open>fetch_optional\<close> of an ordered query.\<close>

definition list_head :: "'a list \<Rightarrow> 'a option" where
  "list_head xs = (case xs of [] \<Rightarrow> None | x # _ \<Rightarrow> Some x)"

definition banned_error :: "string \<Rightarrow> string \<Rightarrow> app_error" where
  "banned_error code message = WithCode 403 code message"

datatype ban_status = Ban_Active | Ban_Expired | Ban_Revoked | Ban_None

definition normalize_exact_ip :: "'a url_env_scheme \<Rightarrow> string \<Rightarrow> string option" where
  "normalize_exact_ip env input =
     (let trimmed = str_trim input
      in if trimmed = [] \<or> CHR ''/'' \<in> set trimmed then None
         else map_option normalize_ip (parse_ip env trimmed))"

definition classify_ban :: "int option \<Rightarrow> int option \<Rightarrow> int \<Rightarrow> ban_status" where
  "classify_ban expires_at_ms revoked_at_ms now_ms =
     (if revoked_at_ms \<noteq> None then Ban_Revoked
      else if is_some_and expires_at_ms (\<lambda>e. e \<le> now_ms) then Ban_Expired
      else Ban_Active)"

definition active_account_ban :: "int \<Rightarrow> int \<Rightarrow> (sqlx_error, account_ban_row option) host_step" where
  "active_account_ban user_id now_ms =
     db_call (\<lambda>s. (list_head (sort_key (\<lambda>r. - ab_created_at_ms r)
       (filter (\<lambda>r. ab_user_id r = user_id \<and> ab_revoked_at_ms r = None \<and> is_none_or (ab_expires_at_ms r) (\<lambda>e. now_ms < e))
          (hs_account_bans s))), s))"

definition active_ip_ban :: "'a url_env_scheme \<Rightarrow> string \<Rightarrow> int \<Rightarrow> (sqlx_error, ip_ban_row option) host_step" where
  "active_ip_ban env ip now_ms =
     (case normalize_exact_ip env ip of
        None \<Rightarrow> st_return None
      | Some normalized \<Rightarrow>
          db_call (\<lambda>s. (list_head (sort_key (\<lambda>r. - ib_created_at_ms r)
            (filter (\<lambda>r. ib_ip r = normalized \<and> ib_revoked_at_ms r = None \<and> is_none_or (ib_expires_at_ms r) (\<lambda>e. now_ms < e))
               (hs_ip_bans s))), s)))"

definition ensure_user_not_banned :: "int \<Rightarrow> int \<Rightarrow> (app_error, unit) host_step" where
  "ensure_user_not_banned now_ms user_id =
     st_bind (or_internal (active_account_ban user_id now_ms)) (\<lambda>ban.
     st_lift (guard (ban = None) (banned_error ''ACCOUNT_BANNED'' ''This account is banned.'')))"

definition ensure_ip_not_banned :: "'a url_env_scheme \<Rightarrow> int \<Rightarrow> string \<Rightarrow> (app_error, unit) host_step" where
  "ensure_ip_not_banned env now_ms ip =
     st_bind (or_internal (active_ip_ban env ip now_ms)) (\<lambda>ban.
     st_lift (guard (ban = None) (banned_error ''IP_BANNED'' ''Access is temporarily restricted.'')))"

section \<open>Bots\<close>

definition token_by_hash :: "string \<Rightarrow> (sqlx_error, bot_token_row option) host_step" where
  "token_by_hash token_hash = db_call (\<lambda>s. (List.find (\<lambda>r. bt_token_hash r = token_hash) (hs_bot_tokens s), s))"

definition token_touch_last_used :: "int \<Rightarrow> int \<Rightarrow> (sqlx_error, unit) host_step" where
  "token_touch_last_used i now_ms =
     db_call (\<lambda>s. ((), s\<lparr>hs_bot_tokens := update_where (\<lambda>r. bt_id r = i)
       (\<lambda>r. r\<lparr>bt_last_used_at_ms := Some now_ms\<rparr>) (hs_bot_tokens s)\<rparr>))"

text \<open>The identity of a bot with what its token allows; the columns shown to people are left out.\<close>

record token_bot = bot_identity +
  bi_name :: string
  bi_avatar_url :: "string option"
  bi_scopes :: "string list"
  bi_allowed_feed_ids :: "int list"
  bi_allowed_channel_ids :: "int list"

definition authenticate_bot_token :: "'a host_env_scheme \<Rightarrow> int \<Rightarrow> string \<Rightarrow> (app_error, token_bot) host_step" where
  "authenticate_bot_token env now_ms raw_token =
     st_bind (or_internal (token_by_hash (hash_token (digests env) raw_token))) (\<lambda>token.
     case token of None \<Rightarrow> st_fail TokenInvalid | Some token \<Rightarrow>
     if bt_revoked_at_ms token \<noteq> None then st_fail TokenInvalid
     else
     st_bind (or_internal (bots_by_id (bt_bot_id token))) (\<lambda>found.
     case found of None \<Rightarrow> st_fail TokenInvalid | Some found \<Rightarrow>
     (\<lambda>s. let role_ids = (case pg_bot_role_ids (hs_pg s) (bo_id found) (bo_server_id found) of Inr ids \<Rightarrow> ids | Inl _ \<Rightarrow> []);
              identity = \<lparr>bi_bot_id = bo_id found, bi_token_id = bt_id token, bi_server_id = bo_server_id found,
                bi_role_ids = role_ids, bi_name = bo_name found, bi_avatar_url = bo_avatar_url found,
                bi_scopes = bt_scopes token, bi_allowed_feed_ids = bt_allowed_feed_ids token,
                bi_allowed_channel_ids = bt_allowed_channel_ids token\<rparr>
          in (Inr identity, ignoring_errors (token_touch_last_used (bt_id token) now_ms) s))))"

section \<open>Federated clients\<close>

record federated_client_identity =
  fi_home_peer_id :: string
  fi_remote_user_id :: string
  fi_server_ids :: "int list"

definition federated_client_identity_for_token ::
  "verified_token \<Rightarrow> (app_error, federated_client_identity option) host_step" where
  "federated_client_identity_for_token verified =
     (case vt_kind verified of
        UserSession \<Rightarrow> st_return None
      | FederatedClient home_peer_id remote_user_id server_ids \<Rightarrow>
          st_bind (or_internal (local_user_id_for_remote_principal home_peer_id remote_user_id)) (\<lambda>local_user_id.
          if local_user_id \<noteq> Some (vt_user_id verified) then st_fail TokenInvalid
          else st_return (Some \<lparr>fi_home_peer_id = home_peer_id, fi_remote_user_id = remote_user_id,
                                fi_server_ids = server_ids\<rparr>)))"

definition federated_client_allows_server_id :: "federated_client_identity option \<Rightarrow> int \<Rightarrow> bool" where
  "federated_client_allows_server_id identity server_id = is_none_or identity (\<lambda>i. server_id \<in> set (fi_server_ids i))"

definition require_federated_client_server_scope :: "federated_client_identity option \<Rightarrow> int \<Rightarrow> unit app_result" where
  "require_federated_client_server_scope identity server_id =
     (if federated_client_allows_server_id identity server_id then Inr () else Inl (NotFound ''server''))"

definition require_federated_client_channel_scope ::
  "federated_client_identity option \<Rightarrow> int option \<Rightarrow> unit app_result" where
  "require_federated_client_channel_scope identity server_id =
     (case identity of
        None \<Rightarrow> Inr ()
      | Some identity \<Rightarrow>
          (case server_id of
             None \<Rightarrow> Inl (NotFound ''channel'')
           | Some server_id \<Rightarrow>
               map_err (\<lambda>_. NotFound ''channel'') (require_federated_client_server_scope (Some identity) server_id)))"

datatype http_method = GET | POST | PUT | PATCH | DELETE | OTHER string

datatype federated_client_request_route =
  Route_ServerList | Route_Server int | Route_Channel int | Route_CurrentUser | Route_Deny

definition parse_positive_i64 :: "string \<Rightarrow> int option" where
  "parse_positive_i64 value = opt_filter (\<lambda>i. 0 < i) (parse_i64 value)"

definition route_or_deny ::
  "(int \<Rightarrow> federated_client_request_route) \<Rightarrow> string \<Rightarrow> federated_client_request_route" where
  "route_or_deny route value = (case parse_positive_i64 value of Some i \<Rightarrow> route i | None \<Rightarrow> Route_Deny)"

definition path_segments :: "string \<Rightarrow> string list" where
  "path_segments path =
     split_on CHR ''/'' (trim_end_by (\<lambda>c. c = CHR ''/'') (trim_start_by (\<lambda>c. c = CHR ''/'') path))"

definition classify_federated_client_request_route :: "http_method \<Rightarrow> string \<Rightarrow> federated_client_request_route" where
  "classify_federated_client_request_route verb path =
     (case path_segments path of
        [a, b] \<Rightarrow> if a = ''api'' \<and> b = ''servers'' \<and> verb = GET then Route_ServerList else Route_Deny
      | a # b # c # rest \<Rightarrow>
          if a = ''api'' \<and> b = ''servers'' then route_or_deny Route_Server c
          else if a = ''api'' \<and> b = ''channels'' then route_or_deny Route_Channel c
          else if a = ''api'' \<and> b = ''users'' \<and> c = ''me'' \<and> verb = GET \<and> rest = [] then Route_CurrentUser
          else Route_Deny
      | _ \<Rightarrow> Route_Deny)"

definition require_federated_client_request_scope ::
  "federated_client_identity \<Rightarrow> http_method \<Rightarrow> string \<Rightarrow> (app_error, unit) host_step" where
  "require_federated_client_request_scope identity verb path =
     (case classify_federated_client_request_route verb path of
        Route_ServerList \<Rightarrow> st_return ()
      | Route_CurrentUser \<Rightarrow> st_return ()
      | Route_Server server_id \<Rightarrow> st_lift (require_federated_client_server_scope (Some identity) server_id)
      | Route_Channel channel_id \<Rightarrow>
          st_bind (ask_pg (\<lambda>db. pg_channel_by_id db channel_id)) (\<lambda>channel.
          st_lift (require_federated_client_channel_scope (Some identity) (Option.bind channel ch_server_id)))
      | Route_Deny \<Rightarrow> st_fail Forbidden)"

section \<open>The middleware\<close>

definition unverified_access_allowed :: "http_method \<Rightarrow> string \<Rightarrow> bool" where
  "unverified_access_allowed verb path \<longleftrightarrow>
     verb = GET \<and> path = ''/api/users/me''
   \<or> verb = POST \<and> path = ''/api/users/me/resend-verification''
   \<or> verb = POST \<and> path = ''/api/users/me/delete''"

definition email_verified_by_id :: "int \<Rightarrow> (sqlx_error, bool option) host_step" where
  "email_verified_by_id i =
     db_call (\<lambda>s. (map_option us_email_verified (List.find (\<lambda>u. us_id u = i) (fd_users s)), s))"

record request_identity =
  ri_user_id :: int
  ri_session_id :: "int option"
  ri_bot :: "token_bot option"
  ri_federated_client :: "federated_client_identity option"

definition session_expired :: app_error where
  "session_expired = WithCode 401 ''AUTH_TOKEN_INVALID'' ''Your session has expired. Please sign in again.''"

definition email_verification_required_error :: app_error where
  "email_verification_required_error =
     WithCode 403 ''EMAIL_VERIFICATION_REQUIRED'' ''Please verify your email address to continue.''"

definition is_deleted_vdb :: "'a host_env_scheme \<Rightarrow> int \<Rightarrow> (app_error, bool) host_step" where
  "is_deleted_vdb env user_id s =
     (case profile_is_deleted (cdn_base env) (instant_ms env) user_id s of (d, s') \<Rightarrow> (Inr d, s'))"

definition authenticate_user ::
  "'a web_env_scheme \<Rightarrow> int \<Rightarrow> http_method \<Rightarrow> string \<Rightarrow> string \<Rightarrow> (app_error, request_identity) host_step" where
  "authenticate_user env now_ms verb path token =
     st_bind (verify_access_token_for_instance env (now_ms div 1000) token (Some (instance_id env))) (\<lambda>verified.
     st_bind (federated_client_identity_for_token verified) (\<lambda>client.
     st_bind (case client of None \<Rightarrow> st_return ()
              | Some identity \<Rightarrow> require_federated_client_request_scope identity verb path) (\<lambda>_.
     st_bind (is_deleted_vdb env (vt_user_id verified)) (\<lambda>is_deleted.
     st_bind (st_lift (guard (\<not> is_deleted) session_expired)) (\<lambda>_.
     st_bind (ensure_user_not_banned now_ms (vt_user_id verified)) (\<lambda>_.
     st_bind (if vt_kind verified = UserSession \<and> email_verification_required env \<and> \<not> unverified_access_allowed verb path
              then st_bind (or_internal (email_verified_by_id (vt_user_id verified))) (\<lambda>email_verified.
                   st_lift (guard (email_verified = Some True) email_verification_required_error))
              else st_return ()) (\<lambda>_.
     st_return \<lparr>ri_user_id = vt_user_id verified, ri_session_id = vt_session_id verified, ri_bot = None,
                ri_federated_client = client\<rparr>)))))))"

definition authenticate_request ::
  "'a web_env_scheme \<Rightarrow> int \<Rightarrow> http_method \<Rightarrow> string \<Rightarrow> string \<Rightarrow> (app_error, request_identity) host_step" where
  "authenticate_request env now_ms verb path auth_header =
     (case strip_prefix ''Bot '' auth_header of
        Some raw_token \<Rightarrow>
          st_bind (authenticate_bot_token env now_ms raw_token) (\<lambda>identity.
          st_return \<lparr>ri_user_id = bi_bot_id identity, ri_session_id = None, ri_bot = Some identity,
                     ri_federated_client = None\<rparr>)
      | None \<Rightarrow>
          (case strip_prefix ''Bearer '' auth_header of
             Some token \<Rightarrow> authenticate_user env now_ms verb path token
           | None \<Rightarrow> st_fail TokenRequired))"

definition auth_middleware ::
  "'a web_env_scheme \<Rightarrow> int \<Rightarrow> ip_addr option \<Rightarrow> headers \<Rightarrow> http_method \<Rightarrow> string
    \<Rightarrow> (app_error, request_identity) host_step" where
  "auth_middleware env now_ms connect headers verb path =
     st_bind (case connect of
        None \<Rightarrow> st_return ()
      | Some peer \<Rightarrow>
          ensure_ip_not_banned env now_ms (extract_client_ip env (digests env) (trusted_proxies_var env) headers peer)) (\<lambda>_.
     case Option.bind (headers ''authorization'') (header_to_str (digests env)) of
       None \<Rightarrow> st_fail TokenRequired
     | Some auth_header \<Rightarrow> authenticate_request env now_ms verb path auth_header)"

section \<open>What admission checks\<close>

definition account_banned :: "int \<Rightarrow> int \<Rightarrow> host \<Rightarrow> bool" where
  "account_banned now_ms user_id s \<longleftrightarrow>
     list_ex (\<lambda>r. ab_user_id r = user_id \<and> classify_ban (ab_expires_at_ms r) (ab_revoked_at_ms r) now_ms = Ban_Active)
       (hs_account_bans s)"

definition ip_banned :: "'a url_env_scheme \<Rightarrow> int \<Rightarrow> string \<Rightarrow> host \<Rightarrow> bool" where
  "ip_banned env now_ms ip s \<longleftrightarrow>
     list_ex (\<lambda>r. Some (ib_ip r) = normalize_exact_ip env ip \<and>
       classify_ban (ib_expires_at_ms r) (ib_revoked_at_ms r) now_ms = Ban_Active) (hs_ip_bans s)"

lemma list_head_None: "list_head xs = None \<longleftrightarrow> xs = []"
  by (auto simp: list_head_def split: list.splits)

lemma classify_active:
  "classify_ban e r now_ms = Ban_Active \<longleftrightarrow> r = None \<and> is_none_or e (\<lambda>t. now_ms < t)"
  by (cases e) (auto simp: classify_ban_def)

lemma list_head_sorted: "list_head (sort_key f (filter P xs)) = None \<longleftrightarrow> \<not> list_ex P xs"
  by (auto simp: list_head_None list_ex_iff filter_empty_conv dest: arg_cong [where f = set])

text \<open>The queries find a ban exactly when \<open>classify_ban\<close> calls one active; a failed read bans.\<close>

lemma user_not_banned:
  "ensure_user_not_banned now_ms u s = (Inr x, s') \<Longrightarrow> \<not> account_banned now_ms u s"
  by (auto simp: ensure_user_not_banned_def active_account_ban_def or_internal_def result_iff
      list_head_sorted account_banned_def classify_active)

lemma ip_not_banned:
  "ensure_ip_not_banned env now_ms ip s = (Inr x, s') \<Longrightarrow> \<not> ip_banned env now_ms ip s"
  by (auto simp: ensure_ip_not_banned_def active_ip_ban_def or_internal_def result_iff
      list_head_sorted ip_banned_def classify_active list_ex_iff split: option.splits)

section \<open>Frames\<close>

definition gate :: "host \<Rightarrow> account_ban_row list \<times> ip_ban_row list \<times> user_row list \<times> principal_row list \<times> pg_db
    \<times> bot_row list \<times> (string, string) dmap \<times> (string, i64_bits \<times> u64 option) dmap" where
  "gate s = (hs_account_bans s, hs_ip_bans s, fd_users s, fd_principals s, hs_pg s, pf_bots s, hs_redis_keys s, hs_redis_counters s)"

interpretation gate: read_frame gate
  by unfold_locales (simp_all add: gate_def)

definition gate_and_tokens :: "host \<Rightarrow> _ \<times> bot_token_row list \<times> _" where
  "gate_and_tokens s = (gate s, hs_bot_tokens s, pf_entries s)"

interpretation gate_and_tokens: read_frame gate_and_tokens
  by unfold_locales (simp_all add: gate_and_tokens_def gate_def)

lemma bans_leave:
  "leaves gate_and_tokens (ensure_user_not_banned now_ms u)" "leaves gate_and_tokens (ensure_ip_not_banned env now_ms ip)"
  unfolding ensure_user_not_banned_def ensure_ip_not_banned_def active_account_ban_def active_ip_ban_def
  by (intro leaves_intro gate_and_tokens.db_call; simp)+

lemma require_not_blacklisted_leaves:
  "leaves gate_and_tokens (require_not_blacklisted jti)"
proof -
  have l: "leaves gate_and_tokens (redis_exists (blacklist_key jti))" by (rule gate_and_tokens.reads)
  show ?thesis
    unfolding leaves_def require_not_blacklisted_def
    by (auto split: prod.splits sum.splits bool.splits dest: leavesD [OF l])
qed

lemma verify_leaves: "leaves gate_and_tokens (verify_access_token_for_instance env now token inst)"
  unfolding verify_access_token_for_instance_def by (intro leaves_intro require_not_blacklisted_leaves)

lemma client_identity_leaves: "leaves gate_and_tokens (federated_client_identity_for_token v)"
  unfolding federated_client_identity_for_token_def
  by (cases "vt_kind v") (auto intro!: leaves_intro gate_and_tokens.reads)

lemma request_scope_leaves: "leaves gate_and_tokens (require_federated_client_request_scope i verb path)"
  unfolding require_federated_client_request_scope_def
  by (cases "classify_federated_client_request_route verb path") (auto intro!: leaves_intro)

lemma gate_of: "gate_and_tokens s' = gate_and_tokens s \<Longrightarrow> gate s' = gate s"
  by (simp add: gate_and_tokens_def)


lemma redis_value_gate: "gate s' = gate s \<Longrightarrow> redis_value key s' = redis_value key s"
  by (auto simp: gate_def redis_value_def split: option.split)

section \<open>Admitted users\<close>

text \<open>What a client of another instance may ask for.\<close>

definition client_may_ask :: "pg_db \<Rightarrow> federated_client_identity \<Rightarrow> http_method \<Rightarrow> string \<Rightarrow> bool" where
  "client_may_ask db i verb path =
     (case classify_federated_client_request_route verb path of
        Route_ServerList \<Rightarrow> True
      | Route_CurrentUser \<Rightarrow> True
      | Route_Server server_id \<Rightarrow> server_id \<in> set (fi_server_ids i)
      | Route_Channel channel_id \<Rightarrow>
          (\<exists>c server_id. pg_channel_by_id db channel_id = Inr (Some c) \<and> ch_server_id c = Some server_id \<and>
             server_id \<in> set (fi_server_ids i))
      | Route_Deny \<Rightarrow> False)"

lemma server_scope_iff [result_iff]:
  "require_federated_client_server_scope (Some i) server_id = Inr x \<longleftrightarrow> server_id \<in> set (fi_server_ids i)"
  by (simp add: require_federated_client_server_scope_def federated_client_allows_server_id_def)

lemma channel_scope_iff [result_iff]:
  "require_federated_client_channel_scope (Some i) server_id = Inr x \<longleftrightarrow>
     (\<exists>sid. server_id = Some sid \<and> sid \<in> set (fi_server_ids i))"
  by (cases server_id) (auto simp: require_federated_client_channel_scope_def result_iff)

lemma request_scope_Inr:
  assumes "require_federated_client_request_scope i verb path s = (Inr x, s')"
  shows "client_may_ask (hs_pg s) i verb path"
proof (cases "classify_federated_client_request_route verb path")
  case (Route_Channel channel_id)
  with assms obtain channel sid where c: "pg_channel_by_id (hs_pg s) channel_id = Inr channel"
      "Option.bind channel ch_server_id = Some sid" "sid \<in> set (fi_server_ids i)"
    by (auto simp: require_federated_client_request_scope_def result_iff ask_pg_def)
  with Route_Channel show ?thesis by (cases channel) (auto simp: client_may_ask_def)
qed (use assms in \<open>auto simp: require_federated_client_request_scope_def client_may_ask_def result_iff\<close>)

definition principal_maps_to :: "string \<Rightarrow> string \<Rightarrow> int \<Rightarrow> host \<Rightarrow> bool" where
  "principal_maps_to peer remote user_id s \<longleftrightarrow>
     Option.bind (List.find (\<lambda>r. pr_home_peer_id r = peer \<and> pr_remote_user_id r = remote \<and> pr_status r = ''active'')
       (fd_principals s)) pr_local_user_id = Some user_id"

lemma client_identity_Inr:
  assumes "federated_client_identity_for_token v s = (Inr client, s')"
  shows "case vt_kind v of UserSession \<Rightarrow> client = None
    | FederatedClient peer remote ids \<Rightarrow>
        client = Some \<lparr>fi_home_peer_id = peer, fi_remote_user_id = remote, fi_server_ids = ids\<rparr> \<and>
        principal_maps_to peer remote (vt_user_id v) s"
  using assms
  by (auto simp: federated_client_identity_for_token_def principal_maps_to_def or_internal_def result_iff
      local_user_id_for_remote_principal_def
      split: verified_token_kind.splits if_splits)

lemma is_deleted_Inr:
  assumes "is_deleted_vdb env u s = (Inr d, s')"
  shows "d \<longleftrightarrow> fst (profile_is_deleted (cdn_base env) (instant_ms env) u s)"
  using assms by (auto simp: is_deleted_vdb_def split: prod.splits)


lemma is_deleted_gate: "is_deleted_vdb env u s = (Inr d, s') \<Longrightarrow> gate s' = gate s"
proof -
  assume run: "is_deleted_vdb env u s = (Inr d, s')"
  have u: "leaves gate (users_by_id i)" "leaves gate (bots_by_id i)" for i by (rule gate.reads)+
  have f: "gate (snd (fetch_entry now i (t :: host))) = gate t" for now i t
    by (auto simp: fetch_entry_def split: prod.splits sum.splits option.splits dest!: leavesD [OF u(1)] leavesD [OF u(2)])
  have g: "gate (snd (get_or_fetch cdn now i (t :: host))) = gate t" for cdn now i t
    using f [of now i t]
    by (auto simp: get_or_fetch_def gate_def Let_def split: prod.splits option.splits)
  show "gate s' = gate s"
    using run g [of "cdn_base env" "instant_ms env" u s]
    by (auto simp: is_deleted_vdb_def profile_is_deleted_def split: prod.splits option.splits)
qed

lemma authenticate_user_Inr:
  assumes "authenticate_user env now_ms verb path token s = (Inr i, s')"
  obtains v s1 s2 s3 where
    "verify_access_token_for_instance env (now_ms div 1000) token (Some (instance_id env)) s = (Inr v, s1)"
    "i = \<lparr>ri_user_id = vt_user_id v, ri_session_id = vt_session_id v, ri_bot = None, ri_federated_client = ri_federated_client i\<rparr>"
    "federated_client_identity_for_token v s1 = (Inr (ri_federated_client i), s2)"
    "\<And>c. ri_federated_client i = Some c \<Longrightarrow> client_may_ask (hs_pg s) c verb path"
    "gate s1 = gate s" "gate s3 = gate s" "pf_entries s3 = pf_entries s"
    "\<not> fst (profile_is_deleted (cdn_base env) (instant_ms env) (vt_user_id v) s3)"
    "\<not> account_banned now_ms (vt_user_id v) s"
    "vt_kind v = UserSession \<Longrightarrow> email_verification_required env \<Longrightarrow> \<not> unverified_access_allowed verb path \<Longrightarrow>
       map_option us_email_verified (List.find (\<lambda>u. us_id u = vt_user_id v) (fd_users s)) = Some True"
proof -
  from assms obtain v s1 client s2 u s3 s4 w s5 x s6 where run:
    "verify_access_token_for_instance env (now_ms div 1000) token (Some (instance_id env)) s = (Inr v, s1)"
    "federated_client_identity_for_token v s1 = (Inr client, s2)"
    "(case client of None \<Rightarrow> st_return () | Some c \<Rightarrow> require_federated_client_request_scope c verb path) s2 = (Inr u, s3)"
    "is_deleted_vdb env (vt_user_id v) s3 = (Inr False, s4)"
    "ensure_user_not_banned now_ms (vt_user_id v) s4 = (Inr w, s5)"
    "(if vt_kind v = UserSession \<and> email_verification_required env \<and> \<not> unverified_access_allowed verb path
      then st_bind (or_internal (email_verified_by_id (vt_user_id v))) (\<lambda>email_verified.
           st_lift (guard (email_verified = Some True) email_verification_required_error))
      else st_return ()) s5 = (Inr x, s6)"
    "i = \<lparr>ri_user_id = vt_user_id v, ri_session_id = vt_session_id v, ri_bot = None, ri_federated_client = client\<rparr>"
    by (auto simp: authenticate_user_def result_iff)
  have g1: "gate_and_tokens s1 = gate_and_tokens s" by (rule leavesD [OF verify_leaves run(1)])
  have g2: "gate_and_tokens s2 = gate_and_tokens s" using leavesD [OF client_identity_leaves run(2)] g1 by simp
  have g3: "gate_and_tokens s3 = gate_and_tokens s"
    using run(3) g2 by (cases client) (auto simp: result_iff dest: leavesD [OF request_scope_leaves])
  have g4: "gate s4 = gate s" using is_deleted_gate [OF run(4)] gate_of [OF g3] by simp
  have g5: "gate s5 = gate s" using gate_of [OF leavesD [OF bans_leave(1) run(5)]] g4 by simp
  show ?thesis
  proof
    show "i = \<lparr>ri_user_id = vt_user_id v, ri_session_id = vt_session_id v, ri_bot = None, ri_federated_client = ri_federated_client i\<rparr>"
      "federated_client_identity_for_token v s1 = (Inr (ri_federated_client i), s2)" using run by simp_all
    show "client_may_ask (hs_pg s) c verb path" if "ri_federated_client i = Some c" for c
      using that run(3,7) request_scope_Inr [of c verb path s2 u s3] gate_of [OF g2] by (simp add: gate_def)
    show "gate s1 = gate s" "gate s3 = gate s" "pf_entries s3 = pf_entries s"
      using g1 g3 by (simp_all add: gate_and_tokens_def)
    show "\<not> fst (profile_is_deleted (cdn_base env) (instant_ms env) (vt_user_id v) s3)"
      using is_deleted_Inr [OF run(4)] by simp
    show "\<not> account_banned now_ms (vt_user_id v) s"
      using user_not_banned [OF run(5)] g4 by (simp add: account_banned_def gate_def)
    show "map_option us_email_verified (List.find (\<lambda>u. us_id u = vt_user_id v) (fd_users s)) = Some True"
      if "vt_kind v = UserSession" "email_verification_required env" "\<not> unverified_access_allowed verb path"
      using run(6) that g5
      by (auto simp: or_internal_def email_verified_by_id_def result_iff gate_def)
  qed (rule run(1))
qed

lemma strip_prefix_Some: "strip_prefix p s = Some t \<longleftrightarrow> s = p @ t"
  unfolding strip_prefix_def starts_with_def
  by (metis append_eq_conv_conj append_take_drop_id option.sel option.simps(3))

lemma middleware_Inr:
  assumes "auth_middleware env now_ms connect headers verb path s = (Inr i, s')"
  obtains header s1 where "Option.bind (headers ''authorization'') (header_to_str (digests env)) = Some header"
    "authenticate_request env now_ms verb path header s1 = (Inr i, s')" "gate_and_tokens s1 = gate_and_tokens s"
    "case connect of None \<Rightarrow> True | Some peer \<Rightarrow>
       \<not> ip_banned env now_ms (extract_client_ip env (digests env) (trusted_proxies_var env) headers peer) s"
proof -
  from assms obtain x s1 where first: "(case connect of
        None \<Rightarrow> st_return ()
      | Some peer \<Rightarrow>
          ensure_ip_not_banned env now_ms (extract_client_ip env (digests env) (trusted_proxies_var env) headers peer)) s = (Inr x, s1)"
      and second: "(case Option.bind (headers ''authorization'') (header_to_str (digests env)) of
       None \<Rightarrow> st_fail TokenRequired
     | Some auth_header \<Rightarrow> authenticate_request env now_ms verb path auth_header) s1 = (Inr i, s')"
    by (auto simp: auth_middleware_def result_iff)
  from first have "gate_and_tokens s1 = gate_and_tokens s"
    by (cases connect) (auto simp: result_iff dest: leavesD [OF bans_leave(2)])
  moreover from first have "case connect of None \<Rightarrow> True | Some peer \<Rightarrow>
       \<not> ip_banned env now_ms (extract_client_ip env (digests env) (trusted_proxies_var env) headers peer) s"
    by (cases connect) (auto dest: ip_not_banned)
  ultimately show ?thesis using second that by (auto simp: result_iff split: option.splits)
qed

text \<open>
  C9. Every request let in with a user's identity carries a token that decodes with the server's
  key, is in its time and not revoked; the user is not banned and neither is the address; and a
  client of another instance is confined to the servers its token names, while a user whose address
  is not verified reaches only the routes made for that. No failing read opens any of these gates.
\<close>

theorem admitted_users:
  assumes "auth_middleware env now_ms connect headers verb path s = (Inr i, s')" and "ri_bot i = None"
  shows "\<exists>token c kind.
    Option.bind (headers ''authorization'') (header_to_str (digests env)) = Some (''Bearer '' @ token) \<and>
    jwt_decode env (jwt_secret env) \<lparr>jv_issuers = [''verdant''], jv_validate_exp = True, jv_validate_aud = False\<rparr>
      (now_ms div 1000) token = Some c \<and>
    parse_i64 (cl_user_id c) = Some (ri_user_id i) \<and> ri_session_id i = cl_sid c \<and>
    redis_value (blacklist_key (cl_jti c)) s = None \<and>
    verified_token_kind_of c (Some (instance_id env)) = Inr kind \<and>
    (case connect of None \<Rightarrow> True | Some peer \<Rightarrow>
       \<not> ip_banned env now_ms (extract_client_ip env (digests env) (trusted_proxies_var env) headers peer) s) \<and>
    \<not> account_banned now_ms (ri_user_id i) s \<and>
    (case fresh_entry (instant_ms env) (ri_user_id i) (pf_entries s) of None \<Rightarrow> True | Some e \<Rightarrow> \<not> cu_is_deleted e) \<and>
    (case kind of
       UserSession \<Rightarrow> ri_federated_client i = None \<and>
         (email_verification_required env \<longrightarrow> unverified_access_allowed verb path \<or>
            map_option us_email_verified (List.find (\<lambda>u. us_id u = ri_user_id i) (fd_users s)) = Some True)
     | FederatedClient peer remote ids \<Rightarrow>
         (\<exists>client. ri_federated_client i = Some client \<and> fi_server_ids client = ids \<and>
            principal_maps_to peer remote (ri_user_id i) s \<and> client_may_ask (hs_pg s) client verb path))"
proof -
  obtain header s0 where h: "Option.bind (headers ''authorization'') (header_to_str (digests env)) = Some header"
    "authenticate_request env now_ms verb path header s0 = (Inr i, s')" "gate_and_tokens s0 = gate_and_tokens s"
    "case connect of None \<Rightarrow> True | Some peer \<Rightarrow>
       \<not> ip_banned env now_ms (extract_client_ip env (digests env) (trusted_proxies_var env) headers peer) s"
    by (rule middleware_Inr [OF assms(1)])
  from h(2) assms(2) obtain token where token: "header = ''Bearer '' @ token"
      and user: "authenticate_user env now_ms verb path token s0 = (Inr i, s')"
    by (auto simp: authenticate_request_def result_iff strip_prefix_Some split: option.splits)
  have g: "gate s0 = gate s" by (rule gate_of [OF h(3)])
  show ?thesis
  proof (rule authenticate_user_Inr [OF user])
    fix v s1 s2 s3
    assume v: "verify_access_token_for_instance env (now_ms div 1000) token (Some (instance_id env)) s0 = (Inr v, s1)"
      "i = \<lparr>ri_user_id = vt_user_id v, ri_session_id = vt_session_id v, ri_bot = None, ri_federated_client = ri_federated_client i\<rparr>"
      "federated_client_identity_for_token v s1 = (Inr (ri_federated_client i), s2)"
      "\<And>c. ri_federated_client i = Some c \<Longrightarrow> client_may_ask (hs_pg s0) c verb path"
      "gate s1 = gate s0" "pf_entries s3 = pf_entries s0"
      "\<not> fst (profile_is_deleted (cdn_base env) (instant_ms env) (vt_user_id v) s3)"
      "\<not> account_banned now_ms (vt_user_id v) s0"
      "vt_kind v = UserSession \<Longrightarrow> email_verification_required env \<Longrightarrow> \<not> unverified_access_allowed verb path \<Longrightarrow>
       map_option us_email_verified (List.find (\<lambda>u. us_id u = vt_user_id v) (fd_users s0)) = Some True"
    obtain c where c: "jwt_decode env (jwt_secret env)
         \<lparr>jv_issuers = [''verdant''], jv_validate_exp = True, jv_validate_aud = False\<rparr> (now_ms div 1000) token = Some c"
      "parse_i64 (cl_user_id c) = Some (vt_user_id v)" "verified_token_kind_of c (Some (instance_id env)) = Inr (vt_kind v)"
      "vt_session_id v = cl_sid c" "require_not_blacklisted (cl_jti c) s0 = (Inr (), s1)"
      by (rule verified_token_claims [OF v(1)])
    have clear: "redis_value (blacklist_key (cl_jti c)) s = None"
      using require_not_blacklisted_clear [OF c(5)] redis_value_gate [OF g] by simp
    have ids: "ri_user_id i = vt_user_id v" "ri_session_id i = cl_sid c" using v(2) c(4) by (metis request_identity.select_convs(1,2))+
    have same: "fd_users s0 = fd_users s" "hs_pg s0 = hs_pg s" "fd_principals s1 = fd_principals s"
      "account_banned now_ms u s0 = account_banned now_ms u s" for u
      using g v(5) by (simp_all add: gate_def account_banned_def)
    have deleted: "case fresh_entry (instant_ms env) (ri_user_id i) (pf_entries s) of None \<Rightarrow> True | Some e \<Rightarrow> \<not> cu_is_deleted e"
      using v(6,7) h(3) ids by (auto simp: profile_is_deleted_def gate_and_tokens_def split: option.splits)
    have kinds: "case vt_kind v of
         UserSession \<Rightarrow> ri_federated_client i = None \<and>
           (email_verification_required env \<longrightarrow> unverified_access_allowed verb path \<or>
              map_option us_email_verified (List.find (\<lambda>u. us_id u = ri_user_id i) (fd_users s)) = Some True)
       | FederatedClient peer remote ids \<Rightarrow>
           (\<exists>client. ri_federated_client i = Some client \<and> fi_server_ids client = ids \<and>
              principal_maps_to peer remote (ri_user_id i) s \<and> client_may_ask (hs_pg s) client verb path)"
    proof (cases "vt_kind v")
      case UserSession
      with client_identity_Inr [OF v(3)] v(9) ids same show ?thesis by auto
    next
      case (FederatedClient peer remote ids)
      with client_identity_Inr [OF v(3)] v(4) ids same show ?thesis by (auto simp: principal_maps_to_def)
    qed
    show ?thesis
      using h(1) h(4) token c(1-3) ids clear v(8) same(4) deleted kinds by (intro exI [of _ token] exI [of _ c] exI [of _ "vt_kind v"]) simp
  qed
qed

definition demo_headers :: headers where
  "demo_headers = [''authorization'' \<mapsto> ''Bearer token'']"

lemma admitted_users_witness:
  "\<exists>i s'. auth_middleware demo_web_env 600000 (Some (V4 (Ipv4 1 2 3 4))) demo_headers GET ''/api/servers/9'' demo_host = (Inr i, s') \<and>
     ri_user_id i = 50 \<and> \<not> account_banned 600000 50 demo_host \<and>
     \<not> ip_banned demo_web_env 600000 ''1.2.3.4'' demo_host"
proof -
  have *: "(case auth_middleware demo_web_env 600000 (Some (V4 (Ipv4 1 2 3 4))) demo_headers GET ''/api/servers/9'' demo_host of
      (r, _) \<Rightarrow> (case r of Inl e \<Rightarrow> False | Inr i \<Rightarrow> ri_user_id i = 50 \<and> ri_bot i = None))" by code_simp
  have ip: "extract_client_ip demo_web_env (digests demo_web_env) (trusted_proxies_var demo_web_env) demo_headers (V4 (Ipv4 1 2 3 4)) = ''1.2.3.4''"
    by code_simp
  from * obtain i s' where run: "auth_middleware demo_web_env 600000 (Some (V4 (Ipv4 1 2 3 4))) demo_headers GET ''/api/servers/9'' demo_host = (Inr i, s')"
    and i: "ri_user_id i = 50" "ri_bot i = None" by (auto split: sum.splits prod.splits)
  from admitted_users [OF run i(2)] i(1) ip run show ?thesis by auto
qed


section \<open>Admitted bots\<close>

lemma st_some_iff:
  "(case x of None \<Rightarrow> st_fail e | Some y \<Rightarrow> f y) s = (Inr z, s') \<longleftrightarrow> (\<exists>y. x = Some y \<and> f y s = (Inr z, s'))"
  "(if b then st_fail e else m) s = (Inr z, s') \<longleftrightarrow> \<not> b \<and> m s = (Inr z, s')"
  by (auto simp: st_fail_def split: option.split)

text \<open>
  C24. Every request let in as a bot carries a token whose hash is that of a row that is not
  revoked, and acts as the bot of that row, in the bot's own server, with the row's scopes; it has
  no session and is no client of another instance.
\<close>

theorem admitted_bots:
  assumes "auth_middleware env now_ms connect headers verb path s = (Inr i, s')" and "ri_bot i = Some b"
  shows "\<exists>raw row bot_row.
    Option.bind (headers ''authorization'') (header_to_str (digests env)) = Some (''Bot '' @ raw) \<and>
    row \<in> set (hs_bot_tokens s) \<and> bt_token_hash row = hash_token (digests env) raw \<and> bt_revoked_at_ms row = None \<and>
    bot_row \<in> set (pf_bots s) \<and> bo_id bot_row = bt_bot_id row \<and>
    bi_bot_id b = bt_bot_id row \<and> bi_token_id b = bt_id row \<and> bi_server_id b = bo_server_id bot_row \<and>
    bi_scopes b = bt_scopes row \<and> set (bi_role_ids b) \<subseteq> {br_role_id r | r. r \<in> set (db_bot_roles (hs_pg s)) \<and>
      br_bot_id r = bt_bot_id row \<and> br_server_id r = bo_server_id bot_row} \<and>
    ri_user_id i = bt_bot_id row \<and> ri_session_id i = None \<and> ri_federated_client i = None"
proof -
  obtain header s0 where h: "Option.bind (headers ''authorization'') (header_to_str (digests env)) = Some header"
    "authenticate_request env now_ms verb path header s0 = (Inr i, s')" "gate_and_tokens s0 = gate_and_tokens s"
    by (rule middleware_Inr [OF assms(1)])
  have user: "ri_bot j = None" if "authenticate_user env now_ms verb path token s0 = (Inr j, t)" for j token t
    by (rule authenticate_user_Inr [OF that]) (metis request_identity.select_convs(3))
  from h(2) obtain raw where raw: "header = ''Bot '' @ raw"
      and run: "authenticate_bot_token env now_ms raw s0 = (Inr b, s')"
      and i: "i = \<lparr>ri_user_id = bi_bot_id b, ri_session_id = None, ri_bot = Some b, ri_federated_client = None\<rparr>"
    using assms(2) user by (fastforce simp: authenticate_request_def result_iff strip_prefix_Some split: option.splits)
  from run obtain row found s1 s2 where t: "token_by_hash (hash_token (digests env) raw) s0 = (Inr (Some row), s1)"
      "bt_revoked_at_ms row = None" "bots_by_id (bt_bot_id row) s1 = (Inr (Some found), s2)"
      "bi_bot_id b = bo_id found" "bi_token_id b = bt_id row" "bi_server_id b = bo_server_id found" "bi_scopes b = bt_scopes row"
      "bi_role_ids b = (case pg_bot_role_ids (hs_pg s2) (bo_id found) (bo_server_id found) of Inr ids \<Rightarrow> ids | Inl _ \<Rightarrow> [])"
    by (auto simp: authenticate_bot_token_def or_internal_def result_iff st_some_iff Let_def)
  have g1: "gate_and_tokens s1 = gate_and_tokens s"
    using t(1) h(3) by (auto simp: token_by_hash_def result_iff gate_and_tokens_def gate_def)
  have g2: "gate s2 = gate s" using gate_of [OF g1] leavesD [OF gate.reads(2) t(3)] by simp
  have row: "row \<in> set (hs_bot_tokens s)" "bt_token_hash row = hash_token (digests env) raw"
    using t(1) h(3) by (auto simp: token_by_hash_def result_iff gate_and_tokens_def find_Some_iff in_set_conv_nth)
  have found: "found \<in> set (pf_bots s)" "bo_id found = bt_bot_id row"
    using t(3) g1 by (auto simp: bots_by_id_def result_iff gate_and_tokens_def gate_def find_Some_iff in_set_conv_nth)
  have roles: "set (bi_role_ids b) \<subseteq> {br_role_id r | r. r \<in> set (db_bot_roles (hs_pg s)) \<and>
      br_bot_id r = bt_bot_id row \<and> br_server_id r = bo_server_id found}"
    using t(8) g2 found(2) by (auto simp: pg_bot_role_ids_def gate_def pg_ask_def split: if_splits)
  show ?thesis
    using h(1) raw row t(2,4-7) found roles i
    by (intro exI [of _ raw] exI [of _ row] exI [of _ found]) simp
qed

definition demo_bot_host :: host where
  "demo_bot_host = demo_host\<lparr>pf_bots := [\<lparr>bo_id = 77, bo_server_id = 9, bo_name = ''b'', bo_avatar_url = None\<rparr>],
     hs_bot_tokens := [\<lparr>bt_id = 5, bt_bot_id = 77, bt_token_hash = hash_token (digests demo_web_env) ''x'', bt_scopes = [''read''],
       bt_allowed_feed_ids = [], bt_allowed_channel_ids = [], bt_revoked_at_ms = None, bt_last_used_at_ms = None\<rparr>]\<rparr>"

lemma admitted_bots_witness:
  "\<exists>i s' row. auth_middleware demo_web_env 600000 None [''authorization'' \<mapsto> ''Bot x''] GET ''/api/servers/9'' demo_bot_host = (Inr i, s') \<and>
     ri_user_id i = 77 \<and> row \<in> set (hs_bot_tokens demo_bot_host) \<and> bt_bot_id row = 77"
proof -
  have *: "(case auth_middleware demo_web_env 600000 None [''authorization'' \<mapsto> ''Bot x''] GET ''/api/servers/9'' demo_bot_host of
      (r, _) \<Rightarrow> (case r of Inl e \<Rightarrow> False | Inr i \<Rightarrow> ri_user_id i = 77 \<and> ri_bot i \<noteq> None))" by code_simp
  then obtain i s' b where run: "auth_middleware demo_web_env 600000 None [''authorization'' \<mapsto> ''Bot x''] GET ''/api/servers/9'' demo_bot_host = (Inr i, s')"
    and i: "ri_user_id i = 77" "ri_bot i = Some b" by (auto split: sum.splits prod.splits)
  from admitted_bots [OF run i(2)] i(1) run show ?thesis by auto
qed

section \<open>Deleted accounts\<close>

text \<open>A first request of a deleted account is refused while the tables answer.\<close>

lemma deleted_accounts_are_refused:
  assumes "fd_faults s = []" "fresh_entry (instant_ms env) u (pf_entries s) = None"
    "List.find (\<lambda>r. us_id r = u) (fd_users s) = Some row" "us_deleted_at_ms row \<noteq> None"
  shows "fst (is_deleted_vdb env u s) = Inr True"
  using assms
  by (simp add: is_deleted_vdb_def profile_is_deleted_def get_or_fetch_def fetch_entry_def users_by_id_def db_call_def
      Let_def entry_of_user_def)

text \<open>
  The check trusts a profile for five minutes, and takes a failed read for an account that is not
  deleted, which it then trusts as long.
\<close>

definition demo_deleted_host :: host where
  "demo_deleted_host = demo_host\<lparr>fd_users := map (\<lambda>u. u\<lparr>us_deleted_at_ms := Some 1\<rparr>) (fd_users demo_host)\<rparr>"

definition demo_cached_host :: host where
  "demo_cached_host = demo_deleted_host\<lparr>pf_entries := [(50, \<lparr>cu_username = ''u1'', cu_avatar_url = None, cu_display_name = None,
     cu_is_deleted = False, cu_cached_at = - 299999\<rparr>)]\<rparr>"

lemma deleted_account_passes_while_cached:
  "case auth_middleware demo_web_env 600000 None demo_headers GET ''/api/servers/9'' demo_deleted_host of (r, _) \<Rightarrow> r = Inl session_expired"
  "case auth_middleware demo_web_env 600000 None demo_headers GET ''/api/servers/9'' demo_cached_host of (r, _) \<Rightarrow> r \<noteq> Inl session_expired \<and> is_ok r"
  by code_simp+

lemma deleted_check_fails_open:
  "case auth_middleware demo_web_env 600000 None demo_headers GET ''/api/servers/9'' (demo_deleted_host\<lparr>fd_faults := [False, True]\<rparr>) of
     (r, s') \<Rightarrow> is_ok r \<and> fst (profile_is_deleted None 299999 50 s') = False"
  by code_simp

end
