(* ===== verification/Login.thy ===== *)
theory Login
  imports Request_Auth
begin

text \<open>
  Signing in and out (\<open>src/server-rs/src/handlers/auth.rs\<close>): the password login with its lockout and
  the restoring of a deleted account, the second factor, the codes of risky sessions, refresh and
  logout, with the fingerprint of a device (\<open>services/device.rs\<close>), cookies and the login log.
  The validator crate, argon2, the geo database, TOTP and AES are parameters, as are the Unicode
  tables behind \<open>str::to_lowercase\<close>, \<open>str::to_uppercase\<close> and Postgres' \<open>lower\<close>, and the random
  values a request draws; the model is of a server without field encryption. A login that finds no
  user still hashes the password, for its time only. Of a response the cookie, the tokens and the
  user row are kept. \<open>register\<close> is not modelled.
\<close>

section \<open>Parameters\<close>

record login_env = web_env +
  geo_of :: "string \<Rightarrow> geo_result"
  verify_task :: "string \<Rightarrow> string \<Rightarrow> bool option"
  valid_email :: "string \<Rightarrow> bool"
  validation_text :: "string list \<Rightarrow> string"
  email_configured :: bool
  secure_cookies :: bool
  totp_encryption_key :: "string option"
  totp_decrypt :: "string \<Rightarrow> string \<Rightarrow> string option"
  totp_check :: "int \<Rightarrow> string \<Rightarrow> string \<Rightarrow> string \<Rightarrow> bool option"
  hmac_hash :: "string \<Rightarrow> string \<Rightarrow> string"
  str_lowercase :: "string \<Rightarrow> string"
  str_uppercase :: "string \<Rightarrow> string"
  pg_lower :: "string \<Rightarrow> string"

text \<open>What one request draws at random: a session token, a ticket, a code and the id of a token.\<close>

record login_draws =
  ld_session_token :: string
  ld_ticket :: string
  ld_code :: string
  ld_jti :: string

section \<open>Devices\<close>

fun str_contains :: "string \<Rightarrow> string \<Rightarrow> bool" where
  "str_contains s pat = (starts_with s pat \<or> (case s of [] \<Rightarrow> False | _ # rest \<Rightarrow> str_contains rest pat))"

declare str_contains.simps [simp del]

text \<open>What follows the first occurrence, and what precedes it.\<close>

fun str_find :: "string \<Rightarrow> string \<Rightarrow> (string \<times> string) option" where
  "str_find s pat =
     (if starts_with s pat then Some ([], drop (length pat) s)
      else case s of [] \<Rightarrow> None | c # rest \<Rightarrow> map_option (\<lambda>(before, after). (c # before, after)) (str_find rest pat))"

declare str_find.simps [simp del]

definition extract_between :: "string \<Rightarrow> string \<Rightarrow> string \<Rightarrow> string option" where
  "extract_between s start end_pat =
     map_option (\<lambda>(_, remaining).
       str_trim (case str_find remaining end_pat of Some (before, _) \<Rightarrow> before | None \<Rightarrow> remaining)) (str_find s start)"

definition detect_browser :: "string \<Rightarrow> string" where
  "detect_browser ua =
     (if str_contains ua ''Edg/'' then ''Edge''
      else if str_contains ua ''OPR/'' \<or> str_contains ua ''Opera'' then ''Opera''
      else if str_contains ua ''Vivaldi'' then ''Vivaldi''
      else if str_contains ua ''Brave'' then ''Brave''
      else if str_contains ua ''Chrome/'' then ''Chrome''
      else if str_contains ua ''Safari/'' \<and> \<not> str_contains ua ''Chrome'' then ''Safari''
      else if str_contains ua ''Firefox/'' then ''Firefox''
      else ''Unknown'')"

definition or_empty :: "string option \<Rightarrow> string" where
  "or_empty x = (case x of Some s \<Rightarrow> s | None \<Rightarrow> [])"

definition detect_os :: "string \<Rightarrow> string \<times> string" where
  "detect_os ua =
     (if str_contains ua ''Windows NT 10'' then (''Windows'', ''10'')
      else if str_contains ua ''Windows NT'' then (''Windows'', [])
      else if str_contains ua ''Mac OS X'' then
        (''macOS'', str_replace ''_'' ''.'' (or_empty (extract_between ua ''Mac OS X '' '')'')))
      else if str_contains ua ''Android'' then (''Android'', or_empty (extract_between ua ''Android '' '';''))
      else if str_contains ua ''iPhone OS'' \<or> str_contains ua ''iPad'' then
        (''iOS'', str_replace ''_'' ''.'' (or_empty (extract_between ua ''OS '' '' '')))
      else if str_contains ua ''Linux'' then (''Linux'', [])
      else (''Unknown'', []))"

definition parse_device :: "'a digest_env_scheme \<Rightarrow> string option \<Rightarrow> device_info" where
  "parse_device env user_agent =
     (let ua = (case user_agent of Some ua \<Rightarrow> ua | None \<Rightarrow> ''Unknown'');
          browser = detect_browser ua;
          (os, os_version) = detect_os ua;
          os_major = (case split_on CHR ''.'' os_version of v # _ \<Rightarrow> v | [] \<Rightarrow> []);
          fingerprint = browser @ '':'' @ os @ '':'' @ os_major
      in \<lparr>device_hash = hash_token env fingerprint,
          device_label = (if os_major = [] then browser @ '' on '' @ os else browser @ '' on '' @ os @ '' '' @ os_major)\<rparr>)"

section \<open>Headers and cookies\<close>

definition cookie_name :: "bool \<Rightarrow> string" where
  "cookie_name secure = (if secure then ''__Host-session'' else ''__session'')"

definition session_cookie :: "string \<Rightarrow> bool \<Rightarrow> string" where
  "session_cookie token secure =
     cookie_name secure @ ''='' @ token @ ''; HttpOnly; SameSite=Strict; Path=/; Max-Age=604800'' @ (if secure then ''; Secure'' else [])"

definition clear_session_cookie :: "bool \<Rightarrow> string" where
  "clear_session_cookie secure =
     cookie_name secure @ ''=; HttpOnly; SameSite=Strict; Path=/; Max-Age=0'' @ (if secure then ''; Secure'' else [])"

definition header_str :: "'a auth_env_scheme \<Rightarrow> headers \<Rightarrow> string \<Rightarrow> string option" where
  "header_str env headers name = Option.bind (headers name) (header_to_str env)"

definition extract_ua :: "'a auth_env_scheme \<Rightarrow> headers \<Rightarrow> string option" where
  "extract_ua env headers = header_str env headers ''user-agent''"

definition is_browser_request :: "headers \<Rightarrow> bool" where
  "is_browser_request headers \<longleftrightarrow>
     headers ''origin'' \<noteq> None \<or> headers ''sec-fetch-dest'' \<noteq> None \<or> headers ''sec-fetch-mode'' \<noteq> None
     \<or> headers ''sec-fetch-site'' \<noteq> None \<or> headers ''sec-fetch-user'' \<noteq> None \<or> headers ''x-client-version'' = None"

fun find_map :: "('a \<Rightarrow> 'b option) \<Rightarrow> 'a list \<Rightarrow> 'b option" where
  "find_map f [] = None"
| "find_map f (x # xs) = (case f x of Some y \<Rightarrow> Some y | None \<Rightarrow> find_map f xs)"

definition cookie_pair :: "string \<Rightarrow> string option" where
  "cookie_pair pair =
     (let pair = str_trim pair
      in case strip_prefix ''__Host-session='' pair of Some v \<Rightarrow> Some v | None \<Rightarrow> strip_prefix ''__session='' pair)"

definition extract_session_cookie :: "'a auth_env_scheme \<Rightarrow> headers \<Rightarrow> string option" where
  "extract_session_cookie env headers =
     Option.bind (header_str env headers ''cookie'') (\<lambda>cookies. find_map cookie_pair (split_on CHR '';'' cookies))"

definition non_empty :: "string option \<Rightarrow> string option" where
  "non_empty x = opt_filter (\<lambda>s. s \<noteq> []) x"

definition session_token_from_body_or_cookie ::
  "'a auth_env_scheme \<Rightarrow> headers \<Rightarrow> string option \<Rightarrow> (string \<times> bool) option" where
  "session_token_from_body_or_cookie env headers body_session_token =
     (case non_empty body_session_token of
        Some token \<Rightarrow> Some (token, True)
      | None \<Rightarrow> map_option (\<lambda>token. (token, False)) (extract_session_cookie env headers))"

definition refresh_response_payload :: "string \<Rightarrow> string \<Rightarrow> bool \<Rightarrow> json" where
  "refresh_response_payload access_token session_token include_session_token =
     Json_Object ((''accessToken'', Json_String access_token) #
       (if include_session_token then [(''sessionToken'', Json_String session_token)] else []))"

section \<open>Statements, counters, log\<close>

definition by_email_lower :: "'a login_env_scheme \<Rightarrow> string \<Rightarrow> (sqlx_error, user_row option) host_step" where
  "by_email_lower env email =
     db_call (\<lambda>s. (List.find (\<lambda>u. pg_lower env (us_email u) = pg_lower env email) (fd_users s), s))"

definition consume_backup_code :: "int \<Rightarrow> int \<Rightarrow> string \<Rightarrow> (sqlx_error, bool) host_step" where
  "consume_backup_code now_ms i h =
     (let hit = (\<lambda>u. us_id u = i \<and> h \<in> set (us_backup_code_hashes u))
      in db_call (\<lambda>s. (length (filter hit (fd_users s)) = 1,
           s\<lparr>fd_users := update_where hit (\<lambda>u. u\<lparr>us_backup_code_hashes := removeAll h (us_backup_code_hashes u),
             us_updated_at_ms := now_ms\<rparr>) (fd_users s)\<rparr>)))"

definition MAX_LOGIN_ATTEMPTS :: nat where "MAX_LOGIN_ATTEMPTS = 5"
definition LOGIN_LOCKOUT_SECS :: u64 where "LOGIN_LOCKOUT_SECS = 900"
definition MAX_2FA_ATTEMPTS_PER_TICKET :: u64 where "MAX_2FA_ATTEMPTS_PER_TICKET = 5"

text \<open>A counter that cannot be read counts as zero.\<close>

definition lock_count :: "string \<Rightarrow> (app_error, nat) host_step" where
  "lock_count lock_key s =
     (case redis_get lock_key s of
        (Inr (Some v), s') \<Rightarrow> (Inr (case parse_unsigned (2 ^ 64 - 1) v of Some n \<Rightarrow> n | None \<Rightarrow> 0), s')
      | (_, s') \<Rightarrow> (Inr 0, s'))"

definition increment_lockout :: "string \<Rightarrow> host \<Rightarrow> host" where
  "increment_lockout lock_key s =
     (case redis_incr lock_key s of
        (Inr n, s') \<Rightarrow> if n = 1 then redis_expire lock_key LOGIN_LOCKOUT_SECS s' else s'
      | (Inl _, s') \<Rightarrow> s')"

definition log_login ::
  "int option \<Rightarrow> int option \<Rightarrow> string \<Rightarrow> string option \<Rightarrow> string option \<Rightarrow> bool \<Rightarrow> risk_level \<Rightarrow> string option \<Rightarrow> host \<Rightarrow> host" where
  "log_login user_id session_id ip user_agent dev_hash success risk failure_reason s =
     (case next_snowflake s of (i, s) \<Rightarrow>
        s\<lparr>hs_login_log := hs_login_log s @
          [\<lparr>lg_id = i, lg_user_id = user_id, lg_session_id = session_id, lg_ip = ip, lg_user_agent = user_agent,
            lg_device_hash = dev_hash, lg_success = success, lg_risk_level = risk, lg_failure_reason = failure_reason\<rparr>]\<rparr>)"

definition log_failed_login :: "int option \<Rightarrow> string \<Rightarrow> string option \<Rightarrow> string option \<Rightarrow> host \<Rightarrow> host" where
  "log_failed_login user_id ip ua dev_hash =
     log_login user_id None ip ua dev_hash False Risk_None (Some ''invalid_credentials'')"

definition send_mail :: "'a login_env_scheme \<Rightarrow> mail \<Rightarrow> host \<Rightarrow> host" where
  "send_mail env m s = (if email_configured env then s\<lparr>hs_mail := hs_mail s @ [m]\<rparr> else s)"

definition send_login_verification_code :: "'a login_env_scheme \<Rightarrow> string \<Rightarrow> string \<Rightarrow> host \<Rightarrow> host" where
  "send_login_verification_code env email code = send_mail env (Login_Code email code)"

section \<open>Login\<close>

record login_request =
  lq_email :: string
  lq_password :: string

text \<open>
  The answers of a login: a ticket for the second factor, a session to verify first, or the user
  with tokens; the session token always goes into the cookie, and into the body for clients that
  are no browsers.
\<close>

datatype login_response =
    Two_Factor string
  | Needs_Verification string "string option"
  | Logged_In user_row string string "string option" bool

definition account_locked :: app_error where
  "account_locked = WithCode 429 ''AUTH_ACCOUNT_LOCKED'' ''Account temporarily locked''"

definition lock_key_of :: "'a login_env_scheme \<Rightarrow> string \<Rightarrow> string" where
  "lock_key_of env email = ''login-lock:'' @ hash_token (digests env) (str_lowercase env email)"

definition body_token :: "headers \<Rightarrow> string \<Rightarrow> string option" where
  "body_token headers token = (if is_browser_request headers then None else Some token)"

definition validate_fields :: "'a login_env_scheme \<Rightarrow> (string \<times> bool) list \<Rightarrow> unit app_result" where
  "validate_fields env checks =
     (let failing = map fst (filter (\<lambda>(_, ok). \<not> ok) checks)
      in guard (failing = []) (Validation (validation_text env failing)))"

definition client_of :: "'a login_env_scheme \<Rightarrow> headers \<Rightarrow> ip_addr \<Rightarrow> string" where
  "client_of env headers peer = extract_client_ip env (digests env) (trusted_proxies_var env) headers peer"

definition secs_of :: "int \<Rightarrow> u64" where
  "secs_of now_ms = of_int (now_ms div 1000)"

text \<open>The guards every handler of this file begins with.\<close>

definition limited_ip :: "'a login_env_scheme \<Rightarrow> int \<Rightarrow> string \<Rightarrow> (app_error, unit) host_step" where
  "limited_ip env now_ms ip =
     st_bind (enforce_limit (secs_of now_ms) AUTH_LIMIT ip) (\<lambda>_. ensure_ip_not_banned env now_ms ip)"

text \<open>The password step: the user, or the error after the failure has been counted.\<close>

definition check_password ::
  "'a login_env_scheme \<Rightarrow> string \<Rightarrow> string option \<Rightarrow> device_info \<Rightarrow> login_request \<Rightarrow> string \<Rightarrow> (app_error, user_row) host_step" where
  "check_password env ip ua device body lock_key =
     st_bind (or_internal (by_email_lower env (lq_email body))) (\<lambda>found.
     case found of
       None \<Rightarrow>
         st_bind (st_do (increment_lockout lock_key)) (\<lambda>_.
         st_bind (st_do (log_failed_login None ip ua None)) (\<lambda>_. st_fail InvalidCredentials))
     | Some user \<Rightarrow>
         (case verify_task env (us_password_hash user) (lq_password body) of
            None \<Rightarrow> st_fail InvalidCredentials
          | Some True \<Rightarrow> st_return user
          | Some False \<Rightarrow>
              st_bind (st_do (increment_lockout lock_key)) (\<lambda>_.
              st_bind (st_do (log_failed_login (Some (us_id user)) ip ua (Some (device_hash device)))) (\<lambda>_.
              st_fail InvalidCredentials))))"

definition days_since :: "int \<Rightarrow> int \<Rightarrow> int" where
  "days_since now_ms t = (now_ms - t) div 86400000"

definition restore_account :: "int \<Rightarrow> int \<Rightarrow> host \<Rightarrow> host" where
  "restore_account now_ms user_id s =
     (let s = ignoring_errors (db_call (\<lambda>s. ((), s\<lparr>fd_users := update_where (\<lambda>u. us_id u = user_id)
            (\<lambda>u. u\<lparr>us_deleted_at_ms := None, us_updated_at_ms := now_ms\<rparr>) (fd_users s)\<rparr>))) s
      in ignoring_errors (db_call (\<lambda>s. ((), s\<lparr>hs_pg := (hs_pg s)\<lparr>db_servers :=
            update_where (\<lambda>r. sv_owner_id r = user_id \<and> sv_deleted_at r \<noteq> None) (\<lambda>r. r\<lparr>sv_deleted_at := None\<rparr>)
              (db_servers (hs_pg s))\<rparr>\<rparr>))) s)"

text \<open>Whether the account was restored.\<close>

definition restore_if_deleted :: "int \<Rightarrow> user_row \<Rightarrow> (app_error, bool) host_step" where
  "restore_if_deleted now_ms user =
     (case us_deleted_at_ms user of
        None \<Rightarrow> st_return False
      | Some deleted_at \<Rightarrow>
          if 30 \<le> days_since now_ms deleted_at then st_fail InvalidCredentials
          else st_bind (st_do (restore_account now_ms (us_id user))) (\<lambda>_. st_return True))"

definition redis_try_set_ex :: "string \<Rightarrow> string \<Rightarrow> int \<Rightarrow> host \<Rightarrow> host" where
  "redis_try_set_ex key value secs = ignoring_errors (redis_set_ex key value secs)"

definition redis_try_del :: "string \<Rightarrow> host \<Rightarrow> host" where
  "redis_try_del key = ignoring_errors (redis_del key)"

definition ticket_key_of :: "'a digest_env_scheme \<Rightarrow> string \<Rightarrow> string" where
  "ticket_key_of env ticket = ''2fa-ticket:'' @ hash_token env ticket"

definition attempts_key_of :: "'a digest_env_scheme \<Rightarrow> string \<Rightarrow> string" where
  "attempts_key_of env ticket = ''2fa-attempts:'' @ hash_token env ticket"

definition assessed_risk :: "int \<Rightarrow> string \<Rightarrow> string option \<Rightarrow> (app_error, risk_level) host_step" where
  "assessed_risk user_id dev_hash country s = (case assess_login_risk user_id dev_hash country s of (r, s') \<Rightarrow> (Inr r, s'))"

definition complete_login ::
  "'a login_env_scheme \<Rightarrow> login_draws \<Rightarrow> int \<Rightarrow> headers \<Rightarrow> string \<Rightarrow> string option \<Rightarrow> device_info \<Rightarrow> geo_result
    \<Rightarrow> user_row \<Rightarrow> bool \<Rightarrow> (app_error, login_response) host_step" where
  "complete_login env draws now_ms headers ip ua device geo user account_restored =
     st_bind (assessed_risk (us_id user) (device_hash device) (geo_country geo)) (\<lambda>risk.
     st_bind (create_session (digests env) (ld_session_token draws) now_ms (us_id user) ip ua device geo risk) (\<lambda>session.
     st_bind (st_do (log_login (Some (us_id user)) (Some (cs_session_id session)) ip ua (Some (device_hash device)) True risk None)) (\<lambda>_.
     if risk = Risk_High \<and> \<not> cs_verified session then
       st_bind (create_verification_token (digests env) (ld_code draws) now_ms (cs_session_id session)) (\<lambda>code.
       st_bind (st_do (send_login_verification_code env (us_email user) code)) (\<lambda>_.
       st_return (Needs_Verification (session_cookie (cs_token session) (secure_cookies env)) (body_token headers (cs_token session)))))
     else
       st_bind (st_lift (generate_access_token env (now_ms div 1000) (ld_jti draws) (us_id user) (Some (cs_session_id session)))) (\<lambda>access.
       st_return (Logged_In user access (session_cookie (cs_token session) (secure_cookies env))
         (body_token headers (cs_token session)) account_restored)))))"

definition login ::
  "'a login_env_scheme \<Rightarrow> login_draws \<Rightarrow> int \<Rightarrow> ip_addr \<Rightarrow> headers \<Rightarrow> login_request \<Rightarrow> (app_error, login_response) host_step" where
  "login env draws now_ms peer headers body =
     (let ip = client_of env headers peer;
          ua = extract_ua (digests env) headers;
          device = parse_device (digests env) ua;
          geo = geo_of env ip;
          lock_key = lock_key_of env (lq_email body)
      in
      st_bind (st_lift (validate_fields env [(''email'', valid_email env (lq_email body) \<and> chars_count (lq_email body) \<le> 254),
        (''password'', 1 \<le> chars_count (lq_password body) \<and> chars_count (lq_password body) \<le> 128)])) (\<lambda>_.
      st_bind (limited_ip env now_ms ip) (\<lambda>_.
      st_bind (lock_count lock_key) (\<lambda>count.
      if MAX_LOGIN_ATTEMPTS \<le> count then
        st_bind (st_do (log_login None None ip ua None False Risk_None (Some ''account_locked''))) (\<lambda>_. st_fail account_locked)
      else
      st_bind (check_password env ip ua device body lock_key) (\<lambda>user.
      st_bind (st_do (redis_try_del lock_key)) (\<lambda>_.
      st_bind (ensure_user_not_banned now_ms (us_id user)) (\<lambda>_.
      st_bind (restore_if_deleted now_ms user) (\<lambda>account_restored.
      if us_totp_enabled_at_ms user \<noteq> None then
        st_bind (st_do (redis_try_set_ex (ticket_key_of (digests env) (ld_ticket draws)) (int_str (us_id user)) 300)) (\<lambda>_.
        st_return (Two_Factor (ld_ticket draws)))
      else complete_login env draws now_ms headers ip ua device geo user account_restored))))))))"

section \<open>The second factor\<close>

record login_2fa_request =
  tq_ticket :: string
  tq_code :: string

definition ticket_invalid :: app_error where
  "ticket_invalid = WithCode 401 ''AUTH_2FA_TICKET_INVALID'' ''Invalid or expired two-factor ticket''"

definition too_many_attempts :: app_error where
  "too_many_attempts = WithCode 401 ''AUTH_2FA_TOO_MANY_ATTEMPTS'' ''Too many failed attempts. Please log in again.''"

definition invalid_code :: app_error where
  "invalid_code = WithCode 401 ''AUTH_2FA_INVALID_CODE'' ''Invalid two-factor code''"

text \<open>The ticket's user; a failed read is a missing ticket.\<close>

definition ticket_user :: "string \<Rightarrow> (app_error, int) host_step" where
  "ticket_user ticket_key s =
     (case redis_get ticket_key s of
        (Inr (Some user_id_str), s') \<Rightarrow> (ok_or (parse_i64 user_id_str) Internal, s')
      | (_, s') \<Rightarrow> (Inl ticket_invalid, s'))"

text \<open>\<open>INCR\<close> of the attempts, which counts as the first when Redis fails, read as \<open>u64\<close>.\<close>

definition count_attempt :: "string \<Rightarrow> (app_error, u64) host_step" where
  "count_attempt attempts_key s =
     (case redis_incr attempts_key s of
        (r, s') \<Rightarrow>
          (let attempts = (case r of Inr n \<Rightarrow> n | Inl _ \<Rightarrow> 1)
           in (Inr attempts, if attempts = 1 then redis_expire attempts_key 300 s' else s')))"

text \<open>A TOTP code: six digits, not used before as far as Redis answers, and right now.\<close>

definition replay_key_of :: "int \<Rightarrow> string \<Rightarrow> string" where
  "replay_key_of user_id code = ''totp-used:'' @ int_str user_id @ '':'' @ code"

definition totp_step :: "'a login_env_scheme \<Rightarrow> int \<Rightarrow> string \<Rightarrow> user_row \<Rightarrow> string \<Rightarrow> (app_error, bool) host_step" where
  "totp_step env now_ms secret user code s =
     (if length code = 6 \<and> list_all ascii_digit code then
        (case redis_get (replay_key_of (us_id user) code) s of
           (Inr (Some _), s') \<Rightarrow> (Inr False, s')
         | (_, s') \<Rightarrow>
             if totp_check env now_ms secret code (us_username user) = Some True
             then (Inr True, redis_try_set_ex (replay_key_of (us_id user) code) ''1'' 90 s')
             else (Inr False, s'))
      else (Inr False, s))"

definition backup_step :: "'a login_env_scheme \<Rightarrow> int \<Rightarrow> string \<Rightarrow> user_row \<Rightarrow> string \<Rightarrow> (app_error, bool) host_step" where
  "backup_step env now_ms key user code =
     or_internal (consume_backup_code now_ms (us_id user)
       (hmac_hash env (str_uppercase env (str_replace ''-'' [] code)) key))"

definition second_factor :: "'a login_env_scheme \<Rightarrow> int \<Rightarrow> user_row \<Rightarrow> string \<Rightarrow> (app_error, unit) host_step" where
  "second_factor env now_ms user code =
     (case us_totp_secret user of
        None \<Rightarrow> st_fail (WithCode 401 ''AUTH_2FA_INVALID'' ''Invalid verification'')
      | Some totp_secret \<Rightarrow>
          if totp_secret = [] then st_fail (WithCode 401 ''AUTH_2FA_INVALID'' ''Invalid verification'')
          else
          st_bind (st_lift (ok_or (totp_encryption_key env) Internal)) (\<lambda>key.
          st_bind (st_lift (ok_or (totp_decrypt env totp_secret key) Internal)) (\<lambda>secret.
          st_bind (totp_step env now_ms secret user code) (\<lambda>code_valid.
          st_bind (if code_valid then st_return True else backup_step env now_ms key user code) (\<lambda>code_valid.
          if code_valid then st_return () else st_fail invalid_code)))))"

text \<open>The session of a login that has shown both factors.\<close>

definition complete_2fa ::
  "'a login_env_scheme \<Rightarrow> login_draws \<Rightarrow> int \<Rightarrow> headers \<Rightarrow> string \<Rightarrow> user_row \<Rightarrow> (app_error, login_response) host_step" where
  "complete_2fa env draws now_ms headers ip user =
     (let ua = extract_ua (digests env) headers;
          device = parse_device (digests env) ua;
          geo = geo_of env ip
      in
      st_bind (assessed_risk (us_id user) (device_hash device) (geo_country geo)) (\<lambda>risk.
      st_bind (create_session (digests env) (ld_session_token draws) now_ms (us_id user) ip ua device geo risk) (\<lambda>session.
      st_bind (st_do (log_login (Some (us_id user)) (Some (cs_session_id session)) ip ua (Some (device_hash device)) True risk None)) (\<lambda>_.
      st_bind (if risk = Risk_High \<and> \<not> cs_verified session
               then st_do (ignoring_errors (mark_verified (cs_session_id session))) else st_return ()) (\<lambda>_.
      st_bind (if risk = Risk_Low then st_do (send_mail env (Login_Notice (us_email user) (device_label device))) else st_return ()) (\<lambda>_.
      st_bind (st_lift (generate_access_token env (now_ms div 1000) (ld_jti draws) (us_id user) (Some (cs_session_id session)))) (\<lambda>access.
      st_return (Logged_In user access (session_cookie (cs_token session) (secure_cookies env))
        (body_token headers (cs_token session)) False))))))))"

definition login_2fa ::
  "'a login_env_scheme \<Rightarrow> login_draws \<Rightarrow> int \<Rightarrow> ip_addr \<Rightarrow> headers \<Rightarrow> login_2fa_request \<Rightarrow> (app_error, login_response) host_step" where
  "login_2fa env draws now_ms peer headers body =
     (let ip = client_of env headers peer;
          ticket_key = ticket_key_of (digests env) (tq_ticket body);
          attempts_key = attempts_key_of (digests env) (tq_ticket body)
      in
      st_bind (st_lift (validate_fields env [(''two_factor_ticket'', tq_ticket body \<noteq> []), (''code'', tq_code body \<noteq> [])])) (\<lambda>_.
      st_bind (limited_ip env now_ms ip) (\<lambda>_.
      st_bind (ticket_user ticket_key) (\<lambda>user_id.
      st_bind (ensure_user_not_banned now_ms user_id) (\<lambda>_.
      st_bind (count_attempt attempts_key) (\<lambda>attempts.
      if MAX_2FA_ATTEMPTS_PER_TICKET < attempts then
        st_bind (st_do (redis_try_del ticket_key)) (\<lambda>_.
        st_bind (st_do (redis_try_del attempts_key)) (\<lambda>_. st_fail too_many_attempts))
      else
      st_bind (or_internal (users_by_id user_id)) (\<lambda>found.
      st_bind (st_lift (ok_or found Internal)) (\<lambda>user.
      st_bind (second_factor env now_ms user (tq_code body)) (\<lambda>_.
      st_bind (st_do (redis_try_del ticket_key)) (\<lambda>_.
      st_bind (st_do (redis_try_del attempts_key)) (\<lambda>_.
      complete_2fa env draws now_ms headers ip user)))))))))))"

section \<open>Codes, refresh, logout\<close>

definition refresh ::
  "'a login_env_scheme \<Rightarrow> login_draws \<Rightarrow> int \<Rightarrow> int \<Rightarrow> ip_addr \<Rightarrow> headers \<Rightarrow> string option
    \<Rightarrow> (app_error, string \<times> json) host_step" where
  "refresh env draws now_ms later_ms peer headers body_session_token =
     (let ip = client_of env headers peer
      in
      st_bind (limited_ip env now_ms ip) (\<lambda>_.
      st_bind (st_lift (ok_or (session_token_from_body_or_cookie (digests env) headers body_session_token) TokenRevoked)) (\<lambda>(session_token, include).
      st_bind (rotate_session (digests env) (ld_session_token draws) now_ms later_ms session_token ip (geo_of env ip)) (\<lambda>rotated.
      st_bind (st_lift (ok_or rotated TokenRevoked)) (\<lambda>rotated.
      st_bind (ensure_user_not_banned later_ms (rs_user_id rotated)) (\<lambda>_.
      st_bind (st_lift (generate_access_token env (later_ms div 1000) (ld_jti draws) (rs_user_id rotated) (Some (rs_session_id rotated)))) (\<lambda>access.
      st_return (session_cookie (rs_token rotated) (secure_cookies env),
                 refresh_response_payload access (rs_token rotated) include))))))))"

definition session_owner :: "'a digest_env_scheme \<Rightarrow> string \<Rightarrow> (app_error, int option) host_step" where
  "session_owner env session_token s =
     (case by_token_hash (hash_token env session_token) s of
        (Inr found, s') \<Rightarrow> (Inr (map_option ss_user_id found), s')
      | (Inl _, s') \<Rightarrow> (Inr None, s'))"

definition blacklist_if_owned :: "'a web_env_scheme \<Rightarrow> int \<Rightarrow> string option \<Rightarrow> int option \<Rightarrow> host \<Rightarrow> host" where
  "blacklist_if_owned env now_secs token session_user s =
     (case (token, session_user) of
        (Some token, Some sess_uid) \<Rightarrow>
          if decode_access_token env now_secs token = Some sess_uid then blacklist_access_token env now_secs token s else s
      | _ \<Rightarrow> s)"

definition logout ::
  "'a login_env_scheme \<Rightarrow> int \<Rightarrow> ip_addr \<Rightarrow> headers \<Rightarrow> string option \<Rightarrow> string option \<Rightarrow> (app_error, string) host_step" where
  "logout env now_ms peer headers body_session_token body_access_token =
     (let ip = client_of env headers peer;
          session_token = (case non_empty body_session_token of Some t \<Rightarrow> Some t | None \<Rightarrow> extract_session_cookie (digests env) headers);
          token = (case body_access_token of Some t \<Rightarrow> Some t
                   | None \<Rightarrow> Option.bind (header_str (digests env) headers ''authorization'') (strip_prefix ''Bearer ''))
      in
      st_bind (enforce_limit (secs_of now_ms) AUTH_LIMIT ip) (\<lambda>_.
      st_bind (case session_token of
                 None \<Rightarrow> st_return ()
               | Some session_token \<Rightarrow>
                   st_bind (session_owner (digests env) session_token) (\<lambda>owner.
                   st_bind (st_do (blacklist_if_owned env (now_ms div 1000) token owner)) (\<lambda>_.
                   revoke_session (digests env) session_token))) (\<lambda>_.
      st_return (clear_session_cookie (secure_cookies env)))))"

definition revoke_session_handler ::
  "'a login_env_scheme \<Rightarrow> int \<Rightarrow> ip_addr \<Rightarrow> headers \<Rightarrow> string \<Rightarrow> (app_error, unit) host_step" where
  "revoke_session_handler env now_ms peer headers token =
     st_bind (st_lift (validate_fields env [(''token'', token \<noteq> [])])) (\<lambda>_.
     st_bind (limited_ip env now_ms (client_of env headers peer)) (\<lambda>_.
     st_bind (revoke_session_by_revoke_token (digests env) token) (\<lambda>_. st_return ())))"

definition resend_session_code ::
  "'a login_env_scheme \<Rightarrow> login_draws \<Rightarrow> int \<Rightarrow> ip_addr \<Rightarrow> headers \<Rightarrow> string option \<Rightarrow> (app_error, unit) host_step" where
  "resend_session_code env draws now_ms peer headers body_session_token =
     st_bind (limited_ip env now_ms (client_of env headers peer)) (\<lambda>_.
     st_bind (st_lift (ok_or (case non_empty body_session_token of Some t \<Rightarrow> Some t
       | None \<Rightarrow> extract_session_cookie (digests env) headers) TokenRevoked)) (\<lambda>session_token.
     st_bind (or_internal (by_token_hash (hash_token (digests env) session_token))) (\<lambda>found.
     st_bind (st_lift (ok_or found TokenRevoked)) (\<lambda>session.
     st_bind (ensure_user_not_banned now_ms (ss_user_id session)) (\<lambda>_.
     if ss_verified session then st_return ()
     else
     st_bind (or_internal (users_by_id (ss_user_id session))) (\<lambda>found.
     st_bind (st_lift (ok_or found TokenRevoked)) (\<lambda>user.
     st_bind (create_verification_token (digests env) (ld_code draws) now_ms (ss_id session)) (\<lambda>code.
     st_do (send_login_verification_code env (us_email user) code)))))))))"

definition session_id_of :: "'a digest_env_scheme \<Rightarrow> string \<Rightarrow> (app_error, int option) host_step" where
  "session_id_of env session_token s =
     (case by_token_hash (hash_token env session_token) s of
        (Inr found, s') \<Rightarrow> (Inr (map_option ss_id found), s')
      | (Inl _, s') \<Rightarrow> (Inr None, s'))"

text \<open>The user, the access token and the session token for clients that sent it in the body.\<close>

definition verify_session ::
  "'a login_env_scheme \<Rightarrow> login_draws \<Rightarrow> int \<Rightarrow> ip_addr \<Rightarrow> headers \<Rightarrow> string option \<Rightarrow> string
    \<Rightarrow> (app_error, user_row \<times> string \<times> string option) host_step" where
  "verify_session env draws now_ms peer headers body_session_token code =
     st_bind (st_lift (validate_fields env [(''code'', code \<noteq> [])])) (\<lambda>_.
     st_bind (limited_ip env now_ms (client_of env headers peer)) (\<lambda>_.
     st_bind (st_lift (ok_or (session_token_from_body_or_cookie (digests env) headers body_session_token) TokenRevoked)) (\<lambda>(session_token, include).
     st_bind (verify_session_code (digests env) now_ms session_token code) (\<lambda>user.
     st_bind (st_lift (ok_or user (WithCode 401 ''AUTH_2FA_INVALID_CODE'' ''Invalid verification code''))) (\<lambda>user_id.
     st_bind (ensure_user_not_banned now_ms user_id) (\<lambda>_.
     st_bind (session_id_of (digests env) session_token) (\<lambda>session_id.
     st_bind (or_internal (users_by_id user_id)) (\<lambda>found.
     st_bind (st_lift (ok_or found (NotFound ''user''))) (\<lambda>user.
     st_bind (st_lift (generate_access_token env (now_ms div 1000) (ld_jti draws) user_id session_id)) (\<lambda>access.
     st_return (user, access, if include then Some session_token else None)))))))))))"

section \<open>What a login step leaves alone\<close>

text \<open>The parts of the state a frame of this file may not look at.\<close>

locale login_frame = read_frame +
  assumes counters: "f (s\<lparr>hs_redis_counters := c\<rparr>) = f s"
    and keys: "f (s\<lparr>hs_redis_keys := k\<rparr>) = f s"
    and ttls: "f (s\<lparr>hs_redis_ttls := t\<rparr>) = f s"
    and limiter: "f (s\<lparr>hs_limiter := l\<rparr>) = f s"
    and ids: "f (s\<lparr>hs_id_count := n\<rparr>) = f s"
    and logged: "f (s\<lparr>hs_login_log := g\<rparr>) = f s"
    and mailed: "f (s\<lparr>hs_mail := m\<rparr>) = f s"
begin

lemma limit: "leaves f (enforce_limit secs config ip)"
  by (rule enforce_limit_leaves [OF read_frame_axioms counters limiter])

lemma bans: "leaves f (ensure_user_not_banned t u)" "leaves f (ensure_ip_not_banned env t ip)"
  unfolding ensure_user_not_banned_def ensure_ip_not_banned_def active_account_ban_def active_ip_ban_def
  by (intro leaves_intro db_call; simp)+

lemma limited: "leaves f (limited_ip env t ip)"
  unfolding limited_ip_def by (intro leaves_intro limit bans)

lemma count: "leaves f (lock_count key)"
proof -
  have l: "leaves f (redis_get key)" by (rule reads)
  show ?thesis
    unfolding leaves_def lock_count_def
    by (auto split: prod.splits sum.splits option.splits dest: leavesD [OF l])
qed

lemma incr: "leaves f (redis_incr key)"
  unfolding redis_incr_def by (rule redis) (auto simp: counters Let_def split: prod.splits)

lemma expire: "f (redis_expire key n s) = f s"
  unfolding redis_expire_def by (rule leaves_ignoring [OF redis]) (auto simp: counters)

lemma increment: "f (increment_lockout key s) = f s"
  by (auto simp: increment_lockout_def expire split: prod.splits sum.splits if_splits dest: leavesD [OF incr])

lemma log: "f (log_login u i ip ua d ok risk why s) = f s"
  by (simp add: log_login_def next_snowflake_def logged ids)

lemma failed: "f (log_failed_login u ip ua d s) = f s"
  by (simp add: log_failed_login_def log)

lemma mail: "f (send_mail env m s) = f s" "f (send_login_verification_code env e c s) = f s"
  by (simp_all add: send_login_verification_code_def send_mail_def mailed)

lemma del: "f (redis_try_del key s) = f s"
  unfolding redis_try_del_def redis_del_def by (rule leaves_ignoring [OF redis]) (auto simp: counters keys ttls)

lemma setex: "f (redis_try_set_ex key v n s) = f s"
  unfolding redis_try_set_ex_def redis_set_ex_def by (rule leaves_ignoring [OF redis]) (auto simp: counters keys ttls)

lemma user: "leaves f (by_email_lower env e)"
  unfolding by_email_lower_def by (rule db_call) simp

lemma ticket: "leaves f (ticket_user key)"
proof -
  have l: "leaves f (redis_get key)" by (rule reads)
  show ?thesis
    unfolding leaves_def ticket_user_def
    by (auto split: prod.splits sum.splits option.splits dest: leavesD [OF l])
qed

lemma attempt: "leaves f (count_attempt key)"
  unfolding leaves_def count_attempt_def Let_def
  by (auto simp: expire split: prod.splits sum.splits if_splits dest: leavesD [OF incr])

lemma risk: "leaves f (assessed_risk u d c)"
  unfolding leaves_def assessed_risk_def assess_login_risk_def session_list_for_user_def Let_def
  by (auto simp: db_call_def fd_faults Let_def split: prod.splits if_splits)

end

definition people :: "host \<Rightarrow> user_row list \<times> account_ban_row list \<times> ip_ban_row list" where
  "people s = (fd_users s, hs_account_bans s, hs_ip_bans s)"

interpretation people: login_frame people
  by unfold_locales (simp_all add: people_def)

interpretation people_and_sessions: login_frame "\<lambda>s. (people s, hs_sessions s)"
  by unfold_locales (simp_all add: people_def)

lemma people_bans:
  "people s' = people s \<Longrightarrow> account_banned t u s' = account_banned t u s"
  "people s' = people s \<Longrightarrow> ip_banned env t ip s' = ip_banned env t ip s"
  by (simp_all add: people_def account_banned_def ip_banned_def)

section \<open>What a login requires\<close>

lemma limited_ip_Inr: "limited_ip env t ip s = (Inr x, s') \<Longrightarrow> \<not> ip_banned env t ip s"
proof -
  assume "limited_ip env t ip s = (Inr x, s')"
  then obtain y s1 where "enforce_limit (secs_of t) AUTH_LIMIT ip s = (Inr y, s1)" "ensure_ip_not_banned env t ip s1 = (Inr x, s')"
    by (auto simp: limited_ip_def result_iff)
  with ip_not_banned people_bans(2) [OF leavesD [OF people.limit]] show ?thesis by metis
qed

lemma check_password_Inr:
  assumes "check_password env ip ua device body key s = (Inr u, s')"
  shows "u \<in> set (fd_users s)" "pg_lower env (us_email u) = pg_lower env (lq_email body)"
    "verify_task env (us_password_hash u) (lq_password body) = Some True"
    "(people s', hs_sessions s') = (people s, hs_sessions s)"
proof -
  from assms obtain found s1 where step: "by_email_lower env (lq_email body) s = (Inr found, s1)"
    and rest: "(case found of
       None \<Rightarrow>
         st_bind (st_do (increment_lockout key)) (\<lambda>_.
         st_bind (st_do (log_failed_login None ip ua None)) (\<lambda>_. st_fail InvalidCredentials))
     | Some user \<Rightarrow>
         (case verify_task env (us_password_hash user) (lq_password body) of
            None \<Rightarrow> st_fail InvalidCredentials
          | Some True \<Rightarrow> st_return user
          | Some False \<Rightarrow>
              st_bind (st_do (increment_lockout key)) (\<lambda>_.
              st_bind (st_do (log_failed_login (Some (us_id user)) ip ua (Some (device_hash device)))) (\<lambda>_.
              st_fail InvalidCredentials)))) s1 = (Inr u, s')"
    by (auto simp: check_password_def or_internal_def result_iff)
  have "found = Some u \<and> verify_task env (us_password_hash u) (lq_password body) = Some True \<and> s' = s1"
  proof (cases found)
    case None
    with rest show ?thesis by (simp add: result_iff)
  next
    case (Some v)
    with rest show ?thesis
      by (cases "verify_task env (us_password_hash v) (lq_password body)")
        (auto simp: result_iff split: bool.splits)
  qed
  with step have 1: "by_email_lower env (lq_email body) s = (Inr (Some u), s1)"
    and 2: "verify_task env (us_password_hash u) (lq_password body) = Some True" and "s' = s1" by auto
  from 1 show "u \<in> set (fd_users s)" "pg_lower env (us_email u) = pg_lower env (lq_email body)"
    by (auto simp: by_email_lower_def result_iff find_Some_iff in_set_conv_nth)
  show "verify_task env (us_password_hash u) (lq_password body) = Some True" by (rule 2)
  show "(people s', hs_sessions s') = (people s, hs_sessions s)"
    using leavesD [OF people_and_sessions.user 1] \<open>s' = s1\<close> by simp
qed

lemma create_session_Inr:
  assumes "create_session env fresh now u ip ua dev geo risk s = (Inr r, s')"
  shows "new_session_row (cs_session_id r) u (hash_token env fresh) ip ua dev geo risk now \<in> set (hs_sessions s')"
    "cs_token r = fresh" "cs_verified r = (risk \<noteq> Risk_High)"
  using assms
  by (auto simp: create_session_def or_internal_def result_iff session_insert_def draw_id_def next_snowflake_def split: if_splits)


lemma complete_login_Inr:
  assumes "complete_login env draws now headers ip ua dev geo u restored s = (Inr r, s')"
  shows "\<exists>row\<in>set (hs_sessions s'). ss_user_id row = us_id u \<and> ss_token_hash row = hash_token (digests env) (ld_session_token draws) \<and>
    (case r of Two_Factor _ \<Rightarrow> False | Needs_Verification _ _ \<Rightarrow> \<not> ss_verified row
     | Logged_In v _ _ _ back \<Rightarrow> ss_verified row \<and> v = u \<and> back = restored)"
proof -
  let ?h = "hash_token (digests env) (ld_session_token draws)"
  from assms obtain risk s1 cs s2 s3 where cs: "create_session (digests env) (ld_session_token draws) now (us_id u) ip ua dev geo risk s1 = (Inr cs, s2)"
      and s3: "hs_sessions s3 = hs_sessions s2"
      and rest: "(if risk = Risk_High \<and> \<not> cs_verified cs then
       st_bind (create_verification_token (digests env) (ld_code draws) now (cs_session_id cs)) (\<lambda>code.
       st_bind (st_do (send_login_verification_code env (us_email u) code)) (\<lambda>_.
       st_return (Needs_Verification (session_cookie (cs_token cs) (secure_cookies env)) (body_token headers (cs_token cs)))))
     else
       st_bind (st_lift (generate_access_token env (now div 1000) (ld_jti draws) (us_id u) (Some (cs_session_id cs)))) (\<lambda>access.
       st_return (Logged_In u access (session_cookie (cs_token cs) (secure_cookies env))
         (body_token headers (cs_token cs)) restored))) s3 = (Inr r, s')"
    unfolding complete_login_def st_bind_Inr st_do_def st_basic_iff
    using people_and_sessions.log by fastforce
  define row where "row = new_session_row (cs_session_id cs) (us_id u) ?h ip ua dev geo risk now"
  have row: "row \<in> set (hs_sessions s3)" "cs_verified cs = (risk \<noteq> Risk_High)"
    using create_session_Inr [OF cs] s3 by (simp_all add: row_def)
  show ?thesis
  proof (cases "risk = Risk_High")
    case True
    with rest row(2) obtain s4 code where 4: "create_verification_token (digests env) (ld_code draws) now (cs_session_id cs) s3 = (Inr code, s4)"
        and r: "r = Needs_Verification (session_cookie (cs_token cs) (secure_cookies env)) (body_token headers (cs_token cs))"
        and s': "s' = send_login_verification_code env (us_email u) code s4"
      by (auto simp: result_iff st_do_def)
    have "hs_sessions s' = hs_sessions s4" using people_and_sessions.mail(2) [of env "us_email u" code s4] s' by simp
    moreover have "\<exists>q\<in>set (hs_sessions s4). ss_user_id q = us_id u \<and> ss_token_hash q = ?h \<and> \<not> ss_verified q"
    proof -
      let ?f = "\<lambda>q. q\<lparr>ss_verify_token_hash := Some (hash_token (digests env) (ld_code draws)),
          ss_verify_expires_at_ms := Some (now + minutes_ms VERIFY_CODE_EXPIRY_MINUTES), ss_verify_attempts := 0\<rparr>"
      have "hs_sessions s4 = update_where (\<lambda>q. ss_id q = cs_session_id cs) ?f (hs_sessions s3)"
        using 4 by (auto simp: create_verification_token_def or_internal_def set_verify_token_def session_update_def result_iff)
      then have "?f row \<in> set (hs_sessions s4)"
        using row(1) by (force simp: update_where_def row_def)
      then show ?thesis using True by (intro bexI [of _ "?f row"]) (simp_all add: row_def)
    qed
    ultimately show ?thesis using r by auto
  next
    case False
    with rest row show ?thesis by (auto simp: result_iff row_def intro!: bexI [of _ row])
  qed
qed

lemma restore_if_deleted_Inr:
  "restore_if_deleted now u s = (Inr b, s') \<Longrightarrow>
     is_none_or (us_deleted_at_ms u) (\<lambda>t. days_since now t < 30) \<and> b = (us_deleted_at_ms u \<noteq> None) \<and> hs_sessions s' = hs_sessions s"
proof -
  have restore: "hs_sessions (restore_account t i s) = hs_sessions s" for t i s
    by (simp add: restore_account_def ignoring_errors_def Let_def db_call_def)
  assume "restore_if_deleted now u s = (Inr b, s')"
  then show ?thesis
    by (cases "us_deleted_at_ms u") (auto simp: restore_if_deleted_def result_iff st_do_def restore split: if_splits)
qed

text \<open>A login that answers, in its steps.\<close>

lemma login_Inr:
  assumes "login env draws now peer headers body s = (Inr r, s')"
  obtains u n s1 s2 s3 where
    "\<not> ip_banned env now (client_of env headers peer) s"
    "lock_count (lock_key_of env (lq_email body)) s1 = (Inr n, s2)" "n < MAX_LOGIN_ATTEMPTS"
    "(people s1, hs_sessions s1) = (people s, hs_sessions s)"
    "u \<in> set (fd_users s)" "pg_lower env (us_email u) = pg_lower env (lq_email body)"
    "verify_task env (us_password_hash u) (lq_password body) = Some True"
    "\<not> account_banned now (us_id u) s"
    "is_none_or (us_deleted_at_ms u) (\<lambda>t. days_since now t < 30)" "hs_sessions s3 = hs_sessions s"
    "us_totp_enabled_at_ms u \<noteq> None \<Longrightarrow> r = Two_Factor (ld_ticket draws) \<and> hs_sessions s' = hs_sessions s"
    "us_totp_enabled_at_ms u = None \<Longrightarrow>
      complete_login env draws now headers (client_of env headers peer) (extract_ua (digests env) headers)
        (parse_device (digests env) (extract_ua (digests env) headers)) (geo_of env (client_of env headers peer)) u
        (us_deleted_at_ms u \<noteq> None) s3 = (Inr r, s')"
proof -
  let ?ip = "client_of env headers peer" and ?ua = "extract_ua (digests env) headers"
  let ?dev = "parse_device (digests env) ?ua" and ?key = "lock_key_of env (lq_email body)"
  from assms obtain x s1 n s2 where 1: "limited_ip env now ?ip s = (Inr x, s1)"
    and 2: "lock_count ?key s1 = (Inr n, s2)"
    and 3: "(if MAX_LOGIN_ATTEMPTS \<le> n then
        st_bind (st_do (log_login None None ?ip ?ua None False Risk_None (Some ''account_locked''))) (\<lambda>_. st_fail account_locked)
      else
      st_bind (check_password env ?ip ?ua ?dev body ?key) (\<lambda>user.
      st_bind (st_do (redis_try_del ?key)) (\<lambda>_.
      st_bind (ensure_user_not_banned now (us_id user)) (\<lambda>_.
      st_bind (restore_if_deleted now user) (\<lambda>account_restored.
      if us_totp_enabled_at_ms user \<noteq> None then
        st_bind (st_do (redis_try_set_ex (ticket_key_of (digests env) (ld_ticket draws)) (int_str (us_id user)) 300)) (\<lambda>_.
        st_return (Two_Factor (ld_ticket draws)))
      else complete_login env draws now headers ?ip ?ua ?dev (geo_of env ?ip) user account_restored))))) s2 = (Inr r, s')"
    unfolding login_def Let_def st_bind_Inr st_basic_iff by blast
  have n: "\<not> MAX_LOGIN_ATTEMPTS \<le> n" using 3 by (auto simp: result_iff split: if_splits)
  note steps = 3 [unfolded if_not_P [OF n]]
  have "\<exists>u s4 s5 y s6 b s7. check_password env ?ip ?ua ?dev body ?key s2 = (Inr u, s4) \<and>
      s5 = redis_try_del ?key s4 \<and> ensure_user_not_banned now (us_id u) s5 = (Inr y, s6) \<and>
      restore_if_deleted now u s6 = (Inr b, s7) \<and>
      (if us_totp_enabled_at_ms u \<noteq> None then
        st_bind (st_do (redis_try_set_ex (ticket_key_of (digests env) (ld_ticket draws)) (int_str (us_id u)) 300)) (\<lambda>_.
        st_return (Two_Factor (ld_ticket draws)))
      else complete_login env draws now headers ?ip ?ua ?dev (geo_of env ?ip) u b) s7 = (Inr r, s')"
    using steps unfolding st_bind_Inr st_do_def st_basic_iff
    by (elim exE conjE) (intro exI conjI, assumption+)
  then show ?thesis
  proof (elim exE conjE)
  fix u s4 s5 y s6 b s7
  assume 4: "check_password env ?ip ?ua ?dev body ?key s2 = (Inr u, s4)"
    and 5: "s5 = redis_try_del ?key s4" and 6: "ensure_user_not_banned now (us_id u) s5 = (Inr y, s6)"
    and 7: "restore_if_deleted now u s6 = (Inr b, s7)"
    and 8: "(if us_totp_enabled_at_ms u \<noteq> None then
        st_bind (st_do (redis_try_set_ex (ticket_key_of (digests env) (ld_ticket draws)) (int_str (us_id u)) 300)) (\<lambda>_.
        st_return (Two_Factor (ld_ticket draws)))
      else complete_login env draws now headers ?ip ?ua ?dev (geo_of env ?ip) u b) s7 = (Inr r, s')"
  have p1: "(people s1, hs_sessions s1) = (people s, hs_sessions s)" by (rule leavesD [OF people_and_sessions.limited 1])
  have p2: "(people s2, hs_sessions s2) = (people s, hs_sessions s)"
    using leavesD [OF people_and_sessions.count 2] p1 by simp
  note pw = check_password_Inr [OF 4]
  have p5: "(people s5, hs_sessions s5) = (people s, hs_sessions s)"
    using pw(4) p2 people_and_sessions.del [of ?key s4] 5 by simp
  have p6: "(people s6, hs_sessions s6) = (people s, hs_sessions s)"
    using leavesD [OF people_and_sessions.bans(1) 6] p5 by simp
  note restored = restore_if_deleted_Inr [OF 7]
  show ?thesis
  proof
    show "\<not> ip_banned env now (client_of env headers peer) s" by (rule limited_ip_Inr [OF 1])
    show "u \<in> set (fd_users s)" using pw(1) p2 by (simp add: people_def)
    show "\<not> account_banned now (us_id u) s" using user_not_banned [OF 6] people_bans(1) [of s5 s] p5 by simp
    show "hs_sessions s7 = hs_sessions s" using restored p6 by simp
    show "r = Two_Factor (ld_ticket draws) \<and> hs_sessions s' = hs_sessions s" if "us_totp_enabled_at_ms u \<noteq> None"
    proof -
      from 8 that have "r = Two_Factor (ld_ticket draws)"
        and s': "s' = redis_try_set_ex (ticket_key_of (digests env) (ld_ticket draws)) (int_str (us_id u)) 300 s7"
        by (auto simp: result_iff st_do_def)
      moreover have "hs_sessions s' = hs_sessions s7" using people_and_sessions.setex s' by blast
      ultimately show ?thesis using restored p6 by simp
    qed
    show "complete_login env draws now headers ?ip ?ua ?dev (geo_of env ?ip) u (us_deleted_at_ms u \<noteq> None) s7 = (Inr r, s')"
      if "us_totp_enabled_at_ms u = None"
      using 8 that restored by simp
  qed (use 2 n p1 pw(2,3) restored in \<open>simp_all add: not_le\<close>)
qed
qed

text \<open>
  C5. A login answers without an error only to the right password of a user with that address, who
  is not banned, comes from an address that is not banned and is not deleted for thirty days or
  more. With a second factor it answers with nothing but a ticket and opens no session; without one,
  an access token is given out only along with a session that is verified, and a risky login gets a
  session that is not.
\<close>

theorem login_needs_password:
  assumes "login env draws now peer headers body s = (Inr r, s')"
  shows "\<exists>u\<in>set (fd_users s). pg_lower env (us_email u) = pg_lower env (lq_email body) \<and>
    verify_task env (us_password_hash u) (lq_password body) = Some True \<and>
    \<not> ip_banned env now (client_of env headers peer) s \<and> \<not> account_banned now (us_id u) s \<and>
    is_none_or (us_deleted_at_ms u) (\<lambda>t. days_since now t < 30) \<and>
    (if us_totp_enabled_at_ms u \<noteq> None then r = Two_Factor (ld_ticket draws) \<and> hs_sessions s' = hs_sessions s
     else \<exists>row\<in>set (hs_sessions s'). ss_user_id row = us_id u \<and>
       ss_token_hash row = hash_token (digests env) (ld_session_token draws) \<and>
       (case r of Two_Factor _ \<Rightarrow> False | Needs_Verification _ _ \<Rightarrow> \<not> ss_verified row
        | Logged_In v _ _ _ back \<Rightarrow> ss_verified row \<and> v = u \<and> back = (us_deleted_at_ms u \<noteq> None)))"
proof (rule login_Inr [OF assms])
  fix u :: user_row and s3 assume u: "u \<in> set (fd_users s)" "pg_lower env (us_email u) = pg_lower env (lq_email body)"
    "verify_task env (us_password_hash u) (lq_password body) = Some True"
    "\<not> ip_banned env now (client_of env headers peer) s" "\<not> account_banned now (us_id u) s"
    "is_none_or (us_deleted_at_ms u) (\<lambda>t. days_since now t < 30)"
    "us_totp_enabled_at_ms u \<noteq> None \<Longrightarrow> r = Two_Factor (ld_ticket draws) \<and> hs_sessions s' = hs_sessions s"
    "us_totp_enabled_at_ms u = None \<Longrightarrow>
      complete_login env draws now headers (client_of env headers peer) (extract_ua (digests env) headers)
        (parse_device (digests env) (extract_ua (digests env) headers)) (geo_of env (client_of env headers peer)) u
        (us_deleted_at_ms u \<noteq> None) s3 = (Inr r, s')"
  show ?thesis
  proof (intro bexI [OF _ u(1)] conjI u(2-6))
    show "if us_totp_enabled_at_ms u \<noteq> None then r = Two_Factor (ld_ticket draws) \<and> hs_sessions s' = hs_sessions s
     else \<exists>row\<in>set (hs_sessions s'). ss_user_id row = us_id u \<and>
       ss_token_hash row = hash_token (digests env) (ld_session_token draws) \<and>
       (case r of Two_Factor _ \<Rightarrow> False | Needs_Verification _ _ \<Rightarrow> \<not> ss_verified row
        | Logged_In v _ _ _ back \<Rightarrow> ss_verified row \<and> v = u \<and> back = (us_deleted_at_ms u \<noteq> None))"
    proof (cases "us_totp_enabled_at_ms u = None")
      case True
      with complete_login_Inr [OF u(8) [OF True]] show ?thesis by simp
    next
      case False
      with u(7) show ?thesis by simp
    qed
  qed
qed

definition demo_login_env :: login_env where
  "demo_login_env = web_env.extend (demo_web_env\<lparr>jwt_encode := \<lambda>_ c. Some (cl_jti c)\<rparr>) \<lparr>
     geo_of = (\<lambda>_. demo_geo), verify_task = (\<lambda>h p. Some (h = p)), valid_email = (\<lambda>_. True), validation_text = concat,
     email_configured = True, secure_cookies = True, totp_encryption_key = Some ''key'',
     totp_decrypt = (\<lambda>c _. Some c), totp_check = (\<lambda>t secret code _. Some (code = ''123456'')),
     hmac_hash = (\<lambda>code key. code),
     str_lowercase = to_ascii_lowercase, str_uppercase = to_ascii_uppercase, pg_lower = to_ascii_lowercase\<rparr>"

definition demo_draws :: login_draws where
  "demo_draws = \<lparr>ld_session_token = ''fresh'', ld_ticket = ''ticket'', ld_code = ''654321'', ld_jti = ''j''\<rparr>"

definition demo_member :: user_row where
  "demo_member = \<lparr>us_id = 50, us_email = ''a@b'', us_password_hash = ''pw'', us_username = ''u1'', us_display_name = None,
     us_avatar_url = None, us_email_verified = True, us_totp_secret = Some ''secret'', us_totp_enabled_at_ms = Some 1,
     us_backup_code_hashes = [''AAAA'', ''BBBB''], us_deleted_at_ms = None, us_updated_at_ms = 0\<rparr>"

definition demo_login_host :: host where
  "demo_login_host = demo_host\<lparr>fd_users := [demo_member]\<rparr>"

definition demo_plain_host :: host where
  "demo_plain_host = demo_host\<lparr>fd_users := [demo_member\<lparr>us_totp_enabled_at_ms := None\<rparr>]\<rparr>"

definition demo_peer :: ip_addr where "demo_peer = V4 (Ipv4 1 2 3 4)"

definition demo_body :: login_request where
  "demo_body = \<lparr>lq_email = ''A@b'', lq_password = ''pw''\<rparr>"

lemma login_needs_password_witness:
  "(\<exists>u\<in>set (fd_users demo_login_host). us_totp_enabled_at_ms u \<noteq> None) \<and>
   (\<exists>r s'. login demo_login_env demo_draws 600000 demo_peer Map.empty demo_body demo_plain_host = (Inr r, s') \<and>
     (\<exists>row\<in>set (hs_sessions s'). ss_verified row \<and> ss_user_id row = 50))"
proof -
  have *: "(case login demo_login_env demo_draws 600000 demo_peer Map.empty demo_body demo_plain_host of
      (q, t) \<Rightarrow> (case q of Inl _ \<Rightarrow> False | Inr r \<Rightarrow> (case r of Logged_In _ _ _ _ _ \<Rightarrow> True | _ \<Rightarrow> False)))" by code_simp
  then obtain u a c b k s' where run: "login demo_login_env demo_draws 600000 demo_peer Map.empty demo_body demo_plain_host = (Inr (Logged_In u a c b k), s')"
    by (auto split: prod.splits sum.splits login_response.splits)
  from login_needs_password [OF this] run show ?thesis
    by (auto simp: demo_plain_host_def demo_login_host_def demo_member_def)
qed

section \<open>The lockout\<close>

text \<open>The failures counted under a name: \<open>n\<close> of them, Redis answering.\<close>

definition counted :: "string \<Rightarrow> nat \<Rightarrow> host \<Rightarrow> bool" where
  "counted key n s \<longleftrightarrow> hs_redis_faults s = [] \<and> dm_get (hs_redis_keys s) key = None \<and>
     map_option fst (dm_get (hs_redis_counters s) key) = (if n = 0 then None else Some (of_nat n))"

text \<open>Steps that leave the count of \<open>key\<close> and the users alone.\<close>

definition holds :: "string \<Rightarrow> nat \<Rightarrow> user_row list \<Rightarrow> host \<Rightarrow> bool" where
  "holds key n us s \<longleftrightarrow> counted key n s \<and> fd_users s = us"

definition count_in :: "string \<Rightarrow> host \<Rightarrow> i64_bits \<times> u64 option" where
  "count_in key s = (case dm_get (hs_redis_counters s) key of Some c \<Rightarrow> c | None \<Rightarrow> (0, None))"

lemma redis_incr_clear:
  assumes "hs_redis_faults s = []"
  shows "redis_incr key s = (Inr (fst (count_in key s) + 1),
    s\<lparr>hs_redis_counters := dm_put key (fst (count_in key s) + 1, snd (count_in key s)) (hs_redis_counters s)\<rparr>)"
  using assms by (simp add: redis_incr_def redis_call_def Let_def no_faults count_in_def split: option.split prod.split)

lemma holds_incr:
  assumes "holds key n us s" "key' \<noteq> key"
  shows "\<exists>m s'. redis_incr key' s = (Inr m, s') \<and> holds key n us s'"
proof -
  have clear: "hs_redis_faults s = []" using assms(1) by (simp add: holds_def counted_def)
  have "holds key n us (s\<lparr>hs_redis_counters := dm_put key' c (hs_redis_counters s)\<rparr>)" for c
    using assms by (simp add: holds_def counted_def)
  then show ?thesis using redis_incr_clear [OF clear] by blast
qed

lemma holds_expire: "holds key n us s \<Longrightarrow> key' \<noteq> key \<Longrightarrow> holds key n us (redis_expire key' t s)"
  by (auto simp: holds_def counted_def redis_expire_def ignoring_errors_def redis_call_def Let_def no_faults)

lemma auth_key: "rate_key (rc_prefix AUTH_LIMIT) ip w \<noteq> lock_key_of env email"
  "rate_key (rc_prefix AUTH_LIMIT) ip w \<noteq> attempts_key_of denv ticket"
  "rate_key (rc_prefix AUTH_LIMIT) ip w \<noteq> ticket_key_of denv ticket"
  by (simp_all add: rate_key_def AUTH_LIMIT_def lock_key_of_def attempts_key_of_def ticket_key_of_def)

lemma holds_limit:
  assumes "holds key n us s" and other: "\<And>w. rate_key (rc_prefix AUTH_LIMIT) ip w \<noteq> key"
  shows "holds key n us (snd (enforce_limit t AUTH_LIMIT ip s)) \<and>
    (fst (enforce_limit t AUTH_LIMIT ip s) = Inl RateLimited \<or> (\<exists>x. fst (enforce_limit t AUTH_LIMIT ip s) = Inr x))"
proof -
  have lim: "holds key n us (s\<lparr>hs_limiter := l\<rparr>) = holds key n us s" for s l
    by (simp add: holds_def counted_def)
  let ?k = "rate_key (rc_prefix AUTH_LIMIT) ip (t div rc_window_secs AUTH_LIMIT)"
  obtain m s' where incr: "redis_incr ?k s = (Inr m, s')" "holds key n us s'"
    using holds_incr [OF assms(1) other] by blast
  from incr(2) have "holds key n us (redis_expire ?k x s')" for x by (rule holds_expire [OF _ other])
  with incr show ?thesis
    by (simp add: enforce_limit_def enforce_def rate_count_def Let_def lim split: if_splits)
qed

lemma bans_users:
  "ensure_user_not_banned t u s = (r, s') \<Longrightarrow> s' = s\<lparr>fd_faults := tl (fd_faults s)\<rparr> \<and>
     r \<in> {Inr (), Inl Internal, Inl (banned_error ''ACCOUNT_BANNED'' ''This account is banned.'')}"
  "ensure_ip_not_banned env t ip s = (r', s'') \<Longrightarrow> s'' \<in> {s, s\<lparr>fd_faults := tl (fd_faults s)\<rparr>} \<and>
     r' \<in> {Inr (), Inl Internal, Inl (banned_error ''IP_BANNED'' ''Access is temporarily restricted.'')}"
  by (cases r; cases r'; auto simp: ensure_user_not_banned_def ensure_ip_not_banned_def active_account_ban_def active_ip_ban_def
    or_internal_def result_iff guard_def split: option.splits if_splits)+

lemma holds_faults [simp]: "holds key n us (s\<lparr>fd_faults := x\<rparr>) = holds key n us s"
  by (simp add: holds_def counted_def)

lemma limited_ip_holds:
  assumes "holds key n us s" and other: "\<And>w. rate_key (rc_prefix AUTH_LIMIT) ip w \<noteq> key"
    and run: "limited_ip env t ip s = (r, s')"
  shows "holds key n us s' \<and> r \<noteq> Inl InvalidCredentials \<and> r \<noteq> Inl invalid_code"
proof -
  obtain q s1 where lim: "enforce_limit (secs_of t) AUTH_LIMIT ip s = (q, s1)" by fastforce
  from holds_limit [OF assms(1) other, of "secs_of t"] lim have s1: "holds key n us s1" and q: "q = Inl RateLimited \<or> (\<exists>x. q = Inr x)"
    by auto
  from q show ?thesis
  proof (elim disjE exE)
    fix x assume "q = Inr x"
    with run lim have "ensure_ip_not_banned env t ip s1 = (r, s')" by (simp add: limited_ip_def st_bind_def)
    from bans_users(2) [OF this] s1 show ?thesis by (auto simp: banned_error_def invalid_code_def)
  qed (use run lim s1 in \<open>auto simp: limited_ip_def st_bind_def invalid_code_def\<close>)
qed

lemma parse_counter:
  assumes "n \<le> 5"
  shows "parse_unsigned (2 ^ 64 - 1) (int_str (sint (of_nat n :: i64_bits))) = Some n"
proof -
  have "n \<in> {0, 1, 2, 3, 4, 5}" using assms by auto
  then have "sint (of_nat n :: i64_bits) = int n" by auto
  moreover have "parse_unsigned b (nat_str n) = (if n \<le> b then Some n else None)" for b
    using nat_str_hd [of n] sign_not_digit(2) parse_nat_str [of n]
    by (auto simp del: parse_nat_str simp add: parse_unsigned_def opt_filter_def split: list.splits)
  ultimately show ?thesis using assms by (simp add: int_str_def)
qed


lemma lock_count_counted:
  assumes "holds key n us s" "n \<le> 5"
  shows "lock_count key s = (Inr n, s)"
proof -
  have clear: "hs_redis_faults s = []" and none: "dm_get (hs_redis_keys s) key = None"
    and c: "map_option fst (dm_get (hs_redis_counters s) key) = (if n = 0 then None else Some (of_nat n))"
    using assms(1) by (simp_all add: holds_def counted_def)
  have "redis_value key s = (if n = 0 then None else Some (int_str (sint (of_nat n :: i64_bits))))"
    using c by (cases "dm_get (hs_redis_counters s) key") (auto simp: redis_value_def none split: if_splits)
  then show ?thesis
    using parse_counter [OF assms(2)] clear
    by (simp add: lock_count_def redis_get_def redis_call_def Let_def no_faults)
qed

lemma increment_counted:
  assumes "holds key n us s"
  shows "holds key (n + 1) us (increment_lockout key s)"
proof -
  have clear: "hs_redis_faults s = []"
    and c: "map_option fst (dm_get (hs_redis_counters s) key) = (if n = 0 then None else Some (of_nat n))"
    using assms by (simp_all add: holds_def counted_def)
  have "fst (count_in key s) = of_nat n"
    using c by (cases "dm_get (hs_redis_counters s) key") (auto simp: count_in_def split: if_splits)
  then have incr: "redis_incr key s = (Inr (of_nat (n + 1)),
      s\<lparr>hs_redis_counters := dm_put key (of_nat (n + 1), snd (count_in key s)) (hs_redis_counters s)\<rparr>)"
    using redis_incr_clear [OF clear, of key] by (simp add: add.commute)
  show ?thesis
    using assms
    by (simp add: increment_lockout_def incr redis_expire_def ignoring_errors_def redis_call_def Let_def holds_def counted_def
        no_faults option.map_comp comp_def case_prod_beta)
qed

lemma holds_log: "holds key n us (log_login u i ip ua d ok risk why s) = holds key n us s"
  by (simp add: log_login_def next_snowflake_def holds_def counted_def)

text \<open>A try with a wrong password is counted, refused by an earlier guard, or finds the account locked.\<close>

lemma wrong_password_counted:
  assumes h: "holds (lock_key_of env (lq_email body)) n us s" and n: "n \<le> 5"
    and wrong: "\<And>u. u \<in> set us \<Longrightarrow> pg_lower env (us_email u) = pg_lower env (lq_email body) \<Longrightarrow>
       verify_task env (us_password_hash u) (lq_password body) = Some False"
    and run: "login env draws now peer headers body s = (r, s')"
  shows "(r = Inl InvalidCredentials \<and> n < 5 \<and> holds (lock_key_of env (lq_email body)) (n + 1) us s') \<or>
    (r \<noteq> Inl InvalidCredentials \<and> \<not> is_ok r \<and> holds (lock_key_of env (lq_email body)) n us s')"
proof -
  let ?ip = "client_of env headers peer" and ?ua = "extract_ua (digests env) headers"
  let ?dev = "parse_device (digests env) ?ua" and ?key = "lock_key_of env (lq_email body)"
  show ?thesis
  proof (cases "validate_fields env [(''email'', valid_email env (lq_email body) \<and> chars_count (lq_email body) \<le> 254),
        (''password'', 1 \<le> chars_count (lq_password body) \<and> chars_count (lq_password body) \<le> 128)]")
    case (Inl e)
    with run h show ?thesis
      by (auto simp: login_def Let_def st_bind_def st_lift_def validate_fields_def guard_def is_ok_def split: if_splits)
  next
    case (Inr x)
    obtain q s1 where lim: "limited_ip env now ?ip s = (q, s1)" by fastforce
    note s1 = limited_ip_holds [OF h auth_key(1) lim]
    show ?thesis
    proof (cases q)
      case (Inl e)
      with run s1 lim Inr show ?thesis by (auto simp: login_def Let_def st_bind_def st_lift_def)
    next
      case q: (Inr y)
      have count: "lock_count ?key s1 = (Inr n, s1)" using lock_count_counted s1 n by blast
      show ?thesis
      proof (cases "5 \<le> n")
        case True
        with run s1 lim Inr q count show ?thesis
          by (auto simp: login_def Let_def st_bind_def st_lift_def MAX_LOGIN_ATTEMPTS_def st_do_def st_modify_def st_fail_def
              holds_log account_locked_def)
      next
        case False
        obtain p s2 where pw: "check_password env ?ip ?ua ?dev body ?key s1 = (p, s2)" by fastforce
        have users: "fd_users s1 = us" using s1 by (simp add: holds_def)
        have "p = Inl InvalidCredentials \<and> holds ?key (n + 1) us s2 \<or> p = Inl Internal \<and> holds ?key n us s2"
        proof -
          obtain f s3 where found_at: "by_email_lower env (lq_email body) s1 = (f, s3)" by fastforce
          have s3: "s3 = s1\<lparr>fd_faults := tl (fd_faults s1)\<rparr>"
            using found_at by (auto simp: by_email_lower_def db_call_def Let_def split: if_splits)
          then have h3: "holds ?key n us s3" using s1 by simp
          show ?thesis
          proof (cases f)
            case (Inl e)
            then show ?thesis using pw found_at h3 by (auto simp: check_password_def or_internal_def st_bind_def st_map_err_def)
          next
            case f: (Inr found)
            show ?thesis
            proof (cases found)
              case None
              then show ?thesis using pw found_at f increment_counted [OF h3]
                by (auto simp: check_password_def or_internal_def st_bind_def st_map_err_def st_do_def st_modify_def st_fail_def
                    log_failed_login_def holds_log)
            next
              case (Some u)
              with found_at f users have "verify_task env (us_password_hash u) (lq_password body) = Some False"
                by (intro wrong) (auto simp: by_email_lower_def result_iff find_Some_iff in_set_conv_nth)
              then show ?thesis using pw found_at f Some increment_counted [OF h3]
                by (auto simp: check_password_def or_internal_def st_bind_def st_map_err_def st_do_def st_modify_def st_fail_def
                    log_failed_login_def holds_log)
            qed
          qed
        qed
        with run s1 lim Inr q count pw False show ?thesis
          by (auto simp: login_def Let_def st_bind_def st_lift_def is_ok_def MAX_LOGIN_ATTEMPTS_def)
      qed
    qed
  qed
qed


text \<open>Tries to log in, one after the other, and their answers.\<close>

record login_try =
  lt_draws :: login_draws
  lt_now_ms :: int
  lt_peer :: ip_addr
  lt_headers :: headers
  lt_body :: login_request

fun login_tries :: "'a login_env_scheme \<Rightarrow> login_try list \<Rightarrow> host \<Rightarrow> (app_error + login_response) list" where
  "login_tries env [] s = []"
| "login_tries env (t # ts) s =
     (case login env (lt_draws t) (lt_now_ms t) (lt_peer t) (lt_headers t) (lt_body t) s of
        (r, s') \<Rightarrow> r # login_tries env ts s')"

definition wrong_try :: "'a login_env_scheme \<Rightarrow> user_row list \<Rightarrow> string \<Rightarrow> login_try \<Rightarrow> bool" where
  "wrong_try env us email t \<longleftrightarrow> str_lowercase env (lq_email (lt_body t)) = email \<and>
     list_all (\<lambda>u. pg_lower env (us_email u) = pg_lower env (lq_email (lt_body t)) \<longrightarrow>
       verify_task env (us_password_hash u) (lq_password (lt_body t)) = Some False) us"

lemma wrong_tries:
  assumes "holds (''login-lock:'' @ hash_token (digests env) email) n us s" "n \<le> 5" "list_all (wrong_try env us email) ts"
  shows "length (filter (\<lambda>r. r = Inl InvalidCredentials) (login_tries env ts s)) \<le> 5 - n \<and>
    list_all (\<lambda>r. \<not> is_ok r) (login_tries env ts s)"
  using assms
proof (induction ts arbitrary: n s)
  case (Cons t ts)
  obtain r s' where run: "login env (lt_draws t) (lt_now_ms t) (lt_peer t) (lt_headers t) (lt_body t) s = (r, s')" by fastforce
  have key: "lock_key_of env (lq_email (lt_body t)) = ''login-lock:'' @ hash_token (digests env) email"
    using Cons.prems(3) by (simp add: lock_key_of_def wrong_try_def)
  have wrong: "verify_task env (us_password_hash u) (lq_password (lt_body t)) = Some False"
    if "u \<in> set us" "pg_lower env (us_email u) = pg_lower env (lq_email (lt_body t))" for u
    using Cons.prems(3) that by (simp add: wrong_try_def list_all_iff)
  from wrong_password_counted [OF Cons.prems(1)[folded key] Cons.prems(2) wrong run]
  consider "r = Inl InvalidCredentials" "n < 5" "holds (lock_key_of env (lq_email (lt_body t))) (n + 1) us s'"
    | "r \<noteq> Inl InvalidCredentials" "\<not> is_ok r" "holds (lock_key_of env (lq_email (lt_body t))) n us s'" by blast
  then show ?case
  proof cases
    case 1
    with Cons.IH [of "n + 1" s'] Cons.prems(3) run key show ?thesis by auto
  next
    case 2
    with Cons.IH [of n s'] Cons.prems run key show ?thesis by simp
  qed
qed simp

text \<open>
  C22. Of the tries to log in with one address that are made one after the other, in the time the
  lockout lasts, at most five have a wrong password compared: whatever addresses of the network the
  tries come from and whatever tries of them are refused before, and none of them answers with a
  ticket or a token. A try here is over before the next begins: the handler reads the counter first
  and increments it after the comparison, so tries that overlap are not limited like this
  (\<open>overlapping_logins_are_not_limited\<close>).
\<close>

theorem five_passwords:
  assumes "hs_redis_faults s = []"
    and "dm_get (hs_redis_keys s) (''login-lock:'' @ hash_token (digests env) email) = None"
    and "dm_get (hs_redis_counters s) (''login-lock:'' @ hash_token (digests env) email) = None"
    and "list_all (wrong_try env (fd_users s) email) ts"
  shows "length (filter (\<lambda>r. r = Inl InvalidCredentials) (login_tries env ts s)) \<le> 5 \<and>
    list_all (\<lambda>r. \<not> is_ok r) (login_tries env ts s)"
  using wrong_tries [of env email 0 "fd_users s" s ts] assms by (simp add: holds_def counted_def)

definition demo_try :: "int \<Rightarrow> login_try" where
  "demo_try t = \<lparr>lt_draws = demo_draws, lt_now_ms = t, lt_peer = demo_peer, lt_headers = Map.empty,
     lt_body = demo_body\<lparr>lq_password := ''guess''\<rparr>\<rparr>"

lemma five_passwords_witness:
  "login_tries demo_login_env [demo_try 600000] demo_login_host = [Inl InvalidCredentials] \<and>
   length (filter (\<lambda>r. r = Inl InvalidCredentials)
     (login_tries demo_login_env (map demo_try [1, 2, 3, 60000, 60001, 60002, 120000]) demo_login_host)) \<le> 5"
proof -
  have clear: "hs_redis_faults demo_login_host = []" "dm_get (hs_redis_keys demo_login_host) k = None"
    "dm_get (hs_redis_counters demo_login_host) k = None" for k
    by (simp_all add: demo_login_host_def demo_host_def)
  have wrong: "list_all (wrong_try demo_login_env (fd_users demo_login_host) ''a@b'')
      (map demo_try [1, 2, 3, 60000, 60001, 60002, 120000])" by code_simp
  have "login_tries demo_login_env [demo_try 600000] demo_login_host = [Inl InvalidCredentials]"
    by code_simp
  with five_passwords [OF clear(1) clear(2) clear(3) wrong] show ?thesis by simp
qed

text \<open>
  The password step does not look at the counter: a login that has read it before the failures of
  others were counted has its password compared, however high the counter is by then.
\<close>

lemma overlapping_logins_are_not_limited:
  assumes "fd_faults s = []"
    and "List.find (\<lambda>u. pg_lower env (us_email u) = pg_lower env (lq_email body)) (fd_users s) = Some u"
    and "verify_task env (us_password_hash u) (lq_password body) = Some ok"
  shows "fst (check_password env ip ua device body (lock_key_of env (lq_email body))
      (s\<lparr>hs_redis_counters := dm_put (lock_key_of env (lq_email body)) failures (hs_redis_counters s)\<rparr>)) =
    (if ok then Inr u else Inl InvalidCredentials)"
  using assms
  by (simp add: check_password_def by_email_lower_def db_call_clear or_internal_def st_map_err_def st_bind_def st_return_def
      st_fail_def st_do_def st_modify_def)

section \<open>The second factor\<close>

locale session_frame = login_frame +
  assumes session_rows: "f (s\<lparr>hs_sessions := x\<rparr>) = f s"
begin

lemma create: "leaves f (create_session env fresh now u ip ua dev geo risk)"
proof -
  have evict: "f (evict_surplus rows s) = f s" for rows s
  proof -
    have "f (try_delete row s) = f s" for row s
      unfolding try_delete_def session_delete_one_def by (rule leaves_ignoring [OF db_call]) (auto simp: session_rows)
    then have "f (fold try_delete rows s) = f s" for rows s by (induction rows arbitrary: s) auto
    then show ?thesis by (simp add: evict_surplus_def)
  qed
  show ?thesis
    unfolding create_session_def session_list_for_user_def session_insert_def
    by (intro leaves_intro db_call db_try draw_leaves ids leaves_modify evict) (auto simp: session_rows split: if_splits)
qed

lemma mark: "f (ignoring_errors (mark_verified i) s) = f s"
  unfolding mark_verified_def session_update_def by (rule leaves_ignoring [OF db_call]) (auto simp: session_rows)

lemma complete: "leaves f (complete_2fa env draws now headers ip u)"
  unfolding complete_2fa_def Let_def
  by (intro leaves_intro risk create leaves_modify log mark mail)

end

text \<open>On the sessions, a login with a second factor is the operation of that name in \<open>Sessions\<close>.\<close>

lemma complete_2fa_sessions:
  assumes "assess_login_risk (us_id u) (device_hash dev) (geo_country (geo_of env ip)) s = (risk, s1)"
    and "dev = parse_device (digests env) (extract_ua (digests env) headers)"
  shows "hs_sessions (snd (complete_2fa env draws now headers ip u s)) =
    hs_sessions (create_after_second_factor (digests env) (ld_session_token draws) now (us_id u) ip
      (extract_ua (digests env) headers) dev (geo_of env ip) risk s1)"
proof -
  obtain q s2 where c: "create_session (digests env) (ld_session_token draws) now (us_id u) ip
      (extract_ua (digests env) headers) dev (geo_of env ip) risk s1 = (q, s2)" by fastforce
  show ?thesis
    using c unfolding complete_2fa_def create_after_second_factor_def assms(2) [symmetric] Let_def
    by (cases q)
      (auto simp: st_bind_def assessed_risk_def assms(1) st_do_def st_modify_def st_return_def st_lift_def log_login_def
        next_snowflake_def send_mail_def ignoring_errors_def mark_verified_def session_update_def db_call_def Let_def
        split: prod.splits sum.splits)
qed

interpretation users: session_frame fd_users
  by unfold_locales simp_all

lemma limit_value:
  assumes "\<And>w. rate_key (rc_prefix config) ip w \<noteq> key" "enforce_limit t config ip s = (r, s')"
  shows "redis_value key s' = redis_value key s"
proof -
  have incr: "redis_value key s2 = redis_value key s1" if "redis_incr k s1 = (q, s2)" "k \<noteq> key" for k s1 q s2
    using that by (auto simp: redis_incr_def redis_call_def Let_def redis_value_def split: prod.splits option.splits if_splits)
  have expire: "redis_value key (redis_expire k n s1) = redis_value key s1" if "k \<noteq> key" for k n s1
    using that by (auto simp: redis_expire_def ignoring_errors_def redis_call_def Let_def redis_value_def split: option.splits)
  have limiter: "redis_value key (s1\<lparr>hs_limiter := l\<rparr>) = redis_value key s1" for s1 l
    by (simp add: redis_value_def split: option.split)
  show ?thesis
    using assms(2) assms(1)
    by (auto simp: enforce_limit_def enforce_def rate_count_def Let_def limiter expire split: prod.splits if_splits sum.splits
        dest!: incr [OF _ assms(1)])
qed

lemma limited_value:
  assumes "limited_ip env t ip s = (Inr x, s')" "\<And>w. rate_key (rc_prefix AUTH_LIMIT) ip w \<noteq> key"
  shows "redis_value key s' = redis_value key s"
proof -
  have faults: "redis_value key (s1\<lparr>fd_faults := l\<rparr>) = redis_value key s1" for s1 l
    by (simp add: redis_value_def split: option.split)
  from assms(1) obtain y s1 where 1: "enforce_limit (secs_of t) AUTH_LIMIT ip s = (Inr y, s1)" and 2: "ensure_ip_not_banned env t ip s1 = (Inr x, s')"
    unfolding limited_ip_def st_bind_Inr by blast
  from bans_users(2) [OF 2] have "s' = s1 \<or> s' = s1\<lparr>fd_faults := tl (fd_faults s1)\<rparr>" by simp
  with limit_value [OF assms(2) 1] faults [of _ s1] show ?thesis by metis
qed

lemma consume_Inr:
  assumes "consume_backup_code now i h s = (Inr True, s')"
  shows "\<exists>v\<in>set (fd_users s). us_id v = i \<and> h \<in> set (us_backup_code_hashes v)"
    "\<forall>v\<in>set (fd_users s'). us_id v = i \<longrightarrow> h \<notin> set (us_backup_code_hashes v)"
proof -
  let ?hit = "\<lambda>u. us_id u = i \<and> h \<in> set (us_backup_code_hashes u)"
  have one: "length (filter ?hit (fd_users s)) = 1"
    and s': "fd_users s' = update_where ?hit (\<lambda>u. u\<lparr>us_backup_code_hashes := removeAll h (us_backup_code_hashes u),
      us_updated_at_ms := now\<rparr>) (fd_users s)"
    using assms by (auto simp: consume_backup_code_def Let_def result_iff)
  from one have "filter ?hit (fd_users s) \<noteq> []" by auto
  then show "\<exists>v\<in>set (fd_users s). us_id v = i \<and> h \<in> set (us_backup_code_hashes v)" by (auto simp: filter_empty_conv)
  show "\<forall>v\<in>set (fd_users s'). us_id v = i \<longrightarrow> h \<notin> set (us_backup_code_hashes v)"
  proof (intro ballI impI)
    fix v assume "v \<in> set (fd_users s')" "us_id v = i"
    with in_update_where [of v ?hit _ "fd_users s"] obtain w where w: "v = (if ?hit w then w\<lparr>us_backup_code_hashes := removeAll h (us_backup_code_hashes w),
      us_updated_at_ms := now\<rparr> else w)" unfolding s' by blast
    show "h \<notin> set (us_backup_code_hashes v)"
      using w \<open>us_id v = i\<close> by (cases "?hit w") simp_all
  qed
qed

text \<open>What a code that passes is.\<close>

definition totp_code_ok :: "'a login_env_scheme \<Rightarrow> int \<Rightarrow> string \<Rightarrow> user_row \<Rightarrow> bool" where
  "totp_code_ok env now_ms code u \<longleftrightarrow> length code = 6 \<and> list_all ascii_digit code \<and>
     (\<exists>key c secret. totp_encryption_key env = Some key \<and> us_totp_secret u = Some c \<and> totp_decrypt env c key = Some secret \<and>
        totp_check env now_ms secret code (us_username u) = Some True)"

definition backup_hash :: "'a login_env_scheme \<Rightarrow> string \<Rightarrow> string option" where
  "backup_hash env code = map_option (hmac_hash env (str_uppercase env (str_replace ''-'' [] code))) (totp_encryption_key env)"

definition has_backup :: "host \<Rightarrow> int \<Rightarrow> string \<Rightarrow> bool" where
  "has_backup s i h \<longleftrightarrow> (\<exists>v\<in>set (fd_users s). us_id v = i \<and> h \<in> set (us_backup_code_hashes v))"

lemma second_factor_Inr:
  assumes "second_factor env now u code s = (Inr x, s')"
  shows "totp_code_ok env now code u \<or>
    (\<exists>h. backup_hash env code = Some h \<and> has_backup s (us_id u) h \<and> \<not> has_backup s' (us_id u) h)"
proof -
  from assms obtain c where c: "us_totp_secret u = Some c" "c \<noteq> []"
    by (auto simp: second_factor_def result_iff split: option.splits if_splits)
  have "\<exists>key secret ok s1 ok' s2. totp_encryption_key env = Some key \<and> totp_decrypt env c key = Some secret \<and>
      totp_step env now secret u code s = (Inr ok, s1) \<and>
      (if ok then st_return True else backup_step env now key u code) s1 = (Inr ok', s2) \<and>
      (if ok' then st_return () else st_fail invalid_code) s2 = (Inr x, s')"
    using assms c unfolding second_factor_def c(1) option.case if_not_P [OF c(2)] st_bind_Inr st_basic_iff ok_or_iff
    by (elim exE conjE, hypsubst) (intro exI conjI, assumption+)
  then obtain key secret ok s1 ok' s2 where run: "totp_encryption_key env = Some key" "totp_decrypt env c key = Some secret"
      "totp_step env now secret u code s = (Inr ok, s1)"
      "(if ok then st_return True else backup_step env now key u code) s1 = (Inr ok', s2)"
      "(if ok' then st_return () else st_fail invalid_code) s2 = (Inr x, s')" by (elim exE conjE)
  have s2: "ok'" "s' = s2" using run(5) by (auto simp: result_iff split: if_splits)
  show ?thesis
  proof (cases ok)
    case True
    with run(3) have "length code = 6" "list_all ascii_digit code" "totp_check env now secret code (us_username u) = Some True"
      by (auto simp: totp_step_def split: if_splits prod.splits sum.splits option.splits)
    with run(1,2) c show ?thesis by (auto simp: totp_code_ok_def)
  next
    case False
    let ?h = "hmac_hash env (str_uppercase env (str_replace ''-'' [] code)) key"
    from False run(4) s2 have use: "consume_backup_code now (us_id u) ?h s1 = (Inr True, s')"
      by (simp add: backup_step_def or_internal_def result_iff)
    have "fd_users s1 = fd_users s"
      using run(3) by (auto simp: totp_step_def redis_get_def redis_call_def Let_def users.setex split: if_splits prod.splits sum.splits option.splits)
    with consume_Inr [OF use] run(1) show ?thesis by (auto simp: has_backup_def backup_hash_def)
  qed
qed

lemma ticket_user_Inr:
  "ticket_user key s = (Inr i, s') \<Longrightarrow> Option.bind (redis_value key s) parse_i64 = Some i"
  by (auto simp: ticket_user_def redis_get_def redis_call_def Let_def ok_or_def split: prod.splits sum.splits option.splits if_splits)

lemma complete_2fa_Inr:
  assumes "complete_2fa env draws now headers ip u s = (Inr r, s')"
  shows "\<exists>access cookie tok. r = Logged_In u access cookie tok False"
  using assms unfolding complete_2fa_def Let_def st_bind_Inr st_basic_iff by blast

lemma login_2fa_Inr:
  assumes "login_2fa env draws now peer headers body s = (Inr r, s')"
  shows "\<exists>x s1 i s2 y s3 n s4 u s5 z s6.
    limited_ip env now (client_of env headers peer) s = (Inr x, s1) \<and>
    ticket_user (ticket_key_of (digests env) (tq_ticket body)) s1 = (Inr i, s2) \<and>
    ensure_user_not_banned now i s2 = (Inr y, s3) \<and>
    count_attempt (attempts_key_of (digests env) (tq_ticket body)) s3 = (Inr n, s4) \<and> n \<le> MAX_2FA_ATTEMPTS_PER_TICKET \<and>
    users_by_id i s4 = (Inr (Some u), s5) \<and> second_factor env now u (tq_code body) s5 = (Inr z, s6) \<and>
    complete_2fa env draws now headers (client_of env headers peer) u
      (redis_try_del (attempts_key_of (digests env) (tq_ticket body)) (redis_try_del (ticket_key_of (digests env) (tq_ticket body)) s6)) = (Inr r, s')"
proof -
  let ?tk = "ticket_key_of (digests env) (tq_ticket body)" and ?ak = "attempts_key_of (digests env) (tq_ticket body)"
    and ?ip = "client_of env headers peer"
  have "\<exists>x s1 i s2 y s3 n s4.
    limited_ip env now ?ip s = (Inr x, s1) \<and> ticket_user ?tk s1 = (Inr i, s2) \<and>
    ensure_user_not_banned now i s2 = (Inr y, s3) \<and> count_attempt ?ak s3 = (Inr n, s4) \<and>
    (if MAX_2FA_ATTEMPTS_PER_TICKET < n then
        st_bind (st_do (redis_try_del ?tk)) (\<lambda>_.
        st_bind (st_do (redis_try_del ?ak)) (\<lambda>_. st_fail too_many_attempts))
      else
      st_bind (or_internal (users_by_id i)) (\<lambda>found.
      st_bind (st_lift (ok_or found Internal)) (\<lambda>user.
      st_bind (second_factor env now user (tq_code body)) (\<lambda>_.
      st_bind (st_do (redis_try_del ?tk)) (\<lambda>_.
      st_bind (st_do (redis_try_del ?ak)) (\<lambda>_.
      complete_2fa env draws now headers ?ip user)))))) s4 = (Inr r, s')"
    using assms unfolding login_2fa_def Let_def st_bind_Inr st_basic_iff
    by (elim exE conjE, hypsubst) (intro exI conjI, assumption+)
  then obtain x s1 i s2 y s3 n s4 where steps: "limited_ip env now ?ip s = (Inr x, s1)" "ticket_user ?tk s1 = (Inr i, s2)"
    "ensure_user_not_banned now i s2 = (Inr y, s3)" "count_attempt ?ak s3 = (Inr n, s4)"
    and rest: "(if MAX_2FA_ATTEMPTS_PER_TICKET < n then
        st_bind (st_do (redis_try_del ?tk)) (\<lambda>_.
        st_bind (st_do (redis_try_del ?ak)) (\<lambda>_. st_fail too_many_attempts))
      else
      st_bind (or_internal (users_by_id i)) (\<lambda>found.
      st_bind (st_lift (ok_or found Internal)) (\<lambda>user.
      st_bind (second_factor env now user (tq_code body)) (\<lambda>_.
      st_bind (st_do (redis_try_del ?tk)) (\<lambda>_.
      st_bind (st_do (redis_try_del ?ak)) (\<lambda>_.
      complete_2fa env draws now headers ?ip user)))))) s4 = (Inr r, s')" by (elim exE conjE)
  have n: "\<not> MAX_2FA_ATTEMPTS_PER_TICKET < n" using rest by (auto simp: result_iff split: if_splits)
  have "\<exists>u s5 z s6. users_by_id i s4 = (Inr (Some u), s5) \<and> second_factor env now u (tq_code body) s5 = (Inr z, s6) \<and>
    complete_2fa env draws now headers ?ip u (redis_try_del ?ak (redis_try_del ?tk s6)) = (Inr r, s')"
    using rest unfolding if_not_P [OF n] st_bind_Inr st_do_def st_basic_iff or_internal_def st_map_err_Inr ok_or_iff
    by (elim exE conjE, hypsubst) (intro exI conjI, assumption+)
  with steps n show ?thesis by (auto simp: not_less)
qed

text \<open>
  C8. A second-factor login answers only for the user a ticket stands for, as the ticket was handed
  out after that user's password was right, who is not banned, with a code that is right: a current
  TOTP code of six digits for the user's secret, or a backup code of the user, which no row holds any
  more afterwards.
\<close>

theorem second_factor_is_checked:
  assumes "login_2fa env draws now peer headers body s = (Inr r, s')"
  shows "\<exists>u\<in>set (fd_users s). (\<exists>access cookie tok. r = Logged_In u access cookie tok False) \<and>
    Option.bind (redis_value (ticket_key_of (digests env) (tq_ticket body)) s) parse_i64 = Some (us_id u) \<and>
    \<not> ip_banned env now (client_of env headers peer) s \<and> \<not> account_banned now (us_id u) s \<and>
    (totp_code_ok env now (tq_code body) u \<or>
     (\<exists>h. backup_hash env (tq_code body) = Some h \<and> has_backup s (us_id u) h \<and> \<not> has_backup s' (us_id u) h))"
proof -
  let ?tk = "ticket_key_of (digests env) (tq_ticket body)" and ?ak = "attempts_key_of (digests env) (tq_ticket body)"
    and ?ip = "client_of env headers peer"
  obtain x s1 i s2 y s3 n s4 u s5 z s6 where run: "limited_ip env now ?ip s = (Inr x, s1)"
    "ticket_user ?tk s1 = (Inr i, s2)" "ensure_user_not_banned now i s2 = (Inr y, s3)"
    "count_attempt ?ak s3 = (Inr n, s4)" "users_by_id i s4 = (Inr (Some u), s5)"
    "second_factor env now u (tq_code body) s5 = (Inr z, s6)"
    "complete_2fa env draws now headers ?ip u (redis_try_del ?ak (redis_try_del ?tk s6)) = (Inr r, s')"
    using login_2fa_Inr [OF assms] by (elim exE conjE)
  have p1: "people s1 = people s" by (rule leavesD [OF people.limited run(1)])
  have p2: "people s2 = people s" using leavesD [OF people.ticket run(2)] p1 by simp
  have p4: "people s4 = people s" using leavesD [OF people.attempt run(4)] leavesD [OF people.bans(1) run(3)] p2 by simp
  have p5: "people s5 = people s" using leavesD [OF people.reads(1) run(5)] p4 by simp
  have u: "u \<in> set (fd_users s)" "us_id u = i"
    using run(5) p4 by (auto simp: users_by_id_def result_iff find_Some_iff in_set_conv_nth people_def)
  have ticket: "Option.bind (redis_value ?tk s) parse_i64 = Some i"
    using ticket_user_Inr [OF run(2)] limited_value [OF run(1) auth_key(3) [where denv = "digests env" and ticket = "tq_ticket body"]] by simp
  have banned: "\<not> account_banned now i s" using user_not_banned [OF run(3)] people_bans(1) [of s2 s] p2 by simp
  have last: "fd_users s' = fd_users s6" using leavesD [OF users.complete run(7)] users.del by simp
  have "fd_users s5 = fd_users s" using p5 by (simp add: people_def)
  with second_factor_Inr [OF run(6)] last
  have code: "totp_code_ok env now (tq_code body) u \<or>
     (\<exists>h. backup_hash env (tq_code body) = Some h \<and> has_backup s (us_id u) h \<and> \<not> has_backup s' (us_id u) h)"
    by (simp add: has_backup_def)
  show ?thesis
    using u ticket banned code limited_ip_Inr [OF run(1)] complete_2fa_Inr [OF run(7)] by (intro bexI [OF _ u(1)]) simp
qed

definition demo_ticket_host :: host where
  "demo_ticket_host = demo_login_host\<lparr>hs_redis_keys := [(ticket_key_of (digests demo_login_env) ''ticket'', ''50'')]\<rparr>"

lemma second_factor_is_checked_witness:
  "\<exists>r s'. login_2fa demo_login_env demo_draws 600000 demo_peer Map.empty \<lparr>tq_ticket = ''ticket'', tq_code = ''aa-aa''\<rparr> demo_ticket_host = (Inr r, s') \<and>
     has_backup demo_ticket_host 50 ''AAAA'' \<and> \<not> has_backup s' 50 ''AAAA''"
proof -
  let ?b = "\<lparr>tq_ticket = ''ticket'', tq_code = ''aa-aa''\<rparr>"
  have "(case login_2fa demo_login_env demo_draws 600000 demo_peer Map.empty ?b demo_ticket_host of (q, t) \<Rightarrow> is_ok q)" by code_simp
  then obtain r s' where run: "login_2fa demo_login_env demo_draws 600000 demo_peer Map.empty ?b demo_ticket_host = (Inr r, s')"
    by (auto simp: is_ok_iff)
  have h: "backup_hash demo_login_env ''aa-aa'' = Some ''AAAA''" by code_simp
  have "\<not> totp_code_ok demo_login_env 600000 ''aa-aa'' u" for u by (simp add: totp_code_ok_def)
  with second_factor_is_checked [OF run] h
  have "has_backup demo_ticket_host 50 ''AAAA'' \<and> \<not> has_backup s' 50 ''AAAA''"
    by (auto simp: demo_ticket_host_def demo_login_host_def demo_member_def)
  with run show ?thesis by blast
qed

section \<open>What the checks do not cover\<close>

text \<open>
  A password alone restores a deleted account that has a second factor, and with it every server the
  user owned, also one that was deleted for itself before.
\<close>

definition demo_gone_host :: host where
  "demo_gone_host = demo_host\<lparr>fd_users := [demo_member\<lparr>us_deleted_at_ms := Some 1000\<rparr>],
     hs_pg := (hs_pg demo_host)\<lparr>db_servers := map (\<lambda>r. r\<lparr>sv_owner_id := 50, sv_deleted_at := Some 5\<rparr>) (db_servers (hs_pg demo_host))\<rparr>\<rparr>"

lemma password_restores_account_and_servers:
  "case login demo_login_env demo_draws 600000 demo_peer Map.empty demo_body demo_gone_host of
     (r, s') \<Rightarrow> r = Inr (Two_Factor ''ticket'') \<and> map us_deleted_at_ms (fd_users s') = [None] \<and>
       map sv_deleted_at (db_servers (hs_pg s')) = [None]"
  by code_simp

text \<open>When Redis does not answer, a used TOTP code passes again and attempts are not counted.\<close>

lemma replay_check_fails_open:
  assumes "hs_redis_faults s = True # rest" "length code = 6" "list_all ascii_digit code"
    "totp_check env now secret code (us_username u) = Some True"
  shows "fst (totp_step env now secret u code s) = Inr True"
  using assms by (simp add: totp_step_def redis_get_def redis_call_def Let_def)

lemma attempts_fail_open:
  "hs_redis_faults s = True # rest \<Longrightarrow> fst (count_attempt key s) = Inr 1"
  by (simp add: count_attempt_def redis_incr_def redis_call_def Let_def)

end
