(* ===== verification/Spec2Isabelle.thy ===== *)
theory Spec2Isabelle
  imports Snowflake Bot_Perms Channel_Access Fed_Outbox Fed_Receive Fed_Producer Login
begin

text \<open>
  A verification development of the Verdant backend (\<open>src/server-rs\<close>), a chat server in Rust: an
  HTTP and WebSocket front end over Postgres and Redis that several nodes run side by side, and
  that talks to other installations (peers) over a signed federation protocol. Paths below are
  relative to \<open>src/server-rs/src\<close>.

  \<^bold>\<open>How the parts interact.\<close> A user signs in (\<open>Login\<close>) and gets a session (\<open>Sessions\<close>) and an access
  token (\<open>Access_Tokens\<close>). A request is rate limited by the client's address (\<open>Rate_Limit\<close>,
  \<open>Client_Ip\<close>) and admitted by its token (\<open>Request_Auth\<close>); its access is checked against the
  permission cache (\<open>Perm_Cache\<close>, \<open>Channel_Access\<close>) which is filled from Postgres
  (\<open>Pg_Store\<close>, \<open>Perm_Load\<close>), its handler changes tables, caches and subscriptions (\<open>Host\<close>), and
  the events it causes are published to topics: to Redis for the other nodes (\<open>Topics\<close>) and to
  this node's connections through the coalescing fan-out (\<open>Broadcast\<close>, \<open>Conn_Manager\<close>). Events from
  a peer enter at one endpoint (\<open>Fed_Receive\<close>): signature (\<open>Fed_Auth\<close>), envelope (\<open>Fed_Protocol\<close>),
  command (\<open>Fed_Ingress\<close>), effect (\<open>Fed_Membership\<close>); a local event becomes an envelope per peer
  (\<open>Fed_Producer\<close>) that is queued in a table and sent by a dispatcher (\<open>Fed_Storage\<close>, \<open>Fed_Outbox\<close>,
  \<open>Fed_Client\<close>).

  \<^bold>\<open>Conventions.\<close> A struct is a record, an enum a datatype, \<open>i64\<close> permission masks and the
  counters that may wrap are words, Snowflake ids are \<open>int\<close>. A \<open>DashMap\<close> or \<open>HashMap\<close> is an
  association list with distinct keys and a \<open>HashSet\<close> a distinct list whose order no theorem uses.
  \<open>Result\<close> is a sum with \<open>Inl\<close> for \<open>Err\<close>. Text is its UTF-8 bytes. A table is a list of rows, a
  statement a function on it; whether a statement or a Redis call fails is decided by a function
  in the state (\<open>db_fails\<close>, \<open>fd_faults\<close>, \<open>hs_redis_faults\<close>) that every theorem quantifies over.
  Clocks, random bytes, cryptography, JSON text, URL parsing, DNS and the protobuf codec are
  parameters, gathered in records of functions; what a theorem needs of them is its hypothesis.

  \<^bold>\<open>The theories.\<close>
  \<^item> \<open>Prelude\<close>, \<open>Decimal\<close>, \<open>Text_Bytes\<close>, \<open>Json_Value\<close>: the standard-library types and their laws, and
    the locale of a state machine with an invariant. \<open>Errors\<close>: \<open>error.rs\<close>.
  \<^item> \<open>Pg_Store\<close>: the read queries of \<open>services/pg\<close> over the permission tables.
  \<^item> \<open>Perm_Cache\<close>, \<open>Perm_Load\<close>: \<open>services/permissions.rs\<close>. \<open>Perm_Spec\<close> states a mask as a condition on
    sets of roles and proves the folds and binary searches equal to it; \<open>Perm_Inv\<close> proves the
    invariant of the cache for every operation; \<open>Perm_Props\<close> and \<open>Perm_Refine\<close> relate cache,
    fallbacks and tables.
  \<^item> \<open>Snowflake\<close>: \<open>snowflake.rs\<close>, with the concurrent calls as a step relation.
  \<^item> \<open>Bot_Perms\<close>, \<open>Channel_Access\<close>: \<open>services/bot_permissions.rs\<close>, \<open>services/channel_access.rs\<close>.
  \<^item> \<open>Rate_Limit\<close>: \<open>middleware/rate_limit.rs\<close>. \<open>Client_Ip\<close>: the client address of \<open>handlers/mod.rs\<close>.
  \<^item> \<open>Sessions\<close>: \<open>services/session.rs\<close>, \<open>services/pg/sessions.rs\<close> and \<open>services/risk.rs\<close>, with all
    that is done to a session as one machine (\<open>session_step\<close>). \<open>Access_Tokens\<close>: the tokens of
    \<open>services/crypto.rs\<close>. \<open>Request_Auth\<close>: \<open>middleware/auth.rs\<close> and \<open>services/app_bans.rs\<close>. \<open>Login\<close>:
    the handlers of \<open>handlers/auth.rs\<close> that sign in and out, \<open>services/device.rs\<close> and the login log.
  \<^item> \<open>Conn_Manager\<close>: \<open>ws/mod.rs\<close>. \<open>Broadcast\<close>: \<open>services/broadcast.rs\<close>, coalescer, workers,
    publishers and the write tasks of the connections as interleaved steps. \<open>Topics\<close>: \<open>ws/topics.rs\<close>. \<open>Ws_Events\<close>: the events of
    \<open>ws/events.rs\<close> that modelled code publishes.
  \<^item> \<open>User_Cache\<close>: \<open>services/user_cache.rs\<close> and \<open>services/cdn.rs\<close>. \<open>Net_Address\<close>:
    \<open>services/public_net.rs\<close>.
  \<^item> \<open>Fed_Identity\<close>, \<open>Fed_Protocol\<close>, \<open>Fed_Schema\<close>, \<open>Fed_Auth\<close>, \<open>Fed_Ingress\<close>, \<open>Fed_Client\<close>,
    \<open>Fed_Storage\<close>, \<open>Fed_Outbox\<close>, \<open>Fed_Producer\<close>: the files of \<open>federation/\<close> of these names, the last
    with \<open>invite_join.rs\<close>. \<open>Fed_Schema\<close> is the specification of the payload validation.
  \<^item> \<open>Host\<close>: the state the handlers share and the storage writes they call. \<open>Fed_Membership\<close>,
    \<open>Fed_Receive\<close>: the federation handlers of \<open>handlers/federation.rs\<close>.

  \<^bold>\<open>What the lemmas show.\<close> Each component has an invariant or a functional description of its
  operations, on the error branches too. The interfaces are locales: the state machine with an
  invariant (interpreted by the cache, the connection manager, the fan-out, the outbox and the
  sessions), the properties of the session rows that every statement keeps, and the frames of
  \<open>Host\<close>, \<open>Fed_Membership\<close> and \<open>Login\<close>, which say once which parts of the state a step leaves alone.
  The 40 properties stand in the theories of the components they are about: who gets in (signing
  in, sessions, tokens, admission, client address), what a member may do (permission cache, tables,
  channels, bots), that what is published arrives (connection manager, topics, fan-out), and that
  two installations can trust each other's events (signatures, replay, effects, delivery). Lemmas
  beside them show where the code does less than it means to, such as what overlapping requests do
  to a limit that is read before it is counted.

  \<^bold>\<open>Bounds and fuel.\<close> Queue capacities, windows and limits are the constants of the code.
  \<open>next_id\<close> is a partial function of the sequence of clock readings, and a theorem shows when it
  returns; the outbox dispatcher is one call per tick and its bound is on the number of sends
  over any number of ticks. That the fan-out drains is proved by a lexicographic measure on its
  queues. The pagination and retry loops are structural.

  \<^bold>\<open>Not modelled.\<close> The HTTP handlers but those of signing in and of federation events, WebSocket
  commands and the statements only they use; registration, password reset and the setting up of a
  second factor; message storage, uploads, voice, announcements, link previews and text filters,
  which are for later theories on the base of \<open>Host\<close>; configuration, start-up and generated
  protobuf code; the libraries themselves. An \<open>await\<close> inside a handler is not an interleaving point: a handler runs
  alone between its start and its end, except in \<open>Snowflake\<close>, \<open>Broadcast\<close>, \<open>Perm_Cache\<close>'s timers and the
  rotations of \<open>Sessions\<close>, where the interleaving is the point; where a limit depends on it, a lemma
  shows what overlapping requests do.
\<close>

end
